(* ===== verification/Prelude.thy ===== *)
theory Prelude
  imports Complex_Main "HOL-Library.Multiset"
begin

text \<open>
  The vocabulary every component shares.

  \<^item> Results: a computation that may raise is a value of \<open>'e + 'a\<close>; \<open>rbind\<close> sequences two of
    them and \<open>ensure\<close> is a guard that raises.  A transaction that raises is rolled back, so an
    error value carries no state.
  \<^item> PostgreSQL values: SQLSTATE codes, text as a list of Unicode code points, \<open>integer\<close> with its
    overflow error, \<open>timestamptz\<close> with its two infinities.
  \<^item> Queries: \<open>latest_by\<close> is \<open>ORDER BY \<dots> DESC LIMIT 1\<close>, \<open>find\<close> a lookup by key.
  \<^item> Python dictionaries: association lists in insertion order.
\<close>

named_theorems result_simps \<open>how results and guards evaluate and invert\<close>
named_theorems row_simps \<open>how table reads behave under table writes\<close>

section \<open>Results\<close>

definition rbind :: "'e + 'a \<Rightarrow> ('a \<Rightarrow> 'e + 'b) \<Rightarrow> 'e + 'b" where
  "rbind m f = (case m of Inl e \<Rightarrow> Inl e | Inr x \<Rightarrow> f x)"

definition ensure :: "bool \<Rightarrow> 'e \<Rightarrow> 'e + 'a \<Rightarrow> 'e + 'a" where
  "ensure b e k = (if b then k else Inl e)"

definition map_error :: "('e \<Rightarrow> 'g) \<Rightarrow> 'e + 'a \<Rightarrow> 'g + 'a" where
  "map_error f m = (case m of Inl e \<Rightarrow> Inl (f e) | Inr x \<Rightarrow> Inr x)"

definition from_option :: "'e \<Rightarrow> 'a option \<Rightarrow> 'e + 'a" where
  "from_option e m = (case m of None \<Rightarrow> Inl e | Some x \<Rightarrow> Inr x)"

definition raised :: "'e + 'a \<Rightarrow> bool" where
  "raised m = (case m of Inl _ \<Rightarrow> True | Inr _ \<Rightarrow> False)"

lemma rbind_simps [simp, result_simps]:
  "rbind (Inl e) f = Inl e"
  "rbind (Inr x) f = f x"
  by (simp_all add: rbind_def)

lemma rbind_Inr_iff [result_simps]: "rbind m f = Inr y \<longleftrightarrow> (\<exists>x. m = Inr x \<and> f x = Inr y)"
  by (cases m) auto

lemma rbind_Inl_iff: "rbind m f = Inl e \<longleftrightarrow> m = Inl e \<or> (\<exists>x. m = Inr x \<and> f x = Inl e)"
  by (cases m) auto

lemma ensure_simps [simp, result_simps]:
  "ensure True e k = k"
  "ensure False e k = Inl e"
  by (simp_all add: ensure_def)

lemma ensure_Inr_iff [result_simps]: "ensure b e k = Inr x \<longleftrightarrow> b \<and> k = Inr x"
  by (simp add: ensure_def)

lemma map_error_Inr_iff [simp, result_simps]: "map_error f m = Inr x \<longleftrightarrow> m = Inr x"
  by (cases m) (auto simp: map_error_def)

lemma map_error_simps [simp]: "map_error f (Inl e) = Inl (f e)" "map_error f (Inr x) = Inr x"
  by (simp_all add: map_error_def)

lemma from_option_simps [simp]:
  "from_option e None = Inl e" "from_option e (Some x) = Inr x"
  by (simp_all add: from_option_def)

lemma from_option_Inr_iff [result_simps]: "from_option e m = Inr x \<longleftrightarrow> m = Some x"
  by (cases m) auto

lemma raised_simps [simp]: "raised (Inl e)" "\<not> raised (Inr x)"
  by (simp_all add: raised_def)

text \<open>Running an operation over a list stops at the first raise, as the loop of the source would.\<close>

fun fold_result :: "('a \<Rightarrow> 's \<Rightarrow> 'e + 's) \<Rightarrow> 'a list \<Rightarrow> 's \<Rightarrow> 'e + 's" where
  "fold_result f [] s = Inr s"
| "fold_result f (x # xs) s = rbind (f x s) (fold_result f xs)"

lemma fold_result_append:
  "fold_result f (xs @ ys) s = rbind (fold_result f xs s) (fold_result f ys)"
  by (induction xs arbitrary: s) (auto simp: rbind_def split: sum.splits)

fun map_result :: "('a \<Rightarrow> 'e + 'b) \<Rightarrow> 'a list \<Rightarrow> 'e + 'b list" where
  "map_result f [] = Inr []"
| "map_result f (x # xs) = rbind (f x) (\<lambda>y. rbind (map_result f xs) (\<lambda>ys. Inr (y # ys)))"

lemma map_result_Inr: "map_result f xs = Inr ys \<longleftrightarrow> list_all2 (\<lambda>x y. f x = Inr y) xs ys"
proof (induction xs arbitrary: ys)
  case Nil
  then show ?case by (auto simp: eq_commute)
next
  case (Cons x xs)
  then show ?case by (cases ys) (auto simp: rbind_Inr_iff)
qed

lemma map_result_all: "(\<And>x. x \<in> set xs \<Longrightarrow> f x = Inr (g x)) \<Longrightarrow> map_result f xs = Inr (map g xs)"
  by (induction xs) auto

section \<open>PostgreSQL values\<close>

datatype sqlstate =
    E22003 | E22008 | E23502 | E23503 | E23505 | E23514 | E40001 | E40P01 | E42501 | EP0001 | EP0002

type_synonym uuid = nat

type_synonym pgtext = "nat list"

type_synonym bytes = "nat list"

definition lit :: "string \<Rightarrow> pgtext" where
  "lit s = map of_char s"

text \<open>\<open>btrim(value, characters)\<close>.\<close>

definition btrim_set :: "nat set \<Rightarrow> pgtext \<Rightarrow> pgtext" where
  "btrim_set cs t = rev (dropWhile (\<lambda>c. c \<in> cs) (rev (dropWhile (\<lambda>c. c \<in> cs) t)))"

text \<open>\<open>btrim(value)\<close> strips spaces only.\<close>

definition btrim :: "pgtext \<Rightarrow> pgtext" where
  "btrim = btrim_set {32}"

definition length_between :: "nat \<Rightarrow> nat \<Rightarrow> pgtext \<Rightarrow> bool" where
  "length_between lo hi t \<longleftrightarrow> lo \<le> length t \<and> length t \<le> hi"

text \<open>The POSIX class \<open>[:space:]\<close> in the C locale; other locales only add characters.\<close>

definition pg_space :: "nat \<Rightarrow> bool" where
  "pg_space c \<longleftrightarrow> c \<in> {9, 10, 11, 12, 13, 32}"

definition has_nonspace :: "pgtext \<Rightarrow> bool" where
  "has_nonspace t \<longleftrightarrow> (\<exists>c \<in> set t. \<not> pg_space c)"

definition int4_max :: int where
  "int4_max = 2147483647"

text \<open>Addition on the SQL type \<open>integer\<close> raises 22003 where a machine integer would wrap.\<close>

definition int4_add :: "int \<Rightarrow> int \<Rightarrow> sqlstate + int" where
  "int4_add a b = (if - int4_max - 1 \<le> a + b \<and> a + b \<le> int4_max then Inr (a + b) else Inl E22003)"

lemma int4_add_Inr_iff [result_simps]:
  "int4_add a b = Inr c \<longleftrightarrow> c = a + b \<and> - int4_max - 1 \<le> c \<and> c \<le> int4_max"
  by (auto simp: int4_add_def)

datatype tstz = NegInfinity | At int | PosInfinity

fun isfinite :: "tstz \<Rightarrow> bool" where
  "isfinite (At _) = True"
| "isfinite _ = False"

instantiation tstz :: linorder
begin

fun less_eq_tstz :: "tstz \<Rightarrow> tstz \<Rightarrow> bool" where
  "less_eq_tstz NegInfinity _ = True"
| "less_eq_tstz _ PosInfinity = True"
| "less_eq_tstz (At a) (At b) = (a \<le> b)"
| "less_eq_tstz _ _ = False"

definition less_tstz :: "tstz \<Rightarrow> tstz \<Rightarrow> bool" where
  "less_tstz a b \<longleftrightarrow> a \<le> b \<and> \<not> b \<le> a"

instance
proof
  fix x y z :: tstz
  show "(x < y) = (x \<le> y \<and> \<not> y \<le> x)" by (simp add: less_tstz_def)
  show "x \<le> x" by (cases x) auto
  show "x \<le> y \<Longrightarrow> y \<le> z \<Longrightarrow> x \<le> z" by (cases x; cases y; cases z) auto
  show "x \<le> y \<Longrightarrow> y \<le> x \<Longrightarrow> x = y" by (cases x; cases y) auto
  show "x \<le> y \<or> y \<le> x" by (cases x; cases y) auto
qed

end

lemma less_tstz_At [simp]: "At a < At b \<longleftrightarrow> a < b"
  by (auto simp: less_tstz_def)

text \<open>The SQL type \<open>numeric\<close> has two infinities and a \<open>NaN\<close>, which sorts above all.\<close>

datatype numeric = NegInf | Num rat | PosInf | NaN

fun numeric_less :: "numeric \<Rightarrow> numeric \<Rightarrow> bool" where
  "numeric_less (Num a) (Num b) = (a < b)"
| "numeric_less NegInf b = (b \<noteq> NegInf)"
| "numeric_less (Num a) b = (b = PosInf \<or> b = NaN)"
| "numeric_less PosInf b = (b = NaN)"
| "numeric_less NaN b = False"

text \<open>\<open>value > 0 AND value < 'Infinity'\<close>, and the same check admitting zero.\<close>

definition positive_finite :: "numeric \<Rightarrow> bool" where
  "positive_finite n \<longleftrightarrow> numeric_less (Num 0) n \<and> numeric_less n PosInf"

definition nonneg_finite :: "numeric \<Rightarrow> bool" where
  "nonneg_finite n \<longleftrightarrow> \<not> numeric_less n (Num 0) \<and> numeric_less n PosInf"

lemma positive_finite_iff: "positive_finite n \<longleftrightarrow> (\<exists>r > 0. n = Num r)"
  by (cases n) (auto simp: positive_finite_def)

lemma nonneg_finite_iff: "nonneg_finite n \<longleftrightarrow> (\<exists>r \<ge> 0. n = Num r)"
  by (cases n) (auto simp: nonneg_finite_def not_less)

section \<open>Queries over tables\<close>

text \<open>\<open>ORDER BY key DESC LIMIT 1\<close>; the tables have no ties on the keys the source orders by.\<close>

fun latest_by :: "('a \<Rightarrow> int) \<Rightarrow> 'a list \<Rightarrow> 'a option" where
  "latest_by k [] = None"
| "latest_by k (x # xs) =
     (case latest_by k xs of
        None \<Rightarrow> Some x
      | Some y \<Rightarrow> if k y < k x then Some x else Some y)"

lemma latest_by_None_iff [simp]: "latest_by k xs = None \<longleftrightarrow> xs = []"
  by (cases xs) (auto split: option.splits)

lemma latest_by_in: "latest_by k xs = Some y \<Longrightarrow> y \<in> set xs"
  by (induction xs arbitrary: y) (auto split: option.splits if_splits)

lemma latest_by_max: "latest_by k xs = Some y \<Longrightarrow> x \<in> set xs \<Longrightarrow> k x \<le> k y"
  by (induction xs arbitrary: y) (fastforce split: option.splits if_splits)+

lemma latest_by_snoc:
  assumes "\<forall>x \<in> set xs. k x \<le> k y"
  shows "latest_by k (xs @ [y]) = Some y"
  using assms
proof (induction xs)
  case Nil
  then show ?case by simp
next
  case (Cons x xs)
  then show ?case by auto
qed

lemma latest_by_sorted:
  assumes "sorted_wrt (\<lambda>a b. k a < k b) xs" and "xs \<noteq> []"
  shows "latest_by k xs = Some (last xs)"
proof -
  obtain ys y where xs: "xs = ys @ [y]"
    using assms(2) by (cases xs rule: rev_cases) auto
  have "\<forall>x \<in> set ys. k x \<le> k y"
    using assms(1) by (auto simp: xs sorted_wrt_append)
  then show ?thesis by (simp add: xs latest_by_snoc)
qed

lemma find_Some_in: "List.find P xs = Some x \<Longrightarrow> x \<in> set xs \<and> P x"
  by (auto simp: find_Some_iff)

lemma find_append:
  "List.find P (xs @ ys) = (case List.find P xs of None \<Rightarrow> List.find P ys | Some x \<Rightarrow> Some x)"
  by (induction xs) auto

text \<open>A row is found by a key that distinguishes the rows of its table.\<close>

lemma find_unique:
  assumes "distinct (map k xs)" and "x \<in> set xs"
  shows "List.find (\<lambda>y. k y = k x) xs = Some x"
  using assms by (induction xs) (auto simp: rev_image_eqI)

text \<open>The same when the search also asks for more than the key.\<close>

lemma find_key:
  assumes "distinct (map k xs)" "x \<in> set xs" "P x" "\<And>y. P y \<Longrightarrow> k y = k x"
  shows "List.find P xs = Some x"
  using assms
proof (induction xs)
  case (Cons y ys)
  show ?case
  proof (cases "P y")
    case True
    then have "k y = k x" by (rule Cons.prems(4))
    then have "x = y" using Cons.prems(1,2) by (auto simp: image_iff)
    then show ?thesis using True by simp
  next
    case False
    then have "x \<in> set ys" "distinct (map k ys)" using Cons.prems by auto
    from Cons.IH [OF this(2,1) Cons.prems(3,4)] show ?thesis using False by simp
  qed
qed simp

section \<open>Python dictionaries\<close>

text \<open>
  A dictionary is an association list in insertion order: assigning an existing key keeps its
  position, a new key goes to the end.
\<close>

fun dict_set :: "'k \<Rightarrow> 'v \<Rightarrow> ('k \<times> 'v) list \<Rightarrow> ('k \<times> 'v) list" where
  "dict_set k v [] = [(k, v)]"
| "dict_set k v ((k', v') # d) = (if k' = k then (k, v) # d else (k', v') # dict_set k v d)"

definition dict_append :: "'k \<Rightarrow> 'v \<Rightarrow> ('k \<times> 'v list) list \<Rightarrow> ('k \<times> 'v list) list" where
  "dict_append k v d =
     dict_set k (case map_of d k of None \<Rightarrow> [v] | Some vs \<Rightarrow> vs @ [v]) d"

lemma map_of_dict_set [simp]: "map_of (dict_set k v d) = (map_of d)(k \<mapsto> v)"
  by (induction k v d rule: dict_set.induct) auto

lemma keys_dict_set:
  "map fst (dict_set k v d) = (if k \<in> fst ` set d then map fst d else map fst d @ [k])"
  by (induction k v d rule: dict_set.induct) auto

lemma dict_set_new: "k \<notin> fst ` set d \<Longrightarrow> dict_set k v d = d @ [(k, v)]"
  by (induction k v d rule: dict_set.induct) auto

lemma dict_set_last: "k \<notin> fst ` set d \<Longrightarrow> dict_set k v (d @ [(k, w)]) = d @ [(k, v)]"
  by (induction k v d rule: dict_set.induct) auto

end
