(* ===== verification/Schema.thy ===== *)
theory Schema
  imports Prelude
begin

text \<open>
  The tables of the database, after \<open>server/fleetops/db/metadata.py\<close>, as records of rows, and
  their enumerations.  A table is the list of its rows in insertion order; \<open>fleet\<close> is the whole
  database.  The request context (\<open>ctx\<close>) holds what a transaction carries besides its arguments:
  the two \<open>SET LOCAL\<close> settings of \<open>db/tenancy.py\<close>, the caller's Actor hint, the statement clock
  and whether the login role is \<open>fleetops_app\<close>.
\<close>

section \<open>Enumerations\<close>

datatype asset_state =
  CONFIGURING | DEPLOYED | IN_STOCK | ON_HOLD | OUT_OF_SERVICE | READY | RECEIVED | RETIRED

datatype actor_type = HUMAN | SYSTEM | DEVICE | INTEGRATION

datatype correction_role = NONE | REVERSAL | CORRECTED

datatype assignee_kind = TO_ACTOR | TO_LOCATION | TO_PARTY

text \<open>
  \<open>StrEnum\<close> members compare as their strings, so \<open>sorted\<close> orders the states alphabetically, which
  is the order of the constructors above.
\<close>

fun state_rank :: "asset_state \<Rightarrow> nat" where
  "state_rank CONFIGURING = 0"
| "state_rank DEPLOYED = 1"
| "state_rank IN_STOCK = 2"
| "state_rank ON_HOLD = 3"
| "state_rank OUT_OF_SERVICE = 4"
| "state_rank READY = 5"
| "state_rank RECEIVED = 6"
| "state_rank RETIRED = 7"

lemma state_rank_inj: "state_rank s = state_rank t \<longleftrightarrow> s = t"
  by (cases s; cases t) simp_all

instantiation asset_state :: linorder
begin

definition less_eq_asset_state :: "asset_state \<Rightarrow> asset_state \<Rightarrow> bool" where
  "less_eq_asset_state s t \<longleftrightarrow> state_rank s \<le> state_rank t"

definition less_asset_state :: "asset_state \<Rightarrow> asset_state \<Rightarrow> bool" where
  "less_asset_state s t \<longleftrightarrow> state_rank s < state_rank t"

instance
  by standard (auto simp: less_eq_asset_state_def less_asset_state_def state_rank_inj)

end

section \<open>Request context\<close>

record ctx =
  x_org :: "uuid option"
  x_digest_hex :: "pgtext option"
  x_actor_hint :: "uuid option"
  x_now :: int
  x_app :: bool
  x_txn :: nat

section \<open>Identity\<close>

record actor_row =
  ac_id :: uuid
  ac_org :: uuid
  ac_type :: actor_type
  ac_name :: pgtext
  ac_active :: bool
  ac_created_by :: uuid

record party_row =
  pa_id :: uuid
  pa_org :: uuid
  pa_name :: pgtext
  pa_created_by :: uuid

record user_row =
  us_id :: uuid
  us_org :: uuid
  us_actor :: uuid
  us_username :: pgtext
  us_password_hash :: pgtext
  us_active :: bool

record session_row =
  se_id :: uuid
  se_org :: uuid
  se_user :: uuid
  se_digest :: bytes
  se_active :: bool
  se_created :: tstz
  se_expires :: tstz

section \<open>Catalog and space\<close>

datatype party_role = VENDOR | MANUFACTURER | CUSTOMER | CARRIER | SUBCONTRACTOR | INTERNAL

datatype uom = EA | M | MM | CM | IN_UOM | FT | G | MG | KG | ML_UOM | L

datatype location_kind = SITE | ROOM | RACK | BIN | STATION | DOCK | VEHICLE | OTHER_KIND

datatype reference_entity = ITEM | PARTY

record role_row =
  pr_id :: uuid
  pr_org :: uuid
  pr_party :: uuid
  pr_role :: party_role

record item_row =
  it_id :: uuid
  it_org :: uuid
  it_manufacturer :: uuid
  it_mpn :: pgtext
  it_revision :: "pgtext option"
  it_description :: pgtext
  it_uom :: uom
  it_serialized :: bool
  it_classification :: "pgtext option"
  it_controlled :: bool
  it_active :: bool
  it_created_by :: uuid
  it_updated_by :: uuid

record reference_row =
  er_id :: uuid
  er_org :: uuid
  er_entity :: reference_entity
  er_entity_id :: uuid
  er_system :: pgtext
  er_type :: pgtext
  er_value :: pgtext
  er_created_by :: uuid

record facility_row =
  fa_id :: uuid
  fa_org :: uuid
  fa_name :: pgtext
  fa_timezone :: pgtext
  fa_active :: bool
  fa_created_by :: uuid

record location_row =
  lo_id :: uuid
  lo_org :: uuid
  lo_facility :: uuid
  lo_parent :: "uuid option"
  lo_code :: pgtext
  lo_name :: pgtext
  lo_kind :: location_kind
  lo_active :: bool
  lo_created_by :: uuid

section \<open>Assets and their histories\<close>

record asset_row =
  as_id :: uuid
  as_org :: uuid
  as_item :: uuid
  as_tag :: pgtext
  as_description :: pgtext
  as_owner :: "uuid option"
  as_custodian :: "uuid option"
  as_location :: "uuid option"
  as_assignment :: "uuid option"
  as_state :: "asset_state option"
  as_version :: int
  as_created_by :: uuid
  as_updated_by :: uuid
  as_updated_at :: tstz

text \<open>
  The five history tables share their columns up to the facts an entry moves between, so a row is
  generic in the type of its facts: a lifecycle state, a location, a Party, or an assignee.  Facts
  are nullable at this level; \<open>NOT NULL\<close> columns are constraints, checked at insertion.
\<close>

record 'f hrow =
  h_id :: uuid
  h_org :: uuid
  h_asset :: uuid
  h_version :: int
  h_from :: 'f
  h_to :: 'f
  h_reason :: pgtext
  h_actor :: uuid
  h_occurred :: tstz
  h_recorded :: tstz
  h_evidence :: "uuid option"
  h_client_op :: "uuid option"
  h_root :: "uuid option"
  h_role :: correction_role
  h_pair :: "uuid option"
  h_generation :: int
  h_corrected_at :: "tstz option"

type_synonym state_fact = "asset_state option"

type_synonym ref_fact = "uuid option"

type_synonym assignee_fact = "assignee_kind option \<times> uuid option"

record initial_row =
  b_asset :: uuid
  b_org :: uuid
  b_owner :: "uuid option"
  b_custodian :: "uuid option"
  b_location :: "uuid option"
  b_actor :: uuid
  b_occurred :: tstz

record witness_row =
  w_asset :: uuid
  w_org :: uuid
  w_actor :: uuid
  w_occurred :: tstz

datatype identifier_type = MANUFACTURER_SERIAL | PCB_SERIAL | MAC | IMEI | OTHER_IDENTIFIER

record identifier_row =
  id_id :: uuid
  id_org :: uuid
  id_asset :: uuid
  id_type :: identifier_type
  id_value :: "pgtext option"
  id_unreadable :: "pgtext option"
  id_created_by :: uuid

section \<open>Evidence\<close>

datatype evidence_source = PHOTO | DOCUMENT | SCAN | REPORT | CERTIFICATE | OTHER_SOURCE

datatype evidence_role =
  RECEIVING_EVIDENCE | DISPOSAL_EVIDENCE | CONFIG_EVIDENCE | EXCEPTION_EVIDENCE | OTHER_EVIDENCE

datatype evidence_entity =
  ASSET | RECEIPT | RECEIPT_LINE | ASSET_CONFIGURATION | RECEIVING_EXCEPTION

record attachment_row =
  at_id :: uuid
  at_org :: uuid
  at_sha256 :: pgtext
  at_size :: int
  at_media_type :: pgtext
  at_storage_key :: pgtext
  at_source :: evidence_source
  at_captured_by :: uuid
  at_captured_at :: tstz
  at_recorded_at :: tstz
  at_supersedes :: "uuid option"
  at_filename :: pgtext

record link_row =
  al_id :: uuid
  al_org :: uuid
  al_attachment :: uuid
  al_entity :: evidence_entity
  al_entity_id :: uuid
  al_role :: evidence_role
  al_actor :: uuid
  al_recorded_at :: tstz

record configuration_row =
  cf_id :: uuid
  cf_org :: uuid
  cf_asset :: uuid
  cf_image_name :: pgtext
  cf_image_version :: pgtext
  cf_profile :: pgtext
  cf_notes :: pgtext
  cf_applied_by :: uuid
  cf_applied_at :: tstz
  cf_recorded :: tstz
  cf_evidence :: "uuid option"
  cf_seq :: int

section \<open>Procurement and receiving\<close>

datatype po_status = DRAFT | ISSUED | CLOSED | CANCELLED

record po_row =
  po_id :: uuid
  po_org :: uuid
  po_vendor :: uuid
  po_number :: pgtext
  po_status :: po_status
  po_issued_at :: "tstz option"
  po_issued_by :: "uuid option"
  po_notes :: "pgtext option"
  po_created_by :: uuid
  po_updated_by :: uuid
  po_created_at :: tstz
  po_updated_at :: tstz

record po_line_row =
  pl_id :: uuid
  pl_org :: uuid
  pl_po :: uuid
  pl_number :: int
  pl_item :: uuid
  pl_quantity :: numeric
  pl_uom :: uom
  pl_price :: numeric
  pl_expected :: "tstz option"
  pl_supersedes :: "uuid option"
  pl_created_by :: uuid
  pl_updated_by :: uuid
  pl_created_at :: tstz
  pl_updated_at :: tstz

datatype condition = GOOD | DAMAGED | OPENED | UNKNOWN

datatype exception_kind =
  SHORT | OVER | SUBSTITUTION | DAMAGED_UNIT | OPENED_UNIT | SERIAL_UNREADABLE | SERIAL_MISMATCH
| UNEXPECTED_ITEM | QUANTITY_VARIANCE | UOM_MISMATCH

record receipt_row =
  rc_id :: uuid
  rc_org :: uuid
  rc_vendor :: uuid
  rc_po :: "uuid option"
  rc_dock :: "uuid option"
  rc_packing_reference :: "pgtext option"
  rc_received_at :: tstz
  rc_actor :: uuid

record comparator_row =
  cm_id :: uuid
  cm_org :: uuid
  cm_receipt :: uuid
  cm_po_line :: uuid
  cm_generation :: int
  cm_source :: "uuid option"
  cm_introduced_by :: "uuid option"
  cm_actor :: uuid
  cm_occurred :: tstz

record receipt_line_row =
  rl_id :: uuid
  rl_org :: uuid
  rl_receipt :: uuid
  rl_po_line :: "uuid option"
  rl_item :: uuid
  rl_quantity :: numeric
  rl_uom :: uom
  rl_condition :: condition
  rl_packing_quantity :: "numeric option"
  rl_notes :: "pgtext option"
  rl_serialized :: bool
  rl_owner :: "uuid option"
  rl_custodian :: "uuid option"
  rl_asset :: "uuid option"
  rl_observed :: "(identifier_type \<times> pgtext) option"
  rl_actor :: uuid
  rl_occurred :: tstz

record reconciliation_row =
  rr_id :: uuid
  rr_org :: uuid
  rr_receipt :: uuid
  rr_actor :: uuid
  rr_occurred :: tstz

record exception_row =
  xc_id :: uuid
  xc_org :: uuid
  xc_type :: exception_kind
  xc_receipt :: uuid
  xc_line :: "uuid option"
  xc_po_line :: "uuid option"
  xc_asset :: "uuid option"
  xc_conflicting :: "uuid option"
  xc_evaluation :: "uuid option"
  xc_actor :: uuid
  xc_occurred :: tstz

section \<open>Corrections of records and the exception workflow\<close>

text \<open>
  The two correction tables share their columns up to the business facts they restate, so a row is
  generic in them.  \<open>k_parent\<close> is the order or the receipt of the corrected line.
\<close>

record po_facts =
  pf_item :: uuid
  pf_quantity :: numeric
  pf_uom :: uom
  pf_price :: numeric
  pf_expected :: "tstz option"

record line_facts =
  lf_po_line :: "uuid option"
  lf_item :: uuid
  lf_quantity :: numeric
  lf_uom :: uom
  lf_condition :: condition
  lf_packing :: "numeric option"
  lf_notes :: "pgtext option"
  lf_serialized :: bool
  lf_owner :: "uuid option"
  lf_custodian :: "uuid option"
  lf_asset :: "uuid option"
  lf_observed :: "(identifier_type \<times> pgtext) option"

record 'f krow =
  k_id :: uuid
  k_org :: uuid
  k_root :: uuid
  k_parent :: uuid
  k_txn :: nat
  k_role :: correction_role
  k_pair :: uuid
  k_generation :: int
  k_corrected_at :: tstz
  k_reason :: pgtext
  k_facts :: 'f
  k_conflicting :: "uuid option"
  k_actor :: uuid
  k_occurred :: tstz

record evaluation_row =
  ve_id :: uuid
  ve_org :: uuid
  ve_receipt :: uuid
  ve_line :: uuid
  ve_correction :: uuid
  ve_generation :: int
  ve_seq :: int
  ve_txn :: nat
  ve_actor :: uuid
  ve_occurred :: tstz

record source_row =
  so_id :: uuid
  so_org :: uuid
  so_evaluation :: uuid
  so_root :: uuid
  so_generation :: int
  so_source :: "uuid option"
  so_actor :: uuid
  so_occurred :: tstz

record consequence_row =
  cq_id :: uuid
  cq_org :: uuid
  cq_evaluation :: uuid
  cq_exception :: uuid
  cq_supported :: bool
  cq_prior_seq :: int
  cq_actor :: uuid
  cq_occurred :: tstz

datatype workflow_status = OPEN | ACKNOWLEDGED | RESOLVED | WAIVED

datatype severity = UNSPECIFIED

datatype exception_entity = ON_RECEIPT | ON_RECEIPT_LINE

record workflow_row =
  wf_exception :: uuid
  wf_org :: uuid
  wf_type :: exception_kind
  wf_severity :: severity
  wf_entity :: exception_entity
  wf_entity_id :: uuid
  wf_status :: workflow_status
  wf_seq :: int
  wf_resolved_by :: "uuid option"
  wf_resolved_at :: "tstz option"
  wf_note :: "pgtext option"

record workflow_event =
  ev_id :: uuid
  ev_org :: uuid
  ev_exception :: uuid
  ev_seq :: int
  ev_from :: workflow_status
  ev_to :: workflow_status
  ev_note :: "pgtext option"
  ev_evaluation :: "uuid option"
  ev_actor :: uuid
  ev_occurred :: tstz

section \<open>Offline capture\<close>

text \<open>
  A captured operation, its stream and the conflict observed when an Asset moved on.  \<open>json\<close> is a
  JSON value; an object keeps its keys in order.
\<close>

datatype json =
    JNull | JBool bool | JNum int | JStr pgtext | JArr "json list" | JObj "(string \<times> json) list"

datatype capture_facts =
    Unknown_version int
  | Known_version int (cf_state: "asset_state option") (cf_location: "uuid option")
      (cf_custodian: "uuid option") (cf_owner: "uuid option") (cf_assignee: "uuid option")

datatype capture_kind = RECEIVE_SCAN | MOVE | ASSIGN | UNASSIGN | TRANSITION | ATTACH_EVIDENCE | RESOLVE

datatype sync_state = APPLIED | REJECTED | DUPLICATE

datatype sequence_flag = SEQUENCE_REUSED | SEQUENCE_GAP

datatype failure_code = NOT_FOUND | INVALID_OPERATION | OPERATION_UNAVAILABLE

datatype capture_result =
    Conflict_result uuid capture_facts capture_facts | Failure_result failure_code | Domain_result json

record stream_row =
  sm_org :: uuid
  sm_client :: uuid
  sm_epoch :: uuid
  sm_last :: int
  sm_actor :: uuid

record operation_row =
  co_operation :: uuid
  co_org :: uuid
  co_actor :: uuid
  co_claimed :: uuid
  co_client :: uuid
  co_epoch :: uuid
  co_seq :: int
  co_entity :: pgtext
  co_entity_id :: uuid
  co_expected :: "int option"
  co_kind :: capture_kind
  co_payload :: json
  co_occurred :: tstz
  co_recorded :: tstz
  co_state :: sync_state
  co_result :: capture_result
  co_flags :: "sequence_flag list"

record conflict_row =
  sc_id :: uuid
  sc_org :: uuid
  sc_operation :: uuid
  sc_asset :: uuid
  sc_expected_version :: int
  sc_current_version :: int
  sc_expected :: capture_facts
  sc_current :: capture_facts
  sc_actor :: uuid
  sc_occurred :: tstz
  sc_recorded :: tstz

record conflict_event =
  sv_id :: uuid
  sv_org :: uuid
  sv_exception :: uuid
  sv_seq :: int
  sv_from :: workflow_status
  sv_to :: workflow_status
  sv_note :: "pgtext option"
  sv_actor :: uuid
  sv_occurred :: tstz
  sv_recorded :: tstz

section \<open>Labels\<close>

text \<open>
  Label templates and print jobs.  The entity type and the encoded field are fixed by checks
  (\<open>ASSET\<close>, \<open>id\<close>), so they are not columns here; a snapshot is the JSON object a job captures.
\<close>

datatype symbology = CODE128 | DATAMATRIX

datatype human_field = ID_FIELD | ASSET_TAG_FIELD | DESCRIPTION_FIELD | ITEM_MPN_FIELD

datatype output_format = PNG | PDF | ZPL

datatype adapter_name = FILE_ADAPTER | ZPL_ADAPTER

datatype print_status = PENDING | SUCCEEDED | FAILED

datatype print_error = OUTPUT_UNAVAILABLE_ERROR | RENDER_FAILED

record template_row =
  lt_id :: uuid
  lt_org :: uuid
  lt_name :: pgtext
  lt_fields :: "human_field list"
  lt_symbology :: symbology
  lt_created_by :: uuid
  lt_created_at :: tstz

record snapshot =
  sn_id :: pgtext
  sn_tag :: pgtext
  sn_description :: pgtext
  sn_mpn :: pgtext
  sn_fields :: "human_field list"
  sn_symbology :: symbology

record job_row =
  pj_id :: uuid
  pj_org :: uuid
  pj_template :: uuid
  pj_asset :: uuid
  pj_requested_by :: uuid
  pj_requested_at :: tstz
  pj_status :: print_status
  pj_adapter :: adapter_name
  pj_format :: output_format
  pj_snapshot :: snapshot
  pj_attempts :: int
  pj_sha256 :: "pgtext option"
  pj_error :: "print_error option"
  pj_updated_by :: "uuid option"
  pj_updated_at :: "tstz option"

section \<open>The database\<close>

record fleet =
  organizations :: "uuid list"
  actors :: "actor_row list"
  parties :: "party_row list"
  party_roles :: "role_row list"
  users :: "user_row list"
  sessions :: "session_row list"
  items :: "item_row list"
  external_references :: "reference_row list"
  facilities :: "facility_row list"
  locations :: "location_row list"
  assets :: "asset_row list"
  asset_identifiers :: "identifier_row list"
  asset_initial_facts :: "initial_row list"
  asset_initial_assignment_facts :: "witness_row list"
  asset_transitions :: "state_fact hrow list"
  asset_movements :: "ref_fact hrow list"
  asset_custody_changes :: "ref_fact hrow list"
  asset_ownership_changes :: "ref_fact hrow list"
  asset_assignment_events :: "assignee_fact hrow list"
  asset_configurations :: "configuration_row list"
  attachments :: "attachment_row list"
  attachment_links :: "link_row list"
  purchase_orders :: "po_row list"
  purchase_order_lines :: "po_line_row list"
  receipts :: "receipt_row list"
  receipt_comparators :: "comparator_row list"
  receipt_lines :: "receipt_line_row list"
  receipt_reconciliations :: "reconciliation_row list"
  receiving_exceptions :: "exception_row list"
  purchase_order_line_corrections :: "po_facts krow list"
  receipt_line_corrections :: "line_facts krow list"
  receipt_correction_evaluations :: "evaluation_row list"
  receipt_evaluation_lines :: "source_row list"
  receipt_evaluation_expectations :: "source_row list"
  receipt_evaluation_exceptions :: "consequence_row list"
  exception_workflows :: "workflow_row list"
  exception_events :: "workflow_event list"
  capture_streams :: "stream_row list"
  capture_operations :: "operation_row list"
  sync_conflicts :: "conflict_row list"
  sync_conflict_events :: "conflict_event list"
  label_templates :: "template_row list"
  print_jobs :: "job_row list"

definition empty_fleet :: fleet where
  "empty_fleet = \<lparr>organizations = [], actors = [], parties = [], party_roles = [], users = [],
     sessions = [], items = [], external_references = [], facilities = [], locations = [],
     assets = [], asset_identifiers = [], asset_initial_facts = [],
     asset_initial_assignment_facts = [], asset_transitions = [], asset_movements = [],
     asset_custody_changes = [], asset_ownership_changes = [], asset_assignment_events = [],
     asset_configurations = [], attachments = [], attachment_links = [], purchase_orders = [],
     purchase_order_lines = [], receipts = [], receipt_comparators = [], receipt_lines = [],
     receipt_reconciliations = [], receiving_exceptions = [],
     purchase_order_line_corrections = [], receipt_line_corrections = [],
     receipt_correction_evaluations = [], receipt_evaluation_lines = [],
     receipt_evaluation_expectations = [], receipt_evaluation_exceptions = [],
     exception_workflows = [], exception_events = [],
     capture_streams = [], capture_operations = [], sync_conflicts = [], sync_conflict_events = [],
     label_templates = [], print_jobs = []\<rparr>"

section \<open>Foreign keys\<close>

text \<open>Every foreign key carries the organization, so a reference never leaves its tenant.\<close>

definition actor_exists :: "fleet \<Rightarrow> uuid \<Rightarrow> uuid \<Rightarrow> bool" where
  "actor_exists db org i \<longleftrightarrow> (\<exists>r \<in> set (actors db). ac_org r = org \<and> ac_id r = i)"

definition party_exists :: "fleet \<Rightarrow> uuid \<Rightarrow> uuid \<Rightarrow> bool" where
  "party_exists db org i \<longleftrightarrow> (\<exists>r \<in> set (parties db). pa_org r = org \<and> pa_id r = i)"

definition location_exists :: "fleet \<Rightarrow> uuid \<Rightarrow> uuid \<Rightarrow> bool" where
  "location_exists db org i \<longleftrightarrow> (\<exists>r \<in> set (locations db). lo_org r = org \<and> lo_id r = i)"

definition asset_exists :: "fleet \<Rightarrow> uuid \<Rightarrow> uuid \<Rightarrow> bool" where
  "asset_exists db org i \<longleftrightarrow> (\<exists>r \<in> set (assets db). as_org r = org \<and> as_id r = i)"

definition attachment_exists :: "fleet \<Rightarrow> uuid \<Rightarrow> uuid \<Rightarrow> bool" where
  "attachment_exists db org i \<longleftrightarrow> (\<exists>r \<in> set (attachments db). at_org r = org \<and> at_id r = i)"

definition holds_if :: "('a \<Rightarrow> bool) \<Rightarrow> 'a option \<Rightarrow> bool" where
  "holds_if P m = (case m of None \<Rightarrow> True | Some x \<Rightarrow> P x)"

lemma holds_if_simps [simp]: "holds_if P None" "holds_if P (Some x) = P x"
  by (simp_all add: holds_if_def)

lemma holds_if_mono: "holds_if P m \<Longrightarrow> (\<And>x. P x \<Longrightarrow> Q x) \<Longrightarrow> holds_if Q m"
  by (cases m) auto

end
