(* ===== verification/Auth.thy ===== *)
theory Auth
  imports Schema
begin

text \<open>
  Authentication and attribution: the credential resolver of \<open>0002_identity_auth.py\<close>, the
  session functions and attribution triggers of \<open>0006_assets.py\<close>, the context setters of
  \<open>db/tenancy.py\<close>, \<open>auth.py\<close> and the \<open>authenticated\<close> dependency of \<open>api/app.py\<close>.

  SHA-256 is the parameter \<open>sha256\<close> and the Argon2 verifier the parameter \<open>verify\<close>; what is
  assumed of them is stated where it is used.  Times are microseconds.
\<close>

section \<open>Hexadecimal digests\<close>

definition hex_digit :: "nat \<Rightarrow> nat" where
  "hex_digit n = (if n < 10 then 48 + n else 87 + n)"

definition hex_value :: "nat \<Rightarrow> nat" where
  "hex_value c = (if c < 58 then c - 48 else c - 87)"

definition is_hex :: "nat \<Rightarrow> bool" where
  "is_hex c \<longleftrightarrow> (48 \<le> c \<and> c \<le> 57) \<or> (97 \<le> c \<and> c \<le> 102)"

text \<open>\<open>bytes.hex()\<close> and \<open>decode(value, 'hex')\<close>; \<open>sha256_shape\<close> is \<open>^[0-9a-f]{64}$\<close>.\<close>

definition hex_encode :: "bytes \<Rightarrow> pgtext" where
  "hex_encode bs = concat (map (\<lambda>b. [hex_digit (b div 16), hex_digit (b mod 16)]) bs)"

fun hex_decode :: "pgtext \<Rightarrow> bytes" where
  "hex_decode (a # b # cs) = (16 * hex_value a + hex_value b) # hex_decode cs"
| "hex_decode _ = []"

definition sha256_shape :: "pgtext \<Rightarrow> bool" where
  "sha256_shape t \<longleftrightarrow> length t = 64 \<and> (\<forall>c \<in> set t. is_hex c)"

definition digest_shape :: "bytes \<Rightarrow> bool" where
  "digest_shape d \<longleftrightarrow> length d = 32 \<and> (\<forall>b \<in> set d. b < 256)"

lemma hex_digit_is_hex: "n < 16 \<Longrightarrow> is_hex (hex_digit n)"
  by (auto simp: is_hex_def hex_digit_def)

lemma hex_value_digit: "n < 16 \<Longrightarrow> hex_value (hex_digit n) = n"
  by (auto simp: hex_value_def hex_digit_def)

lemma hex_encode_simps [simp]:
  "hex_encode [] = []"
  "hex_encode (b # bs) = hex_digit (b div 16) # hex_digit (b mod 16) # hex_encode bs"
  by (simp_all add: hex_encode_def)

lemma hex_roundtrip: "\<forall>b \<in> set bs. b < 256 \<Longrightarrow> hex_decode (hex_encode bs) = bs"
  by (induction bs) (auto simp: hex_value_digit)

lemma hex_encode_length [simp]: "length (hex_encode bs) = 2 * length bs"
  by (induction bs) auto

lemma hex_encode_is_hex: "\<forall>b \<in> set bs. b < 256 \<Longrightarrow> \<forall>c \<in> set (hex_encode bs). is_hex c"
  by (induction bs) (auto intro!: hex_digit_is_hex)

lemma hex_encode_shape: "digest_shape d \<Longrightarrow> sha256_shape (hex_encode d)"
  using hex_encode_is_hex by (auto simp: digest_shape_def sha256_shape_def)

lemma hex_encode_inj:
  "digest_shape d \<Longrightarrow> digest_shape e \<Longrightarrow> hex_encode d = hex_encode e \<Longrightarrow> d = e"
  by (metis digest_shape_def hex_roundtrip)

section \<open>Credential resolution\<close>

text \<open>\<open>resolve_session\<close>: sessions joined to their active user and active HUMAN actor.\<close>

definition session_users :: "fleet \<Rightarrow> session_row \<Rightarrow> user_row list" where
  "session_users db s =
     filter (\<lambda>u. us_org u = se_org s \<and> us_id u = se_user s \<and> us_active u) (users db)"

definition user_actors :: "fleet \<Rightarrow> user_row \<Rightarrow> actor_row list" where
  "user_actors db u =
     filter (\<lambda>a. ac_org a = us_org u \<and> ac_id a = us_actor u \<and> ac_active a \<and> ac_type a = HUMAN)
       (actors db)"

definition live_session :: "ctx \<Rightarrow> bytes \<Rightarrow> session_row \<Rightarrow> bool" where
  "live_session x d s \<longleftrightarrow>
     se_digest s = d \<and> length d = 32 \<and> se_active s \<and> At (x_now x) < se_expires s"

definition resolve_session :: "ctx \<Rightarrow> fleet \<Rightarrow> bytes \<Rightarrow> (uuid \<times> uuid \<times> uuid) list" where
  "resolve_session x db d =
     concat (map (\<lambda>s. concat (map (\<lambda>u. map (\<lambda>a. (se_org s, us_id u, ac_id a)) (user_actors db u))
                        (session_users db s)))
               (filter (live_session x d) (sessions db)))"

definition current_authenticated_actor :: "ctx \<Rightarrow> fleet \<Rightarrow> sqlstate + uuid" where
  "current_authenticated_actor x db =
     (case (x_org x, x_digest_hex x) of
        (Some org, Some hex) \<Rightarrow>
          if sha256_shape hex then
            (case resolve_session x db (hex_decode hex) of
               (org', _, actor) # _ \<Rightarrow> if org' = org then Inr actor else Inl E42501
             | [] \<Rightarrow> Inl E42501)
          else Inl E42501
      | _ \<Rightarrow> Inl E42501)"

section \<open>Sessions\<close>

definition day_us :: int where
  "day_us = 86400000000"

definition login_identity :: "fleet \<Rightarrow> uuid \<Rightarrow> uuid \<Rightarrow> bool" where
  "login_identity db org user \<longleftrightarrow>
     (\<exists>u \<in> set (users db). us_org u = org \<and> us_id u = user \<and> us_active u \<and> user_actors db u \<noteq> [])"

definition issue_session ::
  "ctx \<Rightarrow> uuid \<Rightarrow> uuid option \<Rightarrow> bytes option \<Rightarrow> tstz option \<Rightarrow> fleet \<Rightarrow> sqlstate + fleet" where
  "issue_session x user sid digest expires db =
     (case x_org x of
        None \<Rightarrow> Inl E42501
      | Some org \<Rightarrow>
          ensure (login_identity db org user) E42501
            (case (sid, digest, expires) of
               (Some s, Some d, Some e) \<Rightarrow>
                 ensure (length d = 32 \<and> isfinite e \<and> At (x_now x) < e
                         \<and> e \<le> At (x_now x + day_us)) E23514
                   (ensure (s \<notin> se_id ` set (sessions db) \<and> d \<notin> se_digest ` set (sessions db))
                      E23505
                      (Inr (db\<lparr>sessions := sessions db @
                        [\<lparr>se_id = s, se_org = org, se_user = user, se_digest = d,
                          se_active = True, se_created = At (x_now x), se_expires = e\<rparr>]\<rparr>)))
             | _ \<Rightarrow> Inl E23514))"

definition revoke_current_session :: "ctx \<Rightarrow> fleet \<Rightarrow> sqlstate + fleet" where
  "revoke_current_session x db =
     rbind (current_authenticated_actor x db) (\<lambda>_.
       let org = the (x_org x);
           d = hex_decode (the (x_digest_hex x));
           hit = (\<lambda>s. se_org s = org \<and> se_digest s = d \<and> se_active s \<and> At (x_now x) < se_expires s)
       in ensure (\<exists>s \<in> set (sessions db). hit s) E42501
            (Inr (db\<lparr>sessions := map (\<lambda>s. if hit s then s\<lparr>se_active := False\<rparr> else s)
                                   (sessions db)\<rparr>)))"

section \<open>Attribution triggers\<close>

text \<open>
  \<open>enforce_authenticated_creator\<close> compares the attribution columns of a new row with the
  re-resolved credential; \<open>enforce_authenticated_updater\<close> overwrites the updater of an Asset.
\<close>

definition enforce_authenticated_creator ::
  "ctx \<Rightarrow> fleet \<Rightarrow> uuid \<Rightarrow> uuid option \<Rightarrow> sqlstate + unit" where
  "enforce_authenticated_creator x db creator updater =
     (if x_app x then
        rbind (current_authenticated_actor x db) (\<lambda>performer.
          ensure (creator = performer \<and> holds_if (\<lambda>u. u = performer) updater) E42501 (Inr ()))
      else Inr ())"

definition enforce_authenticated_updater ::
  "ctx \<Rightarrow> fleet \<Rightarrow> asset_row \<Rightarrow> sqlstate + asset_row" where
  "enforce_authenticated_updater x db a =
     (if x_app x \<and> x_org x = Some (as_org a) then
        rbind (current_authenticated_actor x db) (\<lambda>performer.
          Inr (a\<lparr>as_updated_by := performer, as_updated_at := At (x_now x)\<rparr>))
      else Inr a)"

section \<open>The request boundary\<close>

datatype py_error =
    NotFound | Conflict | Invalid | LifecycleInvalid | Unauthorized | ValueError | KeyError
  | HierarchyInvalid | CatalogNotFound | CatalogConflict | CatalogInvalid
  | ProcurementNotFound | ProcurementConflict | ProcurementInvalid
  | ReceivingNotFound | ReceivingConflict | ReceivingInvalid
  | EvidenceNotFound | EvidenceInvalid | EvidenceConflict | EvidenceStorageError
  | LabelNotFound | LabelConflict | OutputUnavailable | ValidationError | NoResultFound
  | DBError sqlstate

record identity =
  organization_id :: uuid
  user_id :: uuid
  actor_id :: uuid
  token_digest :: bytes

text \<open>\<open>str.encode("utf-8")\<close> on code points.\<close>

definition utf8_char :: "nat \<Rightarrow> bytes" where
  "utf8_char c =
     (if c < 128 then [c]
      else if c < 2048 then [192 + c div 64, 128 + c mod 64]
      else if c < 65536 then [224 + c div 4096, 128 + c div 64 mod 64, 128 + c mod 64]
      else [240 + c div 262144, 128 + c div 4096 mod 64, 128 + c div 64 mod 64, 128 + c mod 64])"

definition utf8 :: "pgtext \<Rightarrow> bytes" where
  "utf8 t = concat (map utf8_char t)"

definition resolve_identity ::
  "(bytes \<Rightarrow> bytes) \<Rightarrow> ctx \<Rightarrow> fleet \<Rightarrow> pgtext \<Rightarrow> identity option" where
  "resolve_identity sha256 x db raw =
     (if raw = [] \<or> length raw > 1024 then None
      else let d = sha256 (utf8 raw) in
           (case resolve_session x db d of
              [] \<Rightarrow> None
            | (org, user, actor) # _ \<Rightarrow>
                Some \<lparr>organization_id = org, user_id = user, actor_id = actor, token_digest = d\<rparr>))"

definition set_organization :: "uuid \<Rightarrow> ctx \<Rightarrow> ctx" where
  "set_organization org x = x\<lparr>x_org := Some org\<rparr>"

definition set_credential_context :: "bytes \<Rightarrow> ctx \<Rightarrow> py_error + ctx" where
  "set_credential_context d x =
     (if length d \<noteq> 32 then Inl ValueError else Inr (x\<lparr>x_digest_hex := Some (hex_encode d)\<rparr>))"

text \<open>The dependency of every authenticated route: no field of the request selects a tenant.\<close>

definition authenticated ::
  "(bytes \<Rightarrow> bytes) \<Rightarrow> ctx \<Rightarrow> fleet \<Rightarrow> pgtext option \<Rightarrow> py_error + ctx \<times> identity" where
  "authenticated sha256 x db bearer =
     (case bearer of
        None \<Rightarrow> Inl Unauthorized
      | Some raw \<Rightarrow>
          (case resolve_identity sha256 x db raw of
             None \<Rightarrow> Inl Unauthorized
           | Some who \<Rightarrow>
               rbind (set_credential_context (token_digest who)
                        (set_organization (organization_id who) x))
                 (\<lambda>x'. Inr (x', who))))"

text \<open>Password login: a missing user still pays for a verification and then fails.\<close>

definition authenticate_password ::
  "(pgtext \<Rightarrow> pgtext \<Rightarrow> bool) \<Rightarrow> pgtext \<Rightarrow> ctx \<Rightarrow> fleet \<Rightarrow> pgtext \<Rightarrow> pgtext \<Rightarrow> (uuid \<times> uuid) option"
where
  "authenticate_password verify dummy_hash x db username password =
     (let rows = concat (map (\<lambda>u. map (\<lambda>a. (u, a))
                   (filter (\<lambda>a. ac_org a = us_org u \<and> ac_id a = us_actor u \<and> ac_type a = HUMAN
                                \<and> x_org x = Some (ac_org a)) (actors db)))
                   (filter (\<lambda>u. x_org x = Some (us_org u) \<and> us_username u = username) (users db)));
          stored = (case rows of [] \<Rightarrow> dummy_hash | (u, _) # _ \<Rightarrow> us_password_hash u);
          correct = verify stored password
      in case rows of
           [] \<Rightarrow> None
         | (u, a) # _ \<Rightarrow>
             if \<not> correct \<or> \<not> us_active u \<or> \<not> ac_active a then None
             else Some (us_id u, us_actor u))"

section \<open>Facts\<close>

text \<open>Resolution reads only the identity tables.\<close>

lemma resolve_session_cong:
  assumes "sessions db' = sessions db" "users db' = users db" "actors db' = actors db"
  shows "resolve_session x db' d = resolve_session x db d"
  using assms by (simp add: resolve_session_def session_users_def user_actors_def)

lemma current_actor_cong:
  assumes "sessions db' = sessions db" "users db' = users db" "actors db' = actors db"
  shows "current_authenticated_actor x db' = current_authenticated_actor x db"
proof -
  have "resolve_session x db' = resolve_session x db"
    by (rule ext) (rule resolve_session_cong [OF assms])
  then show ?thesis by (simp only: current_authenticated_actor_def)
qed

lemma resolve_session_in:
  "(org, u, a) \<in> set (resolve_session x db d) \<longleftrightarrow>
     (\<exists>s \<in> set (sessions db). live_session x d s \<and> se_org s = org \<and>
        (\<exists>v \<in> set (session_users db s). us_id v = u \<and>
           (\<exists>w \<in> set (user_actors db v). ac_id w = a)))"
  by (auto simp: resolve_session_def)

lemma current_actor_InrD:
  assumes "current_authenticated_actor x db = Inr a"
  obtains org hex u rest where "x_org x = Some org" "x_digest_hex x = Some hex" "sha256_shape hex"
    "resolve_session x db (hex_decode hex) = (org, u, a) # rest"
  using assms
  by (auto simp: current_authenticated_actor_def split: option.splits if_splits list.splits)

text \<open>An authenticated actor is a live HUMAN actor of the context's organization.\<close>

lemma current_actor_exists:
  assumes "current_authenticated_actor x db = Inr a" and "x_org x = Some org"
  shows "actor_exists db org a"
proof -
  obtain hex u rest where "resolve_session x db (hex_decode hex) = (org, u, a) # rest"
    using current_actor_InrD [OF assms(1)] assms(2) by (metis option.inject)
  then have "(org, u, a) \<in> set (resolve_session x db (hex_decode hex))"
    by simp
  then show ?thesis
    by (auto simp: resolve_session_in session_users_def user_actors_def actor_exists_def)
qed

lemma current_actor_org: "current_authenticated_actor x db = Inr a \<Longrightarrow> x_org x \<noteq> None"
  by (erule current_actor_InrD) simp

lemma live_session_digest: "live_session x d s \<Longrightarrow> se_digest s = d"
  by (simp add: live_session_def)

lemma revoke_effect:
  assumes "revoke_current_session x db = Inr db'"
  shows "\<exists>a. current_authenticated_actor x db = Inr a"
    and "users db' = users db" "actors db' = actors db"
    and "sessions db' = map (\<lambda>s. if se_org s = the (x_org x)
            \<and> se_digest s = hex_decode (the (x_digest_hex x)) \<and> se_active s
            \<and> At (x_now x) < se_expires s then s\<lparr>se_active := False\<rparr> else s) (sessions db)"
  using assms by (auto simp: revoke_current_session_def rbind_Inr_iff ensure_Inr_iff Let_def)

end
