(* ===== verification/Lifecycle.thy ===== *)
theory Lifecycle
  imports Auth
begin

text \<open>
  The lifecycle graph of \<open>domain/lifecycle.py\<close>.  \<open>ON_HOLD\<close> is the only state whose exits depend
  on history: besides its fixed exit it may return to the state it was entered from.
\<close>

definition LIFECYCLE :: "asset_state \<Rightarrow> asset_state list" where
  "LIFECYCLE s =
     (case s of
        RECEIVED \<Rightarrow> [IN_STOCK, ON_HOLD]
      | IN_STOCK \<Rightarrow> [CONFIGURING, ON_HOLD, RETIRED]
      | CONFIGURING \<Rightarrow> [READY, ON_HOLD]
      | READY \<Rightarrow> [DEPLOYED, IN_STOCK, ON_HOLD]
      | DEPLOYED \<Rightarrow> [ON_HOLD, OUT_OF_SERVICE, READY]
      | ON_HOLD \<Rightarrow> [OUT_OF_SERVICE]
      | OUT_OF_SERVICE \<Rightarrow> [CONFIGURING, RETIRED]
      | RETIRED \<Rightarrow> [])"

text \<open>The states an edge may lead to, given the remembered entry state of a hold.\<close>

definition allowed_states :: "asset_state \<Rightarrow> asset_state option \<Rightarrow> asset_state list" where
  "allowed_states s previous =
     (case previous of
        Some p \<Rightarrow> if s = ON_HOLD then LIFECYCLE s @ [p] else LIFECYCLE s
      | None \<Rightarrow> LIFECYCLE s)"

definition validate_edge ::
  "asset_state \<Rightarrow> asset_state \<Rightarrow> asset_state option \<Rightarrow> py_error + unit" where
  "validate_edge s t previous =
     (if t \<in> set (allowed_states s previous) then Inr () else Inl LifecycleInvalid)"

definition all_states :: "asset_state list" where
  "all_states =
     [CONFIGURING, DEPLOYED, IN_STOCK, ON_HOLD, OUT_OF_SERVICE, READY, RECEIVED, RETIRED]"

lemma all_states_UNIV: "set all_states = UNIV"
  by (auto simp: all_states_def intro: asset_state.exhaust)

lemma validate_edge_Inr_iff [result_simps]:
  "validate_edge s t p = Inr u \<longleftrightarrow> t \<in> set (allowed_states s p)"
  by (simp add: validate_edge_def)

lemma allowed_RETIRED [simp]: "allowed_states RETIRED p = []"
  by (simp add: allowed_states_def LIFECYCLE_def split: option.splits)

lemma no_entry_to_RECEIVED: "RECEIVED \<notin> set (LIFECYCLE s)"
  by (cases s) (simp_all add: LIFECYCLE_def)

lemma LIFECYCLE_irrefl: "s \<notin> set (LIFECYCLE s)"
  by (cases s) (simp_all add: LIFECYCLE_def)

text \<open>
  The abstract machine: a state together with the state a hold was entered from.  A step follows
  the graph; entering a hold remembers where it came from.
\<close>

inductive edge :: "asset_state \<times> asset_state option \<Rightarrow> asset_state \<times> asset_state option \<Rightarrow> bool"
where
  edge: "t \<in> set (allowed_states s p) \<Longrightarrow> edge (s, p) (t, Some s)"

inductive_cases edgeE: "edge (s, p) c"

inductive_simps edge_iff: "edge (s, p) (t, q)"

code_pred edge .

inductive life :: "asset_state \<times> asset_state option \<Rightarrow> bool" where
  life_init: "life (RECEIVED, None)"
| life_step: "life c \<Longrightarrow> edge c d \<Longrightarrow> life d"

text \<open>
  A hold is never entered from a hold or from retirement, so leaving it through the remembered
  state cannot reach a state outside the graph; and \<open>RECEIVED\<close> is re-entered only from a hold.
\<close>

definition entry_ok :: "asset_state \<times> asset_state option \<Rightarrow> bool" where
  "entry_ok c \<longleftrightarrow> (case c of (s, p) \<Rightarrow>
     (s = ON_HOLD \<longrightarrow> (\<exists>q. p = Some q \<and> ON_HOLD \<in> set (LIFECYCLE q))) \<and>
     (s = RECEIVED \<longrightarrow> p = None \<or> p = Some ON_HOLD) \<and>
     (\<forall>q. p = Some q \<longrightarrow> q \<noteq> RETIRED \<and> q \<noteq> s))"

lemma life_entry_ok: "life c \<Longrightarrow> entry_ok c"
proof (induction rule: life.induct)
  case life_init
  show ?case by (simp add: entry_ok_def)
next
  case (life_step c d)
  from life_step.hyps(2) obtain s p t where c: "c = (s, p)" and d: "d = (t, Some s)"
    and t: "t \<in> set (allowed_states s p)" by (auto elim: edge.cases)
  from life_step.IH c have ok: "entry_ok (s, p)" by simp
  show ?case
    using ok t unfolding d
    by (cases s; cases t; cases p) (auto simp: entry_ok_def allowed_states_def LIFECYCLE_def)
qed

end
