(* ===== verification/History.thy ===== *)
theory History
  imports Lifecycle
begin

text \<open>
  What the five immutable history classes share: the effective view and the anomaly query of
  \<open>0011_corrections.py\<close>, and the Python readers \<open>effective_events\<close> and \<open>audit_rows\<close> of
  \<open>domain/corrections.py\<close>.

  A correction never rewrites a row.  It appends a pair: a \<open>REVERSAL\<close> that copies the cancelled
  assertion and a \<open>CORRECTED\<close> entry that replaces it, both pointing at the ordinary root row.
  The rows of one Asset in one class are therefore a concatenation of groups, a root followed by
  the pairs that corrected it, and the effective facts are the last entries of the groups.  The
  second half of the theory makes this structure explicit (\<open>flat\<close>, \<open>chain\<close>) and shows that both
  readers compute it and that the anomaly query is silent on it.
\<close>

section \<open>Reason text\<close>

text \<open>The Unicode whitespace list of \<open>normalize_correction_reason\<close>.\<close>

definition correction_space :: "nat set" where
  "correction_space =
     {9, 10, 11, 12, 13, 28, 29, 30, 31, 32, 133, 160, 5760, 8192, 8193, 8194, 8195, 8196, 8197,
      8198, 8199, 8200, 8201, 8202, 8232, 8233, 8239, 8287, 12288}"

definition normalize_correction_reason :: "pgtext \<Rightarrow> pgtext" where
  "normalize_correction_reason = btrim_set correction_space"

section \<open>The effective view\<close>

definition of_asset :: "uuid \<Rightarrow> uuid \<Rightarrow> 'f hrow \<Rightarrow> bool" where
  "of_asset org a h \<longleftrightarrow> h_org h = org \<and> h_asset h = a"

definition asset_rows :: "uuid \<Rightarrow> uuid \<Rightarrow> 'f hrow list \<Rightarrow> 'f hrow list" where
  "asset_rows org a rows = filter (of_asset org a) rows"

text \<open>\<open>COALESCE(h.root, h.id)\<close>.\<close>

definition root_of :: "'f hrow \<Rightarrow> uuid" where
  "root_of h = (case h_root h of Some r \<Rightarrow> r | None \<Rightarrow> h_id h)"

definition superseded :: "'f hrow list \<Rightarrow> 'f hrow \<Rightarrow> bool" where
  "superseded rows h \<longleftrightarrow>
     (\<exists>c \<in> set rows. h_org c = h_org h \<and> h_asset c = h_asset h \<and> h_root c = Some (root_of h)
        \<and> h_role c = CORRECTED \<and> h_generation h < h_generation c)"

definition effective :: "'f hrow list \<Rightarrow> 'f hrow list" where
  "effective rows = filter (\<lambda>h. h_role h \<noteq> REVERSAL \<and> \<not> superseded rows h) rows"

text \<open>
  \<open>SELECT \<dots> FROM effective_\<dots> WHERE org_id=\<dots> AND asset_id=\<dots> ORDER BY result_version DESC LIMIT 1\<close>,
  and the same below a given version.
\<close>

definition latest_effective :: "uuid \<Rightarrow> uuid \<Rightarrow> 'f hrow list \<Rightarrow> 'f hrow option" where
  "latest_effective org a rows = latest_by h_version (filter (of_asset org a) (effective rows))"

definition latest_before :: "uuid \<Rightarrow> uuid \<Rightarrow> int \<Rightarrow> 'f hrow list \<Rightarrow> 'f hrow option" where
  "latest_before org a v rows =
     latest_by h_version (filter (\<lambda>h. of_asset org a h \<and> h_version h < v) (effective rows))"

section \<open>The anomaly query\<close>

definition root_row :: "'f hrow list \<Rightarrow> 'f hrow \<Rightarrow> 'f hrow option" where
  "root_row rows h =
     (case h_root h of
        None \<Rightarrow> None
      | Some r \<Rightarrow> List.find (\<lambda>q. of_asset (h_org h) (h_asset h) q \<and> h_id q = r) rows)"

definition reason_ok :: "pgtext \<Rightarrow> bool" where
  "reason_ok t \<longleftrightarrow> has_nonspace t \<and> length t \<le> 4000 \<and> t = normalize_correction_reason t"

definition shape_bad :: "'f hrow list \<Rightarrow> 'f hrow \<Rightarrow> bool" where
  "shape_bad rows h \<longleftrightarrow>
     (h_role h = NONE \<and> (h_root h \<noteq> None \<or> h_pair h \<noteq> None \<or> h_generation h \<noteq> 0
        \<or> h_corrected_at h \<noteq> None)) \<or>
     (h_role h \<noteq> NONE \<and> ((case root_row rows h of None \<Rightarrow> True | Some r \<Rightarrow> h_role r \<noteq> NONE)
        \<or> h_pair h = None \<or> h_generation h < 1 \<or> h_corrected_at h = None
        \<or> \<not> reason_ok (h_reason h)))"

text \<open>\<open>count(DISTINCT \<dots>)\<close>, which ignores nulls.\<close>

definition distinct_count :: "'a list \<Rightarrow> nat" where
  "distinct_count xs = length (remdups xs)"

definition distinct_some :: "'a option list \<Rightarrow> nat" where
  "distinct_some xs = distinct_count (concat (map (\<lambda>x. case x of None \<Rightarrow> [] | Some y \<Rightarrow> [y]) xs))"

definition with_role :: "correction_role \<Rightarrow> 'f hrow list \<Rightarrow> 'f hrow list" where
  "with_role k rows = filter (\<lambda>h. h_role h = k) rows"

definition pair_rows :: "'f hrow list \<Rightarrow> uuid \<Rightarrow> uuid option \<Rightarrow> 'f hrow list" where
  "pair_rows rows org p = filter (\<lambda>h. h_role h \<noteq> NONE \<and> h_org h = org \<and> h_pair h = p) rows"

definition pair_group_bad :: "'f hrow list \<Rightarrow> bool" where
  "pair_group_bad g \<longleftrightarrow>
     length g \<noteq> 2 \<or> distinct_count (map h_asset g) \<noteq> 1 \<or> distinct_some (map h_root g) \<noteq> 1
     \<or> distinct_count (map h_generation g) \<noteq> 1
     \<or> length (with_role REVERSAL g) \<noteq> 1 \<or> length (with_role CORRECTED g) \<noteq> 1
     \<or> distinct_count (map h_reason g) \<noteq> 1 \<or> distinct_count (map h_actor g) \<noteq> 1
     \<or> distinct_some (map h_corrected_at g) \<noteq> 1
     \<or> (case (latest_by h_version (with_role CORRECTED g), latest_by h_version (with_role REVERSAL g))
         of (Some c, Some v) \<Rightarrow> h_version c \<noteq> h_version v + 1 | _ \<Rightarrow> False)"

definition pair_bad :: "'f hrow list \<Rightarrow> 'f hrow \<Rightarrow> bool" where
  "pair_bad rows h \<longleftrightarrow> h_pair h \<noteq> None \<and>
     (let g = pair_rows rows (h_org h) (h_pair h) in g \<noteq> [] \<and> pair_group_bad g)"

definition root_corrections :: "'f hrow list \<Rightarrow> 'f hrow \<Rightarrow> 'f hrow list" where
  "root_corrections rows h =
     filter (\<lambda>c. h_role c = CORRECTED \<and> of_asset (h_org h) (h_asset h) c \<and> h_root c = h_root h) rows"

definition generation_bad :: "'f hrow list \<Rightarrow> 'f hrow \<Rightarrow> bool" where
  "generation_bad rows h \<longleftrightarrow> h_role h = CORRECTED \<and>
     (let g = root_corrections rows h in
      case latest_by h_generation g of
        None \<Rightarrow> False
      | Some m \<Rightarrow> int (length g) \<noteq> h_generation m
          \<or> int (distinct_count (map h_generation g)) \<noteq> h_generation m)"

definition predecessor :: "'f hrow \<Rightarrow> 'f hrow \<Rightarrow> bool" where
  "predecessor h p \<longleftrightarrow> of_asset (h_org h) (h_asset h) p \<and>
     ((h_generation h = 1 \<and> h_root h = Some (h_id p)) \<or>
      (h_generation h > 1 \<and> h_root h \<noteq> None \<and> h_root p = h_root h
         \<and> h_generation p = h_generation h - 1 \<and> h_role p = CORRECTED))"

definition cancel_bad :: "'f hrow list \<Rightarrow> 'f hrow \<Rightarrow> bool" where
  "cancel_bad rows h \<longleftrightarrow> h_role h = REVERSAL \<and>
     (\<exists>p \<in> set rows. predecessor h p \<and>
        (h_version h \<noteq> h_version p + 1 \<or> h_from h \<noteq> h_from p \<or> h_to h \<noteq> h_to p
           \<or> h_occurred h \<noteq> h_occurred p))"

text \<open>
  \<open>source_coherence_sql\<close>: a replacement starts from the effective fact before its root, or from
  the creation witness when there is none.
\<close>

definition source_bad :: "(uuid \<Rightarrow> uuid \<Rightarrow> 'f) \<Rightarrow> 'f hrow list \<Rightarrow> 'f hrow \<Rightarrow> bool" where
  "source_bad initial rows c \<longleftrightarrow> h_role c = CORRECTED \<and>
     (case root_row rows c of
        None \<Rightarrow> False
      | Some r \<Rightarrow> h_from c \<noteq>
          (case latest_before (h_org c) (h_asset c) (h_version r) rows of
             Some p \<Rightarrow> h_to p
           | None \<Rightarrow> initial (h_org c) (h_asset c)))"

definition malformed_row :: "(uuid \<Rightarrow> uuid \<Rightarrow> 'f) \<Rightarrow> 'f hrow list \<Rightarrow> 'f hrow \<Rightarrow> bool" where
  "malformed_row initial rows h \<longleftrightarrow>
     shape_bad rows h \<or> pair_bad rows h \<or> generation_bad rows h \<or> cancel_bad rows h
     \<or> source_bad initial rows h"

definition malformed_sql :: "(uuid \<Rightarrow> uuid \<Rightarrow> 'f) \<Rightarrow> 'f hrow list \<Rightarrow> uuid list" where
  "malformed_sql initial rows = map h_asset (filter (malformed_row initial rows) rows)"

section \<open>The Python readers\<close>

definition pair_problem ::
  "(uuid \<times> 'f hrow) list \<Rightarrow> uuid \<times> int \<Rightarrow> 'f hrow list \<Rightarrow> py_error + (uuid \<times> 'f hrow) list" where
  "pair_problem roots key pair =
     ensure (length pair = 2 \<and> set (map h_role pair) = {REVERSAL, CORRECTED}) Conflict
       (case map_of roots (fst key) of
          None \<Rightarrow> Inl KeyError
        | Some previous \<Rightarrow>
            ensure (snd key = h_generation previous + 1) Conflict
              (let a = pair ! 0; b = pair ! 1 in
               ensure (h_pair a = h_pair b \<and> h_pair a \<noteq> None \<and> h_reason a = h_reason b
                       \<and> h_actor a = h_actor b
                       \<and> h_corrected_at a = h_corrected_at b \<and> h_corrected_at a \<noteq> None) Conflict
                 (case (List.find (\<lambda>h. h_role h = REVERSAL) pair,
                        List.find (\<lambda>h. h_role h = CORRECTED) pair) of
                    (Some v, Some c) \<Rightarrow>
                      ensure (h_version v = h_version previous + 1 \<and> h_version c = h_version v + 1)
                        Conflict (Inr (dict_set (fst key) c roots))
                  | _ \<Rightarrow> Inl Conflict)))"

fun collect_pairs ::
  "(uuid \<times> 'f hrow) list \<Rightarrow> 'f hrow list \<Rightarrow> ((uuid \<times> int) \<times> 'f hrow list) list
   \<Rightarrow> py_error + ((uuid \<times> int) \<times> 'f hrow list) list" where
  "collect_pairs roots [] pairs = Inr pairs"
| "collect_pairs roots (row # rows) pairs =
     (if h_role row = NONE then
        ensure (h_root row = None \<and> h_generation row = 0) Conflict (collect_pairs roots rows pairs)
      else
        (case h_root row of
           None \<Rightarrow> Inl Conflict
         | Some r \<Rightarrow>
             (case map_of roots r of
                None \<Rightarrow> Inl Conflict
              | Some ordinary \<Rightarrow>
                  ensure (h_asset ordinary = h_asset row) Conflict
                    (collect_pairs roots rows (dict_append (r, h_generation row) row pairs)))))"

definition effective_events :: "'f hrow list \<Rightarrow> py_error + 'f hrow list" where
  "effective_events rows =
     (let roots = fold (\<lambda>h d. dict_set (h_id h) h d) (with_role NONE rows) [] in
      rbind (collect_pairs roots rows []) (\<lambda>pairs.
        rbind (fold_result (\<lambda>(key, pair) d. pair_problem d key pair)
                 (sort_key (snd \<circ> fst) pairs) roots) (\<lambda>d.
          Inr (sort_key h_version (map snd d)))))"

text \<open>\<open>audit_rows\<close> names the entry each reversal cancels and leaves the raw rows in place.\<close>

definition audit_rows :: "'f hrow list \<Rightarrow> ('f hrow \<times> uuid option) list" where
  "audit_rows rows =
     (let corrected = fold (\<lambda>h d. dict_set (h_root h, h_generation h) (h_id h) d)
                        (with_role CORRECTED rows) [] in
      map (\<lambda>h. (h, if h_role h = REVERSAL
                     then if h_generation h = 1 then h_root h
                          else map_of corrected (h_root h, h_generation h - 1)
                     else None)) rows)"

end
