(* ===== verification/HistoryChain.thy ===== *)
theory HistoryChain
  imports History
begin

text \<open>
  The structure of a well-formed history.  A group is a root with the pairs that corrected it;
  \<open>flat\<close> lists the rows of a sequence of groups, \<open>head\<close> is the effective row of a group, and
  \<open>chain src gs\<close> says that the groups continue one another from the fact \<open>src\<close>.  \<open>table_ok\<close> lifts
  this to a table: every Asset's rows are such a sequence, in version order.

  The last part shows that the effective view selects the heads, that the anomaly query reports
  nothing, and that appending an ordinary row or a correction pair keeps the structure.
\<close>

section \<open>Groups\<close>

type_synonym 'f group = "'f hrow \<times> ('f hrow \<times> 'f hrow) list"

definition flat_pairs :: "('f hrow \<times> 'f hrow) list \<Rightarrow> 'f hrow list" where
  "flat_pairs ps = concat (map (\<lambda>p. [fst p, snd p]) ps)"

definition flat_group :: "'f group \<Rightarrow> 'f hrow list" where
  "flat_group g = fst g # flat_pairs (snd g)"

definition flat :: "'f group list \<Rightarrow> 'f hrow list" where
  "flat gs = concat (map flat_group gs)"

definition final :: "'f hrow \<Rightarrow> ('f hrow \<times> 'f hrow) list \<Rightarrow> 'f hrow" where
  "final r ps = (if ps = [] then r else snd (last ps))"

definition head :: "'f group \<Rightarrow> 'f hrow" where
  "head g = final (fst g) (snd g)"

definition heads :: "'f group list \<Rightarrow> 'f hrow list" where
  "heads gs = map head gs"

lemma flat_pairs_simps [simp]:
  "flat_pairs [] = []" "flat_pairs (p # ps) = fst p # snd p # flat_pairs ps"
  "flat_pairs (ps @ qs) = flat_pairs ps @ flat_pairs qs"
  by (simp_all add: flat_pairs_def)

lemma flat_simps [simp]:
  "flat [] = []" "flat (g # gs) = flat_group g @ flat gs" "flat (gs @ hs) = flat gs @ flat hs"
  by (simp_all add: flat_def)

lemma flat_group_simps [simp]: "flat_group (r, ps) = r # flat_pairs ps"
  by (simp add: flat_group_def)

lemma final_simps [simp]: "final r [] = r" "final r (ps @ [p]) = snd p"
  by (simp_all add: final_def)

lemma final_Cons [simp]: "final r (p # ps) = final (snd p) ps"
  by (simp add: final_def)

lemma head_simps [simp]: "head (r, ps) = final r ps"
  by (simp add: head_def)

lemma heads_simps [simp]:
  "heads [] = []" "heads (g # gs) = head g # heads gs" "heads (gs @ hs) = heads gs @ heads hs"
  by (simp_all add: heads_def)

definition ordinary :: "'f hrow \<Rightarrow> bool" where
  "ordinary h \<longleftrightarrow> h_role h = NONE \<and> h_root h = None \<and> h_pair h = None \<and> h_generation h = 0
     \<and> h_corrected_at h = None"

definition cancels :: "'f hrow \<Rightarrow> 'f hrow \<Rightarrow> bool" where
  "cancels v p \<longleftrightarrow> h_version v = h_version p + 1 \<and> h_from v = h_from p \<and> h_to v = h_to p
     \<and> h_occurred v = h_occurred p \<and> h_evidence v = h_evidence p"

definition same_pair :: "'f hrow \<Rightarrow> 'f hrow \<Rightarrow> bool" where
  "same_pair v c \<longleftrightarrow> (\<exists>p. h_pair v = Some p \<and> h_pair c = Some p)
     \<and> (\<exists>t. h_corrected_at v = Some t \<and> h_corrected_at c = Some t)
     \<and> h_reason v = h_reason c \<and> reason_ok (h_reason c) \<and> h_actor v = h_actor c
     \<and> h_version c = h_version v + 1"

definition correction_of :: "'f hrow \<Rightarrow> int \<Rightarrow> 'f hrow \<Rightarrow> bool" where
  "correction_of r g h \<longleftrightarrow> h_root h = Some (h_id r) \<and> h_generation h = g
     \<and> of_asset (h_org r) (h_asset r) h"

definition pair_ok :: "'f hrow \<Rightarrow> 'f \<Rightarrow> 'f hrow \<Rightarrow> int \<Rightarrow> 'f hrow \<times> 'f hrow \<Rightarrow> bool" where
  "pair_ok r src prev g p \<longleftrightarrow>
     h_role (fst p) = REVERSAL \<and> h_role (snd p) = CORRECTED
     \<and> correction_of r g (fst p) \<and> correction_of r g (snd p)
     \<and> same_pair (fst p) (snd p) \<and> cancels (fst p) prev \<and> h_from (snd p) = src"

fun pairs_ok :: "'f hrow \<Rightarrow> 'f \<Rightarrow> 'f hrow \<Rightarrow> int \<Rightarrow> ('f hrow \<times> 'f hrow) list \<Rightarrow> bool" where
  "pairs_ok r src prev g [] = True"
| "pairs_ok r src prev g (p # ps) \<longleftrightarrow>
     pair_ok r src prev (g + 1) p \<and> pairs_ok r src (snd p) (g + 1) ps"

definition group_ok :: "'f \<Rightarrow> 'f group \<Rightarrow> bool" where
  "group_ok src g \<longleftrightarrow> ordinary (fst g) \<and> h_from (fst g) = src
     \<and> pairs_ok (fst g) src (fst g) 0 (snd g)"

fun chain :: "'f \<Rightarrow> 'f group list \<Rightarrow> bool" where
  "chain src [] = True"
| "chain src (g # gs) \<longleftrightarrow> group_ok src g \<and> chain (h_to (head g)) gs"

definition last_fact :: "'f \<Rightarrow> 'f group list \<Rightarrow> 'f" where
  "last_fact src gs = (if gs = [] then src else h_to (head (last gs)))"

lemma last_fact_simps [simp]:
  "last_fact src [] = src" "last_fact src (gs @ [g]) = h_to (head g)"
  "last_fact src (g # gs) = last_fact (h_to (head g)) gs"
  by (simp_all add: last_fact_def)

lemma pairs_ok_append:
  "pairs_ok r src prev g (ps @ qs) \<longleftrightarrow>
     pairs_ok r src prev g ps \<and> pairs_ok r src (final prev ps) (g + int (length ps)) qs"
  by (induction ps arbitrary: prev g) (auto simp: algebra_simps)

lemma chain_append: "chain src (gs @ hs) \<longleftrightarrow> chain src gs \<and> chain (last_fact src gs) hs"
  by (induction gs arbitrary: src) auto

text \<open>Every member of a group carries its root and a generation bounded by the group's length.\<close>

definition member_ok :: "'f hrow \<Rightarrow> int \<Rightarrow> int \<Rightarrow> 'f hrow \<Rightarrow> bool" where
  "member_ok r lo hi h \<longleftrightarrow> h_root h = Some (h_id r) \<and> h_role h \<noteq> NONE
     \<and> of_asset (h_org r) (h_asset r) h \<and> lo < h_generation h \<and> h_generation h \<le> hi"

lemma member_ok_mono: "member_ok r lo hi h \<Longrightarrow> lo' \<le> lo \<Longrightarrow> hi \<le> hi' \<Longrightarrow> member_ok r lo' hi' h"
  by (auto simp: member_ok_def)

lemma pairs_ok_members:
  "pairs_ok r src prev g ps \<Longrightarrow> h \<in> set (flat_pairs ps) \<Longrightarrow> member_ok r g (g + int (length ps)) h"
proof (induction ps arbitrary: prev g)
  case Nil
  then show ?case by simp
next
  case (Cons p ps)
  have "h = fst p \<or> h = snd p \<or> h \<in> set (flat_pairs ps)" using Cons.prems(2) by auto
  moreover have "member_ok r g (g + int (length (p # ps))) (fst p)"
    "member_ok r g (g + int (length (p # ps))) (snd p)"
    using Cons.prems(1) by (auto simp: pair_ok_def correction_of_def member_ok_def)
  moreover have "member_ok r g (g + int (length (p # ps))) h" if "h \<in> set (flat_pairs ps)"
  proof -
    have "pairs_ok r src (snd p) (g + 1) ps" using Cons.prems(1) by simp
    from Cons.IH [OF this that] show ?thesis by (rule member_ok_mono) simp_all
  qed
  ultimately show ?case by auto
qed

lemma pairs_ok_generations:
  "pairs_ok r src prev g ps \<Longrightarrow>
     map (h_generation \<circ> snd) ps = map (\<lambda>i. g + int i + 1) [0..<length ps]"
proof (induction ps rule: rev_induct)
  case Nil
  then show ?case by simp
next
  case (snoc p ps)
  then show ?case by (simp add: pairs_ok_append pair_ok_def correction_of_def)
qed

lemma pairs_ok_generation_nth:
  assumes "pairs_ok r src prev g ps" "i < length ps"
  shows "h_generation (snd (ps ! i)) = g + int i + 1"
proof -
  have "map (h_generation \<circ> snd) ps ! i = map (\<lambda>i. g + int i + 1) [0..<length ps] ! i"
    using pairs_ok_generations [OF assms(1)] by (simp only:)
  then show ?thesis using assms(2) by simp
qed

lemma pairs_ok_nth:
  assumes "pairs_ok r src prev g (ps @ p # qs)"
  shows "pair_ok r src (final prev ps) (g + int (length ps) + 1) p"
  using assms by (simp add: pairs_ok_append)

lemma group_members:
  assumes "group_ok src (r, ps)" and "h \<in> set (flat_group (r, ps))"
  shows "root_of h = h_id r" and "h_generation h \<le> int (length ps)" and "0 \<le> h_generation h"
    and "h = r \<or> member_ok r 0 (int (length ps)) h"
proof -
  have o: "ordinary r" and p: "pairs_ok r src r 0 ps" using assms(1) by (simp_all add: group_ok_def)
  have m: "h = r \<or> member_ok r 0 (int (length ps)) h"
    using assms(2) pairs_ok_members [OF p] by auto
  then show "h = r \<or> member_ok r 0 (int (length ps)) h" .
  from m o show "root_of h = h_id r" "h_generation h \<le> int (length ps)" "0 \<le> h_generation h"
    by (auto simp: ordinary_def member_ok_def root_of_def)
qed

section \<open>Tables\<close>

definition in_versions :: "'f hrow list \<Rightarrow> bool" where
  "in_versions hs \<longleftrightarrow> sorted_wrt (\<lambda>x y. h_version x < h_version y) hs"

definition history_of :: "'f \<Rightarrow> 'f hrow list \<Rightarrow> 'f group list \<Rightarrow> bool" where
  "history_of src hs gs \<longleftrightarrow> hs = flat gs \<and> chain src gs \<and> in_versions hs"

definition pair_key :: "'f hrow \<Rightarrow> uuid \<times> uuid option \<times> correction_role" where
  "pair_key h = (h_org h, h_pair h, h_role h)"

definition corrections_in :: "'f hrow list \<Rightarrow> 'f hrow list" where
  "corrections_in rows = filter (\<lambda>h. h_role h \<noteq> NONE) rows"

definition table_ok :: "(uuid \<Rightarrow> uuid \<Rightarrow> 'f) \<Rightarrow> 'f hrow list \<Rightarrow> bool" where
  "table_ok initial rows \<longleftrightarrow> distinct (map h_id rows) \<and> distinct (map pair_key (corrections_in rows))
     \<and> (\<forall>org a. \<exists>gs. history_of (initial org a) (asset_rows org a rows) gs)"

lemma in_versions_append:
  "in_versions (xs @ ys) \<longleftrightarrow> in_versions xs \<and> in_versions ys
     \<and> (\<forall>x \<in> set xs. \<forall>y \<in> set ys. h_version x < h_version y)"
  by (auto simp: in_versions_def sorted_wrt_append)

lemma in_versions_Cons:
  "in_versions (x # ys) \<longleftrightarrow> in_versions ys \<and> (\<forall>y \<in> set ys. h_version x < h_version y)"
  by (auto simp: in_versions_def)

lemma in_versions_Nil [simp]: "in_versions []"
  by (simp add: in_versions_def)

lemma in_versions_latest: "in_versions xs \<Longrightarrow> xs \<noteq> [] \<Longrightarrow> latest_by h_version xs = Some (last xs)"
  by (auto simp: in_versions_def intro: latest_by_sorted)

lemma head_in_group: "head g \<in> set (flat_group g)"
  by (cases g; cases "snd g" rule: rev_cases) auto

lemma heads_subset: "set (heads gs) \<subseteq> set (flat gs)"
  by (induction gs) (auto intro: head_in_group)

lemma in_versions_heads: "in_versions (flat gs) \<Longrightarrow> in_versions (heads gs)"
proof (induction gs)
  case Nil
  then show ?case by (simp add: in_versions_def)
next
  case (Cons g gs)
  then show ?case
    using heads_subset [of gs] head_in_group [of g]
    by (auto simp: in_versions_append in_versions_Cons)
qed

lemma set_asset_rows: "h \<in> set (asset_rows org a rows) \<longleftrightarrow> h \<in> set rows \<and> of_asset org a h"
  by (auto simp: asset_rows_def)

lemma of_asset_self [simp]: "of_asset (h_org h) (h_asset h) h"
  by (simp add: of_asset_def)

section \<open>The effective view\<close>

lemma superseded_local:
  "of_asset org a h \<Longrightarrow> superseded (asset_rows org a rows) h = superseded rows h"
  by (auto simp: superseded_def asset_rows_def of_asset_def)

lemma effective_local: "filter (of_asset org a) (effective rows) = effective (asset_rows org a rows)"
  by (auto simp: effective_def asset_rows_def superseded_local [unfolded asset_rows_def]
      intro!: filter_cong)

definition roots :: "'f group list \<Rightarrow> uuid list" where
  "roots gs = map (h_id \<circ> fst) gs"

lemma roots_simps [simp]: "roots [] = []" "roots (g # gs) = h_id (fst g) # roots gs"
  "roots (gs @ hs) = roots gs @ roots hs"
  by (simp_all add: roots_def)

lemma roots_distinct: "distinct (map h_id (flat gs)) \<Longrightarrow> distinct (roots gs)"
proof (induction gs)
  case Nil
  then show ?case by simp
next
  case (Cons g gs)
  have "set (roots gs) \<subseteq> h_id ` set (flat gs)"
    by (induction gs) (auto simp: flat_group_def)
  with Cons show ?case by (auto simp: flat_group_def)
qed

lemma chain_group_ok: "chain src gs \<Longrightarrow> g \<in> set gs \<Longrightarrow> \<exists>s. group_ok s g"
  by (induction gs arbitrary: src) auto

text \<open>A row that points at a root lies in the group of that root.\<close>

lemma member_of_root:
  assumes "chain src gs" and "distinct (roots gs)" and "(r, ps) \<in> set gs"
    and "h \<in> set (flat gs)" and "root_of h = h_id r"
  shows "h \<in> set (flat_group (r, ps))"
  using assms
proof (induction gs arbitrary: src)
  case Nil
  then show ?case by simp
next
  case (Cons g gs)
  obtain r' ps' where g: "g = (r', ps')" by (cases g)
  have own: "root_of k = h_id r'" if "k \<in> set (flat_group g)" for k
    using group_members(1) [of src r' ps' k] that Cons.prems(1) by (simp add: g)
  have sub: "root_of k \<in> set (roots gs)" if k: "k \<in> set (flat gs)" for k
  proof -
    obtain q where q: "q \<in> set gs" "k \<in> set (flat_group q)" using k by (auto simp: flat_def)
    obtain s where "group_ok s q" using chain_group_ok q(1) Cons.prems(1) by fastforce
    then have "root_of k = h_id (fst q)" using group_members(1) [of s "fst q" "snd q" k] q(2) by simp
    then show ?thesis using q(1) by (auto simp: roots_def)
  qed
  show ?case
  proof (cases "(r, ps) = g")
    case True
    have "h \<notin> set (flat gs)"
      using sub [of h] Cons.prems(2,5) True by (auto simp: g)
    then show ?thesis using Cons.prems(4) True by auto
  next
    case False
    then have in_gs: "(r, ps) \<in> set gs" using Cons.prems(3) by auto
    then have "h_id r \<in> set (roots gs)" by (force simp: roots_def)
    then have "h \<notin> set (flat_group g)" using own Cons.prems(2,5) by (auto simp: g)
    then show ?thesis using Cons.IH [of "h_to (head g)"] Cons.prems in_gs by auto
  qed
qed

lemma effective_group:
  assumes ch: "chain src gs" and d: "distinct (roots gs)" and g: "(r, ps) \<in> set gs"
    and o: "\<forall>h \<in> set (flat gs). of_asset org a h"
  shows "filter (\<lambda>h. h_role h \<noteq> REVERSAL \<and> \<not> superseded (flat gs) h) (flat_group (r, ps))
           = [head (r, ps)]"
proof -
  obtain s where ok: "group_ok s (r, ps)" using chain_group_ok [OF ch g] by blast
  have sub: "set (flat_group (r, ps)) \<subseteq> set (flat gs)" using g by (force simp: flat_def)
  have last_kept: "\<not> superseded (flat gs) h"
    if h: "h \<in> set (flat_group (r, ps))" "h_generation h = int (length ps)" for h
  proof
    assume "superseded (flat gs) h"
    then obtain c where c: "c \<in> set (flat gs)" "h_root c = Some (root_of h)"
      "h_generation h < h_generation c" by (auto simp: superseded_def)
    then have "root_of c = h_id r" using group_members(1) [OF ok h(1)] by (simp add: root_of_def)
    then have "c \<in> set (flat_group (r, ps))" using member_of_root [OF ch d g c(1)] by simp
    then have "h_generation c \<le> int (length ps)" using group_members(2) [OF ok] by blast
    then show False using c(3) h(2) by simp
  qed
  show ?thesis
  proof (cases ps rule: rev_cases)
    case Nil
    then show ?thesis using ok last_kept [of r] by (simp add: group_ok_def ordinary_def)
  next
    case (snoc qs p)
    have pr: "pairs_ok r s r 0 qs" and p: "pair_ok r s (final r qs) (int (length qs) + 1) p"
      using ok by (simp_all add: group_ok_def snoc pairs_ok_append add.commute)
    have okq: "group_ok s (r, qs)" using ok pr by (simp add: group_ok_def)
    have c: "snd p \<in> set (flat gs)" using sub snoc by auto
    have "superseded (flat gs) h" if h: "h \<in> set (flat_group (r, qs))" for h
    proof -
      have "h \<in> set (flat gs)" using sub h snoc by auto
      then have "of_asset org a h" "of_asset org a (snd p)" using o c by auto
      moreover have "h_generation h < h_generation (snd p)"
        using group_members(2) [OF okq h] p by (simp add: pair_ok_def correction_of_def)
      moreover have "h_root (snd p) = Some (root_of h)" "h_role (snd p) = CORRECTED"
        using group_members(1) [OF okq h] p by (simp_all add: pair_ok_def correction_of_def)
      ultimately show ?thesis using c unfolding superseded_def of_asset_def by (metis)
    qed
    then have earlier: "filter (\<lambda>h. h_role h \<noteq> REVERSAL \<and> \<not> superseded (flat gs) h) (flat_group (r, qs)) = []"
      by (auto simp: filter_empty_conv)
    have "\<not> superseded (flat gs) (snd p)"
      using last_kept [of "snd p"] p by (auto simp: snoc pair_ok_def correction_of_def)
    moreover have split: "flat_group (r, ps) = flat_group (r, qs) @ [fst p, snd p]"
      by (simp add: snoc)
    ultimately show ?thesis
      unfolding split filter_append earlier using p by (simp add: snoc pair_ok_def)
  qed
qed

lemma effective_flat:
  assumes "chain src gs" and "distinct (roots gs)" and "\<forall>h \<in> set (flat gs). of_asset org a h"
  shows "effective (flat gs) = heads gs"
proof -
  let ?k = "\<lambda>h. h_role h \<noteq> REVERSAL \<and> \<not> superseded (flat gs) h"
  have "concat (map (\<lambda>g. filter ?k (flat_group g)) qs) = heads qs" if "set qs \<subseteq> set gs" for qs
    using that effective_group [OF assms(1,2) _ assms(3)] by (induction qs) auto
  then have "concat (map (\<lambda>g. filter ?k (flat_group g)) gs) = heads gs" by simp
  then show ?thesis by (simp add: effective_def flat_def filter_concat o_def)
qed


text \<open>What a well-formed table says of one Asset.\<close>

lemma table_ok_asset:
  assumes "table_ok initial rows"
  obtains gs where "asset_rows org a rows = flat gs" "chain (initial org a) gs"
    "in_versions (flat gs)" "distinct (map h_id (flat gs))" "distinct (roots gs)"
    "\<forall>h \<in> set (flat gs). of_asset org a h"
proof -
  obtain gs where gs: "history_of (initial org a) (asset_rows org a rows) gs"
    using assms by (auto simp: table_ok_def)
  then have flat: "asset_rows org a rows = flat gs" by (simp add: history_of_def)
  have d: "distinct (map h_id (flat gs))"
    using assms by (simp add: table_ok_def flat [symmetric] asset_rows_def distinct_map inj_on_def)
  have "\<forall>h \<in> set (flat gs). of_asset org a h"
    by (simp add: flat [symmetric] set_asset_rows)
  with that gs flat d roots_distinct [OF d] show ?thesis by (simp add: history_of_def)
qed

lemma effective_of_asset:
  assumes "asset_rows org a rows = flat gs" "chain src gs" "distinct (roots gs)"
    "\<forall>h \<in> set (flat gs). of_asset org a h"
  shows "filter (of_asset org a) (effective rows) = heads gs"
  using assms effective_flat by (simp add: effective_local)

lemma latest_heads:
  assumes "in_versions (heads gs)"
  shows "latest_by h_version (heads gs) = (if gs = [] then None else Some (head (last gs)))"
proof (cases "gs = []")
  case False
  then have "heads gs \<noteq> []" by (simp add: heads_def)
  from in_versions_latest [OF assms this] False show ?thesis by (simp add: heads_def last_map)
qed simp

lemma latest_effective_heads:
  assumes "asset_rows org a rows = flat gs" "chain src gs" "distinct (roots gs)"
    "\<forall>h \<in> set (flat gs). of_asset org a h" "in_versions (flat gs)"
  shows "latest_effective org a rows = (if gs = [] then None else Some (head (last gs)))"
proof -
  have "latest_effective org a rows = latest_by h_version (heads gs)"
    by (simp add: latest_effective_def effective_of_asset [OF assms(1-4)])
  then show ?thesis using latest_heads [OF in_versions_heads [OF assms(5)]] by simp
qed

lemma filter_all_false: "(\<And>x. x \<in> set xs \<Longrightarrow> \<not> P x) \<Longrightarrow> filter P xs = []"
  by (induction xs) auto

lemma filter_all_true: "(\<And>x. x \<in> set xs \<Longrightarrow> P x) \<Longrightarrow> filter P xs = xs"
  by (induction xs) auto

lemma group_versions:
  assumes "group_ok s g" "in_versions (flat_group g)" "h \<in> set (flat_group g)"
  shows "h_version (fst g) \<le> h_version h"
  using assms(2,3) by (cases g) (auto simp: in_versions_Cons intro: less_imp_le)

lemma latest_before_heads:
  assumes rows: "asset_rows org a rows = flat (xs @ (r, ps) # ys)"
    and ch: "chain src (xs @ (r, ps) # ys)"
    and d: "distinct (roots (xs @ (r, ps) # ys))"
    and o: "\<forall>h \<in> set (flat (xs @ (r, ps) # ys)). of_asset org a h"
    and v: "in_versions (flat (xs @ (r, ps) # ys))"
  shows "latest_before org a (h_version r) rows = (if xs = [] then None else Some (head (last xs)))"
proof -
  let ?gs = "xs @ (r, ps) # ys"
  have eff: "filter (of_asset org a) (effective rows) = heads ?gs"
    using effective_of_asset [OF rows ch d o] .
  have "filter (\<lambda>h. of_asset org a h \<and> h_version h < h_version r) (effective rows)
        = filter (\<lambda>h. h_version h < h_version r) (filter (of_asset org a) (effective rows))"
    by (simp add: conj_commute)
  also have "\<dots> = filter (\<lambda>h. h_version h < h_version r) (heads ?gs)" by (simp only: eff)
  also have "\<dots> = heads xs"
  proof -
    have lo: "h_version h < h_version r" if "h \<in> set (heads xs)" for h
    proof -
      have "h \<in> set (flat xs)" using that heads_subset by blast
      then show ?thesis using v by (auto simp: in_versions_append)
    qed
    have hi: "h_version r \<le> h_version h" if "h \<in> set (heads ((r, ps) # ys))" for h
    proof -
      have "h \<in> set (flat ((r, ps) # ys))" using that heads_subset by blast
      then show ?thesis
        using v by (auto simp: in_versions_append in_versions_Cons intro: less_imp_le)
    qed
    have "filter (\<lambda>h. h_version h < h_version r) (heads xs) = heads xs"
      using lo by (intro filter_all_true)
    moreover have "filter (\<lambda>h. h_version h < h_version r) (heads ((r, ps) # ys)) = []"
      using hi by (intro filter_all_false) (meson not_less)
    ultimately show ?thesis by (simp only: heads_simps(3) filter_append append_Nil2)
  qed
  finally have "latest_before org a (h_version r) rows = latest_by h_version (heads xs)"
    by (simp add: latest_before_def)
  moreover have "in_versions (heads xs)" using v by (intro in_versions_heads) (simp add: in_versions_append)
  ultimately show ?thesis by (simp add: latest_heads)
qed


section \<open>No anomaly\<close>

text \<open>The position of a row: the root of its group, or one half of one of its pairs.\<close>

lemma flat_cases:
  assumes "h \<in> set (flat gs)"
  obtains (root) xs r ps ys where "gs = xs @ (r, ps) # ys" "h = r"
  | (reversal) xs r ps p qs ys where "gs = xs @ (r, ps @ p # qs) # ys" "h = fst p"
  | (corrected) xs r ps p qs ys where "gs = xs @ (r, ps @ p # qs) # ys" "h = snd p"
proof -
  obtain g where g: "g \<in> set gs" "h \<in> set (flat_group g)" using assms by (auto simp: flat_def)
  then obtain xs ys where gs: "gs = xs @ g # ys" by (meson split_list)
  obtain r ps where rp: "g = (r, ps)" by (cases g)
  consider "h = r" | "h \<in> set (flat_pairs ps)" using g(2) rp by auto
  then show ?thesis
  proof cases
    case 1
    then show ?thesis using root gs rp by blast
  next
    case 2
    then obtain p where p: "p \<in> set ps" "h = fst p \<or> h = snd p" by (auto simp: flat_pairs_def)
    then obtain us vs where "ps = us @ p # vs" by (meson split_list)
    then show ?thesis using p(2) gs rp reversal corrected by blast
  qed
qed

lemma chain_middle: "chain src (xs @ g # ys) \<Longrightarrow> group_ok (last_fact src xs) g"
  by (simp add: chain_append)

lemma find_by_id:
  assumes "distinct (map h_id rows)" "q \<in> set rows" "of_asset org a q"
  shows "List.find (\<lambda>k. of_asset org a k \<and> h_id k = h_id q) rows = Some q"
  using assms by (induction rows) (auto simp: rev_image_eqI)

lemma id_inj: "distinct (map h_id rows) \<Longrightarrow> p \<in> set rows \<Longrightarrow> q \<in> set rows \<Longrightarrow> h_id p = h_id q \<Longrightarrow> p = q"
  by (auto simp: distinct_map dest: inj_onD)

lemma two_rows:
  assumes "distinct xs" "set xs = {u, w}" "u \<noteq> w"
  shows "xs = [u, w] \<or> xs = [w, u]"
proof -
  have "length xs = 2" using assms distinct_card [of xs] by simp
  then obtain a b where "xs = [a, b]" by (auto simp: numeral_2_eq_2 length_Suc_conv)
  then show ?thesis using assms by auto
qed

lemma distinct_some_two [simp]:
  "distinct_some [Some x, Some x] = 1"
  by (simp add: distinct_some_def distinct_count_def)

lemma distinct_count_two [simp]: "distinct_count [x, x] = 1"
  by (simp add: distinct_count_def)

lemma pair_group_good:
  assumes "g = [v, c] \<or> g = [c, v]" and "h_role v = REVERSAL" "h_role c = CORRECTED"
    and "correction_of r k v" "correction_of r k c" "same_pair v c"
  shows "\<not> pair_group_bad g"
proof -
  obtain t where "h_corrected_at v = Some t" "h_corrected_at c = Some t"
    using assms(6) by (auto simp: same_pair_def)
  then show ?thesis
    using assms
    by (elim disjE) (simp_all add: pair_group_bad_def correction_of_def same_pair_def with_role_def of_asset_def)
qed

lemma role_cases: "h_role h \<noteq> NONE \<Longrightarrow> h_role h = REVERSAL \<or> h_role h = CORRECTED"
  by (cases "h_role h") auto

lemma pair_rows_pair:
  assumes t: "distinct (map h_id rows)" "distinct (map pair_key (corrections_in rows))"
    and vc: "v \<in> set rows" "c \<in> set rows" "h_role v = REVERSAL" "h_role c = CORRECTED"
    and eq: "h_org c = h_org v" "h_pair c = h_pair v"
  shows "pair_rows rows (h_org v) (h_pair v) = [v, c] \<or> pair_rows rows (h_org v) (h_pair v) = [c, v]"
proof (rule two_rows)
  show "distinct (pair_rows rows (h_org v) (h_pair v))"
    using t(1) by (simp add: pair_rows_def distinct_map)
  show "v \<noteq> c" using vc by auto
  have inj: "inj_on pair_key (set (corrections_in rows))" using t(2) by (simp add: distinct_map)
  have "h = v \<or> h = c" if h: "h \<in> set (pair_rows rows (h_org v) (h_pair v))" for h
  proof -
    have m: "h \<in> set (corrections_in rows)" "v \<in> set (corrections_in rows)" "c \<in> set (corrections_in rows)"
      using h vc by (auto simp: pair_rows_def corrections_in_def)
    have "pair_key h = pair_key v \<or> pair_key h = pair_key c"
      using h role_cases [of h] vc eq by (auto simp: pair_rows_def pair_key_def)
    then show ?thesis using inj_onD [OF inj] m by blast
  qed
  then show "set (pair_rows rows (h_org v) (h_pair v)) = {v, c}"
    using vc eq by (auto simp: pair_rows_def)
qed

text \<open>The corrections of a root are exactly the second halves of its pairs.\<close>

lemma root_corrections_group:
  assumes rows: "asset_rows org a rows = flat gs" and ch: "chain src gs" and d: "distinct (roots gs)"
    and o: "\<forall>h \<in> set (flat gs). of_asset org a h"
    and g: "gs = xs @ (r, ps) # ys" and h: "h_root h = Some (h_id r)" "of_asset org a h"
  shows "root_corrections rows h = map snd ps"
proof -
  let ?P = "\<lambda>c. h_role c = CORRECTED \<and> h_root c = Some (h_id r)"
  have in_group: "c \<in> set (flat_group (r, ps))" if "c \<in> set (flat gs)" "?P c" for c
    using member_of_root [OF ch d, of r ps c] that g by (simp add: root_of_def)
  have other: "\<not> ?P c" if c: "c \<in> set (flat_group q)" "q \<in> set xs \<or> q \<in> set ys" for c q
  proof
    assume P: "?P c"
    have q: "q \<in> set gs" using c(2) g by auto
    obtain s where "group_ok s q" using chain_group_ok [OF ch q] by blast
    then have "root_of c = h_id (fst q)" using group_members(1) [of s "fst q" "snd q" c] c(1) by simp
    moreover have "root_of c = h_id r" using P by (simp add: root_of_def)
    ultimately show False using c(2) d g by (auto simp: roots_def)
  qed
  have none: "filter ?P (flat xs) = []" "filter ?P (flat ys) = []"
    using other by (auto simp: filter_empty_conv flat_def)
  have own: "filter ?P (flat_pairs qs) = map snd qs" if "pairs_ok r s prev k qs" for s prev k qs
    using that
    by (induction qs arbitrary: prev k) (auto simp: pair_ok_def correction_of_def)
  obtain s where ok: "group_ok s (r, ps)" using chain_group_ok [OF ch] g by auto
  have "root_corrections rows h = filter ?P (asset_rows org a rows)"
    using h by (auto simp: root_corrections_def asset_rows_def of_asset_def intro!: filter_cong)
  also have "\<dots> = map snd ps"
    using ok none own [of s r 0 ps] by (simp add: rows g group_ok_def ordinary_def)
  finally show ?thesis .
qed

lemma distinct_generations: "distinct (map (\<lambda>i. k + int i + 1) [0..<n])"
  by (simp add: distinct_map inj_on_def)

lemma generations_good:
  assumes "pairs_ok r s r 0 ps" "ps \<noteq> []"
  shows "\<exists>m. latest_by h_generation (map snd ps) = Some m \<and> h_generation m = int (length ps)
     \<and> distinct_count (map h_generation (map snd ps)) = length ps"
proof -
  have gen: "map (h_generation \<circ> snd) ps = map (\<lambda>i. 0 + int i + 1) [0..<length ps]"
    using pairs_ok_generations [OF assms(1)] .
  have nth: "h_generation (snd (ps ! i)) = int i + 1" if "i < length ps" for i
    using pairs_ok_generation_nth [OF assms(1) that] by simp
  have "sorted_wrt (\<lambda>x y. h_generation x < h_generation y) (map snd ps)"
    by (auto simp: sorted_wrt_iff_nth_less nth)
  then have l: "latest_by h_generation (map snd ps) = Some (last (map snd ps))"
    using assms(2) by (intro latest_by_sorted) auto
  have "h_generation (last (map snd ps)) = int (length ps)"
    using assms(2) nth [of "length ps - 1"]
    by (cases ps rule: rev_cases) (simp_all add: last_map last_conv_nth)
  moreover have "distinct_count (map h_generation (map snd ps)) = length ps"
    using distinct_generations [of 0 "length ps"]
    by (simp add: distinct_count_def gen distinct_remdups_id)
  ultimately show ?thesis using l by blast
qed


lemma reason_ok_nonempty: "reason_ok t \<Longrightarrow> t \<noteq> []"
  by (auto simp: reason_ok_def has_nonspace_def)

text \<open>The predecessor a reversal cancels is the head its group had before the pair.\<close>

lemma predecessor_final:
  assumes ids: "distinct (map h_id rows)" and rows: "asset_rows org a rows = flat gs"
    and ch: "chain src gs" and d: "distinct (roots gs)" and o: "\<forall>h \<in> set (flat gs). of_asset org a h"
    and gs: "gs = xs @ (r, ps @ p # qs) # ys" and q: "q \<in> set rows" "predecessor (fst p) q"
  shows "q = final r ps"
proof -
  let ?h = "fst p"
  have "group_ok (last_fact src xs) (r, ps @ p # qs)" using ch unfolding gs by (rule chain_middle)
  then have po: "pairs_ok r (last_fact src xs) r 0 (ps @ p # qs)" by (simp add: group_ok_def)
  have g: "h_root ?h = Some (h_id r)" "h_generation ?h = int (length ps) + 1" "of_asset org a ?h" "r \<in> set rows"
  proof -
    show "h_root ?h = Some (h_id r)" "h_generation ?h = int (length ps) + 1"
      using pairs_ok_nth [OF po] by (simp_all add: pair_ok_def correction_of_def)
    have "r \<in> set (flat gs)" "?h \<in> set (flat gs)" by (simp_all add: gs)
    then show "of_asset org a ?h" "r \<in> set rows"
      using o set_asset_rows [of r org a rows] by (simp_all add: rows)
  qed
  show ?thesis
  proof (cases ps rule: rev_cases)
    case Nil
    then have "h_id q = h_id r" using q(2) g by (auto simp: predecessor_def)
    then show ?thesis using id_inj [OF ids q(1) g(4)] Nil by simp
  next
    case (snoc us u)
    have qc: "h_role q = CORRECTED" "h_root q = Some (h_id r)" "h_generation q = int (length ps)"
      "of_asset org a q"
      using q(2) g snoc by (auto simp: predecessor_def of_asset_def)
    then have "q \<in> set (root_corrections rows ?h)"
      using q(1) g by (simp add: root_corrections_def of_asset_def)
    then obtain i where i: "i < length (ps @ p # qs)" "q = snd ((ps @ p # qs) ! i)"
      using root_corrections_group [OF rows ch d o gs g(1,3)]
      by (metis (no_types, lifting) in_set_conv_nth length_map nth_map)
    have "h_generation (snd ((ps @ p # qs) ! i)) = int i + 1"
      using pairs_ok_generation_nth [OF po i(1)] by simp
    then have "i = length us" using i qc(3) snoc by simp
    then show ?thesis using i(2) snoc by (simp add: nth_append)
  qed
qed

lemma good_pair_not_bad:
  assumes ids: "distinct (map h_id rows)" and keys: "distinct (map pair_key (corrections_in rows))"
    and p: "fst p \<in> set rows" "snd p \<in> set rows" "pair_ok r s f g p" and h: "h = fst p \<or> h = snd p"
  shows "\<not> pair_bad rows h"
proof -
  have e: "h_org (snd p) = h_org (fst p)" "h_pair (snd p) = h_pair (fst p)"
    and roles: "h_role (fst p) = REVERSAL" "h_role (snd p) = CORRECTED"
    and c: "correction_of r g (fst p)" "correction_of r g (snd p)" "same_pair (fst p) (snd p)"
    using p(3) by (auto simp: pair_ok_def correction_of_def of_asset_def same_pair_def)
  have "pair_rows rows (h_org h) (h_pair h) = pair_rows rows (h_org (fst p)) (h_pair (fst p))"
    using h e by auto
  moreover have "\<not> pair_group_bad (pair_rows rows (h_org (fst p)) (h_pair (fst p)))"
    using pair_rows_pair [OF ids keys p(1,2) roles e] roles c by (rule pair_group_good)
  ultimately show ?thesis by (simp add: pair_bad_def Let_def)
qed

lemma good_pair_row:
  assumes t: "table_ok initial rows" and rows: "asset_rows org a rows = flat gs"
    and ch: "chain src gs" and d: "distinct (roots gs)" and o: "\<forall>h \<in> set (flat gs). of_asset org a h"
    and v: "in_versions (flat gs)" and src: "src = initial org a"
    and gs: "gs = xs @ (r, ps @ p # qs) # ys" and h: "h = fst p \<or> h = snd p"
  shows "\<not> malformed_row initial rows h"
proof -
  have ids: "distinct (map h_id rows)" and keys: "distinct (map pair_key (corrections_in rows))"
    using t by (simp_all add: table_ok_def)
  have g: "group_ok (last_fact src xs) (r, ps @ p # qs)" using ch unfolding gs by (rule chain_middle)
  then have ro: "ordinary r" and po: "pairs_ok r (last_fact src xs) r 0 (ps @ p # qs)"
    by (simp_all add: group_ok_def)
  have pok: "pair_ok r (last_fact src xs) (final r ps) (int (length ps) + 1) p"
    using pairs_ok_nth [OF po] by simp
  have in_flat: "r \<in> set (flat gs)" "fst p \<in> set (flat gs)" "snd p \<in> set (flat gs)"
    by (auto simp: gs)
  then have in_rows: "r \<in> set rows" "fst p \<in> set rows" "snd p \<in> set rows"
    by (auto simp: rows [symmetric] set_asset_rows)
  have ha: "of_asset org a h" "of_asset org a r" using h in_flat o by auto
  then have oa: "h_org h = org" "h_asset h = a" by (simp_all add: of_asset_def)
  have hroot: "h_root h = Some (h_id r)" using h pok by (auto simp: pair_ok_def correction_of_def)
  have rr: "root_row rows h = Some r"
    using find_by_id [OF ids in_rows(1) ha(2)] by (simp add: root_row_def hroot oa)
  have shape: "\<not> shape_bad rows h"
    using h pok ro rr by (auto simp: shape_bad_def pair_ok_def correction_of_def same_pair_def ordinary_def)
  have pair: "\<not> pair_bad rows h" by (rule good_pair_not_bad [OF ids keys in_rows(2,3) pok h])
  have gen: "\<not> generation_bad rows h"
    using root_corrections_group [OF rows ch d o gs hroot ha(1)] generations_good [OF po]
    by (auto simp: generation_bad_def Let_def)
  have cancel: "\<not> cancel_bad rows h"
  proof (cases "h_role h = REVERSAL")
    case True
    then have hv: "h = fst p" using h pok by (auto simp: pair_ok_def)
    have "q = final r ps" if "q \<in> set rows" "predecessor h q" for q
      using predecessor_final [OF ids rows ch d o gs that(1)] that(2) hv by simp
    then show ?thesis using pok hv by (auto simp: cancel_bad_def pair_ok_def cancels_def)
  qed (simp add: cancel_bad_def)
  have source: "\<not> source_bad initial rows h"
  proof (cases "h_role h = CORRECTED")
    case True
    then have hc: "h = snd p" using h pok by (auto simp: pair_ok_def)
    have "latest_before org a (h_version r) rows = (if xs = [] then None else Some (head (last xs)))"
      using latest_before_heads [of org a rows xs r "ps @ p # qs" ys src] rows ch d o v gs by simp
    moreover have "h_from h = last_fact src xs" using pok hc by (simp add: pair_ok_def)
    ultimately show ?thesis by (auto simp: source_bad_def rr oa last_fact_def src)
  qed (simp add: source_bad_def)
  show ?thesis using shape pair gen cancel source by (simp add: malformed_row_def)
qed

lemma good_root_row:
  assumes "ordinary h"
  shows "\<not> malformed_row initial rows h"
  using assms
  by (simp add: malformed_row_def shape_bad_def pair_bad_def generation_bad_def cancel_bad_def
      source_bad_def ordinary_def)

theorem table_ok_not_malformed:
  assumes "table_ok initial rows"
  shows "malformed_sql initial rows = []"
proof -
  have "\<not> malformed_row initial rows h" if h: "h \<in> set rows" for h
  proof -
    let ?o = "h_org h" and ?a = "h_asset h"
    obtain gs where gs: "asset_rows ?o ?a rows = flat gs" "chain (initial ?o ?a) gs"
      "in_versions (flat gs)" "distinct (map h_id (flat gs))" "distinct (roots gs)"
      "\<forall>h \<in> set (flat gs). of_asset ?o ?a h"
      using table_ok_asset [OF assms] by metis
    have "h \<in> set (flat gs)" using h by (simp add: gs(1) [symmetric] set_asset_rows)
    then show ?thesis
    proof (cases rule: flat_cases)
      case (root xs r ps ys)
      have "group_ok (last_fact (initial ?o ?a) xs) (r, ps)"
        using gs(2) unfolding root(1) by (rule chain_middle)
      then show ?thesis using root(2) by (simp add: group_ok_def good_root_row)
    next
      case (reversal xs r ps p qs ys)
      from good_pair_row [OF assms gs(1,2,5,6,3) refl reversal(1)] reversal(2)
      show ?thesis by blast
    next
      case (corrected xs r ps p qs ys)
      from good_pair_row [OF assms gs(1,2,5,6,3) refl corrected(1)] corrected(2)
      show ?thesis by blast
    qed
  qed
  then show ?thesis by (simp add: malformed_sql_def filter_empty_conv)
qed


text \<open>In a well-formed table a reversal repeats everything its predecessor asserted.\<close>

lemma reversal_cancels:
  assumes t: "table_ok initial rows" and h: "h \<in> set rows" "h_role h = REVERSAL"
    and q: "q \<in> set rows" "predecessor h q"
  shows "cancels h q"
proof -
  let ?o = "h_org h" and ?a = "h_asset h"
  obtain gs where gs: "asset_rows ?o ?a rows = flat gs" "chain (initial ?o ?a) gs"
    "in_versions (flat gs)" "distinct (map h_id (flat gs))" "distinct (roots gs)"
    "\<forall>h \<in> set (flat gs). of_asset ?o ?a h"
    using table_ok_asset [OF t] by metis
  have ids: "distinct (map h_id rows)" using t by (simp add: table_ok_def)
  have "h \<in> set (flat gs)" using h(1) by (simp add: gs(1) [symmetric] set_asset_rows)
  then show ?thesis
  proof (cases rule: flat_cases)
    case (root xs r ps ys)
    have "group_ok (last_fact (initial ?o ?a) xs) (r, ps)" using gs(2) unfolding root(1) by (rule chain_middle)
    then show ?thesis using root(2) h(2) by (simp add: group_ok_def ordinary_def)
  next
    case (reversal xs r ps p qs ys)
    have "group_ok (last_fact (initial ?o ?a) xs) (r, ps @ p # qs)"
      using gs(2) unfolding reversal(1) by (rule chain_middle)
    then have "pair_ok r (last_fact (initial ?o ?a) xs) (final r ps) (int (length ps) + 1) p"
      using pairs_ok_nth [of r _ r 0 ps p qs] by (simp add: group_ok_def)
    moreover have "q = final r ps"
      using predecessor_final [OF ids gs(1,2,5,6) reversal(1) q(1)] q(2) reversal(2) by simp
    ultimately show ?thesis using reversal(2) by (simp add: pair_ok_def)
  next
    case (corrected xs r ps p qs ys)
    have "group_ok (last_fact (initial ?o ?a) xs) (r, ps @ p # qs)"
      using gs(2) unfolding corrected(1) by (rule chain_middle)
    then have "pair_ok r (last_fact (initial ?o ?a) xs) (final r ps) (int (length ps) + 1) p"
      using pairs_ok_nth [of r _ r 0 ps p qs] by (simp add: group_ok_def)
    then show ?thesis using corrected(2) h(2) by (simp add: pair_ok_def)
  qed
qed

text \<open>The effective history of an Asset is connected: each fact starts where the previous ended.\<close>

lemma chain_connected:
  assumes "chain src gs" "k < length gs"
  shows "h_from (heads gs ! k) = (if k = 0 then src else h_to (heads gs ! (k - 1)))"
  using assms
proof (induction gs arbitrary: src k)
  case Nil
  then show ?case by simp
next
  case (Cons g gs)
  have from_group: "h_from (head g) = src" if "group_ok src g" for src and g :: "'a group"
  proof (cases "snd g" rule: rev_cases)
    case Nil
    then show ?thesis using that by (simp add: head_def group_ok_def)
  next
    case (snoc us u)
    then show ?thesis using that by (simp add: head_def group_ok_def pairs_ok_append pair_ok_def)
  qed
  show ?case
  proof (cases k)
    case 0
    then show ?thesis using from_group Cons.prems by simp
  next
    case (Suc m)
    then show ?thesis using Cons.IH [of "h_to (head g)" m] Cons.prems by (cases m) auto
  qed
qed

section \<open>Appending\<close>

lemma flat_empty_iff [simp]: "flat gs = [] \<longleftrightarrow> gs = []"
  by (cases gs) (auto simp: flat_group_def)

lemma table_ok_initial_cong:
  assumes "table_ok initial rows"
    and "\<And>org a. asset_rows org a rows \<noteq> [] \<Longrightarrow> initial' org a = initial org a"
  shows "table_ok initial' rows"
proof -
  have "\<exists>gs. history_of (initial' org a) (asset_rows org a rows) gs" for org a
  proof (cases "asset_rows org a rows = []")
    case True
    then show ?thesis by (intro exI [of _ "[]"]) (simp add: history_of_def in_versions_def)
  next
    case False
    then show ?thesis using assms by (simp add: table_ok_def)
  qed
  then show ?thesis using assms(1) by (simp add: table_ok_def)
qed

lemma asset_rows_append [simp]:
  "asset_rows org a (xs @ ys) = asset_rows org a xs @ asset_rows org a ys"
  by (simp add: asset_rows_def)

lemma corrections_in_append [simp]:
  "corrections_in (xs @ ys) = corrections_in xs @ corrections_in ys"
  by (simp add: corrections_in_def)

lemma history_of_append:
  assumes "history_of src hs gs" "chain src (gs @ [g])" "in_versions (hs @ flat_group g)"
  shows "history_of src (hs @ flat_group g) (gs @ [g])"
  using assms by (simp add: history_of_def)

definition prior_fact :: "(uuid \<Rightarrow> uuid \<Rightarrow> 'f) \<Rightarrow> uuid \<Rightarrow> uuid \<Rightarrow> 'f hrow list \<Rightarrow> 'f" where
  "prior_fact initial org a rows =
     (case latest_effective org a rows of Some l \<Rightarrow> h_to l | None \<Rightarrow> initial org a)"

lemma prior_fact_last:
  assumes "asset_rows org a rows = flat gs" "chain src gs" "distinct (roots gs)"
    "\<forall>h \<in> set (flat gs). of_asset org a h" "in_versions (flat gs)"
  shows "prior_fact initial org a rows = last_fact (initial org a) gs"
  using latest_effective_heads [OF assms] by (simp add: prior_fact_def last_fact_def)

lemma table_ok_append_ordinary:
  assumes t: "table_ok initial rows" and n: "ordinary n" "h_id n \<notin> h_id ` set rows"
    and src: "h_from n = prior_fact initial (h_org n) (h_asset n) rows"
    and ver: "\<And>h. h \<in> set rows \<Longrightarrow> of_asset (h_org n) (h_asset n) h \<Longrightarrow> h_version h < h_version n"
  shows "table_ok initial (rows @ [n])"
proof -
  have "\<exists>gs. history_of (initial org a) (asset_rows org a (rows @ [n])) gs" for org a
  proof (cases "of_asset org a n")
    case True
    then have eq: "org = h_org n" "a = h_asset n" by (simp_all add: of_asset_def)
    obtain gs where gs: "asset_rows org a rows = flat gs" "chain (initial org a) gs"
      "in_versions (flat gs)" "distinct (map h_id (flat gs))" "distinct (roots gs)"
      "\<forall>h \<in> set (flat gs). of_asset org a h"
      using table_ok_asset [OF t] by metis
    have "chain (initial org a) (gs @ [(n, [])])"
      using gs(2) n(1) src prior_fact_last [OF gs(1,2,5,6,3)]
      by (simp add: chain_append group_ok_def eq)
    moreover have "\<forall>h \<in> set (flat gs). h_version h < h_version n"
      using ver by (auto simp: gs(1) [symmetric] set_asset_rows eq)
    then have "in_versions (flat gs @ [n])"
      using gs(3) by (simp add: in_versions_append in_versions_Cons)
    ultimately have "history_of (initial org a) (asset_rows org a (rows @ [n])) (gs @ [(n, [])])"
      using True gs(1) by (simp add: history_of_def) (simp add: asset_rows_def)
    then show ?thesis by blast
  next
    case False
    then have "asset_rows org a (rows @ [n]) = asset_rows org a rows" by (simp add: asset_rows_def)
    then show ?thesis using t by (simp add: table_ok_def)
  qed
  moreover have "corrections_in [n] = []" using n(1) by (simp add: corrections_in_def ordinary_def)
  ultimately show ?thesis using t n(2) by (simp add: table_ok_def)
qed

text \<open>
  A correction extends the last group: its root's head carries the greatest version of the Asset.
\<close>

lemma correction_target:
  assumes ch: "chain src gs" and d: "distinct (roots gs)" and v: "in_versions (flat gs)"
    and r: "r \<in> set (flat gs)" "h_role r = NONE"
    and hd: "hd' \<in> set (heads gs)" "root_of hd' = h_id r"
    and top: "\<forall>h \<in> set (flat gs). h_version h \<le> h_version hd'"
  obtains xs ps where "gs = xs @ [(r, ps)]" "hd' = final r ps"
proof -
  obtain g where g: "g \<in> set gs" "r \<in> set (flat_group g)" using r(1) by (auto simp: flat_def)
  obtain r' ps where rp: "g = (r', ps)" by (cases g)
  obtain s where ok: "group_ok s (r', ps)" using chain_group_ok [OF ch g(1)] rp by blast
  have "r = r'"
    using group_members(4) [OF ok] g(2) r(2) by (auto simp: rp member_ok_def)
  with g rp have gr: "(r, ps) \<in> set gs" and ok: "group_ok s (r, ps)" using ok by auto
  obtain xs ys where gs: "gs = xs @ (r, ps) # ys" using gr by (meson split_list)
  obtain q where q: "q \<in> set gs" "hd' = head q" using hd(1) by (auto simp: heads_def)
  obtain s' where okq: "group_ok s' q" using chain_group_ok [OF ch q(1)] by blast
  have "root_of hd' = h_id (fst q)"
    using group_members(1) [of s' "fst q" "snd q" hd'] okq q(2) head_in_group [of q] by simp
  then have "h_id (fst q) = h_id r" using hd(2) by simp
  moreover have "inj_on (h_id \<circ> fst) (set gs)" using d by (simp add: roots_def distinct_map)
  ultimately have "q = (r, ps)" using q(1) gr by (metis comp_apply fst_conv inj_onD)
  then have h: "hd' = final r ps" using q(2) by simp
  have "ys = []"
  proof (rule ccontr)
    assume "ys \<noteq> []"
    then obtain y yy where y: "flat ys = y # yy" by (cases "flat ys") auto
    have "hd' \<in> set (flat_group (r, ps))" using h head_in_group [of "(r, ps)"] by simp
    then have "h_version hd' < h_version y"
      using v y by (auto simp: gs in_versions_append in_versions_Cons)
    moreover have "h_version y \<le> h_version hd'" using top y by (simp add: gs)
    ultimately show False by simp
  qed
  with that gs h show ?thesis by blast
qed

definition correction_pair ::
  "'f hrow \<Rightarrow> 'f hrow \<Rightarrow> 'f \<Rightarrow> 'f hrow \<Rightarrow> 'f hrow \<Rightarrow> bool" where
  "correction_pair r hd' src v c \<longleftrightarrow> pair_ok r src hd' (h_generation hd' + 1) (v, c)"

lemma final_generation:
  assumes "group_ok s (r, ps)"
  shows "h_generation (final r ps) = int (length ps)"
  using assms
  by (cases ps rule: rev_cases)
    (auto simp: group_ok_def ordinary_def pairs_ok_append pair_ok_def correction_of_def)

lemma extend_last_group:
  assumes t: "table_ok initial rows"
    and r: "r \<in> set rows" "of_asset org a r" "h_role r = NONE"
    and hd: "hd' \<in> set (effective rows)" "of_asset org a hd'" "root_of hd' = h_id r"
    and top: "\<And>h. h \<in> set rows \<Longrightarrow> of_asset org a h \<Longrightarrow> h_version h \<le> h_version hd'"
    and pair: "correction_pair r hd' src v c"
    and src: "src = (case latest_before org a (h_version r) rows of Some p \<Rightarrow> h_to p
                     | None \<Rightarrow> initial org a)"
  obtains xs ps where "asset_rows org a rows = flat (xs @ [(r, ps)])" "hd' = final r ps"
    "src = last_fact (initial org a) xs" "chain (initial org a) (xs @ [(r, ps)])"
    "chain (initial org a) (xs @ [(r, ps @ [(v, c)])])"
    "in_versions (flat (xs @ [(r, ps @ [(v, c)])]))" "distinct (roots (xs @ [(r, ps)]))"
proof -
  have pok: "pair_ok r src hd' (h_generation hd' + 1) (v, c)" using pair by (simp add: correction_pair_def)
  obtain gs where gs: "asset_rows org a rows = flat gs" "chain (initial org a) gs"
    "in_versions (flat gs)" "distinct (map h_id (flat gs))" "distinct (roots gs)"
    "\<forall>h \<in> set (flat gs). of_asset org a h"
    using table_ok_asset [OF t] by metis
  have rf: "r \<in> set (flat gs)" using r by (simp add: gs(1) [symmetric] set_asset_rows)
  have hf: "hd' \<in> set (heads gs)"
    using hd(1,2) by (simp add: effective_of_asset [OF gs(1,2,5,6), symmetric])
  have tf: "\<forall>h \<in> set (flat gs). h_version h \<le> h_version hd'"
    using top by (auto simp: gs(1) [symmetric] set_asset_rows)
  obtain xs ps where g: "gs = xs @ [(r, ps)]" "hd' = final r ps"
    using correction_target [OF gs(2,5,3) rf r(3) hf hd(3) tf] by metis
  have lb: "src = last_fact (initial org a) xs"
    using latest_before_heads [of org a rows xs r ps "[]"] gs src by (simp add: g last_fact_def)
  have okg: "group_ok (last_fact (initial org a) xs) (r, ps)" using gs(2) by (simp add: g chain_append)
  then have "group_ok (last_fact (initial org a) xs) (r, ps @ [(v, c)])"
    using pok final_generation [OF okg] by (simp add: group_ok_def pairs_ok_append g(2) lb)
  then have "chain (initial org a) (xs @ [(r, ps @ [(v, c)])])" using gs(2) by (simp add: g chain_append)
  moreover have "h_version v = h_version hd' + 1" "h_version c = h_version v + 1"
    using pok by (simp_all add: pair_ok_def cancels_def same_pair_def)
  then have "in_versions (flat gs @ [v, c])"
    using gs(3) tf by (auto simp: in_versions_append in_versions_Cons dest!: bspec)
  then have "in_versions (flat (xs @ [(r, ps @ [(v, c)])]))" by (simp add: g)
  ultimately show ?thesis using that gs(1,2,5) g lb by simp
qed

lemma table_ok_append_pair:
  assumes t: "table_ok initial rows"
    and r: "r \<in> set rows" "of_asset org a r" "h_role r = NONE"
    and hd: "hd' \<in> set (effective rows)" "of_asset org a hd'" "root_of hd' = h_id r"
    and top: "\<And>h. h \<in> set rows \<Longrightarrow> of_asset org a h \<Longrightarrow> h_version h \<le> h_version hd'"
    and pair: "correction_pair r hd' src v c"
    and src: "src = (case latest_before org a (h_version r) rows of Some p \<Rightarrow> h_to p
                     | None \<Rightarrow> initial org a)"
    and ids: "h_id v \<notin> h_id ` set rows" "h_id c \<notin> h_id ` set rows" "h_id v \<noteq> h_id c"
    and key: "\<And>h. h \<in> set (corrections_in rows) \<Longrightarrow> h_org h = org \<Longrightarrow> h_pair h \<noteq> h_pair v"
  shows "table_ok initial (rows @ [v, c])"
proof -
  have pok: "pair_ok r src hd' (h_generation hd' + 1) (v, c)" using pair by (simp add: correction_pair_def)
  then have va: "of_asset org a v" "of_asset org a c"
    using r(2) by (auto simp: pair_ok_def correction_of_def of_asset_def)
  have "\<exists>gs. history_of (initial o' a') (asset_rows o' a' (rows @ [v, c])) gs" for o' a'
  proof (cases "o' = org \<and> a' = a")
    case True
    obtain xs ps where g: "asset_rows org a rows = flat (xs @ [(r, ps)])"
      "chain (initial org a) (xs @ [(r, ps @ [(v, c)])])"
      "in_versions (flat (xs @ [(r, ps @ [(v, c)])]))"
      using extend_last_group [OF t r hd top pair src] by metis
    have "asset_rows org a (rows @ [v, c]) = flat (xs @ [(r, ps @ [(v, c)])])"
      using va by (simp add: g(1)) (simp add: asset_rows_def)
    then have "history_of (initial org a) (asset_rows org a (rows @ [v, c])) (xs @ [(r, ps @ [(v, c)])])"
      using g by (simp add: history_of_def)
    then show ?thesis using True by auto
  next
    case False
    then have "asset_rows o' a' (rows @ [v, c]) = asset_rows o' a' rows"
      using va by (auto simp: asset_rows_def of_asset_def)
    then show ?thesis using t by (simp add: table_ok_def)
  qed
  moreover have "distinct (map pair_key (corrections_in (rows @ [v, c])))"
  proof -
    have kv: "pair_key v = (org, h_pair v, REVERSAL)" "pair_key c = (org, h_pair v, CORRECTED)"
      and roles: "h_role v \<noteq> NONE" "h_role c \<noteq> NONE"
      using pok va by (auto simp: pair_key_def pair_ok_def of_asset_def same_pair_def)
    have fresh: "pair_key h \<noteq> (org, h_pair v, k)" if "h \<in> set (corrections_in rows)" for h k
      using key [OF that] by (auto simp: pair_key_def)
    have "corrections_in [v, c] = [v, c]" using roles by (simp add: corrections_in_def)
    then have "map pair_key (corrections_in (rows @ [v, c]))
        = map pair_key (corrections_in rows) @ [(org, h_pair v, REVERSAL), (org, h_pair v, CORRECTED)]"
      using kv by simp
    moreover have "(org, h_pair v, k) \<notin> set (map pair_key (corrections_in rows))" for k
      using fresh by (simp add: image_iff) metis
    moreover have "distinct (map pair_key (corrections_in rows))" using t by (simp add: table_ok_def)
    ultimately show ?thesis by simp
  qed
  moreover have "distinct (map h_id (rows @ [v, c]))" using t ids by (auto simp: table_ok_def)
  ultimately show ?thesis by (simp add: table_ok_def)
qed

end
