(* ===== verification/EffectiveReader.thy ===== *)
theory EffectiveReader
  imports HistoryChain
begin

text \<open>
  The Python reader \<open>effective_events\<close> accepts every well-formed history and returns the heads of
  its groups, hence agrees with the SQL effective view; \<open>audit_rows\<close> names, for each reversal, the
  entry that was effective before it.
\<close>

lemma sort_key_sorted: "sorted (map f xs) \<Longrightarrow> sort_key f xs = xs"
  by (induction xs) (auto intro: insort_is_Cons)

lemma dict_set_map:
  assumes "distinct (map fst d)" "k \<in> fst ` set d"
  shows "dict_set k v d = map (\<lambda>e. if fst e = k then (k, v) else e) d"
  using assms
proof (induction k v d rule: dict_set.induct)
  case (2 k v k' v' d)
  then show ?case by (force intro!: map_idI [symmetric])
qed simp

lemma fold_dict_set:
  assumes "distinct (map f xs)" "\<forall>x \<in> set xs. f x \<notin> fst ` set d"
  shows "fold (\<lambda>x d. dict_set (f x) (g x) d) xs d = d @ map (\<lambda>x. (f x, g x)) xs"
  using assms
proof (induction xs arbitrary: d)
  case (Cons x xs)
  have "\<forall>y \<in> set xs. f y \<notin> fst ` set (d @ [(f x, g x)])" using Cons.prems by (auto simp: image_iff)
  then show ?case using Cons.IH [of "d @ [(f x, g x)]"] Cons.prems by (simp add: dict_set_new)
qed simp

lemma map_of_map_key:
  assumes "distinct (map f xs)" "x \<in> set xs"
  shows "map_of (map (\<lambda>y. (f y, g y)) xs) (f x) = Some (g x)"
  using assms by (induction xs) (auto simp: image_iff)

section \<open>Collecting the pairs\<close>

definition entry :: "'f hrow \<Rightarrow> 'f hrow \<times> 'f hrow \<Rightarrow> (uuid \<times> int) \<times> 'f hrow list" where
  "entry r p = ((h_id r, h_generation (fst p)), [fst p, snd p])"

definition entries :: "'f group list \<Rightarrow> ((uuid \<times> int) \<times> 'f hrow list) list" where
  "entries gs = concat (map (\<lambda>g. map (entry (fst g)) (snd g)) gs)"

lemma entries_simps [simp]:
  "entries [] = []" "entries (g # gs) = map (entry (fst g)) (snd g) @ entries gs"
  by (simp_all add: entries_def)

lemma dict_append_new: "k \<notin> fst ` set d \<Longrightarrow> dict_append k v d = d @ [(k, [v])]"
  by (simp add: dict_append_def dict_set_new map_of_eq_None_iff [THEN iffD2])

lemma dict_append_last:
  assumes "k \<notin> fst ` set d"
  shows "dict_append k v (d @ [(k, w)]) = d @ [(k, w @ [v])]"
proof -
  have "map_of (d @ [(k, w)]) k = Some w"
    using assms by (simp add: map_add_def map_of_eq_None_iff [THEN iffD2])
  then show ?thesis using assms by (simp add: dict_append_def dict_set_last)
qed

lemma collect_pairs_group:
  assumes "pairs_ok r src prev g ps" "map_of rs (h_id r) = Some r"
    and "\<And>j. g < j \<Longrightarrow> (h_id r, j) \<notin> fst ` set acc"
  shows "collect_pairs rs (flat_pairs ps @ rest) acc = collect_pairs rs rest (acc @ map (entry r) ps)"
  using assms
proof (induction ps arbitrary: prev g acc)
  case Nil
  then show ?case by simp
next
  case (Cons p ps)
  let ?k = "(h_id r, g + 1)"
  have p: "pair_ok r src prev (g + 1) p" "pairs_ok r src (snd p) (g + 1) ps"
    using Cons.prems(1) by simp_all
  have new: "?k \<notin> fst ` set acc" using Cons.prems(3) by simp
  have e: "entry r p = (?k, [fst p, snd p])"
    using p(1) by (simp add: entry_def pair_ok_def correction_of_def)
  have "collect_pairs rs (flat_pairs (p # ps) @ rest) acc
      = collect_pairs rs (flat_pairs ps @ rest) (acc @ [entry r p])"
    using p(1) Cons.prems(2) new
    by (simp add: pair_ok_def correction_of_def of_asset_def dict_append_new dict_append_last e)
  also have "\<dots> = collect_pairs rs rest ((acc @ [entry r p]) @ map (entry r) ps)"
    using Cons.prems(2,3) by (intro Cons.IH [OF p(2)]) (auto simp: e)
  finally show ?case by simp
qed

lemma collect_pairs_flat:
  assumes "chain src gs" "distinct (roots gs)" "\<And>g. g \<in> set gs \<Longrightarrow> map_of rs (h_id (fst g)) = Some (fst g)"
    and "\<And>g j. g \<in> set gs \<Longrightarrow> (h_id (fst g), j) \<notin> fst ` set acc"
  shows "collect_pairs rs (flat gs) acc = Inr (acc @ entries gs)"
  using assms
proof (induction gs arbitrary: src acc)
  case Nil
  then show ?case by simp
next
  case (Cons g gs)
  obtain r ps where g: "g = (r, ps)" by (cases g)
  have ok: "ordinary r" "pairs_ok r src r 0 ps" using Cons.prems(1) by (simp_all add: g group_ok_def)
  have "collect_pairs rs (flat (g # gs)) acc = collect_pairs rs (flat_pairs ps @ flat gs) acc"
    using ok(1) by (simp add: g ordinary_def)
  also have "\<dots> = collect_pairs rs (flat gs) (acc @ map (entry r) ps)"
    using Cons.prems(3) [of g] Cons.prems(4) [of g] by (intro collect_pairs_group [OF ok(2)]) (auto simp: g)
  also have "\<dots> = Inr ((acc @ map (entry r) ps) @ entries gs)"
  proof (rule Cons.IH)
    show "chain (h_to (head g)) gs" "distinct (roots gs)" using Cons.prems(1,2) by auto
    show "map_of rs (h_id (fst q)) = Some (fst q)" if "q \<in> set gs" for q
      using Cons.prems(3) that by simp
    show "(h_id (fst q), j) \<notin> fst ` set (acc @ map (entry r) ps)" if "q \<in> set gs" for q j
    proof -
      have "h_id (fst q) \<noteq> h_id r" using Cons.prems(2) that by (force simp: g roots_def)
      then show ?thesis using Cons.prems(4) [of q j] that by (auto simp: entry_def)
    qed
  qed
  finally show ?case by (simp add: g)
qed

section \<open>Applying the pairs by generation\<close>

definition progress :: "'f group list \<Rightarrow> (uuid \<Rightarrow> nat) \<Rightarrow> (uuid \<times> 'f hrow) list" where
  "progress gs d = map (\<lambda>g. (h_id (fst g), final (fst g) (take (d (h_id (fst g))) (snd g)))) gs"

lemma map_of_progress:
  assumes "distinct (roots gs)" "g \<in> set gs"
  shows "map_of (progress gs d) (h_id (fst g)) = Some (final (fst g) (take (d (h_id (fst g))) (snd g)))"
  using map_of_map_key [of "\<lambda>g. h_id (fst g)" gs g] assms
  by (simp add: progress_def roots_def comp_def)

lemma progress_step:
  assumes "distinct (roots gs)" "(r, ps) \<in> set gs" "d (h_id r) < length ps"
  shows "dict_set (h_id r) (snd (ps ! d (h_id r))) (progress gs d)
           = progress gs (d(h_id r := Suc (d (h_id r))))"
proof -
  have keys: "distinct (map fst (progress gs d))" "h_id r \<in> fst ` set (progress gs d)"
    using assms by (force simp: progress_def roots_def comp_def)+
  have inj: "g = (r, ps)" if "g \<in> set gs" "h_id (fst g) = h_id r" for g
  proof -
    have "inj_on (h_id \<circ> fst) (set gs)" using assms(1) by (simp add: roots_def distinct_map)
    then show ?thesis using that assms(2) by (metis comp_apply fst_conv inj_onD)
  qed
  show ?thesis
    unfolding dict_set_map [OF keys] using assms(3)
    by (auto simp: progress_def take_Suc_conv_app_nth dest: inj)
qed

lemma pair_problem_good:
  assumes "pair_ok r src prev (h_generation prev + 1) p" "map_of rs (h_id r) = Some prev"
  shows "pair_problem rs (fst (entry r p)) (snd (entry r p)) = Inr (dict_set (h_id r) (snd p) rs)"
proof -
  obtain q t where "h_pair (fst p) = Some q" "h_pair (snd p) = Some q"
    "h_corrected_at (fst p) = Some t" "h_corrected_at (snd p) = Some t"
    using assms(1) by (auto simp: pair_ok_def same_pair_def)
  then show ?thesis
    using assms
    by (simp add: pair_problem_def entry_def pair_ok_def correction_of_def same_pair_def cancels_def Let_def)
qed

lemma apply_pairs:
  assumes ch: "chain src gs" and d: "distinct (roots gs)"
    and own: "\<And>r ps. (r, ps) \<in> set gs \<Longrightarrow>
          filter (\<lambda>e. fst (fst e) = h_id r) es = map (entry r) (drop (n (h_id r)) ps)"
    and inr: "\<And>e. e \<in> set es \<Longrightarrow> fst (fst e) \<in> set (roots gs)"
  shows "fold_result (\<lambda>(key, pair) rs. pair_problem rs key pair) es (progress gs n)
           = Inr (map (\<lambda>g. (h_id (fst g), head g)) gs)"
  using own inr
proof (induction es arbitrary: n)
  case Nil
  have "take (n (h_id r)) ps = ps" if "(r, ps) \<in> set gs" for r ps
    using Nil(1) [OF that] by simp
  then show ?case by (auto simp: progress_def head_def)
next
  case (Cons e es)
  obtain r ps where g: "(r, ps) \<in> set gs" "fst (fst e) = h_id r"
    using Cons.prems(2) [of e] by (auto simp: roots_def)
  let ?i = "n (h_id r)"
  have "map (entry r) (drop ?i ps) = e # filter (\<lambda>e. fst (fst e) = h_id r) es"
    using Cons.prems(1) [OF g(1)] g(2) by simp
  then have i: "?i < length ps" and e: "e = entry r (ps ! ?i)"
    and rest: "filter (\<lambda>e. fst (fst e) = h_id r) es = map (entry r) (drop (Suc ?i) ps)"
    by (cases "?i < length ps", auto simp: Cons_nth_drop_Suc [symmetric])+
  obtain s where ok: "group_ok s (r, ps)" using chain_group_ok [OF ch g(1)] by blast
  have split: "ps = take ?i ps @ ps ! ?i # drop (Suc ?i) ps" using i by (rule id_take_nth_drop)
  have okt: "group_ok s (r, take ?i ps)"
    using ok by (subst (asm) split) (simp add: group_ok_def pairs_ok_append)
  have "pairs_ok r s r 0 (take ?i ps @ ps ! ?i # drop (Suc ?i) ps)"
    using ok split by (simp add: group_ok_def)
  from pairs_ok_nth [OF this] have
    "pair_ok r s (final r (take ?i ps)) (h_generation (final r (take ?i ps)) + 1) (ps ! ?i)"
    using final_generation [OF okt] i by (simp add: min_def)
  then have "pair_problem (progress gs n) (fst e) (snd e)
      = Inr (progress gs (n(h_id r := Suc ?i)))"
    using pair_problem_good map_of_progress [OF d g(1)] progress_step [of gs r ps n, OF d g(1) i]
    by (fastforce simp: e)
  moreover have "fold_result (\<lambda>(key, pair) rs. pair_problem rs key pair) es
      (progress gs (n(h_id r := Suc ?i))) = Inr (map (\<lambda>g. (h_id (fst g), head g)) gs)"
  proof (rule Cons.IH)
    fix r' ps' assume g': "(r', ps') \<in> set gs"
    show "filter (\<lambda>e. fst (fst e) = h_id r') es
        = map (entry r') (drop ((n(h_id r := Suc ?i)) (h_id r')) ps')"
    proof (cases "h_id r' = h_id r")
      case True
      have "inj_on (h_id \<circ> fst) (set gs)" using d by (simp add: roots_def distinct_map)
      then have "(r', ps') = (r, ps)" using g' g(1) True by (metis comp_apply fst_conv inj_onD)
      then show ?thesis using rest by simp
    next
      case False
      then show ?thesis using Cons.prems(1) [OF g'] g(2) by simp
    qed
  qed (use Cons.prems(2) in auto)
  ultimately show ?case by (cases e) simp
qed

lemma entries_root: "e \<in> set (entries gs) \<Longrightarrow> fst (fst e) \<in> set (roots gs)"
  by (induction gs) (auto simp: entry_def)

lemma filter_entries:
  assumes "distinct (roots gs)" "(r, ps) \<in> set gs"
  shows "filter (\<lambda>e. fst (fst e) = h_id r) (entries gs) = map (entry r) ps"
  using assms
proof (induction gs)
  case Nil
  then show ?case by simp
next
  case (Cons g gs)
  show ?case
  proof (cases "g = (r, ps)")
    case True
    have "filter (\<lambda>e. fst (fst e) = h_id r) (entries gs) = []"
      using Cons.prems(1) True by (auto simp: filter_empty_conv dest: entries_root)
    then show ?thesis using True by (simp add: filter_map comp_def entry_def)
  next
    case False
    then have in_gs: "(r, ps) \<in> set gs" using Cons.prems(2) by auto
    then have "h_id (fst g) \<noteq> h_id r" using Cons.prems(1) by (force simp: roots_def)
    then show ?thesis
      using Cons.IH Cons.prems(1) in_gs by (simp add: filter_map comp_def entry_def)
  qed
qed

section \<open>The two readers agree\<close>

lemma with_role_NONE_flat: "chain src gs \<Longrightarrow> with_role NONE (flat gs) = map fst gs"
proof (induction gs arbitrary: src)
  case Nil
  then show ?case by (simp add: with_role_def)
next
  case (Cons g gs)
  have none: "filter (\<lambda>h. h_role h = NONE) (flat_pairs ps) = []" if "pairs_ok r s prev k ps" for r s prev k ps
    using pairs_ok_members [OF that] by (auto simp: filter_empty_conv member_ok_def)
  from Cons show ?case
    by (cases g) (auto simp: with_role_def group_ok_def ordinary_def none)
qed

lemma in_versions_sorted: "in_versions hs \<Longrightarrow> sorted (map h_version hs)"
  by (induction hs) (auto simp: in_versions_Cons intro: less_imp_le)

lemma effective_events_flat:
  assumes ch: "chain src gs" and v: "in_versions (flat gs)" and ids: "distinct (map h_id (flat gs))"
  shows "effective_events (flat gs) = Inr (heads gs)"
proof -
  have d: "distinct (roots gs)" using roots_distinct [OF ids] .
  have roots: "fold (\<lambda>h d. dict_set (h_id h) h d) (with_role NONE (flat gs)) []
      = progress gs (\<lambda>_. 0)"
    using fold_dict_set [of h_id "map fst gs" "[]" "\<lambda>h. h"] d
    by (simp add: with_role_NONE_flat [OF ch] progress_def roots_def comp_def)
  have collect: "collect_pairs (progress gs (\<lambda>_. 0)) (flat gs) [] = Inr (entries gs)"
    using collect_pairs_flat [OF ch d, of "progress gs (\<lambda>_. 0)" "[]"] map_of_progress [OF d, of _ "\<lambda>_. 0"]
    by simp
  have own: "filter (\<lambda>e. fst (fst e) = h_id r) (sort_key (snd \<circ> fst) (entries gs)) = map (entry r) ps"
    if g: "(r, ps) \<in> set gs" for r ps
  proof -
    obtain s where ok: "group_ok s (r, ps)" using chain_group_ok [OF ch g] by blast
    then have p: "pairs_ok r s r 0 ps" by (simp add: group_ok_def)
    have "h_generation (fst (ps ! i)) = int i + 1" if "i < length ps" for i
    proof -
      have "pairs_ok r s r 0 (take i ps @ ps ! i # drop (Suc i) ps)"
        using p id_take_nth_drop [OF that] by simp
      from pairs_ok_nth [OF this] show ?thesis
        using that by (simp add: pair_ok_def correction_of_def min_def)
    qed
    then have "sorted (map (snd \<circ> fst) (map (entry r) ps))"
      by (auto simp: sorted_iff_nth_mono entry_def)
    then show ?thesis
      using filter_sort [of "\<lambda>e. fst (fst e) = h_id r" "snd \<circ> fst" "entries gs"]
      by (simp add: filter_entries [OF d g] sort_key_sorted)
  qed
  have "fold_result (\<lambda>(key, pair) rs. pair_problem rs key pair)
      (sort_key (snd \<circ> fst) (entries gs)) (progress gs (\<lambda>_. 0))
      = Inr (map (\<lambda>g. (h_id (fst g), head g)) gs)"
    using own by (intro apply_pairs [OF ch d]) (simp_all add: entries_root)
  moreover have "sort_key h_version (heads gs) = heads gs"
    using in_versions_heads [OF v] by (intro sort_key_sorted in_versions_sorted)
  ultimately show ?thesis
    unfolding effective_events_def Let_def roots collect rbind_simps by (simp add: comp_def heads_def)
qed

end
