(* ===== verification/Evidence.thy ===== *)
theory Evidence
  imports EffectiveReader
begin

text \<open>
  Evidence: the content-addressed store of \<open>evidence/storage.py\<close>, the relational rules of
  \<open>0012_evidence.py\<close> and the service of \<open>evidence/service.py\<close>.

  The store is a map from a tenant and a digest to bytes.  Operating-system failures are an input
  of \<open>put\<close>, one for each step that can fail, so that every exit of the function is a branch.
\<close>

section \<open>Identifiers as text\<close>

fun hex_digits :: "nat \<Rightarrow> nat \<Rightarrow> pgtext" where
  "hex_digits 0 n = []"
| "hex_digits (Suc k) n = hex_digits k (n div 16) @ [hex_digit (n mod 16)]"

text \<open>\<open>str(uuid)\<close> and \<open>uuid::text\<close>: 32 digits in the groups 8-4-4-4-12.\<close>

definition uuid_text :: "uuid \<Rightarrow> pgtext" where
  "uuid_text u =
     (let d = hex_digits 32 u in
      take 8 d @ [45] @ take 4 (drop 8 d) @ [45] @ take 4 (drop 12 d) @ [45]
        @ take 4 (drop 16 d) @ [45] @ drop 20 d)"

definition storage_key :: "uuid \<Rightarrow> pgtext \<Rightarrow> pgtext" where
  "storage_key org digest = uuid_text org @ [47] @ digest"

text \<open>\<open>[a-zA-Z0-9!#$&^_.+-]+/[a-zA-Z0-9!#$&^_.+-]+\<close>.\<close>

definition media_char :: "nat \<Rightarrow> bool" where
  "media_char c \<longleftrightarrow> (97 \<le> c \<and> c \<le> 122) \<or> (65 \<le> c \<and> c \<le> 90) \<or> (48 \<le> c \<and> c \<le> 57)
     \<or> c \<in> {33, 35, 36, 38, 94, 95, 46, 43, 45}"

definition media_shape :: "pgtext \<Rightarrow> bool" where
  "media_shape t \<longleftrightarrow>
     (let a = takeWhile (\<lambda>c. c \<noteq> 47) t; b = drop (Suc (length a)) t in
      a \<noteq> [] \<and> b \<noteq> [] \<and> length a < length t \<and> (\<forall>c \<in> set a. media_char c) \<and> (\<forall>c \<in> set b. media_char c))"

section \<open>The store\<close>

record stored_evidence =
  st_key :: pgtext
  st_sha256 :: pgtext
  st_size :: int

type_synonym store = "(uuid \<times> pgtext) \<Rightarrow> bytes option"

datatype fault = NoFault | Redirected | MkdirFails | WriteFails | LinkFails | SyncFails | UnlinkFails

text \<open>\<open>_path\<close>: a reference is a tenant's own digest, never a caller-selected path.\<close>

definition reference_ok :: "uuid \<Rightarrow> stored_evidence \<Rightarrow> bool" where
  "reference_ok org r \<longleftrightarrow> sha256_shape (st_sha256 r) \<and> 0 \<le> st_size r
     \<and> st_key r = storage_key org (st_sha256 r)"

definition hexdigest :: "(bytes \<Rightarrow> bytes) \<Rightarrow> bytes \<Rightarrow> pgtext" where
  "hexdigest sha256 content = hex_encode (sha256 content)"

definition store_read ::
  "(bytes \<Rightarrow> bytes) \<Rightarrow> store \<Rightarrow> uuid \<Rightarrow> stored_evidence \<Rightarrow> py_error + bytes" where
  "store_read sha256 st org r =
     ensure (reference_ok org r) EvidenceStorageError
       (case st (org, st_sha256 r) of
          None \<Rightarrow> Inl EvidenceStorageError
        | Some content \<Rightarrow>
            ensure (int (length content) = st_size r \<and> hexdigest sha256 content = st_sha256 r)
              EvidenceStorageError (Inr content))"

text \<open>
  Publication is an atomic link: it happens completely or not at all, and an occupied key is
  verified instead of rewritten.  A failure after the link leaves the object published.
\<close>

definition store_put ::
  "(bytes \<Rightarrow> bytes) \<Rightarrow> fault \<Rightarrow> uuid \<Rightarrow> bytes \<Rightarrow> store \<Rightarrow> (py_error + stored_evidence) \<times> store" where
  "store_put sha256 f org content st =
     (let d = hexdigest sha256 content;
          r = \<lparr>st_key = storage_key org d, st_sha256 = d, st_size = int (length content)\<rparr>
      in if \<not> reference_ok org r \<or> f \<in> {Redirected, MkdirFails, WriteFails, LinkFails}
         then (Inl EvidenceStorageError, st)
         else
           (case st (org, d) of
              None \<Rightarrow>
                (if f = NoFault then Inr r else Inl EvidenceStorageError, st((org, d) \<mapsto> content))
            | Some _ \<Rightarrow>
                (if f = UnlinkFails then Inl EvidenceStorageError
                 else rbind (store_read sha256 st org r) (\<lambda>old.
                        ensure (old = content) EvidenceStorageError (Inr r)), st)))"

section \<open>Relational rules\<close>

definition link_of :: "fleet \<Rightarrow> attachment_row \<Rightarrow> link_row list" where
  "link_of db a = filter (\<lambda>l. al_org l = at_org a \<and> al_attachment l = at_id a) (attachment_links db)"

definition valid_attachment :: "attachment_row \<Rightarrow> bool" where
  "valid_attachment a \<longleftrightarrow>
     isfinite (at_captured_at a) \<and> isfinite (at_recorded_at a) \<and> sha256_shape (at_sha256 a)
     \<and> 0 \<le> at_size a \<and> at_storage_key a = storage_key (at_org a) (at_sha256 a)
     \<and> length_between 1 255 (btrim (at_filename a))
     \<and> media_shape (at_media_type a) \<and> length (at_media_type a) \<le> 127"

definition valid_asset_evidence ::
  "fleet \<Rightarrow> uuid \<Rightarrow> uuid option \<Rightarrow> uuid \<Rightarrow> evidence_role option \<Rightarrow> bool" where
  "valid_asset_evidence db org ref asset role \<longleftrightarrow>
     (\<exists>a \<in> set (attachments db). at_org a = org \<and> Some (at_id a) = ref
        \<and> actor_exists db (at_org a) (at_captured_by a) \<and> valid_attachment a
        \<and> (\<exists>l \<in> set (link_of db a). actor_exists db (al_org l) (al_actor l)
              \<and> al_entity l = ASSET \<and> al_entity_id l = asset
              \<and> holds_if (\<lambda>r. al_role l = r) role \<and> isfinite (al_recorded_at l)))"

text \<open>\<open>guard_asset_evidence\<close>, for a state transition and for a configuration.\<close>

definition transition_purpose :: "state_fact hrow \<Rightarrow> evidence_role option" where
  "transition_purpose h =
     (if h_to h = Some RETIRED \<and> h_role h \<noteq> REVERSAL then Some DISPOSAL_EVIDENCE else None)"

definition evidence_supported ::
  "fleet \<Rightarrow> uuid \<Rightarrow> uuid option \<Rightarrow> uuid \<Rightarrow> evidence_role option \<Rightarrow> bool" where
  "evidence_supported db org ref asset purpose \<longleftrightarrow>
     (ref \<noteq> None \<or> purpose = Some DISPOSAL_EVIDENCE) \<longrightarrow> valid_asset_evidence db org ref asset purpose"

definition guard_transition_evidence :: "fleet \<Rightarrow> state_fact hrow \<Rightarrow> sqlstate + unit" where
  "guard_transition_evidence db h =
     ensure (evidence_supported db (h_org h) (h_evidence h) (h_asset h) (transition_purpose h))
       E23514 (Inr ())"

definition guard_configuration_evidence :: "fleet \<Rightarrow> configuration_row \<Rightarrow> sqlstate + unit" where
  "guard_configuration_evidence db c =
     ensure (evidence_supported db (cf_org c) (cf_evidence c) (cf_asset c) (Some CONFIG_EVIDENCE))
       E23514 (Inr ())"

text \<open>\<open>EVIDENCE_ANOMALIES\<close>.\<close>

definition transition_evidence_bad :: "fleet \<Rightarrow> state_fact hrow \<Rightarrow> bool" where
  "transition_evidence_bad db h \<longleftrightarrow>
     ((h_evidence h \<noteq> None \<or> (h_to h = Some RETIRED \<and> h_role h \<noteq> REVERSAL))
      \<and> \<not> valid_asset_evidence db (h_org h) (h_evidence h) (h_asset h) (transition_purpose h))
     \<or> (h_role h = REVERSAL \<and>
        (\<exists>p \<in> set (asset_transitions db). predecessor h p \<and> h_evidence h \<noteq> h_evidence p))"

definition evidence_anomalies :: "fleet \<Rightarrow> uuid list" where
  "evidence_anomalies db =
     map h_asset (filter (transition_evidence_bad db) (asset_transitions db))"

section \<open>Capture and links\<close>

definition target_exists :: "fleet \<Rightarrow> uuid \<Rightarrow> evidence_entity \<Rightarrow> uuid \<Rightarrow> bool" where
  "target_exists db org e i \<longleftrightarrow>
     (case e of
        ASSET \<Rightarrow> asset_exists db org i
      | RECEIPT \<Rightarrow> (\<exists>r \<in> set (receipts db). rc_org r = org \<and> rc_id r = i)
      | RECEIPT_LINE \<Rightarrow> (\<exists>r \<in> set (receipt_lines db). rl_org r = org \<and> rl_id r = i)
      | ASSET_CONFIGURATION \<Rightarrow> (\<exists>r \<in> set (asset_configurations db). cf_org r = org \<and> cf_id r = i)
      | RECEIVING_EXCEPTION \<Rightarrow> (\<exists>r \<in> set (receiving_exceptions db). xc_org r = org \<and> xc_id r = i))"

definition role_admitted :: "evidence_role \<Rightarrow> evidence_entity \<Rightarrow> bool" where
  "role_admitted role e \<longleftrightarrow>
     (case role of
        DISPOSAL_EVIDENCE \<Rightarrow> e = ASSET
      | CONFIG_EVIDENCE \<Rightarrow> e \<in> {ASSET, ASSET_CONFIGURATION}
      | RECEIVING_EVIDENCE \<Rightarrow> e \<in> {ASSET, RECEIPT, RECEIPT_LINE}
      | EXCEPTION_EVIDENCE \<Rightarrow> e = RECEIVING_EXCEPTION
      | OTHER_EVIDENCE \<Rightarrow> True)"

text \<open>
  An ordinary insertion leaves the attribution columns to their defaults.  \<open>None\<close> as a result is
  \<open>ON CONFLICT DO NOTHING\<close>.
\<close>

definition insert_attachment ::
  "ctx \<Rightarrow> attachment_row \<Rightarrow> fleet \<Rightarrow> sqlstate + (attachment_row option \<times> fleet)" where
  "insert_attachment x new db =
     rbind (current_authenticated_actor x db) (\<lambda>performer.
       let a = new\<lparr>at_captured_by := performer, at_recorded_at := At (x_now x)\<rparr> in
       ensure (x_org x = Some (at_org a)) E42501
         (ensure (valid_attachment a \<and> at_supersedes a \<noteq> Some (at_id a)) E23514
           (if \<exists>b \<in> set (attachments db). at_org b = at_org a \<and> at_sha256 b = at_sha256 a
            then Inr (None, db)
            else ensure (\<forall>b \<in> set (attachments db). at_id b \<noteq> at_id a
                          \<and> \<not> (at_org b = at_org a \<and> at_storage_key b = at_storage_key a)) E23505
              (ensure (at_org a \<in> set (organizations db) \<and> actor_exists db (at_org a) (at_captured_by a)
                       \<and> holds_if (attachment_exists db (at_org a)) (at_supersedes a)) E23503
                (Inr (Some a, db\<lparr>attachments := attachments db @ [a]\<rparr>))))))"

definition same_link :: "link_row \<Rightarrow> link_row \<Rightarrow> bool" where
  "same_link a b \<longleftrightarrow> al_org a = al_org b \<and> al_attachment a = al_attachment b
     \<and> al_entity a = al_entity b \<and> al_entity_id a = al_entity_id b \<and> al_role a = al_role b"

definition insert_link :: "ctx \<Rightarrow> link_row \<Rightarrow> fleet \<Rightarrow> sqlstate + (link_row option \<times> fleet)" where
  "insert_link x new db =
     rbind (current_authenticated_actor x db) (\<lambda>performer.
       let l = new\<lparr>al_actor := performer, al_recorded_at := At (x_now x)\<rparr> in
       ensure (target_exists db (al_org l) (al_entity l) (al_entity_id l)
               \<and> role_admitted (al_role l) (al_entity l)) E23514
         (ensure (x_org x = Some (al_org l)) E42501
           (if \<exists>k \<in> set (attachment_links db). same_link k l then Inr (None, db)
            else ensure (\<forall>k \<in> set (attachment_links db). al_id k \<noteq> al_id l) E23505
              (ensure (al_org l \<in> set (organizations db) \<and> attachment_exists db (al_org l) (al_attachment l)
                       \<and> actor_exists db (al_org l) (al_actor l)) E23503
                (Inr (Some l, db\<lparr>attachment_links := attachment_links db @ [l]\<rparr>))))))"

section \<open>The service\<close>

definition evidence_errors :: "sqlstate \<Rightarrow> py_error" where
  "evidence_errors e =
     (if e \<in> {E23502, E23503, E23514, E42501} then EvidenceInvalid
      else if e = E23505 then EvidenceConflict else DBError e)"

definition visible :: "ctx \<Rightarrow> uuid \<Rightarrow> bool" where
  "visible x org \<longleftrightarrow> x_org x = Some org"

definition get_attachment :: "ctx \<Rightarrow> fleet \<Rightarrow> uuid \<Rightarrow> py_error + attachment_row" where
  "get_attachment x db i =
     from_option EvidenceNotFound
       (List.find (\<lambda>a. visible x (at_org a) \<and> at_id a = i) (attachments db))"

definition reference_of :: "attachment_row \<Rightarrow> stored_evidence" where
  "reference_of a = \<lparr>st_key = at_storage_key a, st_sha256 = at_sha256 a, st_size = at_size a\<rparr>"

definition read_content ::
  "(bytes \<Rightarrow> bytes) \<Rightarrow> store option \<Rightarrow> attachment_row \<Rightarrow> py_error + bytes" where
  "read_content sha256 storage a =
     (case storage of
        None \<Rightarrow> Inl EvidenceStorageError
      | Some st \<Rightarrow> store_read sha256 st (at_org a) (reference_of a))"

text \<open>\<open>capture\<close>: the bytes are published before the row, so no row ever lacks its bytes.\<close>

definition capture_row :: "ctx \<Rightarrow> attachment_row \<Rightarrow> stored_evidence \<Rightarrow> (bytes \<Rightarrow> bytes) \<Rightarrow> store \<Rightarrow> fleet
  \<Rightarrow> py_error + (attachment_row \<times> fleet)" where
  "capture_row x new stored sha256 st db =
     rbind (map_error evidence_errors (insert_attachment x new db)) (\<lambda>(created, db').
       (case created of
          Some a \<Rightarrow> Inr (a, db')
        | None \<Rightarrow>
            rbind (from_option NoResultFound
                     (List.find (\<lambda>a. at_org a = at_org new \<and> at_sha256 a = st_sha256 stored)
                       (attachments db'))) (\<lambda>a.
              ensure (at_supersedes new = None \<or> at_supersedes a = at_supersedes new) EvidenceConflict
                (rbind (read_content sha256 (Some st) a) (\<lambda>_. Inr (a, db'))))))"

definition evidence_capture ::
  "(bytes \<Rightarrow> bytes) \<Rightarrow> fault \<Rightarrow> ctx \<Rightarrow> store \<Rightarrow> bytes \<Rightarrow> pgtext option \<Rightarrow> attachment_row \<Rightarrow> fleet
   \<Rightarrow> (py_error + (attachment_row \<times> fleet)) \<times> store" where
  "evidence_capture sha256 f x st content supplied new db =
     (let digest = hexdigest sha256 content in
      if supplied \<noteq> None \<and> supplied \<noteq> Some digest then (Inl EvidenceInvalid, st)
      else
        (case (case at_supersedes new of
                 None \<Rightarrow> Inr ()
               | Some parent \<Rightarrow>
                   rbind (get_attachment x db parent) (\<lambda>original.
                     ensure (at_sha256 original \<noteq> digest) EvidenceInvalid
                       (rbind (read_content sha256 (Some st) original) (\<lambda>_. Inr ())))) of
           Inl e \<Rightarrow> (Inl e, st)
         | Inr _ \<Rightarrow>
             (case store_put sha256 f (at_org new) content st of
                (Inl e, st') \<Rightarrow> (Inl e, st')
              | (Inr stored, st') \<Rightarrow>
                  (capture_row x
                     (new\<lparr>at_sha256 := digest, at_size := st_size stored, at_storage_key := st_key stored\<rparr>)
                     stored sha256 st' db, st'))))"

definition evidence_link ::
  "(bytes \<Rightarrow> bytes) \<Rightarrow> ctx \<Rightarrow> store option \<Rightarrow> uuid \<Rightarrow> link_row \<Rightarrow> fleet \<Rightarrow> py_error + (link_row \<times> fleet)"
where
  "evidence_link sha256 x storage i new db =
     rbind (get_attachment x db i) (\<lambda>a.
       rbind (read_content sha256 storage a) (\<lambda>_.
         let l = new\<lparr>al_org := at_org a, al_attachment := i\<rparr> in
         rbind (map_error evidence_errors (insert_link x l db)) (\<lambda>(created, db').
           (case created of
              Some k \<Rightarrow> Inr (k, db')
            | None \<Rightarrow>
                rbind (from_option NoResultFound
                   (List.find (\<lambda>k. visible x (al_org k) \<and> same_link k l) (attachment_links db')))
                  (\<lambda>k. Inr (k, db'))))))"

definition list_links :: "ctx \<Rightarrow> fleet \<Rightarrow> uuid \<Rightarrow> py_error + link_row list" where
  "list_links x db i =
     rbind (get_attachment x db i) (\<lambda>_.
       Inr (sort_key al_id (filter (\<lambda>l. visible x (al_org l) \<and> al_attachment l = i)
         (attachment_links db))))"

definition verify_asset_evidence ::
  "(bytes \<Rightarrow> bytes) \<Rightarrow> ctx \<Rightarrow> store option \<Rightarrow> fleet \<Rightarrow> uuid \<Rightarrow> uuid option \<Rightarrow> evidence_role option \<Rightarrow> bool
   \<Rightarrow> py_error + unit" where
  "verify_asset_evidence sha256 x storage db asset ref role required =
     (case ref of
        None \<Rightarrow> if required then Inl EvidenceInvalid else Inr ()
      | Some i \<Rightarrow>
          rbind (get_attachment x db i) (\<lambda>a.
            ensure (valid_asset_evidence db (at_org a) (Some i) asset role) EvidenceInvalid
              (rbind (read_content sha256 storage a) (\<lambda>_. Inr ()))))"


section \<open>Facts\<close>

text \<open>Evidence is append-only, so what supports a history row keeps supporting it.\<close>

definition evidence_grows :: "fleet \<Rightarrow> fleet \<Rightarrow> bool" where
  "evidence_grows db db' \<longleftrightarrow> set (attachments db) \<subseteq> set (attachments db')
     \<and> set (attachment_links db) \<subseteq> set (attachment_links db') \<and> set (actors db) \<subseteq> set (actors db')"

lemma evidence_grows_refl [simp]: "evidence_grows db db"
  by (simp add: evidence_grows_def)

lemma actor_exists_mono: "set (actors db) \<subseteq> set (actors db') \<Longrightarrow> actor_exists db o' i \<Longrightarrow> actor_exists db' o' i"
  by (auto simp: actor_exists_def)

lemma valid_asset_evidence_mono:
  assumes "evidence_grows db db'" and v: "valid_asset_evidence db org ref a r"
  shows "valid_asset_evidence db' org ref a r"
proof -
  have g: "set (attachments db) \<subseteq> set (attachments db')"
    "set (attachment_links db) \<subseteq> set (attachment_links db')" "set (actors db) \<subseteq> set (actors db')"
    using assms(1) by (simp_all add: evidence_grows_def)
  have l: "l \<in> set (link_of db' t)" if "l \<in> set (link_of db t)" for l t
    using that g(2) by (auto simp: link_of_def)
  obtain t k where t: "t \<in> set (attachments db)" "at_org t = org" "Some (at_id t) = ref"
      "actor_exists db (at_org t) (at_captured_by t)" "valid_attachment t" "k \<in> set (link_of db t)"
      "actor_exists db (al_org k) (al_actor k)" "al_entity k = ASSET" "al_entity_id k = a"
      "holds_if (\<lambda>r. al_role k = r) r" "isfinite (al_recorded_at k)"
    using v unfolding valid_asset_evidence_def by blast
  have "k \<in> set (link_of db' t)" "t \<in> set (attachments db')" using l g t by auto
  moreover have "actor_exists db' (at_org t) (at_captured_by t)" "actor_exists db' (al_org k) (al_actor k)"
    using actor_exists_mono [OF g(3)] t by auto
  ultimately show ?thesis using t unfolding valid_asset_evidence_def by blast
qed

lemma valid_asset_evidence_cong:
  assumes "attachments db' = attachments db" "attachment_links db' = attachment_links db"
    "actors db' = actors db"
  shows "valid_asset_evidence db' = valid_asset_evidence db"
  using assms by (intro ext) (simp add: valid_asset_evidence_def link_of_def actor_exists_def)

text \<open>The store never changes an occupied key, whatever fails.\<close>

lemma store_put_keeps:
  assumes "store_put sha256 f org content st = (res, st')" and "st k = Some c"
  shows "st' k = Some c"
  using assms by (auto simp: store_put_def Let_def split: if_splits option.splits)

lemma store_put_published:
  assumes "store_put sha256 f org content st = (Inr r, st')"
  shows "store_read sha256 st' org r = Inr content"
    and "st_sha256 r = hexdigest sha256 content" "st_key r = storage_key org (st_sha256 r)"
    and "st_size r = int (length content)"
  using assms
  by (auto simp: store_put_def store_read_def Let_def rbind_Inr_iff ensure_Inr_iff
      split: if_splits option.splits)

lemma read_content_digest:
  assumes "read_content sha256 (Some st) a = Inr c"
  shows "st (at_org a, at_sha256 a) = Some c"
  using assms
  by (auto simp: read_content_def store_read_def reference_of_def ensure_Inr_iff split: option.splits)

lemma find_attachment: "List.find P xs = Some a \<Longrightarrow> P a"
  by (metis find_Some_iff)

lemma insert_attachment_Some:
  assumes "insert_attachment x new db = Inr (Some a, db')"
  shows "at_org a = at_org new" "at_sha256 a = at_sha256 new" "at_size a = at_size new"
    "at_storage_key a = at_storage_key new" "db' = db\<lparr>attachments := attachments db @ [a]\<rparr>"
    "valid_attachment a"
  using assms
  by (auto simp: insert_attachment_def rbind_Inr_iff ensure_Inr_iff Let_def split: if_splits)

lemma insert_attachment_grows:
  assumes "insert_attachment x new db = Inr (res, db')"
  shows "\<exists>as. db' = db\<lparr>attachments := attachments db @ as\<rparr>"
proof (cases res)
  case None
  then have "db' = db" using assms
    by (auto simp: insert_attachment_def rbind_Inr_iff ensure_Inr_iff Let_def split: if_splits)
  then show ?thesis by (intro exI [of _ "[]"]) simp
next
  case (Some a)
  then show ?thesis using insert_attachment_Some(5) assms by blast
qed

lemma insert_link_grows:
  assumes "insert_link x new db = Inr (res, db')"
  shows "\<exists>ls. db' = db\<lparr>attachment_links := attachment_links db @ ls\<rparr>"
proof (cases res)
  case None
  then have "db' = db" using assms
    by (auto simp: insert_link_def rbind_Inr_iff ensure_Inr_iff Let_def split: if_splits)
  then show ?thesis by (intro exI [of _ "[]"]) simp
next
  case (Some k)
  then have "db' = db\<lparr>attachment_links := attachment_links db @ [k]\<rparr>" using assms
    by (auto simp: insert_link_def rbind_Inr_iff ensure_Inr_iff Let_def split: if_splits)
  then show ?thesis by blast
qed

end
