(* ===== verification/Assets.thy ===== *)
theory Assets
  imports Evidence
begin

text \<open>
  The privileged operations on Assets, as PostgreSQL runs them at head: \<open>transition_asset\<close>
  (\<open>0006_assets.py\<close>), the three physical operations (\<open>0007\<close>), assignment (\<open>0008\<close>) and the five
  corrections (\<open>0011_corrections.py\<close>, with the evidence of \<open>0012_evidence.py\<close>).

  The source generates these functions from templates over the declarations \<open>HISTORIES\<close> and
  \<open>OPERATIONS\<close>.  A declaration is here a value of \<open>hclass\<close>: where its rows live, which column of
  the Asset projects it, where its facts start, and its constraints.  Every operation locks one
  Asset row, so a run is a sequence of operations; a raise leaves the database unchanged.
\<close>

section \<open>History classes\<close>

record 'f hclass =
  hc_rows :: "fleet \<Rightarrow> 'f hrow list"
  hc_add :: "'f hrow \<Rightarrow> fleet \<Rightarrow> fleet"
  hc_initial :: "fleet \<Rightarrow> uuid \<Rightarrow> uuid \<Rightarrow> 'f"
  hc_fallback :: "fleet \<Rightarrow> uuid \<Rightarrow> uuid \<Rightarrow> sqlstate + 'f"
  hc_agrees :: "asset_row \<Rightarrow> uuid option \<Rightarrow> 'f \<Rightarrow> bool"
  hc_store :: "uuid \<Rightarrow> 'f \<Rightarrow> asset_row \<Rightarrow> asset_row"
  hc_before :: "fleet \<Rightarrow> 'f hrow \<Rightarrow> sqlstate + unit"
  hc_present :: "'f hrow \<Rightarrow> bool"
  hc_admit :: "'f hrow \<Rightarrow> bool"
  hc_refs :: "fleet \<Rightarrow> 'f hrow \<Rightarrow> bool"
  hc_check :: "fleet \<Rightarrow> uuid \<Rightarrow> 'f \<Rightarrow> 'f \<Rightarrow> sqlstate + unit"

definition initial_facts :: "fleet \<Rightarrow> uuid \<Rightarrow> uuid \<Rightarrow> initial_row option" where
  "initial_facts db org a =
     List.find (\<lambda>b. b_org b = org \<and> b_asset b = a) (asset_initial_facts db)"

definition initial_assignment :: "fleet \<Rightarrow> uuid \<Rightarrow> uuid \<Rightarrow> witness_row option" where
  "initial_assignment db org a =
     List.find (\<lambda>w. w_org w = org \<and> w_asset w = a) (asset_initial_assignment_facts db)"

definition reason_check :: "'f hrow \<Rightarrow> bool" where
  "reason_check h \<longleftrightarrow> length_between 1 4000 (btrim (h_reason h)) \<and> has_nonspace (h_reason h)"

text \<open>A null location or Party reference is admitted everywhere; a non-null one must exist.\<close>

definition target_check :: "(fleet \<Rightarrow> uuid \<Rightarrow> uuid \<Rightarrow> bool) \<Rightarrow> fleet \<Rightarrow> uuid \<Rightarrow> ref_fact \<Rightarrow> sqlstate + unit"
where
  "target_check exists db org t = ensure (holds_if (exists db org) t) E23503 (Inr ())"

definition ref_fallback ::
  "(initial_row \<Rightarrow> ref_fact) \<Rightarrow> fleet \<Rightarrow> uuid \<Rightarrow> uuid \<Rightarrow> sqlstate + ref_fact" where
  "ref_fallback field db org a =
     (case initial_facts db org a of Some b \<Rightarrow> Inr (field b) | None \<Rightarrow> Inl EP0001)"

definition ref_initial :: "(initial_row \<Rightarrow> ref_fact) \<Rightarrow> fleet \<Rightarrow> uuid \<Rightarrow> uuid \<Rightarrow> ref_fact" where
  "ref_initial field db org a = (case initial_facts db org a of Some b \<Rightarrow> field b | None \<Rightarrow> None)"

definition ref_refs :: "(fleet \<Rightarrow> uuid \<Rightarrow> uuid \<Rightarrow> bool) \<Rightarrow> fleet \<Rightarrow> ref_fact hrow \<Rightarrow> bool" where
  "ref_refs exists db h \<longleftrightarrow>
     holds_if (exists db (h_org h)) (h_from h) \<and> holds_if (exists db (h_org h)) (h_to h)"

definition movements :: "ref_fact hclass" where
  "movements =
     \<lparr>hc_rows = asset_movements,
      hc_add = (\<lambda>h. asset_movements_update (\<lambda>hs. hs @ [h])),
      hc_initial = ref_initial b_location, hc_fallback = ref_fallback b_location,
      hc_agrees = (\<lambda>a _ f. as_location a = f), hc_store = (\<lambda>_ f a. a\<lparr>as_location := f\<rparr>),
      hc_before = (\<lambda>_ _. Inr ()), hc_present = (\<lambda>_. True), hc_admit = reason_check,
      hc_refs = ref_refs location_exists,
      hc_check = (\<lambda>db org _ t. target_check location_exists db org t)\<rparr>"

definition custody :: "ref_fact hclass" where
  "custody =
     \<lparr>hc_rows = asset_custody_changes,
      hc_add = (\<lambda>h. asset_custody_changes_update (\<lambda>hs. hs @ [h])),
      hc_initial = ref_initial b_custodian, hc_fallback = ref_fallback b_custodian,
      hc_agrees = (\<lambda>a _ f. as_custodian a = f), hc_store = (\<lambda>_ f a. a\<lparr>as_custodian := f\<rparr>),
      hc_before = (\<lambda>_ _. Inr ()), hc_present = (\<lambda>_. True), hc_admit = reason_check,
      hc_refs = ref_refs party_exists,
      hc_check = (\<lambda>db org _ t. target_check party_exists db org t)\<rparr>"

definition ownership :: "ref_fact hclass" where
  "ownership =
     \<lparr>hc_rows = asset_ownership_changes,
      hc_add = (\<lambda>h. asset_ownership_changes_update (\<lambda>hs. hs @ [h])),
      hc_initial = ref_initial b_owner, hc_fallback = ref_fallback b_owner,
      hc_agrees = (\<lambda>a _ f. as_owner a = f), hc_store = (\<lambda>_ f a. a\<lparr>as_owner := f\<rparr>),
      hc_before = (\<lambda>_ _. Inr ()), hc_present = (\<lambda>h. h_from h \<noteq> None \<and> h_to h \<noteq> None),
      hc_admit = reason_check, hc_refs = ref_refs party_exists,
      hc_check = (\<lambda>db org _ t.
        rbind (target_check party_exists db org t) (\<lambda>_. ensure (t \<noteq> None) E23502 (Inr ())))\<rparr>"

text \<open>
  Transitions carry evidence and have no separate baseline: the creation row is the first of the
  class and is not correctable.
\<close>

definition transition_admit :: "state_fact hrow \<Rightarrow> bool" where
  "transition_admit h \<longleftrightarrow> length_between 1 4000 (btrim (h_reason h))
     \<and> ((h_version h = 1 \<and> h_from h = None \<and> h_to h = Some RECEIVED)
        \<or> (h_version h > 1 \<and> h_from h \<noteq> None))"

definition transitions :: "state_fact hclass" where
  "transitions =
     \<lparr>hc_rows = asset_transitions,
      hc_add = (\<lambda>h. asset_transitions_update (\<lambda>hs. hs @ [h])),
      hc_initial = (\<lambda>_ _ _. None), hc_fallback = (\<lambda>_ _ _. Inl E23514),
      hc_agrees = (\<lambda>a _ f. as_state a = f), hc_store = (\<lambda>_ f a. a\<lparr>as_state := f\<rparr>),
      hc_before = guard_transition_evidence, hc_present = (\<lambda>h. h_to h \<noteq> None),
      hc_admit = transition_admit, hc_refs = (\<lambda>_ _. True),
      hc_check = (\<lambda>_ _ _ _. Inr ())\<rparr>"

text \<open>An assignment projects the identifier of the event that established it.\<close>

definition endpoint_exists :: "fleet \<Rightarrow> uuid \<Rightarrow> assignee_fact \<Rightarrow> bool" where
  "endpoint_exists db org e \<longleftrightarrow>
     (case snd e of
        None \<Rightarrow> True
      | Some i \<Rightarrow>
          (case fst e of
             Some TO_ACTOR \<Rightarrow> actor_exists db org i
           | Some TO_LOCATION \<Rightarrow> location_exists db org i
           | Some TO_PARTY \<Rightarrow> party_exists db org i
           | None \<Rightarrow> False))"

definition assignee_paired :: "assignee_fact \<Rightarrow> bool" where
  "assignee_paired e \<longleftrightarrow> (fst e = None) = (snd e = None)"

definition shown_event :: "uuid option \<Rightarrow> assignee_fact \<Rightarrow> uuid option" where
  "shown_event i e = (if snd e = None then None else i)"

definition assignments :: "assignee_fact hclass" where
  "assignments =
     \<lparr>hc_rows = asset_assignment_events,
      hc_add = (\<lambda>h. asset_assignment_events_update (\<lambda>hs. hs @ [h])),
      hc_initial = (\<lambda>_ _ _. (None, None)),
      hc_fallback = (\<lambda>db org a. ensure (initial_assignment db org a \<noteq> None) EP0001 (Inr (None, None))),
      hc_agrees = (\<lambda>a i f. as_assignment a = shown_event i f),
      hc_store = (\<lambda>i f a. a\<lparr>as_assignment := shown_event (Some i) f\<rparr>),
      hc_before = (\<lambda>_ _. Inr ()), hc_present = (\<lambda>_. True),
      hc_admit = (\<lambda>h. reason_check h \<and> assignee_paired (h_from h) \<and> assignee_paired (h_to h)
                       \<and> (snd (h_from h) \<noteq> None \<or> snd (h_to h) \<noteq> None)),
      hc_refs = (\<lambda>_ _. True),
      hc_check = (\<lambda>db org prior t.
        ensure (assignee_paired t \<and> (snd t \<noteq> None \<or> snd prior \<noteq> None)) E23514
          (ensure (endpoint_exists db org prior \<and> endpoint_exists db org t) E23503 (Inr ())))\<rparr>"

section \<open>Anomalies and authority\<close>

definition class_anomalies :: "'f hclass \<Rightarrow> fleet \<Rightarrow> uuid list" where
  "class_anomalies cls db = malformed_sql (hc_initial cls db) (hc_rows cls db)"

definition asset_correction_anomalies :: "fleet \<Rightarrow> uuid list" where
  "asset_correction_anomalies db =
     class_anomalies transitions db @ class_anomalies movements db @ class_anomalies custody db
     @ class_anomalies ownership db @ class_anomalies assignments db @ evidence_anomalies db"

text \<open>What the projection of a class should show, from effective history or the witness.\<close>

definition projection_agrees :: "'f hclass \<Rightarrow> fleet \<Rightarrow> asset_row \<Rightarrow> bool" where
  "projection_agrees cls db a =
     (case latest_effective (as_org a) (as_id a) (hc_rows cls db) of
        Some l \<Rightarrow> hc_agrees cls a (Some (h_id l)) (h_to l)
      | None \<Rightarrow> hc_agrees cls a None (hc_initial cls db (as_org a) (as_id a)))"

definition class_versions :: "'f hclass \<Rightarrow> fleet \<Rightarrow> uuid \<Rightarrow> uuid \<Rightarrow> int list" where
  "class_versions cls db org a = map h_version (asset_rows org a (hc_rows cls db))"

definition raw_versions :: "fleet \<Rightarrow> uuid \<Rightarrow> uuid \<Rightarrow> int list" where
  "raw_versions db org a =
     class_versions transitions db org a @ class_versions movements db org a
     @ class_versions custody db org a @ class_versions ownership db org a
     @ class_versions assignments db org a"

definition find_asset :: "fleet \<Rightarrow> uuid \<Rightarrow> uuid \<Rightarrow> asset_row option" where
  "find_asset db org i = List.find (\<lambda>a. as_org a = org \<and> as_id a = i) (assets db)"

text \<open>\<open>count\<close>, \<open>count(DISTINCT \<dots>)\<close>, \<open>min\<close> and \<open>max\<close> over no rows are zero and null.\<close>

definition versions_complete :: "int list \<Rightarrow> int \<Rightarrow> bool" where
  "versions_complete vs n \<longleftrightarrow> int (length vs) = n \<and> int (distinct_count vs) = n
     \<and> (\<forall>v \<in> set vs. 1 \<le> v \<and> v \<le> n) \<and> (vs = [] \<or> (1 \<in> set vs \<and> n \<in> set vs))"

definition assert_asset_correction_authority :: "ctx \<Rightarrow> fleet \<Rightarrow> uuid \<Rightarrow> sqlstate + unit" where
  "assert_asset_correction_authority x db i =
     (case x_org x of
        None \<Rightarrow> Inl EP0002
      | Some org \<Rightarrow>
          (case find_asset db org i of
             None \<Rightarrow> Inl EP0002
           | Some a \<Rightarrow>
               ensure (projection_agrees transitions db a \<and> projection_agrees movements db a
                       \<and> projection_agrees custody db a \<and> projection_agrees ownership db a
                       \<and> projection_agrees assignments db a
                       \<and> i \<notin> set (asset_correction_anomalies db)
                       \<and> initial_facts db org i \<noteq> None \<and> initial_assignment db org i \<noteq> None
                       \<and> versions_complete (raw_versions db org i) (as_version a)) EP0001 (Inr ())))"

section \<open>Writing\<close>

definition row_check :: "'f hrow \<Rightarrow> bool" where
  "row_check h \<longleftrightarrow> h_version h > 0 \<and> 0 \<le> h_generation h \<and> holds_if isfinite (h_corrected_at h)"

definition row_unique :: "'f hrow list \<Rightarrow> 'f hrow \<Rightarrow> bool" where
  "row_unique rows n \<longleftrightarrow>
     (\<forall>h \<in> set rows. h_id h \<noteq> h_id n
        \<and> \<not> (of_asset (h_org n) (h_asset n) h \<and> h_version h = h_version n)
        \<and> (h_role n \<noteq> NONE \<and> h_role h = h_role n \<and> h_org h = h_org n \<longrightarrow>
             \<not> (h_pair n \<noteq> None \<and> h_pair h = h_pair n)
             \<and> \<not> (h_root n \<noteq> None \<and> h_root h = h_root n \<and> h_generation h = h_generation n)))"

definition row_refs :: "'f hclass \<Rightarrow> fleet \<Rightarrow> 'f hrow \<Rightarrow> bool" where
  "row_refs cls db n \<longleftrightarrow> h_org n \<in> set (organizations db) \<and> asset_exists db (h_org n) (h_asset n)
     \<and> actor_exists db (h_org n) (h_actor n)
     \<and> holds_if (\<lambda>r. \<exists>h \<in> set (hc_rows cls db). of_asset (h_org n) (h_asset n) h \<and> h_id h = r) (h_root n)
     \<and> holds_if (attachment_exists db (h_org n)) (h_evidence n) \<and> hc_refs cls db n"

text \<open>
  One \<open>INSERT\<close>: the \<open>BEFORE\<close> trigger, \<open>NOT NULL\<close>, \<open>CHECK\<close>, unique indexes, then the \<open>AFTER\<close>
  triggers, foreign keys before attribution.
\<close>

definition insert_history :: "'f hclass \<Rightarrow> ctx \<Rightarrow> 'f hrow \<Rightarrow> fleet \<Rightarrow> sqlstate + fleet" where
  "insert_history cls x n db =
     rbind (hc_before cls db n) (\<lambda>_.
       ensure (hc_present cls n) E23502
         (ensure (row_check n \<and> hc_admit cls n) E23514
           (ensure (row_unique (hc_rows cls db) n) E23505
             (let db' = hc_add cls n db in
              ensure (row_refs cls db' n) E23503
                (rbind (enforce_authenticated_creator x db' (h_actor n) None) (\<lambda>_. Inr db'))))))"

definition item_serialized :: "fleet \<Rightarrow> uuid \<Rightarrow> uuid \<Rightarrow> bool" where
  "item_serialized db org i \<longleftrightarrow>
     (\<exists>r \<in> set (items db). it_org r = org \<and> it_id r = i \<and> it_serialized r)"

definition asset_check :: "asset_row \<Rightarrow> bool" where
  "asset_check a \<longleftrightarrow> as_version a > 0 \<and> length_between 1 200 (btrim (as_tag a))
     \<and> length_between 1 4000 (btrim (as_description a))"

definition asset_refs :: "fleet \<Rightarrow> asset_row \<Rightarrow> bool" where
  "asset_refs db a \<longleftrightarrow> as_org a \<in> set (organizations db) \<and> item_serialized db (as_org a) (as_item a)
     \<and> holds_if (party_exists db (as_org a)) (as_owner a)
     \<and> holds_if (party_exists db (as_org a)) (as_custodian a)
     \<and> holds_if (location_exists db (as_org a)) (as_location a)
     \<and> actor_exists db (as_org a) (as_created_by a) \<and> actor_exists db (as_org a) (as_updated_by a)
     \<and> holds_if (\<lambda>e. \<exists>h \<in> set (asset_assignment_events db).
                        of_asset (as_org a) (as_id a) h \<and> h_id h = e) (as_assignment a)"

definition is_asset :: "uuid \<Rightarrow> uuid \<Rightarrow> asset_row \<Rightarrow> bool" where
  "is_asset org i a \<longleftrightarrow> as_org a = org \<and> as_id a = i"

definition set_asset :: "uuid \<Rightarrow> uuid \<Rightarrow> (asset_row \<Rightarrow> asset_row) \<Rightarrow> fleet \<Rightarrow> fleet" where
  "set_asset org i f db =
     db\<lparr>assets := map (\<lambda>a. if is_asset org i a then f a else a) (assets db)\<rparr>"

definition update_asset :: "uuid \<Rightarrow> uuid \<Rightarrow> (asset_row \<Rightarrow> asset_row) \<Rightarrow> fleet \<Rightarrow> sqlstate + fleet" where
  "update_asset org i f db =
     (let db' = set_asset org i f db; written = filter (is_asset org i) (assets db') in
      ensure (\<forall>a \<in> set written. as_owner a \<noteq> None \<and> as_state a \<noteq> None) E23502
        (ensure (\<forall>a \<in> set written. asset_check a) E23514
          (ensure (\<forall>a \<in> set written. asset_refs db' a) E23503 (Inr db'))))"

section \<open>Ordinary operations\<close>

text \<open>
  The admission every operation opens with: the trusted organization, the re-resolved credential,
  the locked Asset row, and only then the version the caller observed.
\<close>

definition lock_asset :: "ctx \<Rightarrow> fleet \<Rightarrow> uuid \<Rightarrow> int option \<Rightarrow> sqlstate + (uuid \<times> uuid \<times> asset_row)"
where
  "lock_asset x db i expected =
     (case x_org x of
        None \<Rightarrow> Inl E42501
      | Some org \<Rightarrow>
          rbind (current_authenticated_actor x db) (\<lambda>actor.
            (case find_asset db org i of
               None \<Rightarrow> Inl EP0002
             | Some a \<Rightarrow> ensure (expected = Some (as_version a)) E40001 (Inr (org, actor, a)))))"

definition event_row ::
  "ctx \<Rightarrow> uuid \<Rightarrow> uuid \<Rightarrow> int \<Rightarrow> 'f \<Rightarrow> 'f \<Rightarrow> pgtext \<Rightarrow> uuid \<Rightarrow> tstz \<Rightarrow> uuid option \<Rightarrow> uuid option \<Rightarrow> uuid
   \<Rightarrow> 'f hrow" where
  "event_row x org a v from_fact to_fact reason actor occurred evidence client i =
     \<lparr>h_id = i, h_org = org, h_asset = a, h_version = v, h_from = from_fact, h_to = to_fact,
      h_reason = reason, h_actor = actor, h_occurred = occurred, h_recorded = At (x_now x),
      h_evidence = evidence, h_client_op = client, h_root = None, h_role = NONE, h_pair = None,
      h_generation = 0, h_corrected_at = None\<rparr>"

text \<open>Append one row and move the projection and the version of the Asset with it.\<close>

definition record_event :: "'f hclass \<Rightarrow> ctx \<Rightarrow> 'f hrow \<Rightarrow> fleet \<Rightarrow> sqlstate + ('f hrow \<times> fleet)" where
  "record_event cls x n db =
     rbind (insert_history cls x n db) (\<lambda>db'.
       rbind (update_asset (h_org n) (h_asset n)
                (\<lambda>a. hc_store cls (h_id n) (h_to n) (a\<lparr>as_version := h_version n\<rparr>)) db')
         (\<lambda>db''. Inr (n, db'')))"

definition transition_asset ::
  "ctx \<Rightarrow> uuid \<Rightarrow> int option \<Rightarrow> state_fact \<Rightarrow> state_fact \<Rightarrow> pgtext \<Rightarrow> tstz \<Rightarrow> uuid option \<Rightarrow> uuid option
   \<Rightarrow> uuid \<Rightarrow> fleet \<Rightarrow> sqlstate + (state_fact hrow \<times> fleet)" where
  "transition_asset x i expected from_state to_state reason occurred evidence client tid db =
     rbind (lock_asset x db i expected) (\<lambda>(org, actor, a).
       ensure (i \<notin> set (asset_correction_anomalies db)) EP0001
         (case latest_effective org i (asset_transitions db) of
            None \<Rightarrow> Inl EP0001
          | Some latest \<Rightarrow>
              ensure (h_version latest \<le> as_version a \<and> h_to latest = from_state
                      \<and> as_state a = h_to latest) EP0001
                (rbind (int4_add (as_version a) 1) (\<lambda>v.
                   record_event transitions x
                     (event_row x org i v from_state to_state reason actor occurred evidence client tid)
                     db))))"

definition prior_event ::
  "'f hclass \<Rightarrow> fleet \<Rightarrow> asset_row \<Rightarrow> sqlstate + (uuid option \<times> 'f)" where
  "prior_event cls db a =
     (case latest_effective (as_org a) (as_id a) (hc_rows cls db) of
        None \<Rightarrow> rbind (hc_fallback cls db (as_org a) (as_id a)) (\<lambda>f. Inr (None, f))
      | Some l \<Rightarrow> ensure (h_version l \<le> as_version a) EP0001 (Inr (Some (h_id l), h_to l)))"

text \<open>\<open>_operation_sql\<close>: the template of \<open>move_asset\<close>, \<open>change_custody\<close> and \<open>change_ownership\<close>.\<close>

definition operation_sql ::
  "ref_fact hclass \<Rightarrow> bool \<Rightarrow> (fleet \<Rightarrow> uuid \<Rightarrow> uuid \<Rightarrow> bool) \<Rightarrow> ctx \<Rightarrow> uuid \<Rightarrow> int option \<Rightarrow> ref_fact
   \<Rightarrow> pgtext \<Rightarrow> tstz \<Rightarrow> uuid option \<Rightarrow> uuid \<Rightarrow> fleet \<Rightarrow> sqlstate + (ref_fact hrow \<times> fleet)" where
  "operation_sql cls required exists x i expected target reason occurred client hid db =
     rbind (lock_asset x db i expected) (\<lambda>(org, actor, a).
       ensure (i \<notin> set (asset_correction_anomalies db)) EP0001
         (rbind (prior_event cls db a) (\<lambda>(e, prior).
            ensure (hc_agrees cls a e prior) EP0001
              (ensure (required \<longrightarrow> target \<noteq> None) E23502
                (rbind (target_check exists db org target) (\<lambda>_.
                  rbind (int4_add (as_version a) 1) (\<lambda>v.
                    record_event cls x
                      (event_row x org i v prior target reason actor occurred None client hid) db)))))))"

definition move_asset where "move_asset = operation_sql movements False location_exists"

definition change_custody where "change_custody = operation_sql custody False party_exists"

definition change_ownership where "change_ownership = operation_sql ownership True party_exists"

text \<open>\<open>assignment_sql\<close>: assigning to a target, or to none (\<open>unassign_asset\<close>).\<close>

definition assignment_sql ::
  "bool \<Rightarrow> ctx \<Rightarrow> uuid \<Rightarrow> int option \<Rightarrow> assignee_fact \<Rightarrow> pgtext \<Rightarrow> tstz \<Rightarrow> uuid option \<Rightarrow> uuid \<Rightarrow> fleet
   \<Rightarrow> sqlstate + (assignee_fact hrow \<times> fleet)" where
  "assignment_sql assigning x i expected target reason occurred client eid db =
     rbind (lock_asset x db i expected) (\<lambda>(org, actor, a).
       ensure (i \<notin> set (asset_correction_anomalies db)) EP0001
         (rbind (prior_event assignments db a) (\<lambda>(e, prior).
            ensure (hc_agrees assignments a e prior) EP0001
              (ensure (if assigning then fst target \<noteq> None \<and> snd target \<noteq> None else snd prior \<noteq> None)
                 E23514
                 (ensure (endpoint_exists db org prior \<and> endpoint_exists db org target) E23503
                   (rbind (int4_add (as_version a) 1) (\<lambda>v.
                     record_event assignments x
                       (event_row x org i v prior target reason actor occurred None client eid) db)))))))"

definition assign_asset where "assign_asset = assignment_sql True"

definition unassign_asset where
  "unassign_asset x i expected reason occurred client eid db =
     assignment_sql False x i expected (None, None) reason occurred client eid db"

section \<open>Corrections\<close>

definition correction_row ::
  "'f hrow \<Rightarrow> ctx \<Rightarrow> uuid \<Rightarrow> uuid \<Rightarrow> pgtext \<Rightarrow> int \<Rightarrow> tstz \<Rightarrow> uuid \<Rightarrow> correction_role \<Rightarrow> int \<Rightarrow> uuid \<Rightarrow> 'f hrow"
where
  "correction_row base x root_id actor reason v corrected_at pair role generation i =
     base\<lparr>h_id := i, h_version := v, h_reason := reason, h_actor := actor, h_recorded := At (x_now x),
          h_client_op := None, h_root := Some root_id, h_role := role, h_pair := Some pair,
          h_generation := generation, h_corrected_at := Some corrected_at\<rparr>"

definition find_row :: "'f hrow list \<Rightarrow> uuid \<Rightarrow> uuid \<Rightarrow> uuid \<Rightarrow> 'f hrow option" where
  "find_row rows org a i = List.find (\<lambda>h. of_asset org a h \<and> h_id h = i) rows"

definition find_head :: "'f hrow list \<Rightarrow> uuid \<Rightarrow> uuid \<Rightarrow> uuid \<Rightarrow> 'f hrow option" where
  "find_head rows org a r =
     List.find (\<lambda>h. of_asset org a h \<and> (h_id h = r \<or> h_root h = Some r)) (effective rows)"

text \<open>The pair is written before the projection; the version advances by two.\<close>

definition record_pair ::
  "'f hclass \<Rightarrow> ctx \<Rightarrow> 'f hrow \<Rightarrow> 'f hrow \<Rightarrow> fleet \<Rightarrow> sqlstate + ('f hrow \<times> fleet)" where
  "record_pair cls x v c db =
     rbind (insert_history cls x v db) (\<lambda>db1.
       rbind (insert_history cls x c db1) (\<lambda>db2.
         rbind (update_asset (h_org c) (h_asset c)
                  (\<lambda>a. hc_store cls (h_id c) (h_to c)
                     (a\<lparr>as_version := h_version c, as_updated_by := h_actor c,
                        as_updated_at := At (x_now x)\<rparr>)) db2)
           (\<lambda>db3. Inr (c, db3))))"

text \<open>The metadata of a correction: a normalized reason, a finite time and three identifiers.\<close>

definition correction_metadata ::
  "pgtext option \<Rightarrow> tstz option \<Rightarrow> (uuid \<times> uuid \<times> uuid) option
   \<Rightarrow> sqlstate + (pgtext \<times> tstz \<times> uuid \<times> uuid \<times> uuid)" where
  "correction_metadata reason corrected_at ids =
     (case (map_option normalize_correction_reason reason, corrected_at, ids) of
        (Some why, Some when, Some (pair, rid, cid)) \<Rightarrow>
          ensure (length_between 1 4000 why \<and> isfinite when) E23514 (Inr (why, when, pair, rid, cid))
      | _ \<Rightarrow> Inl E23514)"

definition reversal_row ::
  "ctx \<Rightarrow> 'f hrow \<Rightarrow> asset_row \<Rightarrow> uuid \<Rightarrow> uuid \<Rightarrow> pgtext \<Rightarrow> tstz \<Rightarrow> uuid \<Rightarrow> int \<Rightarrow> uuid \<Rightarrow> 'f hrow" where
  "reversal_row x hd' a r actor why when pair g rid =
     correction_row hd' x r actor why (as_version a + 1) when pair REVERSAL g rid"

definition corrected_row ::
  "ctx \<Rightarrow> 'f hrow \<Rightarrow> uuid \<Rightarrow> uuid \<Rightarrow> pgtext \<Rightarrow> int \<Rightarrow> tstz \<Rightarrow> uuid \<Rightarrow> int \<Rightarrow> uuid \<Rightarrow> 'f \<Rightarrow> 'f \<Rightarrow> uuid option
   \<Rightarrow> tstz option \<Rightarrow> 'f hrow" where
  "corrected_row x hd' r actor why v when pair g cid prior target evidence occurred =
     correction_row
       (hd'\<lparr>h_from := prior, h_to := target, h_evidence := evidence,
            h_occurred := (case occurred of Some t \<Rightarrow> t | None \<Rightarrow> h_occurred hd')\<rparr>)
       x r actor why v when pair CORRECTED g cid"

definition source_before :: "'f hclass \<Rightarrow> fleet \<Rightarrow> uuid \<Rightarrow> uuid \<Rightarrow> int \<Rightarrow> sqlstate + 'f" where
  "source_before cls db org i v =
     (case latest_before org i v (hc_rows cls db) of
        Some p \<Rightarrow> Inr (h_to p)
      | None \<Rightarrow> hc_fallback cls db org i)"

definition correction_sql ::
  "'f hclass \<Rightarrow> ctx \<Rightarrow> uuid \<Rightarrow> uuid \<Rightarrow> int option \<Rightarrow> 'f \<Rightarrow> pgtext option \<Rightarrow> tstz option \<Rightarrow> tstz option
   \<Rightarrow> (uuid \<times> uuid \<times> uuid) option \<Rightarrow> uuid option \<Rightarrow> fleet \<Rightarrow> sqlstate + ('f hrow \<times> fleet)" where
  "correction_sql cls x i r expected target reason corrected_at occurred ids evidence db =
     ensure (x_org x \<noteq> None \<and> x_actor_hint x = None) E42501
       (rbind (lock_asset x db i expected) (\<lambda>(org, actor, a).
        rbind (assert_asset_correction_authority x db i) (\<lambda>_.
        rbind (from_option EP0002 (find_row (hc_rows cls db) org i r)) (\<lambda>original.
        ensure (h_role original = NONE) E23514
       (rbind (from_option E40001 (find_head (hc_rows cls db) org i r)) (\<lambda>hd'.
        ensure (h_version hd' = as_version a) E40001
       (ensure (hc_agrees cls a (Some (h_id hd')) (h_to hd')) EP0001
       (rbind (source_before cls db org i (h_version original)) (\<lambda>prior.
        rbind (hc_check cls db org prior target) (\<lambda>_.
        rbind (correction_metadata reason corrected_at ids) (\<lambda>(why, when, pair, rid, cid).
        rbind (int4_add (h_generation hd') 1) (\<lambda>g.
        rbind (int4_add (as_version a) 2) (\<lambda>v2.
          record_pair cls x (reversal_row x hd' a r actor why when pair g rid)
            (corrected_row x hd' r actor why v2 when pair g cid prior target evidence occurred)
            db)))))))))))))"

definition correct_transition where "correct_transition = correction_sql transitions"

definition correct_movement where
  "correct_movement x i r e t why when occ ids db = correction_sql movements x i r e t why when occ ids None db"

definition correct_custody where
  "correct_custody x i r e t why when occ ids db = correction_sql custody x i r e t why when occ ids None db"

definition correct_ownership where
  "correct_ownership x i r e t why when occ ids db = correction_sql ownership x i r e t why when occ ids None db"

definition correct_assignment where
  "correct_assignment x i r e t why when occ ids db = correction_sql assignments x i r e t why when occ ids None db"

section \<open>Creation\<close>

text \<open>
  The part of \<open>create_received_unit\<close> that brings an Asset into being: its row, its first
  transition, both creation witnesses and its identifier.
\<close>

definition identifier_check :: "identifier_row \<Rightarrow> bool" where
  "identifier_check d \<longleftrightarrow>
     (case (id_value d, id_unreadable d) of
        (Some v, None) \<Rightarrow> length_between 1 500 (btrim v)
      | (None, Some why) \<Rightarrow> length why \<le> 4000 \<and> has_nonspace why
      | _ \<Rightarrow> False)"

definition new_asset ::
  "ctx \<Rightarrow> uuid \<Rightarrow> uuid \<Rightarrow> uuid \<Rightarrow> pgtext \<Rightarrow> pgtext \<Rightarrow> uuid option \<Rightarrow> uuid option \<Rightarrow> uuid option \<Rightarrow> uuid
   \<Rightarrow> asset_row" where
  "new_asset x org i item tag description owner custodian location performer =
     \<lparr>as_id = i, as_org = org, as_item = item, as_tag = tag, as_description = description,
      as_owner = owner, as_custodian = custodian, as_location = location, as_assignment = None,
      as_state = Some RECEIVED, as_version = 1, as_created_by = performer,
      as_updated_by = performer, as_updated_at = At (x_now x)\<rparr>"

text \<open>\<open>enforce_asset_initial_state\<close>, then the constraints of \<open>assets\<close>.\<close>

definition insert_asset :: "ctx \<Rightarrow> asset_row \<Rightarrow> fleet \<Rightarrow> sqlstate + fleet" where
  "insert_asset x a db =
     ensure (as_version a = 1 \<and> as_state a = Some RECEIVED) E23514
       (ensure (as_owner a \<noteq> None) E23502
         (ensure (asset_check a) E23514
           (ensure (\<forall>b \<in> set (assets db). as_id b \<noteq> as_id a
                      \<and> \<not> (as_org b = as_org a \<and> as_tag b = as_tag a)) E23505
             (let db' = db\<lparr>assets := assets db @ [a]\<rparr> in
              ensure (asset_refs db' a) E23503
                (rbind (enforce_authenticated_creator x db' (as_created_by a) (Some (as_updated_by a)))
                  (\<lambda>_. Inr db'))))))"

definition insert_initial_facts :: "ctx \<Rightarrow> initial_row \<Rightarrow> fleet \<Rightarrow> sqlstate + fleet" where
  "insert_initial_facts x b db =
     ensure (b_owner b \<noteq> None) E23502
       (ensure (\<forall>c \<in> set (asset_initial_facts db). b_asset c \<noteq> b_asset b) E23505
         (ensure (asset_exists db (b_org b) (b_asset b) \<and> holds_if (party_exists db (b_org b)) (b_owner b)
                  \<and> holds_if (party_exists db (b_org b)) (b_custodian b)
                  \<and> holds_if (location_exists db (b_org b)) (b_location b)
                  \<and> actor_exists db (b_org b) (b_actor b)) E23503
           (rbind (enforce_authenticated_creator x db (b_actor b) None) (\<lambda>_.
             Inr (db\<lparr>asset_initial_facts := asset_initial_facts db @ [b]\<rparr>)))))"

definition insert_initial_assignment :: "ctx \<Rightarrow> witness_row \<Rightarrow> fleet \<Rightarrow> sqlstate + fleet" where
  "insert_initial_assignment x w db =
     ensure (\<forall>c \<in> set (asset_initial_assignment_facts db). w_asset c \<noteq> w_asset w) E23505
       (ensure (asset_exists db (w_org w) (w_asset w) \<and> actor_exists db (w_org w) (w_actor w)) E23503
         (rbind (enforce_authenticated_creator x db (w_actor w) None) (\<lambda>_.
           Inr (db\<lparr>asset_initial_assignment_facts := asset_initial_assignment_facts db @ [w]\<rparr>))))"

definition insert_identifier :: "ctx \<Rightarrow> identifier_row \<Rightarrow> fleet \<Rightarrow> sqlstate + fleet" where
  "insert_identifier x d db =
     ensure (identifier_check d) E23514
       (ensure (\<forall>c \<in> set (asset_identifiers db). id_id c \<noteq> id_id d
                  \<and> \<not> (id_value d \<noteq> None \<and> id_org c = id_org d \<and> id_type c = id_type d
                       \<and> id_value c = id_value d)) E23505
         (ensure (asset_exists db (id_org d) (id_asset d) \<and> actor_exists db (id_org d) (id_created_by d))
            E23503
            (rbind (enforce_authenticated_creator x db (id_created_by d) None) (\<lambda>_.
              Inr (db\<lparr>asset_identifiers := asset_identifiers db @ [d]\<rparr>)))))"

definition received_reason :: pgtext where
  "received_reason = lit ''Physical unit received''"

definition create_unit_facts ::
  "ctx \<Rightarrow> asset_row \<Rightarrow> tstz \<Rightarrow> uuid \<Rightarrow> identifier_row \<Rightarrow> fleet \<Rightarrow> sqlstate + fleet" where
  "create_unit_facts x a received_at tid d db =
     rbind (insert_asset x a db) (\<lambda>db1.
       rbind (insert_history transitions x
                (event_row x (as_org a) (as_id a) 1 None (Some RECEIVED) received_reason
                   (as_created_by a) received_at None None tid) db1) (\<lambda>db2.
         rbind (insert_initial_facts x
                  \<lparr>b_asset = as_id a, b_org = as_org a, b_owner = as_owner a,
                   b_custodian = as_custodian a, b_location = as_location a,
                   b_actor = as_created_by a, b_occurred = received_at\<rparr> db2) (\<lambda>db3.
           rbind (insert_initial_assignment x
                    \<lparr>w_asset = as_id a, w_org = as_org a, w_actor = as_created_by a,
                     w_occurred = received_at\<rparr> db3) (\<lambda>db4.
             insert_identifier x d db4))))"

section \<open>Commit\<close>

text \<open>
  The deferred constraint triggers \<open>correction_pair_complete\<close>: at commit, no row inserted by the
  transaction may belong to an Asset whose history of that class is malformed.
\<close>

definition new_rows :: "'f hclass \<Rightarrow> fleet \<Rightarrow> fleet \<Rightarrow> 'f hrow list" where
  "new_rows cls old db = drop (length (hc_rows cls old)) (hc_rows cls db)"

definition pairs_complete :: "'f hclass \<Rightarrow> fleet \<Rightarrow> fleet \<Rightarrow> bool" where
  "pairs_complete cls old db \<longleftrightarrow>
     (\<forall>h \<in> set (new_rows cls old db). h_asset h \<notin> set (class_anomalies cls db))"

definition commit_histories :: "fleet \<Rightarrow> fleet \<Rightarrow> sqlstate + fleet" where
  "commit_histories old db =
     ensure (pairs_complete transitions old db \<and> pairs_complete movements old db
             \<and> pairs_complete custody old db \<and> pairs_complete ownership old db
             \<and> pairs_complete assignments old db
             \<and> (\<forall>h \<in> set (new_rows transitions old db). h_asset h \<notin> set (evidence_anomalies db)))
       E23514 (Inr db)"

end
