(* ===== verification/AssetInvariant.thy ===== *)
theory AssetInvariant
  imports Assets
begin

text \<open>
  The invariant of the Asset tables and its preservation by every operation.

  The interface between the operations and the histories is the locale \<open>history_class\<close>: what a
  declaration of \<open>HISTORIES\<close> must satisfy for its appends to keep the class well formed.  The five
  declarations of the code interpret it.  \<open>untouched\<close> says that an operation of one class leaves
  another alone.
\<close>

section \<open>The invariant\<close>

definition rows_owned :: "'f hclass \<Rightarrow> fleet \<Rightarrow> bool" where
  "rows_owned cls db \<longleftrightarrow> (\<forall>h \<in> set (hc_rows cls db). asset_exists db (h_org h) (h_asset h))"

definition class_ok :: "'f hclass \<Rightarrow> fleet \<Rightarrow> bool" where
  "class_ok cls db \<longleftrightarrow> table_ok (hc_initial cls db) (hc_rows cls db) \<and> rows_owned cls db
     \<and> (\<forall>a \<in> set (assets db). projection_agrees cls db a)"

definition asset_ok :: "fleet \<Rightarrow> asset_row \<Rightarrow> bool" where
  "asset_ok db a \<longleftrightarrow> initial_facts db (as_org a) (as_id a) \<noteq> None
     \<and> initial_assignment db (as_org a) (as_id a) \<noteq> None
     \<and> 1 \<le> as_version a \<and> as_version a \<le> int4_max
     \<and> mset (raw_versions db (as_org a) (as_id a)) = mset [1..as_version a]
     \<and> as_state a \<noteq> None \<and> as_owner a \<noteq> None"

definition evidence_ok :: "fleet \<Rightarrow> bool" where
  "evidence_ok db \<longleftrightarrow> (\<forall>h \<in> set (asset_transitions db).
     evidence_supported db (h_org h) (h_evidence h) (h_asset h) (transition_purpose h))"

definition fleet_ok :: "fleet \<Rightarrow> bool" where
  "fleet_ok db \<longleftrightarrow> distinct (map as_id (assets db))
     \<and> class_ok transitions db \<and> class_ok movements db \<and> class_ok custody db
     \<and> class_ok ownership db \<and> class_ok assignments db
     \<and> (\<forall>a \<in> set (assets db). asset_ok db a) \<and> evidence_ok db"

section \<open>The latest effective row is the last row\<close>

lemma last_flat: "gs \<noteq> [] \<Longrightarrow> last (flat gs) = head (last gs)"
proof (induction gs rule: rev_induct)
  case Nil
  then show ?case by simp
next
  case (snoc g gs)
  show ?case by (cases g; cases "snd g" rule: rev_cases) auto
qed

lemma latest_effective_last:
  assumes "table_ok initial rows"
  shows "latest_effective org a rows =
     (if asset_rows org a rows = [] then None else Some (last (asset_rows org a rows)))"
proof -
  obtain gs where gs: "asset_rows org a rows = flat gs" "chain (initial org a) gs"
    "in_versions (flat gs)" "distinct (map h_id (flat gs))" "distinct (roots gs)"
    "\<forall>h \<in> set (flat gs). of_asset org a h"
    using table_ok_asset [OF assms] by metis
  show ?thesis
    unfolding latest_effective_heads [OF gs(1,2,5,6,3)] gs(1) by (auto simp: last_flat)
qed

lemma latest_effective_in:
  assumes "latest_effective org a rows = Some l"
  shows "l \<in> set rows" "of_asset org a l"
proof -
  have "l \<in> set (filter (of_asset org a) (effective rows))"
    using latest_by_in assms unfolding latest_effective_def .
  then show "l \<in> set rows" "of_asset org a l" by (auto simp: effective_def)
qed

lemma asset_rows_other: "\<not> of_asset org a n \<Longrightarrow> asset_rows org a (rows @ [n]) = asset_rows org a rows"
  by (simp add: asset_rows_def)

section \<open>Normalized reasons\<close>

lemma dropWhile_idem: "dropWhile P (dropWhile P xs) = dropWhile P xs"
  by (induction xs) auto

lemma rtrim_hd:
  assumes "dropWhile P (rev u) \<noteq> []"
  shows "hd (rev (dropWhile P (rev u))) = hd u \<and> u \<noteq> []"
proof -
  have "u = rev (takeWhile P (rev u) @ dropWhile P (rev u))" by simp
  then have "u = rev (dropWhile P (rev u)) @ rev (takeWhile P (rev u))" by (simp only: rev_append)
  then have "hd u = hd (rev (dropWhile P (rev u)) @ rev (takeWhile P (rev u)))" by (simp only:)
  then show ?thesis using assms by (auto simp del: dropWhile_eq_Nil_conv)
qed

lemma btrim_set_edges:
  assumes "btrim_set cs t \<noteq> []"
  shows "hd (btrim_set cs t) \<notin> cs" and "last (btrim_set cs t) \<notin> cs"
proof -
  let ?u = "dropWhile (\<lambda>c. c \<in> cs) t"
  let ?w = "dropWhile (\<lambda>c. c \<in> cs) (rev ?u)"
  have w: "?w \<noteq> []" using assms by (simp add: btrim_set_def)
  then show "last (btrim_set cs t) \<notin> cs"
    using hd_dropWhile [OF w] by (simp add: btrim_set_def last_rev)
  have "hd (rev ?w) = hd ?u" "?u \<noteq> []" using rtrim_hd [OF w] by simp_all
  then show "hd (btrim_set cs t) \<notin> cs"
    using hd_dropWhile [of "\<lambda>c. c \<in> cs" t] unfolding btrim_set_def by (simp only: not_False_eq_True)
qed

lemma btrim_set_fixed:
  assumes "t = [] \<or> (hd t \<notin> cs \<and> last t \<notin> cs)"
  shows "btrim_set cs t = t"
proof (cases "t = []")
  case True
  then show ?thesis by (simp add: btrim_set_def)
next
  case False
  have drop: "dropWhile (\<lambda>c. c \<in> cs) u = u" if "u \<noteq> []" "hd u \<notin> cs" for u
    using that by (cases u) auto
  show ?thesis using False assms drop [of t] drop [of "rev t"] by (simp add: btrim_set_def hd_rev)
qed

lemma btrim_set_idem: "btrim_set cs (btrim_set cs t) = btrim_set cs t"
  using btrim_set_edges by (intro btrim_set_fixed) blast

lemma pg_space_correction: "pg_space c \<Longrightarrow> c \<in> correction_space"
  by (auto simp: pg_space_def correction_space_def)

lemma normalized_reason_ok:
  assumes "length_between 1 4000 (normalize_correction_reason t)"
  shows "reason_ok (normalize_correction_reason t)"
proof -
  let ?w = "normalize_correction_reason t"
  have "?w \<noteq> []" using assms by (auto simp: length_between_def)
  then have "hd ?w \<in> set ?w" "hd ?w \<notin> correction_space"
    using btrim_set_edges(1) by (auto simp: normalize_correction_reason_def)
  then have "has_nonspace ?w" using pg_space_correction by (auto simp: has_nonspace_def)
  moreover have "?w = normalize_correction_reason ?w"
    by (simp add: normalize_correction_reason_def btrim_set_idem)
  ultimately show ?thesis using assms by (simp add: reason_ok_def length_between_def)
qed

section \<open>Assets under update\<close>

lemma set_asset_assets [simp]:
  "assets (set_asset org i f db) = map (\<lambda>a. if is_asset org i a then f a else a) (assets db)"
  by (simp add: set_asset_def)

definition keeps_key :: "(asset_row \<Rightarrow> asset_row) \<Rightarrow> bool" where
  "keeps_key f \<longleftrightarrow> (\<forall>a. as_id (f a) = as_id a \<and> as_org (f a) = as_org a)"

lemma asset_exists_iff:
  "asset_exists db org j \<longleftrightarrow> (org, j) \<in> set (map (\<lambda>a. (as_org a, as_id a)) (assets db))"
  by (force simp: asset_exists_def)

lemma set_asset_exists [simp]:
  assumes "keeps_key f"
  shows "asset_exists (set_asset org i f db) = asset_exists db"
proof -
  have "map (\<lambda>a. (as_org a, as_id a)) (assets (set_asset org i f db))
      = map (\<lambda>a. (as_org a, as_id a)) (assets db)"
    using assms by (simp add: keeps_key_def)
  then show ?thesis by (intro ext) (simp only: asset_exists_iff)
qed

lemma set_asset_ids:
  "keeps_key f \<Longrightarrow> map as_id (assets (set_asset org i f db)) = map as_id (assets db)"
  by (simp add: keeps_key_def)

lemma set_asset_frame [simp]:
  "organizations (set_asset org i f db) = organizations db" "actors (set_asset org i f db) = actors db"
  "parties (set_asset org i f db) = parties db" "locations (set_asset org i f db) = locations db"
  "attachments (set_asset org i f db) = attachments db"
  "attachment_links (set_asset org i f db) = attachment_links db"
  "asset_transitions (set_asset org i f db) = asset_transitions db"
  "asset_movements (set_asset org i f db) = asset_movements db"
  "asset_custody_changes (set_asset org i f db) = asset_custody_changes db"
  "asset_ownership_changes (set_asset org i f db) = asset_ownership_changes db"
  "asset_assignment_events (set_asset org i f db) = asset_assignment_events db"
  "asset_initial_facts (set_asset org i f db) = asset_initial_facts db"
  "asset_initial_assignment_facts (set_asset org i f db) = asset_initial_assignment_facts db"
  "sessions (set_asset org i f db) = sessions db" "users (set_asset org i f db) = users db"
  by (simp_all add: set_asset_def)

lemma find_asset_in: "find_asset db org i = Some a \<Longrightarrow> a \<in> set (assets db) \<and> as_org a = org \<and> as_id a = i"
  by (auto simp: find_asset_def dest: find_Some_in)

lemma asset_unique:
  "distinct (map as_id (assets db)) \<Longrightarrow> a \<in> set (assets db) \<Longrightarrow> b \<in> set (assets db) \<Longrightarrow> as_id a = as_id b \<Longrightarrow> a = b"
  by (auto simp: distinct_map dest: inj_onD)

section \<open>The interface\<close>

locale history_class =
  fixes cls :: "'f hclass"
  assumes rows_add: "hc_rows cls (hc_add cls h db) = hc_rows cls db @ [h]"
    and assets_add: "assets (hc_add cls h db) = assets db"
    and initial_add: "hc_initial cls (hc_add cls h db) = hc_initial cls db"
    and rows_set: "hc_rows cls (set_asset org i u db) = hc_rows cls db"
    and initial_set: "hc_initial cls (set_asset org i u db) = hc_initial cls db"
    and store_agrees: "hc_agrees cls (hc_store cls e f a) (Some e) f"
    and store_key: "as_id (hc_store cls e f a) = as_id a" "as_org (hc_store cls e f a) = as_org a"
    and fallback: "hc_fallback cls db org i = Inr f \<Longrightarrow> f = hc_initial cls db org i"
begin

lemma exists_add: "asset_exists (hc_add cls h db) = asset_exists db"
  by (intro ext) (simp add: asset_exists_def assets_add)

lemma prior_event_fact:
  assumes "prior_event cls db a = Inr (e, f)"
  shows "f = prior_fact (hc_initial cls db) (as_org a) (as_id a) (hc_rows cls db)"
  using assms fallback
  by (auto simp: prior_event_def prior_fact_def rbind_Inr_iff ensure_Inr_iff split: option.splits)

lemma source_before_fact:
  assumes "source_before cls db org i v = Inr f"
  shows "f = (case latest_before org i v (hc_rows cls db) of Some p \<Rightarrow> h_to p
              | None \<Rightarrow> hc_initial cls db org i)"
  using assms fallback by (auto simp: source_before_def split: option.splits)

text \<open>Appending rows of one Asset and moving its projection to the last of them.\<close>

lemma append_keeps_class:
  assumes ok: "class_ok cls db" and a: "asset_exists db org i"
    and rows: "hc_rows cls db' = hc_rows cls db @ ns" "ns \<noteq> []" "\<forall>n \<in> set ns. of_asset org i n"
    and init: "hc_initial cls db' = hc_initial cls db" and assets: "assets db' = assets db"
    and t: "table_ok (hc_initial cls db) (hc_rows cls db @ ns)"
    and store: "\<And>b. hc_agrees cls (u b) (Some (h_id (last ns))) (h_to (last ns))" and key: "keeps_key u"
  shows "class_ok cls (set_asset org i u db')"
proof -
  have ex: "asset_exists db' = asset_exists db" by (intro ext) (simp add: asset_exists_def assets)
  have "rows_owned cls (set_asset org i u db')"
    using ok a rows key
    by (auto simp: class_ok_def rows_owned_def rows_set ex of_asset_def)
  moreover have "projection_agrees cls (set_asset org i u db') b"
    if b: "b \<in> set (assets (set_asset org i u db'))" for b
  proof -
    obtain c where c: "c \<in> set (assets db)" "b = (if is_asset org i c then u c else c)"
      using b by (auto simp: assets)
    have bk: "as_org b = as_org c" "as_id b = as_id c" using c key by (auto simp: keeps_key_def)
    show ?thesis
    proof (cases "is_asset org i c")
      case True
      then have oc: "as_org c = org" "as_id c = i" by (auto simp: is_asset_def)
      have "asset_rows org i ns = ns" using rows(3) by (simp add: asset_rows_def)
      then have "latest_effective org i (hc_rows cls db @ ns) = Some (last ns)"
        using latest_effective_last [OF t, of org i] rows(2) by simp
      moreover have "b = u c" using c(2) True by simp
      ultimately show ?thesis
        unfolding projection_agrees_def rows_set rows(1) bk oc using store by simp
    next
      case False
      have none: "asset_rows (as_org c) (as_id c) ns = []"
        using False rows(3) by (auto simp: asset_rows_def is_asset_def of_asset_def filter_empty_conv)
      have t0: "table_ok (hc_initial cls db) (hc_rows cls db)" using ok by (simp add: class_ok_def)
      have "latest_effective (as_org c) (as_id c) (hc_rows cls db @ ns)
          = latest_effective (as_org c) (as_id c) (hc_rows cls db)"
        by (simp add: latest_effective_last [OF t] latest_effective_last [OF t0] none)
      moreover have "projection_agrees cls db c" using ok c(1) by (simp add: class_ok_def)
      moreover have bc: "b = c" using c(2) False by simp
      ultimately show ?thesis
        unfolding bc projection_agrees_def rows_set rows(1) initial_set init by simp
    qed
  qed
  ultimately show ?thesis using t by (simp add: class_ok_def rows_set initial_set rows(1) init)
qed

lemma event_keeps_class:
  assumes ok: "class_ok cls db" and a: "asset_exists db (h_org n) (h_asset n)"
    and n: "ordinary n" "row_unique (hc_rows cls db) n"
    and src: "h_from n = prior_fact (hc_initial cls db) (h_org n) (h_asset n) (hc_rows cls db)"
    and ver: "\<And>h. h \<in> set (hc_rows cls db) \<Longrightarrow> of_asset (h_org n) (h_asset n) h \<Longrightarrow> h_version h < h_version n"
    and key: "keeps_key (\<lambda>b. hc_store cls (h_id n) (h_to n) (g b))"
  shows "class_ok cls (set_asset (h_org n) (h_asset n) (\<lambda>b. hc_store cls (h_id n) (h_to n) (g b))
           (hc_add cls n db))"
proof (rule append_keeps_class [OF ok a, where ns = "[n]"])
  have "table_ok (hc_initial cls db) (hc_rows cls db)" using ok by (simp add: class_ok_def)
  then show "table_ok (hc_initial cls db) (hc_rows cls db @ [n])"
    using n(2) by (intro table_ok_append_ordinary [OF _ n(1) _ src ver]) (auto simp: row_unique_def)
qed (simp_all add: rows_add initial_add assets_add store_agrees key)

lemma pair_keeps_class:
  assumes ok: "class_ok cls db" and a: "asset_exists db org i"
    and t: "table_ok (hc_initial cls db) (hc_rows cls db @ [v, c])"
    and vc: "of_asset org i v" "of_asset org i c"
    and key: "keeps_key (\<lambda>b. hc_store cls (h_id c) (h_to c) (g b))"
  shows "class_ok cls (set_asset org i (\<lambda>b. hc_store cls (h_id c) (h_to c) (g b))
           (hc_add cls c (hc_add cls v db)))"
  by (rule append_keeps_class [OF ok a, where ns = "[v, c]"])
    (simp_all add: rows_add initial_add assets_add store_agrees key t vc)

lemma no_anomalies:
  assumes "class_ok cls db"
  shows "class_anomalies cls db = []"
  using assms by (simp add: class_anomalies_def class_ok_def table_ok_not_malformed)

end

text \<open>The declarations of \<open>HISTORIES\<close>.\<close>

lemma initial_facts_set [simp]:
  "initial_facts (set_asset org i f db) = initial_facts db"
  "initial_assignment (set_asset org i f db) = initial_assignment db"
  by (auto simp: initial_facts_def initial_assignment_def intro!: ext)

lemma ref_fallback_initial: "ref_fallback field db org a = Inr f \<Longrightarrow> f = ref_initial field db org a"
  by (auto simp: ref_fallback_def ref_initial_def split: option.splits)

lemma ref_initial_cong [simp]:
  "ref_initial field (set_asset org i f db) = ref_initial field db"
  "ref_initial field (asset_movements_update m db) = ref_initial field db"
  "ref_initial field (asset_custody_changes_update m db) = ref_initial field db"
  "ref_initial field (asset_ownership_changes_update m db) = ref_initial field db"
  by (auto simp: ref_initial_def initial_facts_def intro!: ext)

interpretation transition: history_class transitions
  by unfold_locales (auto simp: transitions_def)

interpretation movement: history_class movements
  by unfold_locales (auto simp: movements_def ref_fallback_initial)

interpretation custodian: history_class custody
  by unfold_locales (auto simp: custody_def ref_fallback_initial)

interpretation owner: history_class ownership
  by unfold_locales (auto simp: ownership_def ref_fallback_initial)

interpretation assignment: history_class assignments
  by unfold_locales (auto simp: assignments_def shown_event_def ensure_Inr_iff)

end
