(* ===== verification/FleetSteps.thy ===== *)
theory FleetSteps
  imports AssetInvariant
begin

text \<open>
  Every operation on an Asset keeps \<open>fleet_ok\<close>.  A successful operation has the effect
  \<open>write_db\<close>: it appends rows to one class and stores the last of them in the Asset's projection
  together with the new version.  The step relation over these operations is in \<open>FleetRun\<close>.
\<close>

section \<open>The effect of an operation\<close>

definition bump :: "int \<Rightarrow> (uuid \<times> tstz) option \<Rightarrow> asset_row \<Rightarrow> asset_row" where
  "bump v who b =
     (case who of
        None \<Rightarrow> b\<lparr>as_version := v\<rparr>
      | Some (u, t) \<Rightarrow> b\<lparr>as_version := v, as_updated_by := u, as_updated_at := t\<rparr>)"

definition add_rows :: "'f hclass \<Rightarrow> 'f hrow list \<Rightarrow> fleet \<Rightarrow> fleet" where
  "add_rows cls ns db = fold (hc_add cls) ns db"

definition write_db :: "'f hclass \<Rightarrow> 'f hrow list \<Rightarrow> (uuid \<times> tstz) option \<Rightarrow> fleet \<Rightarrow> fleet" where
  "write_db cls ns who db =
     set_asset (h_org (last ns)) (h_asset (last ns))
       (\<lambda>b. hc_store cls (h_id (last ns)) (h_to (last ns)) (bump (h_version (last ns)) who b))
       (add_rows cls ns db)"

definition written_ok :: "uuid \<Rightarrow> uuid \<Rightarrow> fleet \<Rightarrow> bool" where
  "written_ok org i db \<longleftrightarrow> (\<forall>a \<in> set (assets db). is_asset org i a \<longrightarrow>
     as_owner a \<noteq> None \<and> as_state a \<noteq> None \<and> asset_check a)"

lemma update_asset_Inr:
  assumes "update_asset org i f db = Inr db'"
  shows "db' = set_asset org i f db" "written_ok org i db'"
  using assms by (auto simp: update_asset_def ensure_Inr_iff Let_def written_ok_def)

lemma insert_history_Inr:
  assumes "insert_history cls x n db = Inr db'"
  shows "db' = hc_add cls n db" "hc_before cls db n = Inr ()" "hc_admit cls n" "row_check n"
    "row_unique (hc_rows cls db) n" "row_refs cls (hc_add cls n db) n" "hc_present cls n"
  using assms by (auto simp: insert_history_def rbind_Inr_iff ensure_Inr_iff Let_def)

lemma record_event_Inr:
  assumes "record_event cls x n db = Inr (m, db')"
  shows "m = n" "db' = write_db cls [n] None db" "insert_history cls x n db = Inr (hc_add cls n db)"
    "written_ok (h_org n) (h_asset n) db'"
proof -
  obtain db1 where i: "insert_history cls x n db = Inr db1"
    and u: "update_asset (h_org n) (h_asset n)
              (\<lambda>a. hc_store cls (h_id n) (h_to n) (a\<lparr>as_version := h_version n\<rparr>)) db1 = Inr db'"
    and m: "m = n"
    using assms by (auto simp: record_event_def rbind_Inr_iff)
  show "m = n" using m .
  show "insert_history cls x n db = Inr (hc_add cls n db)" using i insert_history_Inr(1) [OF i] by simp
  show "db' = write_db cls [n] None db"
    using update_asset_Inr(1) [OF u] insert_history_Inr(1) [OF i]
    by (simp add: write_db_def bump_def add_rows_def)
  show "written_ok (h_org n) (h_asset n) db'" using update_asset_Inr(2) [OF u] .
qed

lemma record_pair_Inr:
  assumes "record_pair cls x v c db = Inr (m, db')" and "of_asset (h_org c) (h_asset c) v"
  shows "m = c" "db' = write_db cls [v, c] (Some (h_actor c, At (x_now x))) db"
    "insert_history cls x v db = Inr (hc_add cls v db)"
    "insert_history cls x c (hc_add cls v db) = Inr (hc_add cls c (hc_add cls v db))"
    "written_ok (h_org c) (h_asset c) db'"
proof -
  obtain db1 db2 where i: "insert_history cls x v db = Inr db1" "insert_history cls x c db1 = Inr db2"
    and u: "update_asset (h_org c) (h_asset c)
              (\<lambda>a. hc_store cls (h_id c) (h_to c)
                 (a\<lparr>as_version := h_version c, as_updated_by := h_actor c,
                    as_updated_at := At (x_now x)\<rparr>)) db2 = Inr db'"
    and m: "m = c"
    using assms by (auto simp: record_pair_def rbind_Inr_iff)
  note e = insert_history_Inr(1) [OF i(1)] insert_history_Inr(1) [OF i(2)]
  show "m = c" using m .
  show "insert_history cls x v db = Inr (hc_add cls v db)" using i(1) e by simp
  show "insert_history cls x c (hc_add cls v db) = Inr (hc_add cls c (hc_add cls v db))"
    using i(2) e by simp
  show "db' = write_db cls [v, c] (Some (h_actor c, At (x_now x))) db"
    using update_asset_Inr(1) [OF u] e by (simp add: write_db_def bump_def add_rows_def)
  show "written_ok (h_org c) (h_asset c) db'" using update_asset_Inr(2) [OF u] .
qed

section \<open>Independence of the classes\<close>

definition untouched :: "'g hclass \<Rightarrow> 'f hclass \<Rightarrow> bool" where
  "untouched other cls \<longleftrightarrow>
     (\<forall>h db. hc_rows other (hc_add cls h db) = hc_rows other db
        \<and> hc_initial other (hc_add cls h db) = hc_initial other db)
     \<and> (\<forall>e f v who b. hc_agrees other (hc_store cls e f (bump v who b)) = hc_agrees other b)
     \<and> (\<forall>org i u db. hc_rows other (set_asset org i u db) = hc_rows other db
        \<and> hc_initial other (set_asset org i u db) = hc_initial other db)"

lemmas class_defs = transitions_def movements_def custody_def ownership_def assignments_def

lemma untouched_classes:
  "untouched transitions movements" "untouched transitions custody" "untouched transitions ownership"
  "untouched transitions assignments" "untouched movements transitions" "untouched movements custody"
  "untouched movements ownership" "untouched movements assignments" "untouched custody transitions"
  "untouched custody movements" "untouched custody ownership" "untouched custody assignments"
  "untouched ownership transitions" "untouched ownership movements" "untouched ownership custody"
  "untouched ownership assignments" "untouched assignments transitions"
  "untouched assignments movements" "untouched assignments custody" "untouched assignments ownership"
  by (auto simp: untouched_def class_defs bump_def ref_initial_def initial_facts_def
      split: option.splits intro!: ext)

lemma class_ok_frame:
  assumes ok: "class_ok cls db" and rows: "hc_rows cls db' = hc_rows cls db"
    and init: "hc_initial cls db' = hc_initial cls db" and assets: "assets db' = map w (assets db)"
    and w: "keeps_key w" "\<And>a. hc_agrees cls (w a) = hc_agrees cls a"
  shows "class_ok cls db'"
proof -
  have ex: "asset_exists db' = asset_exists db"
    using w(1) by (intro ext) (simp only: asset_exists_iff assets map_map comp_def keeps_key_def)
  have "projection_agrees cls db' (w a)" if "a \<in> set (assets db)" for a
  proof -
    have "projection_agrees cls db a" using ok that by (simp add: class_ok_def)
    moreover have key: "as_org (w a) = as_org a" "as_id (w a) = as_id a"
      using w(1) by (simp_all add: keeps_key_def)
    ultimately show ?thesis unfolding projection_agrees_def rows init w(2) key by simp
  qed
  then show ?thesis
    using ok by (simp add: class_ok_def rows init rows_owned_def ex assets)
qed

lemma add_rows_simps [simp]:
  "add_rows cls [] db = db" "add_rows cls (n # ns) db = add_rows cls ns (hc_add cls n db)"
  by (simp_all add: add_rows_def)

lemma untouched_add_rows:
  assumes "untouched other cls"
  shows "hc_rows other (add_rows cls ns db) = hc_rows other db"
    "hc_initial other (add_rows cls ns db) = hc_initial other db"
  using assms by (induction ns arbitrary: db) (auto simp: untouched_def)


context history_class
begin

lemma assets_add_rows: "assets (add_rows cls ns db) = assets db"
  by (induction ns arbitrary: db) (simp_all add: assets_add)

lemma untouched_write:
  assumes "untouched other cls" "class_ok other db"
  shows "class_ok other (write_db cls ns who db)"
proof -
  let ?n = "last ns"
  let ?u = "\<lambda>b. hc_store cls (h_id ?n) (h_to ?n) (bump (h_version ?n) who b)"
  let ?w = "\<lambda>b. if is_asset (h_org ?n) (h_asset ?n) b then ?u b else b"
  have f: "hc_rows other (write_db cls ns who db) = hc_rows other db"
    "hc_initial other (write_db cls ns who db) = hc_initial other db"
    using assms(1) untouched_add_rows [OF assms(1)] by (simp_all add: write_db_def untouched_def)
  show ?thesis
  proof (rule class_ok_frame [OF assms(2) f])
    show "assets (write_db cls ns who db) = map ?w (assets db)"
      by (simp add: write_db_def assets_add_rows)
    show "keeps_key ?w" by (simp add: keeps_key_def store_key bump_def split: option.splits)
    show "hc_agrees other (?w a) = hc_agrees other a" for a
      using assms(1) by (simp add: untouched_def)
  qed
qed

end

section \<open>Preservation, once for all classes\<close>

definition classes_ok :: "fleet \<Rightarrow> bool" where
  "classes_ok db \<longleftrightarrow> class_ok transitions db \<and> class_ok movements db \<and> class_ok custody db
     \<and> class_ok ownership db \<and> class_ok assignments db"

lemma fleet_ok_iff:
  "fleet_ok db \<longleftrightarrow> distinct (map as_id (assets db)) \<and> classes_ok db
     \<and> (\<forall>a \<in> set (assets db). asset_ok db a) \<and> evidence_ok db"
  by (auto simp: fleet_ok_def classes_ok_def)

lemma upto_snoc: "0 \<le> v \<Longrightarrow> [1..v + 1] = [1..v] @ [v + (1::int)]"
  using upto_rec2 [of 1 "v + 1"] by simp

lemma mset_upto_snoc: "0 \<le> v \<Longrightarrow> mset [1..v + 1] = mset [1..v] + {#v + (1::int)#}"
  by (simp add: upto_snoc)

lemma asset_ok_versions:
  assumes "asset_ok db a"
  shows "set (raw_versions db (as_org a) (as_id a)) = {1..as_version a}"
proof -
  have "mset (raw_versions db (as_org a) (as_id a)) = mset [1..as_version a]"
    using assms by (simp add: asset_ok_def)
  then have "set (raw_versions db (as_org a) (as_id a)) = set [1..as_version a]" by (rule mset_eq_setD)
  then show ?thesis by simp
qed

lemma bump_simps [simp]:
  "as_version (bump v who b) = v" "as_id (bump v who b) = as_id b" "as_org (bump v who b) = as_org b"
  by (auto simp: bump_def split: option.splits)

lemma raw_versions_set [simp]: "raw_versions (set_asset org i f db) = raw_versions db"
  by (intro ext) (simp add: raw_versions_def class_versions_def class_defs)

lemma evidence_ok_set [simp]: "evidence_ok (set_asset org i f db) = evidence_ok db"
  using valid_asset_evidence_cong [of "set_asset org i f db" db]
  by (simp add: evidence_ok_def evidence_supported_def)

lemma correction_sql_Inr:
  assumes "correction_sql cls x i r expected target reason corrected_at occurred ids evidence db = Inr (m, db')"
  obtains org actor a original hd' prior why tm pair rid cid g v2 where
    "lock_asset x db i expected = Inr (org, actor, a)"
    "find_row (hc_rows cls db) org i r = Some original" "h_role original = NONE"
    "find_head (hc_rows cls db) org i r = Some hd'" "h_version hd' = as_version a"
    "source_before cls db org i (h_version original) = Inr prior"
    "correction_metadata reason corrected_at ids = Inr (why, tm, pair, rid, cid)"
    "int4_add (h_generation hd') 1 = Inr g" "int4_add (as_version a) 2 = Inr v2"
    "record_pair cls x (reversal_row x hd' a r actor why tm pair g rid)
       (corrected_row x hd' r actor why v2 tm pair g cid prior target evidence occurred) db = Inr (m, db')"
  using assms
  unfolding correction_sql_def ensure_Inr_iff rbind_Inr_iff from_option_Inr_iff split_paired_Ex prod.case
  by blast

locale fleet_class = history_class +
  assumes store_version: "as_version (hc_store cls e f b) = as_version b"
    and class_part: "classes_ok db \<Longrightarrow> class_ok cls db"
    and others_kept: "classes_ok db \<Longrightarrow> class_ok cls (write_db cls ns who db) \<Longrightarrow> classes_ok (write_db cls ns who db)"
    and versions_add: "mset (raw_versions (hc_add cls n db) org a) =
          mset (raw_versions db org a) + (if of_asset org a n then {#h_version n#} else {#})"
    and versions_part: "set (class_versions cls db org a) \<subseteq> set (raw_versions db org a)"
    and facts_add: "initial_facts (hc_add cls n db) = initial_facts db"
          "initial_assignment (hc_add cls n db) = initial_assignment db"
    and evidence_add: "evidence_ok db \<Longrightarrow> hc_before cls db n = Inr () \<Longrightarrow> evidence_ok (hc_add cls n db)"
begin

lemma store_keeps_key: "keeps_key (\<lambda>b. hc_store cls e f (bump v who b))"
  by (simp add: keeps_key_def store_key)

lemma add_rows_frame:
  "assets (add_rows cls ns db) = assets db" "initial_facts (add_rows cls ns db) = initial_facts db"
  "initial_assignment (add_rows cls ns db) = initial_assignment db"
  by (induction ns arbitrary: db) (simp_all add: assets_add facts_add)

lemma add_rows_versions:
  "mset (raw_versions (add_rows cls ns db) org a) =
     mset (raw_versions db org a) + mset (map h_version (filter (of_asset org a) ns))"
  by (induction ns arbitrary: db) (auto simp: versions_add)

lemma version_bound:
  assumes "asset_ok db a" "h \<in> set (hc_rows cls db)" "of_asset (as_org a) (as_id a) h"
  shows "1 \<le> h_version h \<and> h_version h \<le> as_version a"
proof -
  have "h_version h \<in> set (class_versions cls db (as_org a) (as_id a))"
    using assms(2,3) by (auto simp: class_versions_def asset_rows_def)
  then have "h_version h \<in> set (raw_versions db (as_org a) (as_id a))" using versions_part by auto
  then show ?thesis using asset_ok_versions [OF assms(1)] by simp
qed

text \<open>A write brings the written Asset to the last new version, its rows numbered without a gap.\<close>

lemma written_asset_ok:
  assumes oka: "asset_ok db a" and ns: "\<forall>n \<in> set ns. of_asset (as_org a) (as_id a) n"
    and ver: "map h_version ns = [as_version a + 1..v]" "as_version a < v" "v \<le> int4_max"
    and b: "as_org b = as_org a" "as_id b = as_id a" "as_version b = v" "as_owner b \<noteq> None" "as_state b \<noteq> None"
  shows "asset_ok (set_asset o' i u (add_rows cls ns db)) b"
proof -
  have own: "filter (of_asset (as_org a) (as_id a)) ns = ns" using ns by simp
  have "mset (raw_versions db (as_org a) (as_id a)) = mset [1..as_version a]"
    using oka by (simp add: asset_ok_def)
  then have "mset (raw_versions (set_asset o' i u (add_rows cls ns db)) (as_org a) (as_id a))
      = mset ([1..as_version a] @ [as_version a + 1..v])"
    by (simp add: add_rows_versions own ver(1) del: upto.simps)
  also have "[1..as_version a] @ [as_version a + 1..v] = [1..v]"
    using oka ver(2) by (intro upto_split2 [symmetric]) (auto simp: asset_ok_def)
  finally show ?thesis
    using oka ver(2,3) b by (simp add: asset_ok_def) (simp add: add_rows_frame)
qed

lemma other_asset_ok:
  assumes okb: "asset_ok db b" and none: "filter (of_asset (as_org b) (as_id b)) ns = []"
  shows "asset_ok (set_asset o' i u (add_rows cls ns db)) b"
proof -
  have "mset (raw_versions (set_asset o' i u (add_rows cls ns db)) (as_org b) (as_id b))
      = mset (raw_versions db (as_org b) (as_id b))"
    by (simp add: add_rows_versions none)
  then show ?thesis using okb unfolding asset_ok_def by (simp add: add_rows_frame)
qed

lemma write_keeps_fleet:
  assumes ok: "fleet_ok db" and a: "a \<in> set (assets db)"
    and ns: "ns \<noteq> []" "\<forall>n \<in> set ns. of_asset (as_org a) (as_id a) n"
    and ver: "map h_version ns = [as_version a + 1..h_version (last ns)]"
      "as_version a < h_version (last ns)" "h_version (last ns) \<le> int4_max"
    and cls: "class_ok cls (write_db cls ns who db)"
    and ev: "evidence_ok (add_rows cls ns db)"
    and wr: "written_ok (as_org a) (as_id a) (write_db cls ns who db)"
  shows "fleet_ok (write_db cls ns who db)"
proof -
  let ?n = "last ns" and ?db = "write_db cls ns who db"
  let ?u = "\<lambda>b. hc_store cls (h_id ?n) (h_to ?n) (bump (h_version ?n) who b)"
  have "last ns \<in> set ns" using ns(1) by simp
  then have n: "h_org ?n = as_org a" "h_asset ?n = as_id a" using ns(2) by (auto simp: of_asset_def)
  have db: "?db = set_asset (as_org a) (as_id a) ?u (add_rows cls ns db)" by (simp add: write_db_def n)
  have assets: "assets ?db = map (\<lambda>b. if is_asset (as_org a) (as_id a) b then ?u b else b) (assets db)"
    by (simp add: db add_rows_frame)
  have d: "distinct (map as_id (assets db))" using ok by (simp add: fleet_ok_iff)
  have ids: "map as_id (assets ?db) = map as_id (assets db)"
    by (simp add: assets store_key comp_def if_distrib [of as_id] cong: if_cong)
  have "asset_ok ?db b'" if b': "b' \<in> set (assets ?db)" for b'
  proof -
    obtain b where b: "b \<in> set (assets db)" "b' = (if is_asset (as_org a) (as_id a) b then ?u b else b)"
      using b' by (auto simp: assets)
    have okb: "asset_ok db b" using ok b(1) by (simp add: fleet_ok_iff)
    show ?thesis
    proof (cases "b = a")
      case True
      have b'a: "b' = ?u a" using b(2) True by (simp add: is_asset_def)
      moreover have "as_owner b' \<noteq> None \<and> as_state b' \<noteq> None"
        using wr b' b'a by (auto simp: written_ok_def is_asset_def store_key)
      ultimately show ?thesis unfolding db using okb True
        by (intro written_asset_ok [OF _ ns(2) ver]) (simp_all add: store_key store_version)
    next
      case False
      then have "as_id b \<noteq> as_id a" using asset_unique [OF d b(1) a] by blast
      then have "b' = b" "filter (of_asset (as_org b) (as_id b)) ns = []"
        using b(2) ns(2) by (auto simp: is_asset_def of_asset_def filter_empty_conv)
      then show ?thesis unfolding db using other_asset_ok [OF okb] by simp
    qed
  qed
  moreover have "classes_ok ?db" using others_kept cls ok by (simp add: fleet_ok_iff)
  moreover have "evidence_ok ?db" using ev by (simp add: db)
  ultimately show ?thesis using d ids by (simp add: fleet_ok_iff)
qed

lemma event_keeps_fleet:
  assumes ok: "fleet_ok db" and a: "a \<in> set (assets db)"
    and n: "ordinary n" "of_asset (as_org a) (as_id a) n" "h_version n = as_version a + 1"
      "h_version n \<le> int4_max"
      "h_from n = prior_fact (hc_initial cls db) (as_org a) (as_id a) (hc_rows cls db)"
    and r: "record_event cls x n db = Inr (m, db')"
  shows "fleet_ok db'"
proof -
  note R = record_event_Inr [OF r]
  note I = insert_history_Inr [OF R(3)]
  have oka: "asset_ok db a" using ok a by (simp add: fleet_ok_iff)
  have na: "h_org n = as_org a" "h_asset n = as_id a" using n(2) by (simp_all add: of_asset_def)
  have "class_ok cls (set_asset (h_org n) (h_asset n)
          (\<lambda>b. hc_store cls (h_id n) (h_to n) (bump (h_version n) None b)) (hc_add cls n db))"
  proof (rule event_keeps_class [OF _ _ n(1) I(5) _ _ store_keeps_key])
    show "class_ok cls db" using ok class_part by (simp add: fleet_ok_iff)
    show "asset_exists db (h_org n) (h_asset n)" using a by (auto simp: asset_exists_def na)
    show "h_from n = prior_fact (hc_initial cls db) (h_org n) (h_asset n) (hc_rows cls db)"
      using n(5) by (simp add: na)
    show "h_version h < h_version n"
      if "h \<in> set (hc_rows cls db)" "of_asset (h_org n) (h_asset n) h" for h
      using version_bound [OF oka that(1)] that(2) n(3) by (simp add: na)
  qed
  then have cls: "class_ok cls (write_db cls [n] None db)" by (simp add: write_db_def)
  have "evidence_ok (add_rows cls [n] db)" using evidence_add I(2) ok by (simp add: fleet_ok_iff)
  then have "fleet_ok (write_db cls [n] None db)"
    using write_keeps_fleet [OF ok a, of "[n]" None] cls R(4) n(2-4) by (simp add: R(2) na)
  then show ?thesis by (simp add: R(2))
qed

lemma pair_keeps_fleet:
  assumes ok: "fleet_ok db" and a: "a \<in> set (assets db)"
    and t: "table_ok (hc_initial cls db) (hc_rows cls db @ [v, c])"
    and vc: "of_asset (as_org a) (as_id a) v" "of_asset (as_org a) (as_id a) c"
      "h_version v = as_version a + 1" "h_version c = as_version a + 2" "h_version c \<le> int4_max"
    and r: "record_pair cls x v c db = Inr (m, db')"
  shows "fleet_ok db'"
proof -
  have ca: "h_org c = as_org a" "h_asset c = as_id a" "of_asset (h_org c) (h_asset c) v"
    using vc(1,2) by (simp_all add: of_asset_def)
  note R = record_pair_Inr [OF r ca(3)]
  note Iv = insert_history_Inr [OF R(3)] and Ic = insert_history_Inr [OF R(4)]
  let ?who = "Some (h_actor c, At (x_now x))"
  have ex: "asset_exists db (as_org a) (as_id a)" using a by (auto simp: asset_exists_def)
  have "class_ok cls (set_asset (as_org a) (as_id a)
          (\<lambda>b. hc_store cls (h_id c) (h_to c) (bump (h_version c) ?who b)) (hc_add cls c (hc_add cls v db)))"
    using pair_keeps_class [OF _ ex t vc(1,2) store_keeps_key] class_part ok
    by (simp add: fleet_ok_iff)
  then have cls: "class_ok cls (write_db cls [v, c] ?who db)" by (simp add: write_db_def ca)
  have "evidence_ok (hc_add cls v db)" using evidence_add Iv(2) ok by (simp add: fleet_ok_iff)
  then have ev: "evidence_ok (add_rows cls [v, c] db)" using evidence_add Ic(2) by simp
  have "[as_version a + 1..as_version a + 2] = [as_version a + 1, as_version a + 2]"
    by (simp add: upto_rec1)
  then have "fleet_ok (write_db cls [v, c] ?who db)"
    using write_keeps_fleet [OF ok a, of "[v, c]" ?who] cls ev R(5) vc by (simp add: R(2) ca)
  then show ?thesis by (simp add: R(2))
qed

lemma row_unique_id: "row_unique rows n \<Longrightarrow> h_id n \<notin> h_id ` set rows"
  by (auto simp: row_unique_def)

lemma row_unique_pair:
  "row_unique rows n \<Longrightarrow> h \<in> set rows \<Longrightarrow> h_role h = h_role n \<Longrightarrow> h_org h = h_org n
     \<Longrightarrow> h_role n \<noteq> NONE \<Longrightarrow> h_pair n \<noteq> None \<Longrightarrow> h_pair h \<noteq> h_pair n"
  by (simp add: row_unique_def)

lemma find_head_facts:
  assumes t: "table_ok initial rows" and h: "find_head rows org i r = Some hd'"
    and o: "find_row rows org i r = Some original" and n: "h_role original = NONE"
  shows "hd' \<in> set (effective rows)" "of_asset org i hd'" "root_of hd' = h_id original"
    "original \<in> set rows" "of_asset org i original" "h_id original = r"
proof -
  have hf: "hd' \<in> set (effective rows)" "of_asset org i hd'" "h_id hd' = r \<or> h_root hd' = Some r"
    using h by (auto simp: find_head_def dest: find_Some_in)
  have of: "original \<in> set rows" "of_asset org i original" "h_id original = r"
    using o by (auto simp: find_row_def dest: find_Some_in)
  then show "original \<in> set rows" "of_asset org i original" "h_id original = r" by simp_all
  show "hd' \<in> set (effective rows)" "of_asset org i hd'" using hf by simp_all
  have ids: "distinct (map h_id rows)" using t by (simp add: table_ok_def)
  have "root_of hd' = r" if "h_id hd' = r"
  proof -
    have "hd' = original" using id_inj [OF ids _ of(1)] hf(1) that of(3) by (auto simp: effective_def)
    moreover have "h_root original = None"
    proof -
      obtain gs where gs: "asset_rows org i rows = flat gs" "chain (initial org i) gs"
        using table_ok_asset [OF t] by metis
      have "original \<in> set (flat gs)" using of by (simp add: gs(1) [symmetric] set_asset_rows)
      then obtain g where g: "g \<in> set gs" "original \<in> set (flat_group g)" by (auto simp: flat_def)
      obtain s where "group_ok s g" using chain_group_ok [OF gs(2) g(1)] by blast
      then have "original = fst g \<or> member_ok (fst g) 0 (int (length (snd g))) original"
        using group_members(4) [of s "fst g" "snd g" original] g(2) by simp
      then show ?thesis using n \<open>group_ok s g\<close> by (auto simp: member_ok_def group_ok_def ordinary_def)
    qed
    ultimately show ?thesis using of(3) by (simp add: root_of_def)
  qed
  then show "root_of hd' = h_id original" using hf(3) of(3) by (auto simp: root_of_def)
qed

text \<open>What a successful correction has established about its two rows.\<close>

lemma correction_rows:
  assumes ok: "fleet_ok db"
    and c: "correction_sql cls x i r expected target reason corrected_at occurred ids evidence db = Inr (m, db')"
  obtains org actor a original hd' prior rv where
    "lock_asset x db i expected = Inr (org, actor, a)" "a \<in> set (assets db)" "as_org a = org" "as_id a = i"
    "find_head (hc_rows cls db) org i r = Some hd'" "find_row (hc_rows cls db) org i r = Some original"
    "h_role original = NONE" "h_version hd' = as_version a"
    "prior = (case latest_before org i (h_version original) (hc_rows cls db) of Some p \<Rightarrow> h_to p
              | None \<Rightarrow> hc_initial cls db org i)"
    "correction_pair original hd' prior rv m" "of_asset org i rv" "of_asset org i m"
    "h_version rv = as_version a + 1" "h_version m = as_version a + 2" "h_version m \<le> int4_max"
    "h_to m = target" "record_pair cls x rv m db = Inr (m, db')"
proof -
  obtain org actor a original hd' prior why tm pair rid cid g v2 where
    lock: "lock_asset x db i expected = Inr (org, actor, a)"
    and orig: "find_row (hc_rows cls db) org i r = Some original" "h_role original = NONE"
    and head: "find_head (hc_rows cls db) org i r = Some hd'" "h_version hd' = as_version a"
    and prior: "source_before cls db org i (h_version original) = Inr prior"
    and meta: "correction_metadata reason corrected_at ids = Inr (why, tm, pair, rid, cid)"
    and g: "int4_add (h_generation hd') 1 = Inr g" and v2: "int4_add (as_version a) 2 = Inr v2"
    and rp: "record_pair cls x (reversal_row x hd' a r actor why tm pair g rid)
       (corrected_row x hd' r actor why v2 tm pair g cid prior target evidence occurred) db = Inr (m, db')"
    using correction_sql_Inr [OF c] by blast
  let ?v = "reversal_row x hd' a r actor why tm pair g rid"
  let ?c = "corrected_row x hd' r actor why v2 tm pair g cid prior target evidence occurred"
  have a: "a \<in> set (assets db)" "as_org a = org" "as_id a = i"
    using lock by (auto simp: lock_asset_def rbind_Inr_iff ensure_Inr_iff split: option.splits dest: find_asset_in)
  have t: "table_ok (hc_initial cls db) (hc_rows cls db)"
    using class_part ok by (simp add: fleet_ok_iff class_ok_def)
  note F = find_head_facts [OF t head(1) orig]
  have why: "reason_ok why" "isfinite tm"
    using meta normalized_reason_ok
    by (auto simp: correction_metadata_def ensure_Inr_iff split: option.splits)
  have vv: "v2 = as_version a + 2" "v2 \<le> int4_max" "g = h_generation hd' + 1"
    using v2 g by (auto simp: int4_add_Inr_iff)
  have vc: "of_asset org i ?v" "of_asset org i ?c"
    using F(2) by (simp_all add: reversal_row_def corrected_row_def correction_row_def of_asset_def)
  have pr: "correction_pair original hd' prior ?v ?c"
    using F why vv head(2)
    by (simp add: correction_pair_def pair_ok_def reversal_row_def corrected_row_def correction_row_def
        correction_of_def same_pair_def cancels_def of_asset_def)
  have vs: "h_version ?v = as_version a + 1" "h_version ?c = as_version a + 2" "h_version ?c \<le> int4_max"
    "h_to ?c = target"
    using vv by (simp_all add: reversal_row_def corrected_row_def correction_row_def)
  have rv: "of_asset (h_org ?c) (h_asset ?c) ?v" using vc by (simp add: of_asset_def)
  have mc: "m = ?c" using record_pair_Inr(1) [OF rp rv] .
  show ?thesis
    by (rule that [unfolded mc, OF lock a head(1) orig head(2) source_before_fact [OF prior] pr vc vs
          rp [unfolded mc]])
qed

lemma correction_top:
  assumes ok: "fleet_ok db" and a: "a \<in> set (assets db)" "as_org a = org" "as_id a = i"
    and "h_version hd' = as_version a" "h \<in> set (hc_rows cls db)" "of_asset org i h"
  shows "h_version h \<le> h_version hd'"
proof -
  have "asset_ok db a" using ok a(1) by (simp add: fleet_ok_iff)
  from version_bound [OF this assms(6)] show ?thesis using assms(5,7) a by simp
qed

lemma correction_keeps_fleet:
  assumes ok: "fleet_ok db"
    and c: "correction_sql cls x i r expected target reason corrected_at occurred ids evidence db = Inr (m, db')"
  shows "fleet_ok db'"
proof -
  obtain org actor a original hd' prior v where
    a: "a \<in> set (assets db)" "as_org a = org" "as_id a = i"
    and head: "find_head (hc_rows cls db) org i r = Some hd'" and orig: "find_row (hc_rows cls db) org i r = Some original"
      "h_role original = NONE" "h_version hd' = as_version a"
    and prior: "prior = (case latest_before org i (h_version original) (hc_rows cls db) of Some p \<Rightarrow> h_to p
              | None \<Rightarrow> hc_initial cls db org i)"
    and pr: "correction_pair original hd' prior v m" and vc: "of_asset org i v" "of_asset org i m"
    and vs: "h_version v = as_version a + 1" "h_version m = as_version a + 2" "h_version m \<le> int4_max"
    and rp: "record_pair cls x v m db = Inr (m, db')"
    using correction_rows [OF ok c] by (metis (no_types, lifting))
  have t: "table_ok (hc_initial cls db) (hc_rows cls db)"
    using class_part ok by (simp add: fleet_ok_iff class_ok_def)
  note F = find_head_facts [OF t head orig(1,2)]
  have rv: "of_asset (h_org m) (h_asset m) v" using vc by (simp add: of_asset_def)
  note R = record_pair_Inr [OF rp rv]
  note uv = insert_history_Inr(5) [OF R(3)] and uc = insert_history_Inr(5) [OF R(4), unfolded rows_add]
  have roles: "h_role v = REVERSAL" "h_role m = CORRECTED" "h_pair m = h_pair v" "h_pair v \<noteq> None"
    using pr by (auto simp: correction_pair_def pair_ok_def same_pair_def)
  have "table_ok (hc_initial cls db) (hc_rows cls db @ [v, m])"
  proof (rule table_ok_append_pair [OF t F(4,5) orig(2) F(1-3) _ pr prior])
    show "h_version h \<le> h_version hd'" if "h \<in> set (hc_rows cls db)" "of_asset org i h" for h
      using correction_top [OF ok a orig(3) that] .
    show "h_id v \<notin> h_id ` set (hc_rows cls db)" by (rule row_unique_id [OF uv])
    show "h_id m \<notin> h_id ` set (hc_rows cls db)" "h_id v \<noteq> h_id m" using row_unique_id [OF uc] by auto
    show "h_pair h \<noteq> h_pair v" if h: "h \<in> set (corrections_in (hc_rows cls db))" "h_org h = org" for h
    proof -
      have "h_org v = org" "h_org m = org" using vc by (simp_all add: of_asset_def)
      moreover have "h \<in> set (hc_rows cls db)" "h_role h = REVERSAL \<or> h_role h = CORRECTED"
        using h(1) role_cases by (auto simp: corrections_in_def)
      ultimately show ?thesis using row_unique_pair uv uc h(2) roles
        by (metis (no_types, lifting) Un_iff set_append correction_role.distinct(1,3))
    qed
  qed
  then show ?thesis using pair_keeps_fleet [OF ok a(1) _ _ _ vs rp] vc a by simp
qed

text \<open>The corrected entry takes the place of the head it cancels; all other effective facts stand.\<close>

lemma correction_replaces:
  assumes ok: "fleet_ok db"
    and c: "correction_sql cls x i r expected target reason corrected_at occurred ids evidence db = Inr (m, db')"
  obtains org hd' v where "x_org x = Some org" "find_head (hc_rows cls db) org i r = Some hd'"
    "hc_rows cls db' = hc_rows cls db @ [v, m]" "of_asset org i v" "of_asset org i m"
    "h_role v = REVERSAL" "h_role m = CORRECTED" "cancels v hd'" "h_from m = h_from hd'" "h_to m = target"
    "filter (of_asset org i) (effective (hc_rows cls db)) \<noteq> []"
    "last (filter (of_asset org i) (effective (hc_rows cls db))) = hd'"
    "filter (of_asset org i) (effective (hc_rows cls db'))
       = butlast (filter (of_asset org i) (effective (hc_rows cls db))) @ [m]"
proof -
  obtain org actor a original hd' prior v where
    lock: "lock_asset x db i expected = Inr (org, actor, a)"
    and a: "a \<in> set (assets db)" "as_org a = org" "as_id a = i"
    and head: "find_head (hc_rows cls db) org i r = Some hd'" and orig: "find_row (hc_rows cls db) org i r = Some original"
      "h_role original = NONE" "h_version hd' = as_version a"
    and prior: "prior = (case latest_before org i (h_version original) (hc_rows cls db) of Some p \<Rightarrow> h_to p
              | None \<Rightarrow> hc_initial cls db org i)"
    and pr: "correction_pair original hd' prior v m" and vc: "of_asset org i v" "of_asset org i m"
    and to: "h_to m = target" and rp: "record_pair cls x v m db = Inr (m, db')"
    using correction_rows [OF ok c] by (metis (no_types, lifting))
  have org: "x_org x = Some org"
    using lock by (auto simp: lock_asset_def rbind_Inr_iff ensure_Inr_iff split: option.splits)
  have t: "table_ok (hc_initial cls db) (hc_rows cls db)"
    using class_part ok by (simp add: fleet_ok_iff class_ok_def)
  note F = find_head_facts [OF t head orig(1,2)]
  obtain xs ps where E: "asset_rows org i (hc_rows cls db) = flat (xs @ [(original, ps)])" "hd' = final original ps"
    "prior = last_fact (hc_initial cls db org i) xs" "chain (hc_initial cls db org i) (xs @ [(original, ps)])"
    "chain (hc_initial cls db org i) (xs @ [(original, ps @ [(v, m)])])" "distinct (roots (xs @ [(original, ps)]))"
    using extend_last_group [OF t F(4,5) orig(2) F(1-3) correction_top [OF ok a orig(3)] pr prior]
    by (metis (no_types, lifting))
  have rv: "of_asset (h_org m) (h_asset m) v" using vc by (simp add: of_asset_def)
  have rows: "hc_rows cls db' = hc_rows cls db @ [v, m]"
    by (simp add: record_pair_Inr(2) [OF rp rv] write_db_def rows_set rows_add)
  have o: "\<forall>h \<in> set (flat (xs @ [(original, ps)])). of_asset org i h"
    using set_asset_rows [of _ org i "hc_rows cls db"] by (simp add: E(1))
  have before: "filter (of_asset org i) (effective (hc_rows cls db)) = heads xs @ [hd']"
    using effective_of_asset [OF E(1,4,6) o] E(2) by simp
  have flat': "asset_rows org i (hc_rows cls db') = flat (xs @ [(original, ps @ [(v, m)])])"
    using E(1) vc by (simp add: rows) (simp add: asset_rows_def)
  have "distinct (roots (xs @ [(original, ps @ [(v, m)])]))" using E(6) by (simp add: roots_def)
  moreover have "\<forall>h \<in> set (flat (xs @ [(original, ps @ [(v, m)])])). of_asset org i h" using o vc by auto
  ultimately have after: "filter (of_asset org i) (effective (hc_rows cls db')) = heads xs @ [m]"
    using effective_of_asset [OF flat' E(5)] by simp
  have p: "h_role v = REVERSAL" "h_role m = CORRECTED" "cancels v hd'" "h_from m = prior"
    using pr by (simp_all add: correction_pair_def pair_ok_def)
  have "h_from hd' = prior"
    using chain_connected [OF E(4), of "length xs"] E(2,3)
    by (cases xs rule: rev_cases) (auto simp: nth_append heads_def last_fact_def)
  then show ?thesis using that [OF org head rows vc p(1-3) _ to] p(4) before after by simp
qed

end


section \<open>The five classes of the code\<close>

lemma classes_okI:
  "class_ok transitions db \<Longrightarrow> class_ok movements db \<Longrightarrow> class_ok custody db \<Longrightarrow> class_ok ownership db
     \<Longrightarrow> class_ok assignments db \<Longrightarrow> classes_ok db"
  by (simp add: classes_ok_def)

lemma classes_okD:
  assumes "classes_ok db"
  shows "class_ok transitions db" "class_ok movements db" "class_ok custody db"
    "class_ok ownership db" "class_ok assignments db"
  using assms by (simp_all add: classes_ok_def)

lemmas versions_defs = raw_versions_def class_versions_def class_defs asset_rows_def

lemma evidence_ok_add:
  assumes "evidence_ok db" "guard_transition_evidence db n = Inr ()"
  shows "evidence_ok (asset_transitions_update (\<lambda>hs. hs @ [n]) db)"
proof -
  let ?db = "asset_transitions_update (\<lambda>hs. hs @ [n]) db"
  have "valid_asset_evidence ?db = valid_asset_evidence db" by (rule valid_asset_evidence_cong) simp_all
  then show ?thesis
    using assms
    by (auto simp: evidence_ok_def evidence_supported_def guard_transition_evidence_def ensure_Inr_iff)
qed

lemma evidence_ok_cong:
  assumes "attachments db' = attachments db" "attachment_links db' = attachment_links db"
    "actors db' = actors db" "asset_transitions db' = asset_transitions db"
  shows "evidence_ok db' = evidence_ok db"
  using valid_asset_evidence_cong [OF assms(1-3)] assms(4)
  by (simp add: evidence_ok_def evidence_supported_def)

interpretation transition_fleet: fleet_class transitions
proof unfold_locales
  show "as_version (hc_store transitions e f b) = as_version b" for e f b by (simp add: transitions_def)
  show "class_ok transitions db" if "classes_ok db" for db using classes_okD(1) that .
  show "classes_ok (write_db transitions ns who db)"
    if "classes_ok db" "class_ok transitions (write_db transitions ns who db)" for db ns who
    by (rule classes_okI;
        (rule that(2) | (rule transition.untouched_write, rule untouched_classes, rule classes_okD [OF that(1)])))
  show "mset (raw_versions (hc_add transitions n db) org a) =
      mset (raw_versions db org a) + (if of_asset org a n then {#h_version n#} else {#})" for n db org a
    by (simp add: versions_defs)
  show "set (class_versions transitions db org a) \<subseteq> set (raw_versions db org a)" for db org a
    by (auto simp: raw_versions_def)
  show "initial_facts (hc_add transitions n db) = initial_facts db"
    "initial_assignment (hc_add transitions n db) = initial_assignment db" for n db
    by (auto simp: transitions_def initial_facts_def initial_assignment_def intro!: ext)
  show "evidence_ok (hc_add transitions n db)"
    if "evidence_ok db" "hc_before transitions db n = Inr ()" for db n
    using evidence_ok_add that by (simp add: transitions_def)
qed

interpretation movement_fleet: fleet_class movements
proof unfold_locales
  show "as_version (hc_store movements e f b) = as_version b" for e f b by (simp add: movements_def)
  show "class_ok movements db" if "classes_ok db" for db using classes_okD(2) that .
  show "classes_ok (write_db movements ns who db)"
    if "classes_ok db" "class_ok movements (write_db movements ns who db)" for db ns who
    by (rule classes_okI;
        (rule that(2) | (rule movement.untouched_write, rule untouched_classes, rule classes_okD [OF that(1)])))
  show "mset (raw_versions (hc_add movements n db) org a) =
      mset (raw_versions db org a) + (if of_asset org a n then {#h_version n#} else {#})" for n db org a
    by (simp add: versions_defs)
  show "set (class_versions movements db org a) \<subseteq> set (raw_versions db org a)" for db org a
    by (auto simp: raw_versions_def)
  show "initial_facts (hc_add movements n db) = initial_facts db"
    "initial_assignment (hc_add movements n db) = initial_assignment db" for n db
    by (auto simp: movements_def initial_facts_def initial_assignment_def intro!: ext)
  show "evidence_ok (hc_add movements n db)" if "evidence_ok db" for db n
    using that evidence_ok_cong [of "hc_add movements n db" db] by (simp add: movements_def)
qed

interpretation custodian_fleet: fleet_class custody
proof unfold_locales
  show "as_version (hc_store custody e f b) = as_version b" for e f b by (simp add: custody_def)
  show "class_ok custody db" if "classes_ok db" for db using classes_okD(3) that .
  show "classes_ok (write_db custody ns who db)"
    if "classes_ok db" "class_ok custody (write_db custody ns who db)" for db ns who
    by (rule classes_okI;
        (rule that(2) | (rule custodian.untouched_write, rule untouched_classes, rule classes_okD [OF that(1)])))
  show "mset (raw_versions (hc_add custody n db) org a) =
      mset (raw_versions db org a) + (if of_asset org a n then {#h_version n#} else {#})" for n db org a
    by (simp add: versions_defs)
  show "set (class_versions custody db org a) \<subseteq> set (raw_versions db org a)" for db org a
    by (auto simp: raw_versions_def)
  show "initial_facts (hc_add custody n db) = initial_facts db"
    "initial_assignment (hc_add custody n db) = initial_assignment db" for n db
    by (auto simp: custody_def initial_facts_def initial_assignment_def intro!: ext)
  show "evidence_ok (hc_add custody n db)" if "evidence_ok db" for db n
    using that evidence_ok_cong [of "hc_add custody n db" db] by (simp add: custody_def)
qed

interpretation owner_fleet: fleet_class ownership
proof unfold_locales
  show "as_version (hc_store ownership e f b) = as_version b" for e f b by (simp add: ownership_def)
  show "class_ok ownership db" if "classes_ok db" for db using classes_okD(4) that .
  show "classes_ok (write_db ownership ns who db)"
    if "classes_ok db" "class_ok ownership (write_db ownership ns who db)" for db ns who
    by (rule classes_okI;
        (rule that(2) | (rule owner.untouched_write, rule untouched_classes, rule classes_okD [OF that(1)])))
  show "mset (raw_versions (hc_add ownership n db) org a) =
      mset (raw_versions db org a) + (if of_asset org a n then {#h_version n#} else {#})" for n db org a
    by (simp add: versions_defs)
  show "set (class_versions ownership db org a) \<subseteq> set (raw_versions db org a)" for db org a
    by (auto simp: raw_versions_def)
  show "initial_facts (hc_add ownership n db) = initial_facts db"
    "initial_assignment (hc_add ownership n db) = initial_assignment db" for n db
    by (auto simp: ownership_def initial_facts_def initial_assignment_def intro!: ext)
  show "evidence_ok (hc_add ownership n db)" if "evidence_ok db" for db n
    using that evidence_ok_cong [of "hc_add ownership n db" db] by (simp add: ownership_def)
qed

interpretation assignment_fleet: fleet_class assignments
proof unfold_locales
  show "as_version (hc_store assignments e f b) = as_version b" for e f b by (simp add: assignments_def)
  show "class_ok assignments db" if "classes_ok db" for db using classes_okD(5) that .
  show "classes_ok (write_db assignments ns who db)"
    if "classes_ok db" "class_ok assignments (write_db assignments ns who db)" for db ns who
    by (rule classes_okI;
        (rule that(2) | (rule assignment.untouched_write, rule untouched_classes, rule classes_okD [OF that(1)])))
  show "mset (raw_versions (hc_add assignments n db) org a) =
      mset (raw_versions db org a) + (if of_asset org a n then {#h_version n#} else {#})" for n db org a
    by (simp add: versions_defs)
  show "set (class_versions assignments db org a) \<subseteq> set (raw_versions db org a)" for db org a
    by (auto simp: raw_versions_def)
  show "initial_facts (hc_add assignments n db) = initial_facts db"
    "initial_assignment (hc_add assignments n db) = initial_assignment db" for n db
    by (auto simp: assignments_def initial_facts_def initial_assignment_def intro!: ext)
  show "evidence_ok (hc_add assignments n db)" if "evidence_ok db" for db n
    using that evidence_ok_cong [of "hc_add assignments n db" db] by (simp add: assignments_def)
qed

end
