(* ===== verification/FleetRun.thy ===== *)
theory FleetRun
  imports FleetSteps
begin

text \<open>
  The fleet as a transition system.  A step is one successful operation on the Asset tables, or a
  change elsewhere in the database (\<open>frame\<close>), or an edit of an Asset's description; a failed
  operation is no step, since its transaction rolls back.  \<open>fleet_ok\<close> holds in every reachable
  fleet.
\<close>

section \<open>Steps\<close>

text \<open>Everything the Asset invariant reads is unchanged, except that evidence and Actors may grow.\<close>

definition frame :: "fleet \<Rightarrow> fleet \<Rightarrow> bool" where
  "frame db db' \<longleftrightarrow> assets db' = assets db \<and> asset_initial_facts db' = asset_initial_facts db
     \<and> asset_initial_assignment_facts db' = asset_initial_assignment_facts db
     \<and> asset_transitions db' = asset_transitions db \<and> asset_movements db' = asset_movements db
     \<and> asset_custody_changes db' = asset_custody_changes db
     \<and> asset_ownership_changes db' = asset_ownership_changes db
     \<and> asset_assignment_events db' = asset_assignment_events db \<and> evidence_grows db db'"

text \<open>A descriptive edit keeps identity, projections and version.\<close>

definition describes :: "(asset_row \<Rightarrow> asset_row) \<Rightarrow> bool" where
  "describes w \<longleftrightarrow> (\<forall>a. as_id (w a) = as_id a \<and> as_org (w a) = as_org a
     \<and> as_owner (w a) = as_owner a \<and> as_custodian (w a) = as_custodian a
     \<and> as_location (w a) = as_location a \<and> as_assignment (w a) = as_assignment a
     \<and> as_state (w a) = as_state a \<and> as_version (w a) = as_version a)"

text \<open>
  \<open>asset_step x i v db db'\<close>: one of the eleven privileged operations succeeds on the Asset \<open>i\<close>,
  whose version its caller observed as \<open>v\<close>.
\<close>

inductive asset_step :: "ctx \<Rightarrow> uuid \<Rightarrow> int option \<Rightarrow> fleet \<Rightarrow> fleet \<Rightarrow> bool" for x :: ctx and i :: uuid
where
  transition: "transition_asset x i v f t why occ ev op tid db = Inr (h, db') \<Longrightarrow> asset_step x i v db db'"
| move: "move_asset x i v r why occ op hid db = Inr (g, db') \<Longrightarrow> asset_step x i v db db'"
| change_custody: "change_custody x i v r why occ op hid db = Inr (g, db') \<Longrightarrow> asset_step x i v db db'"
| change_ownership: "change_ownership x i v r why occ op hid db = Inr (g, db') \<Longrightarrow> asset_step x i v db db'"
| assign: "assign_asset x i v e why occ op hid db = Inr (k, db') \<Longrightarrow> asset_step x i v db db'"
| unassign: "unassign_asset x i v why occ op hid db = Inr (k, db') \<Longrightarrow> asset_step x i v db db'"
| correct_transition:
    "correct_transition x i r v t w c o' ids ev db = Inr (h, db') \<Longrightarrow> asset_step x i v db db'"
| correct_movement: "correct_movement x i r v p w c o' ids db = Inr (g, db') \<Longrightarrow> asset_step x i v db db'"
| correct_custody: "correct_custody x i r v p w c o' ids db = Inr (g, db') \<Longrightarrow> asset_step x i v db db'"
| correct_ownership: "correct_ownership x i r v p w c o' ids db = Inr (g, db') \<Longrightarrow> asset_step x i v db db'"
| correct_assignment: "correct_assignment x i r v e w c o' ids db = Inr (k, db') \<Longrightarrow> asset_step x i v db db'"

inductive_cases asset_stepE: "asset_step x i v db db'"

inductive fleet_step :: "ctx \<Rightarrow> fleet \<Rightarrow> fleet \<Rightarrow> bool" for x :: ctx where
  operate: "asset_step x i v db db' \<Longrightarrow> fleet_step x db db'"
| create: "create_unit_facts x a rec tid d db = Inr db' \<Longrightarrow> fleet_step x db db'"
| describe: "describes w \<Longrightarrow> db' = db\<lparr>assets := map w (assets db)\<rparr> \<Longrightarrow> fleet_step x db db'"
| elsewhere: "frame db db' \<Longrightarrow> fleet_step x db db'"

inductive_cases fleet_stepE: "fleet_step x db db'"

definition no_assets :: "fleet \<Rightarrow> bool" where
  "no_assets db \<longleftrightarrow> assets db = [] \<and> asset_initial_facts db = []
     \<and> asset_initial_assignment_facts db = [] \<and> asset_transitions db = [] \<and> asset_movements db = []
     \<and> asset_custody_changes db = [] \<and> asset_ownership_changes db = []
     \<and> asset_assignment_events db = []"

inductive reachable :: "fleet \<Rightarrow> bool" where
  start: "no_assets db \<Longrightarrow> reachable db"
| run: "reachable db \<Longrightarrow> fleet_step x db db' \<Longrightarrow> reachable db'"

section \<open>Ordinary operations\<close>

lemma lock_asset_Inr:
  assumes "lock_asset x db i v = Inr (org, actor, a)"
  shows "x_org x = Some org" "current_authenticated_actor x db = Inr actor" "a \<in> set (assets db)"
    "as_org a = org" "as_id a = i" "v = Some (as_version a)" "find_asset db org i = Some a"
  using assms
  by (auto simp: lock_asset_def rbind_Inr_iff ensure_Inr_iff split: option.splits dest: find_asset_in)

lemma event_row_simps [simp]:
  "ordinary (event_row x org a v f t why actor occ ev op i)"
  "h_version (event_row x org a v f t why actor occ ev op i) = v"
  "h_from (event_row x org a v f t why actor occ ev op i) = f"
  "h_to (event_row x org a v f t why actor occ ev op i) = t"
  "h_org (event_row x org a v f t why actor occ ev op i) = org"
  "h_asset (event_row x org a v f t why actor occ ev op i) = a"
  "h_id (event_row x org a v f t why actor occ ev op i) = i"
  "h_actor (event_row x org a v f t why actor occ ev op i) = actor"
  "h_role (event_row x org a v f t why actor occ ev op i) = NONE"
  by (simp_all add: event_row_def ordinary_def)

lemma transition_asset_Inr:
  assumes "transition_asset x i v f t why occ ev op tid db = Inr (h, db')"
  obtains org actor a latest where "lock_asset x db i v = Inr (org, actor, a)"
    "latest_effective org i (asset_transitions db) = Some latest" "h_to latest = f" "as_state a = f"
    "as_version a + 1 \<le> int4_max"
    "record_event transitions x
       (event_row x org i (as_version a + 1) f t why actor occ ev op tid) db = Inr (h, db')"
  using assms unfolding transition_asset_def rbind_Inr_iff ensure_Inr_iff split_paired_Ex prod.case
  by (auto simp: rbind_Inr_iff ensure_Inr_iff int4_add_Inr_iff split: option.splits)

lemma transition_asset_keeps:
  assumes ok: "fleet_ok db" and t: "transition_asset x i v f t why occ ev op tid db = Inr (h, db')"
  shows "fleet_ok db'"
proof -
  obtain org actor a latest where T: "lock_asset x db i v = Inr (org, actor, a)"
    "latest_effective org i (asset_transitions db) = Some latest" "h_to latest = f"
    "as_version a + 1 \<le> int4_max"
    "record_event transitions x
       (event_row x org i (as_version a + 1) f t why actor occ ev op tid) db = Inr (h, db')"
    using transition_asset_Inr [OF t] by metis
  note L = lock_asset_Inr [OF T(1)]
  show ?thesis
  proof (rule transition_fleet.event_keeps_fleet [OF ok L(3) _ _ _ _ _ T(5)])
    show "h_from (event_row x org i (as_version a + 1) f t why actor occ ev op tid) =
        prior_fact (hc_initial transitions db) (as_org a) (as_id a) (hc_rows transitions db)"
      using T(2,3) by (simp add: prior_fact_def L transitions_def)
  qed (use T(4) in \<open>simp_all add: of_asset_def L\<close>)
qed

lemma operation_sql_Inr:
  assumes "operation_sql cls req ex x i v r why occ op hid db = Inr (g, db')"
  obtains org actor a e prior where "lock_asset x db i v = Inr (org, actor, a)"
    "prior_event cls db a = Inr (e, prior)" "hc_agrees cls a e prior" "req \<longrightarrow> r \<noteq> None"
    "holds_if (ex db org) r" "as_version a + 1 \<le> int4_max"
    "record_event cls x
       (event_row x org i (as_version a + 1) prior r why actor occ None op hid) db = Inr (g, db')"
  using assms unfolding operation_sql_def rbind_Inr_iff ensure_Inr_iff split_paired_Ex prod.case
    target_check_def
  by (auto simp: int4_add_Inr_iff)

lemma assignment_sql_Inr:
  assumes "assignment_sql asg x i v r why occ op hid db = Inr (g, db')"
  obtains org actor a e prior where "lock_asset x db i v = Inr (org, actor, a)"
    "prior_event assignments db a = Inr (e, prior)" "hc_agrees assignments a e prior"
    "if asg then fst r \<noteq> None \<and> snd r \<noteq> None else snd prior \<noteq> None"
    "endpoint_exists db org r" "as_version a + 1 \<le> int4_max"
    "record_event assignments x
       (event_row x org i (as_version a + 1) prior r why actor occ None op hid) db = Inr (g, db')"
  using assms unfolding assignment_sql_def rbind_Inr_iff ensure_Inr_iff split_paired_Ex prod.case
  by (auto simp: int4_add_Inr_iff)

context fleet_class
begin

lemma derived_event_keeps:
  assumes ok: "fleet_ok db" and l: "lock_asset x db i v = Inr (org, actor, a)"
    and p: "prior_event cls db a = Inr (e, prior)" and m: "as_version a + 1 \<le> int4_max"
    and r: "record_event cls x
       (event_row x org i (as_version a + 1) prior t why actor occ ev op hid) db = Inr (g, db')"
  shows "fleet_ok db'"
proof -
  note L = lock_asset_Inr [OF l]
  show ?thesis
  proof (rule event_keeps_fleet [OF ok L(3) _ _ _ _ _ r])
    show "h_from (event_row x org i (as_version a + 1) prior t why actor occ ev op hid) =
        prior_fact (hc_initial cls db) (as_org a) (as_id a) (hc_rows cls db)"
      using prior_event_fact [OF p] by simp
  qed (use m in \<open>simp_all add: of_asset_def L\<close>)
qed

end

lemma move_asset_keeps: "fleet_ok db \<Longrightarrow> move_asset x i v r why occ op hid db = Inr (g, db') \<Longrightarrow> fleet_ok db'"
  unfolding move_asset_def by (erule operation_sql_Inr) (rule movement_fleet.derived_event_keeps)

lemma change_custody_keeps:
  "fleet_ok db \<Longrightarrow> change_custody x i v r why occ op hid db = Inr (g, db') \<Longrightarrow> fleet_ok db'"
  unfolding change_custody_def by (erule operation_sql_Inr) (rule custodian_fleet.derived_event_keeps)

lemma change_ownership_keeps:
  "fleet_ok db \<Longrightarrow> change_ownership x i v r why occ op hid db = Inr (g, db') \<Longrightarrow> fleet_ok db'"
  unfolding change_ownership_def by (erule operation_sql_Inr) (rule owner_fleet.derived_event_keeps)

lemma assignment_sql_keeps:
  "fleet_ok db \<Longrightarrow> assignment_sql asg x i v r why occ op hid db = Inr (g, db') \<Longrightarrow> fleet_ok db'"
  by (erule assignment_sql_Inr) (rule assignment_fleet.derived_event_keeps)

section \<open>Edits and changes elsewhere\<close>

lemma describes_agrees:
  assumes "describes w"
  shows "hc_agrees transitions (w a) = hc_agrees transitions a"
    "hc_agrees movements (w a) = hc_agrees movements a" "hc_agrees custody (w a) = hc_agrees custody a"
    "hc_agrees ownership (w a) = hc_agrees ownership a"
    "hc_agrees assignments (w a) = hc_agrees assignments a"
  using assms by (auto simp: class_defs describes_def intro!: ext)

lemma describe_keeps:
  assumes ok: "fleet_ok db" and w: "describes w"
  shows "fleet_ok (db\<lparr>assets := map w (assets db)\<rparr>)"
proof -
  let ?db = "db\<lparr>assets := map w (assets db)\<rparr>"
  have key: "keeps_key w" using w by (simp add: describes_def keeps_key_def)
  have init: "initial_facts ?db = initial_facts db" "initial_assignment ?db = initial_assignment db"
    by (auto simp: initial_facts_def initial_assignment_def intro!: ext)
  have cls: "class_ok transitions db" "class_ok movements db" "class_ok custody db"
    "class_ok ownership db" "class_ok assignments db" using ok by (simp_all add: fleet_ok_def)
  have "class_ok transitions ?db"
    by (rule class_ok_frame [OF cls(1) _ _ _ key describes_agrees(1) [OF w]]) (simp_all add: transitions_def)
  moreover have "class_ok movements ?db"
    by (rule class_ok_frame [OF cls(2) _ _ _ key describes_agrees(2) [OF w]])
      (auto simp: movements_def ref_initial_def init intro!: ext)
  moreover have "class_ok custody ?db"
    by (rule class_ok_frame [OF cls(3) _ _ _ key describes_agrees(3) [OF w]])
      (auto simp: custody_def ref_initial_def init intro!: ext)
  moreover have "class_ok ownership ?db"
    by (rule class_ok_frame [OF cls(4) _ _ _ key describes_agrees(4) [OF w]])
      (auto simp: ownership_def ref_initial_def init intro!: ext)
  moreover have "class_ok assignments ?db"
    by (rule class_ok_frame [OF cls(5) _ _ _ key describes_agrees(5) [OF w]]) (simp_all add: assignments_def)
  moreover have "raw_versions ?db = raw_versions db"
    by (intro ext) (simp add: versions_defs)
  then have "asset_ok ?db (w a)" if "a \<in> set (assets db)" for a
    using ok w that by (simp add: fleet_ok_def asset_ok_def describes_def init)
  moreover have "evidence_ok ?db" using ok evidence_ok_cong [of ?db db] by (simp add: fleet_ok_def)
  moreover have "distinct (map as_id (assets ?db))"
    using ok w by (simp add: fleet_ok_def describes_def comp_def)
  ultimately show ?thesis by (simp add: fleet_ok_def)
qed

lemma evidence_supported_mono:
  "evidence_grows db db' \<Longrightarrow> evidence_supported db org r a p \<Longrightarrow> evidence_supported db' org r a p"
  using valid_asset_evidence_mono by (auto simp: evidence_supported_def)

lemma frame_keeps:
  assumes ok: "fleet_ok db" and f: "frame db db'"
  shows "fleet_ok db'"
proof -
  have init: "initial_facts db' = initial_facts db" "initial_assignment db' = initial_assignment db"
    using f by (auto simp: frame_def initial_facts_def initial_assignment_def intro!: ext)
  have id: "keeps_key (\<lambda>a. a)" "assets db' = map (\<lambda>a. a) (assets db)"
    using f by (simp_all add: keeps_key_def frame_def)
  have cls: "class_ok transitions db" "class_ok movements db" "class_ok custody db"
    "class_ok ownership db" "class_ok assignments db" using ok by (simp_all add: fleet_ok_def)
  have "class_ok transitions db'"
    by (rule class_ok_frame [OF cls(1) _ _ id(2,1)]) (use f in \<open>simp_all add: transitions_def frame_def\<close>)
  moreover have "class_ok movements db'"
    by (rule class_ok_frame [OF cls(2) _ _ id(2,1)])
      (use f in \<open>auto simp: movements_def frame_def ref_initial_def init intro!: ext\<close>)
  moreover have "class_ok custody db'"
    by (rule class_ok_frame [OF cls(3) _ _ id(2,1)])
      (use f in \<open>auto simp: custody_def frame_def ref_initial_def init intro!: ext\<close>)
  moreover have "class_ok ownership db'"
    by (rule class_ok_frame [OF cls(4) _ _ id(2,1)])
      (use f in \<open>auto simp: ownership_def frame_def ref_initial_def init intro!: ext\<close>)
  moreover have "class_ok assignments db'"
    by (rule class_ok_frame [OF cls(5) _ _ id(2,1)]) (use f in \<open>simp_all add: assignments_def frame_def\<close>)
  moreover have "raw_versions db' = raw_versions db"
    using f by (intro ext) (simp add: versions_defs frame_def)
  then have "asset_ok db' a" if "a \<in> set (assets db)" for a
    using ok that by (simp add: fleet_ok_def asset_ok_def init)
  moreover have "evidence_ok db'"
    using ok f evidence_supported_mono by (auto simp: fleet_ok_def evidence_ok_def frame_def)
  ultimately show ?thesis using ok f by (simp add: fleet_ok_def frame_def)
qed

end
