(* ===== verification/FleetCreation.thy ===== *)
theory FleetCreation
  imports FleetRun
begin

text \<open>
  A new Asset joins the invariant: its identifier is fresh, so no history row mentions it, its
  baselines show what its row shows, and its first transition has version 1.  With the other
  operations this gives \<open>fleet_ok\<close> in every reachable fleet.
\<close>

section \<open>What creation writes\<close>

definition creation_row :: "ctx \<Rightarrow> asset_row \<Rightarrow> tstz \<Rightarrow> uuid \<Rightarrow> state_fact hrow" where
  "creation_row x a t tid =
     event_row x (as_org a) (as_id a) 1 None (Some RECEIVED) received_reason (as_created_by a) t None None tid"

definition creation_baseline :: "asset_row \<Rightarrow> tstz \<Rightarrow> initial_row" where
  "creation_baseline a t =
     \<lparr>b_asset = as_id a, b_org = as_org a, b_owner = as_owner a, b_custodian = as_custodian a,
      b_location = as_location a, b_actor = as_created_by a, b_occurred = t\<rparr>"

definition creation_witness :: "asset_row \<Rightarrow> tstz \<Rightarrow> witness_row" where
  "creation_witness a t =
     \<lparr>w_asset = as_id a, w_org = as_org a, w_actor = as_created_by a, w_occurred = t\<rparr>"

definition created_db :: "ctx \<Rightarrow> asset_row \<Rightarrow> tstz \<Rightarrow> uuid \<Rightarrow> identifier_row \<Rightarrow> fleet \<Rightarrow> fleet" where
  "created_db x a t tid d db =
     db\<lparr>assets := assets db @ [a],
        asset_transitions := asset_transitions db @ [creation_row x a t tid],
        asset_initial_facts := asset_initial_facts db @ [creation_baseline a t],
        asset_initial_assignment_facts := asset_initial_assignment_facts db @ [creation_witness a t],
        asset_identifiers := asset_identifiers db @ [d]\<rparr>"

lemma create_unit_facts_Inr:
  assumes "create_unit_facts x a t tid d db = Inr db'"
  shows "db' = created_db x a t tid d db"
    "as_version a = 1" "as_state a = Some RECEIVED" "as_owner a \<noteq> None" "asset_check a"
    "\<forall>b \<in> set (assets db). as_id b \<noteq> as_id a"
    "\<forall>b \<in> set (assets db). \<not> (as_org b = as_org a \<and> as_tag b = as_tag a)"
    "\<forall>b \<in> set (asset_initial_facts db). b_asset b \<noteq> as_id a"
    "\<forall>w \<in> set (asset_initial_assignment_facts db). w_asset w \<noteq> as_id a"
    "asset_refs (db\<lparr>assets := assets db @ [a]\<rparr>) a"
    "row_unique (asset_transitions db) (creation_row x a t tid)"
    "guard_transition_evidence (db\<lparr>assets := assets db @ [a]\<rparr>) (creation_row x a t tid) = Inr ()"
proof -
  let ?db1 = "db\<lparr>assets := assets db @ [a]\<rparr>"
  let ?db2 = "?db1\<lparr>asset_transitions := asset_transitions db @ [creation_row x a t tid]\<rparr>"
  let ?db3 = "?db2\<lparr>asset_initial_facts := asset_initial_facts db @ [creation_baseline a t]\<rparr>"
  let ?db4 = "?db3\<lparr>asset_initial_assignment_facts := asset_initial_assignment_facts db @ [creation_witness a t]\<rparr>"
  obtain db1 db2 db3 db4 where s: "insert_asset x a db = Inr db1"
    "insert_history transitions x (creation_row x a t tid) db1 = Inr db2"
    "insert_initial_facts x (creation_baseline a t) db2 = Inr db3"
    "insert_initial_assignment x (creation_witness a t) db3 = Inr db4"
    "insert_identifier x d db4 = Inr db'"
    using assms unfolding create_unit_facts_def creation_row_def creation_baseline_def creation_witness_def
    by (auto simp: rbind_Inr_iff)
  have A: "db1 = ?db1 \<and> as_version a = 1 \<and> as_state a = Some RECEIVED \<and> as_owner a \<noteq> None
      \<and> asset_check a \<and> (\<forall>b \<in> set (assets db). as_id b \<noteq> as_id a
      \<and> \<not> (as_org b = as_org a \<and> as_tag b = as_tag a)) \<and> asset_refs ?db1 a"
    using s(1) by (auto simp: insert_asset_def ensure_Inr_iff rbind_Inr_iff Let_def)
  note T = insert_history_Inr [OF s(2)]
  have db2: "db2 = ?db2" using T(1) A by (simp add: transitions_def)
  have B: "db3 = ?db3 \<and> (\<forall>b \<in> set (asset_initial_facts db). b_asset b \<noteq> as_id a)"
    using s(3) by (auto simp: insert_initial_facts_def ensure_Inr_iff rbind_Inr_iff creation_baseline_def db2)
  have W: "db4 = ?db4 \<and> (\<forall>w \<in> set (asset_initial_assignment_facts db). w_asset w \<noteq> as_id a)"
    using s(4) B by (auto simp: insert_initial_assignment_def ensure_Inr_iff rbind_Inr_iff creation_witness_def)
  show "db' = created_db x a t tid d db"
    using s(5) W by (auto simp: insert_identifier_def ensure_Inr_iff rbind_Inr_iff created_db_def)
  show "row_unique (asset_transitions db) (creation_row x a t tid)"
    "guard_transition_evidence ?db1 (creation_row x a t tid) = Inr ()"
    using T(5,2) A by (simp_all add: transitions_def)
  show "as_version a = 1" "as_state a = Some RECEIVED" "as_owner a \<noteq> None" "asset_check a"
    "asset_refs ?db1 a" using A by blast+
  show "\<forall>b \<in> set (assets db). as_id b \<noteq> as_id a"
    "\<forall>b \<in> set (assets db). \<not> (as_org b = as_org a \<and> as_tag b = as_tag a)" using A by blast+
  show "\<forall>b \<in> set (asset_initial_facts db). b_asset b \<noteq> as_id a"
    "\<forall>w \<in> set (asset_initial_assignment_facts db). w_asset w \<noteq> as_id a" using B W by blast+
qed

section \<open>Baselines and classes\<close>

lemma find_snoc: "List.find P (xs @ [y]) = (case List.find P xs of Some z \<Rightarrow> Some z | None \<Rightarrow> if P y then Some y else None)"
  by (induction xs) auto

lemma initial_facts_created:
  assumes "\<forall>b \<in> set (asset_initial_facts db). b_asset b \<noteq> as_id a"
  shows "initial_facts (created_db x a t tid d db) org i =
     (if org = as_org a \<and> i = as_id a then Some (creation_baseline a t) else initial_facts db org i)"
proof -
  have "List.find (\<lambda>b. b_org b = as_org a \<and> b_asset b = as_id a) (asset_initial_facts db) = None"
    using assms by (auto simp: find_None_iff)
  then show ?thesis
    by (auto simp: initial_facts_def created_db_def find_snoc creation_baseline_def split: option.splits)
qed

lemma initial_assignment_created:
  assumes "\<forall>w \<in> set (asset_initial_assignment_facts db). w_asset w \<noteq> as_id a"
  shows "initial_assignment (created_db x a t tid d db) org i =
     (if org = as_org a \<and> i = as_id a then Some (creation_witness a t) else initial_assignment db org i)"
proof -
  have "List.find (\<lambda>w. w_org w = as_org a \<and> w_asset w = as_id a) (asset_initial_assignment_facts db) = None"
    using assms by (auto simp: find_None_iff)
  then show ?thesis
    by (auto simp: initial_assignment_def created_db_def find_snoc creation_witness_def
        split: option.splits)
qed

lemma fresh_asset_rows:
  assumes "rows_owned cls db" "\<forall>b \<in> set (assets db). as_id b \<noteq> i"
  shows "asset_rows org i (hc_rows cls db) = []"
  using assms by (auto simp: rows_owned_def asset_rows_def asset_exists_def of_asset_def filter_empty_conv)

lemma owned_extend:
  "rows_owned cls db \<Longrightarrow> hc_rows cls db' = hc_rows cls db \<Longrightarrow> assets db' = assets db @ [a] \<Longrightarrow> rows_owned cls db'"
  by (auto simp: rows_owned_def asset_exists_def)

lemma class_ok_extend:
  assumes ok: "class_ok cls db" and rows: "hc_rows cls db' = hc_rows cls db"
    and assets: "assets db' = assets db @ [a]" and fresh: "\<forall>b \<in> set (assets db). as_id b \<noteq> as_id a"
    and init: "\<And>org i. i \<noteq> as_id a \<Longrightarrow> hc_initial cls db' org i = hc_initial cls db org i"
    and agrees: "hc_agrees cls a None (hc_initial cls db' (as_org a) (as_id a))"
  shows "class_ok cls db'"
proof -
  have own: "rows_owned cls db" and t: "table_ok (hc_initial cls db) (hc_rows cls db)"
    using ok by (simp_all add: class_ok_def)
  have none: "asset_rows org (as_id a) (hc_rows cls db) = []" for org
    by (rule fresh_asset_rows [OF own fresh])
  have "hc_initial cls db' org i = hc_initial cls db org i" if "asset_rows org i (hc_rows cls db) \<noteq> []" for org i
    using init none that by (cases "i = as_id a") simp_all
  then have "table_ok (hc_initial cls db') (hc_rows cls db')"
    using table_ok_initial_cong [OF t] by (simp add: rows)
  moreover have "projection_agrees cls db' b" if "b \<in> set (assets db)" for b
  proof -
    have "projection_agrees cls db b" "as_id b \<noteq> as_id a" using ok that fresh by (simp_all add: class_ok_def)
    then show ?thesis unfolding projection_agrees_def rows by (simp add: init cong: option.case_cong)
  qed
  moreover have "projection_agrees cls db' a"
    using agrees none latest_effective_last [OF t] by (simp add: projection_agrees_def rows)
  ultimately show ?thesis
    using owned_extend [OF own rows assets] by (simp add: class_ok_def assets)
qed

lemma transitions_created:
  assumes ok: "class_ok transitions db" and fresh: "\<forall>b \<in> set (assets db). as_id b \<noteq> as_id a"
    and u: "row_unique (asset_transitions db) (creation_row x a t tid)" and s: "as_state a = Some RECEIVED"
  shows "class_ok transitions (created_db x a t tid d db)"
proof -
  let ?n = "creation_row x a t tid" and ?db = "created_db x a t tid d db"
  have own: "rows_owned transitions db" and tab: "table_ok (\<lambda>_ _. None) (asset_transitions db)"
    using ok by (simp_all add: class_ok_def transitions_def)
  have n: "h_org ?n = as_org a" "h_asset ?n = as_id a" "ordinary ?n" "h_from ?n = None" "h_version ?n = 1"
    "h_to ?n = Some RECEIVED"
    by (simp_all add: creation_row_def)
  have none: "asset_rows org (as_id a) (asset_transitions db) = []" for org
    using fresh_asset_rows [OF own fresh] by (simp add: transitions_def)
  then have mine: "\<not> of_asset (as_org a) (as_id a) h" if "h \<in> set (asset_transitions db)" for h
    using that by (force simp: asset_rows_def filter_empty_conv)
  have tab': "table_ok (\<lambda>_ _. None) (asset_transitions db @ [?n])"
  proof (rule table_ok_append_ordinary [OF tab n(3)])
    show "h_id ?n \<notin> h_id ` set (asset_transitions db)" using u by (auto simp: row_unique_def)
    show "h_from ?n = prior_fact (\<lambda>_ _. None) (h_org ?n) (h_asset ?n) (asset_transitions db)"
      using latest_effective_last [OF tab] none by (simp add: prior_fact_def n)
    show "h_version h < h_version ?n" if "h \<in> set (asset_transitions db)" "of_asset (h_org ?n) (h_asset ?n) h" for h
      using mine that by (simp add: n)
  qed
  have rows: "hc_rows transitions ?db = asset_transitions db @ [?n]"
    and assets: "assets ?db = assets db @ [a]" by (simp_all add: transitions_def created_db_def)
  have ini: "hc_initial transitions ?db = (\<lambda>_ _. None)" by (auto simp: transitions_def)
  have "rows_owned transitions ?db"
    using own n(1,2) unfolding rows_owned_def rows by (auto simp: assets asset_exists_def) (auto simp: transitions_def)
  moreover have "projection_agrees transitions ?db b" if "b \<in> set (assets db)" for b
  proof -
    have "projection_agrees transitions db b" "as_id b \<noteq> as_id a"
      using ok that fresh by (simp_all add: class_ok_def)
    moreover have "\<not> of_asset (as_org b) (as_id b) ?n" using \<open>as_id b \<noteq> as_id a\<close> by (simp add: of_asset_def n)
    then have "latest_effective (as_org b) (as_id b) (asset_transitions db @ [?n])
        = latest_effective (as_org b) (as_id b) (asset_transitions db)"
      unfolding latest_effective_last [OF tab'] latest_effective_last [OF tab]
      by (simp only: asset_rows_other if_cancel simp_thms)
    moreover have "hc_rows transitions db = asset_transitions db" "hc_initial transitions db = (\<lambda>_ _. None)"
      by (simp_all add: transitions_def)
    ultimately show ?thesis unfolding projection_agrees_def rows ini by (simp cong: option.case_cong)
  qed
  moreover have "projection_agrees transitions ?db a"
  proof -
    have "asset_rows (as_org a) (as_id a) (asset_transitions db @ [?n]) = [?n]"
      using none by simp (simp add: asset_rows_def of_asset_def n)
    then have "latest_effective (as_org a) (as_id a) (asset_transitions db @ [?n]) = Some ?n"
      unfolding latest_effective_last [OF tab'] by (simp only: list.distinct if_False last.simps simp_thms if_True)
    then show ?thesis unfolding projection_agrees_def rows using s by (simp add: transitions_def n)
  qed
  ultimately show ?thesis using tab' by (simp add: class_ok_def rows ini assets)
qed

lemma versions_created:
  assumes ok: "fleet_ok db" and fresh: "\<forall>b \<in> set (assets db). as_id b \<noteq> as_id a"
  shows "raw_versions (created_db x a t tid d db) (as_org a) (as_id a) = [1]"
    "i \<noteq> as_id a \<Longrightarrow> raw_versions (created_db x a t tid d db) org i = raw_versions db org i"
proof -
  have "rows_owned transitions db" "rows_owned movements db" "rows_owned custody db"
    "rows_owned ownership db" "rows_owned assignments db"
    using ok by (simp_all add: fleet_ok_def class_ok_def)
  note none = this [THEN fresh_asset_rows, OF fresh, of "as_org a"]
  show "raw_versions (created_db x a t tid d db) (as_org a) (as_id a) = [1]"
    using none
    by (simp add: raw_versions_def class_versions_def class_defs created_db_def creation_row_def)
      (simp add: asset_rows_def of_asset_def)
  show "raw_versions (created_db x a t tid d db) org i = raw_versions db org i" if "i \<noteq> as_id a"
    using that
    by (simp add: raw_versions_def class_versions_def class_defs created_db_def creation_row_def)
      (simp add: asset_rows_def of_asset_def)
qed

lemma create_unit_facts_keeps:
  assumes ok: "fleet_ok db" and c: "create_unit_facts x a t tid d db = Inr db'"
  shows "fleet_ok db'"
proof -
  note C = create_unit_facts_Inr [OF c]
  let ?db = "created_db x a t tid d db"
  note fresh = C(6)
  have rows: "hc_rows movements ?db = hc_rows movements db" "hc_rows custody ?db = hc_rows custody db"
    "hc_rows ownership ?db = hc_rows ownership db" "hc_rows assignments ?db = hc_rows assignments db"
    and assets: "assets ?db = assets db @ [a]"
    by (simp_all add: class_defs created_db_def)
  have cls: "class_ok transitions db" "class_ok movements db" "class_ok custody db"
    "class_ok ownership db" "class_ok assignments db" using ok by (simp_all add: fleet_ok_def)
  have unassigned: "as_assignment a = None"
    using C(10) fresh_asset_rows [OF _ fresh, of assignments "as_org a"] cls(5)
    by (cases "as_assignment a")
      (auto simp: asset_refs_def holds_if_def class_ok_def asset_rows_def filter_empty_conv class_defs)
  have "class_ok transitions ?db" by (rule transitions_created [OF cls(1) fresh C(11,3)])
  moreover have "class_ok movements ?db"
    by (rule class_ok_extend [OF cls(2) rows(1) assets fresh])
      (auto simp: movements_def ref_initial_def initial_facts_created [OF C(8)] creation_baseline_def)
  moreover have "class_ok custody ?db"
    by (rule class_ok_extend [OF cls(3) rows(2) assets fresh])
      (auto simp: custody_def ref_initial_def initial_facts_created [OF C(8)] creation_baseline_def)
  moreover have "class_ok ownership ?db"
    by (rule class_ok_extend [OF cls(4) rows(3) assets fresh])
      (auto simp: ownership_def ref_initial_def initial_facts_created [OF C(8)] creation_baseline_def)
  moreover have "class_ok assignments ?db"
    by (rule class_ok_extend [OF cls(5) rows(4) assets fresh])
      (auto simp: assignments_def shown_event_def unassigned)
  moreover have "asset_ok ?db a"
    using C(2-4) versions_created(1) [OF ok fresh]
    by (simp add: asset_ok_def initial_facts_created [OF C(8)] initial_assignment_created [OF C(9)] int4_max_def)
  moreover have "asset_ok ?db b" if "b \<in> set (assets db)" for b
    using ok that fresh versions_created(2) [OF ok fresh]
    by (simp add: fleet_ok_def asset_ok_def initial_facts_created [OF C(8)] initial_assignment_created [OF C(9)])
  moreover have "evidence_ok ?db"
  proof -
    let ?db1 = "db\<lparr>assets := assets db @ [a]\<rparr>"
    have "evidence_ok ?db1" using ok evidence_ok_cong [of ?db1 db] by (simp add: fleet_ok_def)
    then have "evidence_ok (asset_transitions_update (\<lambda>hs. hs @ [creation_row x a t tid]) ?db1)"
      using evidence_ok_add C(12) by simp
    moreover have "evidence_ok ?db
        = evidence_ok (asset_transitions_update (\<lambda>hs. hs @ [creation_row x a t tid]) ?db1)"
      by (rule evidence_ok_cong) (simp_all add: created_db_def)
    ultimately show ?thesis by simp
  qed
  moreover have "distinct (map as_id (assets ?db))" using ok fresh by (auto simp: fleet_ok_def assets)
  ultimately show ?thesis by (simp add: fleet_ok_def assets C(1))
qed

section \<open>Every reachable fleet\<close>

lemma correction_keeps:
  assumes "fleet_ok db"
  shows "correct_transition x i r v t w c o' ids ev db = Inr (h, db') \<Longrightarrow> fleet_ok db'"
    "correct_movement x i r v p w c o' ids db = Inr (g, db') \<Longrightarrow> fleet_ok db'"
    "correct_custody x i r v p w c o' ids db = Inr (g, db') \<Longrightarrow> fleet_ok db'"
    "correct_ownership x i r v p w c o' ids db = Inr (g, db') \<Longrightarrow> fleet_ok db'"
    "correct_assignment x i r v e w c o' ids db = Inr (k, db') \<Longrightarrow> fleet_ok db'"
  unfolding correct_transition_def correct_movement_def correct_custody_def correct_ownership_def
    correct_assignment_def
  by (erule transition_fleet.correction_keeps_fleet [OF assms] movement_fleet.correction_keeps_fleet [OF assms]
      custodian_fleet.correction_keeps_fleet [OF assms] owner_fleet.correction_keeps_fleet [OF assms]
      assignment_fleet.correction_keeps_fleet [OF assms])+

lemma assignment_keeps:
  assumes "fleet_ok db"
  shows "assign_asset x i v e why occ op hid db = Inr (k, db') \<Longrightarrow> fleet_ok db'"
    "unassign_asset x i v why occ op hid db = Inr (k, db') \<Longrightarrow> fleet_ok db'"
  unfolding assign_asset_def unassign_asset_def by (erule assignment_sql_keeps [OF assms])+

lemma asset_step_keeps:
  assumes "asset_step x i v db db'" "fleet_ok db"
  shows "fleet_ok db'"
  using assms(1)
proof (cases rule: asset_step.cases)
  case transition then show ?thesis by (rule transition_asset_keeps [OF assms(2)])
next
  case move then show ?thesis by (rule move_asset_keeps [OF assms(2)])
next
  case change_custody then show ?thesis by (rule change_custody_keeps [OF assms(2)])
next
  case change_ownership then show ?thesis by (rule change_ownership_keeps [OF assms(2)])
next
  case assign then show ?thesis by (rule assignment_keeps [OF assms(2)])
next
  case unassign then show ?thesis by (rule assignment_keeps [OF assms(2)])
qed (rule correction_keeps [OF assms(2)], assumption)+

lemma fleet_step_keeps:
  assumes "fleet_step x db db'" "fleet_ok db"
  shows "fleet_ok db'"
  using assms(1)
proof (cases rule: fleet_step.cases)
  case operate then show ?thesis by (rule asset_step_keeps [OF _ assms(2)])
next
  case create then show ?thesis by (rule create_unit_facts_keeps [OF assms(2)])
next
  case (describe w) then show ?thesis using describe_keeps [OF assms(2)] by simp
next
  case elsewhere then show ?thesis by (rule frame_keeps [OF assms(2)])
qed

lemma no_assets_ok: "no_assets db \<Longrightarrow> fleet_ok db"
  by (auto simp: no_assets_def fleet_ok_def class_ok_def class_defs rows_owned_def evidence_ok_def
      table_ok_def history_of_def in_versions_def corrections_in_def asset_rows_def intro!: exI [of _ "[]"])

lemma reachable_fleet_ok: "reachable db \<Longrightarrow> fleet_ok db"
  by (induction rule: reachable.induct) (auto intro: no_assets_ok fleet_step_keeps)

end
