(* ===== verification/FleetEffects.thy ===== *)
theory FleetEffects
  imports FleetCreation
begin

text \<open>
  What a successful operation changes, and nothing else: the rows it appends carry its tenant, its
  Asset and its re-resolved Actor, and one Asset row moves to the next version.  The five classes
  interpret \<open>fleet_writes\<close>; \<open>asset_step_effect\<close> is the effect of any operation.
\<close>

section \<open>Effects\<close>

definition appended :: "uuid \<Rightarrow> uuid \<Rightarrow> uuid \<Rightarrow> 'f hrow list \<Rightarrow> 'f hrow list \<Rightarrow> bool" where
  "appended org i actor old new \<longleftrightarrow>
     (\<exists>ns. new = old @ ns \<and> (\<forall>n \<in> set ns. h_org n = org \<and> h_asset n = i \<and> h_actor n = actor))"

definition grown :: "uuid \<Rightarrow> uuid \<Rightarrow> uuid \<Rightarrow> fleet \<Rightarrow> fleet \<Rightarrow> bool" where
  "grown org i actor db db' \<longleftrightarrow>
     db' = db\<lparr>assets := assets db', asset_transitions := asset_transitions db',
              asset_movements := asset_movements db', asset_custody_changes := asset_custody_changes db',
              asset_ownership_changes := asset_ownership_changes db',
              asset_assignment_events := asset_assignment_events db'\<rparr>
     \<and> appended org i actor (asset_transitions db) (asset_transitions db')
     \<and> appended org i actor (asset_movements db) (asset_movements db')
     \<and> appended org i actor (asset_custody_changes db) (asset_custody_changes db')
     \<and> appended org i actor (asset_ownership_changes db) (asset_ownership_changes db')
     \<and> appended org i actor (asset_assignment_events db) (asset_assignment_events db')"

lemma appended_refl [simp]: "appended org i actor rows rows"
  by (auto simp: appended_def)

lemma appended_snoc [simp]:
  "appended org i actor rows (rows @ [n]) \<longleftrightarrow> h_org n = org \<and> h_asset n = i \<and> h_actor n = actor"
  by (auto simp: appended_def)

lemma appended_trans: "appended org i actor a b \<Longrightarrow> appended org i actor b c \<Longrightarrow> appended org i actor a c"
  by (fastforce simp: appended_def)

lemma grown_trans:
  assumes "grown org i actor a b" "grown org i actor b c"
  shows "grown org i actor a c"
proof -
  have "c = b\<lparr>assets := assets c, asset_transitions := asset_transitions c,
              asset_movements := asset_movements c, asset_custody_changes := asset_custody_changes c,
              asset_ownership_changes := asset_ownership_changes c,
              asset_assignment_events := asset_assignment_events c\<rparr>"
    "b = a\<lparr>assets := assets b, asset_transitions := asset_transitions b,
              asset_movements := asset_movements b, asset_custody_changes := asset_custody_changes b,
              asset_ownership_changes := asset_ownership_changes b,
              asset_assignment_events := asset_assignment_events b\<rparr>"
    using assms by (simp_all add: grown_def)
  then have "c = a\<lparr>assets := assets c, asset_transitions := asset_transitions c,
              asset_movements := asset_movements c, asset_custody_changes := asset_custody_changes c,
              asset_ownership_changes := asset_ownership_changes c,
              asset_assignment_events := asset_assignment_events c\<rparr>"
    by (cases a; cases b; cases c) simp
  then show ?thesis using assms by (auto simp: grown_def intro: appended_trans)
qed

lemma grown_set_asset: "grown org i actor db (set_asset org' i' f db)"
  by (simp add: grown_def) (simp add: set_asset_def)

lemma bump_item [simp]: "as_item (bump v who b) = as_item b"
  by (simp add: bump_def split: option.splits)

text \<open>One Asset row is rewritten, to a version \<open>k\<close> above the observed one.\<close>

definition restamps :: "uuid \<Rightarrow> uuid \<Rightarrow> int \<Rightarrow> fleet \<Rightarrow> fleet \<Rightarrow> bool" where
  "restamps org i v db db' \<longleftrightarrow>
     (\<exists>u. assets db' = map (\<lambda>b. if is_asset org i b then u b else b) (assets db)
        \<and> (\<forall>b. as_id (u b) = as_id b \<and> as_org (u b) = as_org b \<and> as_item (u b) = as_item b \<and> as_version (u b) = v))"

definition effect :: "ctx \<Rightarrow> uuid \<Rightarrow> int option \<Rightarrow> fleet \<Rightarrow> fleet \<Rightarrow> bool" where
  "effect x i v db db' \<longleftrightarrow>
     (\<exists>org actor a k. lock_asset x db i v = Inr (org, actor, a) \<and> grown org i actor db db'
        \<and> k \<in> {1, 2} \<and> restamps org i (as_version a + k) db db')"

locale fleet_writes = fleet_class +
  assumes add_grown: "grown (h_org n) (h_asset n) (h_actor n) db (hc_add cls n db)"
    and store_item: "as_item (hc_store cls e f b) = as_item b"
begin

lemma write_restamps:
  "restamps (h_org (last ns)) (h_asset (last ns)) (h_version (last ns)) db (write_db cls ns who db)"
  unfolding restamps_def write_db_def set_asset_assets add_rows_frame
  by (rule exI) (rule conjI [OF refl], simp add: store_key store_item store_version)

lemma event_effect:
  assumes l: "lock_asset x db i v = Inr (org, actor, a)"
    and r: "record_event cls x (event_row x org i (as_version a + 1) f t why actor occ ev op hid) db = Inr (m, db')"
  shows "effect x i v db db'"
proof -
  let ?n = "event_row x org i (as_version a + 1) f t why actor occ ev op hid"
  have db': "db' = write_db cls [?n] None db" using record_event_Inr(2) [OF r] .
  have "grown org i actor db (hc_add cls ?n db)" using add_grown [of ?n db] by simp
  then have "grown org i actor db db'" unfolding db' write_db_def
    by (auto intro: grown_trans grown_set_asset)
  moreover have "restamps org i (as_version a + 1) db db'"
    unfolding db' using write_restamps [of "[?n]"] by simp
  ultimately show ?thesis using l unfolding effect_def by blast
qed

lemma correction_effect:
  assumes c: "correction_sql cls x i r expected target reason corrected_at occurred ids evidence db = Inr (m, db')"
  shows "effect x i expected db db'"
proof -
  obtain org actor a original hd' prior why tm pair rid cid g v2 where
    lock: "lock_asset x db i expected = Inr (org, actor, a)"
    and head: "find_head (hc_rows cls db) org i r = Some hd'" and v2: "int4_add (as_version a) 2 = Inr v2"
    and rp: "record_pair cls x (reversal_row x hd' a r actor why tm pair g rid)
       (corrected_row x hd' r actor why v2 tm pair g cid prior target evidence occurred) db = Inr (m, db')"
    using correction_sql_Inr [OF c] by metis
  let ?v = "reversal_row x hd' a r actor why tm pair g rid"
  let ?c = "corrected_row x hd' r actor why v2 tm pair g cid prior target evidence occurred"
  have "of_asset org i hd'" using head by (auto simp: find_head_def dest: find_Some_in)
  then have keys: "h_org ?v = org" "h_asset ?v = i" "h_actor ?v = actor" "h_org ?c = org"
    "h_asset ?c = i" "h_actor ?c = actor" "h_version ?c = as_version a + 2"
    using v2 by (auto simp: reversal_row_def corrected_row_def correction_row_def of_asset_def int4_add_Inr_iff)
  have db': "db' = write_db cls [?v, ?c] (Some (h_actor ?c, At (x_now x))) db"
    using record_pair_Inr(2) [OF rp] keys by (simp add: of_asset_def)
  have "grown org i actor db (hc_add cls ?v db)" "grown org i actor (hc_add cls ?v db) (hc_add cls ?c (hc_add cls ?v db))"
    using add_grown [of ?v db] add_grown [of ?c "hc_add cls ?v db"] keys by simp_all
  then have "grown org i actor db db'" unfolding db' write_db_def
    by (auto intro: grown_trans grown_set_asset)
  moreover have "restamps org i (as_version a + 2) db db'"
    unfolding db' using write_restamps [of "[?v, ?c]"] keys by simp
  ultimately show ?thesis using lock unfolding effect_def by blast
qed

end

interpretation transition_writes: fleet_writes transitions
  by unfold_locales (simp_all add: grown_def transitions_def)

interpretation movement_writes: fleet_writes movements
  by unfold_locales (simp_all add: grown_def movements_def)

interpretation custodian_writes: fleet_writes custody
  by unfold_locales (simp_all add: grown_def custody_def)

interpretation owner_writes: fleet_writes ownership
  by unfold_locales (simp_all add: grown_def ownership_def)

interpretation assignment_writes: fleet_writes assignments
  by unfold_locales (simp_all add: grown_def assignments_def)

lemmas correction_effects = transition_writes.correction_effect movement_writes.correction_effect
  custodian_writes.correction_effect owner_writes.correction_effect assignment_writes.correction_effect

lemma asset_step_effect:
  assumes "asset_step x i v db db'"
  shows "effect x i v db db'"
  using assms
proof (cases rule: asset_step.cases)
  case transition
  then show ?thesis by (elim transition_asset_Inr) (rule transition_writes.event_effect)
next
  case move
  then show ?thesis unfolding move_asset_def by (elim operation_sql_Inr) (rule movement_writes.event_effect)
next
  case change_custody
  then show ?thesis unfolding change_custody_def by (elim operation_sql_Inr) (rule custodian_writes.event_effect)
next
  case change_ownership
  then show ?thesis unfolding change_ownership_def by (elim operation_sql_Inr) (rule owner_writes.event_effect)
next
  case assign
  then show ?thesis unfolding assign_asset_def by (elim assignment_sql_Inr) (rule assignment_writes.event_effect)
next
  case unassign
  then show ?thesis unfolding unassign_asset_def by (elim assignment_sql_Inr) (rule assignment_writes.event_effect)
qed (unfold correct_transition_def correct_movement_def correct_custody_def correct_ownership_def
      correct_assignment_def, (erule correction_effects)+)

end
