(* ===== verification/FleetExample.thy ===== *)
theory FleetExample
  imports FleetCreation
begin

text \<open>
  A small reachable fleet for the concrete instances of the properties: one organization with an
  authenticated Actor, an Asset that is created, moved and put in stock, and whose last transition
  is then corrected to a hold.
\<close>

definition ex_ctx :: ctx where
  "ex_ctx = \<lparr>x_org = Some 1, x_digest_hex = Some (replicate 64 48), x_actor_hint = None,
             x_now = 1000, x_app = True, x_txn = 1\<rparr>"

definition ex_base :: fleet where
  "ex_base = empty_fleet
     \<lparr>organizations := [1],
      actors := [\<lparr>ac_id = 10, ac_org = 1, ac_type = HUMAN, ac_name = [65], ac_active = True, ac_created_by = 10\<rparr>],
      users := [\<lparr>us_id = 11, us_org = 1, us_actor = 10, us_username = [97], us_password_hash = [98],
                 us_active = True\<rparr>],
      sessions := [\<lparr>se_id = 12, se_org = 1, se_user = 11, se_digest = replicate 32 0, se_active = True,
                    se_created = At 0, se_expires = At 5000\<rparr>],
      parties := [\<lparr>pa_id = 30, pa_org = 1, pa_name = [80], pa_created_by = 10\<rparr>],
      facilities := [\<lparr>fa_id = 41, fa_org = 1, fa_name = [70], fa_timezone = lit ''UTC'', fa_active = True,
                      fa_created_by = 10\<rparr>],
      locations := [\<lparr>lo_id = 40, lo_org = 1, lo_facility = 41, lo_parent = None, lo_code = [76], lo_name = [76],
                     lo_kind = SITE, lo_active = True, lo_created_by = 10\<rparr>],
      items := [\<lparr>it_id = 20, it_org = 1, it_manufacturer = 30, it_mpn = [77], it_revision = None,
                 it_description = [68], it_uom = EA, it_serialized = True, it_classification = None,
                 it_controlled = False, it_active = True, it_created_by = 10, it_updated_by = 10\<rparr>]\<rparr>"

definition ex_asset :: asset_row where
  "ex_asset = new_asset ex_ctx 1 100 20 [84] [68] (Some 30) None None 10"

definition ex_identifier :: identifier_row where
  "ex_identifier = \<lparr>id_id = 101, id_org = 1, id_asset = 100, id_type = MAC, id_value = Some [66],
                    id_unreadable = None, id_created_by = 10\<rparr>"

definition ex_row :: "int \<Rightarrow> 'f \<Rightarrow> 'f \<Rightarrow> pgtext \<Rightarrow> int \<Rightarrow> uuid \<Rightarrow> 'f hrow" where
  "ex_row v f t why occurred i = event_row ex_ctx 1 100 v f t why 10 (At occurred) None None i"

definition ex_created :: fleet where
  "ex_created = ex_base
     \<lparr>assets := [ex_asset], asset_identifiers := [ex_identifier],
      asset_initial_facts := [\<lparr>b_asset = 100, b_org = 1, b_owner = Some 30, b_custodian = None,
                               b_location = None, b_actor = 10, b_occurred = At 900\<rparr>],
      asset_initial_assignment_facts := [\<lparr>w_asset = 100, w_org = 1, w_actor = 10, w_occurred = At 900\<rparr>],
      asset_transitions := [ex_row 1 None (Some RECEIVED) received_reason 900 102]\<rparr>"

definition ex_moved :: fleet where
  "ex_moved = ex_created
     \<lparr>assets := [ex_asset\<lparr>as_location := Some 40, as_version := 2\<rparr>],
      asset_movements := [ex_row 2 None (Some 40) [114] 950 103]\<rparr>"

definition ex_stocked :: fleet where
  "ex_stocked = ex_moved
     \<lparr>assets := [ex_asset\<lparr>as_location := Some 40, as_version := 3, as_state := Some IN_STOCK\<rparr>],
      asset_transitions := [ex_row 1 None (Some RECEIVED) received_reason 900 102,
                            ex_row 3 (Some RECEIVED) (Some IN_STOCK) [114] 960 104]\<rparr>"

definition ex_correction_row :: "int \<Rightarrow> asset_state \<Rightarrow> correction_role \<Rightarrow> uuid \<Rightarrow> state_fact hrow" where
  "ex_correction_row v t role i =
     (ex_row v (Some RECEIVED) (Some t) [119] 960 i)
       \<lparr>h_root := Some 104, h_role := role, h_pair := Some 105, h_generation := 1,
        h_corrected_at := Some (At 990)\<rparr>"

definition ex_corrected :: fleet where
  "ex_corrected = ex_stocked
     \<lparr>assets := [ex_asset\<lparr>as_location := Some 40, as_version := 5, as_state := Some ON_HOLD\<rparr>],
      asset_transitions := asset_transitions ex_stocked
        @ [ex_correction_row 4 IN_STOCK REVERSAL 106, ex_correction_row 5 ON_HOLD CORRECTED 107]\<rparr>"

lemma ex_create_ok:
  "create_unit_facts ex_ctx ex_asset (At 900) 102 ex_identifier ex_base = Inr ex_created"
  by code_simp

lemma ex_move_ok:
  "move_asset ex_ctx 100 (Some 1) (Some 40) [114] (At 950) None 103 ex_created
     = Inr (ex_row 2 None (Some 40) [114] 950 103, ex_moved)"
  by code_simp

lemma ex_transition_ok:
  "transition_asset ex_ctx 100 (Some 2) (Some RECEIVED) (Some IN_STOCK) [114] (At 960) None None 104 ex_moved
     = Inr (ex_row 3 (Some RECEIVED) (Some IN_STOCK) [114] 960 104, ex_stocked)"
  by code_simp

lemma ex_metadata:
  "correction_metadata (Some [32, 119]) (Some (At 990)) (Some (105, 106, 107))
     = Inr ([119], At 990, 105, 106, 107)"
  by (simp add: correction_metadata_def normalize_correction_reason_def btrim_set_def correction_space_def
      length_between_def)

lemma ex_authority: "assert_asset_correction_authority ex_ctx ex_stocked 100 = Inr ()"
  by code_simp

lemma ex_correction_ok:
  "correct_transition ex_ctx 100 104 (Some 3) (Some ON_HOLD) (Some [32, 119]) (Some (At 990)) None
     (Some (105, 106, 107)) None ex_stocked
     = Inr (ex_correction_row 5 ON_HOLD CORRECTED 107, ex_corrected)"
proof -
  let ?h = "ex_row 3 (Some RECEIVED) (Some IN_STOCK) [114] 960 104"
  let ?a = "ex_asset\<lparr>as_location := Some 40, as_version := 3, as_state := Some IN_STOCK\<rparr>"
  have "lock_asset ex_ctx ex_stocked 100 (Some 3) = Inr (1, 10, ?a)" by code_simp
  moreover have "find_row (hc_rows transitions ex_stocked) 1 100 104 = Some ?h" by code_simp
  moreover have "find_head (hc_rows transitions ex_stocked) 1 100 104 = Some ?h" by code_simp
  moreover have "source_before transitions ex_stocked 1 100 3 = Inr (Some RECEIVED)" by code_simp
  moreover have "record_pair transitions ex_ctx (ex_correction_row 4 IN_STOCK REVERSAL 106)
      (ex_correction_row 5 ON_HOLD CORRECTED 107) ex_stocked
      = Inr (ex_correction_row 5 ON_HOLD CORRECTED 107, ex_corrected)" by code_simp
  moreover have "reversal_row ex_ctx ?h ?a 104 10 [119] (At 990) 105 1 106
      = ex_correction_row 4 IN_STOCK REVERSAL 106" by code_simp
  moreover have "corrected_row ex_ctx ?h 104 10 [119] 5 (At 990) 105 1 107 (Some RECEIVED) (Some ON_HOLD) None None
      = ex_correction_row 5 ON_HOLD CORRECTED 107" by code_simp
  moreover have "h_version ?h = 3" "h_role ?h = NONE" "h_generation ?h = 0" "x_org ex_ctx \<noteq> None"
    "x_actor_hint ex_ctx = None" by code_simp+
  moreover have "hc_agrees transitions ?a (Some (h_id ?h)) (h_to ?h)" by code_simp
  moreover have "hc_check transitions ex_stocked 1 (Some RECEIVED) (Some ON_HOLD) = Inr ()" by code_simp
  ultimately show ?thesis
    unfolding correct_transition_def correction_sql_def
    by (simp add: ex_authority ex_metadata int4_add_def int4_max_def)
qed

lemma ex_base_reachable: "reachable ex_base"
  by (rule reachable.start) (simp add: no_assets_def ex_base_def empty_fleet_def)

lemma ex_created_reachable: "reachable ex_created"
  using ex_create_ok ex_base_reachable by (blast intro: reachable.run fleet_step.create)

lemma ex_moved_reachable: "reachable ex_moved"
  using ex_move_ok ex_created_reachable by (blast intro: reachable.run fleet_step.operate asset_step.move)

lemma ex_stocked_reachable: "reachable ex_stocked"
  using ex_transition_ok ex_moved_reachable
  by (blast intro: reachable.run fleet_step.operate asset_step.transition)

lemma ex_corrected_reachable: "reachable ex_corrected"
  using ex_correction_ok ex_stocked_reachable
  by (blast intro: reachable.run fleet_step.operate asset_step.correct_transition)

section \<open>Retirement with evidence\<close>

definition ex_attachment :: attachment_row where
  "ex_attachment =
     \<lparr>at_id = 110, at_org = 1, at_sha256 = replicate 64 48, at_size = 3, at_media_type = lit ''text/plain'',
      at_storage_key = storage_key 1 (replicate 64 48), at_source = DOCUMENT, at_captured_by = 10,
      at_captured_at = At 970, at_recorded_at = At 1000, at_supersedes = None, at_filename = [102]\<rparr>"

definition ex_link :: link_row where
  "ex_link = \<lparr>al_id = 111, al_org = 1, al_attachment = 110, al_entity = ASSET, al_entity_id = 100,
              al_role = DISPOSAL_EVIDENCE, al_actor = 10, al_recorded_at = At 1000\<rparr>"

definition ex_evidenced :: fleet where
  "ex_evidenced = ex_stocked\<lparr>attachments := [ex_attachment], attachment_links := [ex_link]\<rparr>"

definition ex_retired :: fleet where
  "ex_retired = ex_evidenced
     \<lparr>assets := [ex_asset\<lparr>as_location := Some 40, as_version := 4, as_state := Some RETIRED\<rparr>],
      asset_transitions := asset_transitions ex_stocked
        @ [ex_row 4 (Some IN_STOCK) (Some RETIRED) [114] 980 112 \<lparr>h_evidence := Some 110\<rparr>]\<rparr>"

lemma ex_evidenced_reachable: "reachable ex_evidenced"
proof -
  have "frame ex_stocked ex_evidenced"
    by (simp add: frame_def evidence_grows_def ex_evidenced_def ex_stocked_def ex_moved_def ex_created_def
        ex_base_def empty_fleet_def)
  then show ?thesis using ex_stocked_reachable by (blast intro: reachable.run fleet_step.elsewhere)
qed

lemma ex_retire_ok:
  "transition_asset ex_ctx 100 (Some 3) (Some IN_STOCK) (Some RETIRED) [114] (At 980) (Some 110) None 112
     ex_evidenced
     = Inr (ex_row 4 (Some IN_STOCK) (Some RETIRED) [114] 980 112 \<lparr>h_evidence := Some 110\<rparr>, ex_retired)"
  by code_simp

lemma ex_retired_reachable: "reachable ex_retired"
  using ex_retire_ok ex_evidenced_reachable
  by (blast intro: reachable.run fleet_step.operate asset_step.transition)

end
