(* ===== verification/FleetProperties.thy ===== *)
theory FleetProperties
  imports FleetEffects FleetExample
begin

text \<open>
  The properties of the Asset operations, over every reachable fleet: versions, projections, the
  anomaly views, both readers of effective history, corrections, isolation and stale writers.
\<close>

section \<open>Consequences of the invariant\<close>

lemma ok_classes:
  assumes "fleet_ok db"
  shows "class_ok transitions db" "class_ok movements db" "class_ok custody db" "class_ok ownership db"
    "class_ok assignments db"
  using assms by (simp_all add: fleet_ok_def)

lemma ok_evidence_anomalies:
  assumes ok: "fleet_ok db"
  shows "evidence_anomalies db = []"
proof -
  have t: "table_ok (\<lambda>_ _. None) (asset_transitions db)"
    using ok_classes(1) [OF ok] by (simp add: class_ok_def transitions_def)
  have "\<not> transition_evidence_bad db h" if h: "h \<in> set (asset_transitions db)" for h
  proof -
    have "evidence_supported db (h_org h) (h_evidence h) (h_asset h) (transition_purpose h)"
      using ok h by (simp add: fleet_ok_def evidence_ok_def)
    moreover have "h_evidence h = h_evidence p"
      if "h_role h = REVERSAL" "p \<in> set (asset_transitions db)" "predecessor h p" for p
      using reversal_cancels [OF t h that] by (simp add: cancels_def)
    ultimately show ?thesis
      by (auto simp: transition_evidence_bad_def evidence_supported_def transition_purpose_def
          split: if_splits)
  qed
  then show ?thesis by (simp add: evidence_anomalies_def filter_empty_conv)
qed

lemma ok_anomalies:
  assumes "fleet_ok db"
  shows "class_anomalies transitions db = []" "class_anomalies movements db = []"
    "class_anomalies custody db = []" "class_anomalies ownership db = []"
    "class_anomalies assignments db = []" "asset_correction_anomalies db = []"
  using ok_classes [OF assms] ok_evidence_anomalies [OF assms]
  by (simp_all add: asset_correction_anomalies_def transition.no_anomalies movement.no_anomalies
      custodian.no_anomalies owner.no_anomalies assignment.no_anomalies)

lemma ok_find_asset:
  assumes "fleet_ok db" "find_asset db org i = Some a"
  shows "a \<in> set (assets db)" "as_org a = org" "as_id a = i" "asset_ok db a"
  using find_asset_in [OF assms(2)] assms(1) by (auto simp: fleet_ok_def)

lemma upto_complete:
  assumes "mset vs = mset [1..n]" "1 \<le> n"
  shows "versions_complete vs n"
proof -
  have s: "set vs = {1..n}" using mset_eq_setD [OF assms(1)] by simp
  have "length vs = length [1..n]" using assms(1) by (rule mset_eq_length)
  then have l: "int (length vs) = n" using assms(2) by simp
  have "card (set vs) = length (remdups vs)" by (rule length_remdups_card_conv [symmetric])
  then have "int (distinct_count vs) = n" using s assms(2) by (simp add: distinct_count_def)
  then show ?thesis using l s assms(2) by (auto simp: versions_complete_def)
qed

lemma ok_authority:
  assumes ok: "fleet_ok db" and f: "find_asset db org i = Some a" and o: "x_org x = Some org"
  shows "assert_asset_correction_authority x db i = Inr ()"
proof -
  note F = ok_find_asset [OF ok f]
  have "projection_agrees transitions db a" "projection_agrees movements db a"
    "projection_agrees custody db a" "projection_agrees ownership db a" "projection_agrees assignments db a"
    using ok_classes [OF ok] F(1) by (simp_all add: class_ok_def)
  moreover have "versions_complete (raw_versions db org i) (as_version a)"
    using F(2-4) by (intro upto_complete) (simp_all add: asset_ok_def)
  ultimately show ?thesis
    using F(2-4) by (simp add: assert_asset_correction_authority_def o f ok_anomalies [OF ok] asset_ok_def)
qed

section \<open>Versions, projections and authority\<close>

text \<open>
  C2: in every reachable fleet the version numbers of an Asset's history rows, over the five classes
  together and counting reversals and corrections, are exactly 1 to its current version, each once.
\<close>

theorem versions_partition:
  assumes "reachable db" "a \<in> set (assets db)"
  shows "mset (raw_versions db (as_org a) (as_id a)) = mset [1..as_version a]
     \<and> 1 \<le> as_version a \<and> as_version a \<le> int4_max"
  using reachable_fleet_ok [OF assms(1)] assms(2) by (simp add: fleet_ok_def asset_ok_def)

definition ex_final_asset :: asset_row where
  "ex_final_asset = ex_asset\<lparr>as_location := Some 40, as_version := 5, as_state := Some ON_HOLD\<rparr>"

lemma ex_corrected_asset: "ex_final_asset \<in> set (assets ex_corrected)"
  by (simp add: ex_corrected_def ex_final_asset_def)

lemma ex_final_key [simp]: "as_org ex_final_asset = 1" "as_id ex_final_asset = 100" "as_version ex_final_asset = 5"
  "as_state ex_final_asset = Some ON_HOLD" "as_location ex_final_asset = Some 40"
  by (simp_all add: ex_final_asset_def ex_asset_def new_asset_def)

theorem versions_partition_witness:
  "mset (raw_versions ex_corrected 1 100) = mset [1..5]"
  using versions_partition [OF ex_corrected_reachable ex_corrected_asset] by simp

lemma projections_lemma:
  assumes "reachable db" "a \<in> set (assets db)"
  shows "(\<exists>l. latest_effective (as_org a) (as_id a) (asset_transitions db) = Some l \<and> as_state a = h_to l)
     \<and> as_location a = (case latest_effective (as_org a) (as_id a) (asset_movements db) of
          Some l \<Rightarrow> h_to l | None \<Rightarrow> ref_initial b_location db (as_org a) (as_id a))
     \<and> as_custodian a = (case latest_effective (as_org a) (as_id a) (asset_custody_changes db) of
          Some l \<Rightarrow> h_to l | None \<Rightarrow> ref_initial b_custodian db (as_org a) (as_id a))
     \<and> as_owner a = (case latest_effective (as_org a) (as_id a) (asset_ownership_changes db) of
          Some l \<Rightarrow> h_to l | None \<Rightarrow> ref_initial b_owner db (as_org a) (as_id a))
     \<and> as_assignment a = (case latest_effective (as_org a) (as_id a) (asset_assignment_events db) of
          Some l \<Rightarrow> if snd (h_to l) = None then None else Some (h_id l) | None \<Rightarrow> None)"
proof -
  have ok: "fleet_ok db" using reachable_fleet_ok [OF assms(1)] .
  have p: "projection_agrees transitions db a" "projection_agrees movements db a"
    "projection_agrees custody db a" "projection_agrees ownership db a" "projection_agrees assignments db a"
    and s: "as_state a \<noteq> None"
    using ok_classes [OF ok] ok assms(2) by (simp_all add: class_ok_def fleet_ok_def asset_ok_def)
  have "\<exists>l. latest_effective (as_org a) (as_id a) (asset_transitions db) = Some l \<and> as_state a = h_to l"
    using p(1) s by (auto simp: projection_agrees_def transitions_def split: option.splits)
  then show ?thesis
    using p(2-5)
    by (auto simp: projection_agrees_def movements_def custody_def ownership_def assignments_def
        shown_event_def split: option.splits)
qed

text \<open>
  C1: every projection of an Asset shows its effective history: the state of the latest effective
  transition; the location, custodian and owner of the latest effective event, or of the creation
  baseline when there is none; and the event of the latest effective assignment, if it assigns.
\<close>

theorem projections_show_history:
  assumes "reachable db" "a \<in> set (assets db)"
  shows "(\<exists>l. latest_effective (as_org a) (as_id a) (asset_transitions db) = Some l \<and> as_state a = h_to l)
     \<and> as_location a = (case latest_effective (as_org a) (as_id a) (asset_movements db) of
          Some l \<Rightarrow> h_to l | None \<Rightarrow> ref_initial b_location db (as_org a) (as_id a))
     \<and> as_custodian a = (case latest_effective (as_org a) (as_id a) (asset_custody_changes db) of
          Some l \<Rightarrow> h_to l | None \<Rightarrow> ref_initial b_custodian db (as_org a) (as_id a))
     \<and> as_owner a = (case latest_effective (as_org a) (as_id a) (asset_ownership_changes db) of
          Some l \<Rightarrow> h_to l | None \<Rightarrow> ref_initial b_owner db (as_org a) (as_id a))
     \<and> as_assignment a = (case latest_effective (as_org a) (as_id a) (asset_assignment_events db) of
          Some l \<Rightarrow> if snd (h_to l) = None then None else Some (h_id l) | None \<Rightarrow> None)"
  using projections_lemma [OF assms] .

theorem projections_show_history_witness:
  "latest_effective 1 100 (asset_transitions ex_corrected) = Some (ex_correction_row 5 ON_HOLD CORRECTED 107)
     \<and> (\<exists>l. latest_effective 1 100 (asset_transitions ex_corrected) = Some l \<and> h_to l = Some ON_HOLD)"
proof -
  have "latest_effective 1 100 (asset_transitions ex_corrected) = Some (ex_correction_row 5 ON_HOLD CORRECTED 107)"
    by code_simp
  then show ?thesis
    using projections_show_history [OF ex_corrected_reachable ex_corrected_asset] by force
qed

text \<open>
  The anomaly view \<open>asset_correction_anomalies\<close>, over all five history classes and the evidence
  of transitions, is empty in every reachable fleet; so the deferred commit check never fires and an
  operation is never refused because of malformed history.
\<close>

theorem no_correction_anomalies:
  assumes "reachable db"
  shows "asset_correction_anomalies db = [] \<and> commit_histories old db = Inr db"
  using ok_anomalies [OF reachable_fleet_ok [OF assms]] ok_evidence_anomalies [OF reachable_fleet_ok [OF assms]]
  by (simp add: commit_histories_def pairs_complete_def)

theorem no_correction_anomalies_witness:
  "asset_correction_anomalies ex_corrected = [] \<and> commit_histories ex_stocked ex_corrected = Inr ex_corrected"
  using no_correction_anomalies [OF ex_corrected_reachable] .

text \<open>
  \<open>assert_asset_correction_authority\<close> accepts every Asset of the caller's tenant in every
  reachable fleet: projections, baselines, anomalies and version coverage are all in order.
\<close>

theorem correction_authority_holds:
  assumes "reachable db" "x_org x = Some org" "find_asset db org i = Some a"
  shows "assert_asset_correction_authority x db i = Inr ()"
  using ok_authority [OF reachable_fleet_ok [OF assms(1)] assms(3,2)] .

theorem correction_authority_holds_witness:
  "assert_asset_correction_authority ex_ctx ex_corrected 100 = Inr ()"
proof -
  have "find_asset ex_corrected 1 100 = Some ex_final_asset" "x_org ex_ctx = Some 1" by code_simp+
  then show ?thesis using correction_authority_holds [OF ex_corrected_reachable] by blast
qed

section \<open>Effective history\<close>

lemma connected_class:
  assumes "class_ok cls db"
  shows "\<forall>k < length (filter (of_asset org i) (effective (hc_rows cls db))).
     h_from (filter (of_asset org i) (effective (hc_rows cls db)) ! k)
       = (if k = 0 then hc_initial cls db org i
          else h_to (filter (of_asset org i) (effective (hc_rows cls db)) ! (k - 1)))"
proof -
  have t: "table_ok (hc_initial cls db) (hc_rows cls db)" using assms by (simp add: class_ok_def)
  obtain gs where gs: "asset_rows org i (hc_rows cls db) = flat gs" "chain (hc_initial cls db org i) gs"
    "distinct (roots gs)" "\<forall>h \<in> set (flat gs). of_asset org i h"
    using table_ok_asset [OF t] by metis
  show ?thesis unfolding effective_of_asset [OF gs] using chain_connected [OF gs(2)] by (simp add: heads_def)
qed

definition connected :: "'f \<Rightarrow> 'f hrow list \<Rightarrow> bool" where
  "connected src es \<longleftrightarrow>
     (\<forall>k < length es. h_from (es ! k) = (if k = 0 then src else h_to (es ! (k - 1))))"

text \<open>
  The effective history of every class is connected: its first entry starts from the creation
  fact and each later one from the fact the entry before it ended in, corrections included.
\<close>

theorem effective_history_connected:
  assumes "reachable db"
  shows "connected None (filter (of_asset org i) (effective (asset_transitions db)))
     \<and> connected (ref_initial b_location db org i) (filter (of_asset org i) (effective (asset_movements db)))
     \<and> connected (ref_initial b_custodian db org i) (filter (of_asset org i) (effective (asset_custody_changes db)))
     \<and> connected (ref_initial b_owner db org i) (filter (of_asset org i) (effective (asset_ownership_changes db)))
     \<and> connected (None, None) (filter (of_asset org i) (effective (asset_assignment_events db)))"
  using ok_classes [OF reachable_fleet_ok [OF assms], THEN connected_class, of org i]
  unfolding connected_def class_defs by simp

theorem effective_history_connected_witness:
  "connected None (filter (of_asset 1 100) (effective (asset_transitions ex_corrected)))"
  using effective_history_connected [OF ex_corrected_reachable, of 1 100] by blast

lemma readers_agree_class:
  assumes "class_ok cls db"
  shows "effective_events (asset_rows org i (hc_rows cls db))
     = Inr (filter (of_asset org i) (effective (hc_rows cls db)))"
proof -
  have t: "table_ok (hc_initial cls db) (hc_rows cls db)" using assms by (simp add: class_ok_def)
  obtain gs where gs: "asset_rows org i (hc_rows cls db) = flat gs" "chain (hc_initial cls db org i) gs"
    "in_versions (flat gs)" "distinct (map h_id (flat gs))" "distinct (roots gs)"
    "\<forall>h \<in> set (flat gs). of_asset org i h"
    using table_ok_asset [OF t] by metis
  show ?thesis
    using effective_events_flat [OF gs(2-4)] effective_of_asset [OF gs(1,2,5,6)] by (simp add: gs(1))
qed

text \<open>
  C4: the two readers of effective history agree.  On the raw rows of any Asset the Python reducer
  \<open>effective_events\<close> finds no problem and returns exactly the rows of the SQL effective view.
\<close>

theorem effective_readers_agree:
  assumes "reachable db"
  shows "effective_events (asset_rows org i (asset_transitions db))
        = Inr (filter (of_asset org i) (effective (asset_transitions db)))
     \<and> effective_events (asset_rows org i (asset_movements db))
        = Inr (filter (of_asset org i) (effective (asset_movements db)))
     \<and> effective_events (asset_rows org i (asset_custody_changes db))
        = Inr (filter (of_asset org i) (effective (asset_custody_changes db)))
     \<and> effective_events (asset_rows org i (asset_ownership_changes db))
        = Inr (filter (of_asset org i) (effective (asset_ownership_changes db)))
     \<and> effective_events (asset_rows org i (asset_assignment_events db))
        = Inr (filter (of_asset org i) (effective (asset_assignment_events db)))"
  using ok_classes [OF reachable_fleet_ok [OF assms], THEN readers_agree_class, of org i]
  by (simp add: class_defs)

theorem effective_readers_agree_witness:
  "map (map h_version) [filter (of_asset 1 100) (effective (asset_transitions ex_corrected))] = [[1, 5]]
     \<and> effective_events (asset_rows 1 100 (asset_transitions ex_corrected))
        = Inr (filter (of_asset 1 100) (effective (asset_transitions ex_corrected)))"
proof -
  have "map (map h_version) [filter (of_asset 1 100) (effective (asset_transitions ex_corrected))] = [[1, 5]]"
    by code_simp
  then show ?thesis using effective_readers_agree [OF ex_corrected_reachable, of 1 100] by blast
qed

section \<open>Corrections\<close>

text \<open>
  C5: a successful \<open>correct_transition\<close> appends a reversal, which repeats the cancelled entry, and a
  corrected entry with the same source and the requested target; the corrected entry takes the place
  of the newest effective entry and every other effective entry stands.
\<close>

theorem correction_replaces_head:
  assumes "reachable db" "correct_transition x i r v t why at' occ ids ev db = Inr (c, db')"
  shows "\<exists>org hd' rv. x_org x = Some org \<and> find_head (asset_transitions db) org i r = Some hd'
     \<and> asset_transitions db' = asset_transitions db @ [rv, c]
     \<and> h_role rv = REVERSAL \<and> cancels rv hd' \<and> h_role c = CORRECTED \<and> h_from c = h_from hd' \<and> h_to c = t
     \<and> last (filter (of_asset org i) (effective (asset_transitions db))) = hd'
     \<and> filter (of_asset org i) (effective (asset_transitions db'))
         = butlast (filter (of_asset org i) (effective (asset_transitions db))) @ [c]"
proof -
  have rows: "hc_rows transitions = asset_transitions" by (simp add: transitions_def)
  show ?thesis
    using transition_fleet.correction_replaces
      [OF reachable_fleet_ok [OF assms(1)] assms(2) [unfolded correct_transition_def], unfolded rows]
    by (metis (no_types, lifting))
qed

theorem correction_replaces_head_witness:
  "\<exists>rv. asset_transitions ex_corrected = asset_transitions ex_stocked @ [rv, ex_correction_row 5 ON_HOLD CORRECTED 107]
     \<and> h_role rv = REVERSAL"
  using correction_replaces_head [OF ex_stocked_reachable ex_correction_ok] by blast

lemma reversal_predecessor:
  assumes t: "table_ok initial rows" and h: "h \<in> set rows" "h_role h = REVERSAL"
  obtains q where "q \<in> set rows" "predecessor h q" "\<And>p. p \<in> set rows \<Longrightarrow> predecessor h p \<Longrightarrow> p = q"
proof -
  let ?o = "h_org h" and ?a = "h_asset h"
  obtain gs where gs: "asset_rows ?o ?a rows = flat gs" "chain (initial ?o ?a) gs"
    "in_versions (flat gs)" "distinct (map h_id (flat gs))" "distinct (roots gs)"
    "\<forall>h \<in> set (flat gs). of_asset ?o ?a h"
    using table_ok_asset [OF t] by metis
  have ids: "distinct (map h_id rows)" using t by (simp add: table_ok_def)
  have "h \<in> set (flat gs)" using h(1) by (simp add: gs(1) [symmetric] set_asset_rows)
  then show ?thesis
  proof (cases rule: flat_cases)
    case (root xs r ps ys)
    have "group_ok (last_fact (initial ?o ?a) xs) (r, ps)" using gs(2) unfolding root(1) by (rule chain_middle)
    then show ?thesis using root(2) h(2) by (simp add: group_ok_def ordinary_def)
  next
    case (corrected xs r ps p qs ys)
    have "group_ok (last_fact (initial ?o ?a) xs) (r, ps @ p # qs)"
      using gs(2) unfolding corrected(1) by (rule chain_middle)
    then have "pairs_ok r (last_fact (initial ?o ?a) xs) r 0 (ps @ p # qs)" by (simp add: group_ok_def)
    from pairs_ok_nth [OF this] show ?thesis using corrected(2) h(2) by (simp add: pair_ok_def)
  next
    case (reversal xs r ps p qs ys)
    have ok: "group_ok (last_fact (initial ?o ?a) xs) (r, ps @ p # qs)"
      using gs(2) unfolding reversal(1) by (rule chain_middle)
    then have po: "pairs_ok r (last_fact (initial ?o ?a) xs) r 0 (ps @ p # qs)" by (simp add: group_ok_def)
    have pok: "pair_ok r (last_fact (initial ?o ?a) xs) (final r ps) (int (length ps) + 1) p"
      using pairs_ok_nth [OF po] by simp
    have mem: "final r ps \<in> set (flat gs)"
      by (cases ps rule: rev_cases) (simp_all add: reversal(1))
    have own: "of_asset ?o ?a (final r ps)" "final r ps \<in> set rows"
      using mem gs(6) set_asset_rows [of "final r ps" ?o ?a rows] by (simp_all add: gs(1))
    have "predecessor h (final r ps)"
    proof (cases ps rule: rev_cases)
      case Nil
      then show ?thesis using pok own(1) reversal(2)
        by (simp add: predecessor_def pair_ok_def correction_of_def)
    next
      case (snoc us u)
      have "pair_ok r (last_fact (initial ?o ?a) xs) (final r us) (int (length us) + 1) u"
        using pairs_ok_nth [of r _ r 0 us u "p # qs"] po snoc by simp
      then show ?thesis using pok own(1) reversal(2) snoc
        by (simp add: predecessor_def pair_ok_def correction_of_def)
    qed
    moreover have "q = final r ps" if "q \<in> set rows" "predecessor h q" for q
      using predecessor_final [OF ids gs(1,2,5,6) reversal(1) that(1)] that(2) reversal(2) by simp
    ultimately show ?thesis using that own(2) by blast
  qed
qed

lemma map_of_fold_unique:
  assumes "q \<in> set xs" "\<forall>p \<in> set xs. k p = k q \<longrightarrow> f p = f q"
  shows "map_of (fold (\<lambda>h d. dict_set (k h) (f h) d) xs d) (k q) = Some (f q)"
  using assms
proof (induction xs rule: rev_induct)
  case Nil
  then show ?case by simp
next
  case (snoc y ys)
  show ?case
  proof (cases "k y = k q")
    case True
    moreover have "f y = f q" using snoc.prems(2) True by simp
    ultimately show ?thesis by simp
  next
    case False
    then have "q \<in> set ys" "\<forall>p \<in> set ys. k p = k q \<longrightarrow> f p = f q" using snoc.prems by auto
    from snoc.IH [OF this] False show ?thesis by simp
  qed
qed

lemma audit_names_predecessor:
  assumes t: "table_ok initial rows" and m: "(h, n) \<in> set (audit_rows (asset_rows org i rows))"
    and r: "h_role h = REVERSAL"
  shows "\<exists>q \<in> set rows. of_asset org i q \<and> n = Some (h_id q) \<and> predecessor h q \<and> cancels h q"
proof -
  let ?rows = "asset_rows org i rows"
  have h: "h \<in> set rows" "of_asset org i h"
    using m by (auto simp: audit_rows_def Let_def set_asset_rows)
  obtain q where q: "q \<in> set rows" "predecessor h q" "\<And>p. p \<in> set rows \<Longrightarrow> predecessor h p \<Longrightarrow> p = q"
    using reversal_predecessor [OF t h(1) r] by metis
  have oq: "of_asset org i q" using q(2) h(2) by (auto simp: predecessor_def of_asset_def)
  have "n = Some (h_id q)"
  proof (cases "h_generation h = 1")
    case True
    then show ?thesis using m r q(2) by (auto simp: audit_rows_def Let_def predecessor_def)
  next
    case False
    let ?k = "\<lambda>h. (h_root h, h_generation h)"
    have k: "?k q = (h_root h, h_generation h - 1)" "h_role q = CORRECTED" "h_generation h > 1" "h_root h \<noteq> None"
      using q(2) False by (auto simp: predecessor_def)
    have "q \<in> set (with_role CORRECTED ?rows)" using q(1) oq k(2) by (simp add: with_role_def set_asset_rows)
    moreover have "\<forall>p \<in> set (with_role CORRECTED ?rows). ?k p = ?k q \<longrightarrow> h_id p = h_id q"
      using q(3) k h(2) by (auto simp: with_role_def set_asset_rows predecessor_def of_asset_def)
    ultimately have "map_of (fold (\<lambda>h d. dict_set (?k h) (h_id h) d) (with_role CORRECTED ?rows) []) (?k q)
        = Some (h_id q)" by (rule map_of_fold_unique [where k = ?k and f = h_id])
    then show ?thesis using m r False k(1) by (auto simp: audit_rows_def Let_def)
  qed
  then show ?thesis using q oq reversal_cancels [OF t h(1) r q(1,2)] by blast
qed

text \<open>
  The audit view of any class names, for every reversal, an existing row of the same Asset, and
  that row is the entry the reversal cancels: it repeats its facts, time and evidence.
\<close>

theorem audit_names_cancelled:
  assumes "reachable db" "(h, n) \<in> set (audit_rows (asset_rows org i (asset_transitions db)))"
    and "h_role h = REVERSAL"
  shows "\<exists>q \<in> set (asset_transitions db). of_asset org i q \<and> n = Some (h_id q) \<and> predecessor h q \<and> cancels h q"
proof -
  have "table_ok (\<lambda>_ _. None) (asset_transitions db)"
    using ok_classes(1) [OF reachable_fleet_ok [OF assms(1)]] by (simp add: class_ok_def transitions_def)
  from audit_names_predecessor [OF this assms(2,3)] show ?thesis .
qed

theorem audit_names_cancelled_witness:
  "\<exists>q \<in> set (asset_transitions ex_corrected). Some (h_id q) = Some 104
     \<and> cancels (ex_correction_row 4 IN_STOCK REVERSAL 106) q"
proof -
  have m: "(ex_correction_row 4 IN_STOCK REVERSAL 106, Some 104)
      \<in> set (audit_rows (asset_rows 1 100 (asset_transitions ex_corrected)))" by code_simp
  have "h_role (ex_correction_row 4 IN_STOCK REVERSAL 106) = REVERSAL" by code_simp
  from audit_names_cancelled [OF ex_corrected_reachable m this] show ?thesis by metis
qed

end
