(* ===== verification/FleetIsolation.thy ===== *)
theory FleetIsolation
  imports FleetProperties
begin

text \<open>
  What a run can never do: rewrite history, touch another Asset or tenant, name another Actor, or
  use an observed version twice.
\<close>

section \<open>Finding an Asset under a step\<close>

lemma find_map_key:
  assumes "\<forall>b. as_id (f b) = as_id b \<and> as_org (f b) = as_org b"
  shows "List.find (\<lambda>a. as_org a = org \<and> as_id a = i) (map f as)
     = map_option f (List.find (\<lambda>a. as_org a = org \<and> as_id a = i) as)"
  using assms by (induction as) auto

lemma find_asset_map:
  assumes "assets db' = map f (assets db)" "\<forall>b. as_id (f b) = as_id b \<and> as_org (f b) = as_org b"
  shows "find_asset db' org i = map_option f (find_asset db org i)"
  using find_map_key [OF assms(2)] by (simp add: find_asset_def assms(1))

lemma asset_step_find:
  assumes "asset_step x i v db db'"
  obtains org actor a b where "x_org x = Some org" "current_authenticated_actor x db = Inr actor"
    "v = Some (as_version a)" "find_asset db org i = Some a" "find_asset db' org i = Some b"
    "as_version a < as_version b" "grown org i actor db db'"
    "\<And>org' j. (org', j) \<noteq> (org, i) \<Longrightarrow> find_asset db' org' j = find_asset db org' j"
proof -
  obtain org actor a k where e: "lock_asset x db i v = Inr (org, actor, a)" "grown org i actor db db'"
    "k \<in> {1, 2 :: int}" "restamps org i (as_version a + k) db db'"
    using asset_step_effect [OF assms] unfolding effect_def by blast
  note L = lock_asset_Inr [OF e(1)]
  obtain u where u: "assets db' = map (\<lambda>b. if is_asset org i b then u b else b) (assets db)"
    "\<forall>b. as_id (u b) = as_id b \<and> as_org (u b) = as_org b \<and> as_version (u b) = as_version a + k"
    using e(4) by (auto simp: restamps_def)
  have f: "find_asset db' o' j = map_option (\<lambda>b. if is_asset org i b then u b else b) (find_asset db o' j)"
    for o' j by (rule find_asset_map [OF u(1)]) (simp add: u(2))
  have "find_asset db' org i = Some (u a)" using f [of org i] L(4,5,7) by (simp add: is_asset_def)
  moreover have "as_version a < as_version (u a)" using u(2) e(3) by auto
  moreover have "find_asset db' o' j = find_asset db o' j" if "(o', j) \<noteq> (org, i)" for o' j
    unfolding f using that
    by (cases "find_asset db o' j") (auto simp: is_asset_def dest: find_asset_in)
  ultimately show ?thesis using that L e(2) by blast
qed

lemma asset_step_evidence:
  assumes "asset_step x i v db db'"
  shows "valid_asset_evidence db' = valid_asset_evidence db"
proof -
  obtain org actor where "grown org i actor db db'" by (rule asset_step_find [OF assms])
  then have "db' = db\<lparr>assets := assets db', asset_transitions := asset_transitions db',
        asset_movements := asset_movements db', asset_custody_changes := asset_custody_changes db',
        asset_ownership_changes := asset_ownership_changes db',
        asset_assignment_events := asset_assignment_events db'\<rparr>" by (simp add: grown_def)
  from arg_cong [OF this, of attachments] arg_cong [OF this, of attachment_links] arg_cong [OF this, of actors]
  show ?thesis by (intro valid_asset_evidence_cong) simp_all
qed

lemma find_asset_grows:
  assumes "fleet_step x db db'" "find_asset db org i = Some a"
  shows "\<exists>b. find_asset db' org i = Some b \<and> as_version a \<le> as_version b"
  using assms(1)
proof (cases rule: fleet_step.cases)
  case (operate i' v)
  obtain org' a' b' where s: "find_asset db org' i' = Some a'" "find_asset db' org' i' = Some b'"
    "as_version a' < as_version b'" "\<And>o' j. (o', j) \<noteq> (org', i') \<Longrightarrow> find_asset db' o' j = find_asset db o' j"
    by (rule asset_step_find [OF operate]) (rule that)
  show ?thesis
  proof (cases "(org, i) = (org', i')")
    case True
    then show ?thesis using s assms(2) by auto
  next
    case False
    then show ?thesis using s(4) assms(2) by simp
  qed
next
  case (create rec t tid d)
  have "assets db' = assets db @ [rec]"
    using create_unit_facts_Inr(1) [OF create] by (simp add: created_db_def)
  then show ?thesis using assms(2) by (auto simp: find_asset_def find_snoc split: option.splits)
next
  case (describe w)
  have "find_asset db' org i = map_option w (find_asset db org i)"
    by (rule find_asset_map) (use describe in \<open>simp_all add: describes_def\<close>)
  then show ?thesis using assms(2) describe(1) by (auto simp: describes_def)
next
  case elsewhere
  then show ?thesis using assms(2) by (simp add: frame_def find_asset_def)
qed

section \<open>Runs\<close>

inductive later :: "fleet \<Rightarrow> fleet \<Rightarrow> bool" where
  now: "later db db"
| next_step: "later db db1 \<Longrightarrow> fleet_step x db1 db2 \<Longrightarrow> later db db2"

lemma later_find:
  "later db db' \<Longrightarrow> find_asset db org i = Some a
     \<Longrightarrow> \<exists>b. find_asset db' org i = Some b \<and> as_version a \<le> as_version b"
proof (induction rule: later.induct)
  case (now db)
  then show ?case by simp
next
  case (next_step db db1 x db2)
  then obtain b where "find_asset db1 org i = Some b" "as_version a \<le> as_version b" by blast
  then show ?case using find_asset_grows [OF next_step.hyps(2)] by (meson order_trans)
qed

text \<open>
  C3: an observed version is used at most once.  After an operation on an Asset has succeeded
  with the version its caller observed, no operation of the tenant on that Asset with the same
  version succeeds, at any later point of the run.
\<close>

theorem stale_version_rejected:
  assumes "asset_step x i v db db1" "later db1 db2" "x_org y = x_org x"
  shows "\<not> asset_step y i v db2 db3"
proof
  assume again: "asset_step y i v db2 db3"
  obtain org and a b :: asset_row where s: "x_org x = Some org" "v = Some (as_version a)" "find_asset db1 org i = Some b"
    "as_version a < as_version b"
    by (rule asset_step_find [OF assms(1)]) (rule that)
  obtain c where c: "find_asset db2 org i = Some c" "as_version b \<le> as_version c"
    using later_find [OF assms(2) s(3)] by blast
  obtain org' a' where t: "x_org y = Some org'" "v = Some (as_version a')" "find_asset db2 org' i = Some a'"
    by (rule asset_step_find [OF again]) (rule that)
  then show False using s c assms(3) by simp
qed

theorem stale_version_rejected_witness:
  "asset_step ex_ctx 100 (Some 2) ex_moved ex_stocked \<and> later ex_stocked ex_corrected
     \<and> (\<forall>db. \<not> asset_step ex_ctx 100 (Some 2) ex_corrected db)"
proof -
  have "asset_step ex_ctx 100 (Some 2) ex_moved ex_stocked" using ex_transition_ok by (rule asset_step.transition)
  moreover have "later ex_stocked ex_corrected"
    using ex_correction_ok by (intro later.next_step [OF later.now] fleet_step.operate asset_step.correct_transition)
  ultimately show ?thesis using stale_version_rejected by blast
qed

text \<open>
  C15: a successful operation stays inside its tenant and its Asset.  Every row it appends names
  that tenant, that Asset and the Actor its credential resolves to; no other Asset and no table but
  \<open>assets\<close> and the histories changes.
\<close>

theorem operation_isolated:
  assumes "asset_step x i v db db'"
  shows "\<exists>org actor. x_org x = Some org \<and> current_authenticated_actor x db = Inr actor
     \<and> actor_exists db org actor \<and> grown org i actor db db'
     \<and> (\<forall>org' j. (org', j) \<noteq> (org, i) \<longrightarrow> find_asset db' org' j = find_asset db org' j)"
  by (rule asset_step_find [OF assms]) (use current_actor_exists in blast)

theorem operation_isolated_witness:
  "grown 1 100 10 ex_moved ex_stocked"
proof -
  have "asset_step ex_ctx 100 (Some 2) ex_moved ex_stocked" using ex_transition_ok by (rule asset_step.transition)
  moreover have "x_org ex_ctx = Some 1" "current_authenticated_actor ex_ctx ex_moved = Inr 10" by code_simp+
  ultimately show ?thesis using operation_isolated by (metis Inr_inject option.inject)
qed

section \<open>History is append-only\<close>

definition extends :: "'a list \<Rightarrow> 'a list \<Rightarrow> bool" where
  "extends old new \<longleftrightarrow> (\<exists>ns. new = old @ ns)"

lemma extends_refl [simp]: "extends xs xs" "extends xs (xs @ ys)"
  by (auto simp: extends_def)

lemma extends_trans: "extends a b \<Longrightarrow> extends b c \<Longrightarrow> extends a c"
  by (auto simp: extends_def)

definition history_extends :: "fleet \<Rightarrow> fleet \<Rightarrow> bool" where
  "history_extends db db' \<longleftrightarrow> extends (asset_transitions db) (asset_transitions db')
     \<and> extends (asset_movements db) (asset_movements db')
     \<and> extends (asset_custody_changes db) (asset_custody_changes db')
     \<and> extends (asset_ownership_changes db) (asset_ownership_changes db')
     \<and> extends (asset_assignment_events db) (asset_assignment_events db')
     \<and> extends (asset_initial_facts db) (asset_initial_facts db')
     \<and> extends (asset_initial_assignment_facts db) (asset_initial_assignment_facts db')"

lemma grown_extends:
  assumes "grown org i actor db db'"
  shows "history_extends db db'"
proof -
  have "db' = db\<lparr>assets := assets db', asset_transitions := asset_transitions db',
              asset_movements := asset_movements db', asset_custody_changes := asset_custody_changes db',
              asset_ownership_changes := asset_ownership_changes db',
              asset_assignment_events := asset_assignment_events db'\<rparr>"
    using assms by (simp add: grown_def)
  from arg_cong [OF this, of asset_initial_facts] arg_cong [OF this, of asset_initial_assignment_facts]
  have "asset_initial_facts db' = asset_initial_facts db"
    "asset_initial_assignment_facts db' = asset_initial_assignment_facts db" by simp_all
  then show ?thesis using assms by (auto simp: history_extends_def grown_def appended_def extends_def)
qed

lemma fleet_step_extends: "fleet_step x db db' \<Longrightarrow> history_extends db db'"
proof (induction rule: fleet_step.induct)
  case (operate i v db db')
  then obtain org actor where "grown org i actor db db'" using asset_step_effect by (fastforce simp: effect_def)
  then show ?case by (rule grown_extends)
next
  case (create a t tid d db db')
  then show ?case using create_unit_facts_Inr(1) [OF create] by (simp add: history_extends_def created_db_def)
qed (simp_all add: history_extends_def frame_def)

text \<open>
  C24: history is append-only along every run: the rows of all five history classes and of both
  creation witnesses stay, unchanged and in order, whatever operations, corrections, creations and
  edits follow.
\<close>

theorem history_append_only:
  assumes "later db db'"
  shows "history_extends db db'"
  using assms
  by (induction rule: later.induct) (auto simp: history_extends_def intro: extends_trans dest!: fleet_step_extends)

theorem history_append_only_witness:
  "extends (asset_transitions ex_stocked) (asset_transitions ex_corrected)"
proof -
  have "later ex_stocked ex_corrected"
    using ex_correction_ok by (intro later.next_step [OF later.now] fleet_step.operate asset_step.correct_transition)
  then show ?thesis using history_append_only by (auto simp: history_extends_def)
qed

section \<open>Retirement\<close>

text \<open>
  C25: no Asset is ever retired without disposal evidence: in every reachable fleet each transition
  or corrected transition into \<open>RETIRED\<close> names an attachment of its tenant, with well-formed
  metadata, linked to that Asset in the disposal role by existing Actors.
\<close>

theorem retirement_has_disposal_evidence:
  assumes "reachable db" "h \<in> set (asset_transitions db)" "h_to h = Some RETIRED" "h_role h \<noteq> REVERSAL"
  shows "valid_asset_evidence db (h_org h) (h_evidence h) (h_asset h) (Some DISPOSAL_EVIDENCE)"
proof -
  have "evidence_ok db" using reachable_fleet_ok [OF assms(1)] by (simp add: fleet_ok_def)
  then have "evidence_supported db (h_org h) (h_evidence h) (h_asset h) (transition_purpose h)"
    using assms(2) by (simp add: evidence_ok_def)
  then show ?thesis using assms(3,4) by (simp add: evidence_supported_def transition_purpose_def)
qed

theorem retirement_has_disposal_evidence_witness:
  "valid_asset_evidence ex_retired 1 (Some 110) 100 (Some DISPOSAL_EVIDENCE)"
proof -
  have "ex_row 4 (Some IN_STOCK) (Some RETIRED) [114] 980 112 \<lparr>h_evidence := Some 110\<rparr> \<in> set (asset_transitions ex_retired)"
    by (simp add: ex_retired_def)
  from retirement_has_disposal_evidence [OF ex_retired_reachable this] show ?thesis
    by (simp add: ex_row_def event_row_def)
qed

end
