(* ===== verification/AuthProperties.thy ===== *)
theory AuthProperties
  imports Auth
begin

text \<open>
  The properties of authentication: what a request context proves about its Actor, and how issuing
  and revoking a session start and end that authority.
\<close>

section \<open>Resolution\<close>

lemma resolve_entries:
  assumes "(org, u, a) \<in> set (resolve_session x db d)"
  shows "\<exists>s \<in> set (sessions db). live_session x d s \<and> se_org s = org \<and> se_user s = u"
    "\<exists>w \<in> set (actors db). ac_id w = a \<and> ac_org w = org \<and> ac_active w \<and> ac_type w = HUMAN"
  using assms by (auto simp: resolve_session_in session_users_def user_actors_def)

lemma actor_of_context:
  assumes "resolve_session x db d = (org, u, a) # rest" "digest_shape d"
    and "x_org x = Some org" "x_digest_hex x = Some (hex_encode d)"
  shows "current_authenticated_actor x db = Inr a"
  using assms hex_encode_shape [OF assms(2)] hex_roundtrip [of d]
  by (simp add: current_authenticated_actor_def digest_shape_def)

lemma resolve_session_context:
  assumes "x_now x' = x_now x"
  shows "resolve_session x' db d = resolve_session x db d"
proof -
  have "live_session x' d = live_session x d" using assms by (intro ext) (simp add: live_session_def)
  then show ?thesis by (simp only: resolve_session_def)
qed

text \<open>
  The context that the \<open>authenticated\<close> dependency builds carries exactly the authority of its
  identity: PostgreSQL re-resolves its credential to the identity's Actor, in the identity's
  organization, and that Actor is an active HUMAN of it.
\<close>

theorem authenticated_context:
  assumes "\<And>b. digest_shape (sha256 b)" "authenticated sha256 x db bearer = Inr (x', who)"
  shows "current_authenticated_actor x' db = Inr (actor_id who) \<and> x_org x' = Some (organization_id who)
     \<and> (\<exists>w \<in> set (actors db). ac_id w = actor_id who \<and> ac_org w = organization_id who
          \<and> ac_active w \<and> ac_type w = HUMAN)"
proof -
  obtain raw where r: "resolve_identity sha256 x db raw = Some who"
    and c: "set_credential_context (token_digest who) (set_organization (organization_id who) x) = Inr x'"
    using assms(2) by (auto simp: authenticated_def rbind_Inr_iff split: option.splits)
  obtain rest where d: "token_digest who = sha256 (utf8 raw)"
    and s: "resolve_session x db (token_digest who) = (organization_id who, user_id who, actor_id who) # rest"
    using r by (auto simp: resolve_identity_def Let_def split: if_splits list.splits)
  have shape: "digest_shape (token_digest who)" using assms(1) d by simp
  have x': "x_org x' = Some (organization_id who)" "x_digest_hex x' = Some (hex_encode (token_digest who))"
    "x_now x' = x_now x"
    using c by (auto simp: set_credential_context_def set_organization_def split: if_splits)
  have s': "resolve_session x' db (token_digest who) = (organization_id who, user_id who, actor_id who) # rest"
    using s resolve_session_context [OF x'(3)] by simp
  then have "(organization_id who, user_id who, actor_id who) \<in> set (resolve_session x' db (token_digest who))"
    by simp
  then show ?thesis using actor_of_context [OF s' shape x'(1,2)] x'(1) resolve_entries(2) by blast
qed

definition auth_db :: fleet where
  "auth_db = empty_fleet
     \<lparr>organizations := [1],
      actors := [\<lparr>ac_id = 10, ac_org = 1, ac_type = HUMAN, ac_name = [65], ac_active = True, ac_created_by = 10\<rparr>],
      users := [\<lparr>us_id = 11, us_org = 1, us_actor = 10, us_username = [97], us_password_hash = [98],
                 us_active = True\<rparr>]\<rparr>"

definition auth_ctx :: ctx where
  "auth_ctx = \<lparr>x_org = Some 1, x_digest_hex = None, x_actor_hint = None, x_now = 1000, x_app = True, x_txn = 1\<rparr>"

definition auth_issued :: fleet where
  "auth_issued = auth_db
     \<lparr>sessions := [\<lparr>se_id = 12, se_org = 1, se_user = 11, se_digest = replicate 32 0, se_active = True,
                    se_created = At 1000, se_expires = At 5000\<rparr>]\<rparr>"

definition auth_bearer :: ctx where
  "auth_bearer = auth_ctx\<lparr>x_digest_hex := Some (replicate 64 48)\<rparr>"

lemma auth_issue_ok:
  "issue_session auth_ctx 11 (Some 12) (Some (replicate 32 0)) (Some (At 5000)) auth_db = Inr auth_issued"
  by code_simp

theorem authenticated_context_witness:
  "current_authenticated_actor auth_bearer auth_issued = Inr 10"
proof -
  let ?who = "\<lparr>organization_id = 1, user_id = 11, actor_id = 10, token_digest = replicate 32 0\<rparr>"
  have "digest_shape (replicate 32 0)" by (simp add: digest_shape_def)
  moreover have "authenticated (\<lambda>_. replicate 32 0) auth_ctx auth_issued (Some [116]) = Inr (auth_bearer, ?who)"
    by code_simp
  ultimately show ?thesis using authenticated_context [of "\<lambda>_. replicate 32 0"] by fastforce
qed

section \<open>Sessions\<close>

lemma resolve_only:
  assumes "\<forall>s \<in> set (sessions db). se_digest s \<noteq> d"
  shows "resolve_session x db d = []"
  using assms by (auto simp: resolve_session_def live_session_def filter_empty_conv)

lemma current_actor_none:
  assumes "resolve_session x db (hex_decode (the (x_digest_hex x))) = []"
  shows "current_authenticated_actor x db = Inl E42501"
  using assms by (auto simp: current_authenticated_actor_def split: option.splits)

text \<open>
  A session gives authority exactly while it lives.  After \<open>issue_session\<close> the credential
  resolves to an Actor of the tenant at every time before the expiry, and to none from the expiry
  on; the expiry is at most one day ahead.
\<close>

theorem issued_session_authority:
  assumes "issue_session x user (Some sid) (Some d) (Some e) db = Inr db'" "digest_shape d"
    and "x_org y = x_org x" "x_digest_hex y = Some (hex_encode d)"
  shows "(\<exists>a. current_authenticated_actor y db' = Inr a) = (At (x_now y) < e) \<and> e \<le> At (x_now x + day_us)"
proof -
  obtain org where org: "x_org x = Some org" "login_identity db org user" "d \<notin> se_digest ` set (sessions db)"
    "length d = 32" "e \<le> At (x_now x + day_us)"
    and db': "db' = db\<lparr>sessions := sessions db @
        [\<lparr>se_id = sid, se_org = org, se_user = user, se_digest = d, se_active = True,
          se_created = At (x_now x), se_expires = e\<rparr>]\<rparr>"
    using assms(1) by (auto simp: issue_session_def ensure_Inr_iff split: option.splits)
  let ?s = "\<lparr>se_id = sid, se_org = org, se_user = user, se_digest = d, se_active = True,
          se_created = At (x_now x), se_expires = e\<rparr>"
  have none: "filter (live_session y d) (sessions db) = []"
    using org(3) by (auto simp: live_session_def filter_empty_conv)
  have res: "resolve_session y db' d =
      (if At (x_now y) < e
       then concat (map (\<lambda>u. map (\<lambda>a. (org, us_id u, ac_id a)) (user_actors db' u)) (session_users db' ?s))
       else [])"
    using none org(4) by (simp add: resolve_session_def db' live_session_def)
  obtain u where u: "u \<in> set (users db)" "us_org u = org" "us_id u = user" "us_active u" "user_actors db u \<noteq> []"
    using org(2) by (auto simp: login_identity_def)
  have "u \<in> set (session_users db' ?s)" "user_actors db' u \<noteq> []"
    using u by (simp_all add: session_users_def db' user_actors_def)
  then have ne: "concat (map (\<lambda>u. map (\<lambda>a. (org, us_id u, ac_id a)) (user_actors db' u)) (session_users db' ?s)) \<noteq> []"
    by auto
  have hex: "hex_decode (hex_encode d) = d" using assms(2) hex_roundtrip [of d] by (simp add: digest_shape_def)
  have "(\<exists>a. current_authenticated_actor y db' = Inr a) = (At (x_now y) < e)"
  proof (cases "At (x_now y) < e")
    case True
    obtain o' w a rest where r: "resolve_session y db' d = (o', w, a) # rest"
    proof (cases "resolve_session y db' d")
      case Nil
      then show ?thesis using ne res True by simp
    next
      case (Cons t rest)
      then show ?thesis using that by (cases t) auto
    qed
    have "(o', w, a) \<in> set (resolve_session y db' d)" by (simp add: r)
    then have "o' = org" using True by (auto simp: res)
    then show ?thesis using actor_of_context [of y db' d o' w a rest] r assms org(1) True by auto
  next
    case False
    then have "resolve_session y db' (hex_decode (the (x_digest_hex y))) = []" by (simp add: assms(4) hex res)
    then show ?thesis using current_actor_none False by fastforce
  qed
  then show ?thesis using org(5) by blast
qed

theorem issued_session_authority_witness:
  "(\<exists>a. current_authenticated_actor auth_bearer auth_issued = Inr a) = (At 1000 < At 5000)"
proof -
  have "digest_shape (replicate 32 0)" by (simp add: digest_shape_def)
  moreover have "x_org auth_bearer = x_org auth_ctx"
    "x_digest_hex auth_bearer = Some (hex_encode (replicate 32 0))" by code_simp+
  ultimately show ?thesis using issued_session_authority [OF auth_issue_ok]
    by (simp add: auth_bearer_def auth_ctx_def)
qed

text \<open>A revoked digest resolves to nobody.\<close>

lemma revoked_unresolved:
  assumes "distinct (map se_digest (sessions db))" "revoke_current_session x db = Inr db'"
  shows "resolve_session y db' (hex_decode (the (x_digest_hex x))) = []"
proof -
  let ?d = "hex_decode (the (x_digest_hex x))" and ?org = "the (x_org x)"
  let ?hit = "\<lambda>s. se_org s = ?org \<and> se_digest s = ?d \<and> se_active s \<and> At (x_now x) < se_expires s"
  have db': "sessions db' = map (\<lambda>s. if ?hit s then s\<lparr>se_active := False\<rparr> else s) (sessions db)"
    using revoke_effect(4) [OF assms(2)] .
  obtain s where s: "s \<in> set (sessions db)" "?hit s"
    using assms(2) by (auto simp: revoke_current_session_def rbind_Inr_iff ensure_Inr_iff Let_def)
  have "\<not> live_session y ?d t" if t: "t \<in> set (sessions db')" for t
  proof -
    obtain r where r: "r \<in> set (sessions db)" "t = (if ?hit r then r\<lparr>se_active := False\<rparr> else r)"
      using t unfolding db' set_map by blast
    have "r = s" if "se_digest r = ?d"
      using assms(1) r(1) s that unfolding distinct_map inj_on_def by metis
    then show ?thesis using r(2) s(2) by (auto simp: live_session_def)
  qed
  then show ?thesis by (simp add: resolve_session_def filter_empty_conv)
qed

text \<open>
  Revocation is final.  After \<open>revoke_current_session\<close> no context with that credential, of any
  organization and at any time, resolves to an Actor.
\<close>

theorem revoked_session_powerless:
  assumes "distinct (map se_digest (sessions db))" "revoke_current_session x db = Inr db'"
    and "x_digest_hex y = x_digest_hex x"
  shows "current_authenticated_actor y db' = Inl E42501"
  using current_actor_none [of y db'] revoked_unresolved [OF assms(1,2)] assms(3) by simp

theorem revoked_session_powerless_witness:
  "current_authenticated_actor auth_bearer (auth_issued\<lparr>sessions := map (se_active_update (\<lambda>_. False))
     (sessions auth_issued)\<rparr>) = Inl E42501"
proof -
  have "distinct (map se_digest (sessions auth_issued))" by (simp add: auth_issued_def)
  moreover have "revoke_current_session auth_bearer auth_issued
      = Inr (auth_issued\<lparr>sessions := map (se_active_update (\<lambda>_. False)) (sessions auth_issued)\<rparr>)"
    by code_simp
  ultimately show ?thesis using revoked_session_powerless by blast
qed

section \<open>Password login\<close>

text \<open>
  Password login admits only an active user of the context's tenant, linked to an active HUMAN
  Actor, whose own stored hash verifies; the dummy hash of an unknown username never admits anyone.
\<close>

theorem login_admits:
  assumes "authenticate_password verify dummy x db username password = Some (u, a)"
  shows "\<exists>row \<in> set (users db). \<exists>w \<in> set (actors db). us_id row = u \<and> us_actor row = a \<and> ac_id w = a
     \<and> us_username row = username \<and> x_org x = Some (us_org row) \<and> ac_org w = us_org row
     \<and> us_active row \<and> ac_active w \<and> ac_type w = HUMAN \<and> verify (us_password_hash row) password"
proof -
  let ?rows = "concat (map (\<lambda>u. map (\<lambda>a. (u, a))
                   (filter (\<lambda>a. ac_org a = us_org u \<and> ac_id a = us_actor u \<and> ac_type a = HUMAN
                                \<and> x_org x = Some (ac_org a)) (actors db)))
                   (filter (\<lambda>u. x_org x = Some (us_org u) \<and> us_username u = username) (users db)))"
  obtain row w rest where r: "?rows = (row, w) # rest" and o: "verify (us_password_hash row) password"
    "us_active row" "ac_active w" "us_id row = u" "us_actor row = a"
    using assms by (auto simp: authenticate_password_def Let_def split: list.splits if_splits)
  have "(row, w) \<in> set ?rows" by (simp only: r list.set_intros(1))
  then show ?thesis using o by auto
qed

theorem login_admits_witness:
  "authenticate_password (\<lambda>h p. h = p) [0] auth_ctx auth_db [97] [98] = Some (11, 10)
     \<and> (\<exists>row \<in> set (users auth_db). us_username row = [97] \<and> us_active row)"
proof -
  have "authenticate_password (\<lambda>h p. h = p) [0] auth_ctx auth_db [97] [98] = Some (11, 10)" by code_simp
  then show ?thesis using login_admits by blast
qed

end
