(* ===== verification/EvidenceProperties.thy ===== *)
theory EvidenceProperties
  imports Evidence AuthProperties
begin

text \<open>
  The properties of evidence: the store is write-once, what it returns is what was captured, and a
  captured attachment can be read back.
\<close>

section \<open>The store\<close>

text \<open>
  The store is write-once: whatever fails during a \<open>put\<close>, by any tenant, every object already
  stored is still there, and every reference that could be read still reads the same bytes.
\<close>

theorem store_write_once:
  assumes "store_put sha256 f org content st = (res, st')" "store_read sha256 st org' r = Inr c"
  shows "store_read sha256 st' org' r = Inr c"
proof -
  have "st (org', st_sha256 r) = Some c" and ok: "reference_ok org' r" "int (length c) = st_size r"
    "hexdigest sha256 c = st_sha256 r"
    using assms(2) by (auto simp: store_read_def ensure_Inr_iff split: option.splits)
  then have "st' (org', st_sha256 r) = Some c" using store_put_keeps [OF assms(1)] by blast
  then show ?thesis using ok by (simp add: store_read_def)
qed

definition ev_hash :: "bytes \<Rightarrow> bytes" where
  "ev_hash b = replicate 31 0 @ [length b mod 256]"

definition ev_stored :: "bytes \<Rightarrow> stored_evidence" where
  "ev_stored c = \<lparr>st_key = storage_key 1 (hexdigest ev_hash c), st_sha256 = hexdigest ev_hash c,
                  st_size = int (length c)\<rparr>"

definition ev_store :: store where
  "ev_store = Map.empty((1, hexdigest ev_hash [1, 2, 3]) \<mapsto> [1, 2, 3])"

lemma ev_put:
  "store_put ev_hash NoFault 1 [1, 2, 3] Map.empty = (Inr (ev_stored [1, 2, 3]), ev_store)"
proof -
  have "reference_ok 1 (ev_stored [1, 2, 3])" by code_simp
  then show ?thesis by (simp add: store_put_def Let_def ev_stored_def ev_store_def)
qed

lemma ev_put_fault: "\<exists>res st'. store_put ev_hash WriteFails 1 [1, 2] ev_store = (res, st')"
  by simp

text \<open>
  C27: what is put is what is read: a successful \<open>put\<close> returns a reference to the tenant's own key
  for the digest of the content, and reading that reference returns the content.
\<close>

theorem store_round_trip:
  assumes "store_put sha256 f org content st = (Inr r, st')"
  shows "store_read sha256 st' org r = Inr content \<and> st_sha256 r = hexdigest sha256 content
     \<and> st_key r = storage_key org (st_sha256 r) \<and> st_size r = int (length content)"
  using store_put_published [OF assms] by simp

theorem store_round_trip_witness:
  "store_read ev_hash ev_store 1 (ev_stored [1, 2, 3]) = Inr [1, 2, 3]"
  using store_round_trip [OF ev_put] by blast

theorem store_write_once_witness:
  "store_read ev_hash (snd (store_put ev_hash WriteFails 1 [1, 2] ev_store)) 1 (ev_stored [1, 2, 3]) = Inr [1, 2, 3]"
proof -
  have "store_read ev_hash ev_store 1 (ev_stored [1, 2, 3]) = Inr [1, 2, 3]"
    using store_put_published(1) [OF ev_put] .
  then show ?thesis using store_write_once [OF surjective_pairing] by blast
qed

text \<open>
  Stored content is never served unverified: \<open>read_content\<close> returns bytes only when they have
  the size and the digest of the attachment row, and only for a row whose key is its tenant's own.
\<close>

theorem served_content_verified:
  assumes "read_content sha256 storage a = Inr c"
  shows "hexdigest sha256 c = at_sha256 a \<and> int (length c) = at_size a
     \<and> at_storage_key a = storage_key (at_org a) (at_sha256 a)"
  using assms
  by (auto simp: read_content_def store_read_def reference_of_def reference_ok_def ensure_Inr_iff
      split: option.splits)

definition ev_new :: attachment_row where
  "ev_new = \<lparr>at_id = 50, at_org = 1, at_sha256 = [], at_size = 0, at_media_type = lit ''text/plain'',
     at_storage_key = [], at_source = DOCUMENT, at_captured_by = 0, at_captured_at = At 900,
     at_recorded_at = At 0, at_supersedes = None, at_filename = [102]\<rparr>"

definition ev_captured :: attachment_row where
  "ev_captured = ev_new\<lparr>at_sha256 := hexdigest ev_hash [1, 2, 3], at_size := 3,
     at_storage_key := storage_key 1 (hexdigest ev_hash [1, 2, 3])\<rparr>"

theorem served_content_verified_witness:
  "read_content ev_hash (Some ev_store) ev_captured = Inr [1, 2, 3]
     \<and> hexdigest ev_hash [1, 2, 3] = at_sha256 ev_captured"
proof -
  have "read_content ev_hash (Some ev_store) ev_captured = Inr [1, 2, 3]" by code_simp
  then show ?thesis using served_content_verified by blast
qed

section \<open>Capture\<close>

lemma capture_row_digest:
  assumes "capture_row x new stored sha256 st db = Inr (a, db')" "at_sha256 new = st_sha256 stored"
    and "store_read sha256 st (at_org new) stored = Inr content"
    and "at_size new = st_size stored" "at_storage_key new = st_key stored"
  shows "read_content sha256 (Some st) a = Inr content \<and> at_org a = at_org new \<and> at_sha256 a = at_sha256 new"
proof -
  obtain created db1 where i: "insert_attachment x new db = Inr (created, db1)"
    and c: "(case created of Some a' \<Rightarrow> Inr (a', db1)
        | None \<Rightarrow>
            rbind (from_option NoResultFound
                     (List.find (\<lambda>a. at_org a = at_org new \<and> at_sha256 a = st_sha256 stored)
                       (attachments db1))) (\<lambda>a.
              ensure (at_supersedes new = None \<or> at_supersedes a = at_supersedes new) EvidenceConflict
                (rbind (read_content sha256 (Some st) a) (\<lambda>_. Inr (a, db1))))) = Inr (a, db')"
    using assms(1) by (auto simp: capture_row_def rbind_Inr_iff)
  show ?thesis
  proof (cases created)
    case (Some a')
    then have a: "a = a'" using c by simp
    note A = insert_attachment_Some [OF i [unfolded Some]]
    have "reference_of a' = stored" using A assms(2,4,5) by (simp add: reference_of_def)
    then show ?thesis using A assms(2,3) by (simp add: read_content_def a)
  next
    case None
    then obtain b where b: "List.find (\<lambda>a. at_org a = at_org new \<and> at_sha256 a = st_sha256 stored)
        (attachments db1) = Some a" "read_content sha256 (Some st) a = Inr b"
      using c by (auto simp: rbind_Inr_iff ensure_Inr_iff from_option_Inr_iff)
    have o: "at_org a = at_org new" "at_sha256 a = st_sha256 stored"
      using find_Some_in [OF b(1)] by simp_all
    have "st (at_org new, st_sha256 stored) = Some content"
      using assms(3) by (auto simp: store_read_def ensure_Inr_iff split: option.splits)
    then show ?thesis using read_content_digest [OF b(2)] b(2) o assms(2) by simp
  qed
qed

text \<open>
  Capture is durable.  When it succeeds, for new content or for content already captured, the
  attachment it returns belongs to the tenant and its bytes in the store are exactly the content;
  when it fails, no row was added and the store only grew.
\<close>

theorem captured_content_readable:
  assumes "evidence_capture sha256 f x st content supplied new db = (Inr (a, db'), st')"
  shows "read_content sha256 (Some st') a = Inr content \<and> at_org a = at_org new
     \<and> at_sha256 a = hexdigest sha256 content"
proof -
  obtain stored where p: "store_put sha256 f (at_org new) content st = (Inr stored, st')"
    and c: "capture_row x
        (new\<lparr>at_sha256 := hexdigest sha256 content, at_size := st_size stored, at_storage_key := st_key stored\<rparr>)
        stored sha256 st' db = Inr (a, db')"
    using assms by (auto simp: evidence_capture_def Let_def split: if_splits sum.splits prod.splits)
  note P = store_put_published [OF p]
  show ?thesis using capture_row_digest [OF c] P by simp
qed

theorem captured_content_readable_witness:
  "\<exists>a db' st'. evidence_capture ev_hash NoFault auth_bearer Map.empty [1, 2, 3] None ev_new auth_issued
        = (Inr (a, db'), st')
     \<and> read_content ev_hash (Some st') a = Inr [1, 2, 3]"
proof -
  let ?r = "evidence_capture ev_hash NoFault auth_bearer Map.empty [1, 2, 3] None ev_new auth_issued"
  have "\<not> raised (fst ?r)" by code_simp
  then obtain a db' where "fst ?r = Inr (a, db')" by (cases "fst ?r") auto
  then have "?r = (Inr (a, db'), snd ?r)" by (metis prod.collapse)
  then show ?thesis using captured_content_readable by blast
qed

end
