(* ===== verification/AssetService.thy ===== *)
theory AssetService
  imports FleetIsolation
begin

text \<open>
  The service \<open>domain/assets.py\<close>: what Python adds to the privileged transition: error
  translation, tenant-scoped reads, the lifecycle graph, disposal evidence, the options offered to a
  client, descriptive edits and the state reconciliation query.
\<close>

section \<open>Errors and reads\<close>

definition asset_error :: "sqlstate \<Rightarrow> py_error" where
  "asset_error e =
     (if e = EP0002 then NotFound
      else if e \<in> {E40001, EP0001, E23505} then Conflict
      else if e \<in> {E23502, E23503, E23514, E42501, E22003} then Invalid
      else DBError e)"

definition constraints :: "sqlstate + 'a \<Rightarrow> py_error + 'a" where
  "constraints = map_error asset_error"

lemma constraints_Inr_iff [simp]: "constraints m = Inr y \<longleftrightarrow> m = Inr y"
  by (simp add: constraints_def)

definition list_assets :: "ctx \<Rightarrow> fleet \<Rightarrow> asset_row list" where
  "list_assets x db = sort_key as_id (filter (\<lambda>a. visible x (as_org a)) (assets db))"

definition get_asset :: "ctx \<Rightarrow> fleet \<Rightarrow> uuid \<Rightarrow> py_error + asset_row" where
  "get_asset x db i =
     from_option NotFound (List.find (\<lambda>a. visible x (as_org a) \<and> as_id a = i) (assets db))"

definition list_identifiers :: "ctx \<Rightarrow> fleet \<Rightarrow> uuid \<Rightarrow> py_error + identifier_row list" where
  "list_identifiers x db i =
     rbind (get_asset x db i) (\<lambda>_.
       Inr (sort_key id_id (filter (\<lambda>d. visible x (id_org d) \<and> id_asset d = i) (asset_identifiers db))))"

definition visible_rows :: "ctx \<Rightarrow> uuid \<Rightarrow> 'f hrow list \<Rightarrow> 'f hrow list" where
  "visible_rows x i rows = sort_key h_version (filter (\<lambda>h. visible x (h_org h) \<and> h_asset h = i) rows)"

definition list_history ::
  "ctx \<Rightarrow> fleet \<Rightarrow> (fleet \<Rightarrow> 'f hrow list) \<Rightarrow> uuid \<Rightarrow> py_error + ('f hrow \<times> uuid option) list" where
  "list_history x db table i =
     rbind (get_asset x db i) (\<lambda>_. Inr (audit_rows (visible_rows x i (table db))))"

definition list_transitions where "list_transitions x db = list_history x db asset_transitions"

lemma get_asset_Inr:
  assumes "get_asset x db i = Inr a"
  shows "a \<in> set (assets db)" "x_org x = Some (as_org a)" "as_id a = i" "find_asset db (as_org a) i = Some a"
proof -
  have f: "List.find (\<lambda>a. visible x (as_org a) \<and> as_id a = i) (assets db) = Some a"
    using assms by (simp add: get_asset_def from_option_Inr_iff)
  show "a \<in> set (assets db)" "x_org x = Some (as_org a)" "as_id a = i"
    using find_Some_in [OF f] by (simp_all add: visible_def)
  have "find_asset db (as_org a) i = List.find (\<lambda>a. visible x (as_org a) \<and> as_id a = i) (assets db)"
    unfolding find_asset_def by (rule find_cong [OF refl]) (use find_Some_in [OF f] in \<open>auto simp: visible_def\<close>)
  then show "find_asset db (as_org a) i = Some a" using f by simp
qed

lemma visible_rows_asset:
  assumes "x_org x = Some org"
  shows "visible_rows x i rows = sort_key h_version (asset_rows org i rows)"
  unfolding visible_rows_def asset_rows_def
  by (rule arg_cong [where f = "sort_key h_version"], rule filter_cong [OF refl])
    (use assms in \<open>auto simp: visible_def of_asset_def\<close>)

lemma find_asset_self:
  assumes "distinct (map as_id (assets db))" "a \<in> set (assets db)"
  shows "find_asset db (as_org a) (as_id a) = Some a"
proof (cases "find_asset db (as_org a) (as_id a)")
  case None
  then show ?thesis using assms(2) by (auto simp: find_asset_def find_None_iff)
next
  case (Some b)
  then show ?thesis using asset_unique [OF assms(1) _ assms(2)] find_asset_in by fastforce
qed

section \<open>Transition options\<close>

record transition_choices =
  tc_asset :: uuid
  tc_version :: int
  tc_state :: asset_state
  tc_options :: "(asset_state \<times> bool) list"

definition transition_options :: "ctx \<Rightarrow> fleet \<Rightarrow> uuid \<Rightarrow> py_error + transition_choices" where
  "transition_options x db i =
     rbind (get_asset x db i) (\<lambda>a.
       (case latest_effective (as_org a) (as_id a) (asset_transitions db) of
          None \<Rightarrow> Inl Conflict
        | Some h \<Rightarrow>
            ensure (h_to h = as_state a \<and> h_version h \<le> as_version a) Conflict
              (case h_to h of
                 None \<Rightarrow> Inl ValueError
               | Some s \<Rightarrow>
                   ensure (s = ON_HOLD \<longrightarrow> h_from h \<noteq> None) Conflict
                     (Inr \<lparr>tc_asset = as_id a, tc_version = as_version a, tc_state = s,
                           tc_options = map (\<lambda>t. (t, t = RETIRED))
                             (sort (remdups (allowed_states s (h_from h))))\<rparr>))))"

section \<open>Descriptive edits\<close>

definition edit_asset :: "(string \<times> pgtext) list \<Rightarrow> uuid \<Rightarrow> int \<Rightarrow> asset_row \<Rightarrow> asset_row" where
  "edit_asset values performer now a =
     a\<lparr>as_tag := (case map_of values ''asset_tag'' of Some t \<Rightarrow> t | None \<Rightarrow> as_tag a),
       as_description := (case map_of values ''description'' of Some t \<Rightarrow> t | None \<Rightarrow> as_description a),
       as_updated_by := performer, as_updated_at := At now\<rparr>"

text \<open>
  The \<open>UPDATE\<close> of \<open>patch_asset\<close>: the attribution trigger overwrites the updater, then the
  constraints of \<open>assets\<close> hold of the new row.
\<close>

definition update_described ::
  "ctx \<Rightarrow> asset_row \<Rightarrow> fleet \<Rightarrow> sqlstate + (asset_row \<times> fleet)" where
  "update_described x new db =
     rbind (enforce_authenticated_updater x db new) (\<lambda>a.
       ensure (asset_check a) E23514
         (ensure (\<forall>b \<in> set (assets db). as_id b \<noteq> as_id a \<longrightarrow> \<not> (as_org b = as_org a \<and> as_tag b = as_tag a)) E23505
           (ensure (actor_exists db (as_org a) (as_updated_by a)) E23503
             (Inr (a, set_asset (as_org a) (as_id a)
                (\<lambda>b. b\<lparr>as_tag := as_tag a, as_description := as_description a,
                        as_updated_by := as_updated_by a, as_updated_at := as_updated_at a\<rparr>) db)))))"

definition patch_asset ::
  "ctx \<Rightarrow> uuid \<Rightarrow> uuid \<Rightarrow> (string \<times> pgtext) list \<Rightarrow> fleet \<Rightarrow> py_error + (asset_row \<times> fleet)" where
  "patch_asset x i performer values db =
     ensure (values \<noteq> [] \<and> set (map fst values) \<subseteq> {''asset_tag'', ''description''}) Invalid
       (rbind (get_asset x db i) (\<lambda>a.
          constraints (update_described x (edit_asset values performer (x_now x) a) db)))"

section \<open>Transitions\<close>

definition hold_entry :: "ctx \<Rightarrow> fleet \<Rightarrow> uuid \<Rightarrow> py_error + asset_state option" where
  "hold_entry x db i =
     rbind (get_asset x db i) (\<lambda>a.
       (case latest_effective (as_org a) i (asset_transitions db) of
          None \<Rightarrow> Inl Conflict
        | Some h \<Rightarrow> ensure (h_to h = Some ON_HOLD) Conflict (Inr (h_from h))))"

definition disposal_role :: "asset_state \<Rightarrow> evidence_role option" where
  "disposal_role t = (if t = RETIRED then Some DISPOSAL_EVIDENCE else None)"

definition service_transition ::
  "(bytes \<Rightarrow> bytes) \<Rightarrow> store option \<Rightarrow> ctx \<Rightarrow> uuid \<Rightarrow> int option \<Rightarrow> asset_state \<Rightarrow> asset_state \<Rightarrow> pgtext \<Rightarrow> tstz
   \<Rightarrow> uuid option \<Rightarrow> uuid option \<Rightarrow> uuid \<Rightarrow> fleet \<Rightarrow> py_error + (state_fact hrow \<times> fleet)" where
  "service_transition sha256 storage x i v f t why occ ev op tid db =
     rbind (if f \<noteq> ON_HOLD then validate_edge f t None else Inr ()) (\<lambda>_.
       ensure (t = RETIRED \<longrightarrow> ev \<noteq> None) LifecycleInvalid
         (rbind (verify_asset_evidence sha256 x storage db i ev (disposal_role t) (t = RETIRED)) (\<lambda>_.
           rbind (if f = ON_HOLD then rbind (hold_entry x db i) (validate_edge f t) else Inr ()) (\<lambda>_.
             constraints (transition_asset x i v (Some f) (Some t) why occ ev op tid db)))))"

section \<open>State reconciliation\<close>

datatype state_problem = MissingHistory | StateMismatch | HistoryVersionAhead

definition state_problems :: "fleet \<Rightarrow> asset_row \<Rightarrow> state_problem list" where
  "state_problems db a =
     (case latest_effective (as_org a) (as_id a) (asset_transitions db) of
        None \<Rightarrow> [MissingHistory]
      | Some h \<Rightarrow> (if as_state a \<noteq> h_to h then [StateMismatch] else [])
                  @ (if h_version h > as_version a then [HistoryVersionAhead] else []))"

definition reconcile_state :: "ctx \<Rightarrow> fleet \<Rightarrow> (asset_row \<times> state_problem list) list" where
  "reconcile_state x db =
     filter (\<lambda>r. snd r \<noteq> []) (map (\<lambda>a. (a, state_problems db a)) (list_assets x db))"

section \<open>Admitted transitions\<close>

text \<open>Every transition row in a reachable fleet passed the constraints of its table.\<close>

definition admitted :: "fleet \<Rightarrow> bool" where
  "admitted db \<longleftrightarrow> (\<forall>h \<in> set (asset_transitions db). h_to h \<noteq> None \<and> transition_admit h)"

lemma write_transitions_rows: "hc_rows transitions db = asset_transitions db"
  by (simp add: transitions_def)

lemma write_untouched_transitions:
  assumes "untouched transitions cls"
  shows "asset_transitions (write_db cls ns who db) = asset_transitions db"
proof -
  have "hc_rows transitions (set_asset org i f db') = hc_rows transitions db'" for org i f db'
    using assms by (simp add: untouched_def)
  then show ?thesis
    using untouched_add_rows(1) [OF assms, of ns db] unfolding write_db_def write_transitions_rows by simp
qed

lemmas write_other_transitions = untouched_classes(1-4) [THEN write_untouched_transitions]

lemma event_other_transitions:
  assumes "untouched transitions cls" "record_event cls x n db = Inr (g, db')"
  shows "asset_transitions db' = asset_transitions db"
  using record_event_Inr(2) [OF assms(2)] write_untouched_transitions [OF assms(1)] by simp

lemma correction_other_transitions:
  assumes u: "untouched transitions cls"
    and c: "correction_sql cls x i r e t why w o' ids ev db = Inr (g, db')"
  shows "asset_transitions db' = asset_transitions db"
proof -
  obtain org actor a original hd' prior why tm pair rid cid g' v2 where
    head: "find_head (hc_rows cls db) org i r = Some hd'"
    and rp: "record_pair cls x (reversal_row x hd' a r actor why tm pair g' rid)
       (corrected_row x hd' r actor why v2 tm pair g' cid prior t ev o') db = Inr (g, db')"
    using correction_sql_Inr [OF c] by metis
  have "of_asset (h_org (corrected_row x hd' r actor why v2 tm pair g' cid prior t ev o'))
      (h_asset (corrected_row x hd' r actor why v2 tm pair g' cid prior t ev o'))
      (reversal_row x hd' a r actor why tm pair g' rid)"
    by (simp add: reversal_row_def corrected_row_def correction_row_def of_asset_def)
  from record_pair_Inr(2) [OF rp this] show ?thesis using write_untouched_transitions [OF u] by simp
qed

lemma inserted_admitted:
  "insert_history transitions x n db = Inr db' \<Longrightarrow> h_to n \<noteq> None \<and> transition_admit n"
  using insert_history_Inr(3,7) [of transitions x n db db'] by (simp add: transitions_def)

lemma write_transitions: "asset_transitions (write_db transitions ns who db) = asset_transitions db @ ns"
proof -
  have "asset_transitions (add_rows transitions ns db) = asset_transitions db @ ns"
    by (induction ns arbitrary: db) (simp_all add: transitions_def)
  then show ?thesis by (simp add: write_db_def)
qed

lemma transition_admitted:
  assumes "admitted db" "transition_asset x i v f t why occ ev op tid db = Inr (h, db')"
  shows "admitted db'"
proof -
  obtain n where r: "record_event transitions x n db = Inr (h, db')"
    using transition_asset_Inr [OF assms(2)] by metis
  have "asset_transitions db' = asset_transitions db @ [n]"
    using record_event_Inr(2) [OF r] by (simp add: write_transitions)
  then show ?thesis
    using assms(1) inserted_admitted [OF record_event_Inr(3) [OF r]] by (auto simp: admitted_def)
qed

lemma correction_admitted:
  assumes "fleet_ok db" "admitted db" "correct_transition x i r v t w c o' ids ev db = Inr (h, db')"
  shows "admitted db'"
proof -
  obtain org n where o: "of_asset org i n" "of_asset org i h"
    and rp: "record_pair transitions x n h db = Inr (h, db')"
    using transition_fleet.correction_rows [OF assms(1) assms(3) [unfolded correct_transition_def]]
    by (metis (no_types, lifting))
  have "of_asset (h_org h) (h_asset h) n" using o by (simp add: of_asset_def)
  note R = record_pair_Inr [OF rp this]
  have "asset_transitions db' = asset_transitions db @ [n, h]" using R(2) by (simp add: write_transitions)
  then show ?thesis
    using assms(2) inserted_admitted [OF R(3)] inserted_admitted [OF R(4)] by (auto simp: admitted_def)
qed

lemma asset_step_admitted:
  assumes "asset_step x i v db db'" "fleet_ok db" "admitted db"
  shows "admitted db'"
proof -
  have same: "admitted db'" if "asset_transitions db' = asset_transitions db"
    using assms(3) that by (simp add: admitted_def)
  show ?thesis
    using assms(1)
  proof (cases rule: asset_step.cases)
    case transition then show ?thesis using transition_admitted [OF assms(3)] by blast
  next
    case correct_transition then show ?thesis using correction_admitted [OF assms(2,3)] by blast
  next
    case move then show ?thesis unfolding move_asset_def
      by (elim operation_sql_Inr) (rule same, rule event_other_transitions [OF untouched_classes(1)])
  next
    case change_custody then show ?thesis unfolding change_custody_def
      by (elim operation_sql_Inr) (rule same, rule event_other_transitions [OF untouched_classes(2)])
  next
    case change_ownership then show ?thesis unfolding change_ownership_def
      by (elim operation_sql_Inr) (rule same, rule event_other_transitions [OF untouched_classes(3)])
  next
    case assign then show ?thesis unfolding assign_asset_def
      by (elim assignment_sql_Inr) (rule same, rule event_other_transitions [OF untouched_classes(4)])
  next
    case unassign then show ?thesis unfolding unassign_asset_def
      by (elim assignment_sql_Inr) (rule same, rule event_other_transitions [OF untouched_classes(4)])
  qed (unfold correct_movement_def correct_custody_def correct_ownership_def correct_assignment_def,
      (rule same, erule untouched_classes(1-4) [THEN correction_other_transitions])+)
qed

lemma fleet_step_admitted:
  assumes "fleet_step x db db'" "fleet_ok db" "admitted db"
  shows "admitted db'"
  using assms(1)
proof (cases rule: fleet_step.cases)
  case operate then show ?thesis using asset_step_admitted [OF _ assms(2,3)] by blast
next
  case (create a t tid d)
  have "insert_history transitions x (creation_row x a t tid) (db\<lparr>assets := assets db @ [a]\<rparr>) \<noteq> Inl e" for e
    using create by (auto simp: create_unit_facts_def creation_row_def rbind_Inr_iff insert_asset_def
        ensure_Inr_iff Let_def)
  then obtain db1 where "insert_history transitions x (creation_row x a t tid) (db\<lparr>assets := assets db @ [a]\<rparr>) = Inr db1"
    by (meson sum.exhaust)
  then have "h_to (creation_row x a t tid) \<noteq> None \<and> transition_admit (creation_row x a t tid)"
    by (rule inserted_admitted)
  then show ?thesis
    using create_unit_facts_Inr(1) [OF create] assms(3) by (auto simp: admitted_def created_db_def)
next
  case (describe w) then show ?thesis using assms(3) by (simp add: admitted_def)
next
  case elsewhere then show ?thesis using assms(3) by (simp add: admitted_def frame_def)
qed

lemma reachable_admitted: "reachable db \<Longrightarrow> admitted db"
proof (induction rule: reachable.induct)
  case (start db)
  then show ?case by (simp add: no_assets_def admitted_def)
next
  case (run db x db')
  then show ?case using fleet_step_admitted reachable_fleet_ok by blast
qed

section \<open>Legal transitions\<close>

lemma event_find:
  assumes l: "lock_asset x db i v = Inr (org, actor, a)"
    and r: "record_event cls x (event_row x org i w f t why actor occ ev op hid) db = Inr (g, db')"
    and c: "history_class cls"
  shows "find_asset db' org i = Some (hc_store cls hid t (a\<lparr>as_version := w\<rparr>))"
    "g = event_row x org i w f t why actor occ ev op hid"
proof -
  let ?n = "event_row x org i w f t why actor occ ev op hid"
  note L = lock_asset_Inr [OF l]
  have db': "db' = write_db cls [?n] None db" using record_event_Inr(2) [OF r] .
  let ?u = "\<lambda>b. if is_asset org i b then hc_store cls hid t (b\<lparr>as_version := w\<rparr>) else b"
  have "assets db' = map ?u (assets db)"
    by (simp add: db' write_db_def history_class.assets_add [OF c] bump_def)
  moreover have "\<forall>b. as_id (?u b) = as_id b \<and> as_org (?u b) = as_org b"
    by (simp add: history_class.store_key [OF c])
  ultimately have "find_asset db' org i = map_option ?u (find_asset db org i)" by (rule find_asset_map)
  then show "find_asset db' org i = Some (hc_store cls hid t (a\<lparr>as_version := w\<rparr>))"
    using L by (simp add: is_asset_def)
  show "g = ?n" using record_event_Inr(1) [OF r] .
qed

lemma service_transition_Inr:
  assumes "service_transition sha256 storage x i v f t why occ ev op tid db = Inr (h, db')"
  shows "transition_asset x i v (Some f) (Some t) why occ ev op tid db = Inr (h, db')"
    "f \<noteq> ON_HOLD \<Longrightarrow> t \<in> set (LIFECYCLE f)" "t = RETIRED \<Longrightarrow> ev \<noteq> None"
    "f = ON_HOLD \<Longrightarrow> \<exists>p. hold_entry x db i = Inr p \<and> t \<in> set (allowed_states f p)"
  using assms
  by (auto simp: service_transition_def rbind_Inr_iff ensure_Inr_iff validate_edge_Inr_iff allowed_states_def
      split: if_splits)

lemma service_transition_edge:
  assumes "service_transition sha256 storage x i v f t why occ ev op tid db = Inr (h, db')"
  shows "\<exists>org a b latest. x_org x = Some org \<and> find_asset db org i = Some a \<and> v = Some (as_version a)
     \<and> latest_effective org i (asset_transitions db) = Some latest \<and> h_to latest = Some f
     \<and> as_state a = Some f \<and> t \<in> set (allowed_states f (h_from latest)) \<and> (t = RETIRED \<longrightarrow> ev \<noteq> None)
     \<and> h_from h = Some f \<and> h_to h = Some t
     \<and> find_asset db' org i = Some b \<and> as_state b = Some t \<and> as_version b = as_version a + 1"
proof -
  note S = service_transition_Inr [OF assms]
  obtain org actor a latest where T: "lock_asset x db i v = Inr (org, actor, a)"
    "latest_effective org i (asset_transitions db) = Some latest" "h_to latest = Some f" "as_state a = Some f"
    "record_event transitions x
       (event_row x org i (as_version a + 1) (Some f) (Some t) why actor occ ev op tid) db = Inr (h, db')"
    using transition_asset_Inr [OF S(1)] by metis
  note L = lock_asset_Inr [OF T(1)]
  have edge: "t \<in> set (allowed_states f (h_from latest))"
  proof (cases "f = ON_HOLD")
    case True
    then obtain p where p: "hold_entry x db i = Inr p" "t \<in> set (allowed_states f p)" using S(4) by blast
    then obtain c where c: "get_asset x db i = Inr c"
      "(case latest_effective (as_org c) i (asset_transitions db) of None \<Rightarrow> Inl Conflict
        | Some h \<Rightarrow> ensure (h_to h = Some ON_HOLD) Conflict (Inr (h_from h))) = Inr p"
      by (auto simp: hold_entry_def rbind_Inr_iff)
    have "as_org c = org" using get_asset_Inr(2) [OF c(1)] L(1) by simp
    then have "p = h_from latest" using c(2) T(2) by (simp add: ensure_Inr_iff)
    then show ?thesis using p(2) by simp
  next
    case False
    then show ?thesis using S(2) by (simp add: allowed_states_def split: option.splits)
  qed
  note E = event_find [OF T(1,5) transition.history_class_axioms]
  have "as_state (hc_store transitions tid (Some t) (a\<lparr>as_version := as_version a + 1\<rparr>)) = Some t"
    "as_version (hc_store transitions tid (Some t) (a\<lparr>as_version := as_version a + 1\<rparr>)) = as_version a + 1"
    by (simp_all add: transitions_def)
  then show ?thesis using L T(2-4) edge S(3) E by auto
qed

text \<open>
  C14: the transition service admits only edges of the lifecycle graph.  When it succeeds, the Asset
  was in the claimed state, the edge is in the graph, or leaves a hold through the state its
  effective history entered it from; retirement names evidence; and the Asset ends in the new state.
\<close>

theorem service_transition_legal:
  assumes "service_transition sha256 storage x i v f t why occ ev op tid db = Inr (h, db')"
  shows "\<exists>org a b latest. x_org x = Some org \<and> find_asset db org i = Some a \<and> v = Some (as_version a)
     \<and> latest_effective org i (asset_transitions db) = Some latest \<and> h_to latest = Some f
     \<and> as_state a = Some f \<and> t \<in> set (allowed_states f (h_from latest)) \<and> (t = RETIRED \<longrightarrow> ev \<noteq> None)
     \<and> h_from h = Some f \<and> h_to h = Some t
     \<and> find_asset db' org i = Some b \<and> as_state b = Some t \<and> as_version b = as_version a + 1"
  using service_transition_edge [OF assms] .

definition hash_stub :: "bytes \<Rightarrow> bytes" where
  "hash_stub b = replicate 32 0"

lemma ex_service_ok:
  "service_transition hash_stub None ex_ctx 100 (Some 2) RECEIVED IN_STOCK [114] (At 960) None None 104 ex_moved
     = Inr (ex_row 3 (Some RECEIVED) (Some IN_STOCK) [114] 960 104, ex_stocked)"
proof -
  have "RECEIVED \<noteq> ON_HOLD" "IN_STOCK \<noteq> RETIRED" "IN_STOCK \<in> set (allowed_states RECEIVED None)"
    by (simp_all add: allowed_states_def LIFECYCLE_def)
  then show ?thesis
    by (simp add: service_transition_def verify_asset_evidence_def validate_edge_def ex_transition_ok)
qed

theorem service_transition_legal_witness:
  "\<exists>b. find_asset ex_stocked 1 100 = Some b \<and> as_state b = Some IN_STOCK \<and> as_version b = 3"
proof -
  have "x_org ex_ctx = Some 1" by (simp add: ex_ctx_def)
  then show ?thesis using service_transition_legal [OF ex_service_ok] by force
qed

text \<open>
  Retirement is terminal: no transition request of the service succeeds on a retired Asset,
  whatever state, version and evidence it claims.
\<close>

theorem retired_is_terminal:
  assumes "x_org x = Some org" "find_asset db org i = Some a" "as_state a = Some RETIRED"
  shows "raised (service_transition sha256 storage x i v f t why occ ev op tid db)"
proof (cases "service_transition sha256 storage x i v f t why occ ev op tid db")
  case (Inr r)
  obtain h db' where r: "r = (h, db')" by (cases r)
  from service_transition_edge [OF Inr [unfolded r]] obtain latest :: "state_fact hrow" where
    "as_state a = Some f" "t \<in> set (allowed_states f (h_from latest))" using assms(1,2) by force
  then show ?thesis using assms(3) by simp
qed simp

theorem retired_is_terminal_witness:
  "raised (service_transition hash_stub None ex_ctx 100 (Some 4) RETIRED IN_STOCK [114] (At 999) None None 120 ex_retired)"
proof -
  have "x_org ex_ctx = Some 1" "find_asset ex_retired 1 100
      = Some (ex_asset\<lparr>as_location := Some 40, as_version := 4, as_state := Some RETIRED\<rparr>)" by code_simp+
  then show ?thesis by (rule retired_is_terminal) simp
qed

section \<open>Options\<close>

lemma reachable_latest:
  assumes "reachable db" "find_asset db org i = Some a"
  obtains s h where "latest_effective org i (asset_transitions db) = Some h" "h_to h = Some s" "as_state a = Some s"
    "h_version h \<le> as_version a" "s = ON_HOLD \<longrightarrow> h_from h \<noteq> None"
proof -
  have ok: "fleet_ok db" using reachable_fleet_ok [OF assms(1)] .
  note F = ok_find_asset [OF ok assms(2)]
  obtain h where h: "latest_effective org i (asset_transitions db) = Some h" "as_state a = h_to h"
    using projections_lemma [OF assms(1) F(1)] F(2,3) by metis
  have in_rows: "h \<in> set (asset_transitions db)" "of_asset org i h" using latest_effective_in [OF h(1)] .
  then have v: "h_version h \<le> as_version a"
    using transition_fleet.version_bound [OF F(4)] F(2,3) by (simp add: transitions_def)
  have "h_to h \<noteq> None" "transition_admit h"
    using reachable_admitted [OF assms(1)] in_rows(1) by (simp_all add: admitted_def)
  then obtain s where "h_to h = Some s" "s = ON_HOLD \<longrightarrow> h_from h \<noteq> None"
    by (auto simp: transition_admit_def)
  then show ?thesis using that h v by simp
qed

definition edge_accepted :: "ctx \<Rightarrow> fleet \<Rightarrow> uuid \<Rightarrow> asset_state \<Rightarrow> asset_state \<Rightarrow> bool" where
  "edge_accepted x db i s t \<longleftrightarrow>
     (if s = ON_HOLD then rbind (hold_entry x db i) (validate_edge s t) = Inr ()
      else validate_edge s t None = Inr ())"

text \<open>
  The options offered are the edges admitted.  In a reachable fleet \<open>transition_options\<close> answers
  for every visible Asset with its state and version and lists, in order and without repetition,
  exactly the states that the graph check of the transition service accepts.
\<close>

theorem options_are_edges:
  assumes "reachable db" "get_asset x db i = Inr a"
  shows "\<exists>c. transition_options x db i = Inr c \<and> as_state a = Some (tc_state c) \<and> tc_version c = as_version a
     \<and> (\<forall>t. t \<in> fst ` set (tc_options c) \<longleftrightarrow> edge_accepted x db i (tc_state c) t)
     \<and> sorted (map fst (tc_options c)) \<and> distinct (map fst (tc_options c))"
proof -
  note G = get_asset_Inr [OF assms(2)]
  obtain s h where h: "latest_effective (as_org a) i (asset_transitions db) = Some h" "h_to h = Some s"
    "as_state a = Some s" "h_version h \<le> as_version a" "s = ON_HOLD \<longrightarrow> h_from h \<noteq> None"
    using reachable_latest [OF assms(1) G(4)] by metis
  let ?o = "sort (remdups (allowed_states s (h_from h)))"
  let ?c = "\<lparr>tc_asset = i, tc_version = as_version a, tc_state = s, tc_options = map (\<lambda>t. (t, t = RETIRED)) ?o\<rparr>"
  have "transition_options x db i = Inr ?c"
    using h G(3) by (simp add: transition_options_def assms(2))
  moreover have "edge_accepted x db i s t \<longleftrightarrow> t \<in> set (allowed_states s (h_from h))" for t
    using h by (auto simp: edge_accepted_def hold_entry_def assms(2) validate_edge_def allowed_states_def
        split: option.splits)
  then have "\<forall>t. t \<in> fst ` set (tc_options ?c) \<longleftrightarrow> edge_accepted x db i (tc_state ?c) t"
    by (simp add: image_image)
  moreover have "map fst (tc_options ?c) = ?o" by (simp add: comp_def)
  then have "sorted (map fst (tc_options ?c))" "distinct (map fst (tc_options ?c))" by simp_all
  moreover have "as_state a = Some (tc_state ?c)" "tc_version ?c = as_version a" using h(3) by simp_all
  ultimately show ?thesis by blast
qed

theorem options_are_edges_witness:
  "\<exists>c. transition_options ex_ctx ex_corrected 100 = Inr c \<and> tc_state c = ON_HOLD"
proof -
  have "get_asset ex_ctx ex_corrected 100 = Inr ex_final_asset" by code_simp
  from options_are_edges [OF ex_corrected_reachable this] show ?thesis by force
qed

section \<open>Edits and reconciliation\<close>

text \<open>
  An edit describes only: \<open>patch_asset\<close> is a step of the fleet that changes no field of any Asset
  but the tag, the description and the attribution of the one it names; its version stands.
\<close>

theorem patch_describes_only:
  assumes "patch_asset x i performer values db = Inr (r, db')"
  shows "fleet_step x db db' \<and> (\<exists>a. get_asset x db i = Inr a
     \<and> find_asset db' (as_org a) i = Some (a\<lparr>as_tag := as_tag r, as_description := as_description r,
          as_updated_by := as_updated_by r, as_updated_at := as_updated_at r\<rparr>)
     \<and> (\<forall>org j. (org, j) \<noteq> (as_org a, i) \<longrightarrow> find_asset db' org j = find_asset db org j))"
proof -
  obtain a where a: "get_asset x db i = Inr a"
    and u: "update_described x (edit_asset values performer (x_now x) a) db = Inr (r, db')"
    using assms by (auto simp: patch_asset_def ensure_Inr_iff rbind_Inr_iff)
  note G = get_asset_Inr [OF a]
  have key: "as_org r = as_org a" "as_id r = i"
    using u G(3) by (auto simp: update_described_def rbind_Inr_iff ensure_Inr_iff enforce_authenticated_updater_def
        edit_asset_def split: if_splits)
  let ?e = "\<lambda>b. b\<lparr>as_tag := as_tag r, as_description := as_description r,
                  as_updated_by := as_updated_by r, as_updated_at := as_updated_at r\<rparr>"
  let ?w = "\<lambda>b. if is_asset (as_org a) i b then ?e b else b"
  have db': "db' = set_asset (as_org a) i ?e db"
    using u key by (auto simp: update_described_def rbind_Inr_iff ensure_Inr_iff)
  have "describes ?w" by (simp add: describes_def)
  then have "fleet_step x db db'" by (rule fleet_step.describe) (simp add: db' set_asset_def)
  moreover have f: "find_asset db' org j = map_option ?w (find_asset db org j)" for org j
    by (rule find_asset_map) (simp_all add: db')
  have "find_asset db' (as_org a) i = Some (?e a)" using f G by (simp add: is_asset_def)
  moreover have "find_asset db' org j = find_asset db org j" if "(org, j) \<noteq> (as_org a, i)" for org j
    unfolding f using that by (cases "find_asset db org j") (auto simp: is_asset_def dest: find_asset_in)
  ultimately show ?thesis using a by blast
qed

definition ex_patched :: fleet where
  "ex_patched = ex_moved
     \<lparr>assets := [ex_asset\<lparr>as_location := Some 40, as_version := 2, as_tag := [90]\<rparr>]\<rparr>"

theorem patch_describes_only_witness:
  "fleet_step ex_ctx ex_moved ex_patched"
proof -
  have "patch_asset ex_ctx 100 10 [(''asset_tag'', [90])] ex_moved
      = Inr (ex_asset\<lparr>as_location := Some 40, as_version := 2, as_tag := [90]\<rparr>, ex_patched)" by code_simp
  from patch_describes_only [OF this] show ?thesis by blast
qed

text \<open>In a reachable fleet the state reconciliation reports no Asset, to any tenant.\<close>

theorem state_reconciliation_clean:
  assumes "reachable db"
  shows "reconcile_state x db = []"
proof -
  have "state_problems db a = []" if a: "a \<in> set (assets db)" for a
  proof -
    have "distinct (map as_id (assets db))" using reachable_fleet_ok [OF assms] by (simp add: fleet_ok_def)
    then have "find_asset db (as_org a) (as_id a) = Some a" using a by (rule find_asset_self)
    then show ?thesis
      by (rule reachable_latest [OF assms]) (simp add: state_problems_def)
  qed
  then show ?thesis by (auto simp: reconcile_state_def list_assets_def filter_empty_conv)
qed

theorem state_reconciliation_clean_witness:
  "reconcile_state ex_ctx ex_corrected = []"
  using state_reconciliation_clean [OF ex_corrected_reachable] .

end
