(* ===== verification/Reconciliation.thy ===== *)
theory Reconciliation
  imports AssetService
begin

text \<open>
  Reconciliation: \<open>RECONCILIATION_SQL\<close> and \<open>reconcile_assets\<close> of \<open>domain/asset_facts.py\<close>, the
  lifecycle check of \<open>domain/corrections.py\<close> and the aggregate of \<open>domain/reconciliation.py\<close>.  The
  queries only read; what they report is compared with the invariant of the operations.
\<close>

section \<open>Version coverage\<close>

text \<open>
  The gaps between the observed versions, with 0 and the next version as sentinels; a version
  produced twice; a version ahead of the Asset.
\<close>

fun gaps_between :: "int list \<Rightarrow> (int \<times> int) list" where
  "gaps_between (p # v # vs) = (if v > p + 1 then [(p + 1, v - 1)] else []) @ gaps_between (v # vs)"
| "gaps_between _ = []"

definition missing_ranges :: "int list \<Rightarrow> int \<Rightarrow> (int \<times> int) list" where
  "missing_ranges vs n = gaps_between (sort (0 # (n + 1) # filter (\<lambda>v. 1 \<le> v \<and> v \<le> n) (remdups vs)))"

definition duplicate_versions :: "int list \<Rightarrow> int list" where
  "duplicate_versions vs = sort (filter (\<lambda>v. count_list vs v > 1) (remdups vs))"

definition ahead_versions :: "int list \<Rightarrow> int \<Rightarrow> int list" where
  "ahead_versions vs n = sort (filter (\<lambda>v. v > n) (remdups vs))"

section \<open>Discrepancies of one Asset\<close>

datatype discrepancy =
    correction_history_malformed | missing_history | state_mismatch | history_version_ahead
  | missing_initial_facts | initial_location_projection_mismatch | initial_custody_projection_mismatch
  | initial_ownership_projection_mismatch | movement_projection_mismatch | custody_projection_mismatch
  | ownership_projection_mismatch | movement_history_version_ahead | custody_history_version_ahead
  | ownership_history_version_ahead | missing_initial_assignment_facts
  | assignment_projection_without_history | assignment_projection_mismatch | assignment_target_invalid
  | assignment_history_version_ahead | global_version_missing | global_version_duplicate
  | global_history_version_ahead | illegal_corrected_lifecycle

definition flag :: "bool \<Rightarrow> discrepancy \<Rightarrow> discrepancy list" where
  "flag b d = (if b then [d] else [])"

definition ahead_of :: "'f hrow option \<Rightarrow> asset_row \<Rightarrow> bool" where
  "ahead_of h a \<longleftrightarrow> (case h of None \<Rightarrow> False | Some l \<Rightarrow> h_version l > as_version a)"

text \<open>A projection differs from the latest event, and from the baseline before any event.\<close>

definition differs :: "ref_fact hrow option \<Rightarrow> ref_fact \<Rightarrow> bool" where
  "differs h projection \<longleftrightarrow> (case h of None \<Rightarrow> False | Some l \<Rightarrow> projection \<noteq> h_to l)"

definition baseline_differs ::
  "ref_fact hrow option \<Rightarrow> initial_row option \<Rightarrow> (initial_row \<Rightarrow> ref_fact) \<Rightarrow> ref_fact \<Rightarrow> bool" where
  "baseline_differs h b field projection \<longleftrightarrow> h = None \<and> (case b of None \<Rightarrow> False | Some r \<Rightarrow> projection \<noteq> field r)"

definition assignment_target_valid :: "fleet \<Rightarrow> asset_row \<Rightarrow> bool" where
  "assignment_target_valid db a \<longleftrightarrow> (\<exists>h \<in> set (asset_assignment_events db).
     h_org h = as_org a \<and> Some (h_id h) = as_assignment a \<and> h_asset h = as_id a)"

definition discrepancies :: "fleet \<Rightarrow> asset_row \<Rightarrow> discrepancy list" where
  "discrepancies db a =
     (let org = as_org a; i = as_id a;
          b = initial_facts db org i; w = initial_assignment db org i;
          t = latest_effective org i (asset_transitions db);
          m = latest_effective org i (asset_movements db);
          c = latest_effective org i (asset_custody_changes db);
          r = latest_effective org i (asset_ownership_changes db);
          e = latest_effective org i (asset_assignment_events db);
          vs = raw_versions db org i; n = as_version a
      in flag (i \<in> set (asset_correction_anomalies db)) correction_history_malformed
       @ flag (t = None) missing_history
       @ flag (case t of None \<Rightarrow> False | Some l \<Rightarrow> as_state a \<noteq> h_to l) state_mismatch
       @ flag (ahead_of t a) history_version_ahead
       @ flag (b = None) missing_initial_facts
       @ flag (baseline_differs m b b_location (as_location a)) initial_location_projection_mismatch
       @ flag (baseline_differs c b b_custodian (as_custodian a)) initial_custody_projection_mismatch
       @ flag (baseline_differs r b b_owner (as_owner a)) initial_ownership_projection_mismatch
       @ flag (differs m (as_location a)) movement_projection_mismatch
       @ flag (differs c (as_custodian a)) custody_projection_mismatch
       @ flag (differs r (as_owner a)) ownership_projection_mismatch
       @ flag (ahead_of m a) movement_history_version_ahead
       @ flag (ahead_of c a) custody_history_version_ahead
       @ flag (ahead_of r a) ownership_history_version_ahead
       @ flag (w = None) missing_initial_assignment_facts
       @ flag (e = None \<and> as_assignment a \<noteq> None) assignment_projection_without_history
       @ flag (case e of None \<Rightarrow> False
               | Some l \<Rightarrow> as_assignment a \<noteq> (if snd (h_to l) \<noteq> None then Some (h_id l) else None))
           assignment_projection_mismatch
       @ flag (as_assignment a \<noteq> None \<and> \<not> assignment_target_valid db a) assignment_target_invalid
       @ flag (ahead_of e a) assignment_history_version_ahead
       @ flag (missing_ranges vs n \<noteq> []) global_version_missing
       @ flag (duplicate_versions vs \<noteq> []) global_version_duplicate
       @ flag (ahead_versions vs n \<noteq> []) global_history_version_ahead)"

definition reconciliation_sql :: "ctx \<Rightarrow> fleet \<Rightarrow> uuid list \<Rightarrow> (asset_row \<times> discrepancy list) list" where
  "reconciliation_sql x db invalid =
     filter (\<lambda>r. snd r \<noteq> [] \<or> as_id (fst r) \<in> set invalid)
       (map (\<lambda>a. (a, discrepancies db a)) (list_assets x db))"

section \<open>Corrected lifecycle edges\<close>

record lifecycle_row =
  lr_org :: uuid
  lr_asset :: uuid
  lr_to :: state_fact
  lr_previous :: state_fact
  lr_from :: state_fact
  lr_disposal_valid :: bool

definition lifecycle_row_of :: "fleet \<Rightarrow> state_fact hrow \<Rightarrow> state_fact hrow \<Rightarrow> lifecycle_row" where
  "lifecycle_row_of db c r =
     (let p = latest_before (h_org c) (h_asset c) (h_version r) (asset_transitions db) in
      \<lparr>lr_org = h_org c, lr_asset = h_asset c, lr_to = h_to c,
       lr_previous = (case p of None \<Rightarrow> None | Some q \<Rightarrow> h_from q),
       lr_from = (case p of None \<Rightarrow> None | Some q \<Rightarrow> h_to q),
       lr_disposal_valid =
         valid_asset_evidence db (h_org c) (h_evidence c) (h_asset c) (Some DISPOSAL_EVIDENCE)\<rparr>)"

definition lifecycle_rows :: "ctx \<Rightarrow> fleet \<Rightarrow> uuid option \<Rightarrow> lifecycle_row list" where
  "lifecycle_rows x db i =
     concat (map (\<lambda>c. map (lifecycle_row_of db c)
         (filter (\<lambda>r. of_asset (h_org c) (h_asset c) r \<and> h_root c = Some (h_id r)) (asset_transitions db)))
       (filter (\<lambda>c. visible x (h_org c) \<and> h_role c = CORRECTED \<and> holds_if (\<lambda>j. h_asset c = j) i)
          (asset_transitions db)))"

definition lifecycle_illegal :: "lifecycle_row \<Rightarrow> bool" where
  "lifecycle_illegal r \<longleftrightarrow>
     (case (lr_from r, lr_to r) of
        (Some s, Some t) \<Rightarrow> (t = RETIRED \<and> \<not> lr_disposal_valid r) \<or> raised (validate_edge s t (lr_previous r))
      | _ \<Rightarrow> True)"

text \<open>One issue per Asset, in order of first occurrence; the organization of the last one.\<close>

definition classify_lifecycle_issues :: "lifecycle_row list \<Rightarrow> (uuid \<times> uuid) list" where
  "classify_lifecycle_issues rows =
     map (\<lambda>(i, org). (org, i))
       (fold (\<lambda>r d. dict_set (lr_asset r) (lr_org r) d) (filter lifecycle_illegal rows) [])"

definition lifecycle_correction_issues :: "ctx \<Rightarrow> fleet \<Rightarrow> uuid option \<Rightarrow> (uuid \<times> uuid) list" where
  "lifecycle_correction_issues x db i = classify_lifecycle_issues (lifecycle_rows x db i)"

definition reconcile_assets :: "ctx \<Rightarrow> fleet \<Rightarrow> (asset_row \<times> discrepancy list) list" where
  "reconcile_assets x db =
     (let invalid = map snd (lifecycle_correction_issues x db None) in
      map (\<lambda>(a, ds). (a, if as_id a \<in> set invalid then ds @ [illegal_corrected_lifecycle] else ds))
        (reconciliation_sql x db invalid))"

section \<open>The aggregate\<close>

text \<open>
  \<open>reconciliation_health\<close> merges the three authorities of one snapshot: the Asset rows, the rows of
  the view \<open>correction_anomalies\<close> (entity type, entity) and the lifecycle issues.
\<close>

record health =
  hl_discrepancies :: nat
  hl_assets :: nat
  hl_records :: nat
  hl_rows :: "(uuid \<times> discrepancy list) list"

definition merge_issue :: "uuid set \<Rightarrow> uuid \<Rightarrow> (uuid \<times> discrepancy list) list \<Rightarrow> (uuid \<times> discrepancy list) list" where
  "merge_issue known i rows =
     (if i \<in> known
      then map (\<lambda>(j, ds). (j, if j = i then ds @ [illegal_corrected_lifecycle] else ds)) rows
      else rows @ [(i, [illegal_corrected_lifecycle])])"

definition reconciliation_health ::
  "(uuid \<times> discrepancy list) list \<Rightarrow> (string \<times> uuid) list \<Rightarrow> lifecycle_row list \<Rightarrow> health" where
  "reconciliation_health reports corrections lifecycle =
     (let issues = map snd (classify_lifecycle_issues lifecycle);
          rows = fold (merge_issue (set (map fst reports))) issues reports;
          touched = remdups (map (Pair ''ASSET'') (map fst rows));
          affected = remdups (corrections @ map (Pair ''ASSET'') issues @ touched)
      in \<lparr>hl_discrepancies = length affected, hl_assets = length (remdups (map fst rows)),
          hl_records = length (filter (\<lambda>k. k \<notin> set touched) affected), hl_rows = rows\<rparr>)"

section \<open>Version coverage is exact\<close>

lemma gaps_between_exact:
  "sorted ps \<Longrightarrow> ps \<noteq> [] \<Longrightarrow>
   (\<exists>(lo, hi) \<in> set (gaps_between ps). lo \<le> n \<and> n \<le> hi) \<longleftrightarrow> hd ps < n \<and> n < last ps \<and> n \<notin> set ps"
proof (induction ps rule: gaps_between.induct)
  case (1 p v vs)
  have IH: "(\<exists>(lo, hi) \<in> set (gaps_between (v # vs)). lo \<le> n \<and> n \<le> hi)
      \<longleftrightarrow> v < n \<and> n < last (v # vs) \<and> n \<notin> set (v # vs)"
    using 1 by simp
  have s: "p \<le> v" "\<forall>w \<in> set vs. v \<le> w" using "1.prems"(1) by auto
  have l: "v \<le> last (v # vs)" using s(2) by (cases vs rule: rev_cases) auto
  have "(\<exists>(lo, hi) \<in> set (gaps_between (p # v # vs)). lo \<le> n \<and> n \<le> hi)
      \<longleftrightarrow> (p < n \<and> n < v) \<or> (v < n \<and> n < last (v # vs) \<and> n \<notin> set (v # vs))"
    using IH by auto
  also have "\<dots> \<longleftrightarrow> hd (p # v # vs) < n \<and> n < last (p # v # vs) \<and> n \<notin> set (p # v # vs)"
    using s l by auto
  finally show ?case .
qed auto

lemma sorted_hd: "sorted ps \<Longrightarrow> m \<in> set ps \<Longrightarrow> \<forall>w \<in> set ps. m \<le> w \<Longrightarrow> hd ps = (m::int)"
  by (cases ps) (auto simp: order_antisym)

lemma sorted_last: "sorted ps \<Longrightarrow> m \<in> set ps \<Longrightarrow> \<forall>w \<in> set ps. w \<le> m \<Longrightarrow> last ps = (m::int)"
  by (cases ps rule: rev_cases) (auto simp: sorted_append intro: order_antisym)

lemma ranges_ends:
  assumes "0 \<le> (n::int)" "ps = sort (0 # (n + 1) # filter (\<lambda>v. 1 \<le> v \<and> v \<le> n) (remdups vs))"
  shows "set ps = {0, n + 1} \<union> {v \<in> set vs. 1 \<le> v \<and> v \<le> n}" "sorted ps" "ps \<noteq> []" "hd ps = 0" "last ps = n + 1"
proof -
  show s: "set ps = {0, n + 1} \<union> {v \<in> set vs. 1 \<le> v \<and> v \<le> n}"
    unfolding assms(2) set_sort by auto
  show o: "sorted ps" unfolding assms(2) by (rule sorted_sort)
  show "ps \<noteq> []" using s by auto
  show "hd ps = 0" by (rule sorted_hd [OF o]) (use s assms(1) in auto)
  show "last ps = n + 1" by (rule sorted_last [OF o]) (use s assms(1) in auto)
qed

lemma missing_range_iff:
  assumes "0 \<le> n"
  shows "(\<exists>(lo, hi) \<in> set (missing_ranges vs n). lo \<le> v \<and> v \<le> hi) \<longleftrightarrow> 1 \<le> v \<and> v \<le> n \<and> v \<notin> set vs"
proof -
  note R = ranges_ends [OF assms refl, of vs]
  show ?thesis
    unfolding missing_ranges_def gaps_between_exact [OF R(2,3)] R(1,4,5) by auto
qed

text \<open>
  The reported gaps are exact: a version lies in one of the missing ranges of an Asset exactly
  when it is between 1 and the Asset's version and no history row of the Asset carries it.
\<close>

theorem missing_ranges_exact:
  assumes "0 \<le> n"
  shows "(\<exists>(lo, hi) \<in> set (missing_ranges vs n). lo \<le> v \<and> v \<le> hi) \<longleftrightarrow> 1 \<le> v \<and> v \<le> n \<and> v \<notin> set vs"
  using missing_range_iff [OF assms] .

theorem missing_ranges_exact_witness:
  "missing_ranges [1, 2, 5, 9] 7 = [(3, 4), (6, 7)]
     \<and> (\<exists>(lo, hi) \<in> set (missing_ranges [1, 2, 5, 9] 7). lo \<le> 6 \<and> (6::int) \<le> hi)"
proof -
  have "missing_ranges [1, 2, 5, 9] 7 = [(3, 4), (6, 7)]" by code_simp
  then show ?thesis using missing_ranges_exact [of 7 "[1, 2, 5, 9]" 6] by simp
qed

lemma gaps_between_nonempty: "(lo, hi) \<in> set (gaps_between ps) \<Longrightarrow> lo \<le> hi"
  by (induction ps rule: gaps_between.induct) auto

lemma no_missing_iff:
  assumes "0 \<le> n"
  shows "missing_ranges vs n = [] \<longleftrightarrow> {1..n} \<subseteq> set vs"
proof
  assume "missing_ranges vs n = []"
  then show "{1..n} \<subseteq> set vs" using missing_range_iff [OF assms, of vs] by auto
next
  assume s: "{1..n} \<subseteq> set vs"
  show "missing_ranges vs n = []"
  proof (rule ccontr)
    assume "missing_ranges vs n \<noteq> []"
    then obtain lo hi where m: "(lo, hi) \<in> set (missing_ranges vs n)" by (cases "missing_ranges vs n") auto
    then have "lo \<le> hi" using gaps_between_nonempty by (simp add: missing_ranges_def)
    then have "1 \<le> lo \<and> lo \<le> n \<and> lo \<notin> set vs" using missing_range_iff [OF assms, of vs lo] m by force
    then show False using s by auto
  qed
qed

lemma sort_Nil_iff: "sort xs = [] \<longleftrightarrow> xs = []"
  by (metis set_empty set_sort)

lemma count_list_distinct: "(\<forall>v \<in> set vs. count_list vs v \<le> 1) \<longleftrightarrow> distinct vs"
proof (induction vs)
  case Nil
  then show ?case by simp
next
  case (Cons a vs)
  have "(\<forall>v \<in> set (a # vs). count_list (a # vs) v \<le> 1)
      \<longleftrightarrow> a \<notin> set vs \<and> (\<forall>v \<in> set vs. count_list vs v \<le> 1)"
    by (auto simp: count_list_0_iff)
  then show ?case using Cons by simp
qed

lemma no_duplicate_iff: "duplicate_versions vs = [] \<longleftrightarrow> distinct vs"
  unfolding duplicate_versions_def sort_Nil_iff filter_empty_conv count_list_distinct [symmetric]
  by (auto simp: not_less)

lemma no_ahead_iff: "ahead_versions vs n = [] \<longleftrightarrow> (\<forall>v \<in> set vs. v \<le> n)"
  unfolding ahead_versions_def sort_Nil_iff filter_empty_conv by (auto simp: not_less)

lemma version_checks_iff:
  assumes "0 \<le> n" "\<forall>v \<in> set vs. 1 \<le> v"
  shows "(missing_ranges vs n = [] \<and> duplicate_versions vs = [] \<and> ahead_versions vs n = [])
     \<longleftrightarrow> mset vs = mset [1..n]"
proof
  assume "missing_ranges vs n = [] \<and> duplicate_versions vs = [] \<and> ahead_versions vs n = []"
  then have "set vs = set [1..n]" "distinct vs"
    using assms(2) by (auto simp: no_missing_iff [OF assms(1)] no_duplicate_iff no_ahead_iff)
  then show "mset vs = mset [1..n]" using set_eq_iff_mset_eq_distinct [of vs "[1..n]"] by simp
next
  assume m: "mset vs = mset [1..n]"
  then have "set vs = {1..n}" using mset_eq_setD by fastforce
  moreover have "distinct vs" using mset_eq_imp_distinct_iff [OF m] by simp
  ultimately show "missing_ranges vs n = [] \<and> duplicate_versions vs = [] \<and> ahead_versions vs n = []"
    by (auto simp: no_missing_iff [OF assms(1)] no_duplicate_iff no_ahead_iff)
qed

text \<open>
  The three global version checks are complete: for positive versions they are silent together
  exactly when the Asset's rows carry the versions 1 to its version, each once.
\<close>

theorem version_checks_complete:
  assumes "0 \<le> n" "\<forall>v \<in> set vs. 1 \<le> v"
  shows "(missing_ranges vs n = [] \<and> duplicate_versions vs = [] \<and> ahead_versions vs n = [])
     \<longleftrightarrow> mset vs = mset [1..n]"
  using version_checks_iff [OF assms] .

theorem version_checks_complete_witness:
  "duplicate_versions [2, 1, 3, 2] = [2]
     \<and> (missing_ranges [2, 1, 3] 3 = [] \<and> duplicate_versions [2, 1, 3] = [] \<and> ahead_versions [2, 1, 3] 3 = [])"
proof -
  have "mset [2, 1, 3::int] = mset [1..3]" by (simp add: upto_rec1)
  moreover have "duplicate_versions [2, 1, 3, 2] = [2]" by code_simp
  ultimately show ?thesis using version_checks_complete [of 3 "[2, 1, 3]"] by simp
qed

section \<open>A clean report\<close>

lemma not_ahead_of:
  assumes "\<And>h. h \<in> set rows \<Longrightarrow> of_asset org i h \<Longrightarrow> h_version h \<le> as_version a"
  shows "\<not> ahead_of (latest_effective org i rows) a"
  using assms latest_effective_in [of org i rows]
  by (cases "latest_effective org i rows") (force simp: ahead_of_def not_less)+

lemma not_ahead:
  assumes "reachable db" "a \<in> set (assets db)"
  shows "\<not> ahead_of (latest_effective (as_org a) (as_id a) (asset_transitions db)) a"
    "\<not> ahead_of (latest_effective (as_org a) (as_id a) (asset_movements db)) a"
    "\<not> ahead_of (latest_effective (as_org a) (as_id a) (asset_custody_changes db)) a"
    "\<not> ahead_of (latest_effective (as_org a) (as_id a) (asset_ownership_changes db)) a"
    "\<not> ahead_of (latest_effective (as_org a) (as_id a) (asset_assignment_events db)) a"
proof -
  have ok: "asset_ok db a" using reachable_fleet_ok [OF assms(1)] assms(2) by (simp add: fleet_ok_def)
  show "\<not> ahead_of (latest_effective (as_org a) (as_id a) (asset_transitions db)) a"
    by (rule not_ahead_of) (use transition_fleet.version_bound [OF ok] in \<open>simp add: transitions_def\<close>)
  show "\<not> ahead_of (latest_effective (as_org a) (as_id a) (asset_movements db)) a"
    by (rule not_ahead_of) (use movement_fleet.version_bound [OF ok] in \<open>simp add: movements_def\<close>)
  show "\<not> ahead_of (latest_effective (as_org a) (as_id a) (asset_custody_changes db)) a"
    by (rule not_ahead_of) (use custodian_fleet.version_bound [OF ok] in \<open>simp add: custody_def\<close>)
  show "\<not> ahead_of (latest_effective (as_org a) (as_id a) (asset_ownership_changes db)) a"
    by (rule not_ahead_of) (use owner_fleet.version_bound [OF ok] in \<open>simp add: ownership_def\<close>)
  show "\<not> ahead_of (latest_effective (as_org a) (as_id a) (asset_assignment_events db)) a"
    by (rule not_ahead_of) (use assignment_fleet.version_bound [OF ok] in \<open>simp add: assignments_def\<close>)
qed

lemma assignment_target:
  assumes "reachable db" "a \<in> set (assets db)" "as_assignment a \<noteq> None"
  shows "assignment_target_valid db a"
proof -
  obtain l where l: "latest_effective (as_org a) (as_id a) (asset_assignment_events db) = Some l"
    "as_assignment a = Some (h_id l)"
    using projections_lemma [OF assms(1,2)] assms(3) by (auto split: option.splits if_splits)
  then show ?thesis
    using latest_effective_in [OF l(1)] by (auto simp: assignment_target_valid_def of_asset_def)
qed

lemma flag_simps [simp]: "flag False d = []" "flag b d = [] \<longleftrightarrow> \<not> b"
  by (simp_all add: flag_def)

text \<open>
  In a reachable fleet the reconciliation query reports no Asset of any tenant: none of its 22
  checks, from malformed corrections to missing, duplicate and future versions, ever fires.
\<close>

theorem reconciliation_clean:
  assumes "reachable db"
  shows "reconciliation_sql x db [] = []"
proof -
  have ok: "fleet_ok db" using reachable_fleet_ok [OF assms] .
  have "discrepancies db a = []" if a: "a \<in> set (assets db)" for a
  proof -
    note P = projections_lemma [OF assms a] and A = not_ahead [OF assms a]
      and T = assignment_target [OF assms a]
    have "asset_ok db a" using ok a by (simp add: fleet_ok_def)
    then have b: "initial_facts db (as_org a) (as_id a) \<noteq> None"
      "initial_assignment db (as_org a) (as_id a) \<noteq> None" and n: "0 \<le> as_version a"
      and m: "mset (raw_versions db (as_org a) (as_id a)) = mset [1..as_version a]" by (simp_all add: asset_ok_def)
    have "set (raw_versions db (as_org a) (as_id a)) = {1..as_version a}" using mset_eq_setD [OF m] by simp
    then have v: "\<forall>v \<in> set (raw_versions db (as_org a) (as_id a)). 1 \<le> v" by simp
    note V = version_checks_iff [OF n v, THEN iffD2, OF m]
    show ?thesis
      unfolding discrepancies_def Let_def append_is_Nil_conv flag_simps
      using P A T b V ok_anomalies(6) [OF ok]
      by (auto simp: differs_def baseline_differs_def ref_initial_def split: option.splits)
  qed
  then show ?thesis by (auto simp: reconciliation_sql_def list_assets_def filter_empty_conv)
qed

theorem reconciliation_clean_witness: "reconciliation_sql ex_ctx ex_corrected [] = []"
  using reconciliation_clean [OF ex_corrected_reachable] .

lemma filter_not_in_length:
  assumes "distinct xs" "distinct ys" "set ys \<subseteq> set xs"
  shows "length xs = length ys + length (filter (\<lambda>k. k \<notin> set ys) xs)"
proof -
  have "set (filter (\<lambda>k. k \<in> set ys) xs) = set ys" using assms(3) by auto
  moreover have "distinct (filter (\<lambda>k. k \<in> set ys) xs)" using assms(1) by simp
  ultimately have "length (filter (\<lambda>k. k \<in> set ys) xs) = length ys"
    using assms(2) by (metis distinct_card)
  then show ?thesis using sum_length_filter_compl [of "\<lambda>k. k \<in> set ys" xs] by simp
qed

lemma merge_issue_facts:
  "set (map fst (merge_issue K i rs)) = set (map fst rs) \<union> ({i} - K)
     \<or> i \<in> K \<and> set (map fst (merge_issue K i rs)) = set (map fst rs)"
  "merge_issue K i rs = [] \<Longrightarrow> rs = []"
proof -
  have "map fst (map (\<lambda>(j, ds). (j, if j = i then ds @ [illegal_corrected_lifecycle] else ds)) rs) = map fst rs"
    by (induction rs) auto
  then show "set (map fst (merge_issue K i rs)) = set (map fst rs) \<union> ({i} - K)
     \<or> i \<in> K \<and> set (map fst (merge_issue K i rs)) = set (map fst rs)"
    unfolding merge_issue_def by (cases "i \<in> K") (simp_all del: map_map, blast)
  show "merge_issue K i rs = [] \<Longrightarrow> rs = []" by (simp add: merge_issue_def split: if_splits)
qed

lemma merged_keys:
  "K \<subseteq> set (map fst rs) \<Longrightarrow> set (map fst (fold (merge_issue K) js rs)) = set (map fst rs) \<union> set js"
proof (induction js arbitrary: rs)
  case Nil
  then show ?case by simp
next
  case (Cons i js)
  have m: "set (map fst (merge_issue K i rs)) = set (map fst rs) \<union> {i}"
    using merge_issue_facts(1) [of K i rs] Cons.prems by auto
  have "set (map fst (fold (merge_issue K) js (merge_issue K i rs)))
      = set (map fst (merge_issue K i rs)) \<union> set js"
    by (rule Cons.IH) (use Cons.prems m in auto)
  then show ?case using m by auto
qed

lemma remdups_Pair: "length (remdups (map (Pair e) xs)) = length (remdups xs)"
proof -
  have "card (Pair e ` set xs) = card (set xs)" by (intro card_image inj_onI) simp
  then show ?thesis by (simp only: length_remdups_card_conv set_map)
qed

lemma fold_dict_nonempty: "d \<noteq> [] \<Longrightarrow> fold (\<lambda>r d. dict_set (lr_asset r) (lr_org r) d) rs d \<noteq> []"
proof (induction rs arbitrary: d)
  case (Cons r rs)
  have "dict_set (lr_asset r) (lr_org r) d \<noteq> []" by (cases d) (auto split: if_splits)
  then show ?case using Cons.IH by simp
qed simp

lemma classify_none: "classify_lifecycle_issues rows = [] \<longleftrightarrow> filter lifecycle_illegal rows = []"
  by (cases "filter lifecycle_illegal rows") (auto simp: classify_lifecycle_issues_def fold_dict_nonempty)

text \<open>
  The health counts add up and miss nothing: every affected entity is counted once, either as an
  Asset or as another record, and the count is zero exactly when all three authorities are silent.
\<close>

theorem health_counts:
  shows "hl_discrepancies (reconciliation_health reports corrections lifecycle)
      = hl_assets (reconciliation_health reports corrections lifecycle)
        + hl_records (reconciliation_health reports corrections lifecycle)
     \<and> (hl_discrepancies (reconciliation_health reports corrections lifecycle) = 0
        \<longleftrightarrow> reports = [] \<and> corrections = [] \<and> filter lifecycle_illegal lifecycle = [])"
proof -
  let ?issues = "map snd (classify_lifecycle_issues lifecycle)"
  let ?rows = "fold (merge_issue (set (map fst reports))) ?issues reports"
  let ?touched = "remdups (map (Pair ''ASSET'') (map fst ?rows))"
  let ?affected = "remdups (corrections @ map (Pair ''ASSET'') ?issues @ ?touched)"
  have k: "set (map fst ?rows) = set (map fst reports) \<union> set ?issues" by (rule merged_keys) simp
  have "length ?affected = length ?touched + length (filter (\<lambda>k. k \<notin> set ?touched) ?affected)"
    by (rule filter_not_in_length) auto
  moreover have "length ?touched = length (remdups (map fst ?rows))"
    by (rule remdups_Pair)
  moreover have "filter lifecycle_illegal lifecycle = [] \<longleftrightarrow> ?issues = []" by (simp add: classify_none)
  moreover have "?affected = [] \<longleftrightarrow> reports = [] \<and> corrections = [] \<and> ?issues = []"
    using k by (auto simp: remdups_eq_nil_iff)
  moreover have "length ?affected = 0 \<longleftrightarrow> ?affected = []" by (rule length_0_conv)
  ultimately show ?thesis
    unfolding reconciliation_health_def Let_def health.simps by (simp only: simp_thms)
qed

end
