(* ===== verification/Corrections.thy ===== *)
theory Corrections
  imports Reconciliation
begin

text \<open>
  The correction service \<open>domain/corrections.py\<close>: every correction first refuses an Asset whose
  corrected lifecycle edges are already illegal, and a transition correction checks the graph, which
  PostgreSQL does not know, against the effective entry before its root.
\<close>

section \<open>The service\<close>

definition correct_guarded :: "ctx \<Rightarrow> fleet \<Rightarrow> uuid \<Rightarrow> sqlstate + 'a \<Rightarrow> py_error + 'a" where
  "correct_guarded x db i m =
     ensure (lifecycle_correction_issues x db (Some i) = []) Conflict (constraints m)"

definition service_correct_movement where
  "service_correct_movement x i r v p w c occ ids db =
     correct_guarded x db i (correct_movement x i r v p w c occ ids db)"

definition service_correct_custody where
  "service_correct_custody x i r v p w c occ ids db =
     correct_guarded x db i (correct_custody x i r v p w c occ ids db)"

definition service_correct_ownership where
  "service_correct_ownership x i r v p w c occ ids db =
     correct_guarded x db i (correct_ownership x i r v p w c occ ids db)"

definition service_correct_assignment where
  "service_correct_assignment x i r v e w c occ ids db =
     correct_guarded x db i (correct_assignment x i r v e w c occ ids db)"

definition service_correct_transition ::
  "(bytes \<Rightarrow> bytes) \<Rightarrow> store option \<Rightarrow> ctx \<Rightarrow> uuid \<Rightarrow> uuid \<Rightarrow> int \<Rightarrow> asset_state \<Rightarrow> pgtext option \<Rightarrow> tstz option
   \<Rightarrow> tstz option \<Rightarrow> (uuid \<times> uuid \<times> uuid) option \<Rightarrow> uuid option \<Rightarrow> fleet
   \<Rightarrow> py_error + (state_fact hrow \<times> fleet)" where
  "service_correct_transition sha256 storage x i r v t why w occ ids ev db =
     rbind (get_asset x db i) (\<lambda>a.
       ensure (as_version a = v) Conflict
         (rbind (from_option NotFound (find_row (asset_transitions db) (as_org a) i r)) (\<lambda>original.
            ensure (h_role original = NONE) Invalid
              (case latest_before (as_org a) i (h_version original) (asset_transitions db) of
                 None \<Rightarrow> Inl LifecycleInvalid
               | Some prior \<Rightarrow>
                   (case h_to prior of
                      None \<Rightarrow> Inl ValueError
                    | Some s \<Rightarrow>
                        rbind (validate_edge s t (h_from prior)) (\<lambda>_.
                          ensure (t = RETIRED \<longrightarrow> ev \<noteq> None) LifecycleInvalid
                            (rbind (verify_asset_evidence sha256 x storage db i ev (disposal_role t) (t = RETIRED)) (\<lambda>_.
                               correct_guarded x db i
                                 (correct_transition x i r (Some v) (Some t) why w occ ids ev db)))))))))"

section \<open>Legality\<close>

lemma correct_guarded_Inr:
  "correct_guarded x db i m = Inr y \<longleftrightarrow> lifecycle_correction_issues x db (Some i) = [] \<and> m = Inr y"
  by (simp add: correct_guarded_def ensure_Inr_iff)

lemma service_correct_transition_Inr:
  assumes "service_correct_transition sha256 storage x i r v t why w occ ids ev db = Inr (c, db')"
  obtains a original prior s where "get_asset x db i = Inr a" "as_version a = v"
    "find_row (asset_transitions db) (as_org a) i r = Some original" "h_role original = NONE"
    "latest_before (as_org a) i (h_version original) (asset_transitions db) = Some prior" "h_to prior = Some s"
    "t \<in> set (allowed_states s (h_from prior))" "t = RETIRED \<longrightarrow> ev \<noteq> None"
    "lifecycle_correction_issues x db (Some i) = []"
    "correct_transition x i r (Some v) (Some t) why w occ ids ev db = Inr (c, db')"
proof -
  obtain a original where a: "get_asset x db i = Inr a" "as_version a = v"
    "find_row (asset_transitions db) (as_org a) i r = Some original" "h_role original = NONE"
    and m: "(case latest_before (as_org a) i (h_version original) (asset_transitions db) of
                 None \<Rightarrow> Inl LifecycleInvalid
               | Some prior \<Rightarrow>
                   (case h_to prior of
                      None \<Rightarrow> Inl ValueError
                    | Some s \<Rightarrow>
                        rbind (validate_edge s t (h_from prior)) (\<lambda>_.
                          ensure (t = RETIRED \<longrightarrow> ev \<noteq> None) LifecycleInvalid
                            (rbind (verify_asset_evidence sha256 x storage db i ev (disposal_role t) (t = RETIRED)) (\<lambda>_.
                               correct_guarded x db i
                                 (correct_transition x i r (Some v) (Some t) why w occ ids ev db))))))
           = Inr (c, db')"
    using assms unfolding service_correct_transition_def rbind_Inr_iff ensure_Inr_iff from_option_Inr_iff by blast
  from m obtain prior s where p: "latest_before (as_org a) i (h_version original) (asset_transitions db) = Some prior"
    "h_to prior = Some s"
    "rbind (validate_edge s t (h_from prior)) (\<lambda>_.
       ensure (t = RETIRED \<longrightarrow> ev \<noteq> None) LifecycleInvalid
         (rbind (verify_asset_evidence sha256 x storage db i ev (disposal_role t) (t = RETIRED)) (\<lambda>_.
            correct_guarded x db i
              (correct_transition x i r (Some v) (Some t) why w occ ids ev db)))) = Inr (c, db')"
    by (auto split: option.splits)
  then show ?thesis using that [OF a p(1,2)]
    by (auto simp: rbind_Inr_iff ensure_Inr_iff correct_guarded_Inr validate_edge_Inr_iff)
qed

lemma corrected_edge:
  assumes "reachable db"
    and "service_correct_transition sha256 storage x i r v t why w occ ids ev db = Inr (c, db')"
  shows "\<exists>org original prior s. x_org x = Some org
     \<and> find_row (asset_transitions db) org i r = Some original
     \<and> latest_before org i (h_version original) (asset_transitions db) = Some prior
     \<and> h_to prior = Some s \<and> t \<in> set (allowed_states s (h_from prior))
     \<and> h_from c = Some s \<and> h_to c = Some t \<and> h_root c = Some r"
proof -
  obtain a original prior s where S: "get_asset x db i = Inr a"
    "find_row (asset_transitions db) (as_org a) i r = Some original"
    "latest_before (as_org a) i (h_version original) (asset_transitions db) = Some prior" "h_to prior = Some s"
    "t \<in> set (allowed_states s (h_from prior))"
    "correct_transition x i r (Some v) (Some t) why w occ ids ev db = Inr (c, db')"
    using service_correct_transition_Inr [OF assms(2)] by metis
  have org: "x_org x = Some (as_org a)" using get_asset_Inr(2) [OF S(1)] .
  obtain org' actor a' o' hd' p' rv where R: "lock_asset x db i (Some v) = Inr (org', actor, a')"
    "find_row (hc_rows transitions db) org' i r = Some o'"
    "p' = (case latest_before org' i (h_version o') (hc_rows transitions db) of Some p \<Rightarrow> h_to p
              | None \<Rightarrow> hc_initial transitions db org' i)"
    "correction_pair o' hd' p' rv c" "h_to c = Some t"
    using transition_fleet.correction_rows [OF reachable_fleet_ok [OF assms(1)] S(6) [unfolded correct_transition_def]]
    by (metis (no_types, lifting))
  have "org' = as_org a" using lock_asset_Inr(1) [OF R(1)] org by simp
  then have "o' = original" "p' = Some s" using R(2,3) S(2-4) by (simp_all add: transitions_def)
  then have "h_from c = Some s" "h_root c = Some (h_id original)"
    using R(4) by (simp_all add: correction_pair_def pair_ok_def correction_of_def)
  moreover have "h_id original = r" using S(2) by (auto simp: find_row_def dest: find_Some_in)
  ultimately show ?thesis using org S R(5) by auto
qed

text \<open>
  A corrected transition is an edge of the lifecycle graph: when the service succeeds, the
  corrected entry leads from the state that was effective before its root to an admitted state,
  with a hold left through the state that earlier entry remembered.
\<close>

theorem corrected_edge_legal:
  assumes "reachable db"
    and "service_correct_transition sha256 storage x i r v t why w occ ids ev db = Inr (c, db')"
  shows "\<exists>org original prior s. x_org x = Some org
     \<and> find_row (asset_transitions db) org i r = Some original
     \<and> latest_before org i (h_version original) (asset_transitions db) = Some prior
     \<and> h_to prior = Some s \<and> t \<in> set (allowed_states s (h_from prior))
     \<and> h_from c = Some s \<and> h_to c = Some t \<and> h_root c = Some r"
  using corrected_edge [OF assms] .

lemma ex_service_correction_ok:
  "service_correct_transition hash_stub None ex_ctx 100 104 3 ON_HOLD (Some [32, 119]) (Some (At 990)) None
     (Some (105, 106, 107)) None ex_stocked
     = Inr (ex_correction_row 5 ON_HOLD CORRECTED 107, ex_corrected)"
proof -
  let ?a = "ex_asset\<lparr>as_location := Some 40, as_version := 3, as_state := Some IN_STOCK\<rparr>"
  let ?h = "ex_row 3 (Some RECEIVED) (Some IN_STOCK) [114] 960 104"
  let ?p = "ex_row 1 None (Some RECEIVED) received_reason 900 102"
  have "get_asset ex_ctx ex_stocked 100 = Inr ?a" by code_simp
  moreover have "as_version ?a = 3" "as_org ?a = 1" by code_simp+
  moreover have "find_row (asset_transitions ex_stocked) 1 100 104 = Some ?h" by code_simp
  moreover have "h_role ?h = NONE" "h_version ?h = 3" "h_to ?p = Some RECEIVED" "h_from ?p = None" by code_simp+
  moreover have "latest_before 1 100 3 (asset_transitions ex_stocked) = Some ?p" by code_simp
  moreover have "validate_edge RECEIVED ON_HOLD None = Inr ()" by code_simp
  moreover have "lifecycle_correction_issues ex_ctx ex_stocked (Some 100) = []" by code_simp
  ultimately show ?thesis
    by (simp add: service_correct_transition_def verify_asset_evidence_def correct_guarded_def constraints_def
        ex_correction_ok)
qed

theorem corrected_edge_legal_witness:
  "h_from (ex_correction_row 5 ON_HOLD CORRECTED 107) = Some RECEIVED
     \<and> (\<exists>s. h_from (ex_correction_row 5 ON_HOLD CORRECTED 107) = Some s
         \<and> (\<exists>p. ON_HOLD \<in> set (allowed_states s p)))"
proof -
  have "h_from (ex_correction_row 5 ON_HOLD CORRECTED 107) = Some RECEIVED" by code_simp
  then show ?thesis using corrected_edge_legal [OF ex_stocked_reachable ex_service_correction_ok] by blast
qed

section \<open>Corrections keep the lifecycle legal\<close>

lemma latest_before_asset:
  "latest_before org i v rows
     = latest_by h_version (filter (\<lambda>h. h_version h < v) (filter (of_asset org i) (effective rows)))"
  by (simp add: latest_before_def conj_commute)

lemma latest_before_kept:
  assumes "filter (of_asset org i) (effective rows) = es @ [h]"
    and "filter (of_asset org i) (effective rows') = es @ [c]"
    and "v \<le> h_version h" "v \<le> h_version c"
  shows "latest_before org i v rows' = latest_before org i v rows"
  using assms by (simp add: latest_before_asset)

lemma no_issue_iff:
  "lifecycle_correction_issues x db (Some i) = [] \<longleftrightarrow>
     (\<forall>c \<in> set (asset_transitions db). \<forall>r \<in> set (asset_transitions db).
        visible x (h_org c) \<and> h_role c = CORRECTED \<and> h_asset c = i \<and> of_asset (h_org c) (h_asset c) r
        \<and> h_root c = Some (h_id r) \<longrightarrow> \<not> lifecycle_illegal (lifecycle_row_of db c r))"
  by (auto simp: lifecycle_correction_issues_def classify_none lifecycle_rows_def filter_empty_conv)

lemma corrected_has_root:
  assumes "class_ok cls db" "c \<in> set (hc_rows cls db)" "h_role c = CORRECTED" "h_root c = Some q"
  shows "\<exists>r \<in> set (hc_rows cls db). of_asset (h_org c) (h_asset c) r \<and> h_id r = q"
proof -
  have "malformed_sql (hc_initial cls db) (hc_rows cls db) = []"
    using assms(1) table_ok_not_malformed by (auto simp: class_ok_def)
  then have "\<not> shape_bad (hc_rows cls db) c"
    using assms(2) by (auto simp: malformed_sql_def malformed_row_def filter_empty_conv)
  then obtain r where "root_row (hc_rows cls db) c = Some r"
    using assms(3) by (auto simp: shape_bad_def split: option.splits)
  then show ?thesis using assms(4) by (auto simp: root_row_def dest: find_Some_in)
qed

lemma service_correction_frame:
  assumes re: "reachable db"
    and sc: "service_correct_transition sha256 storage x i r v t why w occ ids ev db = Inr (c, db')"
  obtains a :: asset_row and original prior s rv where "x_org x = Some (as_org a)"
    "find_row (asset_transitions db) (as_org a) i r = Some original"
    "latest_before (as_org a) i (h_version original) (asset_transitions db) = Some prior" "h_to prior = Some s"
    "t \<in> set (allowed_states s (h_from prior))" "lifecycle_correction_issues x db (Some i) = []"
    "asset_transitions db' = asset_transitions db @ [rv, c]" "h_role rv = REVERSAL" "h_to c = Some t" "fleet_ok db'"
    "valid_asset_evidence db' = valid_asset_evidence db"
    "\<forall>q \<in> set (asset_transitions db). of_asset (as_org a) i q \<longrightarrow>
       latest_before (as_org a) i (h_version q) (asset_transitions db') = latest_before (as_org a) i (h_version q) (asset_transitions db)"
proof -
  have ok: "fleet_ok db" using reachable_fleet_ok [OF re] .
  obtain a original prior s where S: "get_asset x db i = Inr a"
    "find_row (asset_transitions db) (as_org a) i r = Some original"
    "latest_before (as_org a) i (h_version original) (asset_transitions db) = Some prior" "h_to prior = Some s"
    "t \<in> set (allowed_states s (h_from prior))" "lifecycle_correction_issues x db (Some i) = []"
    "correct_transition x i r (Some v) (Some t) why w occ ids ev db = Inr (c, db')"
    using service_correct_transition_Inr [OF sc] by metis
  note G = get_asset_Inr [OF S(1)]
  have rows: "hc_rows transitions db = asset_transitions db" for db by (simp add: transitions_def)
  note CT = S(7) [unfolded correct_transition_def]
  obtain org hd' rv where R: "x_org x = Some org" "find_head (asset_transitions db) org i r = Some hd'"
    "asset_transitions db' = asset_transitions db @ [rv, c]" "of_asset org i c" "h_role rv = REVERSAL"
    "h_to c = Some t" "filter (of_asset org i) (effective (asset_transitions db)) \<noteq> []"
    "last (filter (of_asset org i) (effective (asset_transitions db))) = hd'"
    "filter (of_asset org i) (effective (asset_transitions db'))
       = butlast (filter (of_asset org i) (effective (asset_transitions db))) @ [c]"
    by (rule transition_fleet.correction_replaces [OF ok CT, unfolded rows])
  have org: "org = as_org a" using G(2) R(1) by simp
  have E: "filter (of_asset org i) (effective (asset_transitions db))
      = butlast (filter (of_asset org i) (effective (asset_transitions db))) @ [hd']"
    using R(7,8) by (metis append_butlast_last_id)
  obtain org' actor' a' where V: "lock_asset x db i (Some v) = Inr (org', actor', a')"
    "h_version hd' = as_version a'" "h_version c = as_version a' + 2" "h_role original = NONE"
    by (rule transition_fleet.correction_rows [OF ok CT, unfolded rows])
      (use R(2) S(2) org lock_asset_Inr(1) R(1) in \<open>metis option.inject\<close>)
  have a': "a' = a" using lock_asset_Inr(1,7) [OF V(1)] R(1) G(4) org by simp
  have oka: "asset_ok db a" using ok G(1) by (simp add: fleet_ok_def)
  have kept: "latest_before org i (h_version q) (asset_transitions db') = latest_before org i (h_version q) (asset_transitions db)"
    if "q \<in> set (asset_transitions db)" "of_asset org i q" for q
  proof (rule latest_before_kept [OF E R(9)])
    have "h_version q \<le> as_version a"
      using transition_fleet.version_bound [OF oka] that G(3) org by (simp add: rows)
    then show "h_version q \<le> h_version hd'" "h_version q \<le> h_version c" using V(2,3) a' by simp_all
  qed
  have org': "x_org x = Some (as_org a)" using R(1) org by simp
  show thesis
    by (rule that [of a original prior s rv])
      (use org' S R transition_fleet.correction_keeps_fleet [OF ok CT]
        asset_step_evidence [OF asset_step.correct_transition [OF S(7)]] kept [unfolded org] in \<open>blast+\<close>)
qed

text \<open>The corrected row is a legal edge from the row before the one it replaces.\<close>

lemma replacement_edge_legal:
  assumes ok: "fleet_ok db" and c: "c \<in> set (asset_transitions db)" "h_org c = org" "h_asset c = i" "h_role c = CORRECTED"
    and p: "latest_before org i (h_version q) (asset_transitions db) = Some prior" "h_to prior = Some s"
    and t: "h_to c = Some t" "t \<in> set (allowed_states s (h_from prior))"
  shows "\<not> lifecycle_illegal (lifecycle_row_of db c q)"
proof -
  have "evidence_supported db (h_org c) (h_evidence c) (h_asset c) (transition_purpose c)"
    using ok c(1) by (simp add: fleet_ok_def evidence_ok_def)
  then have "t = RETIRED \<Longrightarrow> valid_asset_evidence db (h_org c) (h_evidence c) (h_asset c) (Some DISPOSAL_EVIDENCE)"
    using c(4) t(1) by (simp add: evidence_supported_def transition_purpose_def)
  then show ?thesis using p t c(2-4)
    by (auto simp: lifecycle_illegal_def lifecycle_row_of_def validate_edge_def)
qed

text \<open>
  The correction service never leaves an Asset with an illegal corrected edge: after every
  successful transition correction the lifecycle check finds no issue of that Asset, neither in the
  new entry nor in any entry recorded before.
\<close>

theorem correction_keeps_lifecycle:
  assumes re: "reachable db"
    and sc: "service_correct_transition sha256 storage x i r v t why w occ ids ev db = Inr (c, db')"
  shows "lifecycle_correction_issues x db' (Some i) = []"
  unfolding no_issue_iff
proof (intro ballI impI)
  obtain a :: asset_row and original prior s rv where F: "x_org x = Some (as_org a)"
    "find_row (asset_transitions db) (as_org a) i r = Some original"
    "latest_before (as_org a) i (h_version original) (asset_transitions db) = Some prior" "h_to prior = Some s"
    "t \<in> set (allowed_states s (h_from prior))" "lifecycle_correction_issues x db (Some i) = []"
    "asset_transitions db' = asset_transitions db @ [rv, c]" "h_role rv = REVERSAL" "h_to c = Some t" "fleet_ok db'"
    "valid_asset_evidence db' = valid_asset_evidence db"
    "\<forall>q \<in> set (asset_transitions db). of_asset (as_org a) i q \<longrightarrow>
       latest_before (as_org a) i (h_version q) (asset_transitions db') = latest_before (as_org a) i (h_version q) (asset_transitions db)"
    by (rule service_correction_frame [OF re sc])
  have ids: "distinct (map h_id (asset_transitions db'))"
    using ok_classes(1) [OF F(10)] by (simp add: class_ok_def transitions_def table_ok_def)
  fix k q assume k: "k \<in> set (asset_transitions db')" and q: "q \<in> set (asset_transitions db')"
    and f: "visible x (h_org k) \<and> h_role k = CORRECTED \<and> h_asset k = i \<and> of_asset (h_org k) (h_asset k) q
      \<and> h_root k = Some (h_id q)"
  have ko: "h_org k = as_org a" "of_asset (as_org a) i q" using f F(1) by (auto simp: visible_def of_asset_def)
  show "\<not> lifecycle_illegal (lifecycle_row_of db' k q)"
  proof (cases "k = c")
    case True
    have o: "original \<in> set (asset_transitions db)" "of_asset (as_org a) i original" "h_id q = h_id original"
      using corrected_edge [OF re sc] f True F(2) by (auto simp: find_row_def dest: find_Some_in)
    then have "q = original" using id_inj [OF ids q] F(7) by simp
    then show ?thesis using replacement_edge_legal [OF F(10) k] F(3,4,5,9,12) o(1,2) ko(1) f True by simp
  next
    case False
    then have kr: "k \<in> set (asset_transitions db)" using k f F(7,8) by auto
    obtain q' where q': "q' \<in> set (asset_transitions db)" "of_asset (h_org k) (h_asset k) q'" "h_id q' = h_id q"
      using corrected_has_root [OF ok_classes(1) [OF reachable_fleet_ok [OF re]], unfolded transitions_def, simplified, OF kr] f by blast
    then have qq: "q = q'" using id_inj [OF ids q] F(7) by simp
    have "lifecycle_row_of db' k q = lifecycle_row_of db k q"
      using F(12) q' qq ko f by (simp add: lifecycle_row_of_def Let_def F(11))
    then show ?thesis using F(6) kr q' qq f unfolding no_issue_iff by simp
  qed
qed

theorem correction_keeps_lifecycle_witness:
  "lifecycle_correction_issues ex_ctx ex_corrected (Some 100) = []"
  using correction_keeps_lifecycle [OF ex_stocked_reachable ex_service_correction_ok] .

end
