(* ===== verification/Space.thy ===== *)
theory Space
  imports Evidence
begin

text \<open>
  Facilities and locations: the constraints of \<open>0004_space.py\<close>, the ancestry guard of
  \<open>0005_space_cycle_guard.py\<close> and the service \<open>domain/space.py\<close>.  Locations are only inserted, by
  whole statements, and the guard walks the ancestry of each new row; \<open>location_path\<close> walks the same
  way when a path is read.  The timezone database is the parameter \<open>zones\<close>.
\<close>

section \<open>Ancestry\<close>

text \<open>
  The recursive query: from a row to its parent in the same tenant and facility, stopping at a row
  already visited, which it marks as a cycle.
\<close>

definition parent_row :: "location_row list \<Rightarrow> location_row \<Rightarrow> location_row option" where
  "parent_row ls a =
     (case lo_parent a of
        None \<Rightarrow> None
      | Some q \<Rightarrow> List.find (\<lambda>p. lo_id p = q \<and> lo_org p = lo_org a \<and> lo_facility p = lo_facility a) ls)"

lemma parent_row_in:
  assumes "parent_row ls a = Some p"
  shows "p \<in> set ls" "lo_parent a = Some (lo_id p)" "lo_org p = lo_org a" "lo_facility p = lo_facility a"
proof -
  obtain q where q: "lo_parent a = Some q"
    "List.find (\<lambda>p. lo_id p = q \<and> lo_org p = lo_org a \<and> lo_facility p = lo_facility a) ls = Some p"
    using assms by (auto simp: parent_row_def split: option.splits)
  then show "p \<in> set ls" "lo_parent a = Some (lo_id p)" "lo_org p = lo_org a" "lo_facility p = lo_facility a"
    using find_Some_in [OF q(2)] by auto
qed

function climb :: "location_row list \<Rightarrow> location_row \<Rightarrow> uuid list \<Rightarrow> (location_row \<times> bool) list" where
  "climb ls a visited =
     (case parent_row ls a of
        None \<Rightarrow> []
      | Some p \<Rightarrow>
          if lo_id p \<in> set visited then [(p, True)] else (p, False) # climb ls p (visited @ [lo_id p]))"
  by pat_completeness auto

termination
proof (relation "measure (\<lambda>(ls, a, visited). card (lo_id ` set ls - set visited))")
  fix ls a visited p
  assume p: "parent_row ls a = Some p" "lo_id p \<notin> set visited"
  have "lo_id p \<in> lo_id ` set ls - set visited" using p parent_row_in(1) by blast
  then have "lo_id ` set ls - set (visited @ [lo_id p]) \<subset> lo_id ` set ls - set visited" by auto
  then show "((ls, p, visited @ [lo_id p]), ls, a, visited)
      \<in> measure (\<lambda>(ls, a, visited). card (lo_id ` set ls - set visited))"
    by (simp add: psubset_card_mono)
qed simp

declare climb.simps [simp del]

definition ancestry :: "location_row list \<Rightarrow> location_row \<Rightarrow> (location_row \<times> bool) list" where
  "ancestry ls l = (l, False) # climb ls l [lo_id l]"

definition cyclic :: "location_row list \<Rightarrow> location_row \<Rightarrow> bool" where
  "cyclic ls l \<longleftrightarrow> (\<exists>r \<in> set (ancestry ls l). snd r)"

section \<open>Insertion\<close>

definition location_check :: "location_row \<Rightarrow> bool" where
  "location_check l \<longleftrightarrow> lo_parent l \<noteq> Some (lo_id l) \<and> length_between 1 200 (btrim (lo_code l))
     \<and> length_between 1 200 (btrim (lo_name l))"

definition location_refs :: "fleet \<Rightarrow> location_row \<Rightarrow> bool" where
  "location_refs db l \<longleftrightarrow> lo_org l \<in> set (organizations db)
     \<and> (\<exists>f \<in> set (facilities db). fa_org f = lo_org l \<and> fa_id f = lo_facility l)
     \<and> holds_if (\<lambda>q. \<exists>p \<in> set (locations db). lo_org p = lo_org l \<and> lo_facility p = lo_facility l \<and> lo_id p = q)
         (lo_parent l)
     \<and> actor_exists db (lo_org l) (lo_created_by l)"

definition visible_locations :: "ctx \<Rightarrow> fleet \<Rightarrow> location_row list" where
  "visible_locations x db = filter (\<lambda>l. visible x (lo_org l)) (locations db)"

text \<open>\<open>enforce_location_acyclic\<close>, after the statement, for each new row that has a parent.\<close>

definition enforce_location_acyclic :: "ctx \<Rightarrow> fleet \<Rightarrow> location_row \<Rightarrow> sqlstate + unit" where
  "enforce_location_acyclic x db l =
     ensure (lo_parent l = None \<or> \<not> cyclic (visible_locations x db) l) E23514 (Inr ())"

definition add_location :: "ctx \<Rightarrow> location_row \<Rightarrow> fleet \<Rightarrow> sqlstate + fleet" where
  "add_location x l db =
     ensure (visible x (lo_org l)) E42501
       (ensure (location_check l) E23514
         (ensure (\<forall>k \<in> set (locations db). lo_id k \<noteq> lo_id l
                    \<and> \<not> (lo_org k = lo_org l \<and> lo_facility k = lo_facility l \<and> lo_code k = lo_code l)) E23505
           (Inr (db\<lparr>locations := locations db @ [l]\<rparr>))))"

text \<open>One \<open>INSERT\<close> of several rows: the rows, then the \<open>AFTER\<close> triggers of each.\<close>

definition after_location :: "ctx \<Rightarrow> fleet \<Rightarrow> location_row \<Rightarrow> unit \<Rightarrow> sqlstate + unit" where
  "after_location x db l u =
     ensure (location_refs db l) E23503
       (rbind (enforce_location_acyclic x db l) (\<lambda>_.
          enforce_authenticated_creator x db (lo_created_by l) None))"

definition insert_locations :: "ctx \<Rightarrow> location_row list \<Rightarrow> fleet \<Rightarrow> sqlstate + fleet" where
  "insert_locations x ls db =
     rbind (fold_result (add_location x) ls db) (\<lambda>db'.
       rbind (fold_result (after_location x db') ls ()) (\<lambda>_. Inr db'))"

definition facility_check :: "facility_row \<Rightarrow> bool" where
  "facility_check f \<longleftrightarrow> length_between 1 200 (btrim (fa_name f)) \<and> length_between 1 200 (btrim (fa_timezone f))"

definition insert_facility :: "ctx \<Rightarrow> facility_row \<Rightarrow> fleet \<Rightarrow> sqlstate + fleet" where
  "insert_facility x f db =
     ensure (visible x (fa_org f)) E42501
       (ensure (facility_check f) E23514
         (ensure (\<forall>g \<in> set (facilities db). fa_id g \<noteq> fa_id f) E23505
           (ensure (fa_org f \<in> set (organizations db) \<and> actor_exists db (fa_org f) (fa_created_by f)) E23503
             (rbind (enforce_authenticated_creator x db (fa_created_by f) None) (\<lambda>_.
               Inr (db\<lparr>facilities := facilities db @ [f]\<rparr>))))))"

section \<open>The service\<close>

definition space_error :: "sqlstate \<Rightarrow> py_error" where
  "space_error e =
     (if e = E23505 then Conflict else if e \<in> {E23503, E23514, E23502} then Invalid else DBError e)"

definition validate_timezone :: "pgtext list \<Rightarrow> pgtext \<Rightarrow> py_error + pgtext" where
  "validate_timezone zones value = ensure (value \<in> set zones) ValueError (Inr value)"

definition create_facility ::
  "pgtext list \<Rightarrow> ctx \<Rightarrow> facility_row \<Rightarrow> fleet \<Rightarrow> py_error + (facility_row \<times> fleet)" where
  "create_facility zones x f db =
     rbind (map_error (\<lambda>_. Invalid) (validate_timezone zones (fa_timezone f))) (\<lambda>_.
       rbind (map_error space_error (insert_facility x f db)) (\<lambda>db'. Inr (f, db')))"

definition list_facilities :: "ctx \<Rightarrow> fleet \<Rightarrow> facility_row list" where
  "list_facilities x db = sort_key fa_id (filter (\<lambda>f. visible x (fa_org f)) (facilities db))"

definition create_location ::
  "ctx \<Rightarrow> location_row \<Rightarrow> fleet \<Rightarrow> py_error + (location_row \<times> fleet)" where
  "create_location x l db =
     rbind (map_error space_error (insert_locations x [l] db)) (\<lambda>db'. Inr (l, db'))"

definition list_locations :: "ctx \<Rightarrow> fleet \<Rightarrow> location_row list" where
  "list_locations x db = sort_key lo_id (visible_locations x db)"

definition location_path :: "ctx \<Rightarrow> fleet \<Rightarrow> uuid \<Rightarrow> py_error + location_row list" where
  "location_path x db i =
     (case List.find (\<lambda>l. lo_id l = i) (visible_locations x db) of
        None \<Rightarrow> Inl NotFound
      | Some l \<Rightarrow>
          (let rows = rev (ancestry (visible_locations x db) l) in
           ensure (\<not> (\<exists>r \<in> set rows. snd r) \<and> lo_parent (fst (hd rows)) = None) HierarchyInvalid
             (Inr (map fst rows))))"

section \<open>The hierarchy stays a forest\<close>

definition space_ok :: "fleet \<Rightarrow> bool" where
  "space_ok db \<longleftrightarrow> distinct (map lo_id (locations db))
     \<and> (\<forall>l \<in> set (locations db). holds_if (\<lambda>q. \<exists>p \<in> set (locations db).
          lo_org p = lo_org l \<and> lo_facility p = lo_facility l \<and> lo_id p = q) (lo_parent l))
     \<and> (\<forall>l \<in> set (locations db). \<not> cyclic (locations db) l)"

lemma parent_row_append:
  assumes "\<forall>p \<in> set ls'. lo_id p \<notin> lo_id ` set ls" "holds_if (\<lambda>q. q \<in> lo_id ` set ls) (lo_parent a)"
  shows "parent_row (ls @ ls') a = parent_row ls a"
proof (cases "lo_parent a")
  case None
  then show ?thesis by (simp add: parent_row_def)
next
  case (Some q)
  let ?P = "\<lambda>p. lo_id p = q \<and> lo_org p = lo_org a \<and> lo_facility p = lo_facility a"
  have "List.find ?P (xs @ ls') = List.find ?P xs" for xs
  proof (induction xs)
    case Nil
    have "\<not> ?P p" if "p \<in> set ls'" for p using assms that Some by auto
    then show ?case by (simp add: find_None_iff)
  qed simp
  then show ?thesis by (simp add: parent_row_def Some)
qed

lemma find_filter:
  "(\<And>p. P p \<Longrightarrow> Q p) \<Longrightarrow> List.find P (filter Q xs) = List.find P xs"
  by (induction xs) auto

lemma parent_row_visible:
  assumes "visible x (lo_org a)"
  shows "parent_row (visible_locations x db) a = parent_row (locations db) a"
proof (cases "lo_parent a")
  case (Some q)
  have "List.find (\<lambda>p. lo_id p = q \<and> lo_org p = lo_org a \<and> lo_facility p = lo_facility a)
      (filter (\<lambda>l. visible x (lo_org l)) (locations db))
    = List.find (\<lambda>p. lo_id p = q \<and> lo_org p = lo_org a \<and> lo_facility p = lo_facility a) (locations db)"
    by (rule find_filter) (use assms in simp)
  then show ?thesis by (simp add: parent_row_def visible_locations_def Some)
qed (simp add: parent_row_def)

lemma climb_None: "parent_row ls a = None \<Longrightarrow> climb ls a v = []"
  by (subst climb.simps) simp

lemma climb_Some:
  "parent_row ls a = Some p \<Longrightarrow>
     climb ls a v = (if lo_id p \<in> set v then [(p, True)] else (p, False) # climb ls p (v @ [lo_id p]))"
  by (subst climb.simps) simp

lemma climb_cong:
  assumes "\<And>b. Q b \<Longrightarrow> parent_row ls b = parent_row ls' b"
    and "\<And>b p. Q b \<Longrightarrow> parent_row ls' b = Some p \<Longrightarrow> Q p" and "Q a"
  shows "climb ls a v = climb ls' a v"
  using assms
proof (induction ls' a v rule: climb.induct)
  case (1 ls' a v)
  have eq: "parent_row ls a = parent_row ls' a" using "1.prems"(1,3) by blast
  show ?case
  proof (cases "parent_row ls' a")
    case None
    then show ?thesis using eq by (simp add: climb_None)
  next
    case (Some p)
    have "Q p" using "1.prems"(2,3) Some by blast
    then have "climb ls p (v @ [lo_id p]) = climb ls' p (v @ [lo_id p])" if "lo_id p \<notin> set v"
      using "1.IH" [OF Some that] "1.prems"(1,2) by blast
    then show ?thesis using eq Some by (simp add: climb_Some)
  qed
qed

lemma ancestry_visible:
  assumes "visible x (lo_org l)"
  shows "ancestry (visible_locations x db) l = ancestry (locations db) l"
proof -
  have "climb (visible_locations x db) l [lo_id l] = climb (locations db) l [lo_id l]"
  proof (rule climb_cong [where Q = "\<lambda>b. visible x (lo_org b)"])
    show "parent_row (visible_locations x db) b = parent_row (locations db) b" if "visible x (lo_org b)" for b
      using parent_row_visible [OF that] .
    show "visible x (lo_org p)" if "visible x (lo_org b)" "parent_row (locations db) b = Some p" for b p
      using that parent_row_in(3) by metis
  qed (rule assms)
  then show ?thesis by (simp add: ancestry_def)
qed

lemma ancestry_append:
  assumes "\<forall>p \<in> set new. lo_id p \<notin> lo_id ` set old"
    and "\<forall>l \<in> set old. holds_if (\<lambda>q. q \<in> lo_id ` set old) (lo_parent l)" and "l \<in> set old"
  shows "ancestry (old @ new) l = ancestry old l"
proof -
  have "climb (old @ new) l [lo_id l] = climb old l [lo_id l]"
  proof (rule climb_cong [where Q = "\<lambda>b. b \<in> set old"])
    show "parent_row (old @ new) b = parent_row old b" if "b \<in> set old" for b
      using assms(1,2) that by (intro parent_row_append) auto
    show "p \<in> set old" if "parent_row old b = Some p" for b p using parent_row_in(1) [OF that] .
  qed (rule assms(3))
  then show ?thesis by (simp add: ancestry_def)
qed

lemma add_locations_Inr:
  assumes "fold_result (add_location x) ls db = Inr db'"
  shows "db' = db\<lparr>locations := locations db @ ls\<rparr> \<and> (\<forall>l \<in> set ls. visible x (lo_org l) \<and> location_check l)
     \<and> (\<forall>l \<in> set ls. lo_id l \<notin> lo_id ` set (locations db)) \<and> distinct (map lo_id ls)"
  using assms
proof (induction ls arbitrary: db)
  case Nil
  then show ?case by simp
next
  case (Cons l ls)
  obtain db1 where 1: "add_location x l db = Inr db1" "fold_result (add_location x) ls db1 = Inr db'"
    using Cons.prems by (auto simp: rbind_Inr_iff)
  have l: "db1 = db\<lparr>locations := locations db @ [l]\<rparr>" "visible x (lo_org l)" "location_check l"
    "lo_id l \<notin> lo_id ` set (locations db)"
    using 1(1) by (auto simp: add_location_def ensure_Inr_iff)
  show ?case using Cons.IH [OF 1(2)] l by auto
qed

lemma after_locations_Inr:
  "fold_result (after_location x db) ls u = Inr v \<Longrightarrow> l \<in> set ls
     \<Longrightarrow> location_refs db l \<and> enforce_location_acyclic x db l = Inr ()"
  by (induction ls arbitrary: u) (auto simp: after_location_def rbind_Inr_iff ensure_Inr_iff)

text \<open>
  The location hierarchy stays a forest.  Whatever rows one statement inserts, in any order and
  with references among themselves, if it succeeds then identifiers are distinct, every parent
  exists in the same tenant and facility, and no row, old or new, has a cycle above it.
\<close>

theorem locations_stay_forest:
  assumes ok: "space_ok db" and i: "insert_locations x ls db = Inr db'"
  shows "space_ok db'"
proof -
  obtain u where f: "fold_result (add_location x) ls db = Inr db'" "fold_result (after_location x db') ls () = Inr u"
    using i by (auto simp: insert_locations_def rbind_Inr_iff)
  note A = add_locations_Inr [OF f(1)]
  have locs: "locations db' = locations db @ ls" using A by simp
  have parents: "\<forall>l \<in> set (locations db). holds_if (\<lambda>q. q \<in> lo_id ` set (locations db)) (lo_parent l)"
    using ok by (auto simp: space_ok_def elim!: ballE holds_if_mono)
  have new: "location_refs db' l \<and> enforce_location_acyclic x db' l = Inr ()" if "l \<in> set ls" for l
    using after_locations_Inr [OF f(2) that] .
  have "lo_id ` set (locations db) \<inter> lo_id ` set ls = {}"
    using A by (auto simp: image_iff) metis
  then have "distinct (map lo_id (locations db'))" using ok A by (simp add: space_ok_def locs)
  moreover have "holds_if (\<lambda>q. \<exists>p \<in> set (locations db'). lo_org p = lo_org l \<and> lo_facility p = lo_facility l \<and> lo_id p = q)
      (lo_parent l)" if "l \<in> set (locations db')" for l
  proof (cases "l \<in> set ls")
    case True
    then show ?thesis using new by (simp add: location_refs_def)
  next
    case False
    then have "holds_if (\<lambda>q. \<exists>p \<in> set (locations db). lo_org p = lo_org l \<and> lo_facility p = lo_facility l \<and> lo_id p = q)
      (lo_parent l)" using that ok by (simp add: locs space_ok_def)
    then show ?thesis by (rule holds_if_mono) (auto simp: locs)
  qed
  moreover have "\<not> cyclic (locations db') l" if "l \<in> set (locations db')" for l
  proof (cases "l \<in> set ls")
    case True
    then have "lo_parent l = None \<or> \<not> cyclic (visible_locations x db') l"
      using new by (auto simp: enforce_location_acyclic_def ensure_Inr_iff)
    moreover have "\<not> cyclic (locations db') l" if "lo_parent l = None"
      using that by (simp add: cyclic_def ancestry_def climb_None parent_row_def)
    moreover have "visible x (lo_org l)" using A True by simp
    ultimately show ?thesis using ancestry_visible by (auto simp: cyclic_def)
  next
    case False
    then have "l \<in> set (locations db)" using that by (simp add: locs)
    then show ?thesis
      using ok ancestry_append [OF _ parents] A by (simp add: space_ok_def cyclic_def locs)
  qed
  ultimately show ?thesis by (simp add: space_ok_def)
qed

definition sp_ctx :: ctx where
  "sp_ctx = \<lparr>x_org = Some 1, x_digest_hex = None, x_actor_hint = None, x_now = 0, x_app = False, x_txn = 1\<rparr>"

definition sp_location :: "uuid \<Rightarrow> uuid option \<Rightarrow> location_row" where
  "sp_location i parent = \<lparr>lo_id = i, lo_org = 1, lo_facility = 9, lo_parent = parent, lo_code = [60 + i],
     lo_name = [78], lo_kind = BIN, lo_active = True, lo_created_by = 10\<rparr>"

definition sp_db :: fleet where
  "sp_db = empty_fleet
     \<lparr>organizations := [1],
      actors := [\<lparr>ac_id = 10, ac_org = 1, ac_type = HUMAN, ac_name = [65], ac_active = True, ac_created_by = 10\<rparr>],
      facilities := [\<lparr>fa_id = 9, fa_org = 1, fa_name = [70], fa_timezone = [85], fa_active = True, fa_created_by = 10\<rparr>],
      locations := [sp_location 1 None]\<rparr>"

definition sp_batch :: fleet where
  "sp_batch = sp_db\<lparr>locations := [sp_location 1 None, sp_location 3 (Some 2), sp_location 2 (Some 1)]\<rparr>"

lemma sp_db_ok: "space_ok sp_db"
  by code_simp

lemma sp_insert: "insert_locations sp_ctx [sp_location 3 (Some 2), sp_location 2 (Some 1)] sp_db = Inr sp_batch"
  by code_simp

theorem locations_stay_forest_witness:
  "space_ok sp_batch
     \<and> insert_locations sp_ctx [sp_location 3 (Some 2), sp_location 2 (Some 3)] sp_db = Inl E23514"
proof -
  have "insert_locations sp_ctx [sp_location 3 (Some 2), sp_location 2 (Some 3)] sp_db = Inl E23514" by code_simp
  then show ?thesis using locations_stay_forest [OF sp_db_ok sp_insert] by blast
qed

section \<open>Paths\<close>

lemma climb_chain:
  "k < length (climb ls a v) \<Longrightarrow>
     parent_row ls (fst (((a, False) # climb ls a v) ! k)) = Some (fst (climb ls a v ! k))"
proof (induction ls a v arbitrary: k rule: climb.induct)
  case (1 ls a v)
  show ?case
  proof (cases "parent_row ls a")
    case None
    then show ?thesis using "1.prems" by (simp add: climb_None)
  next
    case (Some p)
    show ?thesis
    proof (cases "lo_id p \<in> set v")
      case True
      then show ?thesis using Some "1.prems" by (simp add: climb_Some)
    next
      case False
      then show ?thesis using Some "1.prems" "1.IH" [OF Some False]
        by (cases k) (auto simp: climb_Some)
    qed
  qed
qed

lemma climb_end:
  "\<not> (\<exists>r \<in> set (climb ls a v). snd r) \<Longrightarrow> parent_row ls (fst (last ((a, False) # climb ls a v))) = None"
proof (induction ls a v rule: climb.induct)
  case (1 ls a v)
  show ?case
  proof (cases "parent_row ls a")
    case None
    then show ?thesis by (simp add: climb_None)
  next
    case (Some p)
    have nv: "lo_id p \<notin> set v" using "1.prems" Some by (auto simp: climb_Some)
    then have c: "climb ls a v = (p, False) # climb ls p (v @ [lo_id p])" using Some by (simp add: climb_Some)
    then have "\<not> (\<exists>r \<in> set (climb ls p (v @ [lo_id p])). snd r)" using "1.prems" by simp
    from "1.IH" [OF Some nv this] show ?thesis by (simp add: c)
  qed
qed

lemma climb_distinct:
  "\<not> (\<exists>r \<in> set (climb ls a v). snd r) \<Longrightarrow> distinct v \<Longrightarrow> distinct (v @ map (lo_id \<circ> fst) (climb ls a v))"
proof (induction ls a v rule: climb.induct)
  case (1 ls a v)
  show ?case
  proof (cases "parent_row ls a")
    case None
    then show ?thesis using "1.prems" by (simp add: climb_None)
  next
    case (Some p)
    have nv: "lo_id p \<notin> set v" using "1.prems" Some by (auto simp: climb_Some)
    then have c: "climb ls a v = (p, False) # climb ls p (v @ [lo_id p])" using Some by (simp add: climb_Some)
    then have "\<not> (\<exists>r \<in> set (climb ls p (v @ [lo_id p])). snd r)" using "1.prems"(1) by simp
    from "1.IH" [OF Some nv this] show ?thesis using nv "1.prems"(2) by (simp add: c)
  qed
qed

text \<open>A path from a root down to a location, each row the parent of the next.\<close>

definition path_to :: "uuid \<Rightarrow> location_row list \<Rightarrow> bool" where
  "path_to i p \<longleftrightarrow> p \<noteq> [] \<and> lo_parent (hd p) = None \<and> lo_id (last p) = i \<and> distinct (map lo_id p)
     \<and> (\<forall>k. Suc k < length p \<longrightarrow> lo_parent (p ! Suc k) = Some (lo_id (p ! k))
          \<and> lo_org (p ! k) = lo_org (p ! Suc k) \<and> lo_facility (p ! k) = lo_facility (p ! Suc k))"

lemma visible_parent_found:
  assumes ok: "space_ok db" and t: "t \<in> set (visible_locations x db)" and q: "lo_parent t = Some q"
  shows "parent_row (visible_locations x db) t \<noteq> None"
proof -
  have v: "t \<in> set (locations db)" "visible x (lo_org t)" using t by (simp_all add: visible_locations_def)
  then have "holds_if (\<lambda>q. \<exists>p \<in> set (locations db). lo_org p = lo_org t \<and> lo_facility p = lo_facility t
      \<and> lo_id p = q) (lo_parent t)" using ok by (simp only: space_ok_def)
  then obtain p where p: "p \<in> set (locations db)" "lo_org p = lo_org t" "lo_facility p = lo_facility t" "lo_id p = q"
    unfolding q by auto
  then have "p \<in> set (visible_locations x db)" using v(2) by (simp add: visible_locations_def)
  then show ?thesis using p q by (auto simp: parent_row_def find_None_iff)
qed

lemma ancestry_link:
  "Suc k < length (ancestry ls l) \<Longrightarrow>
     parent_row ls (fst (ancestry ls l ! k)) = Some (fst (ancestry ls l ! Suc k))"
  using climb_chain [of k ls l "[lo_id l]"] by (simp add: ancestry_def)

lemma ancestry_rows:
  assumes l: "l \<in> set ls" and r: "r \<in> set (ancestry ls l)"
  shows "fst r \<in> set ls"
proof -
  obtain k where k: "k < length (ancestry ls l)" "r = ancestry ls l ! k" using r by (auto simp: in_set_conv_nth)
  then show ?thesis using ancestry_link [of "k - 1" ls l] parent_row_in(1) l
    by (cases k) (auto simp: ancestry_def)
qed

lemma ancestry_root:
  assumes ok: "space_ok db" and l: "l \<in> set (visible_locations x db)"
    and free: "\<not> (\<exists>r \<in> set (ancestry (visible_locations x db) l). snd r)"
  shows "lo_parent (fst (last (ancestry (visible_locations x db) l))) = None"
proof (rule ccontr)
  let ?ls = "visible_locations x db" and ?rows = "ancestry (visible_locations x db) l"
  assume "lo_parent (fst (last ?rows)) \<noteq> None"
  then obtain q where q: "lo_parent (fst (last ?rows)) = Some q" by blast
  have "fst (last ?rows) \<in> set ?ls" by (rule ancestry_rows [OF l]) (simp add: ancestry_def)
  from visible_parent_found [OF ok this q] show False
    using climb_end [of ?ls l "[lo_id l]"] free by (simp add: ancestry_def)
qed

lemma ancestry_path_to:
  assumes free: "\<not> (\<exists>r \<in> set (ancestry ls l). snd r)"
    and top: "lo_parent (fst (last (ancestry ls l))) = None"
  shows "path_to (lo_id l) (map fst (rev (ancestry ls l)))"
  unfolding path_to_def
proof (intro conjI allI impI)
  let ?rows = "ancestry ls l" and ?p = "map fst (rev (ancestry ls l))"
  show "?p \<noteq> []" by (simp add: ancestry_def)
  have "?rows \<noteq> []" by (simp add: ancestry_def)
  then show "lo_parent (hd ?p) = None" using top by (cases ?rows rule: rev_cases) auto
  show "lo_id (last ?p) = lo_id l" by (simp add: last_map last_rev ancestry_def)
  show "distinct (map lo_id ?p)"
    using climb_distinct [of ls l "[lo_id l]"] free by (simp add: ancestry_def rev_map [symmetric] comp_def)
  fix k assume k: "Suc k < length ?p"
  let ?n = "length ?rows"
  have "fst (?rows ! (?n - Suc (Suc k))) = ?p ! Suc k" "fst (?rows ! Suc (?n - Suc (Suc k))) = ?p ! k"
    using k by (simp_all add: rev_nth Suc_diff_Suc)
  then have "parent_row ls (?p ! Suc k) = Some (?p ! k)"
    using ancestry_link [of "?n - Suc (Suc k)" ls l] k by simp
  then show "lo_parent (?p ! Suc k) = Some (lo_id (?p ! k))" "lo_org (?p ! k) = lo_org (?p ! Suc k)"
    "lo_facility (?p ! k) = lo_facility (?p ! Suc k)" using parent_row_in by metis+
qed

text \<open>
  C26: every visible location has a complete path: in a well-formed hierarchy \<open>location_path\<close> returns,
  and what it returns starts at a root, ends at the location, repeats nothing, stays in one tenant and
  facility, and links each row to its parent.
\<close>

theorem location_path_complete:
  assumes ok: "space_ok db" and l: "l \<in> set (locations db)" "visible x (lo_org l)"
  shows "\<exists>p. location_path x db (lo_id l) = Inr p \<and> path_to (lo_id l) p \<and> set p \<subseteq> set (locations db)"
proof -
  let ?ls = "visible_locations x db" and ?rows = "ancestry (visible_locations x db) l"
  have vl: "distinct (map lo_id ?ls)" "l \<in> set ?ls"
    using ok l by (auto simp: space_ok_def visible_locations_def distinct_map inj_on_def)
  then have find: "List.find (\<lambda>k. lo_id k = lo_id l) ?ls = Some l" by (rule find_unique)
  have free: "\<not> (\<exists>r \<in> set ?rows. snd r)"
    using ok l ancestry_visible [OF l(2)] by (simp add: space_ok_def cyclic_def)
  have top: "lo_parent (fst (last ?rows)) = None" by (rule ancestry_root [OF ok vl(2) free])
  have "location_path x db (lo_id l) = Inr (map fst (rev ?rows))"
    using free top by (simp add: location_path_def find Let_def hd_rev)
  moreover have "set (map fst (rev ?rows)) \<subseteq> set (locations db)"
    using ancestry_rows [OF vl(2)] by (auto simp: visible_locations_def)
  ultimately show ?thesis using ancestry_path_to [OF free top] by blast
qed

theorem location_path_complete_witness:
  "\<exists>p. location_path sp_ctx sp_batch 3 = Inr p \<and> path_to 3 p"
proof -
  have "space_ok sp_batch" by (rule locations_stay_forest [OF sp_db_ok sp_insert])
  moreover have "sp_location 3 (Some 2) \<in> set (locations sp_batch)" by (simp add: sp_batch_def)
  moreover have "visible sp_ctx (lo_org (sp_location 3 (Some 2)))" "lo_id (sp_location 3 (Some 2)) = 3" by code_simp+
  ultimately show ?thesis
    using location_path_complete [of sp_batch "sp_location 3 (Some 2)" sp_ctx] by auto
qed

end
