(* ===== verification/Procurement.thy ===== *)
theory Procurement
  imports Evidence
begin

text \<open>
  Purchase orders (\<open>domain/procurement.py\<close>) and the guards of migration 0009.  An order is edited
  while it is a draft and frozen by its issuance; from then on a line is amended by a new line that
  supersedes it.  \<open>list_lines\<close> rebuilds the chains from the pointers alone.
\<close>

section \<open>Orders\<close>

definition has_role :: "fleet \<Rightarrow> uuid \<Rightarrow> uuid \<Rightarrow> party_role \<Rightarrow> bool" where
  "has_role db org party role \<longleftrightarrow>
     (\<exists>r \<in> set (party_roles db). pr_org r = org \<and> pr_party r = party \<and> pr_role r = role)"

definition order_check :: "po_row \<Rightarrow> bool" where
  "order_check r \<longleftrightarrow> (po_issued_at r = None) = (po_issued_by r = None)
     \<and> (po_status r = DRAFT \<longrightarrow> po_issued_at r = None)
     \<and> (po_status r = ISSUED \<longrightarrow> po_issued_at r \<noteq> None)
     \<and> holds_if isfinite (po_issued_at r)
     \<and> length_between 1 200 (btrim (po_number r)) \<and> has_nonspace (po_number r)
     \<and> holds_if (\<lambda>n. length n \<le> 4000) (po_notes r)"

definition order_refs :: "fleet \<Rightarrow> po_row \<Rightarrow> bool" where
  "order_refs db r \<longleftrightarrow> po_org r \<in> set (organizations db) \<and> party_exists db (po_org r) (po_vendor r)
     \<and> has_role db (po_org r) (po_vendor r) VENDOR
     \<and> holds_if (actor_exists db (po_org r)) (po_issued_by r)
     \<and> actor_exists db (po_org r) (po_created_by r) \<and> actor_exists db (po_org r) (po_updated_by r)"

text \<open>An \<open>INSERT\<close>: the guard, the attribution trigger, row security, \<open>CHECK\<close>, unique, foreign keys.\<close>

definition insert_order :: "ctx \<Rightarrow> po_row \<Rightarrow> fleet \<Rightarrow> sqlstate + (po_row \<times> fleet)" where
  "insert_order x new db =
     ensure (po_status new = DRAFT \<and> po_issued_at new = None \<and> po_issued_by new = None) E23514
       (let r = new\<lparr>po_created_at := At (x_now x), po_updated_at := At (x_now x)\<rparr> in
        rbind (enforce_authenticated_creator x db (po_created_by r) (Some (po_updated_by r))) (\<lambda>_.
          ensure (visible x (po_org r)) E42501
            (ensure (order_check r) E23514
              (ensure (\<forall>p \<in> set (purchase_orders db). po_id p \<noteq> po_id r) E23505
                (ensure (order_refs db r) E23503
                  (Inr (r, db\<lparr>purchase_orders := purchase_orders db @ [r]\<rparr>)))))))"

text \<open>\<open>enforce_purchase_order\<close> on \<open>UPDATE\<close>, with the old and the proposed row.\<close>

definition guard_order_update :: "ctx \<Rightarrow> fleet \<Rightarrow> po_row \<Rightarrow> po_row \<Rightarrow> sqlstate + po_row" where
  "guard_order_update x db old new =
     ensure (po_status old = DRAFT \<and> po_issued_at old = None) E23514
       (ensure (po_id new = po_id old \<and> po_org new = po_org old \<and> po_created_by new = po_created_by old
                \<and> po_created_at new = po_created_at old \<and> po_issued_at new = po_issued_at old
                \<and> po_issued_by new = po_issued_by old) E23514
         (ensure (po_status new \<in> {DRAFT, ISSUED}) E23514
           (if po_status new = ISSUED then
              rbind (if x_app x then current_authenticated_actor x db else Inr (po_updated_by new)) (\<lambda>issuer.
                Inr (new\<lparr>po_issued_at := Some (At (x_now x)), po_issued_by := Some issuer\<rparr>))
            else Inr new)))"

definition stamp_order :: "ctx \<Rightarrow> fleet \<Rightarrow> po_row \<Rightarrow> sqlstate + po_row" where
  "stamp_order x db r =
     (if x_app x \<and> x_org x = Some (po_org r) then
        rbind (current_authenticated_actor x db) (\<lambda>performer.
          Inr (r\<lparr>po_updated_by := performer, po_updated_at := At (x_now x)\<rparr>))
      else Inr r)"

definition find_order :: "ctx \<Rightarrow> fleet \<Rightarrow> uuid \<Rightarrow> po_row option" where
  "find_order x db i = List.find (\<lambda>r. visible x (po_org r) \<and> po_id r = i) (purchase_orders db)"

text \<open>\<open>UPDATE purchase_orders SET \<dots> WHERE id = i\<close>, its \<open>SET\<close> clause a function of the row.\<close>

definition write_order :: "ctx \<Rightarrow> uuid \<Rightarrow> (po_row \<Rightarrow> po_row) \<Rightarrow> fleet \<Rightarrow> sqlstate + (po_row option \<times> fleet)"
where
  "write_order x i f db =
     (case find_order x db i of
        None \<Rightarrow> Inr (None, db)
      | Some old \<Rightarrow>
          rbind (guard_order_update x db old (f old)) (\<lambda>guarded.
            rbind (stamp_order x db guarded) (\<lambda>new.
              ensure (visible x (po_org new)) E42501
                (ensure (order_check new) E23514
                  (ensure (order_refs db new) E23503
                    (Inr (Some new, db\<lparr>purchase_orders :=
                       map (\<lambda>r. if po_id r = i then new else r) (purchase_orders db)\<rparr>)))))))"

section \<open>Lines\<close>

definition line_check :: "po_line_row \<Rightarrow> bool" where
  "line_check l \<longleftrightarrow> 0 < pl_number l \<and> positive_finite (pl_quantity l) \<and> nonneg_finite (pl_price l)
     \<and> holds_if isfinite (pl_expected l) \<and> pl_supersedes l \<noteq> Some (pl_id l)"

definition same_lineage :: "po_line_row \<Rightarrow> po_line_row \<Rightarrow> bool" where
  "same_lineage l k \<longleftrightarrow> pl_org k = pl_org l \<and> pl_po k = pl_po l \<and> pl_number k = pl_number l"

definition line_refs :: "fleet \<Rightarrow> po_line_row \<Rightarrow> bool" where
  "line_refs db l \<longleftrightarrow> pl_org l \<in> set (organizations db)
     \<and> (\<exists>r \<in> set (purchase_orders db). po_org r = pl_org l \<and> po_id r = pl_po l)
     \<and> (\<exists>i \<in> set (items db). it_org i = pl_org l \<and> it_id i = pl_item l)
     \<and> holds_if (\<lambda>q. \<exists>k \<in> set (purchase_order_lines db). same_lineage l k \<and> pl_id k = q) (pl_supersedes l)
     \<and> actor_exists db (pl_org l) (pl_created_by l) \<and> actor_exists db (pl_org l) (pl_updated_by l)"

definition line_unique :: "po_line_row list \<Rightarrow> po_line_row \<Rightarrow> bool" where
  "line_unique ls l \<longleftrightarrow>
     (\<forall>k \<in> set ls. pl_id k \<noteq> pl_id l
        \<and> \<not> (pl_supersedes l = None \<and> pl_supersedes k = None \<and> same_lineage l k)
        \<and> \<not> (pl_supersedes l \<noteq> None \<and> pl_supersedes k = pl_supersedes l \<and> pl_org k = pl_org l))"

text \<open>The order of a line, which every guard locks first.\<close>

definition order_of :: "ctx \<Rightarrow> fleet \<Rightarrow> po_line_row \<Rightarrow> sqlstate + po_row" where
  "order_of x db l =
     from_option E23503
       (List.find (\<lambda>r. visible x (po_org r) \<and> po_org r = pl_org l \<and> po_id r = pl_po l) (purchase_orders db))"

text \<open>\<open>enforce_purchase_order_line\<close> on \<open>INSERT\<close>; it captures the unit of measure of the item.\<close>

definition guard_line_insert :: "ctx \<Rightarrow> fleet \<Rightarrow> po_line_row \<Rightarrow> sqlstate + po_line_row" where
  "guard_line_insert x db l =
     rbind (order_of x db l) (\<lambda>r.
       rbind (case pl_supersedes l of
                None \<Rightarrow> ensure (po_status r = DRAFT \<and> po_issued_at r = None) E23514 (Inr ())
              | Some q \<Rightarrow>
                  ensure (po_status r = ISSUED) E23514
                    (ensure (pl_id l \<noteq> q
                       \<and> (\<exists>k \<in> set (purchase_order_lines db). same_lineage l k \<and> pl_id k = q)) E23503
                      (ensure (\<forall>k \<in> set (purchase_order_lines db).
                                 \<not> (pl_org k = pl_org l \<and> pl_supersedes k = Some q)) E40001 (Inr ())))) (\<lambda>_.
         rbind (from_option E23503
                  (List.find (\<lambda>i. visible x (it_org i) \<and> it_org i = pl_org l \<and> it_id i = pl_item l) (items db)))
           (\<lambda>item. Inr (l\<lparr>pl_uom := it_uom item, pl_created_at := At (x_now x), pl_updated_at := At (x_now x)\<rparr>))))"

definition insert_line :: "ctx \<Rightarrow> po_line_row \<Rightarrow> fleet \<Rightarrow> sqlstate + (po_line_row \<times> fleet)" where
  "insert_line x new db =
     ensure (pl_number new \<le> int4_max) E22003
       (rbind (guard_line_insert x db new) (\<lambda>l.
         rbind (enforce_authenticated_creator x db (pl_created_by l) (Some (pl_updated_by l))) (\<lambda>_.
           ensure (visible x (pl_org l)) E42501
             (ensure (line_check l) E23514
               (ensure (line_unique (purchase_order_lines db) l) E23505
                 (ensure (line_refs db l) E23503
                   (Inr (l, db\<lparr>purchase_order_lines := purchase_order_lines db @ [l]\<rparr>))))))))"

text \<open>\<open>enforce_purchase_order_line\<close> on \<open>UPDATE\<close>: only a line of a draft changes, and only its terms.\<close>

definition guard_line_update :: "ctx \<Rightarrow> fleet \<Rightarrow> po_line_row \<Rightarrow> po_line_row \<Rightarrow> sqlstate + po_line_row" where
  "guard_line_update x db old new =
     rbind (order_of x db old) (\<lambda>r.
       ensure (po_status r = DRAFT \<and> po_issued_at r = None) E23514
         (ensure (pl_id new = pl_id old \<and> pl_org new = pl_org old \<and> pl_po new = pl_po old
                  \<and> pl_number new = pl_number old \<and> pl_supersedes new = pl_supersedes old
                  \<and> pl_uom new = pl_uom old \<and> pl_created_by new = pl_created_by old
                  \<and> pl_created_at new = pl_created_at old) E23514 (Inr new)))"

definition stamp_line :: "ctx \<Rightarrow> fleet \<Rightarrow> po_line_row \<Rightarrow> sqlstate + po_line_row" where
  "stamp_line x db l =
     (if x_app x \<and> x_org x = Some (pl_org l) then
        rbind (current_authenticated_actor x db) (\<lambda>performer.
          Inr (l\<lparr>pl_updated_by := performer, pl_updated_at := At (x_now x)\<rparr>))
      else Inr l)"

definition write_line ::
  "ctx \<Rightarrow> uuid \<Rightarrow> uuid \<Rightarrow> (po_line_row \<Rightarrow> po_line_row) \<Rightarrow> fleet \<Rightarrow> sqlstate + fleet" where
  "write_line x po i f db =
     (case List.find (\<lambda>l. visible x (pl_org l) \<and> pl_po l = po \<and> pl_id l = i) (purchase_order_lines db) of
        None \<Rightarrow> Inr db
      | Some old \<Rightarrow>
          rbind (guard_line_update x db old (f old)) (\<lambda>guarded.
            rbind (stamp_line x db guarded) (\<lambda>new.
              ensure (visible x (pl_org new)) E42501
                (ensure (line_check new) E23514
                  (ensure (line_refs db new) E23503
                    (Inr (db\<lparr>purchase_order_lines :=
                       map (\<lambda>l. if pl_id l = i then new else l) (purchase_order_lines db)\<rparr>)))))))"

section \<open>The service\<close>

definition procurement_error :: "sqlstate \<Rightarrow> py_error" where
  "procurement_error e =
     (if e \<in> {E23505, E40001, E40P01} then ProcurementConflict
      else if e \<in> {E23502, E23503, E23514, E22003, E22008} then ProcurementInvalid else DBError e)"

definition get_order :: "ctx \<Rightarrow> fleet \<Rightarrow> uuid \<Rightarrow> py_error + po_row" where
  "get_order x db i = from_option ProcurementNotFound (find_order x db i)"

definition require_state :: "po_row \<Rightarrow> po_status \<Rightarrow> py_error + unit" where
  "require_state r s = ensure (po_status r = s) ProcurementConflict (Inr ())"

definition create_order :: "ctx \<Rightarrow> po_row \<Rightarrow> fleet \<Rightarrow> py_error + (po_row \<times> fleet)" where
  "create_order x new db = map_error procurement_error (insert_order x new db)"

definition list_orders :: "ctx \<Rightarrow> fleet \<Rightarrow> po_row list" where
  "list_orders x db = sort_key po_id (filter (\<lambda>r. visible x (po_org r)) (purchase_orders db))"

text \<open>The values of an edit: the new vendor, number and notes, where given.\<close>

definition edit_order :: "uuid option \<Rightarrow> pgtext option \<Rightarrow> pgtext option option \<Rightarrow> po_row \<Rightarrow> po_row" where
  "edit_order vendor number notes r =
     r\<lparr>po_vendor := (case vendor of None \<Rightarrow> po_vendor r | Some v \<Rightarrow> v),
       po_number := (case number of None \<Rightarrow> po_number r | Some n \<Rightarrow> n),
       po_notes := (case notes of None \<Rightarrow> po_notes r | Some n \<Rightarrow> n)\<rparr>"

definition update_order ::
  "ctx \<Rightarrow> uuid \<Rightarrow> uuid option \<Rightarrow> pgtext option \<Rightarrow> pgtext option option \<Rightarrow> fleet \<Rightarrow> py_error + (po_row \<times> fleet)"
where
  "update_order x i vendor number notes db =
     rbind (get_order x db i) (\<lambda>r.
       rbind (require_state r DRAFT) (\<lambda>_.
         if vendor = None \<and> number = None \<and> notes = None then Inr (r, db)
         else rbind (map_error procurement_error (write_order x i (edit_order vendor number notes) db))
           (\<lambda>(n, db'). rbind (from_option ProcurementNotFound n) (\<lambda>n. Inr (n, db')))))"

definition issue_order :: "ctx \<Rightarrow> uuid \<Rightarrow> fleet \<Rightarrow> py_error + (po_row \<times> fleet)" where
  "issue_order x i db =
     rbind (get_order x db i) (\<lambda>r.
       rbind (require_state r DRAFT) (\<lambda>_.
         rbind (map_error procurement_error (write_order x i (po_status_update (\<lambda>_. ISSUED)) db))
           (\<lambda>(n, db'). rbind (from_option ProcurementNotFound n) (\<lambda>n. Inr (n, db')))))"

text \<open>A line is active while no line of its order supersedes it.\<close>

definition superseded_line :: "fleet \<Rightarrow> po_line_row \<Rightarrow> bool" where
  "superseded_line db l \<longleftrightarrow>
     (\<exists>s \<in> set (purchase_order_lines db). pl_org s = pl_org l \<and> pl_po s = pl_po l \<and> pl_supersedes s = Some (pl_id l))"

definition get_line :: "ctx \<Rightarrow> fleet \<Rightarrow> uuid \<Rightarrow> uuid \<Rightarrow> py_error + (po_line_row \<times> bool)" where
  "get_line x db po i =
     from_option ProcurementNotFound
       (map_option (\<lambda>l. (l, \<not> superseded_line db l))
         (List.find (\<lambda>l. visible x (pl_org l) \<and> pl_po l = po \<and> pl_id l = i) (purchase_order_lines db)))"

definition order_lines :: "ctx \<Rightarrow> fleet \<Rightarrow> uuid \<Rightarrow> po_line_row list" where
  "order_lines x db po = filter (\<lambda>l. visible x (pl_org l) \<and> pl_po l = po) (purchase_order_lines db)"

text \<open>The first loop of \<open>list_lines\<close> fills the two dictionaries.\<close>

type_synonym line_index = "(int \<times> po_line_row) list \<times> (uuid \<times> po_line_row) list"

definition index_line :: "po_line_row \<Rightarrow> line_index \<Rightarrow> py_error + line_index" where
  "index_line l = (\<lambda>(roots, succs).
     (case pl_supersedes l of
        None \<Rightarrow> ensure (map_of roots (pl_number l) = None) ProcurementConflict
                 (Inr (dict_set (pl_number l) l roots, succs))
      | Some q \<Rightarrow> ensure (map_of succs q = None) ProcurementConflict
                   (Inr (roots, dict_set q l succs))))"

text \<open>The inner loop follows one chain from its root; \<open>seen\<close> grows, so it ends.\<close>

function walk :: "(uuid \<times> po_line_row) list \<Rightarrow> int \<Rightarrow> po_line_row \<Rightarrow> uuid list \<Rightarrow> py_error + po_line_row list" where
  "walk succs n l seen =
     (if pl_id l \<in> set seen \<or> pl_number l \<noteq> n then Inl ProcurementConflict
      else (case map_of succs (pl_id l) of
              None \<Rightarrow> Inr [l]
            | Some s \<Rightarrow> rbind (walk succs n s (seen @ [pl_id l])) (\<lambda>rest. Inr (l # rest))))"
  by pat_completeness auto

termination
proof (relation "measure (\<lambda>(succs, n, l, seen). card (insert (pl_id l) (pl_id ` snd ` set succs) - set seen))")
  fix succs :: "(uuid \<times> po_line_row) list" and n :: int and l s :: po_line_row and seen :: "uuid list"
  assume new: "\<not> (pl_id l \<in> set seen \<or> pl_number l \<noteq> n)" and follows: "map_of succs (pl_id l) = Some s"
  let ?ids = "pl_id ` snd ` set succs"
  have "(pl_id l, s) \<in> set succs" using follows by (rule map_of_SomeD)
  then have "snd (pl_id l, s) \<in> snd ` set succs" by (rule imageI)
  then have "pl_id s \<in> ?ids" by auto
  then have "insert (pl_id s) ?ids - set (seen @ [pl_id l]) \<subset> insert (pl_id l) ?ids - set seen"
    using new by auto
  then show "((succs, n, s, seen @ [pl_id l]), (succs, n, l, seen))
      \<in> measure (\<lambda>(succs, n, l, seen). card (insert (pl_id l) (pl_id ` snd ` set succs) - set seen))"
    by (simp add: psubset_card_mono)
qed simp

declare walk.simps [simp del]

definition follow_root :: "(uuid \<times> po_line_row) list \<Rightarrow> int \<times> po_line_row \<Rightarrow> po_line_row list \<Rightarrow> py_error + po_line_row list" where
  "follow_root succs = (\<lambda>(n, root) ordered.
     rbind (walk succs n root (map pl_id ordered)) (\<lambda>rows. Inr (ordered @ rows)))"

definition list_lines :: "ctx \<Rightarrow> fleet \<Rightarrow> uuid \<Rightarrow> py_error + po_line_row list" where
  "list_lines x db po =
     rbind (get_order x db po) (\<lambda>_.
       let rows = order_lines x db po in
       rbind (fold_result index_line rows ([], [])) (\<lambda>(roots, succs).
         rbind (fold_result (follow_root succs) (sort_key fst roots) []) (\<lambda>ordered.
           ensure (length ordered = length rows) ProcurementConflict (Inr ordered))))"

definition create_line :: "ctx \<Rightarrow> uuid \<Rightarrow> po_line_row \<Rightarrow> fleet \<Rightarrow> py_error + ((po_line_row \<times> bool) \<times> fleet)" where
  "create_line x po new db =
     rbind (get_order x db po) (\<lambda>r.
       rbind (require_state r (if pl_supersedes new = None then DRAFT else ISSUED)) (\<lambda>_.
         rbind (case pl_supersedes new of
                  None \<Rightarrow> Inr (pl_number new)
                | Some q \<Rightarrow> rbind (get_line x db po q) (\<lambda>(prior, active).
                              ensure active ProcurementConflict (Inr (pl_number prior)))) (\<lambda>number.
           rbind (map_error procurement_error
                    (insert_line x (new\<lparr>pl_number := number, pl_org := po_org r, pl_po := po\<rparr>) db)) (\<lambda>(l, db').
             rbind (get_line x db' po (pl_id new)) (\<lambda>r. Inr (r, db'))))))"

text \<open>\<open>update_line\<close>; \<open>None\<close> is a request without values.\<close>

definition update_line ::
  "ctx \<Rightarrow> uuid \<Rightarrow> uuid \<Rightarrow> (po_line_row \<Rightarrow> po_line_row) option \<Rightarrow> fleet
   \<Rightarrow> py_error + ((po_line_row \<times> bool) \<times> fleet)" where
  "update_line x po i f db =
     rbind (get_order x db po) (\<lambda>r.
       rbind (require_state r DRAFT) (\<lambda>_.
         rbind (get_line x db po i) (\<lambda>_.
           rbind (case f of None \<Rightarrow> Inr db
                  | Some w \<Rightarrow> map_error procurement_error (write_line x po i w db)) (\<lambda>db'.
             rbind (get_line x db' po i) (\<lambda>r. Inr (r, db'))))))"

end
