(* ===== verification/ProcurementProperties.thy ===== *)
theory ProcurementProperties
  imports Procurement AuthProperties
begin

text \<open>
  What the order tables promise along every run of their writes: the lines of an order form one
  chain per line number, \<open>list_lines\<close> reads them back in full and in order, and an issued order is
  frozen.
\<close>

section \<open>Runs\<close>

inductive procurement_step :: "fleet \<Rightarrow> fleet \<Rightarrow> bool" where
  order_inserted: "insert_order x new db = Inr (r, db') \<Longrightarrow> procurement_step db db'"
| order_written: "write_order x i f db = Inr (r, db') \<Longrightarrow> procurement_step db db'"
| line_inserted: "insert_line x new db = Inr (l, db') \<Longrightarrow> procurement_step db db'"
| line_written: "write_line x po i f db = Inr db' \<Longrightarrow> procurement_step db db'"
| other_tables: "purchase_orders db' = purchase_orders db \<Longrightarrow>
    purchase_order_lines db' = purchase_order_lines db \<Longrightarrow> procurement_step db db'"

inductive procured :: "fleet \<Rightarrow> bool" where
  no_orders: "purchase_orders db = [] \<Longrightarrow> purchase_order_lines db = [] \<Longrightarrow> procured db"
| procure: "procured db \<Longrightarrow> procurement_step db db' \<Longrightarrow> procured db'"

inductive procured_later :: "fleet \<Rightarrow> fleet \<Rightarrow> bool" for db :: fleet where
  same: "procured_later db db"
| onward: "procured_later db db' \<Longrightarrow> procurement_step db' db'' \<Longrightarrow> procured_later db db''"

section \<open>The invariant\<close>

text \<open>Lines, newest first: a line obeys the unique indexes against the older ones and supersedes one of them.\<close>

primrec grown_ok :: "po_line_row list \<Rightarrow> bool" where
  "grown_ok [] = True"
| "grown_ok (l # older) \<longleftrightarrow> grown_ok older \<and> line_unique older l
     \<and> holds_if (\<lambda>q. \<exists>k \<in> set older. same_lineage l k \<and> pl_id k = q) (pl_supersedes l)"

definition orders_ok :: "fleet \<Rightarrow> bool" where
  "orders_ok db \<longleftrightarrow> distinct (map po_id (purchase_orders db)) \<and> grown_ok (rev (purchase_order_lines db))"

lemma line_unique_rev [simp]: "line_unique (rev ls) l = line_unique ls l"
  by (simp add: line_unique_def)

definition line_key :: "po_line_row \<Rightarrow> uuid \<times> uuid \<times> uuid \<times> int \<times> uuid option" where
  "line_key l = (pl_id l, pl_org l, pl_po l, pl_number l, pl_supersedes l)"

lemma grown_ok_map:
  assumes "\<And>l. line_key (f l) = line_key l"
  shows "grown_ok (map f ls) = grown_ok ls"
proof -
  have f: "pl_id (f l) = pl_id l" "pl_org (f l) = pl_org l" "pl_po (f l) = pl_po l"
    "pl_number (f l) = pl_number l" "pl_supersedes (f l) = pl_supersedes l" for l
    using assms [of l] by (simp_all add: line_key_def)
  show ?thesis
    by (induction ls) (simp_all add: line_unique_def same_lineage_def f)
qed

lemma insert_order_Inr:
  assumes "insert_order x new db = Inr (r, db')"
  shows "purchase_orders db' = purchase_orders db @ [r]" "purchase_order_lines db' = purchase_order_lines db"
    "po_id r \<notin> po_id ` set (purchase_orders db)" "po_status r = DRAFT" "po_org r = po_org new"
  using assms by (auto simp: insert_order_def Let_def ensure_Inr_iff rbind_Inr_iff)

lemma stamp_order_Inr:
  "stamp_order x db r = Inr n \<Longrightarrow> po_id n = po_id r \<and> po_org n = po_org r \<and> po_status n = po_status r"
  by (auto simp: stamp_order_def rbind_Inr_iff split: if_splits)

lemma guard_order_update_Inr:
  "guard_order_update x db old new = Inr n \<Longrightarrow>
     po_status old = DRAFT \<and> po_issued_at old = None \<and> po_id n = po_id old \<and> po_org n = po_org old
     \<and> po_status n \<in> {DRAFT, ISSUED}"
  by (auto simp: guard_order_update_def ensure_Inr_iff rbind_Inr_iff split: if_splits)

lemma write_order_Inr:
  assumes "write_order x i f db = Inr (r, db')"
  shows "db' = db \<and> r = None \<and> find_order x db i = None
     \<or> (\<exists>old new. find_order x db i = Some old \<and> r = Some new \<and> po_id new = i \<and> po_org new = po_org old
          \<and> po_status old = DRAFT
          \<and> db' = db\<lparr>purchase_orders := map (\<lambda>k. if po_id k = i then new else k) (purchase_orders db)\<rparr>)"
proof (cases "find_order x db i")
  case None
  then show ?thesis using assms by (auto simp: write_order_def)
next
  case (Some old)
  then have "po_id old = i" by (auto simp: find_order_def find_Some_iff)
  then show ?thesis
    using assms Some
    by (auto simp: write_order_def rbind_Inr_iff ensure_Inr_iff dest!: stamp_order_Inr guard_order_update_Inr)
qed

lemma insert_line_Inr:
  assumes "insert_line x new db = Inr (l, db')"
  shows "db' = db\<lparr>purchase_order_lines := purchase_order_lines db @ [l]\<rparr>"
    "line_unique (purchase_order_lines db) l"
    "holds_if (\<lambda>q. \<exists>k \<in> set (purchase_order_lines db). same_lineage l k \<and> pl_id k = q) (pl_supersedes l)"
    "pl_supersedes l = pl_supersedes new" "line_key l = line_key new"
    "\<exists>r. order_of x db new = Inr r \<and> po_status r = (if pl_supersedes new = None then DRAFT else ISSUED)"
  using assms
  by (auto simp: insert_line_def guard_line_insert_def ensure_Inr_iff rbind_Inr_iff line_refs_def line_key_def
      same_lineage_def split: option.splits)

lemma stamp_line_Inr: "stamp_line x db l = Inr n \<Longrightarrow> line_key n = line_key l"
  by (auto simp: stamp_line_def line_key_def rbind_Inr_iff split: if_splits)

lemma guard_line_update_Inr:
  assumes "guard_line_update x db old new = Inr n"
  obtains r where "line_key n = line_key old" "order_of x db old = Inr r" "po_status r = DRAFT"
  using assms by (auto simp: guard_line_update_def line_key_def rbind_Inr_iff ensure_Inr_iff)

lemma write_line_Inr:
  assumes "write_line x po i f db = Inr db'"
  shows "db' = db
     \<or> (\<exists>old new r. old \<in> set (purchase_order_lines db) \<and> pl_id old = i \<and> line_key new = line_key old
          \<and> order_of x db old = Inr r \<and> po_status r = DRAFT
          \<and> db' = db\<lparr>purchase_order_lines := map (\<lambda>l. if pl_id l = i then new else l) (purchase_order_lines db)\<rparr>)"
proof (cases "List.find (\<lambda>l. visible x (pl_org l) \<and> pl_po l = po \<and> pl_id l = i) (purchase_order_lines db)")
  case None
  then show ?thesis using assms by (simp add: write_line_def)
next
  case (Some old)
  then obtain g new where g: "guard_line_update x db old (f old) = Inr g" "stamp_line x db g = Inr new"
    "db' = db\<lparr>purchase_order_lines := map (\<lambda>l. if pl_id l = i then new else l) (purchase_order_lines db)\<rparr>"
    using assms unfolding write_line_def Some option.case rbind_Inr_iff ensure_Inr_iff by blast
  have "old \<in> set (purchase_order_lines db)" "pl_id old = i" using find_Some_in [OF Some] by simp_all
  moreover obtain r where "line_key g = line_key old" "order_of x db old = Inr r" "po_status r = DRAFT"
    by (rule guard_line_update_Inr [OF g(1)])
  moreover have "line_key new = line_key g" using g(2) by (rule stamp_line_Inr)
  ultimately show ?thesis using g(3)
    by (intro disjI2 exI [of _ old] exI [of _ new] exI [of _ r]) simp
qed

lemma grown_ok_ids: "grown_ok ls \<Longrightarrow> distinct (map pl_id ls)"
  by (induction ls) (auto simp: line_unique_def)

lemma line_eq:
  assumes "distinct (map pl_id ls)" "k \<in> set ls" "l \<in> set ls" "pl_id k = pl_id l"
  shows "k = l"
  using assms by (auto simp: distinct_map inj_on_def)

lemma replace_line_keeps:
  assumes "grown_ok (rev ls)" "old \<in> set ls" "pl_id old = i" "line_key new = line_key old"
  shows "grown_ok (rev (map (\<lambda>l. if pl_id l = i then new else l) ls))"
proof -
  define f where "f l = l\<lparr>pl_item := if pl_id l = i then pl_item new else pl_item l,
     pl_quantity := if pl_id l = i then pl_quantity new else pl_quantity l,
     pl_uom := if pl_id l = i then pl_uom new else pl_uom l,
     pl_price := if pl_id l = i then pl_price new else pl_price l,
     pl_expected := if pl_id l = i then pl_expected new else pl_expected l,
     pl_created_by := if pl_id l = i then pl_created_by new else pl_created_by l,
     pl_updated_by := if pl_id l = i then pl_updated_by new else pl_updated_by l,
     pl_created_at := if pl_id l = i then pl_created_at new else pl_created_at l,
     pl_updated_at := if pl_id l = i then pl_updated_at new else pl_updated_at l\<rparr>" for l :: po_line_row
  have "f l = (if pl_id l = i then new else l)" if "l \<in> set ls" for l
  proof (cases "pl_id l = i")
    case True
    then have "l = old" using line_eq [OF _ that assms(2)] grown_ok_ids [OF assms(1)] assms(3)
      by (simp flip: rev_map)
    then show ?thesis using assms(3,4) by (simp add: f_def line_key_def)
  next
    case False
    then show ?thesis by (simp add: f_def)
  qed
  then have "map (\<lambda>l. if pl_id l = i then new else l) ls = map f ls" by simp
  moreover have "grown_ok (map f (rev ls)) = grown_ok (rev ls)"
    by (rule grown_ok_map) (simp add: f_def line_key_def)
  ultimately show ?thesis using assms(1) by (metis rev_map)
qed

lemma step_keeps_orders:
  assumes ok: "orders_ok db" and s: "procurement_step db db'"
  shows "orders_ok db'"
  using s
proof (cases rule: procurement_step.cases)
  case (order_inserted x new r)
  then show ?thesis using ok insert_order_Inr [OF order_inserted] by (simp add: orders_ok_def)
next
  case (order_written x i f r)
  from write_order_Inr [OF order_written] consider "db' = db"
    | new where "po_id new = i"
        "db' = db\<lparr>purchase_orders := map (\<lambda>k. if po_id k = i then new else k) (purchase_orders db)\<rparr>"
    by blast
  then show ?thesis
  proof cases
    case 1
    then show ?thesis using ok by simp
  next
    case (2 new)
    have "map (\<lambda>k. po_id (if po_id k = i then new else k)) (purchase_orders db) = map po_id (purchase_orders db)"
      by (rule map_cong) (simp_all add: 2(1))
    then show ?thesis using ok by (simp add: orders_ok_def 2(2) comp_def del: map_eq_conv)
  qed
next
  case (line_inserted x new l)
  then show ?thesis using ok insert_line_Inr [OF line_inserted] by (simp add: orders_ok_def)
next
  case (line_written x po i f)
  then show ?thesis using ok write_line_Inr [OF line_written] replace_line_keeps
    by (auto simp: orders_ok_def)
next
  case other_tables
  then show ?thesis using ok by (simp add: orders_ok_def)
qed

lemma procured_ok: "procured db \<Longrightarrow> orders_ok db"
proof (induction rule: procured.induct)
  case (no_orders db)
  then show ?case by (simp add: orders_ok_def)
qed (rule step_keeps_orders)

section \<open>Chains\<close>

text \<open>A chain starts at a root and every later line supersedes the line before it.\<close>

fun linked_from :: "uuid option \<Rightarrow> po_line_row list \<Rightarrow> bool" where
  "linked_from q [] = True"
| "linked_from q (l # ls) \<longleftrightarrow> pl_supersedes l = q \<and> linked_from (Some (pl_id l)) ls"

definition numbered :: "int \<Rightarrow> po_line_row list \<Rightarrow> po_line_row list" where
  "numbered n ls = filter (\<lambda>l. pl_number l = n) ls"

definition one_order :: "po_line_row list \<Rightarrow> bool" where
  "one_order ls \<longleftrightarrow> (\<exists>org po. \<forall>l \<in> set ls. pl_org l = org \<and> pl_po l = po)"

lemma one_order_init: "one_order (ls @ [l]) \<Longrightarrow> one_order ls"
  unfolding one_order_def by auto

lemma numbered_snoc:
  "numbered n (ls @ [l]) = (if pl_number l = n then numbered n ls @ [l] else numbered n ls)"
  by (simp add: numbered_def)

lemma linked_append:
  "linked_from q (ls @ ks) \<longleftrightarrow> linked_from q ls \<and> linked_from (if ls = [] then q else Some (pl_id (last ls))) ks"
  by (induction ls arbitrary: q) auto

lemma linked_followed:
  assumes "linked_from q ls" "k \<in> set (butlast ls)"
  shows "\<exists>s \<in> set ls. pl_supersedes s = Some (pl_id k)"
  using assms
proof (induction ls arbitrary: q)
  case (Cons l ls)
  then show ?case by (cases ls) (auto split: if_splits)
qed simp

lemma linked_root: "linked_from None ls \<Longrightarrow> ls \<noteq> [] \<Longrightarrow> \<exists>l \<in> set ls. pl_supersedes l = None"
  by (cases ls) auto

lemma chain_linked:
  assumes "grown_ok (rev ls)" "one_order ls"
  shows "linked_from None (numbered n ls)"
  using assms
proof (induction ls rule: rev_induct)
  case Nil
  then show ?case by (simp add: numbered_def)
next
  case (snoc l ls)
  let ?c = "numbered n ls"
  have g: "grown_ok (rev ls)" "line_unique ls l" using snoc.prems(1) by simp_all
  have c: "linked_from None ?c" using g(1) one_order_init [OF snoc.prems(2)] by (rule snoc.IH)
  note u = g(2)
  have lin: "same_lineage l k" if "k \<in> set ?c" "pl_number l = n" for k
    using snoc.prems(2) that by (auto simp: same_lineage_def one_order_def numbered_def)
  show ?case
  proof (cases "pl_number l = n")
    case True
    show ?thesis
    proof (cases "pl_supersedes l")
      case None
      then have "\<not> (\<exists>k \<in> set ?c. pl_supersedes k = None)"
        using u lin True by (auto simp: line_unique_def numbered_def)
      then have "?c = []" using linked_root [OF c] by blast
      then show ?thesis using True None by (simp add: numbered_snoc)
    next
      case (Some q)
      then obtain k where k: "k \<in> set ls" "same_lineage l k" "pl_id k = q" using snoc.prems(1) by auto
      then have kc: "k \<in> set ?c" using True by (simp add: numbered_def same_lineage_def)
      have "k \<notin> set (butlast ?c)"
      proof
        assume "k \<in> set (butlast ?c)"
        then obtain s where "s \<in> set ?c" "pl_supersedes s = Some q"
          using linked_followed [OF c] k(3) by blast
        then show False using u Some lin [OF _ True] by (auto simp: line_unique_def numbered_def same_lineage_def)
      qed
      then have "last ?c = k" "?c \<noteq> []" using kc by (cases ?c rule: rev_cases; auto)+
      then show ?thesis using c True Some k(3) by (simp add: numbered_snoc linked_append)
    qed
  next
    case False
    then show ?thesis using c by (simp add: numbered_snoc)
  qed
qed

lemma one_order_of: "one_order (order_lines x db po)"
  unfolding one_order_def order_lines_def
  by (intro exI [of _ "the (x_org x)"] exI [of _ po]) (auto simp: visible_def)

lemma grown_ok_filter:
  assumes "grown_ok ls" "\<And>k l. same_lineage l k \<Longrightarrow> P k = P l"
  shows "grown_ok (filter P ls)"
  using assms(1)
proof (induction ls)
  case (Cons l ls)
  have "holds_if (\<lambda>q. \<exists>k \<in> set (filter P ls). same_lineage l k \<and> pl_id k = q) (pl_supersedes l)" if "P l"
    using Cons(2) assms(2) that by (cases "pl_supersedes l") auto
  then show ?case using Cons by (auto simp: line_unique_def)
qed simp

lemma grown_ok_order: "orders_ok db \<Longrightarrow> grown_ok (rev (order_lines x db po))"
  unfolding order_lines_def rev_filter orders_ok_def
  by (rule grown_ok_filter) (auto simp: same_lineage_def)

section \<open>Reading the chains\<close>

lemma index_line_root:
  "pl_supersedes l = None \<Longrightarrow> pl_number l \<notin> fst ` set rs \<Longrightarrow>
     index_line l (rs, succs) = Inr (rs @ [(pl_number l, l)], succs)"
  by (simp add: index_line_def dict_set_new map_of_eq_None_iff)

lemma index_line_successor:
  "pl_supersedes l = Some q \<Longrightarrow> q \<notin> fst ` set succs \<Longrightarrow>
     index_line l (rs, succs) = Inr (rs, succs @ [(q, l)])"
  by (simp add: index_line_def dict_set_new map_of_eq_None_iff)

lemma index_lines:
  assumes "grown_ok (rev ls)" "one_order ls"
  shows "fold_result index_line ls ([], [])
    = Inr (map (\<lambda>l. (pl_number l, l)) (filter (\<lambda>l. pl_supersedes l = None) ls),
           map (\<lambda>l. (the (pl_supersedes l), l)) (filter (\<lambda>l. pl_supersedes l \<noteq> None) ls))"
  using assms
proof (induction ls rule: rev_induct)
  case (snoc l ls)
  have g: "grown_ok (rev ls)" "line_unique ls l" using snoc.prems(1) by simp_all
  note u = g(2)
  have same: "pl_org k = pl_org l" "pl_po k = pl_po l" if "k \<in> set ls" for k
    using snoc.prems(2) that unfolding one_order_def by auto
  have IH: "fold_result index_line ls ([], [])
    = Inr (map (\<lambda>l. (pl_number l, l)) (filter (\<lambda>l. pl_supersedes l = None) ls),
           map (\<lambda>l. (the (pl_supersedes l), l)) (filter (\<lambda>l. pl_supersedes l \<noteq> None) ls))"
    using g(1) one_order_init [OF snoc.prems(2)] by (rule snoc.IH)
  show ?case
  proof (cases "pl_supersedes l")
    case None
    have "pl_number l \<notin> fst ` set (map (\<lambda>l. (pl_number l, l)) (filter (\<lambda>l. pl_supersedes l = None) ls))"
      using u None same by (auto simp: line_unique_def same_lineage_def)
    from index_line_root [OF None this] show ?thesis using None by (simp add: fold_result_append IH)
  next
    case (Some q)
    have "q \<notin> fst ` set (map (\<lambda>l. (the (pl_supersedes l), l)) (filter (\<lambda>l. pl_supersedes l \<noteq> None) ls))"
      using u Some same by (auto simp: line_unique_def)
    from index_line_successor [OF Some this] show ?thesis using Some by (simp add: fold_result_append IH)
  qed
qed simp

lemma walk_chain:
  assumes "linked_from q (l # ls)" "\<forall>k \<in> set (l # ls). pl_number k = n" "distinct (map pl_id (l # ls))"
    and "set seen \<inter> pl_id ` set (l # ls) = {}"
    and "\<And>k s. k \<in> set (l # ls) \<Longrightarrow> map_of succs (pl_id k) = Some s \<longleftrightarrow> s \<in> set ls \<and> pl_supersedes s = Some (pl_id k)"
  shows "walk succs n l seen = Inr (l # ls)"
  using assms
proof (induction ls arbitrary: l q seen)
  case Nil
  have "map_of succs (pl_id l) = None" using Nil(5) [of l] by (cases "map_of succs (pl_id l)") auto
  then show ?case using Nil by (simp add: walk.simps)
next
  case (Cons s ls)
  have s: "map_of succs (pl_id l) = Some s" using Cons.prems(1,5) by simp
  have "map_of succs (pl_id k) = Some t \<longleftrightarrow> t \<in> set ls \<and> pl_supersedes t = Some (pl_id k)"
    if "k \<in> set (s # ls)" for k t
  proof -
    have "pl_supersedes s \<noteq> Some (pl_id k)" using Cons.prems(1,3) that by auto
    then show ?thesis using Cons.prems(5) [of k t] that by auto
  qed
  then have "walk succs n s (seen @ [pl_id l]) = Inr (s # ls)"
    using Cons.prems by (intro Cons.IH [of "Some (pl_id l)"]) auto
  then show ?case using Cons.prems(2,4) s by (subst walk.simps) simp
qed

lemma distinct_successors:
  assumes "grown_ok (rev ls)" "one_order ls"
  shows "distinct (map (\<lambda>l. the (pl_supersedes l)) (filter (\<lambda>l. pl_supersedes l \<noteq> None) ls))"
  using assms
proof (induction ls rule: rev_induct)
  case (snoc l ls)
  have g: "grown_ok (rev ls)" "line_unique ls l" using snoc.prems(1) by simp_all
  have "pl_org k = pl_org l" if "k \<in> set ls" for k
    using snoc.prems(2) that unfolding one_order_def by auto
  then show ?case using snoc.IH [OF g(1) one_order_init [OF snoc.prems(2)]] g(2)
    by (auto simp: line_unique_def)
qed simp

lemma distinct_roots:
  assumes "grown_ok (rev ls)" "one_order ls"
  shows "distinct (map pl_number (filter (\<lambda>l. pl_supersedes l = None) ls))"
  using assms
proof (induction ls rule: rev_induct)
  case (snoc l ls)
  have g: "grown_ok (rev ls)" "line_unique ls l" using snoc.prems(1) by simp_all
  have "pl_org k = pl_org l" "pl_po k = pl_po l" if "k \<in> set ls" for k
    using snoc.prems(2) that unfolding one_order_def by auto
  then show ?case using snoc.IH [OF g(1) one_order_init [OF snoc.prems(2)]] g(2)
    by (auto simp: line_unique_def same_lineage_def)
qed simp

text \<open>Grouping by number, in the order of the numbers, is a stable sort.\<close>

lemma mset_groups:
  "distinct ns \<Longrightarrow> mset (concat (map (\<lambda>n. numbered n ls) ns)) = mset (filter (\<lambda>l. pl_number l \<in> set ns) ls)"
proof (induction ns)
  case (Cons n ns)
  have "mset (numbered n ls) + mset (filter (\<lambda>l. pl_number l \<in> set ns) ls)
      = mset (filter (\<lambda>l. pl_number l \<in> set (n # ns)) ls)"
    using Cons(2) by (induction ls) (auto simp: numbered_def)
  then show ?case using Cons by simp
qed simp

lemma numbered_groups:
  "distinct ns \<Longrightarrow> numbered k (concat (map (\<lambda>n. numbered n ls) ns)) = (if k \<in> set ns then numbered k ls else [])"
proof (induction ns)
  case (Cons n ns)
  have "numbered k (numbered n ls) = (if k = n then numbered k ls else [])"
    unfolding numbered_def by (induction ls) auto
  then show ?case using Cons by (auto simp: numbered_def)
qed (simp add: numbered_def)

lemma sorted_groups:
  "sorted ns \<Longrightarrow> sorted (map pl_number (concat (map (\<lambda>n. numbered n ls) ns)))"
proof (induction ns)
  case (Cons n ns)
  have "map pl_number (numbered n ls) = replicate (length (numbered n ls)) n"
    unfolding numbered_def by (induction ls) auto
  then show ?case using Cons by (auto simp: sorted_append numbered_def)
qed simp

lemma sort_groups:
  assumes "sorted ns" "distinct ns" "set ns = pl_number ` set ls"
  shows "concat (map (\<lambda>n. numbered n ls) ns) = sort_key pl_number ls"
proof (rule properties_for_sort_key [symmetric])
  show "mset (concat (map (\<lambda>n. numbered n ls) ns)) = mset ls"
    using assms(3) by (simp add: mset_groups [OF assms(2)])
  show "sorted (map pl_number (concat (map (\<lambda>n. numbered n ls) ns)))" by (rule sorted_groups [OF assms(1)])
  fix k assume "k \<in> set (concat (map (\<lambda>n. numbered n ls) ns))"
  then have "pl_number k \<in> set ns" by (auto simp: numbered_def)
  then show "filter (\<lambda>l. pl_number k = pl_number l) (concat (map (\<lambda>n. numbered n ls) ns))
      = filter (\<lambda>l. pl_number k = pl_number l) ls"
    using numbered_groups [OF assms(2), of "pl_number k" ls] by (simp add: numbered_def eq_commute)
qed

text \<open>The two loops of \<open>list_lines\<close> over the lines of one order.\<close>

definition root_index :: "po_line_row list \<Rightarrow> (int \<times> po_line_row) list" where
  "root_index ls = map (\<lambda>l. (pl_number l, l)) (filter (\<lambda>l. pl_supersedes l = None) ls)"

definition successor_index :: "po_line_row list \<Rightarrow> (uuid \<times> po_line_row) list" where
  "successor_index ls = map (\<lambda>l. (the (pl_supersedes l), l)) (filter (\<lambda>l. pl_supersedes l \<noteq> None) ls)"

lemma successor_found:
  assumes "grown_ok (rev ls)" "one_order ls"
  shows "map_of (successor_index ls) q = Some s \<longleftrightarrow> s \<in> set ls \<and> pl_supersedes s = Some q"
proof -
  have "map fst (successor_index ls) = map (\<lambda>l. the (pl_supersedes l)) (filter (\<lambda>l. pl_supersedes l \<noteq> None) ls)"
    by (simp add: successor_index_def)
  then have "distinct (map fst (successor_index ls))" using distinct_successors [OF assms] by simp
  then have "map_of (successor_index ls) q = Some s \<longleftrightarrow> (q, s) \<in> set (successor_index ls)" by simp
  also have "\<dots> \<longleftrightarrow> s \<in> set ls \<and> pl_supersedes s = Some q" by (force simp: successor_index_def)
  finally show ?thesis .
qed

lemma predecessor_line:
  "grown_ok (rev ls) \<Longrightarrow> s \<in> set ls \<Longrightarrow> pl_supersedes s = Some q \<Longrightarrow> \<exists>j \<in> set ls. same_lineage s j \<and> pl_id j = q"
proof (induction ls rule: rev_induct)
  case (snoc l ls)
  then show ?case by (cases "s = l") auto
qed simp

lemma line_ids: "grown_ok (rev ls) \<Longrightarrow> distinct (map pl_id ls)"
  using grown_ok_ids [of "rev ls"] by (simp flip: rev_map)

lemma successor_number:
  assumes "grown_ok (rev ls)" "s \<in> set ls" "pl_supersedes s = Some (pl_id k)" "k \<in> set ls"
  shows "pl_number s = pl_number k"
proof -
  obtain j where j: "j \<in> set ls" "same_lineage s j" "pl_id j = pl_id k"
    using predecessor_line [OF assms(1-3)] by blast
  then have "j = k" using line_eq [OF line_ids [OF assms(1)]] assms(4) by blast
  then show ?thesis using j(2) by (simp add: same_lineage_def)
qed

lemma walk_number:
  assumes g: "grown_ok (rev ls)" "one_order ls" and r: "(n, r) \<in> set (root_index ls)"
    and seen: "set seen \<inter> pl_id ` set (numbered n ls) = {}"
  shows "walk (successor_index ls) n r seen = Inr (numbered n ls)"
proof -
  have r': "r \<in> set ls" "pl_number r = n" "pl_supersedes r = None" using r by (auto simp: root_index_def)
  then have "r \<in> set (numbered n ls)" by (simp add: numbered_def)
  then obtain c cs where c: "numbered n ls = c # cs" by (cases "numbered n ls") auto
  have lk: "linked_from None (c # cs)" using chain_linked [OF g, of n] c by simp
  have mem: "k \<in> set (c # cs) \<longleftrightarrow> k \<in> set ls \<and> pl_number k = n" for k
    unfolding c [symmetric] by (simp add: numbered_def)
  have "c \<in> set ls" "pl_number c = n" "pl_supersedes c = None" using mem [of c] lk by simp_all
  then have "c = r"
    using distinct_roots [OF g] r' by (auto simp: distinct_map inj_on_def)
  have ids: "distinct (map pl_id (c # cs))"
    using line_ids [OF g(1)] unfolding c [symmetric] by (simp add: numbered_def distinct_map_filter)
  have "walk (successor_index ls) n c seen = Inr (c # cs)"
  proof (rule walk_chain [OF lk _ ids])
    show "\<forall>k \<in> set (c # cs). pl_number k = n" using mem by blast
    show "set seen \<inter> pl_id ` set (c # cs) = {}" using seen c by simp
    fix k s assume k: "k \<in> set (c # cs)"
    have "map_of (successor_index ls) (pl_id k) = Some s \<longleftrightarrow> s \<in> set ls \<and> pl_supersedes s = Some (pl_id k)"
      by (rule successor_found [OF g])
    also have "\<dots> \<longleftrightarrow> s \<in> set (c # cs) \<and> pl_supersedes s = Some (pl_id k)"
      using successor_number [OF g(1)] k mem by auto
    also have "\<dots> \<longleftrightarrow> s \<in> set cs \<and> pl_supersedes s = Some (pl_id k)"
      using \<open>pl_supersedes c = None\<close> by auto
    finally show "map_of (successor_index ls) (pl_id k) = Some s \<longleftrightarrow> s \<in> set cs \<and> pl_supersedes s = Some (pl_id k)" .
  qed
  then show ?thesis using c \<open>c = r\<close> by simp
qed

lemma follow_roots:
  assumes g: "grown_ok (rev ls)" "one_order ls" and r: "set rs \<subseteq> set (root_index ls)"
    and d: "distinct (map fst rs)" and acc: "\<forall>l \<in> set acc. l \<in> set ls \<and> pl_number l \<notin> fst ` set rs"
  shows "fold_result (follow_root (successor_index ls)) rs acc
      = Inr (acc @ concat (map (\<lambda>n. numbered n ls) (map fst rs)))"
  using r d acc
proof (induction rs arbitrary: acc)
  case (Cons e rs)
  obtain n q where e: "e = (n, q)" by (cases e)
  have "set (map pl_id acc) \<inter> pl_id ` set (numbered n ls) = {}"
  proof -
    have "l = k" if "l \<in> set acc" "k \<in> set (numbered n ls)" "pl_id l = pl_id k" for l k
      using line_eq [OF line_ids [OF g(1)]] Cons.prems(3) that by (auto simp: numbered_def)
    then show ?thesis using Cons.prems(3) by (fastforce simp: e numbered_def)
  qed
  then have "walk (successor_index ls) n q (map pl_id acc) = Inr (numbered n ls)"
    using Cons.prems(1) by (intro walk_number [OF g]) (simp_all add: e)
  then have "follow_root (successor_index ls) e acc = Inr (acc @ numbered n ls)"
    by (simp add: follow_root_def e)
  moreover have "fold_result (follow_root (successor_index ls)) rs (acc @ numbered n ls)
      = Inr ((acc @ numbered n ls) @ concat (map (\<lambda>n. numbered n ls) (map fst rs)))"
    using Cons.prems by (intro Cons.IH) (auto simp: e numbered_def)
  ultimately show ?case by (simp add: e)
qed simp

lemma root_numbers:
  assumes "grown_ok (rev ls)" "one_order ls"
  shows "set (map fst (root_index ls)) = pl_number ` set ls"
proof
  show "pl_number ` set ls \<subseteq> set (map fst (root_index ls))"
  proof
    fix n assume "n \<in> pl_number ` set ls"
    then have "numbered n ls \<noteq> []" by (auto simp: numbered_def filter_empty_conv)
    then obtain l where "l \<in> set (numbered n ls)" "pl_supersedes l = None"
      using linked_root [OF chain_linked [OF assms]] by blast
    then show "n \<in> set (map fst (root_index ls))" by (force simp: root_index_def numbered_def)
  qed
qed (auto simp: root_index_def)

lemma list_lines_sorted:
  assumes ok: "orders_ok db" and r: "get_order x db po = Inr r"
  shows "list_lines x db po = Inr (sort_key pl_number (order_lines x db po))"
proof -
  let ?ls = "order_lines x db po" and ?rs = "sort_key fst (root_index (order_lines x db po))"
  note g = grown_ok_order [OF ok, of x po] one_order_of [of x db po]
  have d: "distinct (map fst (root_index ?ls))"
    using distinct_roots [OF g] by (simp add: root_index_def comp_def)
  have rs: "set ?rs \<subseteq> set (root_index ?ls)" "sorted (map fst ?rs)" "distinct (map fst ?rs)"
    using d by (simp_all add: distinct_map)
  have "fold_result (follow_root (successor_index ?ls)) ?rs []
      = Inr (concat (map (\<lambda>n. numbered n ?ls) (map fst ?rs)))"
    using follow_roots [OF g rs(1,3), of "[]"] by simp
  also have "concat (map (\<lambda>n. numbered n ?ls) (map fst ?rs)) = sort_key pl_number ?ls"
    using root_numbers [OF g] by (intro sort_groups [OF rs(2,3)]) simp
  finally have "fold_result (follow_root (successor_index ?ls)) ?rs [] = Inr (sort_key pl_number ?ls)" .
  moreover have "fold_result index_line ?ls ([], []) = Inr (root_index ?ls, successor_index ?ls)"
    using index_lines [OF g] by (simp add: root_index_def successor_index_def)
  ultimately show ?thesis by (simp add: list_lines_def r Let_def)
qed

section \<open>The lines of an order\<close>

lemma superseded_iff:
  assumes ok: "orders_ok db" and l: "l \<in> set (order_lines x db po)"
  shows "superseded_line db l \<longleftrightarrow> l \<noteq> last (numbered (pl_number l) (order_lines x db po))"
proof -
  let ?ls = "order_lines x db po" and ?c = "numbered (pl_number l) (order_lines x db po)"
  note g = grown_ok_order [OF ok, of x po] one_order_of [of x db po]
  have lk: "linked_from None ?c" by (rule chain_linked [OF g])
  have lc: "l \<in> set ?c" using l by (simp add: numbered_def)
  have ids: "distinct (map pl_id ?c)" using line_ids [OF g(1)] by (simp add: numbered_def distinct_map_filter)
  have s: "superseded_line db l \<longleftrightarrow> (\<exists>s \<in> set ?ls. pl_supersedes s = Some (pl_id l))"
    using l by (fastforce simp: superseded_line_def order_lines_def visible_def)
  obtain ks m where km: "?c = ks @ [m]" using lc by (cases ?c rule: rev_cases) auto
  show ?thesis
  proof (cases "l = m")
    case True
    have "pl_supersedes t \<noteq> Some (pl_id l)" if t: "t \<in> set ?ls" for t
    proof
      assume st: "pl_supersedes t = Some (pl_id l)"
      then have "t \<in> set ?c" using successor_number [OF g(1) t st l] t by (simp add: numbered_def)
      then obtain as bs where ab: "?c = as @ t # bs" by (auto simp: in_set_conv_decomp)
      then have "as \<noteq> []" using lk st by (cases as) auto
      then have "pl_id (last as) = pl_id l" "last as \<in> set as" using lk st ab by (auto simp: linked_append)
      then have "last as = l" using ids lc ab by (metis in_set_conv_decomp line_eq append_is_Nil_conv Un_iff set_append)
      moreover have "last ?c = last (t # bs)" by (simp add: ab)
      then have "l \<in> set (t # bs)" using True km by (metis last_in_set last_snoc list.discI)
      ultimately show False using ids ab \<open>last as \<in> set as\<close> by auto
    qed
    then show ?thesis using s True km by simp
  next
    case False
    then have "l \<in> set (butlast ?c)" using lc km by simp
    then show ?thesis using linked_followed [OF lk] s False km by (auto simp: numbered_def)
  qed
qed

text \<open>
  C28: \<open>list_lines\<close> never finds an inconsistent lineage, whatever orders, lines, edits and amendments
  came before.  It returns every line of the order, by line number and within a number in the order
  of recording; the lines of a number form one chain in which each supersedes the line before it,
  and exactly the last line of each chain is active.
\<close>

theorem order_lines_listed:
  assumes "procured db" "get_order x db po = Inr r"
  shows "list_lines x db po = Inr (sort_key pl_number (order_lines x db po))
     \<and> (\<forall>n. linked_from None (numbered n (order_lines x db po)))
     \<and> (\<forall>l \<in> set (order_lines x db po).
          superseded_line db l \<longleftrightarrow> l \<noteq> last (numbered (pl_number l) (order_lines x db po)))"
proof -
  have ok: "orders_ok db" using procured_ok [OF assms(1)] .
  have "linked_from None (numbered n (order_lines x db po))" for n
    by (rule chain_linked [OF grown_ok_order [OF ok] one_order_of])
  then show ?thesis using list_lines_sorted [OF ok assms(2)] superseded_iff [OF ok] by blast
qed

section \<open>Issued orders\<close>

definition lines_of :: "fleet \<Rightarrow> po_row \<Rightarrow> po_line_row list" where
  "lines_of db r = filter (\<lambda>l. pl_org l = po_org r \<and> pl_po l = po_id r) (purchase_order_lines db)"

lemma order_of_row:
  assumes "orders_ok db" "order_of x db l = Inr r'" "r \<in> set (purchase_orders db)" "pl_po l = po_id r"
  shows "r' = r"
proof -
  have "r' \<in> set (purchase_orders db)" "po_id r' = po_id r"
    using assms(2,4) by (auto simp: order_of_def from_option_Inr_iff dest!: find_Some_in)
  then show ?thesis using assms(1,3) by (auto simp: orders_ok_def distinct_map inj_on_def)
qed

lemma write_order_keeps_issued:
  assumes ok: "orders_ok db" and w: "write_order x i' f db = Inr (q, db')" and r: "r \<in> set (purchase_orders db)"
    and i: "po_status r \<noteq> DRAFT"
  shows "r \<in> set (purchase_orders db') \<and> lines_of db' r = lines_of db r"
proof -
  from write_order_Inr [OF w] consider "db' = db"
    | old new where "find_order x db i' = Some old" "po_status old = DRAFT"
        "db' = db\<lparr>purchase_orders := map (\<lambda>k. if po_id k = i' then new else k) (purchase_orders db)\<rparr>"
    by blast
  then show ?thesis
  proof cases
    case 1
    then show ?thesis using r by simp
  next
    case (2 old new)
    have "old \<in> set (purchase_orders db)" "po_id old = i'" using 2(1) by (auto simp: find_order_def dest!: find_Some_in)
    then have "po_id r \<noteq> i'" using ok r i 2(2) by (auto simp: orders_ok_def distinct_map inj_on_def)
    then show ?thesis using r by (simp add: lines_of_def 2(3) rev_image_eqI)
  qed
qed

lemma insert_line_keeps_issued:
  assumes ok: "orders_ok db" and n: "insert_line x new db = Inr (l, db')" and r: "r \<in> set (purchase_orders db)"
    and i: "po_status r \<noteq> DRAFT"
  shows "r \<in> set (purchase_orders db')
     \<and> (\<exists>new. lines_of db' r = lines_of db r @ new \<and> (\<forall>l \<in> set new. pl_supersedes l \<noteq> None))"
proof -
  note I = insert_line_Inr [OF n]
  have "pl_supersedes l \<noteq> None" if "pl_org l = po_org r \<and> pl_po l = po_id r"
  proof -
    obtain q where q: "order_of x db new = Inr q" "po_status q = (if pl_supersedes new = None then DRAFT else ISSUED)"
      using I(6) by blast
    have "pl_po new = po_id r" using that I(5) by (simp add: line_key_def)
    then have "q = r" by (rule order_of_row [OF ok q(1) r])
    then show ?thesis using q(2) i I(4) by (auto split: if_splits)
  qed
  then show ?thesis using r by (simp add: I(1) lines_of_def)
qed

lemma write_line_keeps_issued:
  assumes ok: "orders_ok db" and w: "write_line x po i' f db = Inr db'" and r: "r \<in> set (purchase_orders db)"
    and i: "po_status r \<noteq> DRAFT"
  shows "r \<in> set (purchase_orders db') \<and> lines_of db' r = lines_of db r"
proof -
  from write_line_Inr [OF w] consider "db' = db"
    | old new q where "old \<in> set (purchase_order_lines db)" "pl_id old = i'" "line_key new = line_key old"
        "order_of x db old = Inr q" "po_status q = DRAFT"
        "db' = db\<lparr>purchase_order_lines := map (\<lambda>l. if pl_id l = i' then new else l) (purchase_order_lines db)\<rparr>"
    by blast
  then show ?thesis
  proof cases
    case 1
    then show ?thesis using r by simp
  next
    case (2 old new q)
    have out: "pl_po old \<noteq> po_id r" using order_of_row [OF ok 2(4) r] i 2(5) by auto
    have ids: "distinct (map pl_id (purchase_order_lines db))" using ok line_ids by (simp add: orders_ok_def)
    have "pl_po k \<noteq> po_id r" if "k \<in> set (purchase_order_lines db)" "pl_id k = i'" for k
      using line_eq [OF ids that(1) 2(1)] that(2) 2(2) out by simp
    moreover have "pl_po new \<noteq> po_id r" using 2(3) out by (simp add: line_key_def)
    moreover have "filter P (map (\<lambda>l. if pl_id l = i' then new else l) ls) = filter P ls"
      if "\<not> P new" "\<forall>k \<in> set ls. pl_id k = i' \<longrightarrow> \<not> P k" for P ls
      using that by (induction ls) auto
    ultimately have "lines_of db' r = lines_of db r" by (simp add: lines_of_def 2(6))
    then show ?thesis using r by (simp add: 2(6))
  qed
qed

lemma step_keeps_issued:
  assumes ok: "orders_ok db" and s: "procurement_step db db'" and r: "r \<in> set (purchase_orders db)"
    and i: "po_status r \<noteq> DRAFT"
  shows "r \<in> set (purchase_orders db')
     \<and> (\<exists>new. lines_of db' r = lines_of db r @ new \<and> (\<forall>l \<in> set new. pl_supersedes l \<noteq> None))"
  using s
proof (cases rule: procurement_step.cases)
  case (order_inserted x new q)
  then show ?thesis using r insert_order_Inr [OF order_inserted] by (simp add: lines_of_def)
next
  case (order_written x i' f q)
  then show ?thesis using write_order_keeps_issued [OF ok order_written r i] by simp
next
  case (line_inserted x new l)
  then show ?thesis by (rule insert_line_keeps_issued [OF ok _ r i])
next
  case (line_written x po i' f)
  then show ?thesis using write_line_keeps_issued [OF ok line_written r i] by simp
next
  case other_tables
  then show ?thesis using r by (simp add: lines_of_def)
qed

lemma later_orders_ok: "procured_later db db' \<Longrightarrow> orders_ok db \<Longrightarrow> orders_ok db'"
  by (induction rule: procured_later.induct) (auto intro: step_keeps_orders)

text \<open>
  C29: issuance freezes an order.  From then on its row never changes, and its lines only grow by
  amendments: every line recorded before stands unchanged and in place, and every new line
  supersedes another.
\<close>

theorem issued_order_frozen:
  assumes "procured db" "procured_later db db'" "r \<in> set (purchase_orders db)" "po_status r \<noteq> DRAFT"
  shows "r \<in> set (purchase_orders db')
     \<and> (\<exists>new. lines_of db' r = lines_of db r @ new \<and> (\<forall>l \<in> set new. pl_supersedes l \<noteq> None))"
  using assms(2)
proof (induction rule: procured_later.induct)
  case same
  then show ?case using assms(3) by simp
next
  case (onward db' db'')
  have ok: "orders_ok db'" using later_orders_ok [OF onward(1) procured_ok [OF assms(1)]] .
  from onward(3) obtain new where n: "r \<in> set (purchase_orders db')" "lines_of db' r = lines_of db r @ new"
    "\<forall>l \<in> set new. pl_supersedes l \<noteq> None" by blast
  from step_keeps_issued [OF ok onward(2) n(1) assms(4)] obtain more where
    "r \<in> set (purchase_orders db'')" "lines_of db'' r = lines_of db' r @ more"
    "\<forall>l \<in> set more. pl_supersedes l \<noteq> None" by blast
  then show ?case using n by (intro conjI exI [of _ "new @ more"]) auto
qed

section \<open>Amendments\<close>

lemma get_order_Inr:
  "get_order x db po = Inr r \<Longrightarrow> r \<in> set (purchase_orders db) \<and> visible x (po_org r) \<and> po_id r = po"
  by (auto simp: get_order_def find_order_def from_option_Inr_iff dest!: find_Some_in)

lemma create_line_Inr:
  assumes "create_line x po new db = Inr (k, db')"
  obtains r n l where "get_order x db po = Inr r"
    "insert_line x (new\<lparr>pl_number := n, pl_org := po_org r, pl_po := po\<rparr>) db = Inr (l, db')"
    "get_line x db' po (pl_id new) = Inr k"
    "\<And>q. pl_supersedes new = Some q \<Longrightarrow> \<exists>prior. get_line x db po q = Inr (prior, True)"
proof -
  from assms obtain r n l where r: "get_order x db po = Inr r"
    and n: "(case pl_supersedes new of
               None \<Rightarrow> Inr (pl_number new)
             | Some q \<Rightarrow> rbind (get_line x db po q) (\<lambda>(prior, active).
                           ensure active ProcurementConflict (Inr (pl_number prior)))) = Inr n"
    and l: "insert_line x (new\<lparr>pl_number := n, pl_org := po_org r, pl_po := po\<rparr>) db = Inr (l, db')"
    and k: "get_line x db' po (pl_id new) = Inr k"
    unfolding create_line_def rbind_Inr_iff map_error_Inr_iff by (auto simp: rbind_Inr_iff)
  show ?thesis
  proof (rule that [OF r l k])
    show "\<exists>prior. get_line x db po q = Inr (prior, True)" if "pl_supersedes new = Some q" for q
      using n that by (auto simp: rbind_Inr_iff ensure_Inr_iff)
  qed
qed

lemma line_keys_stay:
  assumes "orders_ok db" "procurement_step db db'"
  shows "line_key ` set (purchase_order_lines db) \<subseteq> line_key ` set (purchase_order_lines db')"
  using assms(2)
proof (cases rule: procurement_step.cases)
  case (order_inserted x new r)
  then show ?thesis by (simp add: insert_order_Inr [OF order_inserted])
next
  case (order_written x i f r)
  then show ?thesis using write_order_Inr [OF order_written] by auto
next
  case (line_inserted x new l)
  then show ?thesis using insert_line_Inr(1) [OF line_inserted] by auto
next
  case (line_written x po i f)
  from write_line_Inr [OF line_written] consider "db' = db"
    | old new where "old \<in> set (purchase_order_lines db)" "pl_id old = i" "line_key new = line_key old"
        "db' = db\<lparr>purchase_order_lines := map (\<lambda>l. if pl_id l = i then new else l) (purchase_order_lines db)\<rparr>"
    by blast
  then show ?thesis
  proof cases
    case (2 old new)
    have "line_key (if pl_id k = i then new else k) = line_key k" if "k \<in> set (purchase_order_lines db)" for k
      using line_eq [OF line_ids that 2(1)] assms(1) 2(2,3) by (auto simp: orders_ok_def)
    then have "map (\<lambda>k. line_key (if pl_id k = i then new else k)) (purchase_order_lines db)
        = map line_key (purchase_order_lines db)" by (rule map_cong [OF refl])
    then have "set (map (\<lambda>k. line_key (if pl_id k = i then new else k)) (purchase_order_lines db))
        = line_key ` set (purchase_order_lines db)" by (simp only: set_map)
    then have "line_key ` set (purchase_order_lines db') = line_key ` set (purchase_order_lines db)"
      by (simp add: 2(4) image_image del: if_image_distrib)
    then show ?thesis by simp
  qed simp
next
  case other_tables
  then show ?thesis by simp
qed

lemma line_keys_later:
  assumes "procured_later db db'" "orders_ok db"
  shows "line_key ` set (purchase_order_lines db) \<subseteq> line_key ` set (purchase_order_lines db')"
  using assms
proof (induction rule: procured_later.induct)
  case (onward db' db'')
  then show ?case using line_keys_stay [OF later_orders_ok [OF onward(1)] onward(2)] by blast
qed simp

text \<open>
  An expectation is amended at most once.  After the service has recorded an amendment of a line,
  every further request to amend that line is refused, by whoever and however much later it is made.
\<close>

theorem amended_at_most_once:
  assumes "procured db" "create_line x po new db = Inr (k, db1)" "pl_supersedes new = Some q"
    and "procured_later db1 db2" "pl_supersedes again = Some q"
  shows "raised (create_line y po again db2)"
proof (rule ccontr)
  assume "\<not> raised (create_line y po again db2)"
  then obtain k' db3 where "create_line y po again db2 = Inr (k', db3)"
    by (cases "create_line y po again db2") auto
  then obtain prior where p: "get_line y db2 po q = Inr (prior, True)"
    by (rule create_line_Inr) (use assms(5) in auto)
  obtain r :: po_row and n l where c: "insert_line x (new\<lparr>pl_number := n, pl_org := po_org r, pl_po := po\<rparr>) db = Inr (l, db1)"
    by (rule create_line_Inr [OF assms(2)]) (blast intro: that)
  note I = insert_line_Inr [OF c]
  have ok1: "orders_ok db1"
    using step_keeps_orders [OF procured_ok [OF assms(1)] procurement_step.line_inserted [OF c]] .
  have "line_key l \<in> line_key ` set (purchase_order_lines db2)"
    using line_keys_later [OF assms(4) ok1] I(1) by auto
  then obtain s where s: "s \<in> set (purchase_order_lines db2)" "line_key s = line_key l" by auto
  have sq: "pl_supersedes s = Some q" "pl_po s = po" using s(2) I(5) assms(3) by (simp_all add: line_key_def)
  have ok2: "grown_ok (rev (purchase_order_lines db2))"
    using later_orders_ok [OF assms(4) ok1] by (simp add: orders_ok_def)
  obtain j where j: "j \<in> set (purchase_order_lines db2)" "same_lineage s j" "pl_id j = q"
    using predecessor_line [OF ok2 s(1) sq(1)] by blast
  have "prior \<in> set (purchase_order_lines db2)" "pl_id prior = q" "\<not> superseded_line db2 prior"
    using p by (auto simp: get_line_def from_option_Inr_iff dest!: find_Some_in)
  moreover from this(1,2) have "prior = j" using line_eq [OF line_ids [OF ok2] _ j(1)] j(3) by simp
  ultimately show False using s(1) sq j(2,3) by (auto simp: superseded_line_def same_lineage_def)
qed

section \<open>An example\<close>

definition pr_base :: fleet where
  "pr_base = auth_issued
     \<lparr>parties := [\<lparr>pa_id = 20, pa_org = 1, pa_name = [86], pa_created_by = 10\<rparr>],
      party_roles := [\<lparr>pr_id = 21, pr_org = 1, pr_party = 20, pr_role = VENDOR\<rparr>],
      items := [\<lparr>it_id = 30, it_org = 1, it_manufacturer = 20, it_mpn = [80], it_revision = None,
                 it_description = [68], it_uom = EA, it_serialized = False, it_classification = None,
                 it_controlled = False, it_active = True, it_created_by = 10, it_updated_by = 10\<rparr>]\<rparr>"

definition pr_order :: po_row where
  "pr_order = \<lparr>po_id = 50, po_org = 1, po_vendor = 20, po_number = [49], po_status = DRAFT,
     po_issued_at = None, po_issued_by = None, po_notes = None, po_created_by = 10, po_updated_by = 10,
     po_created_at = At 1000, po_updated_at = At 1000\<rparr>"

definition pr_line :: "uuid \<Rightarrow> rat \<Rightarrow> uuid option \<Rightarrow> po_line_row" where
  "pr_line i n q = \<lparr>pl_id = i, pl_org = 1, pl_po = 50, pl_number = 1, pl_item = 30, pl_quantity = Num n,
     pl_uom = EA, pl_price = Num 0, pl_expected = None, pl_supersedes = q, pl_created_by = 10,
     pl_updated_by = 10, pl_created_at = At 1000, pl_updated_at = At 1000\<rparr>"

definition pr_drafted :: fleet where
  "pr_drafted = pr_base\<lparr>purchase_orders := [pr_order], purchase_order_lines := [pr_line 51 5 None]\<rparr>"

definition pr_issued_order :: po_row where
  "pr_issued_order = pr_order\<lparr>po_status := ISSUED, po_issued_at := Some (At 1000), po_issued_by := Some 10\<rparr>"

definition pr_issued :: fleet where
  "pr_issued = pr_drafted\<lparr>purchase_orders := [pr_issued_order]\<rparr>"

definition pr_amended :: fleet where
  "pr_amended = pr_issued\<lparr>purchase_order_lines := [pr_line 51 5 None, pr_line 52 7 (Some 51)]\<rparr>"

lemmas pr_defs = pr_base_def pr_order_def pr_line_def pr_drafted_def pr_issued_order_def pr_issued_def pr_amended_def

lemma pr_create: "create_order auth_bearer pr_order pr_base = Inr (pr_order, pr_base\<lparr>purchase_orders := [pr_order]\<rparr>)"
  by code_simp

lemma pr_first: "create_line auth_bearer 50 (pr_line 51 5 None) (pr_base\<lparr>purchase_orders := [pr_order]\<rparr>)
    = Inr ((pr_line 51 5 None, True), pr_drafted)"
  by code_simp

lemma pr_issue: "issue_order auth_bearer 50 pr_drafted = Inr (pr_issued_order, pr_issued)"
  by code_simp

lemma pr_amend: "create_line auth_bearer 50 (pr_line 52 7 (Some 51)) pr_issued
    = Inr ((pr_line 52 7 (Some 51), True), pr_amended)"
  by code_simp

lemma create_line_step: "create_line x po new db = Inr (k, db') \<Longrightarrow> procurement_step db db'"
  by (erule create_line_Inr) (rule procurement_step.line_inserted)

lemma issue_order_step: "issue_order x i db = Inr (r, db') \<Longrightarrow> procurement_step db db'"
  by (auto simp: issue_order_def rbind_Inr_iff from_option_Inr_iff intro: procurement_step.order_written)

lemma pr_procured: "procured pr_base" "procured pr_drafted" "procured pr_issued" "procured pr_amended"
proof -
  show base: "procured pr_base"
    by (rule procured.no_orders) (simp_all add: pr_base_def auth_issued_def auth_db_def empty_fleet_def)
  have "procured (pr_base\<lparr>purchase_orders := [pr_order]\<rparr>)"
    using base pr_create by (auto simp: create_order_def intro: procured.procure procurement_step.order_inserted)
  then show drafted: "procured pr_drafted"
    using create_line_step [OF pr_first] by (rule procured.procure)
  show issued: "procured pr_issued"
    using drafted issue_order_step [OF pr_issue] by (rule procured.procure)
  show "procured pr_amended"
    using issued create_line_step [OF pr_amend] by (rule procured.procure)
qed

theorem order_lines_listed_witness:
  "list_lines auth_bearer pr_amended 50
     = Inr (sort_key pl_number [pr_line 51 5 None, pr_line 52 7 (Some 51)])"
proof -
  have "get_order auth_bearer pr_amended 50 = Inr pr_issued_order" by code_simp
  moreover have "order_lines auth_bearer pr_amended 50 = [pr_line 51 5 None, pr_line 52 7 (Some 51)]" by code_simp
  ultimately show ?thesis using order_lines_listed [OF pr_procured(4)] by metis
qed

theorem issued_order_frozen_witness:
  "procured_later pr_issued pr_amended \<and> pr_issued_order \<in> set (purchase_orders pr_amended)"
proof -
  have "procured_later pr_issued pr_amended"
    by (rule procured_later.onward [OF procured_later.same create_line_step [OF pr_amend]])
  moreover have "pr_issued_order \<in> set (purchase_orders pr_issued)" by (simp add: pr_issued_def)
  moreover have "po_status pr_issued_order \<noteq> DRAFT" by (simp add: pr_issued_order_def)
  ultimately show ?thesis using issued_order_frozen [OF pr_procured(3)] by blast
qed

theorem amended_at_most_once_witness:
  "raised (create_line auth_bearer 50 (pr_line 53 9 (Some 51)) pr_amended)"
  by (rule amended_at_most_once [OF pr_procured(3) pr_amend _ procured_later.same]) (simp_all add: pr_line_def)

end
