(* ===== verification/StatusLog.thy ===== *)
theory StatusLog
  imports AssetService
begin

text \<open>
  The status machine that receiving exceptions and sync conflicts share: a status is never stored as
  truth but read off an append-only log of numbered changes.  The locale states what appending one
  change means; both tables interpret it.
\<close>

section \<open>The workflow graph\<close>

definition WORKFLOW :: "workflow_status \<Rightarrow> workflow_status set" where
  "WORKFLOW s =
     (case s of
        OPEN \<Rightarrow> {ACKNOWLEDGED, RESOLVED, WAIVED}
      | ACKNOWLEDGED \<Rightarrow> {RESOLVED, WAIVED}
      | RESOLVED \<Rightarrow> {}
      | WAIVED \<Rightarrow> {})"

definition closed :: "workflow_status \<Rightarrow> bool" where
  "closed s \<longleftrightarrow> s \<in> {RESOLVED, WAIVED}"

lemma WORKFLOW_simps [simp]:
  "t \<in> WORKFLOW OPEN \<longleftrightarrow> t \<noteq> OPEN"
  "t \<in> WORKFLOW ACKNOWLEDGED \<longleftrightarrow> closed t"
  "WORKFLOW RESOLVED = {}" "WORKFLOW WAIVED = {}"
  by (cases t; simp add: WORKFLOW_def closed_def)+

lemma closed_final: "closed s \<longleftrightarrow> WORKFLOW s = {}"
  by (cases s) (auto simp: closed_def WORKFLOW_def)

text \<open>The constraint shared by the two event tables on the edge, the number and the note.\<close>

definition note_ok :: "pgtext \<Rightarrow> bool" where
  "note_ok n \<longleftrightarrow> length_between 1 4000 n \<and> n = normalize_correction_reason n \<and> has_nonspace n"

definition change_check :: "int \<Rightarrow> workflow_status \<Rightarrow> workflow_status \<Rightarrow> pgtext option \<Rightarrow> tstz \<Rightarrow> bool" where
  "change_check k s t note occurred \<longleftrightarrow>
     k > 0 \<and> t \<in> WORKFLOW s \<and> (t = ACKNOWLEDGED \<or> note \<noteq> None) \<and> holds_if note_ok note \<and> isfinite occurred"

section \<open>Logs of changes\<close>

type_synonym change = "int \<times> workflow_status \<times> workflow_status"

fun log_ok :: "int \<Rightarrow> workflow_status \<Rightarrow> change list \<Rightarrow> bool" where
  "log_ok n s [] = True"
| "log_ok n s ((k, f, t) # es) = (k = n + 1 \<and> f = s \<and> t \<in> WORKFLOW f \<and> log_ok k t es)"

definition status_of :: "change list \<Rightarrow> workflow_status" where
  "status_of es = (if es = [] then OPEN else snd (snd (last es)))"

lemma status_of_simps [simp]: "status_of [] = OPEN" "status_of (es @ [(k, f, t)]) = t"
  by (simp_all add: status_of_def)

lemma log_ok_numbers: "log_ok n s es \<Longrightarrow> map fst es = [n + 1..n + int (length es)]"
proof (induction n s es rule: log_ok.induct)
  case (2 n s k f t es)
  have k: "k = n + 1" "log_ok k t es" using "2.prems" by auto
  have "map fst es = [n + 2..n + 1 + int (length es)]" using "2.IH" [OF k(2)] k(1) by (simp add: algebra_simps)
  moreover have "[n + 1..n + int (length ((k, f, t) # es))] = (n + 1) # [n + 2..n + 1 + int (length es)]"
    by (subst upto_rec1) (auto simp: algebra_simps)
  ultimately show ?case using k(1) by simp
qed simp

lemma log_ok_append:
  "log_ok n s (es @ [(k, f, t)]) \<longleftrightarrow> log_ok n s es \<and> k = n + int (length es) + 1
     \<and> f = (if es = [] then s else snd (snd (last es))) \<and> t \<in> WORKFLOW f"
  by (induction n s es rule: log_ok.induct) auto

text \<open>The graph has no path of three edges.\<close>

lemma log_ok_short: "log_ok n s es \<Longrightarrow> length es \<le> (if s = OPEN then 2 else if s = ACKNOWLEDGED then 1 else 0)"
proof (induction n s es rule: log_ok.induct)
  case (2 n s k f t es)
  then show ?case by (cases s; cases t) (auto simp: closed_def)
qed simp

lemma log_ok_closed: "log_ok 0 OPEN es \<Longrightarrow> closed (status_of es) \<Longrightarrow> \<not> log_ok 0 OPEN (es @ [e])"
  by (cases e) (auto simp: log_ok_append status_of_def closed_final)

text \<open>Reading the latest change by its number is reading the last one.\<close>

lemma latest_of_log:
  assumes "log_ok n s (map (\<lambda>e. (num e, source e, target e)) es)"
  shows "latest_by num es = (if es = [] then None else Some (last es))"
proof (cases es rule: rev_cases)
  case (snoc ys y)
  have "map num es = [n + 1..n + int (length es)]"
    using log_ok_numbers [OF assms] by (simp add: comp_def)
  then have "sorted_wrt (<) (map num es)" using sorted_wrt_upto by metis
  then have "sorted_wrt (\<lambda>a b. num a < num b) es" by (simp add: sorted_wrt_map)
  then show ?thesis using snoc by (simp add: latest_by_sorted)
qed simp

lemma log_ok_nth:
  "log_ok n s es \<Longrightarrow> k < length es \<Longrightarrow>
     fst (es ! k) = n + int k + 1 \<and> fst (snd (es ! k)) = (if k = 0 then s else snd (snd (es ! (k - 1))))
     \<and> snd (snd (es ! k)) \<in> WORKFLOW (fst (snd (es ! k)))"
proof (induction n s es arbitrary: k rule: log_ok.induct)
  case (2 n s j f t es)
  then show ?case by (cases k) (auto simp: nth_Cons')
qed simp

lemma sort_log:
  assumes "log_ok n s (map (\<lambda>e. (num e, source e, target e)) es)"
  shows "sort_key num es = es"
proof -
  have "map num es = [n + 1..n + int (length es)]" using log_ok_numbers [OF assms] by (simp add: comp_def)
  then have "sorted (map num es)" using sorted_upto by metis
  then show ?thesis by (rule sort_key_id_if_sorted)
qed

lemma find_of_filter: "List.find P (filter Q xs) = List.find (\<lambda>x. Q x \<and> P x) xs"
  by (induction xs) auto

text \<open>A change continues the one numbered before it, which can be looked up by that number.\<close>

lemma log_ok_prior:
  assumes ok: "log_ok 0 OPEN (map (\<lambda>e. (num e, source e, target e)) es)" and e: "e \<in> set es"
  shows "source e = (case List.find (\<lambda>p. num p = num e - 1) es of None \<Rightarrow> OPEN | Some p \<Rightarrow> target p)"
    "num e > 1 \<Longrightarrow> List.find (\<lambda>p. num p = num e - 1) es \<noteq> None" "target e \<in> WORKFLOW (source e)"
proof -
  obtain k where k: "k < length es" "e = es ! k" using e by (auto simp: in_set_conv_nth)
  have n: "num (es ! j) = int j + 1" "source (es ! j) = (if j = 0 then OPEN else target (es ! (j - 1)))"
    "target (es ! j) \<in> WORKFLOW (source (es ! j))" if "j < length es" for j
    using log_ok_nth [OF ok, of j] that by (auto simp: less_imp_diff_less split: if_splits)
  have nums: "map num es = [1..int (length es)]" using log_ok_numbers [OF ok] by (simp add: comp_def)
  show "target e \<in> WORKFLOW (source e)" using n(3) [OF k(1)] k by blast
  have "source e = (case List.find (\<lambda>p. num p = num e - 1) es of None \<Rightarrow> OPEN | Some p \<Rightarrow> target p)
      \<and> (num e > 1 \<longrightarrow> List.find (\<lambda>p. num p = num e - 1) es \<noteq> None)"
  proof (cases k)
    case 0
    have "\<forall>p \<in> set es. num p \<ge> 1"
      using nums by (metis atLeastAtMost_iff image_eqI set_map set_upto)
    then have "List.find (\<lambda>p. num p = num e - 1) es = None" using n(1) [OF k(1)] k 0 by (fastforce simp: find_None_iff)
    then show ?thesis using n(1,2) [OF k(1)] k 0 by simp
  next
    case (Suc j)
    have p: "num (es ! j) = num e - 1" "source e = target (es ! j)" using n(1,2) [OF k(1)] n(1) [of j] k Suc by auto
    have "List.find (\<lambda>p. num p = num (es ! j)) es = Some (es ! j)"
      by (rule find_unique) (use nums k Suc in auto)
    then show ?thesis using p by simp
  qed
  then show "source e = (case List.find (\<lambda>p. num p = num e - 1) es of None \<Rightarrow> OPEN | Some p \<Rightarrow> target p)"
    "num e > 1 \<Longrightarrow> List.find (\<lambda>p. num p = num e - 1) es \<noteq> None" by blast+
qed

section \<open>The contract of a status machine\<close>

text \<open>
  A machine keeps one log per key.  A change of a key extends its log by the next number and an edge
  of the graph from the present status, and leaves the other logs alone.
\<close>

locale status_machine =
  fixes log :: "'db \<Rightarrow> 'k \<Rightarrow> change list"
    and moves :: "'k \<Rightarrow> 'db \<Rightarrow> 'db \<Rightarrow> bool"
  assumes move_appends: "moves k db db' \<Longrightarrow> \<forall>j. log_ok 0 OPEN (log db j) \<Longrightarrow>
      \<exists>t. t \<in> WORKFLOW (status_of (log db k))
        \<and> log db' k = log db k @ [(int (length (log db k)) + 1, status_of (log db k), t)]"
    and move_elsewhere: "moves k db db' \<Longrightarrow> j \<noteq> k \<Longrightarrow> log db' j = log db j"
begin

lemma move_keeps_logs:
  assumes "moves k db db'" "\<forall>j. log_ok 0 OPEN (log db j)"
  shows "log_ok 0 OPEN (log db' j)"
proof (cases "j = k")
  case True
  obtain t where "t \<in> WORKFLOW (status_of (log db k))"
    "log db' k = log db k @ [(int (length (log db k)) + 1, status_of (log db k), t)]"
    using move_appends [OF assms] by blast
  then show ?thesis using assms(2) True by (simp add: log_ok_append) (simp add: status_of_def)
next
  case False
  then show ?thesis using move_elsewhere [OF assms(1)] assms(2) by simp
qed

lemma closed_stays:
  assumes "\<forall>j. log_ok 0 OPEN (log db j)" "closed (status_of (log db k))"
  shows "\<not> moves k db db'"
  using move_appends assms closed_final by fastforce

lemma move_advances:
  assumes "moves k db db'" "\<forall>j. log_ok 0 OPEN (log db j)"
  shows "status_of (log db' k) \<in> WORKFLOW (status_of (log db k))"
  using move_appends [OF assms] by auto

end

end
