(* ===== verification/SyncConflicts.thy ===== *)
theory SyncConflicts
  imports StatusLog
begin

text \<open>
  Sync conflicts (\<open>capture/conflicts.py\<close> and the guards of \<open>0014_capture.py\<close>): the observation that
  a captured operation named a version the Asset had left, the facts of both versions, and the
  append-only status of the observation.
\<close>

section \<open>Facts at a version\<close>

text \<open>\<open>capture_asset_facts\<close>: the newest raw entry of each class at or before the version.\<close>

definition latest_at :: "uuid \<Rightarrow> uuid \<Rightarrow> int \<Rightarrow> 'f hrow list \<Rightarrow> 'f hrow option" where
  "latest_at org i v rows = latest_by h_version (filter (\<lambda>h. of_asset org i h \<and> h_version h \<le> v) rows)"

definition ref_at :: "(initial_row \<Rightarrow> ref_fact) \<Rightarrow> fleet \<Rightarrow> uuid \<Rightarrow> uuid \<Rightarrow> int \<Rightarrow> ref_fact hrow list \<Rightarrow> ref_fact" where
  "ref_at field db org i v rows =
     (case latest_at org i v rows of
        Some h \<Rightarrow> h_to h
      | None \<Rightarrow> (case initial_facts db org i of Some b \<Rightarrow> field b | None \<Rightarrow> None))"

definition owner_at :: "fleet \<Rightarrow> uuid \<Rightarrow> uuid \<Rightarrow> int \<Rightarrow> ref_fact" where
  "owner_at db org i v =
     (case latest_at org i v (asset_ownership_changes db) of
        Some h \<Rightarrow> (case h_to h of
                     Some p \<Rightarrow> Some p
                   | None \<Rightarrow> (case initial_facts db org i of Some b \<Rightarrow> b_owner b | None \<Rightarrow> None))
      | None \<Rightarrow> (case initial_facts db org i of Some b \<Rightarrow> b_owner b | None \<Rightarrow> None))"

definition capture_asset_facts :: "ctx \<Rightarrow> fleet \<Rightarrow> uuid \<Rightarrow> int \<Rightarrow> capture_facts option" where
  "capture_asset_facts x db i v =
     (case x_org x of
        None \<Rightarrow> None
      | Some org \<Rightarrow>
          (case find_asset db org i of
             None \<Rightarrow> None
           | Some a \<Rightarrow>
               if v > as_version a then Some (Unknown_version v)
               else Some (Known_version v
                 (case latest_at org i v (asset_transitions db) of Some h \<Rightarrow> h_to h | None \<Rightarrow> None)
                 (ref_at b_location db org i v (asset_movements db))
                 (ref_at b_custodian db org i v (asset_custody_changes db))
                 (owner_at db org i v)
                 (case latest_at org i v (asset_assignment_events db) of
                    Some h \<Rightarrow> snd (h_to h) | None \<Rightarrow> None))))"

section \<open>Recording a conflict\<close>

definition guard_sync_conflict :: "ctx \<Rightarrow> fleet \<Rightarrow> conflict_row \<Rightarrow> sqlstate + conflict_row" where
  "guard_sync_conflict x db new =
     rbind (current_authenticated_actor x db) (\<lambda>performer.
       let c = new\<lparr>sc_actor := performer, sc_recorded := At (x_now x)\<rparr> in
       (case List.find (\<lambda>a. visible x (as_org a) \<and> as_org a = sc_org c \<and> as_id a = sc_asset c) (assets db) of
          None \<Rightarrow> Inl E23514
        | Some a \<Rightarrow>
            ensure (as_version a = sc_current_version c \<and> as_version a \<noteq> sc_expected_version c) E23514
              (ensure (Some (sc_expected c) = capture_asset_facts x db (sc_asset c) (sc_expected_version c)
                       \<and> Some (sc_current c) = capture_asset_facts x db (sc_asset c) (as_version a)) E23514
                (Inr c))))"

definition conflict_check :: "conflict_row \<Rightarrow> bool" where
  "conflict_check c \<longleftrightarrow> sc_expected_version c > 0 \<and> sc_current_version c > 0
     \<and> sc_expected_version c \<noteq> sc_current_version c \<and> isfinite (sc_occurred c) \<and> isfinite (sc_recorded c)"

definition insert_conflict :: "ctx \<Rightarrow> conflict_row \<Rightarrow> fleet \<Rightarrow> sqlstate + (conflict_row \<times> fleet)" where
  "insert_conflict x new db =
     rbind (guard_sync_conflict x db new) (\<lambda>c.
       ensure (visible x (sc_org c)) E42501
         (ensure (conflict_check c) E23514
           (ensure (\<forall>d \<in> set (sync_conflicts db). sc_id d \<noteq> sc_id c \<and> sc_operation d \<noteq> sc_operation c) E23505
             (ensure (sc_org c \<in> set (organizations db) \<and> asset_exists db (sc_org c) (sc_asset c)
                      \<and> actor_exists db (sc_org c) (sc_actor c)) E23503
               (Inr (c, db\<lparr>sync_conflicts := sync_conflicts db @ [c]\<rparr>))))))"

text \<open>\<open>guard_sync_conflict_origin\<close>, deferred to the commit together with the operation's key.\<close>

definition conflict_origin_ok :: "fleet \<Rightarrow> conflict_row \<Rightarrow> bool" where
  "conflict_origin_ok db c \<longleftrightarrow>
     (\<exists>p \<in> set (capture_operations db). co_org p = sc_org c \<and> co_operation p = sc_operation c
        \<and> co_state p = REJECTED \<and> co_actor p = sc_actor c \<and> co_claimed p = sc_actor c
        \<and> co_entity p = lit ''ASSET'' \<and> co_entity_id p = sc_asset c
        \<and> co_expected p = Some (sc_expected_version c)
        \<and> co_kind p \<in> {MOVE, ASSIGN, UNASSIGN, TRANSITION} \<and> co_occurred p = sc_occurred c
        \<and> co_result p = Conflict_result (sc_id c) (sc_expected c) (sc_current c))"

section \<open>Status changes\<close>

definition conflict_events :: "fleet \<Rightarrow> uuid \<Rightarrow> uuid \<Rightarrow> conflict_event list" where
  "conflict_events db org i = filter (\<lambda>e. sv_org e = org \<and> sv_exception e = i) (sync_conflict_events db)"

definition insert_conflict_event :: "ctx \<Rightarrow> conflict_event \<Rightarrow> fleet \<Rightarrow> sqlstate + (conflict_event \<times> fleet)" where
  "insert_conflict_event x new db =
     rbind (current_authenticated_actor x db) (\<lambda>performer.
       ensure (\<exists>c \<in> set (sync_conflicts db). visible x (sc_org c) \<and> sc_org c = sv_org new \<and> sc_id c = sv_exception new)
         EP0002
         (let prior = latest_by sv_seq (filter (\<lambda>e. visible x (sv_org e)) (conflict_events db (sv_org new) (sv_exception new)));
              e = new\<lparr>sv_actor := performer, sv_recorded := At (x_now x),
                      sv_note := map_option normalize_correction_reason (sv_note new)\<rparr> in
          ensure (sv_from new = (case prior of None \<Rightarrow> OPEN | Some p \<Rightarrow> sv_to p)
                  \<and> sv_seq new = (case prior of None \<Rightarrow> 0 | Some p \<Rightarrow> sv_seq p) + 1) E40001
            (ensure (visible x (sv_org e)) E42501
              (ensure (change_check (sv_seq e) (sv_from e) (sv_to e) (sv_note e) (sv_occurred e)
                       \<and> isfinite (sv_recorded e)) E23514
                (ensure (\<forall>d \<in> set (sync_conflict_events db). sv_id d \<noteq> sv_id e
                           \<and> \<not> (sv_org d = sv_org e \<and> sv_exception d = sv_exception e \<and> sv_seq d = sv_seq e)) E23505
                  (ensure (sv_org e \<in> set (organizations db) \<and> actor_exists db (sv_org e) (sv_actor e)) E23503
                    (Inr (e, db\<lparr>sync_conflict_events := sync_conflict_events db @ [e]\<rparr>))))))))"

section \<open>The service\<close>

record conflict_view =
  cv_row :: conflict_row
  cv_status :: workflow_status
  cv_seq :: int
  cv_resolved_by :: "uuid option"
  cv_resolved_at :: "tstz option"
  cv_note :: "pgtext option"
  cv_events :: "conflict_event list"

definition view_conflict :: "conflict_row \<Rightarrow> conflict_event list \<Rightarrow> conflict_view" where
  "view_conflict c es =
     (let latest = (if es = [] then None else Some (last es));
          terminal = (case latest of Some e \<Rightarrow> if closed (sv_to e) then Some e else None | None \<Rightarrow> None)
      in \<lparr>cv_row = c,
          cv_status = (case latest of Some e \<Rightarrow> sv_to e | None \<Rightarrow> OPEN),
          cv_seq = (case latest of Some e \<Rightarrow> sv_seq e | None \<Rightarrow> 0),
          cv_resolved_by = map_option sv_actor terminal,
          cv_resolved_at = map_option sv_occurred terminal,
          cv_note = (case terminal of Some e \<Rightarrow> sv_note e | None \<Rightarrow> None),
          cv_events = es\<rparr>)"

definition get_conflict :: "ctx \<Rightarrow> fleet \<Rightarrow> uuid \<Rightarrow> py_error + conflict_view" where
  "get_conflict x db i =
     rbind (from_option NotFound (List.find (\<lambda>c. visible x (sc_org c) \<and> sc_id c = i) (sync_conflicts db))) (\<lambda>c.
       Inr (view_conflict c
         (sort_key sv_seq (filter (\<lambda>e. visible x (sv_org e) \<and> sv_exception e = i) (sync_conflict_events db)))))"

definition conflict_transition ::
  "ctx \<Rightarrow> uuid \<Rightarrow> workflow_status \<Rightarrow> workflow_status \<Rightarrow> pgtext option \<Rightarrow> tstz \<Rightarrow> uuid \<Rightarrow> fleet
   \<Rightarrow> py_error + (conflict_event \<times> fleet)" where
  "conflict_transition x i expected target note occurred eid db =
     rbind (get_conflict x db i) (\<lambda>v.
       constraints (insert_conflict_event x
         \<lparr>sv_id = eid, sv_org = sc_org (cv_row v), sv_exception = i, sv_seq = cv_seq v + 1, sv_from = expected,
          sv_to = target, sv_note = note, sv_actor = 0, sv_occurred = occurred, sv_recorded = At (x_now x)\<rparr> db))"

text \<open>The filters of a listing; an Asset context names a conflict, the others a receiving record.\<close>

datatype context_kind = Receiving_context exception_entity | Asset_context

record filters =
  fi_receipt :: "uuid option"
  fi_line :: "uuid option"
  fi_po_line :: "uuid option"
  fi_asset :: "uuid option"
  fi_entity :: "context_kind option"
  fi_entity_id :: "uuid option"

definition list_open_conflicts :: "ctx \<Rightarrow> fleet \<Rightarrow> filters \<Rightarrow> py_error + conflict_view list" where
  "list_open_conflicts x db f =
     (if fi_receipt f \<noteq> None \<or> fi_line f \<noteq> None \<or> fi_po_line f \<noteq> None
         \<or> fi_entity f \<notin> {None, Some Asset_context} then Inr []
      else rbind (map_result (get_conflict x db)
             (sort (map sc_id (filter (\<lambda>c. visible x (sc_org c) \<and> holds_if ((=) (sc_asset c)) (fi_asset f)
                \<and> holds_if ((=) (sc_asset c)) (fi_entity_id f)) (sync_conflicts db))))) (\<lambda>vs.
             Inr (filter (\<lambda>v. cv_status v \<in> {OPEN, ACKNOWLEDGED}) vs)))"

end
