(* ===== verification/ExceptionWorkflow.thy ===== *)
theory ExceptionWorkflow
  imports SyncConflicts
begin

text \<open>
  The workflow of receiving exceptions (\<open>WORKFLOW_SQL\<close> of \<open>correction_records_0011.py\<close>, the service
  \<open>domain/exception_workflow.py\<close>): a projection opened with every exception, moved only together with
  an appended event, and the anomaly view that compares the two.
\<close>

section \<open>Opening\<close>

text \<open>The primary context of an exception: its line when it has one, otherwise its receipt.\<close>

definition context_kind_of :: "exception_row \<Rightarrow> exception_entity" where
  "context_kind_of o' = (if xc_line o' = None then ON_RECEIPT else ON_RECEIPT_LINE)"

definition context_id_of :: "exception_row \<Rightarrow> uuid" where
  "context_id_of o' = (case xc_line o' of None \<Rightarrow> xc_receipt o' | Some l \<Rightarrow> l)"

definition opened_workflow :: "exception_row \<Rightarrow> workflow_row" where
  "opened_workflow o' =
     \<lparr>wf_exception = xc_id o', wf_org = xc_org o', wf_type = xc_type o', wf_severity = UNSPECIFIED,
      wf_entity = context_kind_of o', wf_entity_id = context_id_of o', wf_status = OPEN, wf_seq = 0,
      wf_resolved_by = None, wf_resolved_at = None, wf_note = None\<rparr>"

definition exception_exists :: "fleet \<Rightarrow> uuid \<Rightarrow> uuid \<Rightarrow> bool" where
  "exception_exists db org i \<longleftrightarrow> (\<exists>o' \<in> set (receiving_exceptions db). xc_org o' = org \<and> xc_id o' = i)"

text \<open>\<open>initialize_exception_workflow\<close>, the \<open>AFTER INSERT\<close> trigger of \<open>receiving_exceptions\<close>.\<close>

definition initialize_exception_workflow :: "ctx \<Rightarrow> exception_row \<Rightarrow> fleet \<Rightarrow> sqlstate + fleet" where
  "initialize_exception_workflow x o' db =
     ensure (x_org x = Some (xc_org o')) E42501
       (rbind (current_authenticated_actor x db) (\<lambda>_.
         ensure (\<forall>w \<in> set (exception_workflows db). wf_exception w \<noteq> xc_id o') E23505
           (ensure (xc_org o' \<in> set (organizations db) \<and> exception_exists db (xc_org o') (xc_id o')) E23503
             (Inr (db\<lparr>exception_workflows := exception_workflows db @ [opened_workflow o']\<rparr>)))))"

section \<open>Projection and history\<close>

definition exception_log :: "fleet \<Rightarrow> uuid \<Rightarrow> uuid \<Rightarrow> workflow_event list" where
  "exception_log db org i = filter (\<lambda>e. ev_org e = org \<and> ev_exception e = i) (exception_events db)"

definition latest_exception_event :: "fleet \<Rightarrow> uuid \<Rightarrow> uuid \<Rightarrow> workflow_event option" where
  "latest_exception_event db org i = latest_by ev_seq (exception_log db org i)"

definition status_after :: "workflow_event option \<Rightarrow> workflow_status" where
  "status_after e = (case e of None \<Rightarrow> OPEN | Some e \<Rightarrow> ev_to e)"

definition number_after :: "workflow_event option \<Rightarrow> int" where
  "number_after e = (case e of None \<Rightarrow> 0 | Some e \<Rightarrow> ev_seq e)"

text \<open>\<open>CASE WHEN to_status IN ('RESOLVED','WAIVED') THEN \<dots> END\<close>.\<close>

definition when_closed :: "(workflow_event \<Rightarrow> 'a option) \<Rightarrow> workflow_event option \<Rightarrow> 'a option" where
  "when_closed field e = (case e of Some e \<Rightarrow> if closed (ev_to e) then field e else None | None \<Rightarrow> None)"

definition find_workflow :: "fleet \<Rightarrow> uuid \<Rightarrow> uuid \<Rightarrow> workflow_row option" where
  "find_workflow db org i =
     List.find (\<lambda>w. wf_org w = org \<and> wf_exception w = i) (exception_workflows db)"

definition shows_event :: "workflow_event option \<Rightarrow> workflow_row \<Rightarrow> bool" where
  "shows_event e w \<longleftrightarrow> wf_status w = status_after e \<and> wf_seq w = number_after e
     \<and> wf_resolved_by w = when_closed (\<lambda>e. Some (ev_actor e)) e
     \<and> wf_resolved_at w = when_closed (\<lambda>e. Some (ev_occurred e)) e
     \<and> wf_note w = when_closed ev_note e"

definition workflow_agrees :: "fleet \<Rightarrow> exception_row \<Rightarrow> workflow_row \<Rightarrow> bool" where
  "workflow_agrees db o' w \<longleftrightarrow> wf_type w = xc_type o' \<and> wf_severity w = UNSPECIFIED
     \<and> wf_entity w = context_kind_of o' \<and> wf_entity_id w = context_id_of o'
     \<and> shows_event (latest_exception_event db (xc_org o') (xc_id o')) w
     \<and> wf_seq w = int (length (exception_log db (xc_org o') (xc_id o')))"

definition prior_change :: "fleet \<Rightarrow> workflow_event \<Rightarrow> workflow_event option" where
  "prior_change db e =
     List.find (\<lambda>p. ev_org p = ev_org e \<and> ev_exception p = ev_exception e \<and> ev_seq p = ev_seq e - 1)
       (exception_events db)"

definition event_malformed :: "fleet \<Rightarrow> workflow_event \<Rightarrow> bool" where
  "event_malformed db e \<longleftrightarrow> ev_from e \<noteq> status_after (prior_change db e)
     \<or> (ev_seq e > 1 \<and> prior_change db e = None) \<or> ev_to e \<notin> WORKFLOW (ev_from e)"

definition exception_workflow_anomalies :: "fleet \<Rightarrow> (uuid \<times> uuid) list" where
  "exception_workflow_anomalies db =
     map (\<lambda>o'. (xc_org o', xc_id o'))
       (filter (\<lambda>o'. case find_workflow db (xc_org o') (xc_id o') of
                       None \<Rightarrow> True | Some w \<Rightarrow> \<not> workflow_agrees db o' w) (receiving_exceptions db))
     @ map (\<lambda>e. (ev_org e, ev_exception e)) (filter (event_malformed db) (exception_events db))"

section \<open>Transitions\<close>

text \<open>A transition derived from a correction names an evaluation of the same transaction.\<close>

definition derived_from :: "ctx \<Rightarrow> fleet \<Rightarrow> uuid \<Rightarrow> uuid \<Rightarrow> uuid \<Rightarrow> workflow_row \<Rightarrow> workflow_status \<Rightarrow> tstz \<Rightarrow> uuid \<Rightarrow> bool" where
  "derived_from x db org performer i w target occurred ev \<longleftrightarrow>
     (\<exists>v \<in> set (receipt_correction_evaluations db). ve_org v = org \<and> ve_id v = ev \<and> ve_actor v = performer
        \<and> ve_occurred v = occurred \<and> ve_txn v = x_txn x)
     \<and> target = RESOLVED
     \<and> (\<exists>q \<in> set (receipt_evaluation_exceptions db). cq_org q = org \<and> cq_evaluation q = ev
          \<and> cq_exception q = i \<and> \<not> cq_supported q \<and> cq_prior_seq q = wf_seq w)"

definition insert_exception_event :: "ctx \<Rightarrow> workflow_event \<Rightarrow> fleet \<Rightarrow> sqlstate + fleet" where
  "insert_exception_event x e db =
     ensure (change_check (ev_seq e) (ev_from e) (ev_to e) (ev_note e) (ev_occurred e)) E23514
       (ensure (\<forall>d \<in> set (exception_events db). ev_id d \<noteq> ev_id e
                  \<and> \<not> (ev_org d = ev_org e \<and> ev_exception d = ev_exception e \<and> ev_seq d = ev_seq e)) E23505
         (ensure (ev_org e \<in> set (organizations db) \<and> exception_exists db (ev_org e) (ev_exception e)
                  \<and> holds_if (\<lambda>v. \<exists>r \<in> set (receipt_correction_evaluations db). ve_org r = ev_org e \<and> ve_id r = v)
                      (ev_evaluation e)
                  \<and> actor_exists db (ev_org e) (ev_actor e)) E23503
           (rbind (enforce_authenticated_creator x db (ev_actor e) None) (\<lambda>_.
             Inr (db\<lparr>exception_events := exception_events db @ [e]\<rparr>)))))"

definition project_event :: "workflow_event \<Rightarrow> workflow_row \<Rightarrow> workflow_row" where
  "project_event e w =
     w\<lparr>wf_status := ev_to e, wf_seq := ev_seq e,
       wf_resolved_by := when_closed (\<lambda>e. Some (ev_actor e)) (Some e),
       wf_resolved_at := when_closed (\<lambda>e. Some (ev_occurred e)) (Some e),
       wf_note := when_closed ev_note (Some e)\<rparr>"

definition transition_exception ::
  "ctx \<Rightarrow> uuid \<Rightarrow> workflow_status \<Rightarrow> workflow_status \<Rightarrow> pgtext option \<Rightarrow> tstz \<Rightarrow> uuid \<Rightarrow> uuid option \<Rightarrow> fleet
   \<Rightarrow> sqlstate + (workflow_event \<times> fleet)" where
  "transition_exception x i expected target note occurred eid evaluation db =
     (case x_org x of
        None \<Rightarrow> Inl E42501
      | Some org \<Rightarrow>
          ensure (x_actor_hint x = None) E42501
            (rbind (current_authenticated_actor x db) (\<lambda>performer.
             rbind (from_option EP0002 (find_workflow db org i)) (\<lambda>w.
             ensure ((org, i) \<notin> set (exception_workflow_anomalies db)) EP0001
               (let latest = latest_exception_event db org i;
                    e = \<lparr>ev_id = eid, ev_org = org, ev_exception = i, ev_seq = number_after latest + 1,
                         ev_from = status_after latest, ev_to = target,
                         ev_note = map_option normalize_correction_reason note, ev_evaluation = evaluation,
                         ev_actor = performer, ev_occurred = occurred\<rparr> in
                ensure (expected = status_after latest) E40001
                  (ensure (holds_if (derived_from x db org performer i w target occurred) evaluation) E23514
                    (rbind (insert_exception_event x e db) (\<lambda>db'.
                      Inr (e, db'\<lparr>exception_workflows :=
                        map (\<lambda>w. if wf_org w = org \<and> wf_exception w = i then project_event e w else w)
                          (exception_workflows db')\<rparr>))))))))) "

section \<open>The service\<close>

definition service_transition_exception ::
  "ctx \<Rightarrow> uuid \<Rightarrow> workflow_status \<Rightarrow> workflow_status \<Rightarrow> pgtext option \<Rightarrow> tstz \<Rightarrow> uuid \<Rightarrow> fleet
   \<Rightarrow> py_error + ((workflow_event + conflict_event) \<times> fleet)" where
  "service_transition_exception x i expected target note occurred eid db =
     ensure (target \<in> WORKFLOW expected) Invalid
       (if \<exists>c \<in> set (sync_conflicts db). visible x (sc_org c) \<and> sc_id c = i
        then rbind (conflict_transition x i expected target note occurred eid db) (\<lambda>(e, db'). Inr (Inr e, db'))
        else rbind (constraints (transition_exception x i expected target note occurred eid None db))
               (\<lambda>(e, db'). Inr (Inl e, db')))"

datatype exception_view =
    Observation exception_row workflow_row "workflow_event list" | Sync_conflict conflict_view

definition get_exception :: "ctx \<Rightarrow> fleet \<Rightarrow> uuid \<Rightarrow> py_error + exception_view" where
  "get_exception x db i =
     (case List.find (\<lambda>o'. visible x (xc_org o') \<and> xc_id o' = i
                       \<and> (\<exists>w \<in> set (exception_workflows db). visible x (wf_org w) \<and> wf_exception w = xc_id o'))
             (receiving_exceptions db) of
        None \<Rightarrow> rbind (get_conflict x db i) (\<lambda>v. Inr (Sync_conflict v))
      | Some o' \<Rightarrow>
          rbind (from_option NotFound
                   (List.find (\<lambda>w. visible x (wf_org w) \<and> wf_exception w = i) (exception_workflows db))) (\<lambda>w.
            Inr (Observation o' w
              (sort_key ev_seq (filter (\<lambda>e. visible x (ev_org e) \<and> ev_exception e = i) (exception_events db))))))"

definition open_exception :: "ctx \<Rightarrow> fleet \<Rightarrow> filters \<Rightarrow> exception_row \<Rightarrow> bool" where
  "open_exception x db f o' \<longleftrightarrow> visible x (xc_org o')
     \<and> (\<exists>w \<in> set (exception_workflows db). visible x (wf_org w) \<and> wf_exception w = xc_id o'
          \<and> wf_status w \<in> {OPEN, ACKNOWLEDGED}
          \<and> holds_if (\<lambda>k. k = Receiving_context (wf_entity w)) (fi_entity f)
          \<and> holds_if ((=) (wf_entity_id w)) (fi_entity_id f))
     \<and> holds_if ((=) (xc_receipt o')) (fi_receipt f)
     \<and> holds_if (\<lambda>l. xc_line o' = Some l) (fi_line f)
     \<and> holds_if (\<lambda>l. xc_po_line o' = Some l) (fi_po_line f)
     \<and> holds_if (\<lambda>a. xc_asset o' = Some a \<or> xc_conflicting o' = Some a) (fi_asset f)"

definition list_open :: "ctx \<Rightarrow> fleet \<Rightarrow> filters \<Rightarrow> py_error + exception_view list" where
  "list_open x db f =
     ensure ((fi_entity f = None) = (fi_entity_id f = None)) Invalid
       (ensure (\<not> (fi_entity f = Some Asset_context
            \<and> ((\<exists>r \<in> set (receipts db). visible x (rc_org r) \<and> Some (rc_id r) = fi_entity_id f)
               \<or> (\<exists>l \<in> set (receipt_lines db). visible x (rl_org l) \<and> Some (rl_id l) = fi_entity_id f)))) Invalid
         (rbind (list_open_conflicts x db f) (\<lambda>sync.
           rbind (map_result (get_exception x db)
                   (sort (map xc_id (filter (open_exception x db f) (receiving_exceptions db))))) (\<lambda>own.
             Inr (map Sync_conflict sync @ own)))))"

end
