(* ===== verification/RecordViews.thy ===== *)
theory RecordViews
  imports Procurement ExceptionWorkflow
begin

text \<open>
  The views over corrections of procurement and receipt lines (\<open>correction_records_0011.py\<close>,
  \<open>correction_evaluation_0011.py\<close>): effective rows, malformed pairs, and the population and
  disagreements of one evaluation of a receipt.  Both correction tables follow one template; a
  \<open>kclass\<close> names what differs.
\<close>

section \<open>Numeric arithmetic\<close>

text \<open>Addition on the SQL type \<open>numeric\<close>; infinities of opposite sign give \<open>NaN\<close>.\<close>

fun numeric_add :: "numeric \<Rightarrow> numeric \<Rightarrow> numeric" where
  "numeric_add (Num a) (Num b) = Num (a + b)"
| "numeric_add NaN _ = NaN"
| "numeric_add _ NaN = NaN"
| "numeric_add PosInf NegInf = NaN"
| "numeric_add NegInf PosInf = NaN"
| "numeric_add PosInf _ = PosInf"
| "numeric_add _ PosInf = PosInf"
| "numeric_add NegInf _ = NegInf"
| "numeric_add _ NegInf = NegInf"

definition numeric_sum :: "numeric list \<Rightarrow> numeric" where
  "numeric_sum ns = foldr numeric_add ns (Num 0)"

section \<open>Correction tables\<close>

record 'f kclass =
  kc_rows :: "fleet \<Rightarrow> 'f krow list"
  kc_add :: "'f krow \<Rightarrow> fleet \<Rightarrow> fleet"
  kc_root :: "fleet \<Rightarrow> uuid \<Rightarrow> uuid \<Rightarrow> (uuid \<times> tstz \<times> 'f) option"

definition po_facts_of :: "po_line_row \<Rightarrow> po_facts" where
  "po_facts_of l = \<lparr>pf_item = pl_item l, pf_quantity = pl_quantity l, pf_uom = pl_uom l, pf_price = pl_price l,
                    pf_expected = pl_expected l\<rparr>"

definition line_facts_of :: "receipt_line_row \<Rightarrow> line_facts" where
  "line_facts_of l =
     \<lparr>lf_po_line = rl_po_line l, lf_item = rl_item l, lf_quantity = rl_quantity l, lf_uom = rl_uom l,
      lf_condition = rl_condition l, lf_packing = rl_packing_quantity l, lf_notes = rl_notes l,
      lf_serialized = rl_serialized l, lf_owner = rl_owner l, lf_custodian = rl_custodian l,
      lf_asset = rl_asset l, lf_observed = rl_observed l\<rparr>"

definition po_records :: "po_facts kclass" where
  "po_records =
     \<lparr>kc_rows = purchase_order_line_corrections,
      kc_add = (\<lambda>k. purchase_order_line_corrections_update (\<lambda>ks. ks @ [k])),
      kc_root = (\<lambda>db org i. map_option (\<lambda>l. (pl_po l, pl_created_at l, po_facts_of l))
        (List.find (\<lambda>l. pl_org l = org \<and> pl_id l = i) (purchase_order_lines db)))\<rparr>"

definition line_records :: "line_facts kclass" where
  "line_records =
     \<lparr>kc_rows = receipt_line_corrections,
      kc_add = (\<lambda>k. receipt_line_corrections_update (\<lambda>ks. ks @ [k])),
      kc_root = (\<lambda>db org i. map_option (\<lambda>l. (rl_receipt l, rl_occurred l, line_facts_of l))
        (List.find (\<lambda>l. rl_org l = org \<and> rl_id l = i) (receipt_lines db)))\<rparr>"

definition corrected_rows :: "uuid \<Rightarrow> uuid \<Rightarrow> 'f krow list \<Rightarrow> 'f krow list" where
  "corrected_rows org r ks = filter (\<lambda>k. k_org k = org \<and> k_root k = r \<and> k_role k = CORRECTED) ks"

text \<open>\<open>COALESCE(max(correction_generation), 0)\<close>.\<close>

definition generation_of :: "uuid \<Rightarrow> uuid \<Rightarrow> 'f krow list \<Rightarrow> int" where
  "generation_of org r ks =
     (case latest_by k_generation (corrected_rows org r ks) of None \<Rightarrow> 0 | Some k \<Rightarrow> k_generation k)"

section \<open>Malformed pairs\<close>

text \<open>\<open>pair_anomalies\<close>: a row that disagrees with its root or with the authority it cancels, a pair
  that is not one reversal and one replacement, and a root whose generations have a gap.\<close>

definition previous_correction :: "'f krow list \<Rightarrow> 'f krow \<Rightarrow> 'f krow option" where
  "previous_correction ks k =
     List.find (\<lambda>p. k_org p = k_org k \<and> k_root p = k_root k \<and> k_generation p = k_generation k - 1
       \<and> k_role p = CORRECTED) ks"

definition record_bad :: "'f kclass \<Rightarrow> fleet \<Rightarrow> 'f krow \<Rightarrow> bool" where
  "record_bad cls db k \<longleftrightarrow>
     (case kc_root cls db (k_org k) (k_root k) of
        None \<Rightarrow> True
      | Some (parent, _, facts) \<Rightarrow>
          \<not> has_nonspace (k_reason k) \<or> k_reason k \<noteq> normalize_correction_reason (k_reason k)
          \<or> \<not> length_between 1 4000 (k_reason k) \<or> k_parent k \<noteq> parent
          \<or> (k_role k = REVERSAL
              \<and> (if k_generation k = 1 then k_facts k \<noteq> facts
                 else (case previous_correction (kc_rows cls db) k of
                         None \<Rightarrow> k_generation k > 1
                       | Some p \<Rightarrow> k_facts k \<noteq> k_facts p))))"

definition pair_of :: "'f krow list \<Rightarrow> 'f krow \<Rightarrow> 'f krow list" where
  "pair_of ks k = filter (\<lambda>h. k_org h = k_org k \<and> k_pair h = k_pair k) ks"

definition record_pair_bad :: "'f krow list \<Rightarrow> bool" where
  "record_pair_bad g \<longleftrightarrow>
     length g \<noteq> 2 \<or> distinct_count (map k_root g) \<noteq> 1 \<or> distinct_count (map k_parent g) \<noteq> 1
     \<or> distinct_count (map k_generation g) \<noteq> 1
     \<or> length (filter (\<lambda>k. k_role k = REVERSAL) g) \<noteq> 1 \<or> length (filter (\<lambda>k. k_role k = CORRECTED) g) \<noteq> 1
     \<or> distinct_count (map k_reason g) \<noteq> 1 \<or> distinct_count (map k_actor g) \<noteq> 1
     \<or> distinct_count (map k_corrected_at g) \<noteq> 1 \<or> distinct_count (map k_txn g) \<noteq> 1"

definition generations_bad :: "'f krow list \<Rightarrow> 'f krow \<Rightarrow> bool" where
  "generations_bad ks k \<longleftrightarrow> k_role k = CORRECTED \<and>
     (let g = corrected_rows (k_org k) (k_root k) ks; m = generation_of (k_org k) (k_root k) ks in
      int (length g) \<noteq> m \<or> int (distinct_count (map k_generation g)) \<noteq> m)"

definition record_anomalies :: "'f kclass \<Rightarrow> fleet \<Rightarrow> (uuid \<times> uuid) list" where
  "record_anomalies cls db =
     map (\<lambda>k. (k_org k, k_root k))
       (filter (\<lambda>k. record_bad cls db k \<or> record_pair_bad (pair_of (kc_rows cls db) k)
                   \<or> generations_bad (kc_rows cls db) k) (kc_rows cls db))"

section \<open>Effective rows\<close>

definition effective_correction :: "'f krow list \<Rightarrow> uuid \<Rightarrow> uuid \<Rightarrow> 'f krow option" where
  "effective_correction ks org r = latest_by k_generation (corrected_rows org r ks)"

definition with_po_facts :: "po_line_row \<Rightarrow> po_facts \<Rightarrow> po_line_row" where
  "with_po_facts l f =
     l\<lparr>pl_item := pf_item f, pl_quantity := pf_quantity f, pl_uom := pf_uom f, pl_price := pf_price f,
       pl_expected := pf_expected f\<rparr>"

definition with_line_facts :: "receipt_line_row \<Rightarrow> line_facts \<Rightarrow> receipt_line_row" where
  "with_line_facts l f =
     l\<lparr>rl_po_line := lf_po_line f, rl_item := lf_item f, rl_quantity := lf_quantity f, rl_uom := lf_uom f,
       rl_condition := lf_condition f, rl_packing_quantity := lf_packing f, rl_notes := lf_notes f,
       rl_serialized := lf_serialized f, rl_owner := lf_owner f, rl_custodian := lf_custodian f,
       rl_asset := lf_asset f, rl_observed := lf_observed f\<rparr>"

definition effective_po_line :: "fleet \<Rightarrow> po_line_row \<Rightarrow> po_line_row" where
  "effective_po_line db l =
     (case effective_correction (purchase_order_line_corrections db) (pl_org l) (pl_id l) of
        None \<Rightarrow> l | Some k \<Rightarrow> with_po_facts l (k_facts k))"

definition effective_receipt_line :: "fleet \<Rightarrow> receipt_line_row \<Rightarrow> receipt_line_row" where
  "effective_receipt_line db l =
     (case effective_correction (receipt_line_corrections db) (rl_org l) (rl_id l) of
        None \<Rightarrow> l | Some k \<Rightarrow> with_line_facts l (k_facts k))"

text \<open>\<open>SELECT * FROM effective_purchase_order_lines WHERE org_id = \<dots> AND id = \<dots>\<close>.\<close>

definition find_expectation :: "fleet \<Rightarrow> uuid \<Rightarrow> uuid \<Rightarrow> po_line_row option" where
  "find_expectation db org i =
     map_option (effective_po_line db)
       (List.find (\<lambda>l. pl_org l = org \<and> pl_id l = i) (purchase_order_lines db))"

section \<open>Kinds of disagreement\<close>

text \<open>
  What one observed line disagrees with: the comparator, its own condition, the packing count, the
  identifier.  \<open>expected\<close> is the item and the unit of the comparator.
\<close>

definition condition_kind :: "condition \<Rightarrow> exception_kind list" where
  "condition_kind c = (case c of DAMAGED \<Rightarrow> [DAMAGED_UNIT] | OPENED \<Rightarrow> [OPENED_UNIT] | _ \<Rightarrow> [])"

definition comparator_kinds :: "uuid option \<Rightarrow> uuid \<Rightarrow> uom \<Rightarrow> (uuid \<times> uom) option \<Rightarrow> exception_kind list" where
  "comparator_kinds po_line item u expected =
     (if po_line = None then [UNEXPECTED_ITEM]
      else (case expected of
              None \<Rightarrow> []
            | Some (i, v) \<Rightarrow> (if item \<noteq> i then [SUBSTITUTION] else []) @ (if u \<noteq> v then [UOM_MISMATCH] else [])))"

definition packing_kind :: "numeric option \<Rightarrow> numeric \<Rightarrow> exception_kind list" where
  "packing_kind packing quantity =
     (case packing of None \<Rightarrow> [] | Some p \<Rightarrow> if quantity \<noteq> p then [QUANTITY_VARIANCE] else [])"

definition quantity_kind :: "numeric list \<Rightarrow> uom list \<Rightarrow> numeric \<Rightarrow> uom \<Rightarrow> exception_kind option" where
  "quantity_kind quantities units expected u =
     (let total = numeric_sum quantities in
      if (\<exists>v \<in> set units. v \<noteq> u) \<or> total = expected then None
      else if numeric_less total expected then Some SHORT else Some OVER)"

section \<open>Evaluated population\<close>

definition readable_holder :: "fleet \<Rightarrow> uuid \<Rightarrow> identifier_type \<times> pgtext \<Rightarrow> uuid option" where
  "readable_holder db org observed =
     map_option id_asset (List.find (\<lambda>d. id_org d = org \<and> id_type d = fst observed \<and> id_value d = Some (snd observed))
       (asset_identifiers db))"

definition asset_unreadable :: "fleet \<Rightarrow> uuid \<Rightarrow> uuid option \<Rightarrow> bool" where
  "asset_unreadable db org a \<longleftrightarrow>
     (\<exists>d \<in> set (asset_identifiers db). id_org d = org \<and> Some (id_asset d) = a \<and> id_value d = None
        \<and> id_unreadable d \<noteq> None)"

record evaluated_line =
  el_line :: uuid
  el_receipt :: uuid
  el_po_line :: "uuid option"
  el_item :: uuid
  el_quantity :: numeric
  el_uom :: uom
  el_condition :: condition
  el_packing :: "numeric option"
  el_asset :: "uuid option"
  el_conflicting :: "uuid option"
  el_unreadable :: bool

definition evaluate_line :: "fleet \<Rightarrow> source_row \<Rightarrow> receipt_line_row \<Rightarrow> evaluated_line" where
  "evaluate_line db s r =
     (let c = (case so_source s of
                 None \<Rightarrow> None
               | Some i \<Rightarrow> List.find (\<lambda>k. k_org k = so_org s \<and> k_id k = i) (receipt_line_corrections db));
          f = (case c of None \<Rightarrow> line_facts_of r | Some k \<Rightarrow> k_facts k)
      in \<lparr>el_line = rl_id r, el_receipt = rl_receipt r, el_po_line = lf_po_line f, el_item = lf_item f,
          el_quantity = lf_quantity f, el_uom = lf_uom f, el_condition = lf_condition f,
          el_packing = lf_packing f, el_asset = rl_asset r,
          el_conflicting = (case c of
             Some k \<Rightarrow> k_conflicting k
           | None \<Rightarrow> (case rl_observed r of None \<Rightarrow> None | Some v \<Rightarrow> readable_holder db (rl_org r) v)),
          el_unreadable = asset_unreadable db (rl_org r) (rl_asset r)\<rparr>)"

definition evaluated_lines :: "fleet \<Rightarrow> uuid \<Rightarrow> uuid \<Rightarrow> evaluated_line list" where
  "evaluated_lines db org v =
     concat (map (\<lambda>s. map (evaluate_line db s)
         (filter (\<lambda>r. rl_org r = so_org s \<and> rl_id r = so_root s) (receipt_lines db)))
       (filter (\<lambda>s. so_org s = org \<and> so_evaluation s = v) (receipt_evaluation_lines db)))"

record evaluated_expectation =
  ee_po_line :: uuid
  ee_item :: uuid
  ee_quantity :: numeric
  ee_uom :: uom

definition evaluate_expectation :: "fleet \<Rightarrow> source_row \<Rightarrow> po_line_row \<Rightarrow> evaluated_expectation" where
  "evaluate_expectation db s p =
     (let f = (case so_source s of
                 None \<Rightarrow> po_facts_of p
               | Some i \<Rightarrow> (case List.find (\<lambda>k. k_org k = so_org s \<and> k_id k = i) (purchase_order_line_corrections db) of
                     None \<Rightarrow> po_facts_of p | Some k \<Rightarrow> k_facts k))
      in \<lparr>ee_po_line = pl_id p, ee_item = pf_item f, ee_quantity = pf_quantity f, ee_uom = pf_uom f\<rparr>)"

definition evaluated_expectations :: "fleet \<Rightarrow> uuid \<Rightarrow> uuid \<Rightarrow> evaluated_expectation list" where
  "evaluated_expectations db org v =
     concat (map (\<lambda>s. map (evaluate_expectation db s)
         (filter (\<lambda>p. pl_org p = so_org s \<and> pl_id p = so_root s) (purchase_order_lines db)))
       (filter (\<lambda>s. so_org s = org \<and> so_evaluation s = v) (receipt_evaluation_expectations db)))"

section \<open>Disagreements\<close>

record disagreement =
  dg_kind :: exception_kind
  dg_line :: "uuid option"
  dg_po_line :: "uuid option"
  dg_asset :: "uuid option"
  dg_conflicting :: "uuid option"

definition line_disagreement :: "evaluated_line \<Rightarrow> exception_kind \<Rightarrow> disagreement" where
  "line_disagreement l k =
     \<lparr>dg_kind = k, dg_line = Some (el_line l), dg_po_line = el_po_line l,
      dg_asset = (if k \<in> {QUANTITY_VARIANCE, SERIAL_MISMATCH} then None else el_asset l),
      dg_conflicting = (if k = SERIAL_MISMATCH then el_conflicting l else None)\<rparr>"

definition quantity_disagreement :: "uuid \<Rightarrow> exception_kind \<Rightarrow> disagreement" where
  "quantity_disagreement p k =
     \<lparr>dg_kind = k, dg_line = None, dg_po_line = Some p, dg_asset = None, dg_conflicting = None\<rparr>"

text \<open>The line part of the view lists its kinds in the order of the \<open>ARRAY\<close>.\<close>

definition evaluated_kinds :: "evaluated_expectation list \<Rightarrow> evaluated_line \<Rightarrow> exception_kind list" where
  "evaluated_kinds ps l =
     comparator_kinds (el_po_line l) (el_item l) (el_uom l)
       (map_option (\<lambda>p. (ee_item p, ee_uom p)) (List.find (\<lambda>p. Some (ee_po_line p) = el_po_line l) ps))
     @ condition_kind (el_condition l)
     @ (if el_unreadable l then [SERIAL_UNREADABLE] else [])
     @ (if el_conflicting l \<noteq> None then [SERIAL_MISMATCH] else [])
     @ packing_kind (el_packing l) (el_quantity l)"

definition expectation_kind :: "evaluated_line list \<Rightarrow> evaluated_expectation \<Rightarrow> exception_kind option" where
  "expectation_kind ls p =
     (let own = filter (\<lambda>l. el_po_line l = Some (ee_po_line p)) ls in
      quantity_kind (map el_quantity own) (map el_uom own) (ee_quantity p) (ee_uom p))"

text \<open>\<open>receipt_evaluation_disagreements\<close> of one evaluation, each with its receipt.\<close>

definition evaluation_disagreements :: "fleet \<Rightarrow> uuid \<Rightarrow> uuid \<Rightarrow> (uuid \<times> disagreement) list" where
  "evaluation_disagreements db org v =
     (let ls = evaluated_lines db org v; ps = evaluated_expectations db org v in
      concat (map (\<lambda>l. map (\<lambda>k. (el_receipt l, line_disagreement l k)) (evaluated_kinds ps l)) ls)
      @ concat (map (\<lambda>p. concat (map (\<lambda>e.
            case expectation_kind ls p of
              None \<Rightarrow> [] | Some k \<Rightarrow> [(ve_receipt e, quantity_disagreement (ee_po_line p) k)])
          (filter (\<lambda>e. ve_org e = org \<and> ve_id e = v) (receipt_correction_evaluations db)))) ps))"

end
