(* ===== verification/Receiving.thy ===== *)
theory Receiving
  imports RecordViews
begin

text \<open>
  Receiving (\<open>domain/receiving.py\<close>, the guards of \<open>0010_receiving.py\<close> as \<open>receiving_sql\<close> of
  \<open>correction_records_0011.py\<close> amends them): a receipt, the comparators it is measured against, its
  lines, the exceptions derived from them and the witness that closes its population.  The service
  derives exceptions; the guards validate them one by one and, at the end of a call, their presence.
\<close>

section \<open>The receiving context\<close>

definition find_receipt :: "fleet \<Rightarrow> uuid \<Rightarrow> uuid \<Rightarrow> receipt_row option" where
  "find_receipt db org i = List.find (\<lambda>r. rc_org r = org \<and> rc_id r = i) (receipts db)"

text \<open>\<open>lock_receiving_context\<close>; the engine runs at \<open>READ COMMITTED\<close>.\<close>

definition lock_receiving_context :: "ctx \<Rightarrow> fleet \<Rightarrow> uuid \<Rightarrow> uuid \<Rightarrow> sqlstate + receipt_row" where
  "lock_receiving_context x db org i =
     ensure (x_actor_hint x = None) E42501
       (from_option E23503 (if visible x org then find_receipt db org i else None))"

definition reconciled :: "fleet \<Rightarrow> uuid \<Rightarrow> uuid \<Rightarrow> bool" where
  "reconciled db org i \<longleftrightarrow> (\<exists>f \<in> set (receipt_reconciliations db). rr_org f = org \<and> rr_receipt f = i)"

definition receipt_exists :: "fleet \<Rightarrow> uuid \<Rightarrow> uuid \<Rightarrow> bool" where
  "receipt_exists db org i \<longleftrightarrow> (\<exists>r \<in> set (receipts db). rc_org r = org \<and> rc_id r = i)"

definition order_exists :: "fleet \<Rightarrow> uuid \<Rightarrow> uuid \<Rightarrow> bool" where
  "order_exists db org i \<longleftrightarrow> (\<exists>r \<in> set (purchase_orders db). po_org r = org \<and> po_id r = i)"

definition po_line_exists :: "fleet \<Rightarrow> uuid \<Rightarrow> uuid \<Rightarrow> bool" where
  "po_line_exists db org i \<longleftrightarrow> (\<exists>l \<in> set (purchase_order_lines db). pl_org l = org \<and> pl_id l = i)"

definition item_exists :: "fleet \<Rightarrow> uuid \<Rightarrow> uuid \<Rightarrow> bool" where
  "item_exists db org i \<longleftrightarrow> (\<exists>t \<in> set (items db). it_org t = org \<and> it_id t = i)"

definition compared :: "fleet \<Rightarrow> uuid \<Rightarrow> uuid \<Rightarrow> uuid \<Rightarrow> bool" where
  "compared db org receipt l \<longleftrightarrow>
     (\<exists>c \<in> set (receipt_comparators db). cm_org c = org \<and> cm_receipt c = receipt \<and> cm_po_line c = l)"

section \<open>Headers\<close>

definition guard_receipt :: "ctx \<Rightarrow> fleet \<Rightarrow> receipt_row \<Rightarrow> sqlstate + unit" where
  "guard_receipt x db r =
     ensure (x_actor_hint x = None) E42501
       (case rc_po r of
          None \<Rightarrow> Inr ()
        | Some p \<Rightarrow>
            rbind (from_option E23503
                     (List.find (\<lambda>q. visible x (po_org q) \<and> po_org q = rc_org r \<and> po_id q = p) (purchase_orders db)))
              (\<lambda>q. ensure (po_status q = ISSUED) E23514 (Inr ())))"

definition insert_receipt :: "ctx \<Rightarrow> receipt_row \<Rightarrow> fleet \<Rightarrow> sqlstate + (receipt_row \<times> fleet)" where
  "insert_receipt x new db =
     rbind (current_authenticated_actor x db) (\<lambda>performer.
       let r = new\<lparr>rc_actor := performer\<rparr> in
       rbind (guard_receipt x db r) (\<lambda>_.
         ensure (visible x (rc_org r)) E42501
           (ensure (isfinite (rc_received_at r)
                    \<and> holds_if (\<lambda>t. length_between 1 500 (btrim t)) (rc_packing_reference r)) E23514
             (ensure (\<forall>q \<in> set (receipts db). rc_id q \<noteq> rc_id r) E23505
               (ensure (rc_org r \<in> set (organizations db) \<and> actor_exists db (rc_org r) (rc_actor r)
                        \<and> party_exists db (rc_org r) (rc_vendor r) \<and> has_role db (rc_org r) (rc_vendor r) VENDOR
                        \<and> holds_if (order_exists db (rc_org r)) (rc_po r)
                        \<and> holds_if (location_exists db (rc_org r)) (rc_dock r)) E23503
                 (rbind (enforce_authenticated_creator x db (rc_actor r) None) (\<lambda>_.
                   Inr (r, db\<lparr>receipts := receipts db @ [r]\<rparr>))))))))"

section \<open>Comparators\<close>

text \<open>The comparator branch of \<open>enforce_receiving_record\<close> that lines share: an issued active leaf of
  the receipt's order.\<close>

definition admit_comparator :: "fleet \<Rightarrow> receipt_row \<Rightarrow> uuid \<Rightarrow> sqlstate + unit" where
  "admit_comparator db r l =
     rbind (from_option E23503
              (case find_expectation db (rc_org r) l of
                 None \<Rightarrow> None | Some p \<Rightarrow> if rc_po r = Some (pl_po p) then Some p else None)) (\<lambda>p.
       ensure (\<exists>q \<in> set (purchase_orders db). po_org q = rc_org r \<and> rc_po r = Some (po_id q) \<and> po_status q = ISSUED)
         E23514
         (ensure (\<forall>s \<in> set (purchase_order_lines db). \<not> (pl_org s = rc_org r \<and> pl_supersedes s = Some (pl_id p)))
           E40001 (Inr ())))"

text \<open>A comparator that a receipt correction of this transaction introduces.\<close>

definition introduced_now :: "ctx \<Rightarrow> fleet \<Rightarrow> comparator_row \<Rightarrow> bool" where
  "introduced_now x db c \<longleftrightarrow>
     (\<exists>k \<in> set (receipt_line_corrections db). k_org k = cm_org c \<and> Some (k_id k) = cm_introduced_by c
        \<and> k_parent k = cm_receipt c \<and> lf_po_line (k_facts k) = Some (cm_po_line c) \<and> k_role k = CORRECTED
        \<and> k_txn k = x_txn x)"

definition guard_comparator :: "ctx \<Rightarrow> fleet \<Rightarrow> comparator_row \<Rightarrow> sqlstate + comparator_row" where
  "guard_comparator x db c =
     rbind (lock_receiving_context x db (cm_org c) (cm_receipt c)) (\<lambda>r.
       ensure (introduced_now x db c \<or> \<not> reconciled db (cm_org c) (cm_receipt c)) E23514
         (rbind (admit_comparator db r (cm_po_line c)) (\<lambda>_.
            ensure (cm_introduced_by c \<noteq> None \<longrightarrow> introduced_now x db c) E23514
              (ensure (cm_generation c = generation_of (cm_org c) (cm_po_line c) (purchase_order_line_corrections db))
                 E40001
                 (ensure ((cm_org c, cm_po_line c) \<notin> set (record_anomalies po_records db)) EP0001
                   (Inr (c\<lparr>cm_occurred := rc_received_at r\<rparr>)))))))"

definition comparator_source :: "fleet \<Rightarrow> comparator_row \<Rightarrow> bool" where
  "comparator_source db c \<longleftrightarrow>
     holds_if (\<lambda>s. \<exists>k \<in> set (purchase_order_line_corrections db). k_org k = cm_org c \<and> k_root k = cm_po_line c
        \<and> k_generation k = cm_generation c \<and> k_id k = s \<and> k_role k = CORRECTED) (cm_source c)"

definition insert_comparator :: "ctx \<Rightarrow> comparator_row \<Rightarrow> fleet \<Rightarrow> sqlstate + fleet" where
  "insert_comparator x new db =
     rbind (current_authenticated_actor x db) (\<lambda>performer.
       rbind (guard_comparator x db (new\<lparr>cm_actor := performer\<rparr>)) (\<lambda>c.
         ensure (visible x (cm_org c)) E42501
           (ensure (isfinite (cm_occurred c) \<and> (if cm_generation c = 0 then cm_source c = None
                      else cm_generation c > 0 \<and> cm_source c \<noteq> None)) E23514
             (ensure (\<forall>d \<in> set (receipt_comparators db). cm_id d \<noteq> cm_id c
                        \<and> \<not> (cm_org d = cm_org c \<and> cm_receipt d = cm_receipt c \<and> cm_po_line d = cm_po_line c)) E23505
               (ensure (cm_org c \<in> set (organizations db) \<and> actor_exists db (cm_org c) (cm_actor c)
                        \<and> receipt_exists db (cm_org c) (cm_receipt c) \<and> po_line_exists db (cm_org c) (cm_po_line c)
                        \<and> comparator_source db c) E23503
                 (rbind (enforce_authenticated_creator x db (cm_actor c) None) (\<lambda>_.
                   Inr (db\<lparr>receipt_comparators := receipt_comparators db @ [c]\<rparr>))))))))"

section \<open>Lines\<close>

definition received_asset :: "fleet \<Rightarrow> receipt_row \<Rightarrow> receipt_line_row \<Rightarrow> uuid \<Rightarrow> bool" where
  "received_asset db r l i \<longleftrightarrow>
     (\<exists>a \<in> set (assets db). as_org a = rl_org l \<and> as_id a = i \<and> as_item a = rl_item l
        \<and> (\<exists>b \<in> set (asset_initial_facts db). b_org b = as_org a \<and> b_asset b = as_id a
             \<and> b_owner b \<noteq> None \<and> b_owner b = rl_owner l \<and> b_custodian b = rl_custodian l
             \<and> b_location b \<noteq> None \<and> b_location b = rc_dock r))"

definition guard_receipt_line :: "ctx \<Rightarrow> fleet \<Rightarrow> receipt_line_row \<Rightarrow> sqlstate + receipt_line_row" where
  "guard_receipt_line x db new =
     rbind (lock_receiving_context x db (rl_org new) (rl_receipt new)) (\<lambda>r.
       ensure (\<not> reconciled db (rl_org new) (rl_receipt new)) E23514
         (rbind (case rl_po_line new of None \<Rightarrow> Inr () | Some p \<Rightarrow> admit_comparator db r p) (\<lambda>_.
            rbind (from_option E23503
                     (List.find (\<lambda>t. it_org t = rl_org new \<and> it_id t = rl_item new) (items db))) (\<lambda>t.
              let l = new\<lparr>rl_occurred := rc_received_at r, rl_serialized := it_serialized t\<rparr> in
              ensure (rl_packing_quantity l \<noteq> None \<longrightarrow> rc_packing_reference r \<noteq> None) E23514
                (ensure (rl_serialized l \<longrightarrow> rl_quantity l = Num 1) E23514
                  (ensure (holds_if (\<lambda>v. readable_holder db (rl_org l) v \<noteq> None) (rl_observed l)) E23514
                    (ensure (holds_if (received_asset db r l) (rl_asset l)) E23514 (Inr l))))))))"

definition receipt_line_check :: "receipt_line_row \<Rightarrow> bool" where
  "receipt_line_check l \<longleftrightarrow> isfinite (rl_occurred l) \<and> positive_finite (rl_quantity l)
     \<and> holds_if nonneg_finite (rl_packing_quantity l) \<and> holds_if (\<lambda>n. length n \<le> 4000) (rl_notes l)
     \<and> holds_if (\<lambda>v. length_between 1 500 (btrim (snd v))) (rl_observed l)
     \<and> (if rl_serialized l
        then rl_owner l \<noteq> None \<and> (rl_asset l \<noteq> None) = (rl_observed l = None)
        else rl_asset l = None \<and> rl_observed l = None \<and> rl_owner l = None \<and> rl_custodian l = None)"

definition receipt_line_refs :: "fleet \<Rightarrow> receipt_line_row \<Rightarrow> bool" where
  "receipt_line_refs db l \<longleftrightarrow> rl_org l \<in> set (organizations db) \<and> actor_exists db (rl_org l) (rl_actor l)
     \<and> receipt_exists db (rl_org l) (rl_receipt l) \<and> item_exists db (rl_org l) (rl_item l)
     \<and> holds_if (po_line_exists db (rl_org l)) (rl_po_line l)
     \<and> holds_if (party_exists db (rl_org l)) (rl_owner l) \<and> holds_if (party_exists db (rl_org l)) (rl_custodian l)
     \<and> holds_if (asset_exists db (rl_org l)) (rl_asset l)
     \<and> holds_if (compared db (rl_org l) (rl_receipt l)) (rl_po_line l)"

definition insert_receipt_line ::
  "ctx \<Rightarrow> receipt_line_row \<Rightarrow> fleet \<Rightarrow> sqlstate + (receipt_line_row \<times> fleet)" where
  "insert_receipt_line x new db =
     rbind (guard_receipt_line x db new) (\<lambda>l.
       ensure (visible x (rl_org l)) E42501
         (ensure (receipt_line_check l) E23514
           (ensure (\<forall>k \<in> set (receipt_lines db). rl_id k \<noteq> rl_id l
                      \<and> \<not> (rl_asset l \<noteq> None \<and> rl_org k = rl_org l \<and> rl_asset k = rl_asset l)) E23505
             (ensure (receipt_line_refs db l) E23503
               (rbind (enforce_authenticated_creator x db (rl_actor l) None) (\<lambda>_.
                 Inr (l, db\<lparr>receipt_lines := receipt_lines db @ [l]\<rparr>)))))))"

section \<open>Admission of a unit\<close>

text \<open>\<open>create_received_unit\<close>: the Asset, its history and witnesses, its identifier and its line.\<close>

record unit_facts =
  uf_asset :: uuid
  uf_tag :: pgtext
  uf_description :: pgtext
  uf_identifier :: uuid
  uf_type :: identifier_type
  uf_value :: "pgtext option"
  uf_unreadable :: "pgtext option"
  uf_transition :: uuid

definition unit_admissible :: "fleet \<Rightarrow> receipt_row \<Rightarrow> receipt_line_row \<Rightarrow> bool" where
  "unit_admissible db r l \<longleftrightarrow>
     rl_owner l \<noteq> None \<and> holds_if (party_exists db (rc_org r)) (rl_owner l)
     \<and> holds_if (party_exists db (rc_org r)) (rl_custodian l)
     \<and> rc_dock r \<noteq> None \<and> holds_if (location_exists db (rc_org r)) (rc_dock r)
     \<and> (\<exists>t \<in> set (items db). it_org t = rc_org r \<and> it_id t = rl_item l \<and> it_serialized t)"

definition create_received_unit ::
  "ctx \<Rightarrow> receipt_line_row \<Rightarrow> unit_facts \<Rightarrow> fleet \<Rightarrow> sqlstate + (receipt_line_row \<times> fleet)" where
  "create_received_unit x l u db =
     (case x_org x of
        None \<Rightarrow> Inl E42501
      | Some org \<Rightarrow>
          rbind (current_authenticated_actor x db) (\<lambda>performer.
          rbind (lock_receiving_context x db org (rl_receipt l)) (\<lambda>r.
          ensure (\<not> reconciled db org (rl_receipt l)) E23514
         (ensure (unit_admissible db r l) E23503
         (ensure (holds_if (\<lambda>v. readable_holder db org (uf_type u, v) = None) (uf_value u)) E23505
         (rbind (create_unit_facts x
                   (new_asset x org (uf_asset u) (rl_item l) (uf_tag u) (uf_description u) (rl_owner l)
                      (rl_custodian l) (rc_dock r) performer)
                   (rc_received_at r) (uf_transition u)
                   \<lparr>id_id = uf_identifier u, id_org = org, id_asset = uf_asset u, id_type = uf_type u,
                    id_value = uf_value u, id_unreadable = uf_unreadable u, id_created_by = performer\<rparr> db) (\<lambda>db'.
            insert_receipt_line x
              (l\<lparr>rl_org := org, rl_asset := Some (uf_asset u), rl_observed := None, rl_actor := performer\<rparr>) db')))))))"

section \<open>Exceptions\<close>

text \<open>\<open>ck_receiving_exceptions_shape\<close>.\<close>

definition exception_shape :: "exception_row \<Rightarrow> bool" where
  "exception_shape e \<longleftrightarrow>
     (case xc_type e of
        SHORT \<Rightarrow> xc_line e = None \<and> xc_po_line e \<noteq> None \<and> xc_asset e = None \<and> xc_conflicting e = None
      | OVER \<Rightarrow> xc_line e = None \<and> xc_po_line e \<noteq> None \<and> xc_asset e = None \<and> xc_conflicting e = None
      | SUBSTITUTION \<Rightarrow> xc_line e \<noteq> None \<and> xc_po_line e \<noteq> None \<and> xc_conflicting e = None
      | UOM_MISMATCH \<Rightarrow> xc_line e \<noteq> None \<and> xc_po_line e \<noteq> None \<and> xc_conflicting e = None
      | DAMAGED_UNIT \<Rightarrow> xc_line e \<noteq> None \<and> xc_conflicting e = None
      | OPENED_UNIT \<Rightarrow> xc_line e \<noteq> None \<and> xc_conflicting e = None
      | SERIAL_UNREADABLE \<Rightarrow> xc_line e \<noteq> None \<and> xc_asset e \<noteq> None \<and> xc_conflicting e = None
      | SERIAL_MISMATCH \<Rightarrow> xc_line e \<noteq> None \<and> xc_asset e = None \<and> xc_conflicting e \<noteq> None
      | UNEXPECTED_ITEM \<Rightarrow> xc_line e \<noteq> None \<and> xc_po_line e = None \<and> xc_conflicting e = None
      | QUANTITY_VARIANCE \<Rightarrow> xc_line e \<noteq> None \<and> xc_asset e = None \<and> xc_conflicting e = None)"

text \<open>The occurrence of an exception: its receipt's, or that of the evaluation that observed it.\<close>

definition exception_occurrence :: "ctx \<Rightarrow> fleet \<Rightarrow> exception_row \<Rightarrow> sqlstate + tstz" where
  "exception_occurrence x db e =
     (case xc_evaluation e of
        None \<Rightarrow> rbind (lock_receiving_context x db (xc_org e) (xc_receipt e)) (\<lambda>r. Inr (rc_received_at r))
      | Some v \<Rightarrow>
          ensure (x_actor_hint x = None) E42501
            (rbind (current_authenticated_actor x db) (\<lambda>performer.
               rbind (from_option E23514
                        (List.find (\<lambda>w. visible x (ve_org w) \<and> ve_org w = xc_org e \<and> ve_id w = v
                           \<and> ve_receipt w = xc_receipt e \<and> ve_actor w = performer \<and> ve_txn w = x_txn x)
                          (receipt_correction_evaluations db))) (\<lambda>w. Inr (ve_occurred w)))))"

definition exception_disagreement :: "exception_row \<Rightarrow> disagreement" where
  "exception_disagreement e =
     \<lparr>dg_kind = xc_type e, dg_line = xc_line e, dg_po_line = xc_po_line e, dg_asset = xc_asset e,
      dg_conflicting = xc_conflicting e\<rparr>"

definition aggregate_kind :: "fleet \<Rightarrow> uuid \<Rightarrow> uuid \<Rightarrow> po_line_row \<Rightarrow> exception_kind option" where
  "aggregate_kind db org receipt p =
     (let ls = filter (\<lambda>l. rl_org l = org \<and> rl_receipt l = receipt \<and> rl_po_line l = Some (pl_id p)) (receipt_lines db)
      in quantity_kind (map rl_quantity ls) (map rl_uom ls) (pl_quantity p) (pl_uom p))"

text \<open>\<open>enforce_receiving_exception\<close>: is the classification supported by the facts it names?\<close>

definition line_supports :: "fleet \<Rightarrow> receipt_line_row \<Rightarrow> exception_row \<Rightarrow> bool" where
  "line_supports db l e \<longleftrightarrow>
     (let p = (case rl_po_line l of None \<Rightarrow> None | Some q \<Rightarrow> find_expectation db (rl_org l) q) in
      case xc_type e of
        SUBSTITUTION \<Rightarrow> p \<noteq> None \<and> rl_item l \<noteq> pl_item (the p)
      | DAMAGED_UNIT \<Rightarrow> rl_condition l = DAMAGED
      | OPENED_UNIT \<Rightarrow> rl_condition l = OPENED
      | UNEXPECTED_ITEM \<Rightarrow> rl_po_line l = None
      | UOM_MISMATCH \<Rightarrow> p \<noteq> None \<and> rl_uom l \<noteq> pl_uom (the p)
      | QUANTITY_VARIANCE \<Rightarrow> rl_packing_quantity l \<noteq> None \<and> rl_quantity l \<noteq> the (rl_packing_quantity l)
      | SERIAL_UNREADABLE \<Rightarrow> rl_asset l \<noteq> None \<and> asset_unreadable db (rl_org l) (rl_asset l)
      | SERIAL_MISMATCH \<Rightarrow> rl_serialized l \<and> rl_asset l = None
          \<and> rl_observed l \<noteq> None
          \<and> (\<exists>d \<in> set (asset_identifiers db). id_org d = rl_org l \<and> Some (id_asset d) = xc_conflicting e
               \<and> id_type d = fst (the (rl_observed l)) \<and> id_value d = Some (snd (the (rl_observed l))))
      | _ \<Rightarrow> False)"

definition exception_supported :: "fleet \<Rightarrow> exception_row \<Rightarrow> sqlstate + unit" where
  "exception_supported db e =
     (if xc_evaluation e \<noteq> None then
        ensure ((xc_receipt e, exception_disagreement e)
                  \<in> set (evaluation_disagreements db (xc_org e) (the (xc_evaluation e)))) E23514 (Inr ())
      else
        (case xc_line e of
           None \<Rightarrow>
             (if xc_type e \<notin> {SHORT, OVER} then Inr ()
              else ensure (reconciled db (xc_org e) (xc_receipt e)) E23514
                (rbind (from_option E23503
                          (case xc_po_line e of
                             None \<Rightarrow> None
                           | Some q \<Rightarrow> if compared db (xc_org e) (xc_receipt e) q then find_expectation db (xc_org e) q
                                      else None)) (\<lambda>p.
                   ensure (aggregate_kind db (xc_org e) (xc_receipt e) p = Some (xc_type e)) E23514 (Inr ()))))
         | Some i \<Rightarrow>
             (case List.find (\<lambda>l. rl_org l = xc_org e \<and> rl_id l = i \<and> rl_receipt l = xc_receipt e) (receipt_lines db) of
                None \<Rightarrow> Inl E23514
              | Some l \<Rightarrow>
                  ensure (rl_po_line l = xc_po_line e \<and> (xc_asset e \<noteq> None \<longrightarrow> xc_asset e = rl_asset l)
                          \<and> line_supports db l e) E23514 (Inr ()))))"

text \<open>The four partial unique indexes: one exception of a kind per line or comparator, separately
  for the receipt itself and for each evaluation.\<close>

definition same_exception :: "exception_row \<Rightarrow> exception_row \<Rightarrow> bool" where
  "same_exception d e \<longleftrightarrow> xc_org d = xc_org e \<and> xc_type d = xc_type e \<and> xc_evaluation d = xc_evaluation e
     \<and> (if xc_line e \<noteq> None then xc_line d = xc_line e
        else xc_line d = None \<and> xc_po_line d = xc_po_line e \<and> xc_po_line e \<noteq> None
             \<and> (xc_evaluation e \<noteq> None \<or> xc_receipt d = xc_receipt e))"

definition exception_refs :: "fleet \<Rightarrow> exception_row \<Rightarrow> bool" where
  "exception_refs db e \<longleftrightarrow> xc_org e \<in> set (organizations db) \<and> actor_exists db (xc_org e) (xc_actor e)
     \<and> receipt_exists db (xc_org e) (xc_receipt e)
     \<and> holds_if (\<lambda>i. \<exists>l \<in> set (receipt_lines db). rl_org l = xc_org e \<and> rl_id l = i) (xc_line e)
     \<and> holds_if (po_line_exists db (xc_org e)) (xc_po_line e)
     \<and> holds_if (asset_exists db (xc_org e)) (xc_asset e) \<and> holds_if (asset_exists db (xc_org e)) (xc_conflicting e)
     \<and> holds_if (compared db (xc_org e) (xc_receipt e)) (xc_po_line e)
     \<and> holds_if (\<lambda>v. \<exists>w \<in> set (receipt_correction_evaluations db). ve_org w = xc_org e \<and> ve_id w = v)
         (xc_evaluation e)"

definition insert_exception :: "ctx \<Rightarrow> exception_row \<Rightarrow> fleet \<Rightarrow> sqlstate + fleet" where
  "insert_exception x new db =
     rbind (current_authenticated_actor x db) (\<lambda>performer.
       rbind (exception_occurrence x db new) (\<lambda>occurred.
         let e = new\<lparr>xc_actor := performer, xc_occurred := occurred\<rparr> in
         rbind (exception_supported db e) (\<lambda>_.
           ensure (visible x (xc_org e)) E42501
             (ensure (isfinite (xc_occurred e) \<and> exception_shape e) E23514
               (ensure (\<forall>d \<in> set (receiving_exceptions db). xc_id d \<noteq> xc_id e \<and> \<not> same_exception d e) E23505
                 (ensure (exception_refs db e) E23503
                   (rbind (initialize_exception_workflow x e
                             (db\<lparr>receiving_exceptions := receiving_exceptions db @ [e]\<rparr>)) (\<lambda>db'.
                      rbind (enforce_authenticated_creator x db' (xc_actor e) None) (\<lambda>_. Inr db')))))))))"

section \<open>Completion\<close>

definition insert_reconciliation :: "ctx \<Rightarrow> reconciliation_row \<Rightarrow> fleet \<Rightarrow> sqlstate + fleet" where
  "insert_reconciliation x new db =
     rbind (current_authenticated_actor x db) (\<lambda>performer.
       rbind (lock_receiving_context x db (rr_org new) (rr_receipt new)) (\<lambda>r.
         let f = new\<lparr>rr_actor := performer, rr_occurred := rc_received_at r\<rparr> in
         ensure (\<not> reconciled db (rr_org f) (rr_receipt f)) E23514
           (ensure (visible x (rr_org f)) E42501
             (ensure (isfinite (rr_occurred f)) E23514
               (ensure (\<forall>g \<in> set (receipt_reconciliations db). rr_id g \<noteq> rr_id f) E23505
                 (ensure (rr_org f \<in> set (organizations db) \<and> actor_exists db (rr_org f) (rr_actor f)
                          \<and> receipt_exists db (rr_org f) (rr_receipt f)) E23503
                   (rbind (enforce_authenticated_creator x db (rr_actor f) None) (\<lambda>_.
                     Inr (db\<lparr>receipt_reconciliations := receipt_reconciliations db @ [f]\<rparr>)))))))))"

text \<open>
  \<open>enforce_receiving_completeness\<close>: the kinds a line requires, and whether each is present; and the
  quantity exception each comparator of a reconciled receipt requires.
\<close>

definition required_kinds :: "fleet \<Rightarrow> receipt_line_row \<Rightarrow> exception_kind list" where
  "required_kinds db l =
     comparator_kinds (rl_po_line l) (rl_item l) (rl_uom l)
       (case rl_po_line l of
          None \<Rightarrow> None
        | Some q \<Rightarrow> map_option (\<lambda>p. (pl_item p, pl_uom p)) (find_expectation db (rl_org l) q))
     @ condition_kind (rl_condition l) @ packing_kind (rl_packing_quantity l) (rl_quantity l)
     @ (if rl_observed l \<noteq> None then [SERIAL_MISMATCH] else [])
     @ (if rl_asset l \<noteq> None \<and> (\<exists>d \<in> set (asset_identifiers db). id_org d = rl_org l
              \<and> Some (id_asset d) = rl_asset l \<and> id_value d = None) then [SERIAL_UNREADABLE] else [])"

definition line_complete :: "fleet \<Rightarrow> receipt_line_row \<Rightarrow> bool" where
  "line_complete db l \<longleftrightarrow>
     (\<forall>k \<in> set (required_kinds db l). \<exists>e \<in> set (receiving_exceptions db).
        xc_org e = rl_org l \<and> xc_line e = Some (rl_id l) \<and> xc_type e = k)"

definition comparator_targets :: "fleet \<Rightarrow> uuid \<Rightarrow> uuid \<Rightarrow> po_line_row list" where
  "comparator_targets db org receipt =
     map (effective_po_line db)
       (filter (\<lambda>l. pl_org l = org \<and> compared db org receipt (pl_id l)) (purchase_order_lines db))"

definition reconciliation_complete :: "fleet \<Rightarrow> reconciliation_row \<Rightarrow> bool" where
  "reconciliation_complete db f \<longleftrightarrow>
     (\<forall>p \<in> set (comparator_targets db (rr_org f) (rr_receipt f)).
        holds_if (\<lambda>k. \<exists>e \<in> set (receiving_exceptions db).
            xc_org e = rr_org f \<and> xc_receipt e = rr_receipt f \<and> xc_po_line e = Some (pl_id p)
            \<and> xc_line e = None \<and> xc_type e = k)
          (aggregate_kind db (rr_org f) (rr_receipt f) p))"

text \<open>\<open>SET CONSTRAINTS \<dots> IMMEDIATE\<close> checks the rows this transaction added to \<open>old\<close>.\<close>

definition validate_complete :: "fleet \<Rightarrow> fleet \<Rightarrow> sqlstate + unit" where
  "validate_complete old db =
     ensure (\<forall>l \<in> set (drop (length (receipt_lines old)) (receipt_lines db)). line_complete db l) E23514
       (ensure (\<forall>f \<in> set (drop (length (receipt_reconciliations old)) (receipt_reconciliations db)).
                  reconciliation_complete db f) E23514 (Inr ()))"

end
