(* ===== verification/ReceivingService.thy ===== *)
theory ReceivingService
  imports Receiving
begin

text \<open>
  The service \<open>domain/receiving.py\<close>.  A call runs in one transaction and draws its identifiers from
  \<open>uuid7\<close>, a parameter that yields one value per draw; the state carries the number of draws.  A
  failure is a database error, translated at the edge of the call, or an exception of the service.
\<close>

section \<open>Transactions\<close>

datatype failure = Db sqlstate | Py py_error

record work =
  w_draws :: nat
  w_db :: fleet

definition receiving_error :: "sqlstate \<Rightarrow> py_error" where
  "receiving_error e =
     (if e \<in> {E40001, E40P01, E23505} then ReceivingConflict
      else if e \<in> {E23502, E23503, E23514, E42501, E22003, E22008} then ReceivingInvalid
      else DBError e)"

definition translate :: "(sqlstate \<Rightarrow> py_error) \<Rightarrow> failure \<Rightarrow> py_error" where
  "translate f e = (case e of Db d \<Rightarrow> f d | Py p \<Rightarrow> p)"

text \<open>A statement that changes the database, and one that also returns a row.\<close>

definition exec :: "(fleet \<Rightarrow> sqlstate + fleet) \<Rightarrow> work \<Rightarrow> failure + work" where
  "exec f w = rbind (map_error Db (f (w_db w))) (\<lambda>db. Inr (w\<lparr>w_db := db\<rparr>))"

definition exec_row :: "(fleet \<Rightarrow> sqlstate + ('r \<times> fleet)) \<Rightarrow> work \<Rightarrow> failure + ('r \<times> work)" where
  "exec_row f w = rbind (map_error Db (f (w_db w))) (\<lambda>(r, db). Inr (r, w\<lparr>w_db := db\<rparr>))"

definition draw :: "(nat \<Rightarrow> uuid) \<Rightarrow> work \<Rightarrow> uuid \<times> work" where
  "draw uuid7 w = (uuid7 (w_draws w), w\<lparr>w_draws := Suc (w_draws w)\<rparr>)"

section \<open>Requests\<close>

record unit_request =
  ur_owner :: "uuid option"
  ur_custodian :: "uuid option"
  ur_tag :: pgtext
  ur_description :: pgtext
  ur_type :: identifier_type
  ur_value :: "pgtext option"
  ur_unreadable :: "pgtext option"

record line_request =
  lq_po_line :: "uuid option"
  lq_generation :: int
  lq_item :: uuid
  lq_quantity :: numeric
  lq_uom :: uom
  lq_condition :: condition
  lq_packing :: "numeric option"
  lq_notes :: "pgtext option"
  lq_unit :: "unit_request option"

record receipt_request =
  rq_header :: receipt_row
  rq_comparators :: "uuid list"
  rq_bindings :: "(uuid \<times> int) list"
  rq_lines :: "line_request list"
  rq_reconcile :: bool

section \<open>Headers and comparators\<close>

definition header :: "ctx \<Rightarrow> fleet \<Rightarrow> uuid \<Rightarrow> failure + receipt_row" where
  "header x db i =
     from_option (Py ReceivingNotFound) (List.find (\<lambda>r. visible x (rc_org r) \<and> rc_id r = i) (receipts db))"

definition lock_receipt :: "ctx \<Rightarrow> fleet \<Rightarrow> uuid \<Rightarrow> failure + receipt_row" where
  "lock_receipt x db i =
     rbind (header x db i) (\<lambda>_.
       map_error Db (case x_org x of None \<Rightarrow> Inl E23503 | Some org \<Rightarrow> lock_receiving_context x db org i))"

definition completed :: "ctx \<Rightarrow> fleet \<Rightarrow> uuid \<Rightarrow> bool" where
  "completed x db i \<longleftrightarrow> (\<exists>f \<in> set (receipt_reconciliations db). visible x (rr_org f) \<and> rr_receipt f = i)"

definition require_open :: "ctx \<Rightarrow> fleet \<Rightarrow> uuid \<Rightarrow> failure + unit" where
  "require_open x db i = ensure (\<not> completed x db i) (Py ReceivingConflict) (Inr ())"

definition comparator :: "ctx \<Rightarrow> fleet \<Rightarrow> uuid \<Rightarrow> failure + po_line_row" where
  "comparator x db i =
     from_option (Py ReceivingInvalid)
       (map_option (effective_po_line db)
          (List.find (\<lambda>l. visible x (pl_org l) \<and> pl_id l = i) (purchase_order_lines db)))"

definition bind_comparator ::
  "(nat \<Rightarrow> uuid) \<Rightarrow> ctx \<Rightarrow> receipt_row \<Rightarrow> uuid \<Rightarrow> int \<Rightarrow> uuid option \<Rightarrow> work \<Rightarrow> failure + work" where
  "bind_comparator uuid7 x h line expected correction w =
     ensure (rc_po h \<noteq> None) (Py ReceivingInvalid)
       (if \<exists>c \<in> set (receipt_comparators (w_db w)). visible x (cm_org c) \<and> cm_receipt c = rc_id h \<and> cm_po_line c = line
        then Inr w
        else
          (let source = latest_by k_generation
                 (filter (\<lambda>k. visible x (k_org k) \<and> k_root k = line \<and> k_role k = CORRECTED)
                   (purchase_order_line_corrections (w_db w)));
               actual = (case source of None \<Rightarrow> 0 | Some k \<Rightarrow> k_generation k);
               (i, w') = draw uuid7 w in
           ensure (actual = expected) (Py ReceivingConflict)
             (exec (insert_comparator x
                \<lparr>cm_id = i, cm_org = rc_org h, cm_receipt = rc_id h, cm_po_line = line, cm_generation = expected,
                 cm_source = map_option k_id source, cm_introduced_by = correction, cm_actor = 0,
                 cm_occurred = At 0\<rparr>) w')))"

section \<open>Exceptions\<close>

definition record_exception ::
  "(nat \<Rightarrow> uuid) \<Rightarrow> ctx \<Rightarrow> receipt_row \<Rightarrow> receipt_line_row option \<Rightarrow> uuid option \<Rightarrow> uuid option \<Rightarrow> exception_kind
   \<Rightarrow> work \<Rightarrow> failure + work" where
  "record_exception uuid7 x h line po_line conflicting kind w =
     (let (i, w') = draw uuid7 w in
      exec (insert_exception x
        \<lparr>xc_id = i, xc_org = rc_org h, xc_type = kind, xc_receipt = rc_id h,
         xc_line = map_option rl_id line,
         xc_po_line = (case line of None \<Rightarrow> po_line | Some l \<Rightarrow> rl_po_line l),
         xc_asset = (case line of
                       None \<Rightarrow> None
                     | Some l \<Rightarrow> if kind \<in> {QUANTITY_VARIANCE, SERIAL_MISMATCH} then None else rl_asset l),
         xc_conflicting = conflicting, xc_evaluation = None, xc_actor = 0, xc_occurred = At 0\<rparr>) w')"

text \<open>\<open>_line_exceptions\<close> derives the kinds, then records them in this order.\<close>

definition line_kinds :: "ctx \<Rightarrow> fleet \<Rightarrow> receipt_line_row \<Rightarrow> bool \<Rightarrow> uuid option \<Rightarrow> failure + exception_kind list" where
  "line_kinds x db l unreadable conflict =
     rbind (case rl_po_line l of
              None \<Rightarrow> Inr None
            | Some q \<Rightarrow> rbind (comparator x db q) (\<lambda>p. Inr (Some (pl_item p, pl_uom p)))) (\<lambda>expected.
       Inr (comparator_kinds (rl_po_line l) (rl_item l) (rl_uom l) expected @ condition_kind (rl_condition l)
            @ packing_kind (rl_packing_quantity l) (rl_quantity l)
            @ (if unreadable then [SERIAL_UNREADABLE] else [])
            @ (if conflict \<noteq> None then [SERIAL_MISMATCH] else [])))"

definition line_exceptions ::
  "(nat \<Rightarrow> uuid) \<Rightarrow> ctx \<Rightarrow> receipt_row \<Rightarrow> receipt_line_row \<Rightarrow> bool \<Rightarrow> uuid option \<Rightarrow> work \<Rightarrow> failure + work" where
  "line_exceptions uuid7 x h l unreadable conflict w =
     rbind (line_kinds x (w_db w) l unreadable conflict) (\<lambda>kinds.
       fold_result (\<lambda>k. record_exception uuid7 x h (Some l) None (if k = SERIAL_MISMATCH then conflict else None) k)
         kinds w)"

section \<open>Lines\<close>

definition request_row :: "receipt_row \<Rightarrow> line_request \<Rightarrow> uuid \<Rightarrow> receipt_line_row" where
  "request_row h q i =
     \<lparr>rl_id = i, rl_org = rc_org h, rl_receipt = rc_id h, rl_po_line = lq_po_line q, rl_item = lq_item q,
      rl_quantity = lq_quantity q, rl_uom = lq_uom q, rl_condition = lq_condition q,
      rl_packing_quantity = lq_packing q, rl_notes = lq_notes q, rl_serialized = False,
      rl_owner = (case lq_unit q of None \<Rightarrow> None | Some u \<Rightarrow> ur_owner u),
      rl_custodian = (case lq_unit q of None \<Rightarrow> None | Some u \<Rightarrow> ur_custodian u),
      rl_asset = None, rl_observed = None, rl_actor = 0, rl_occurred = At 0\<rparr>"

definition known_holder :: "ctx \<Rightarrow> fleet \<Rightarrow> unit_request \<Rightarrow> uuid option" where
  "known_holder x db u =
     (case ur_value u of
        None \<Rightarrow> None
      | Some v \<Rightarrow> map_option id_asset
          (List.find (\<lambda>d. visible x (id_org d) \<and> id_type d = ur_type u \<and> id_value d = Some v) (asset_identifiers db)))"

definition party_known :: "ctx \<Rightarrow> fleet \<Rightarrow> uuid option \<Rightarrow> bool" where
  "party_known x db p \<longleftrightarrow> holds_if (\<lambda>i. \<exists>r \<in> set (parties db). visible x (pa_org r) \<and> pa_id r = i) p"

text \<open>An ordinary \<open>INSERT\<close> of a line leaves the Actor to its default.\<close>

definition plain_line :: "ctx \<Rightarrow> receipt_line_row \<Rightarrow> fleet \<Rightarrow> sqlstate + (receipt_line_row \<times> fleet)" where
  "plain_line x l db =
     rbind (current_authenticated_actor x db) (\<lambda>performer. insert_receipt_line x (l\<lparr>rl_actor := performer\<rparr>) db)"

definition record_line ::
  "(nat \<Rightarrow> uuid) \<Rightarrow> ctx \<Rightarrow> receipt_row \<Rightarrow> line_request \<Rightarrow> work \<Rightarrow> failure + work" where
  "record_line uuid7 x h q w0 =
     rbind (case lq_po_line q of
              None \<Rightarrow> Inr w0 | Some p \<Rightarrow> bind_comparator uuid7 x h p (lq_generation q) None w0) (\<lambda>w.
     rbind (from_option (Py ReceivingInvalid)
              (List.find (\<lambda>t. visible x (it_org t) \<and> it_id t = lq_item q) (items (w_db w)))) (\<lambda>item.
     ensure (it_serialized item = (lq_unit q \<noteq> None)) (Py ReceivingInvalid)
    (ensure (it_serialized item \<longrightarrow> lq_quantity q = Num 1) (Py ReceivingInvalid)
      (let (i, w1) = draw uuid7 w; fields = request_row h q i in
       case lq_unit q of
         None \<Rightarrow>
           rbind (exec_row (plain_line x fields) w1) (\<lambda>(l, w2).
             line_exceptions uuid7 x h l False None w2)
       | Some u \<Rightarrow>
           ensure (party_known x (w_db w1) (ur_owner u) \<and> party_known x (w_db w1) (ur_custodian u)) (Py ReceivingInvalid)
             (let conflict = known_holder x (w_db w1) u in
              if conflict \<noteq> None then
                rbind (exec_row (plain_line x (fields\<lparr>rl_observed := Some (ur_type u, the (ur_value u))\<rparr>)) w1)
                  (\<lambda>(l, w2). line_exceptions uuid7 x h l False conflict w2)
              else
                (let (a, w2) = draw uuid7 w1; (d, w3) = draw uuid7 w2; (t, w4) = draw uuid7 w3 in
                 rbind (exec_row (create_received_unit x fields
                          \<lparr>uf_asset = a, uf_tag = ur_tag u, uf_description = ur_description u, uf_identifier = d,
                           uf_type = ur_type u, uf_value = ur_value u, uf_unreadable = ur_unreadable u,
                           uf_transition = t\<rparr>) w4) (\<lambda>(l, w5).
                   line_exceptions uuid7 x h l (ur_value u = None) None w5)))))))"

section \<open>Reconciliation\<close>

definition close_comparator ::
  "(nat \<Rightarrow> uuid) \<Rightarrow> ctx \<Rightarrow> receipt_row \<Rightarrow> po_line_row \<Rightarrow> work \<Rightarrow> failure + work" where
  "close_comparator uuid7 x h p w =
     (let ls = filter (\<lambda>l. visible x (rl_org l) \<and> rl_receipt l = rc_id h \<and> rl_po_line l = Some (pl_id p))
            (receipt_lines (w_db w)) in
      case quantity_kind (map rl_quantity ls) (map rl_uom ls) (pl_quantity p) (pl_uom p) of
        None \<Rightarrow> Inr w
      | Some k \<Rightarrow> record_exception uuid7 x h None (Some (pl_id p)) None k w)"

definition reconcile_population :: "(nat \<Rightarrow> uuid) \<Rightarrow> ctx \<Rightarrow> receipt_row \<Rightarrow> work \<Rightarrow> failure + work" where
  "reconcile_population uuid7 x h w =
     rbind (require_open x (w_db w) (rc_id h)) (\<lambda>_.
       let (i, w1) = draw uuid7 w in
       rbind (exec (insert_reconciliation x
                \<lparr>rr_id = i, rr_org = rc_org h, rr_receipt = rc_id h, rr_actor = 0, rr_occurred = At 0\<rparr>) w1) (\<lambda>w2.
         fold_result (close_comparator uuid7 x h)
           (filter (\<lambda>p. visible x (pl_org p)) (comparator_targets (w_db w2) (rc_org h) (rc_id h))) w2))"

section \<open>Calls\<close>

record receipt_view =
  vw_header :: receipt_row
  vw_reconciled :: bool
  vw_comparators :: "uuid list"
  vw_bindings :: "(uuid \<times> int \<times> uuid option) list"
  vw_lines :: "receipt_line_row list"
  vw_exceptions :: "exception_row list"

definition view_receipt :: "ctx \<Rightarrow> fleet \<Rightarrow> uuid \<Rightarrow> failure + receipt_view" where
  "view_receipt x db i =
     rbind (header x db i) (\<lambda>h.
       let bound = sort_key cm_id (filter (\<lambda>c. visible x (cm_org c) \<and> cm_receipt c = i) (receipt_comparators db)) in
       Inr \<lparr>vw_header = h, vw_reconciled = completed x db i, vw_comparators = map cm_po_line bound,
            vw_bindings = map (\<lambda>c. (cm_po_line c, cm_generation c, cm_source c)) bound,
            vw_lines = sort_key rl_id (filter (\<lambda>l. visible x (rl_org l) \<and> rl_receipt l = i) (receipt_lines db)),
            vw_exceptions = sort_key xc_id
              (filter (\<lambda>e. visible x (xc_org e) \<and> xc_receipt e = i) (receiving_exceptions db))\<rparr>)"

text \<open>Every call ends with the completeness check and the reading of its receipt.\<close>

definition finish_call ::
  "ctx \<Rightarrow> fleet \<Rightarrow> uuid \<Rightarrow> failure + work \<Rightarrow> py_error + (receipt_view \<times> fleet)" where
  "finish_call x old i m =
     map_error (translate receiving_error)
       (rbind m (\<lambda>w.
          rbind (map_error Db (validate_complete old (w_db w))) (\<lambda>_.
            rbind (view_receipt x (w_db w) i) (\<lambda>v. Inr (v, w_db w)))))"

definition add_line ::
  "(nat \<Rightarrow> uuid) \<Rightarrow> ctx \<Rightarrow> uuid \<Rightarrow> line_request \<Rightarrow> fleet \<Rightarrow> py_error + (receipt_view \<times> fleet)" where
  "add_line uuid7 x i q db =
     finish_call x db i
       (rbind (lock_receipt x db i) (\<lambda>h.
          rbind (require_open x db i) (\<lambda>_. record_line uuid7 x h q \<lparr>w_draws = 0, w_db = db\<rparr>)))"

definition reconcile_receipt ::
  "(nat \<Rightarrow> uuid) \<Rightarrow> ctx \<Rightarrow> uuid \<Rightarrow> fleet \<Rightarrow> py_error + (receipt_view \<times> fleet)" where
  "reconcile_receipt uuid7 x i db =
     finish_call x db i
       (rbind (lock_receipt x db i) (\<lambda>h. reconcile_population uuid7 x h \<lparr>w_draws = 0, w_db = db\<rparr>))"

definition fill_receipt ::
  "(nat \<Rightarrow> uuid) \<Rightarrow> ctx \<Rightarrow> receipt_request \<Rightarrow> receipt_row \<Rightarrow> work \<Rightarrow> failure + work" where
  "fill_receipt uuid7 x q h w =
     rbind (fold_result (\<lambda>t. bind_comparator uuid7 x h t 0 None) (rq_comparators q) w) (\<lambda>w1.
       rbind (fold_result (\<lambda>(t, g). bind_comparator uuid7 x h t g None) (rq_bindings q) w1) (\<lambda>w2.
         rbind (fold_result (record_line uuid7 x h) (rq_lines q) w2) (\<lambda>w3.
           if rq_reconcile q then reconcile_population uuid7 x h w3 else Inr w3)))"

definition create_receipt ::
  "(nat \<Rightarrow> uuid) \<Rightarrow> ctx \<Rightarrow> uuid \<Rightarrow> receipt_request \<Rightarrow> fleet \<Rightarrow> py_error + (receipt_view \<times> fleet)" where
  "create_receipt uuid7 x org q db =
     (let (i, w) = draw uuid7 \<lparr>w_draws = 0, w_db = db\<rparr> in
      finish_call x db i
        (rbind (exec_row (insert_receipt x ((rq_header q)\<lparr>rc_id := i, rc_org := org\<rparr>)) w) (\<lambda>(h, w1).
           fill_receipt uuid7 x q h w1)))"

definition get_receipt :: "ctx \<Rightarrow> fleet \<Rightarrow> uuid \<Rightarrow> py_error + receipt_view" where
  "get_receipt x db i = map_error (translate receiving_error) (view_receipt x db i)"

definition list_receipts :: "ctx \<Rightarrow> fleet \<Rightarrow> py_error + receipt_view list" where
  "list_receipts x db =
     map_result (get_receipt x db) (sort (map rc_id (filter (\<lambda>r. visible x (rc_org r)) (receipts db))))"

end
