(* ===== verification/ReceivingOps.thy ===== *)
theory ReceivingOps
  imports ReceivingService
begin

text \<open>
  What every statement of receiving does to the tables it writes, and the decomposition of a call
  into such statements followed by the completeness check.  The locale \<open>line_statements\<close> proves once
  that recording a line keeps whatever each of its statements keeps.
\<close>

section \<open>Statements\<close>

lemma lock_Inr:
  assumes "lock_receiving_context x db org i = Inr r"
  shows "visible x org" "find_receipt db org i = Some r" "rc_org r = org" "rc_id r = i" "r \<in> set (receipts db)"
  using assms
  by (auto simp: lock_receiving_context_def find_receipt_def result_simps split: if_splits dest!: find_Some_in)

lemma admit_Inr:
  assumes "admit_comparator db r l = Inr u"
  obtains p q where "find_expectation db (rc_org r) l = Some p" "rc_po r = Some (pl_po p)"
    "q \<in> set (purchase_orders db)" "po_org q = rc_org r" "po_id q = pl_po p" "po_status q = ISSUED"
    "\<forall>s \<in> set (purchase_order_lines db). \<not> (pl_org s = rc_org r \<and> pl_supersedes s = Some (pl_id p))"
proof -
  obtain p where "find_expectation db (rc_org r) l = Some p" "rc_po r = Some (pl_po p)"
    using assms by (auto simp: admit_comparator_def result_simps split: option.splits if_splits)
  then show ?thesis using assms that by (auto simp: admit_comparator_def result_simps)
qed

lemma insert_receipt_Inr:
  assumes "insert_receipt x new db = Inr (r, db')"
  shows "db' = db\<lparr>receipts := receipts db @ [r]\<rparr>" "\<forall>q \<in> set (receipts db). rc_id q \<noteq> rc_id r"
    "visible x (rc_org r)" "rc_id r = rc_id new" "rc_org r = rc_org new" "rc_po r = rc_po new" "rc_dock r = rc_dock new"
    "rc_received_at r = rc_received_at new"
  using assms by (auto simp: insert_receipt_def Let_def result_simps)

lemma insert_comparator_Inr:
  assumes "insert_comparator x new db = Inr db'"
  obtains c r where "db' = db\<lparr>receipt_comparators := receipt_comparators db @ [c]\<rparr>"
    "cm_org c = cm_org new" "cm_receipt c = cm_receipt new" "cm_po_line c = cm_po_line new"
    "cm_introduced_by c = cm_introduced_by new" "cm_generation c = cm_generation new"
    "lock_receiving_context x db (cm_org c) (cm_receipt c) = Inr r" "admit_comparator db r (cm_po_line c) = Inr ()"
    "cm_introduced_by c = None \<Longrightarrow> \<not> reconciled db (cm_org c) (cm_receipt c)"
    "\<forall>d \<in> set (receipt_comparators db). \<not> (cm_org d = cm_org c \<and> cm_receipt d = cm_receipt c \<and> cm_po_line d = cm_po_line c)"
    "cm_generation c = generation_of (cm_org c) (cm_po_line c) (purchase_order_line_corrections db)"
proof -
  obtain performer c where g: "guard_comparator x db (new\<lparr>cm_actor := performer\<rparr>) = Inr c"
    and unique: "\<forall>d \<in> set (receipt_comparators db). cm_id d \<noteq> cm_id c
      \<and> \<not> (cm_org d = cm_org c \<and> cm_receipt d = cm_receipt c \<and> cm_po_line d = cm_po_line c)"
    and db': "Inr (db\<lparr>receipt_comparators := receipt_comparators db @ [c]\<rparr>) = (Inr db' :: sqlstate + fleet)"
    using assms unfolding insert_comparator_def rbind_Inr_iff ensure_Inr_iff by blast
  obtain r where r: "lock_receiving_context x db (cm_org new) (cm_receipt new) = Inr r"
    and opened: "introduced_now x db (new\<lparr>cm_actor := performer\<rparr>) \<or> \<not> reconciled db (cm_org new) (cm_receipt new)"
    and admit: "admit_comparator db r (cm_po_line new) = Inr ()"
    and gen: "cm_generation new = generation_of (cm_org new) (cm_po_line new) (purchase_order_line_corrections db)"
    and c: "c = new\<lparr>cm_actor := performer, cm_occurred := rc_received_at r\<rparr>"
    using g unfolding guard_comparator_def rbind_Inr_iff ensure_Inr_iff by auto
  show ?thesis
  proof (rule that [of c r])
    show "db' = db\<lparr>receipt_comparators := receipt_comparators db @ [c]\<rparr>" using db' by simp
    show "\<not> reconciled db (cm_org c) (cm_receipt c)" if "cm_introduced_by c = None"
      using opened that by (simp add: c introduced_now_def)
    show "\<forall>d \<in> set (receipt_comparators db).
        \<not> (cm_org d = cm_org c \<and> cm_receipt d = cm_receipt c \<and> cm_po_line d = cm_po_line c)"
      using unique by blast
  qed (use r admit gen in \<open>simp_all add: c\<close>)
qed

lemma insert_receipt_line_Inr:
  assumes "insert_receipt_line x new db = Inr (l, db')"
  obtains r t where "db' = db\<lparr>receipt_lines := receipt_lines db @ [l]\<rparr>"
    "lock_receiving_context x db (rl_org l) (rl_receipt l) = Inr r" "\<not> reconciled db (rl_org l) (rl_receipt l)"
    "rl_po_line l \<noteq> None \<Longrightarrow> admit_comparator db r (the (rl_po_line l)) = Inr ()"
    "t \<in> set (items db)" "it_org t = rl_org l" "it_id t = rl_item l"
    "l = new\<lparr>rl_occurred := rc_received_at r, rl_serialized := it_serialized t\<rparr>"
    "rl_serialized l \<Longrightarrow> rl_quantity l = Num 1"
    "\<forall>k \<in> set (receipt_lines db). rl_id k \<noteq> rl_id l \<and> \<not> (rl_asset l \<noteq> None \<and> rl_org k = rl_org l \<and> rl_asset k = rl_asset l)"
    "receipt_line_check l" "receipt_line_refs db l" "holds_if (received_asset db r l) (rl_asset l)"
proof -
  have g: "guard_receipt_line x db new = Inr l"
    and rest: "receipt_line_check l" "receipt_line_refs db l"
    "\<forall>k \<in> set (receipt_lines db). rl_id k \<noteq> rl_id l \<and> \<not> (rl_asset l \<noteq> None \<and> rl_org k = rl_org l \<and> rl_asset k = rl_asset l)"
    "db' = db\<lparr>receipt_lines := receipt_lines db @ [l]\<rparr>"
    using assms unfolding insert_receipt_line_def rbind_Inr_iff ensure_Inr_iff by auto
  obtain r t where r: "lock_receiving_context x db (rl_org new) (rl_receipt new) = Inr r"
    and opened: "\<not> reconciled db (rl_org new) (rl_receipt new)"
    and admit: "(case rl_po_line new of None \<Rightarrow> Inr () | Some p \<Rightarrow> admit_comparator db r p) = Inr ()"
    and t: "List.find (\<lambda>t. it_org t = rl_org new \<and> it_id t = rl_item new) (items db) = Some t"
    and one: "it_serialized t \<longrightarrow> rl_quantity new = Num 1"
    and asset: "holds_if (received_asset db r l) (rl_asset l)"
    and l: "l = new\<lparr>rl_occurred := rc_received_at r, rl_serialized := it_serialized t\<rparr>"
    using g unfolding guard_receipt_line_def rbind_Inr_iff ensure_Inr_iff Let_def from_option_Inr_iff by auto
  have item: "t \<in> set (items db)" "it_org t = rl_org new" "it_id t = rl_item new" using find_Some_in [OF t] by auto
  show ?thesis
  proof (rule that [of r t])
    show "admit_comparator db r (the (rl_po_line l)) = Inr ()" if "rl_po_line l \<noteq> None" using admit that by (auto simp: l)
  qed (use r opened one asset item rest in \<open>simp_all add: l\<close>)
qed

lemma insert_exception_Inr:
  assumes "insert_exception x new db = Inr db'"
  obtains e where
    "db' = db\<lparr>receiving_exceptions := receiving_exceptions db @ [e],
              exception_workflows := exception_workflows db @ [opened_workflow e]\<rparr>"
    "xc_id e = xc_id new" "exception_disagreement e = exception_disagreement new" "xc_org e = xc_org new"
    "xc_receipt e = xc_receipt new" "xc_evaluation e = xc_evaluation new"
    "exception_supported db e = Inr ()" "exception_shape e" "exception_refs db e"
    "\<forall>d \<in> set (receiving_exceptions db). xc_id d \<noteq> xc_id e \<and> \<not> same_exception d e"
    "initialize_exception_workflow x e (db\<lparr>receiving_exceptions := receiving_exceptions db @ [e]\<rparr>) = Inr db'"
proof -
  obtain performer occurred where "(let e = new\<lparr>xc_actor := performer, xc_occurred := occurred\<rparr> in
         rbind (exception_supported db e) (\<lambda>_.
           ensure (visible x (xc_org e)) E42501
             (ensure (isfinite (xc_occurred e) \<and> exception_shape e) E23514
               (ensure (\<forall>d \<in> set (receiving_exceptions db). xc_id d \<noteq> xc_id e \<and> \<not> same_exception d e) E23505
                 (ensure (exception_refs db e) E23503
                   (rbind (initialize_exception_workflow x e
                             (db\<lparr>receiving_exceptions := receiving_exceptions db @ [e]\<rparr>)) (\<lambda>db'.
                      rbind (enforce_authenticated_creator x db' (xc_actor e) None) (\<lambda>_. Inr db')))))))) = Inr db'"
    using assms unfolding insert_exception_def rbind_Inr_iff by blast
  moreover define e where "e = new\<lparr>xc_actor := performer, xc_occurred := occurred\<rparr>"
  ultimately have step: "rbind (exception_supported db e) (\<lambda>_.
           ensure (visible x (xc_org e)) E42501
             (ensure (isfinite (xc_occurred e) \<and> exception_shape e) E23514
               (ensure (\<forall>d \<in> set (receiving_exceptions db). xc_id d \<noteq> xc_id e \<and> \<not> same_exception d e) E23505
                 (ensure (exception_refs db e) E23503
                   (rbind (initialize_exception_workflow x e
                             (db\<lparr>receiving_exceptions := receiving_exceptions db @ [e]\<rparr>)) (\<lambda>db'.
                      rbind (enforce_authenticated_creator x db' (xc_actor e) None) (\<lambda>_. Inr db'))))))) = Inr db'"
    by (simp add: Let_def)
  have rest: "exception_supported db e = Inr ()" "exception_shape e" "exception_refs db e"
    "\<forall>d \<in> set (receiving_exceptions db). xc_id d \<noteq> xc_id e \<and> \<not> same_exception d e"
    "initialize_exception_workflow x e (db\<lparr>receiving_exceptions := receiving_exceptions db @ [e]\<rparr>) = Inr db'"
    using step unfolding rbind_Inr_iff ensure_Inr_iff by auto
  have "db' = db\<lparr>receiving_exceptions := receiving_exceptions db @ [e],
              exception_workflows := exception_workflows db @ [opened_workflow e]\<rparr>"
    using rest(5) by (auto simp: initialize_exception_workflow_def result_simps)
  then show ?thesis using rest
    by (intro that [of e]) (simp_all add: \<open>e = _\<close> exception_disagreement_def)
qed

lemma insert_reconciliation_Inr:
  assumes "insert_reconciliation x new db = Inr db'"
  obtains f where "db' = db\<lparr>receipt_reconciliations := receipt_reconciliations db @ [f]\<rparr>"
    "rr_org f = rr_org new" "rr_receipt f = rr_receipt new" "\<not> reconciled db (rr_org f) (rr_receipt f)"
    "visible x (rr_org f)" "receipt_exists db (rr_org f) (rr_receipt f)"
proof -
  obtain performer and r :: receipt_row where "(let f = new\<lparr>rr_actor := performer, rr_occurred := rc_received_at r\<rparr> in
         ensure (\<not> reconciled db (rr_org f) (rr_receipt f)) E23514
           (ensure (visible x (rr_org f)) E42501
             (ensure (isfinite (rr_occurred f)) E23514
               (ensure (\<forall>g \<in> set (receipt_reconciliations db). rr_id g \<noteq> rr_id f) E23505
                 (ensure (rr_org f \<in> set (organizations db) \<and> actor_exists db (rr_org f) (rr_actor f)
                          \<and> receipt_exists db (rr_org f) (rr_receipt f)) E23503
                   (rbind (enforce_authenticated_creator x db (rr_actor f) None) (\<lambda>_.
                     Inr (db\<lparr>receipt_reconciliations := receipt_reconciliations db @ [f]\<rparr>)))))))) = Inr db'"
    using assms unfolding insert_reconciliation_def rbind_Inr_iff by (elim exE conjE) (rule that)
  then show ?thesis
    by (intro that [of "new\<lparr>rr_actor := performer, rr_occurred := rc_received_at r\<rparr>"])
       (auto simp: Let_def ensure_Inr_iff rbind_Inr_iff)
qed

lemma create_received_unit_Inr:
  assumes "create_received_unit x l u db = Inr (k, db')"
  obtains org performer r a d db1 where "x_org x = Some org"
    "lock_receiving_context x db org (rl_receipt l) = Inr r" "\<not> reconciled db org (rl_receipt l)"
    "unit_admissible db r l" "a = new_asset x org (uf_asset u) (rl_item l) (uf_tag u) (uf_description u) (rl_owner l)
       (rl_custodian l) (rc_dock r) performer"
    "create_unit_facts x a (rc_received_at r) (uf_transition u) d db = Inr db1"
    "id_asset d = uf_asset u" "id_org d = org"
    "insert_receipt_line x (l\<lparr>rl_org := org, rl_asset := Some (uf_asset u), rl_observed := None,
       rl_actor := performer\<rparr>) db1 = Inr (k, db')"
proof -
  obtain org where org: "x_org x = Some org" using assms by (auto simp: create_received_unit_def split: option.splits)
  show ?thesis
    using assms unfolding create_received_unit_def org option.case rbind_Inr_iff ensure_Inr_iff
    by (elim exE conjE) (rule that [OF org], assumption+, rule refl, assumption, simp, simp, assumption)
qed

section \<open>Calls as sequences of statements\<close>

inductive receiving_op :: "ctx \<Rightarrow> fleet \<Rightarrow> fleet \<Rightarrow> bool" for x :: ctx where
  receipt: "insert_receipt x r db = Inr (r', db') \<Longrightarrow> receiving_op x db db'"
| comparator: "insert_comparator x c db = Inr db' \<Longrightarrow> cm_introduced_by c = None \<Longrightarrow> receiving_op x db db'"
| line: "insert_receipt_line x l db = Inr (l', db') \<Longrightarrow> rl_asset l = None \<Longrightarrow> receiving_op x db db'"
| unit: "create_received_unit x l u db = Inr (l', db') \<Longrightarrow> receiving_op x db db'"
| exception: "insert_exception x e db = Inr db' \<Longrightarrow> xc_evaluation e = None \<Longrightarrow> receiving_op x db db'"
| reconciliation: "insert_reconciliation x f db = Inr db' \<Longrightarrow> receiving_op x db db'"

definition ops :: "ctx \<Rightarrow> fleet \<Rightarrow> fleet \<Rightarrow> bool" where
  "ops x = (receiving_op x)\<^sup>*\<^sup>*"

lemma ops_refl [simp]: "ops x db db"
  by (simp add: ops_def)

lemma ops_trans: "ops x a b \<Longrightarrow> ops x b c \<Longrightarrow> ops x a c"
  by (simp add: ops_def)

lemma op_ops: "receiving_op x a b \<Longrightarrow> ops x a b"
  by (simp add: ops_def)

lemma exec_ops: "exec f w = Inr w' \<Longrightarrow> (\<And>db'. f (w_db w) = Inr db' \<Longrightarrow> receiving_op x (w_db w) db') \<Longrightarrow> ops x (w_db w) (w_db w')"
  by (auto simp: exec_def result_simps intro: op_ops)

lemma draw_db [simp]: "w_db (snd (draw u w)) = w_db w"
  by (simp add: draw_def)

text \<open>
  Recording a line runs these statements: it binds a comparator, inserts a line (with its unit) and
  adds exceptions of the line.  Whatever each of them keeps, the whole keeps.
\<close>

locale line_statements =
  fixes x :: ctx and kept :: "fleet \<Rightarrow> fleet \<Rightarrow> bool"
  assumes same: "kept db db"
    and trans: "kept d1 d2 \<Longrightarrow> kept d2 d3 \<Longrightarrow> kept d1 d3"
    and comparator: "insert_comparator x c db = Inr db' \<Longrightarrow> cm_introduced_by c = None \<Longrightarrow> kept db db'"
    and line: "insert_receipt_line x l db = Inr (l', db') \<Longrightarrow> rl_asset l = None \<Longrightarrow> kept db db'"
    and unit: "create_received_unit x l u db = Inr (l', db') \<Longrightarrow> kept db db'"
    and exception: "insert_exception x e db = Inr db' \<Longrightarrow> xc_evaluation e = None \<Longrightarrow> xc_line e \<noteq> None \<Longrightarrow> kept db db'"
begin

lemma fold_kept:
  assumes "fold_result f xs w = Inr w'" "\<And>y w w'. y \<in> set xs \<Longrightarrow> f y w = Inr w' \<Longrightarrow> kept (w_db w) (w_db w')"
  shows "kept (w_db w) (w_db w')"
  using assms
proof (induction xs arbitrary: w)
  case (Cons y ys)
  obtain v where "f y w = Inr v" "fold_result f ys v = Inr w'" using Cons.prems(1) by (auto simp: result_simps)
  then show ?case using Cons.IH [of v] Cons.prems(2) by (meson list.set_intros trans)
qed (simp add: same)

lemma record_exception_kept:
  "record_exception u x h (Some l) p c k w = Inr w' \<Longrightarrow> kept (w_db w) (w_db w')"
  by (auto simp: record_exception_def draw_def exec_def result_simps intro!: exception)

lemma its_exceptions_kept: "line_exceptions u x h l b c w = Inr w' \<Longrightarrow> kept (w_db w) (w_db w')"
  unfolding line_exceptions_def rbind_Inr_iff
  by (elim exE conjE) (erule fold_kept, erule record_exception_kept)

lemma bind_comparator_kept: "bind_comparator u x h t g None w = Inr w' \<Longrightarrow> kept (w_db w) (w_db w')"
  by (auto simp: bind_comparator_def draw_def exec_def Let_def result_simps split: if_splits
      intro!: comparator same)

lemma plain_line_kept: "plain_line x l db = Inr (k, db') \<Longrightarrow> rl_asset l = None \<Longrightarrow> kept db db'"
  by (auto simp: plain_line_def result_simps intro: line)

lemma line_continuation:
  assumes "rbind (exec_row f w) (\<lambda>(l, v). line_exceptions u x h l b c v) = Inr w'"
    and "\<And>l db. f (w_db w) = Inr (l, db) \<Longrightarrow> kept (w_db w) db"
  shows "kept (w_db w) (w_db w')"
proof -
  obtain l db where "f (w_db w) = Inr (l, db)" "line_exceptions u x h l b c (w\<lparr>w_db := db\<rparr>) = Inr w'"
    using assms(1) by (auto simp: exec_row_def result_simps)
  then show ?thesis using assms(2) its_exceptions_kept [of u h l b c "w\<lparr>w_db := db\<rparr>" w'] by (auto intro: trans)
qed

lemma record_line_kept:
  assumes "record_line u x h q w = Inr w'"
  shows "kept (w_db w) (w_db w')"
proof -
  obtain w1 item where b: "(case lq_po_line q of None \<Rightarrow> Inr w | Some p \<Rightarrow> bind_comparator u x h p (lq_generation q) None w) = Inr w1"
    and rest: "(let (i, w1) = draw u w1; fields = request_row h q i in
       case lq_unit q of
         None \<Rightarrow>
           rbind (exec_row (plain_line x fields) w1) (\<lambda>(l, w2).
             line_exceptions u x h l False None w2)
       | Some v \<Rightarrow>
           ensure (party_known x (w_db w1) (ur_owner v) \<and> party_known x (w_db w1) (ur_custodian v)) (Py ReceivingInvalid)
             (let conflict = known_holder x (w_db w1) v in
              if conflict \<noteq> None then
                rbind (exec_row (plain_line x (fields\<lparr>rl_observed := Some (ur_type v, the (ur_value v))\<rparr>)) w1)
                  (\<lambda>(l, w2). line_exceptions u x h l False conflict w2)
              else
                (let (a, w2) = draw u w1; (d, w3) = draw u w2; (t, w4) = draw u w3 in
                 rbind (exec_row (create_received_unit x fields
                          \<lparr>uf_asset = a, uf_tag = ur_tag v, uf_description = ur_description v, uf_identifier = d,
                           uf_type = ur_type v, uf_value = ur_value v, uf_unreadable = ur_unreadable v,
                           uf_transition = t\<rparr>) w4) (\<lambda>(l, w5).
                   line_exceptions u x h l (ur_value v = None) None w5)))) = Inr w'"
    using assms unfolding record_line_def rbind_Inr_iff ensure_Inr_iff by blast
  have "kept (w_db w) (w_db w1)" using b by (auto split: option.splits intro: bind_comparator_kept same)
  moreover have "kept (w_db w1) (w_db w')"
    using rest
    by (auto simp: draw_def Let_def ensure_Inr_iff request_row_def split: option.splits if_splits
        dest!: line_continuation intro: plain_line_kept unit)
  ultimately show ?thesis by (rule trans)
qed

end

interpretation statements: line_statements x "ops x" for x
  by unfold_locales
    (auto intro: op_ops receiving_op.comparator receiving_op.line receiving_op.unit receiving_op.exception dest: ops_trans)

lemma record_exception_ops:
  "record_exception u x h l p c k w = Inr w' \<Longrightarrow> ops x (w_db w) (w_db w')"
  by (auto simp: record_exception_def draw_def exec_def result_simps intro!: op_ops receiving_op.exception)

section \<open>Exceptions of lines\<close>

text \<open>Of exceptions, the statements of a line add exceptions of lines only; they reconcile nothing.\<close>

definition line_entries :: "fleet \<Rightarrow> fleet \<Rightarrow> bool" where
  "line_entries db db' \<longleftrightarrow> receipt_reconciliations db' = receipt_reconciliations db
     \<and> (\<exists>es. receiving_exceptions db' = receiving_exceptions db @ es \<and> (\<forall>e \<in> set es. xc_line e \<noteq> None))"

lemma line_entriesI:
  "receipt_reconciliations db' = receipt_reconciliations db \<Longrightarrow> receiving_exceptions db' = receiving_exceptions db
    \<Longrightarrow> line_entries db db'"
  by (simp add: line_entries_def)

lemma line_entries_line: "insert_receipt_line x l db = Inr (k, db') \<Longrightarrow> line_entries db db'"
  by (rule insert_receipt_line_Inr, assumption) (simp add: line_entries_def)

interpretation entries: line_statements x line_entries for x
proof
  show "line_entries db db" for db by (simp add: line_entries_def)
  show "line_entries a c" if "line_entries a b" "line_entries b c" for a b c
    using that by (auto simp: line_entries_def)
  show "line_entries db db'" if "insert_comparator x c db = Inr db'" for c db db'
    by (rule insert_comparator_Inr [OF that]) (simp add: line_entries_def)
  show "line_entries db db'" if "insert_receipt_line x l db = Inr (l', db')" for l l' db db'
    using that by (rule line_entries_line)
  show "line_entries db db'" if c: "create_received_unit x l u db = Inr (l', db')" for l u l' db db'
  proof (rule create_received_unit_Inr [OF c])
    fix org performer and r :: receipt_row and a d db1
    assume create: "create_unit_facts x a (rc_received_at r) (uf_transition u) d db = Inr db1"
      and line: "insert_receipt_line x (l\<lparr>rl_org := org, rl_asset := Some (uf_asset u), rl_observed := None,
        rl_actor := performer\<rparr>) db1 = Inr (l', db')"
    have "receiving_exceptions db1 = receiving_exceptions db" "receipt_reconciliations db1 = receipt_reconciliations db"
      by (simp_all add: create_unit_facts_Inr(1) [OF create] created_db_def)
    then show "line_entries db db'" using line_entries_line [OF line] by (simp add: line_entries_def)
  qed
  show "line_entries db db'" if i: "insert_exception x e db = Inr db'" and "xc_line e \<noteq> None" for e db db'
    by (rule insert_exception_Inr [OF i]) (use that(2) in \<open>simp add: line_entries_def exception_disagreement_def\<close>)
qed

end
