(* ===== verification/ReceivingInvariant.thy ===== *)
theory ReceivingInvariant
  imports ReceivingOps
begin

text \<open>
  The invariant of receiving.  \<open>grows\<close> is what every statement of receiving, and every transaction
  elsewhere, does to the tables receiving reads; \<open>sound\<close> (every exception is grounded in the facts it
  names, none is recorded twice) is kept by all of it, \<open>complete\<close> (every exception the facts require
  is there) by whole calls.
\<close>

section \<open>What a transaction may change\<close>

definition unread :: "fleet \<Rightarrow> uuid \<Rightarrow> uuid \<Rightarrow> bool" where
  "unread db org a \<longleftrightarrow> (\<exists>d \<in> set (asset_identifiers db). id_org d = org \<and> id_asset d = a \<and> id_value d = None)"

definition names_line :: "receipt_line_row \<Rightarrow> exception_row \<Rightarrow> bool" where
  "names_line l e \<longleftrightarrow> rl_org l = xc_org e \<and> xc_line e = Some (rl_id l) \<and> rl_receipt l = xc_receipt e"

definition grounded :: "fleet \<Rightarrow> exception_row \<Rightarrow> bool" where
  "grounded db e \<longleftrightarrow>
     (if xc_evaluation e \<noteq> None
      then reconciled db (xc_org e) (xc_receipt e)
           \<and> (xc_line e \<noteq> None \<longrightarrow> (\<exists>l \<in> set (receipt_lines db). names_line l e))
      else if xc_line e \<noteq> None
      then \<exists>l \<in> set (receipt_lines db). names_line l e \<and> xc_type e \<in> set (required_kinds db l)
      else reconciled db (xc_org e) (xc_receipt e)
           \<and> (\<exists>q p. xc_po_line e = Some q \<and> compared db (xc_org e) (xc_receipt e) q
                \<and> find_expectation db (xc_org e) q = Some p
                \<and> aggregate_kind db (xc_org e) (xc_receipt e) p = Some (xc_type e)))"

definition line_grounded :: "fleet \<Rightarrow> receipt_line_row \<Rightarrow> bool" where
  "line_grounded db l \<longleftrightarrow> holds_if (compared db (rl_org l) (rl_receipt l)) (rl_po_line l)
     \<and> holds_if (asset_exists db (rl_org l)) (rl_asset l)"

definition comparator_grounded :: "fleet \<Rightarrow> comparator_row \<Rightarrow> bool" where
  "comparator_grounded db c \<longleftrightarrow> find_expectation db (cm_org c) (cm_po_line c) \<noteq> None
     \<and> (cm_introduced_by c \<noteq> None \<longrightarrow> reconciled db (cm_org c) (cm_receipt c))"

text \<open>
  Tables grow; what was recorded of a bound comparator or of an existing Asset is stable; a
  reconciled receipt admits no line and no ordinary comparator.
\<close>

definition grows :: "fleet \<Rightarrow> fleet \<Rightarrow> bool" where
  "grows db db' \<longleftrightarrow>
     (\<exists>ls es cs. receipt_lines db' = receipt_lines db @ ls
        \<and> receiving_exceptions db' = receiving_exceptions db @ es
        \<and> receipt_comparators db' = receipt_comparators db @ cs
        \<and> (\<forall>l \<in> set ls. \<not> reconciled db (rl_org l) (rl_receipt l) \<and> line_grounded db' l)
        \<and> distinct (map rl_id (receipt_lines db @ ls))
        \<and> (\<forall>e \<in> set es. grounded db' e)
        \<and> sorted_wrt (\<lambda>d e. \<not> same_exception d e)
            (filter (\<lambda>e. xc_evaluation e = None) (receiving_exceptions db @ es))
        \<and> (\<forall>c \<in> set cs. comparator_grounded db' c
             \<and> (cm_introduced_by c = None \<longrightarrow> \<not> reconciled db (cm_org c) (cm_receipt c))))
     \<and> (\<forall>org i. reconciled db org i \<longrightarrow> reconciled db' org i)
     \<and> (\<forall>c \<in> set (receipt_comparators db).
          find_expectation db' (cm_org c) (cm_po_line c) = find_expectation db (cm_org c) (cm_po_line c))
     \<and> (\<forall>org i. asset_exists db org i \<longrightarrow> asset_exists db' org i \<and> unread db' org i = unread db org i)"

definition sound :: "fleet \<Rightarrow> bool" where
  "sound db \<longleftrightarrow> distinct (map rl_id (receipt_lines db))
     \<and> (\<forall>l \<in> set (receipt_lines db). line_grounded db l)
     \<and> (\<forall>c \<in> set (receipt_comparators db). comparator_grounded db c)
     \<and> (\<forall>e \<in> set (receiving_exceptions db). grounded db e)
     \<and> sorted_wrt (\<lambda>d e. \<not> same_exception d e) (filter (\<lambda>e. xc_evaluation e = None) (receiving_exceptions db))"

lemma growsI:
  assumes "receipt_lines db' = receipt_lines db @ ls" "receiving_exceptions db' = receiving_exceptions db @ es"
    "receipt_comparators db' = receipt_comparators db @ cs"
    "\<And>l. l \<in> set ls \<Longrightarrow> \<not> reconciled db (rl_org l) (rl_receipt l)"
    "\<And>l. l \<in> set ls \<Longrightarrow> line_grounded db' l"
    "distinct (map rl_id (receipt_lines db @ ls))"
    "\<And>e. e \<in> set es \<Longrightarrow> grounded db' e"
    "sorted_wrt (\<lambda>d e. \<not> same_exception d e)
       (filter (\<lambda>e. xc_evaluation e = None) (receiving_exceptions db @ es))"
    "\<And>c. c \<in> set cs \<Longrightarrow> comparator_grounded db' c"
    "\<And>c. c \<in> set cs \<Longrightarrow> cm_introduced_by c = None \<Longrightarrow> \<not> reconciled db (cm_org c) (cm_receipt c)"
    "\<And>org i. reconciled db org i \<Longrightarrow> reconciled db' org i"
    "\<And>c. c \<in> set (receipt_comparators db) \<Longrightarrow>
       find_expectation db' (cm_org c) (cm_po_line c) = find_expectation db (cm_org c) (cm_po_line c)"
    "\<And>org i. asset_exists db org i \<Longrightarrow> asset_exists db' org i"
    "\<And>org i. asset_exists db org i \<Longrightarrow> unread db' org i = unread db org i"
  shows "grows db db'"
  unfolding grows_def
proof (intro conjI)
  show "\<exists>ls es cs. receipt_lines db' = receipt_lines db @ ls
        \<and> receiving_exceptions db' = receiving_exceptions db @ es
        \<and> receipt_comparators db' = receipt_comparators db @ cs
        \<and> (\<forall>l \<in> set ls. \<not> reconciled db (rl_org l) (rl_receipt l) \<and> line_grounded db' l)
        \<and> distinct (map rl_id (receipt_lines db @ ls))
        \<and> (\<forall>e \<in> set es. grounded db' e)
        \<and> sorted_wrt (\<lambda>d e. \<not> same_exception d e)
            (filter (\<lambda>e. xc_evaluation e = None) (receiving_exceptions db @ es))
        \<and> (\<forall>c \<in> set cs. comparator_grounded db' c
             \<and> (cm_introduced_by c = None \<longrightarrow> \<not> reconciled db (cm_org c) (cm_receipt c)))"
    by (intro exI [of _ ls] exI [of _ es] exI [of _ cs] conjI ballI impI) (use assms in blast)+
qed (use assms in blast)+

section \<open>Required kinds are stable\<close>

lemma compared_grows: "grows db db' \<Longrightarrow> compared db org i q \<Longrightarrow> compared db' org i q"
  by (auto simp: grows_def compared_def)

lemma expectation_stable:
  "grows db db' \<Longrightarrow> compared db org i q \<Longrightarrow> find_expectation db' org q = find_expectation db org q"
  by (auto simp: grows_def compared_def)

lemma required_unread:
  "required_kinds db l =
     comparator_kinds (rl_po_line l) (rl_item l) (rl_uom l)
       (case rl_po_line l of
          None \<Rightarrow> None
        | Some q \<Rightarrow> map_option (\<lambda>p. (pl_item p, pl_uom p)) (find_expectation db (rl_org l) q))
     @ condition_kind (rl_condition l) @ packing_kind (rl_packing_quantity l) (rl_quantity l)
     @ (if rl_observed l \<noteq> None then [SERIAL_MISMATCH] else [])
     @ (if \<exists>a. rl_asset l = Some a \<and> unread db (rl_org l) a then [SERIAL_UNREADABLE] else [])"
  by (auto simp: required_kinds_def unread_def split: option.splits)

lemma required_stable:
  assumes "grows db db'" "line_grounded db l"
  shows "required_kinds db' l = required_kinds db l"
proof -
  have "find_expectation db' (rl_org l) q = find_expectation db (rl_org l) q" if "rl_po_line l = Some q" for q
    using expectation_stable [OF assms(1)] assms(2) that by (auto simp: line_grounded_def)
  moreover have "unread db' (rl_org l) a = unread db (rl_org l) a" if "rl_asset l = Some a" for a
    using assms that by (auto simp: line_grounded_def grows_def)
  ultimately show ?thesis by (auto simp: required_unread split: option.splits)
qed

lemma reconciled_lines:
  assumes "grows db db'" "reconciled db org i"
  shows "filter (\<lambda>l. rl_org l = org \<and> rl_receipt l = i \<and> P l) (receipt_lines db')
    = filter (\<lambda>l. rl_org l = org \<and> rl_receipt l = i \<and> P l) (receipt_lines db)"
  using assms by (auto simp: grows_def filter_empty_conv)

lemma aggregate_stable:
  "grows db db' \<Longrightarrow> reconciled db org i \<Longrightarrow> aggregate_kind db' org i p = aggregate_kind db org i p"
  by (simp add: aggregate_kind_def reconciled_lines)

lemma grounded_grows:
  assumes "grows db db'" "sound db" "grounded db e"
  shows "grounded db' e"
proof -
  have lines: "set (receipt_lines db) \<subseteq> set (receipt_lines db')" using assms(1) by (auto simp: grows_def)
  have stable: "required_kinds db' l = required_kinds db l" if "l \<in> set (receipt_lines db)" for l
    using assms(1,2) that by (simp add: required_stable sound_def)
  show ?thesis
  proof (cases "xc_evaluation e = None \<and> xc_line e = None")
    case True
    then have r: "reconciled db (xc_org e) (xc_receipt e)" using assms(3) by (simp add: grounded_def)
    then have "reconciled db' (xc_org e) (xc_receipt e)" using assms(1) by (simp add: grows_def)
    then show ?thesis
      using True assms(3) by (auto simp: grounded_def aggregate_stable [OF assms(1) r] compared_grows [OF assms(1)]
          expectation_stable [OF assms(1)])
  next
    case False
    have "reconciled db org i \<Longrightarrow> reconciled db' org i" for org i using assms(1) by (simp add: grows_def)
    then show ?thesis using False assms(3) lines stable by (auto simp: grounded_def split: if_splits)
  qed
qed

lemma sound_grows:
  assumes g: "grows db db'" and s: "sound db"
  shows "sound db'"
proof -
  obtain ls es cs where t: "receipt_lines db' = receipt_lines db @ ls"
    "receiving_exceptions db' = receiving_exceptions db @ es" "receipt_comparators db' = receipt_comparators db @ cs"
    and ls: "\<forall>l \<in> set ls. line_grounded db' l" and "distinct (map rl_id (receipt_lines db @ ls))"
    and es: "\<forall>e \<in> set es. grounded db' e"
    and "sorted_wrt (\<lambda>d e. \<not> same_exception d e)
            (filter (\<lambda>e. xc_evaluation e = None) (receiving_exceptions db @ es))"
    and cs: "\<forall>c \<in> set cs. comparator_grounded db' c"
    using g by (auto simp: grows_def)
  moreover have "line_grounded db' l" if "line_grounded db l" for l
    using that g compared_grows [OF g]
    by (auto simp: line_grounded_def grows_def elim!: holds_if_mono)
  moreover have "comparator_grounded db' c" if "c \<in> set (receipt_comparators db)" for c
    using that s g by (auto simp: comparator_grounded_def sound_def grows_def)
  ultimately show ?thesis
    using s grounded_grows [OF g s] by (auto simp: sound_def)
qed

section \<open>Statements grow\<close>

lemma reconciled_snoc:
  "receipt_reconciliations db' = receipt_reconciliations db @ fs \<Longrightarrow> reconciled db org i \<Longrightarrow> reconciled db' org i"
  by (auto simp: reconciled_def)

lemma find_expectation_cong:
  "purchase_order_lines db' = purchase_order_lines db
   \<Longrightarrow> purchase_order_line_corrections db' = purchase_order_line_corrections db
   \<Longrightarrow> find_expectation db' org q = find_expectation db org q"
  by (simp add: find_expectation_def effective_po_line_def [abs_def])

lemma same_tables_grow:
  assumes "sound db" "receipt_lines db' = receipt_lines db" "receiving_exceptions db' = receiving_exceptions db"
    "receipt_comparators db' = receipt_comparators db"
    "receipt_reconciliations db' = receipt_reconciliations db @ fs"
    "purchase_order_lines db' = purchase_order_lines db"
    "purchase_order_line_corrections db' = purchase_order_line_corrections db"
    "assets db' = assets db" "asset_identifiers db' = asset_identifiers db"
  shows "grows db db'"
  by (rule growsI [where ls = "[]" and es = "[]" and cs = "[]"])
     (use assms(1) reconciled_snoc [OF assms(5)] find_expectation_cong [OF assms(6,7)]
       in \<open>simp_all add: assms(2-9) sound_def asset_exists_def unread_def\<close>)

text \<open>A statement of receiving that writes neither procurement nor Assets.\<close>

definition confined :: "fleet \<Rightarrow> fleet \<Rightarrow> bool" where
  "confined db db' \<longleftrightarrow> purchase_order_lines db' = purchase_order_lines db
     \<and> purchase_order_line_corrections db' = purchase_order_line_corrections db
     \<and> assets db' = assets db \<and> asset_identifiers db' = asset_identifiers db
     \<and> receipt_reconciliations db' = receipt_reconciliations db"

lemma confined_reads:
  assumes "confined db db'"
  shows "find_expectation db' = find_expectation db" "asset_exists db' = asset_exists db"
    "unread db' = unread db" "reconciled db' = reconciled db"
  using assms
  by (auto simp: confined_def fun_eq_iff find_expectation_def effective_po_line_def asset_exists_def unread_def
      reconciled_def intro!: arg_cong [where f = "\<lambda>f. map_option f _"])

lemma confined_required:
  "confined db db' \<Longrightarrow> required_kinds db' = required_kinds db"
  by (simp add: fun_eq_iff required_unread confined_reads cong: option.case_cong)

lemma insert_comparator_grows:
  assumes s: "sound db" and i: "insert_comparator x new db = Inr db'" "cm_introduced_by new = None"
  shows "grows db db'"
proof -
  obtain c and r :: receipt_row where c: "db' = db\<lparr>receipt_comparators := receipt_comparators db @ [c]\<rparr>" "cm_introduced_by c = None"
    "lock_receiving_context x db (cm_org c) (cm_receipt c) = Inr r" "admit_comparator db r (cm_po_line c) = Inr ()"
    "\<not> reconciled db (cm_org c) (cm_receipt c)"
    using insert_comparator_Inr [OF i(1)] i(2) by metis
  have same: "confined db db'" by (simp add: confined_def c(1))
  have "find_expectation db (cm_org c) (cm_po_line c) \<noteq> None"
    using admit_Inr [OF c(4)] lock_Inr(3) [OF c(3)] by (metis option.distinct(1))
  then have "comparator_grounded db' c" using c(2) by (simp add: comparator_grounded_def confined_reads [OF same])
  then show ?thesis
    by (intro growsI [where ls = "[]" and es = "[]" and cs = "[c]"])
       (use s c(2,5) in \<open>simp_all add: c(1) [symmetric] confined_reads [OF same] sound_def\<close>, simp_all add: c(1))
qed

lemma insert_line_grows:
  assumes s: "sound db" and i: "insert_receipt_line x new db = Inr (l, db')"
  shows "grows db db'"
proof -
  have l: "db' = db\<lparr>receipt_lines := receipt_lines db @ [l]\<rparr>" "\<not> reconciled db (rl_org l) (rl_receipt l)"
    "receipt_line_refs db l" "\<forall>k \<in> set (receipt_lines db). rl_id k \<noteq> rl_id l"
    using insert_receipt_line_Inr [OF i] by metis+
  have same: "confined db db'" "compared db' = compared db" by (simp_all add: confined_def l(1) compared_def [abs_def])
  have "line_grounded db' l"
    using l(3) by (simp add: receipt_line_refs_def line_grounded_def confined_reads [OF same(1)] same(2))
  then show ?thesis
    by (intro growsI [where ls = "[l]" and es = "[]" and cs = "[]"])
       (use s l(2,4) in \<open>auto simp: l(1) [symmetric] confined_reads [OF same(1)] sound_def\<close>, simp_all add: l(1))
qed

section \<open>Admission of a unit\<close>

definition ordinary_growth :: "fleet \<Rightarrow> fleet \<Rightarrow> bool" where
  "ordinary_growth db db' \<longleftrightarrow>
     (\<exists>es. receiving_exceptions db' = receiving_exceptions db @ es \<and> (\<forall>e \<in> set es. xc_evaluation e = None))
     \<and> (\<exists>fs. receipt_reconciliations db' = receipt_reconciliations db @ fs)"

lemma ordinary_growth_trans: "ordinary_growth a b \<Longrightarrow> ordinary_growth b c \<Longrightarrow> ordinary_growth a c"
  by (auto simp: ordinary_growth_def)

lemma line_exceptions_kept:
  assumes "insert_receipt_line x new db = Inr (l, db')"
  shows "receiving_exceptions db' = receiving_exceptions db"
    "receipt_reconciliations db' = receipt_reconciliations db"
proof -
  have "db' = db\<lparr>receipt_lines := receipt_lines db @ [l]\<rparr>" using insert_receipt_line_Inr [OF assms] by metis
  then show "receiving_exceptions db' = receiving_exceptions db"
    "receipt_reconciliations db' = receipt_reconciliations db" by simp_all
qed

text \<open>A fresh Asset and its identifier, then a line.\<close>

lemma created_grows:
  assumes s: "sound db" and c: "create_unit_facts x a t tid d db = Inr db1" and d: "id_asset d = as_id a"
  shows "grows db db1"
proof -
  note C = create_unit_facts_Inr [OF c]
  have exp: "find_expectation db1 org q = find_expectation db org q" for org q
    by (rule find_expectation_cong) (simp_all add: C(1) created_db_def)
  have rec: "reconciled db1 org i = reconciled db org i" for org i by (simp add: C(1) created_db_def reconciled_def)
  have ex: "asset_exists db org i \<Longrightarrow> asset_exists db1 org i" for org i by (auto simp: C(1) created_db_def asset_exists_def)
  have un: "unread db1 org i = unread db org i" if "asset_exists db org i" for org i
    using that C(6) by (auto simp: C(1) created_db_def asset_exists_def unread_def d)
  show ?thesis
    by (rule growsI [where ls = "[]" and es = "[]" and cs = "[]"])
       (use s exp rec ex un in \<open>simp_all add: sound_def\<close>, simp_all add: C(1) created_db_def)
qed

lemma grows_trans:
  assumes s: "sound a" and ab: "grows a b" and bc: "grows b c"
  shows "grows a c"
proof -
  have sb: "sound b" and sc: "sound c" using sound_grows ab bc s by blast+
  obtain ls es cs where A: "receipt_lines b = receipt_lines a @ ls" "receiving_exceptions b = receiving_exceptions a @ es"
    "receipt_comparators b = receipt_comparators a @ cs" "\<forall>l \<in> set ls. \<not> reconciled a (rl_org l) (rl_receipt l)"
    "\<forall>c \<in> set cs. cm_introduced_by c = None \<longrightarrow> \<not> reconciled a (cm_org c) (cm_receipt c)"
    using ab unfolding grows_def by blast
  obtain ls' es' cs' where B: "receipt_lines c = receipt_lines b @ ls'" "receiving_exceptions c = receiving_exceptions b @ es'"
    "receipt_comparators c = receipt_comparators b @ cs'" "\<forall>l \<in> set ls'. \<not> reconciled b (rl_org l) (rl_receipt l)"
    "\<forall>c \<in> set cs'. cm_introduced_by c = None \<longrightarrow> \<not> reconciled b (cm_org c) (cm_receipt c)"
    using bc unfolding grows_def by blast
  have rec: "reconciled a org i \<Longrightarrow> reconciled b org i" "reconciled b org i \<Longrightarrow> reconciled c org i" for org i
    using ab bc unfolding grows_def by blast+
  have expect: "find_expectation c (cm_org k) (cm_po_line k) = find_expectation a (cm_org k) (cm_po_line k)"
    if "k \<in> set (receipt_comparators a)" for k
    using that A(3) ab bc unfolding grows_def by (metis Un_iff set_append)
  have "asset_exists a org i \<Longrightarrow> asset_exists c org i \<and> unread c org i = unread a org i" for org i
    using ab bc unfolding grows_def by blast
  then show ?thesis
    by (intro growsI [where ls = "ls @ ls'" and es = "es @ es'" and cs = "cs @ cs'"])
       (use sc A B rec expect in \<open>auto simp: sound_def\<close>)
qed

lemma create_received_unit_grows:
  assumes s: "sound db" and c: "create_received_unit x l u db = Inr (k, db')"
  shows "grows db db'" "ordinary_growth db db'"
proof (rule_tac [!] create_received_unit_Inr [OF c])
  fix org performer and r :: receipt_row and a d db1
  assume "a = new_asset x org (uf_asset u) (rl_item l) (uf_tag u) (uf_description u) (rl_owner l)
       (rl_custodian l) (rc_dock r) performer"
    and create: "create_unit_facts x a (rc_received_at r) (uf_transition u) d db = Inr db1" and d: "id_asset d = uf_asset u"
    and line: "insert_receipt_line x (l\<lparr>rl_org := org, rl_asset := Some (uf_asset u), rl_observed := None,
       rl_actor := performer\<rparr>) db1 = Inr (k, db')"
  then have g: "grows db db1" using created_grows [OF s create] by (simp add: new_asset_def)
  show "grows db db'" by (rule grows_trans [OF s g insert_line_grows [OF sound_grows [OF g s] line]])
  have "receiving_exceptions db1 = receiving_exceptions db" "receipt_reconciliations db1 = receipt_reconciliations db"
    by (simp_all add: create_unit_facts_Inr(1) [OF create] created_db_def)
  then show "ordinary_growth db db'" using line_exceptions_kept [OF line] by (simp add: ordinary_growth_def)
qed

section \<open>Exceptions\<close>

lemma supported_required:
  assumes "line_supports db l e"
  shows "xc_type e \<in> set (required_kinds db l)"
proof (cases "xc_type e")
  case SERIAL_UNREADABLE
  then show ?thesis using assms by (auto simp: line_supports_def Let_def required_kinds_def asset_unreadable_def)
next
  case SERIAL_MISMATCH
  then show ?thesis using assms by (auto simp: line_supports_def Let_def required_kinds_def)
next
  case SUBSTITUTION
  then show ?thesis
    using assms by (auto simp: line_supports_def Let_def required_kinds_def comparator_kinds_def split: option.splits)
next
  case UOM_MISMATCH
  then show ?thesis
    using assms by (auto simp: line_supports_def Let_def required_kinds_def comparator_kinds_def split: option.splits)
next
  case QUANTITY_VARIANCE
  then show ?thesis using assms by (auto simp: line_supports_def Let_def required_kinds_def packing_kind_def)
qed (use assms in \<open>simp_all add: line_supports_def Let_def required_kinds_def comparator_kinds_def condition_kind_def
      packing_kind_def split: option.splits\<close>)

lemma supported_grounded:
  assumes e: "exception_supported db e = Inr ()" "exception_shape e" "xc_evaluation e = None"
  shows "grounded db e"
proof (cases "xc_line e")
  case None
  then have "xc_type e = SHORT \<or> xc_type e = OVER" using e(2) by (auto simp: exception_shape_def split: exception_kind.splits)
  then show ?thesis
    using e(1,3) None
    by (auto simp: exception_supported_def grounded_def result_simps split: option.splits if_splits)
next
  case (Some i)
  obtain l where "List.find (\<lambda>l. rl_org l = xc_org e \<and> rl_id l = i \<and> rl_receipt l = xc_receipt e) (receipt_lines db) = Some l"
    "line_supports db l e"
    using e(1,3) Some by (auto simp: exception_supported_def result_simps split: option.splits)
  then have "l \<in> set (receipt_lines db)" "names_line l e" "xc_type e \<in> set (required_kinds db l)"
    using Some supported_required find_Some_in by (fastforce simp: names_line_def)+
  then show ?thesis using e(3) Some by (auto simp: grounded_def)
qed

lemma same_exception_sym: "same_exception d e = same_exception e d"
  by (auto simp: same_exception_def)

lemma insert_exception_grows:
  assumes s: "sound db" and i: "insert_exception x new db = Inr db'" "xc_evaluation new = None"
  shows "grows db db'"
proof -
  obtain e where e: "db' = db\<lparr>receiving_exceptions := receiving_exceptions db @ [e],
              exception_workflows := exception_workflows db @ [opened_workflow e]\<rparr>"
    "xc_evaluation e = None" "exception_supported db e = Inr ()" "exception_shape e"
    "\<forall>d \<in> set (receiving_exceptions db). \<not> same_exception d e"
    using insert_exception_Inr [OF i(1)] i(2) by metis
  have same: "confined db db'" "compared db' = compared db"
    "aggregate_kind db' = aggregate_kind db" "receipt_lines db' = receipt_lines db"
    by (simp_all add: confined_def e(1) compared_def [abs_def] aggregate_kind_def [abs_def])
  have "grounded db' e"
    using supported_grounded [OF e(3,4,2)]
    unfolding grounded_def confined_reads [OF same(1)] confined_required [OF same(1)] same(2-) .
  then show ?thesis
    by (intro growsI [where ls = "[]" and es = "[e]" and cs = "[]"])
       (use s e(2,5) in \<open>auto simp: e(1) [symmetric] confined_reads [OF same(1)] sound_def sorted_wrt_append\<close>,
        simp_all add: e(1))
qed

section \<open>Calls\<close>

lemma op_grows:
  assumes s: "sound db" and "receiving_op x db db'"
  shows "grows db db'"
  using assms(2)
proof cases
  case receipt
  then show ?thesis using insert_receipt_Inr(1) same_tables_grow [OF s, where fs = "[]"] by fastforce
next
  case comparator
  then show ?thesis using insert_comparator_grows s by blast
next
  case line
  then show ?thesis using insert_line_grows s by blast
next
  case unit
  then show ?thesis using create_received_unit_grows s by blast
next
  case exception
  then show ?thesis using insert_exception_grows s by blast
next
  case (reconciliation f)
  then obtain g where "db' = db\<lparr>receipt_reconciliations := receipt_reconciliations db @ [g]\<rparr>"
    using insert_reconciliation_Inr by metis
  then show ?thesis using same_tables_grow [OF s, where fs = "[g]"] by simp
qed

lemma op_ordinary:
  assumes s: "sound db" and "receiving_op x db db'"
  shows "ordinary_growth db db'"
  using assms(2)
proof cases
  case receipt
  then show ?thesis using insert_receipt_Inr(1) by (fastforce simp: ordinary_growth_def)
next
  case comparator
  then obtain d where "db' = db\<lparr>receipt_comparators := receipt_comparators db @ [d]\<rparr>" using insert_comparator_Inr by metis
  then show ?thesis by (simp add: ordinary_growth_def)
next
  case line
  then show ?thesis using line_exceptions_kept by (simp add: ordinary_growth_def)
next
  case unit
  then show ?thesis using create_received_unit_grows(2) s by blast
next
  case (exception new)
  obtain e where e: "db' = db\<lparr>receiving_exceptions := receiving_exceptions db @ [e],
              exception_workflows := exception_workflows db @ [opened_workflow e]\<rparr>" "xc_evaluation e = xc_evaluation new"
    using insert_exception_Inr [OF exception(1)] by metis
  then show ?thesis using exception(2) by (simp add: ordinary_growth_def)
next
  case (reconciliation f)
  then obtain g where "db' = db\<lparr>receipt_reconciliations := receipt_reconciliations db @ [g]\<rparr>"
    using insert_reconciliation_Inr by metis
  then show ?thesis by (simp add: ordinary_growth_def)
qed

lemma ops_grow:
  assumes s: "sound db" and "ops x db db'"
  shows "grows db db' \<and> ordinary_growth db db' \<and> sound db'"
  using assms(2) unfolding ops_def
proof (induction rule: rtranclp_induct)
  case base
  then show ?case using same_tables_grow [OF s, where fs = "[]"] s by (simp add: ordinary_growth_def)
next
  case (step b c)
  then have b: "sound b" "grows db b" "ordinary_growth db b" by blast+
  show ?case
    using grows_trans [OF s b(2) op_grows [OF b(1) step.hyps(2)]] ordinary_growth_trans [OF b(3) op_ordinary [OF b(1) step.hyps(2)]]
      sound_grows [OF op_grows [OF b(1) step.hyps(2)] b(1)] by blast
qed

section \<open>Completeness\<close>

definition line_covered :: "fleet \<Rightarrow> receipt_line_row \<Rightarrow> exception_kind \<Rightarrow> bool" where
  "line_covered db l k \<longleftrightarrow> (\<exists>e \<in> set (receiving_exceptions db).
     xc_org e = rl_org l \<and> xc_line e = Some (rl_id l) \<and> xc_type e = k \<and> xc_evaluation e = None)"

definition comparator_covered :: "fleet \<Rightarrow> comparator_row \<Rightarrow> exception_kind \<Rightarrow> bool" where
  "comparator_covered db m k \<longleftrightarrow> (\<exists>e \<in> set (receiving_exceptions db).
     xc_org e = cm_org m \<and> xc_receipt e = cm_receipt m \<and> xc_po_line e = Some (cm_po_line m)
     \<and> xc_line e = None \<and> xc_type e = k \<and> xc_evaluation e = None)"

definition disagrees :: "fleet \<Rightarrow> comparator_row \<Rightarrow> exception_kind \<Rightarrow> bool" where
  "disagrees db m k \<longleftrightarrow> cm_introduced_by m = None \<and> reconciled db (cm_org m) (cm_receipt m)
     \<and> (\<exists>p. find_expectation db (cm_org m) (cm_po_line m) = Some p
            \<and> aggregate_kind db (cm_org m) (cm_receipt m) p = Some k)"

definition complete :: "fleet \<Rightarrow> bool" where
  "complete db \<longleftrightarrow>
     (\<forall>l \<in> set (receipt_lines db). \<forall>k \<in> set (required_kinds db l). line_covered db l k)
     \<and> (\<forall>m \<in> set (receipt_comparators db). \<forall>k. disagrees db m k \<longrightarrow> comparator_covered db m k)"

lemma covered_grows:
  assumes "grows db db'"
  shows "line_covered db l k \<Longrightarrow> line_covered db' l k" "comparator_covered db m k \<Longrightarrow> comparator_covered db' m k"
proof -
  have "set (receiving_exceptions db) \<subseteq> set (receiving_exceptions db')" using assms by (auto simp: grows_def)
  then show "line_covered db l k \<Longrightarrow> line_covered db' l k" "comparator_covered db m k \<Longrightarrow> comparator_covered db' m k"
    by (auto simp: line_covered_def comparator_covered_def)
qed

lemma line_kept:
  assumes g: "grows db db'" and s: "sound db" and c: "complete db" and l: "l \<in> set (receipt_lines db)"
    and k: "k \<in> set (required_kinds db' l)"
  shows "line_covered db' l k"
proof -
  have "required_kinds db' l = required_kinds db l" using s l required_stable [OF g] by (simp add: sound_def)
  then have "line_covered db l k" using c l k by (simp add: complete_def)
  then show ?thesis by (rule covered_grows(1) [OF g])
qed

lemma comparator_kept:
  assumes g: "grows db db'" and c: "complete db" and m: "m \<in> set (receipt_comparators db')"
    and d: "disagrees db' m k" and r: "reconciled db (cm_org m) (cm_receipt m)"
  shows "comparator_covered db' m k"
proof -
  have "cm_introduced_by m = None" using d by (simp add: disagrees_def)
  then have m: "m \<in> set (receipt_comparators db)" using g m r unfolding grows_def by (metis Un_iff set_append)
  then have "find_expectation db' (cm_org m) (cm_po_line m) = find_expectation db (cm_org m) (cm_po_line m)"
    using g by (simp add: grows_def)
  then have "disagrees db m k" using d r aggregate_stable [OF g r] by (simp add: disagrees_def)
  then have "comparator_covered db m k" using c m by (simp add: complete_def)
  then show ?thesis by (rule covered_grows(2) [OF g])
qed

lemma complete_grows:
  assumes g: "grows db db'" and s: "sound db" and c: "complete db"
    and l: "receipt_lines db' = receipt_lines db" and r: "receipt_reconciliations db' = receipt_reconciliations db"
  shows "complete db'"
  unfolding complete_def
proof (intro conjI ballI allI impI)
  show "line_covered db' l k" if "l \<in> set (receipt_lines db')" "k \<in> set (required_kinds db' l)" for l k
    using line_kept [OF g s c] that by (simp add: l)
  show "comparator_covered db' m k" if "m \<in> set (receipt_comparators db')" "disagrees db' m k" for m k
    using comparator_kept [OF g c that] that(2) by (simp add: disagrees_def reconciled_def r)
qed

lemma target_of_comparator:
  assumes "m \<in> set (receipt_comparators db)" "find_expectation db (cm_org m) (cm_po_line m) = Some p"
  shows "p \<in> set (comparator_targets db (cm_org m) (cm_receipt m))" "pl_id p = cm_po_line m"
proof -
  obtain l where "List.find (\<lambda>l. pl_org l = cm_org m \<and> pl_id l = cm_po_line m) (purchase_order_lines db) = Some l"
    and p: "p = effective_po_line db l" using assms(2) by (auto simp: find_expectation_def)
  then have l: "l \<in> set (purchase_order_lines db)" "pl_org l = cm_org m" "pl_id l = cm_po_line m" using find_Some_in by fastforce+
  have "compared db (cm_org m) (cm_receipt m) (cm_po_line m)" using assms(1) by (auto simp: compared_def)
  then show "p \<in> set (comparator_targets db (cm_org m) (cm_receipt m))"
    using l p by (auto simp: comparator_targets_def)
  show "pl_id p = cm_po_line m" using l(3) by (simp add: p effective_po_line_def with_po_facts_def split: option.splits)
qed

lemma call_complete:
  assumes s: "sound db" and c: "complete db" and "ops x db db'" and v: "validate_complete db db' = Inr ()"
  shows "complete db'"
proof -
  have g: "grows db db'" and og: "ordinary_growth db db'" and s': "sound db'" using ops_grow [OF s assms(3)] by blast+
  obtain ls where ls: "receipt_lines db' = receipt_lines db @ ls" using g by (auto simp: grows_def)
  obtain fs where fs: "receipt_reconciliations db' = receipt_reconciliations db @ fs" using og by (auto simp: ordinary_growth_def)
  have checked: "\<forall>l \<in> set ls. line_complete db' l" "\<forall>f \<in> set fs. reconciliation_complete db' f"
    using v by (simp_all add: validate_complete_def ls fs ensure_Inr_iff)
  have old: "grounded db e" if "e \<in> set (receiving_exceptions db')" "xc_evaluation e \<noteq> None" for e
    using og s that by (auto simp: ordinary_growth_def sound_def)
  show ?thesis
    unfolding complete_def
  proof (intro conjI ballI allI impI)
    fix l k
    assume l: "l \<in> set (receipt_lines db')" and k: "k \<in> set (required_kinds db' l)"
    show "line_covered db' l k"
    proof (cases "l \<in> set (receipt_lines db)")
      case True
      then show ?thesis using line_kept [OF g s c] k by blast
    next
      case False
      then have l: "l \<in> set ls" using l ls by simp
      then obtain e where e: "e \<in> set (receiving_exceptions db')" "xc_org e = rl_org l" "xc_line e = Some (rl_id l)"
        "xc_type e = k" using checked(1) k unfolding line_complete_def by blast
      have "\<not> names_line l' e" if "l' \<in> set (receipt_lines db)" for l'
        using s' that l e(3) by (auto simp: names_line_def sound_def ls)
      then have "\<not> grounded db e" if "xc_evaluation e \<noteq> None" using that e(3) by (auto simp: grounded_def)
      then have "xc_evaluation e = None" using old [OF e(1)] by blast
      then show ?thesis using e by (auto simp: line_covered_def)
    qed
  next
    fix m k
    assume m: "m \<in> set (receipt_comparators db')" and d: "disagrees db' m k"
    show "comparator_covered db' m k"
    proof (cases "reconciled db (cm_org m) (cm_receipt m)")
      case True
      then show ?thesis using comparator_kept [OF g c m d] by blast
    next
      case False
      then obtain f where f: "f \<in> set fs" "rr_org f = cm_org m" "rr_receipt f = cm_receipt m"
        using d by (auto simp: disagrees_def reconciled_def fs)
      obtain p where p: "find_expectation db' (cm_org m) (cm_po_line m) = Some p"
        "aggregate_kind db' (cm_org m) (cm_receipt m) p = Some k" using d by (auto simp: disagrees_def)
      have "reconciliation_complete db' f" using checked(2) f(1) by blast
      then obtain e where e: "e \<in> set (receiving_exceptions db')" "xc_org e = cm_org m" "xc_receipt e = cm_receipt m"
        "xc_po_line e = Some (cm_po_line m)" "xc_line e = None" "xc_type e = k"
        using target_of_comparator [OF m p(1)] p(2) unfolding reconciliation_complete_def f(2,3) by fastforce
      have "\<not> grounded db e" if "xc_evaluation e \<noteq> None" using that False e(2,3) by (auto simp: grounded_def)
      then have "xc_evaluation e = None" using old [OF e(1)] by blast
      then show ?thesis using e by (auto simp: comparator_covered_def)
    qed
  qed
qed

end
