(* ===== verification/ReceivingRun.thy ===== *)
theory ReceivingRun
  imports ReceivingInvariant FleetIsolation
begin

text \<open>
  Receiving as a transition system of service calls, interleaved with transactions elsewhere, and what
  its calls do to the Assets; which exceptions a call adds, and of which receipts.
\<close>

section \<open>Calls\<close>

lemma close_comparator_ops: "close_comparator u x h p w = Inr w' \<Longrightarrow> ops x (w_db w) (w_db w')"
  by (auto simp: close_comparator_def Let_def split: option.splits intro: record_exception_ops)

lemma reconcile_population_ops:
  assumes "reconcile_population u x h w = Inr w'"
  shows "ops x (w_db w) (w_db w')"
proof -
  obtain f w1 w2 ps where e: "exec (insert_reconciliation x f) w1 = Inr w2" "w_db w1 = w_db w"
    and rest: "fold_result (close_comparator u x h) ps w2 = Inr w'"
    using assms by (auto simp: reconcile_population_def Let_def draw_def rbind_Inr_iff)
  have "ops x (w_db w1) (w_db w2)" by (rule exec_ops [OF e(1)]) (rule receiving_op.reconciliation)
  moreover have "ops x (w_db w2) (w_db w')" by (rule statements.fold_kept [OF rest]) (rule close_comparator_ops)
  ultimately show ?thesis using e(2) ops_trans by metis
qed

lemma fill_receipt_ops:
  assumes "fill_receipt u x q h w = Inr w'"
  shows "ops x (w_db w) (w_db w')"
proof -
  obtain w1 w2 w3 where f: "fold_result (\<lambda>t. bind_comparator u x h t 0 None) (rq_comparators q) w = Inr w1"
    "fold_result (\<lambda>(t, g). bind_comparator u x h t g None) (rq_bindings q) w1 = Inr w2"
    "fold_result (record_line u x h) (rq_lines q) w2 = Inr w3"
    "(if rq_reconcile q then reconcile_population u x h w3 else Inr w3) = Inr w'"
    using assms by (auto simp: fill_receipt_def rbind_Inr_iff)
  have "ops x (w_db w) (w_db w1)" by (rule statements.fold_kept [OF f(1)]) (rule statements.bind_comparator_kept)
  moreover have "ops x (w_db w1) (w_db w2)" by (rule statements.fold_kept [OF f(2)]) (auto intro: statements.bind_comparator_kept)
  moreover have "ops x (w_db w2) (w_db w3)" by (rule statements.fold_kept [OF f(3)]) (rule statements.record_line_kept)
  moreover have "ops x (w_db w3) (w_db w')"
    using f(4) by (auto intro: reconcile_population_ops split: if_splits)
  ultimately show ?thesis using ops_trans by blast
qed

text \<open>Closing a receipt adds exceptions of that receipt only, which was not reconciled before.\<close>

lemma record_exception_entry:
  assumes "record_exception u x h l p c k w = Inr w'"
  shows "\<exists>e. receiving_exceptions (w_db w') = receiving_exceptions (w_db w) @ [e] \<and> xc_org e = rc_org h \<and> xc_receipt e = rc_id h"
proof -
  obtain i where "insert_exception x
        \<lparr>xc_id = i, xc_org = rc_org h, xc_type = k, xc_receipt = rc_id h, xc_line = map_option rl_id l,
         xc_po_line = (case l of None \<Rightarrow> p | Some l \<Rightarrow> rl_po_line l),
         xc_asset = (case l of None \<Rightarrow> None | Some l \<Rightarrow> if k \<in> {QUANTITY_VARIANCE, SERIAL_MISMATCH} then None else rl_asset l),
         xc_conflicting = c, xc_evaluation = None, xc_actor = 0, xc_occurred = At 0\<rparr> (w_db w) = Inr (w_db w')"
    using assms by (auto simp: record_exception_def draw_def exec_def result_simps)
  then show ?thesis by (rule insert_exception_Inr) simp
qed

lemma fold_close_entries:
  "fold_result (close_comparator u x h) ps w = Inr w' \<Longrightarrow>
     \<exists>es. receiving_exceptions (w_db w') = receiving_exceptions (w_db w) @ es
       \<and> (\<forall>e \<in> set es. xc_org e = rc_org h \<and> xc_receipt e = rc_id h)"
proof (induction ps arbitrary: w)
  case (Cons p ps)
  obtain v where v: "close_comparator u x h p w = Inr v" "fold_result (close_comparator u x h) ps v = Inr w'"
    using Cons.prems by (auto simp: result_simps)
  have "\<exists>es. receiving_exceptions (w_db v) = receiving_exceptions (w_db w) @ es
       \<and> (\<forall>e \<in> set es. xc_org e = rc_org h \<and> xc_receipt e = rc_id h)"
    using v(1) record_exception_entry by (fastforce simp: close_comparator_def Let_def split: option.splits)
  then show ?case using Cons.IH [OF v(2)] by (auto simp: ball_Un)
qed simp

lemma reconcile_population_entries:
  assumes "reconcile_population u x h w = Inr w'"
  shows "\<not> reconciled (w_db w) (rc_org h) (rc_id h)
    \<and> (\<exists>es. receiving_exceptions (w_db w') = receiving_exceptions (w_db w) @ es
       \<and> (\<forall>e \<in> set es. xc_org e = rc_org h \<and> xc_receipt e = rc_id h))"
proof -
  obtain i n d ps where i: "insert_reconciliation x \<lparr>rr_id = i, rr_org = rc_org h, rr_receipt = rc_id h, rr_actor = 0,
        rr_occurred = At 0\<rparr> (w_db w) = Inr d"
    and rest: "fold_result (close_comparator u x h) ps (w\<lparr>w_draws := n, w_db := d\<rparr>) = Inr w'"
    using assms by (auto simp: reconcile_population_def Let_def draw_def exec_def rbind_Inr_iff map_error_Inr_iff)
  have "receiving_exceptions d = receiving_exceptions (w_db w) \<and> \<not> reconciled (w_db w) (rc_org h) (rc_id h)"
    by (rule insert_reconciliation_Inr [OF i]) simp
  then show ?thesis using fold_close_entries [OF rest] by simp
qed

inductive receiving_call :: "ctx \<Rightarrow> fleet \<Rightarrow> fleet \<Rightarrow> bool" for x :: ctx where
  create: "create_receipt uuid7 x org q db = Inr (v, db') \<Longrightarrow> receiving_call x db db'"
| add: "add_line uuid7 x i q db = Inr (v, db') \<Longrightarrow> receiving_call x db db'"
| reconcile: "reconcile_receipt uuid7 x i db = Inr (v, db') \<Longrightarrow> receiving_call x db db'"

lemma finish_call_Inr:
  assumes "finish_call x old i m = Inr (v, db')"
  obtains w where "m = Inr w" "w_db w = db'" "validate_complete old db' = Inr ()" "view_receipt x db' i = Inr v"
  using assms by (auto simp: finish_call_def rbind_Inr_iff)

lemma call_ops:
  assumes "receiving_call x db db'"
  shows "ops x db db' \<and> validate_complete db db' = Inr ()"
  using assms
proof cases
  case (create u org q v)
  let ?w = "\<lparr>w_draws = Suc 0, w_db = db\<rparr>"
  obtain r h w where e: "exec_row (insert_receipt x r) ?w = Inr (h, w)"
    and w: "\<exists>w'. fill_receipt u x q h w = Inr w' \<and> w_db w' = db'" and v: "validate_complete db db' = Inr ()"
    using create by (auto simp: create_receipt_def draw_def rbind_Inr_iff elim!: finish_call_Inr)
  have "receiving_op x db (w_db w)" using e by (auto simp: exec_row_def rbind_Inr_iff intro: receiving_op.receipt)
  then show ?thesis using w v op_ops ops_trans fill_receipt_ops by metis
next
  case (add u i q v)
  then obtain h w where "record_line u x h q \<lparr>w_draws = 0, w_db = db\<rparr> = Inr w" "w_db w = db'"
    "validate_complete db db' = Inr ()"
    by (auto simp: add_line_def rbind_Inr_iff elim!: finish_call_Inr)
  then show ?thesis using statements.record_line_kept by fastforce
next
  case (reconcile u i v)
  then obtain h w where "reconcile_population u x h \<lparr>w_draws = 0, w_db = db\<rparr> = Inr w" "w_db w = db'"
    "validate_complete db db' = Inr ()"
    by (auto simp: reconcile_receipt_def rbind_Inr_iff elim!: finish_call_Inr)
  then show ?thesis using reconcile_population_ops by fastforce
qed

section \<open>Runs\<close>

text \<open>
  A transaction elsewhere leaves lines and reconciliations alone.  Corrections of a reconciled receipt
  may bind further comparators and record evaluated exceptions; a bound order line is frozen, and an
  identifier is recorded with its Asset.
\<close>

definition apart :: "fleet \<Rightarrow> fleet \<Rightarrow> bool" where
  "apart db db' \<longleftrightarrow> receipt_lines db' = receipt_lines db
     \<and> receipt_reconciliations db' = receipt_reconciliations db
     \<and> (\<exists>es. receiving_exceptions db' = receiving_exceptions db @ es
          \<and> (\<forall>e \<in> set es. xc_evaluation e \<noteq> None \<and> grounded db' e))
     \<and> (\<exists>cs. receipt_comparators db' = receipt_comparators db @ cs
          \<and> (\<forall>c \<in> set cs. cm_introduced_by c \<noteq> None \<and> comparator_grounded db' c))
     \<and> (\<forall>c \<in> set (receipt_comparators db).
          find_expectation db' (cm_org c) (cm_po_line c) = find_expectation db (cm_org c) (cm_po_line c))
     \<and> (\<forall>org i. asset_exists db org i \<longrightarrow> asset_exists db' org i \<and> unread db' org i = unread db org i)"

inductive receiving_step :: "fleet \<Rightarrow> fleet \<Rightarrow> bool" where
  call: "receiving_call x db db' \<Longrightarrow> receiving_step db db'"
| elsewhere: "apart db db' \<Longrightarrow> receiving_step db db'"

definition no_receiving :: "fleet \<Rightarrow> bool" where
  "no_receiving db \<longleftrightarrow> receipt_lines db = [] \<and> receiving_exceptions db = [] \<and> receipt_comparators db = []"

inductive receiving_run :: "fleet \<Rightarrow> bool" where
  start: "no_receiving db \<Longrightarrow> receiving_run db"
| step: "receiving_run db \<Longrightarrow> receiving_step db db' \<Longrightarrow> receiving_run db'"

lemma apart_grows:
  assumes s: "sound db" and a: "apart db db'"
  shows "grows db db'"
proof -
  obtain es cs where t: "receiving_exceptions db' = receiving_exceptions db @ es"
    "receipt_comparators db' = receipt_comparators db @ cs" "\<forall>e \<in> set es. xc_evaluation e \<noteq> None \<and> grounded db' e"
    "\<forall>c \<in> set cs. cm_introduced_by c \<noteq> None \<and> comparator_grounded db' c"
    using a unfolding apart_def by blast
  have "filter (\<lambda>e. xc_evaluation e = None) es = []" using t(3) by (auto simp: filter_empty_conv)
  moreover have "receipt_lines db' = receipt_lines db" "reconciled db' = reconciled db"
    "\<And>c. c \<in> set (receipt_comparators db) \<Longrightarrow>
       find_expectation db' (cm_org c) (cm_po_line c) = find_expectation db (cm_org c) (cm_po_line c)"
    "\<And>org i. asset_exists db org i \<Longrightarrow> asset_exists db' org i \<and> unread db' org i = unread db org i"
    using a by (simp_all add: apart_def reconciled_def [abs_def])
  ultimately show ?thesis
    by (intro growsI [where ls = "[]" and es = es and cs = cs]) (use s t in \<open>simp_all add: sound_def\<close>)
qed

lemma step_keeps:
  assumes s: "sound db" and c: "complete db" and "receiving_step db db'"
  shows "grows db db' \<and> complete db'"
  using assms(3)
proof cases
  case (call x)
  then show ?thesis using call_ops ops_grow [OF s] call_complete [OF s c] by blast
next
  case elsewhere
  then show ?thesis using apart_grows [OF s] complete_grows [OF _ s c] by (simp add: apart_def)
qed

lemma run_ok:
  assumes "receiving_run db"
  shows "sound db \<and> complete db"
  using assms
proof induction
  case start
  then show ?case by (simp add: no_receiving_def sound_def complete_def)
next
  case step
  then show ?case using step_keeps sound_grows by blast
qed

lemma runs_grow:
  assumes "receiving_run db" "receiving_step\<^sup>*\<^sup>* db db'"
  shows "grows db db' \<and> receiving_run db'"
  using assms(2)
proof (induction rule: rtranclp_induct)
  case base
  have "sound db" using run_ok [OF assms(1)] by blast
  then show ?case using same_tables_grow [where fs = "[]"] assms(1) by simp
next
  case (step b c)
  have "sound db" "sound b" "complete b" using run_ok [OF assms(1)] run_ok step.IH by blast+
  then show ?case using step_keeps [OF _ _ step.hyps(2)] grows_trans step.IH step.hyps(2) receiving_run.step by blast
qed

section \<open>Receiving and the fleet\<close>

lemma confined_frame:
  assumes "assets db' = assets db" "asset_initial_facts db' = asset_initial_facts db"
    "asset_initial_assignment_facts db' = asset_initial_assignment_facts db"
    "asset_transitions db' = asset_transitions db" "asset_movements db' = asset_movements db"
    "asset_custody_changes db' = asset_custody_changes db" "asset_ownership_changes db' = asset_ownership_changes db"
    "asset_assignment_events db' = asset_assignment_events db" "attachments db' = attachments db"
    "attachment_links db' = attachment_links db" "actors db' = actors db"
  shows "fleet_step x db db'"
  using assms by (intro fleet_step.elsewhere) (simp add: frame_def evidence_grows_def)

lemma insert_line_step:
  assumes "insert_receipt_line x new db = Inr (l, db')"
  shows "fleet_step x db db'"
proof -
  have "db' = db\<lparr>receipt_lines := receipt_lines db @ [l]\<rparr>" using insert_receipt_line_Inr [OF assms] by metis
  then show ?thesis by (simp add: confined_frame)
qed

lemma create_received_unit_reachable:
  assumes r: "reachable db" and c: "create_received_unit x l u db = Inr (k, db')"
  shows "reachable db'"
proof (rule create_received_unit_Inr [OF c])
  fix org performer and r :: receipt_row and a d db1
  assume create: "create_unit_facts x a (rc_received_at r) (uf_transition u) d db = Inr db1"
    and line: "insert_receipt_line x (l\<lparr>rl_org := org, rl_asset := Some (uf_asset u), rl_observed := None,
       rl_actor := performer\<rparr>) db1 = Inr (k, db')"
  show ?thesis
    using reachable.run [OF reachable.run [OF r fleet_step.create [OF create]] insert_line_step [OF line]] .
qed

lemma op_reachable:
  assumes r: "reachable db" and "receiving_op x db db'"
  shows "reachable db'"
  using assms(2)
proof cases
  case receipt
  then show ?thesis using insert_receipt_Inr(1) r reachable.run [OF r confined_frame] by fastforce
next
  case comparator
  then obtain d where "db' = db\<lparr>receipt_comparators := receipt_comparators db @ [d]\<rparr>" using insert_comparator_Inr by metis
  then show ?thesis using reachable.run [OF r confined_frame] by simp
next
  case line
  then show ?thesis using reachable.run [OF r insert_line_step] by blast
next
  case unit
  then show ?thesis using create_received_unit_reachable [OF r] by blast
next
  case exception
  then obtain e where "db' = db\<lparr>receiving_exceptions := receiving_exceptions db @ [e],
              exception_workflows := exception_workflows db @ [opened_workflow e]\<rparr>" using insert_exception_Inr by metis
  then show ?thesis using reachable.run [OF r confined_frame] by simp
next
  case reconciliation
  then obtain g where "db' = db\<lparr>receipt_reconciliations := receipt_reconciliations db @ [g]\<rparr>"
    using insert_reconciliation_Inr by metis
  then show ?thesis using reachable.run [OF r confined_frame] by simp
qed

lemma ops_reachable: "ops x db db' \<Longrightarrow> reachable db \<Longrightarrow> reachable db'"
  unfolding ops_def by (induction rule: rtranclp_induct) (auto intro: op_reachable)

section \<open>Late exceptions\<close>

text \<open>
  A call adds exceptions of lines, and others only of receipts that were not reconciled when it began.
\<close>

definition timely_entries :: "fleet \<Rightarrow> fleet \<Rightarrow> bool" where
  "timely_entries db db' \<longleftrightarrow> (\<exists>es. receiving_exceptions db' = receiving_exceptions db @ es
     \<and> (\<forall>e \<in> set es. xc_line e = None \<and> xc_evaluation e = None \<longrightarrow> \<not> reconciled db (xc_org e) (xc_receipt e)))"

lemma line_entries_timely: "line_entries db db' \<Longrightarrow> timely_entries db db'"
  unfolding line_entries_def timely_entries_def by blast

lemma population_timely:
  assumes "line_entries db (w_db w)" "reconcile_population u x h w = Inr w'"
  shows "timely_entries db (w_db w')"
proof -
  have "reconciled db = reconciled (w_db w)" using assms(1) by (auto simp: line_entries_def reconciled_def fun_eq_iff)
  then show ?thesis
    using reconcile_population_entries [OF assms(2)] assms(1) by (fastforce simp: line_entries_def timely_entries_def)
qed

lemma call_timely:
  assumes "receiving_call x db db'"
  shows "timely_entries db db'"
  using assms
proof cases
  case (create u org q v)
  obtain r h d w1 w2 w3 w' where e: "insert_receipt x r db = Inr (h, d)"
    and f: "fold_result (\<lambda>t. bind_comparator u x h t 0 None) (rq_comparators q) \<lparr>w_draws = Suc 0, w_db = d\<rparr> = Inr w1"
    "fold_result (\<lambda>(t, g). bind_comparator u x h t g None) (rq_bindings q) w1 = Inr w2"
    "fold_result (record_line u x h) (rq_lines q) w2 = Inr w3"
    "(if rq_reconcile q then reconcile_population u x h w3 else Inr w3) = Inr w'" and w': "w_db w' = db'"
    using create
    by (auto simp: create_receipt_def fill_receipt_def draw_def exec_row_def rbind_Inr_iff map_error_Inr_iff
        elim!: finish_call_Inr)
  have "line_entries db d" by (simp add: insert_receipt_Inr(1) [OF e] line_entries_def)
  moreover have "line_entries d (w_db w1)"
    using entries.fold_kept [OF f(1)] entries.bind_comparator_kept by fastforce
  moreover have "line_entries (w_db w1) (w_db w2)"
    by (rule entries.fold_kept [OF f(2)]) (auto intro: entries.bind_comparator_kept)
  moreover have "line_entries (w_db w2) (w_db w3)"
    by (rule entries.fold_kept [OF f(3)]) (rule entries.record_line_kept)
  ultimately have "line_entries db (w_db w3)" by (blast intro: entries.trans)
  then show ?thesis using f(4) w' line_entries_timely population_timely by (fastforce split: if_splits)
next
  case (add u i q v)
  then obtain h w where "record_line u x h q \<lparr>w_draws = 0, w_db = db\<rparr> = Inr w" "w_db w = db'"
    by (auto simp: add_line_def rbind_Inr_iff elim!: finish_call_Inr)
  then show ?thesis using entries.record_line_kept line_entries_timely by fastforce
next
  case (reconcile u i v)
  then obtain h w where "reconcile_population u x h \<lparr>w_draws = 0, w_db = db\<rparr> = Inr w" "w_db w = db'"
    by (auto simp: reconcile_receipt_def rbind_Inr_iff elim!: finish_call_Inr)
  then show ?thesis using population_timely [where w = "\<lparr>w_draws = 0, w_db = db\<rparr>"] entries.same by fastforce
qed

lemma step_timely:
  assumes "receiving_step db db'"
  shows "timely_entries db db'"
  using assms
proof cases
  case elsewhere
  then show ?thesis unfolding apart_def timely_entries_def by blast
qed (rule call_timely)

lemma runs_timely:
  assumes "receiving_run db" "receiving_step\<^sup>*\<^sup>* db db'"
  shows "timely_entries db db'"
  using assms(2)
proof (induction rule: rtranclp_induct)
  case (step b c)
  have "reconciled db org i \<Longrightarrow> reconciled b org i" for org i
    using runs_grow [OF assms(1) step.hyps(1)] by (simp add: grows_def)
  then show ?case using step.IH step_timely [OF step.hyps(2)] unfolding timely_entries_def by fastforce
qed (simp add: timely_entries_def)

end
