(* ===== verification/ReceivingExample.thy ===== *)
theory ReceivingExample
  imports ReceivingRun FleetExample "HOL-Library.Code_Target_Nat"
begin

text \<open>
  A small procured fleet for the concrete instances: one issued order line for two units of an item,
  received as one damaged unit against a packing count of three, reconciled at once; then a receipt of
  a serialized unit, and of a second one that shows the same serial number.
\<close>

definition ex_procured :: fleet where
  "ex_procured = ex_base
     \<lparr>items := items ex_base @ [\<lparr>it_id = 21, it_org = 1, it_manufacturer = 30, it_mpn = [78], it_revision = None,
                 it_description = [68], it_uom = EA, it_serialized = False, it_classification = None,
                 it_controlled = False, it_active = True, it_created_by = 10, it_updated_by = 10\<rparr>],
      party_roles := [\<lparr>pr_id = 31, pr_org = 1, pr_party = 30, pr_role = VENDOR\<rparr>],
      purchase_orders := [\<lparr>po_id = 50, po_org = 1, po_vendor = 30, po_number = [49], po_status = ISSUED,
         po_issued_at = Some (At 800), po_issued_by = Some 10, po_notes = None, po_created_by = 10, po_updated_by = 10,
         po_created_at = At 700, po_updated_at = At 800\<rparr>],
      purchase_order_lines := [\<lparr>pl_id = 51, pl_org = 1, pl_po = 50, pl_number = 1, pl_item = 21, pl_quantity = Num 2,
         pl_uom = EA, pl_price = Num 1, pl_expected = None, pl_supersedes = None, pl_created_by = 10,
         pl_updated_by = 10, pl_created_at = At 700, pl_updated_at = At 700\<rparr>]\<rparr>"

definition ex_header :: receipt_row where
  "ex_header = \<lparr>rc_id = 0, rc_org = 0, rc_vendor = 30, rc_po = Some 50, rc_dock = Some 40,
      rc_packing_reference = Some [80], rc_received_at = At 900, rc_actor = 0\<rparr>"

definition ex_request :: receipt_request where
  "ex_request = \<lparr>rq_header = ex_header, rq_comparators = [51], rq_bindings = [],
    rq_lines = [\<lparr>lq_po_line = Some 51, lq_generation = 0, lq_item = 21, lq_quantity = Num 1, lq_uom = EA,
      lq_condition = DAMAGED, lq_packing = Some (Num 3), lq_notes = None, lq_unit = None\<rparr>],
    rq_reconcile = True\<rparr>"

definition ex_unit :: "pgtext \<Rightarrow> line_request" where
  "ex_unit tag = \<lparr>lq_po_line = None, lq_generation = 0, lq_item = 20, lq_quantity = Num 1, lq_uom = EA,
      lq_condition = GOOD, lq_packing = None, lq_notes = None,
      lq_unit = Some \<lparr>ur_owner = Some 30, ur_custodian = None, ur_tag = tag, ur_description = [68],
        ur_type = MAC, ur_value = Some [66], ur_unreadable = None\<rparr>\<rparr>"

definition ex_unit_request :: receipt_request where
  "ex_unit_request = \<lparr>rq_header = ex_header, rq_comparators = [], rq_bindings = [], rq_lines = [ex_unit [84]],
    rq_reconcile = False\<rparr>"

text \<open>A call's draws: consecutive identifiers from a base.\<close>

definition ex_uuid7 :: "nat \<Rightarrow> nat \<Rightarrow> uuid" where
  "ex_uuid7 base n = base + n"

definition ex_comparator :: comparator_row where
  "ex_comparator = \<lparr>cm_id = 201, cm_org = 1, cm_receipt = 200, cm_po_line = 51, cm_generation = 0, cm_source = None,
     cm_introduced_by = None, cm_actor = 10, cm_occurred = At 900\<rparr>"

definition ex_line :: receipt_line_row where
  "ex_line = \<lparr>rl_id = 202, rl_org = 1, rl_receipt = 200, rl_po_line = Some 51, rl_item = 21, rl_quantity = Num 1,
     rl_uom = EA, rl_condition = DAMAGED, rl_packing_quantity = Some (Num 3), rl_notes = None, rl_serialized = False,
     rl_owner = None, rl_custodian = None, rl_asset = None, rl_observed = None, rl_actor = 10, rl_occurred = At 900\<rparr>"

definition result_db :: "py_error + ('v \<times> fleet) \<Rightarrow> fleet" where
  "result_db m = (case m of Inl _ \<Rightarrow> empty_fleet | Inr (_, db) \<Rightarrow> db)"

definition result_holds :: "(fleet \<Rightarrow> bool) \<Rightarrow> py_error + ('v \<times> fleet) \<Rightarrow> bool" where
  "result_holds P m = (case m of Inl _ \<Rightarrow> False | Inr (_, db) \<Rightarrow> P db)"

lemma result_holdsE:
  assumes "result_holds P m"
  obtains v where "m = Inr (v, result_db m)" "P (result_db m)"
  using assms by (cases m) (auto simp: result_db_def result_holds_def)

definition ex_received :: fleet where
  "ex_received = result_db (create_receipt (ex_uuid7 200) ex_ctx 1 ex_request ex_procured)"

definition ex_admitted :: fleet where
  "ex_admitted = result_db (create_receipt (ex_uuid7 300) ex_ctx 1 ex_unit_request ex_received)"

definition ex_conflicted :: fleet where
  "ex_conflicted = result_db (add_line (ex_uuid7 400) ex_ctx 300 (ex_unit [85]) ex_admitted)"

text \<open>What each call leaves in the tables.\<close>

lemma ex_received_result:
  "result_holds (\<lambda>db. receipt_comparators db = [ex_comparator] \<and> receipt_lines db = [ex_line]
       \<and> reconciled db 1 200 \<and> purchase_order_lines db = purchase_order_lines ex_procured
       \<and> purchase_order_line_corrections db = [] \<and> receipt_line_corrections db = []
       \<and> receipt_evaluation_lines db = [])
     (create_receipt (ex_uuid7 200) ex_ctx 1 ex_request ex_procured)"
  by code_simp

lemma ex_admitted_result:
  "result_holds (\<lambda>db. length (assets db) = 1
       \<and> known_holder ex_ctx db (the (lq_unit (ex_unit [85]))) = Some 302)
     (create_receipt (ex_uuid7 300) ex_ctx 1 ex_unit_request ex_received)"
  by code_simp

lemma ex_conflicted_result:
  "result_holds (\<lambda>db. True) (add_line (ex_uuid7 400) ex_ctx 300 (ex_unit [85]) ex_admitted)"
  by code_simp

lemma ex_received_tables:
  "receipt_comparators ex_received = [ex_comparator]" "receipt_lines ex_received = [ex_line]"
  "reconciled ex_received 1 200" "purchase_order_lines ex_received = purchase_order_lines ex_procured"
  "purchase_order_line_corrections ex_received = []" "receipt_line_corrections ex_received = []"
  "receipt_evaluation_lines ex_received = []"
  using ex_received_result by (auto simp: ex_received_def elim!: result_holdsE)

lemma ex_admitted_tables:
  "length (assets ex_admitted) = 1" "known_holder ex_ctx ex_admitted (the (lq_unit (ex_unit [85]))) = Some 302"
  using ex_admitted_result by (auto simp: ex_admitted_def elim!: result_holdsE)

lemma ex_received_call: "receiving_call ex_ctx ex_procured ex_received"
  using ex_received_result receiving_call.create unfolding ex_received_def by (blast elim: result_holdsE)

lemma ex_admitted_call: "receiving_call ex_ctx ex_received ex_admitted"
  using ex_admitted_result receiving_call.create unfolding ex_admitted_def by (blast elim: result_holdsE)

lemma ex_conflicted_call: "\<exists>v. add_line (ex_uuid7 400) ex_ctx 300 (ex_unit [85]) ex_admitted = Inr (v, ex_conflicted)"
  using ex_conflicted_result unfolding ex_conflicted_def by (blast elim: result_holdsE)

lemma ex_procured_run: "receiving_run ex_procured"
  by (rule receiving_run.start) (simp add: no_receiving_def ex_procured_def ex_base_def empty_fleet_def)

lemma ex_received_run: "receiving_run ex_received"
  using ex_procured_run ex_received_call by (blast intro: receiving_run.step receiving_step.call)

lemma ex_procured_reachable: "reachable ex_procured"
  by (rule reachable.start) (simp add: no_assets_def ex_procured_def ex_base_def empty_fleet_def)

end
