(* ===== verification/ReceivingProperties.thy ===== *)
theory ReceivingProperties
  imports ReceivingExample
begin

text \<open>
  What receiving guarantees: exactly the required exceptions, a frozen receipt once it is reconciled,
  admission of physical units that keeps the fleet reachable, and no second Asset for one identifier.
\<close>

section \<open>Exactly the required exceptions\<close>

lemma sorted_wrt_single:
  assumes "sorted_wrt (\<lambda>d e. \<not> R d e) xs" "\<And>d e. d \<in> set xs \<Longrightarrow> e \<in> set xs \<Longrightarrow> P d \<Longrightarrow> P e \<Longrightarrow> R d e"
  shows "length (filter P xs) \<le> 1"
  using assms
proof (induction xs)
  case (Cons y ys)
  then have "filter P ys = []" if "P y" using that by (auto simp: filter_empty_conv)
  then show ?case using Cons by auto
qed simp

definition line_observations :: "fleet \<Rightarrow> receipt_line_row \<Rightarrow> exception_kind \<Rightarrow> exception_row list" where
  "line_observations db l k =
     filter (\<lambda>e. xc_org e = rl_org l \<and> xc_line e = Some (rl_id l) \<and> xc_type e = k \<and> xc_evaluation e = None)
       (receiving_exceptions db)"

definition quantity_observations :: "fleet \<Rightarrow> comparator_row \<Rightarrow> exception_row list" where
  "quantity_observations db m =
     filter (\<lambda>e. xc_org e = cm_org m \<and> xc_receipt e = cm_receipt m \<and> xc_line e = None
        \<and> xc_po_line e = Some (cm_po_line m) \<and> xc_evaluation e = None) (receiving_exceptions db)"

lemma grounded_line:
  assumes "sound db" "l \<in> set (receipt_lines db)" "grounded db e" "xc_line e = Some (rl_id l)" "xc_evaluation e = None"
  shows "xc_type e \<in> set (required_kinds db l)"
proof -
  obtain m where m: "m \<in> set (receipt_lines db)" "rl_id m = rl_id l" "xc_type e \<in> set (required_kinds db m)"
    using assms(3-5) by (auto simp: grounded_def names_line_def)
  then have "m = l" using assms(1,2) by (auto simp: sound_def distinct_map inj_on_def)
  then show ?thesis using m(3) by simp
qed

lemma ordinary_single:
  assumes "sound db"
    "\<And>d e. d \<in> set (receiving_exceptions db) \<Longrightarrow> e \<in> set (receiving_exceptions db) \<Longrightarrow> P d \<Longrightarrow> P e \<Longrightarrow>
       xc_evaluation d = None \<Longrightarrow> xc_evaluation e = None \<Longrightarrow> same_exception d e"
  shows "length (filter (\<lambda>e. P e \<and> xc_evaluation e = None) (receiving_exceptions db)) \<le> 1"
proof -
  have "length (filter P (filter (\<lambda>e. xc_evaluation e = None) (receiving_exceptions db))) \<le> 1"
    using assms by (intro sorted_wrt_single [where R = same_exception]) (auto simp: sound_def)
  then show ?thesis by (simp add: conj_commute)
qed

lemma single_cases: "length xs \<le> 1 \<Longrightarrow> xs = [] \<or> (\<exists>x. xs = [x])"
  by (cases xs) auto

lemma line_exceptions_count:
  assumes "receiving_run db" "l \<in> set (receipt_lines db)"
  shows "length (line_observations db l k) = (if k \<in> set (required_kinds db l) then 1 else 0)"
proof -
  have s: "sound db" and c: "complete db" using run_ok [OF assms(1)] by blast+
  have "length (line_observations db l k) \<le> 1"
    using ordinary_single [OF s, where P = "\<lambda>e. xc_org e = rl_org l \<and> xc_line e = Some (rl_id l) \<and> xc_type e = k"]
    by (simp add: line_observations_def same_exception_def)
  moreover have "line_observations db l k \<noteq> [] \<longleftrightarrow> k \<in> set (required_kinds db l)"
  proof
    assume "line_observations db l k \<noteq> []"
    then obtain e where "e \<in> set (receiving_exceptions db)" "xc_line e = Some (rl_id l)" "xc_type e = k" "xc_evaluation e = None"
      by (auto simp: line_observations_def filter_empty_conv)
    then show "k \<in> set (required_kinds db l)" using grounded_line [OF s assms(2)] s by (auto simp: sound_def)
  next
    assume "k \<in> set (required_kinds db l)"
    then have "line_covered db l k" using c assms(2) by (simp add: complete_def)
    then show "line_observations db l k \<noteq> []" by (auto simp: line_covered_def line_observations_def filter_empty_conv)
  qed
  ultimately show ?thesis using single_cases by fastforce
qed

lemma grounded_quantity:
  assumes "grounded db e" "xc_org e = cm_org m" "xc_receipt e = cm_receipt m" "xc_line e = None"
    "xc_po_line e = Some (cm_po_line m)" "xc_evaluation e = None"
    "find_expectation db (cm_org m) (cm_po_line m) = Some p"
  shows "aggregate_kind db (cm_org m) (cm_receipt m) p = Some (xc_type e)"
  using assms by (auto simp: grounded_def)

lemma quantity_exceptions_types:
  assumes "receiving_run db" "m \<in> set (receipt_comparators db)" "cm_introduced_by m = None"
    "reconciled db (cm_org m) (cm_receipt m)" "find_expectation db (cm_org m) (cm_po_line m) = Some p"
  shows "map xc_type (quantity_observations db m) =
    (case aggregate_kind db (cm_org m) (cm_receipt m) p of None \<Rightarrow> [] | Some k \<Rightarrow> [k])"
proof -
  have s: "sound db" and c: "complete db" using run_ok [OF assms(1)] by blast+
  have kind: "aggregate_kind db (cm_org m) (cm_receipt m) p = Some (xc_type e)"
    if "e \<in> set (receiving_exceptions db)" "xc_org e = cm_org m" "xc_receipt e = cm_receipt m" "xc_line e = None"
      "xc_po_line e = Some (cm_po_line m)" "xc_evaluation e = None" for e
    using grounded_quantity [OF _ that(2-6) assms(5)] s that(1) by (simp add: sound_def)
  have "same_exception d e"
    if "d \<in> set (receiving_exceptions db)" "e \<in> set (receiving_exceptions db)"
      "xc_org d = cm_org m \<and> xc_receipt d = cm_receipt m \<and> xc_line d = None \<and> xc_po_line d = Some (cm_po_line m)"
      "xc_org e = cm_org m \<and> xc_receipt e = cm_receipt m \<and> xc_line e = None \<and> xc_po_line e = Some (cm_po_line m)"
      "xc_evaluation d = None" "xc_evaluation e = None" for d e
    using kind [OF that(1)] kind [OF that(2)] that(3-6) by (simp add: same_exception_def)
  then have "length (quantity_observations db m) \<le> 1"
    using ordinary_single [OF s, where P = "\<lambda>e. xc_org e = cm_org m \<and> xc_receipt e = cm_receipt m \<and> xc_line e = None
        \<and> xc_po_line e = Some (cm_po_line m)"]
    by (simp add: quantity_observations_def)
  then consider "quantity_observations db m = []" | e where "quantity_observations db m = [e]" using single_cases by blast
  then show ?thesis
  proof cases
    case 1
    have "aggregate_kind db (cm_org m) (cm_receipt m) p \<noteq> Some k" for k
    proof
      assume "aggregate_kind db (cm_org m) (cm_receipt m) p = Some k"
      then have "disagrees db m k" using assms(3-5) by (simp add: disagrees_def)
      then have "comparator_covered db m k" using c assms(2) by (simp add: complete_def)
      then show False using 1 by (auto simp: comparator_covered_def quantity_observations_def filter_empty_conv)
    qed
    then show ?thesis using 1 by (auto split: option.splits)
  next
    case (2 e)
    then have "e \<in> set (quantity_observations db m)" by simp
    then have "aggregate_kind db (cm_org m) (cm_receipt m) p = Some (xc_type e)"
      by (intro kind) (auto simp: quantity_observations_def)
    then show ?thesis using 2 by simp
  qed
qed

text \<open>
  C16: Receiving observes every line exactly: of each line ever received, every kind the line requires
  (by its comparator, its condition, the packing count and its identifier) is recorded by receiving
  exactly once, and no other kind is.  Exceptions that a later correction adds name its evaluation and
  are not counted here.
\<close>

theorem line_exceptions_exact:
  assumes "receiving_run db" "l \<in> set (receipt_lines db)"
  shows "length (line_observations db l k) = (if k \<in> set (required_kinds db l) then 1 else 0)"
  by (rule line_exceptions_count [OF assms])

text \<open>
  C17: Reconciliation observes quantities exactly: once a receipt is reconciled, each comparator that
  receiving bound to it (not one that a correction introduced) has exactly the quantity exception of
  receiving that its lines call for: SHORT below the ordered quantity, OVER above it, none when they
  meet or a unit differs.
\<close>

theorem quantity_exceptions_exact:
  assumes "receiving_run db" "m \<in> set (receipt_comparators db)" "cm_introduced_by m = None"
    "reconciled db (cm_org m) (cm_receipt m)" "find_expectation db (cm_org m) (cm_po_line m) = Some p"
  shows "map xc_type (quantity_observations db m) =
    (case aggregate_kind db (cm_org m) (cm_receipt m) p of None \<Rightarrow> [] | Some k \<Rightarrow> [k])"
  by (rule quantity_exceptions_types [OF assms])

section \<open>A reconciled receipt is frozen\<close>

lemma same_length_append: "length (xs @ ys) = length xs \<Longrightarrow> xs @ ys = xs"
  by simp

lemma line_observations_grow:
  "receiving_exceptions db' = receiving_exceptions db @ es \<Longrightarrow> \<exists>ys. line_observations db' l k = line_observations db l k @ ys"
  by (simp add: line_observations_def)

lemma line_observations_kept:
  assumes "receiving_run db" "receiving_run db'" "grows db db'" "l \<in> set (receipt_lines db)"
  shows "line_observations db' l k = line_observations db l k"
proof -
  have "l \<in> set (receipt_lines db')" "required_kinds db' l = required_kinds db l"
    using assms(3,4) required_stable [OF assms(3)] run_ok [OF assms(1)] by (auto simp: grows_def sound_def)
  then have "length (line_observations db' l k) = length (line_observations db l k)"
    using line_exceptions_count assms(1,2,4) by simp
  then show ?thesis using line_observations_grow assms(3) unfolding grows_def by (metis same_length_append)
qed

text \<open>An exception that receiving adds later is not about a receipt that was already reconciled.\<close>

lemma no_late_exception:
  assumes run: "receiving_run db" "receiving_step\<^sup>*\<^sup>* db db'"
    and es: "receiving_exceptions db' = receiving_exceptions db @ es" and e: "e \<in> set es" "xc_evaluation e = None"
  shows "\<not> reconciled db (xc_org e) (xc_receipt e)"
proof (cases "xc_line e")
  case None
  then show ?thesis using runs_timely [OF run] es e by (auto simp: timely_entries_def)
next
  case (Some li)
  have g: "grows db db'" and run': "receiving_run db'" using runs_grow [OF run] by blast+
  have "grounded db' e" using run_ok [OF run'] e(1) es by (auto simp: sound_def)
  then obtain l where l: "l \<in> set (receipt_lines db')" "names_line l e" using e(2) Some by (auto simp: grounded_def)
  show ?thesis
  proof
    assume "reconciled db (xc_org e) (xc_receipt e)"
    from arg_cong [OF reconciled_lines [OF g this, where P = "\<lambda>k. k = l"], of set] l
    have "l \<in> set (receipt_lines db)" by (auto simp: names_line_def)
    from line_observations_kept [OF run(1) run' g this, of "xc_type e"] show False
      using e l(2) by (auto simp: line_observations_def es names_line_def filter_empty_conv)
  qed
qed

text \<open>
  C18: A reconciled receipt is frozen: whatever calls and transactions follow, its lines stay as they
  are, none of its comparators and exceptions is changed or removed, and what is added to them is added by
  a correction: such a comparator names the correction that introduced it, such an exception the
  evaluation that observed it.
\<close>

theorem reconciled_receipt_frozen:
  assumes "receiving_run db" "receiving_step\<^sup>*\<^sup>* db db'" "reconciled db org i"
  shows "filter (\<lambda>l. rl_org l = org \<and> rl_receipt l = i) (receipt_lines db')
       = filter (\<lambda>l. rl_org l = org \<and> rl_receipt l = i) (receipt_lines db)
    \<and> (\<exists>ms. receipt_comparators db' = receipt_comparators db @ ms
         \<and> (\<forall>m \<in> set ms. cm_org m = org \<and> cm_receipt m = i \<longrightarrow> cm_introduced_by m \<noteq> None))
    \<and> (\<exists>es. receiving_exceptions db' = receiving_exceptions db @ es
         \<and> (\<forall>e \<in> set es. xc_org e = org \<and> xc_receipt e = i \<longrightarrow> xc_evaluation e \<noteq> None))"
proof -
  have g: "grows db db'" and r: "receiving_run db'" using runs_grow [OF assms(1,2)] by blast+
  obtain es where es: "receiving_exceptions db' = receiving_exceptions db @ es" using g by (auto simp: grows_def)
  have "\<exists>ms. receipt_comparators db' = receipt_comparators db @ ms
       \<and> (\<forall>m \<in> set ms. cm_org m = org \<and> cm_receipt m = i \<longrightarrow> cm_introduced_by m \<noteq> None)"
    using g assms(3) by (auto simp: grows_def)
  moreover have "filter (\<lambda>l. rl_org l = org \<and> rl_receipt l = i) (receipt_lines db')
       = filter (\<lambda>l. rl_org l = org \<and> rl_receipt l = i) (receipt_lines db)"
    using reconciled_lines [OF g assms(3), where P = "\<lambda>_. True"] by simp
  ultimately show ?thesis using no_late_exception [OF assms(1,2) es] assms(3) es by blast
qed

lemma line_exceptions_exact_witness:
  "length (line_observations ex_received ex_line DAMAGED_UNIT) = 1
   \<and> length (line_observations ex_received ex_line OPENED_UNIT) = 0"
proof -
  have l: "ex_line \<in> set (receipt_lines ex_received)" by (simp add: ex_received_tables)
  have "DAMAGED_UNIT \<in> set (required_kinds ex_received ex_line)" "OPENED_UNIT \<notin> set (required_kinds ex_received ex_line)"
    by (auto simp: required_kinds_def ex_line_def comparator_kinds_def condition_kind_def packing_kind_def
        split: option.splits)
  then show ?thesis
    using line_exceptions_exact [OF ex_received_run l, of DAMAGED_UNIT] line_exceptions_exact [OF ex_received_run l, of OPENED_UNIT]
    by simp
qed

lemma quantity_exceptions_exact_witness:
  "map xc_type (quantity_observations ex_received ex_comparator) = [SHORT]"
proof -
  let ?p = "hd (purchase_order_lines ex_procured)"
  have "ex_comparator \<in> set (receipt_comparators ex_received)" "cm_introduced_by ex_comparator = None"
    "reconciled ex_received (cm_org ex_comparator) (cm_receipt ex_comparator)"
    using ex_received_tables by (simp_all add: ex_comparator_def)
  moreover have "find_expectation ex_received (cm_org ex_comparator) (cm_po_line ex_comparator) = Some ?p"
    by (simp add: find_expectation_def effective_po_line_def effective_correction_def corrected_rows_def
        ex_received_tables ex_comparator_def ex_procured_def)
  moreover have "aggregate_kind ex_received (cm_org ex_comparator) (cm_receipt ex_comparator) ?p = Some SHORT"
    by (simp add: aggregate_kind_def ex_received_tables ex_line_def ex_comparator_def ex_procured_def quantity_kind_def
        numeric_sum_def)
  ultimately show ?thesis using quantity_exceptions_exact [OF ex_received_run, of ex_comparator ?p] by simp
qed

lemma reconciled_receipt_frozen_witness:
  "filter (\<lambda>l. rl_org l = 1 \<and> rl_receipt l = 200) (receipt_lines ex_admitted) = [ex_line]"
proof -
  have "receiving_step\<^sup>*\<^sup>* ex_received ex_admitted" using ex_admitted_call receiving_step.call by blast
  then have "filter (\<lambda>l. rl_org l = 1 \<and> rl_receipt l = 200) (receipt_lines ex_admitted)
      = filter (\<lambda>l. rl_org l = 1 \<and> rl_receipt l = 200) (receipt_lines ex_received)"
    using reconciled_receipt_frozen [OF ex_received_run] ex_received_tables(3) by blast
  then show ?thesis by (simp add: ex_received_tables ex_line_def)
qed

section \<open>Physical units\<close>

text \<open>
  Receiving admits physical units through the Asset operations: a receipt call leads a reachable
  fleet to a reachable fleet, so every invariant of the fleet survives receiving.
\<close>

theorem receiving_keeps_fleet:
  assumes "reachable db" "receiving_call x db db'"
  shows "reachable db'"
  using call_ops [OF assms(2)] ops_reachable assms(1) by blast

lemma receiving_keeps_fleet_witness: "reachable ex_admitted \<and> length (assets ex_admitted) = 1"
  using receiving_keeps_fleet [OF receiving_keeps_fleet [OF ex_procured_reachable ex_received_call] ex_admitted_call]
    ex_admitted_tables by blast

text \<open>Recording exceptions touches neither lines nor Assets.\<close>

definition keeps_units :: "fleet \<Rightarrow> fleet \<Rightarrow> bool" where
  "keeps_units db db' \<longleftrightarrow> assets db' = assets db \<and> asset_identifiers db' = asset_identifiers db
     \<and> receipt_lines db' = receipt_lines db \<and> set (receiving_exceptions db) \<subseteq> set (receiving_exceptions db')"

definition recorded :: "fleet \<Rightarrow> receipt_line_row option \<Rightarrow> uuid option \<Rightarrow> exception_kind \<Rightarrow> bool" where
  "recorded db line conflicting k \<longleftrightarrow> (\<exists>e \<in> set (receiving_exceptions db).
     xc_type e = k \<and> xc_line e = map_option rl_id line \<and> xc_conflicting e = conflicting)"

lemma recorded_kept: "recorded db l c k \<Longrightarrow> keeps_units db db' \<Longrightarrow> recorded db' l c k"
  by (auto simp: recorded_def keeps_units_def)

lemma record_exception_units:
  assumes "record_exception u x h line p c k w = Inr w'"
  shows "keeps_units (w_db w) (w_db w')" "recorded (w_db w') line c k"
proof -
  obtain new where i: "insert_exception x new (w_db w) = Inr (w_db w')"
    and new: "exception_disagreement new = exception_disagreement new" "xc_type new = k" "xc_line new = map_option rl_id line"
      "xc_conflicting new = c"
    using assms by (auto simp: record_exception_def draw_def exec_def rbind_Inr_iff)
  obtain e where e: "w_db w' = (w_db w)\<lparr>receiving_exceptions := receiving_exceptions (w_db w) @ [e],
              exception_workflows := exception_workflows (w_db w) @ [opened_workflow e]\<rparr>"
    "exception_disagreement e = exception_disagreement new" using insert_exception_Inr [OF i] by metis
  show "keeps_units (w_db w) (w_db w')" by (auto simp: e(1) keeps_units_def)
  have "xc_type e = k" "xc_line e = map_option rl_id line" "xc_conflicting e = c"
    using e(2) new by (simp_all add: exception_disagreement_def)
  then show "recorded (w_db w') line c k" by (simp add: e(1) recorded_def)
qed

lemma fold_records:
  assumes "fold_result (\<lambda>k. record_exception u x h l p (c k) k) ks w = Inr w'"
  shows "keeps_units (w_db w) (w_db w') \<and> (\<forall>k \<in> set ks. recorded (w_db w') l (c k) k)"
  using assms
proof (induction ks arbitrary: w)
  case Nil
  then show ?case by (simp add: keeps_units_def)
next
  case (Cons k ks)
  then obtain v where v: "record_exception u x h l p (c k) k w = Inr v"
    "fold_result (\<lambda>k. record_exception u x h l p (c k) k) ks v = Inr w'" by (auto simp: rbind_Inr_iff)
  have "keeps_units (w_db v) (w_db w')" "\<forall>k \<in> set ks. recorded (w_db w') l (c k) k" using Cons.IH [OF v(2)] by blast+
  moreover have "recorded (w_db w') l (c k) k" using record_exception_units(2) [OF v(1)] calculation(1) by (rule recorded_kept)
  ultimately show ?case using record_exception_units(1) [OF v(1)] by (auto simp: keeps_units_def)
qed

lemma conflict_line:
  assumes "line_exceptions u x h l False (Some a) w = Inr w'"
  shows "keeps_units (w_db w) (w_db w')" "recorded (w_db w') (Some l) (Some a) SERIAL_MISMATCH"
proof -
  obtain ks where ks: "line_kinds x (w_db w) l False (Some a) = Inr ks"
    and f: "fold_result (\<lambda>k. record_exception u x h (Some l) None (if k = SERIAL_MISMATCH then Some a else None) k) ks w = Inr w'"
    using assms by (auto simp: line_exceptions_def rbind_Inr_iff)
  have "SERIAL_MISMATCH \<in> set ks" using ks by (auto simp: line_kinds_def rbind_Inr_iff)
  then show "keeps_units (w_db w) (w_db w')" "recorded (w_db w') (Some l) (Some a) SERIAL_MISMATCH"
    using fold_records [OF f] by force+
qed

lemma bind_comparator_units:
  assumes "bind_comparator u x h t g None w = Inr w'"
  shows "keeps_units (w_db w) (w_db w')"
proof -
  have "w' = w \<or> (\<exists>c. insert_comparator x c (w_db w) = Inr (w_db w'))"
    using assms by (auto simp: bind_comparator_def Let_def draw_def exec_def rbind_Inr_iff ensure_Inr_iff split: if_splits)
  then consider "w' = w" | c d where "w_db w' = (w_db w)\<lparr>receipt_comparators := receipt_comparators (w_db w) @ [d]\<rparr>"
    using insert_comparator_Inr by metis
  then show ?thesis by cases (simp_all add: keeps_units_def)
qed

lemma plain_line_row:
  assumes "plain_line x new db = Inr (l, db')"
  shows "db' = db\<lparr>receipt_lines := receipt_lines db @ [l]\<rparr>" "rl_asset l = rl_asset new" "rl_observed l = rl_observed new"
proof -
  obtain performer where i: "insert_receipt_line x (new\<lparr>rl_actor := performer\<rparr>) db = Inr (l, db')"
    using assms by (auto simp: plain_line_def rbind_Inr_iff)
  obtain r :: receipt_row and t :: item_row where "db' = db\<lparr>receipt_lines := receipt_lines db @ [l]\<rparr>"
    "l = new\<lparr>rl_actor := performer, rl_occurred := rc_received_at r, rl_serialized := it_serialized t\<rparr>"
    by (rule insert_receipt_line_Inr [OF i]) (rule that, assumption+)
  then show "db' = db\<lparr>receipt_lines := receipt_lines db @ [l]\<rparr>" "rl_asset l = rl_asset new" "rl_observed l = rl_observed new"
    by simp_all
qed

lemma conflict_record:
  assumes r: "record_line u x h q w = Inr w'" and v: "lq_unit q = Some v" and a: "known_holder x (w_db w) v = Some a"
  shows "assets (w_db w') = assets (w_db w) \<and> asset_identifiers (w_db w') = asset_identifiers (w_db w)
    \<and> (\<exists>l. receipt_lines (w_db w') = receipt_lines (w_db w) @ [l] \<and> rl_asset l = None
         \<and> rl_observed l = Some (ur_type v, the (ur_value v)) \<and> recorded (w_db w') (Some l) (Some a) SERIAL_MISMATCH)"
proof -
  obtain w1 where b: "(case lq_po_line q of None \<Rightarrow> Inr w | Some p \<Rightarrow> bind_comparator u x h p (lq_generation q) None w) = Inr w1"
    using r by (auto simp: record_line_def rbind_Inr_iff)
  have k: "keeps_units (w_db w) (w_db w1)"
    using b by (auto simp: keeps_units_def split: option.splits dest!: bind_comparator_units)
  have a1: "known_holder x (w_db w1) v = Some a" using a k by (simp add: known_holder_def keeps_units_def cong: option.case_cong)
  obtain i l n db2 where l: "plain_line x ((request_row h q i)\<lparr>rl_observed := Some (ur_type v, the (ur_value v))\<rparr>) (w_db w1)
      = Inr (l, db2)" and "line_exceptions u x h l False (Some a) (w1\<lparr>w_draws := n, w_db := db2\<rparr>) = Inr w'"
    using r b a1 by (auto simp: record_line_def v draw_def Let_def exec_row_def rbind_Inr_iff ensure_Inr_iff)
  moreover define w2 where "w2 = w1\<lparr>w_draws := n, w_db := db2\<rparr>"
  ultimately have l: "plain_line x ((request_row h q i)\<lparr>rl_observed := Some (ur_type v, the (ur_value v))\<rparr>) (w_db w1)
      = Inr (l, w_db w2)" and e: "line_exceptions u x h l False (Some a) w2 = Inr w'" by simp_all
  note L = plain_line_row [OF l]
  have "receipt_lines (w_db w') = receipt_lines (w_db w) @ [l]" "assets (w_db w') = assets (w_db w)"
    "asset_identifiers (w_db w') = asset_identifiers (w_db w)"
    using conflict_line(1) [OF e] k by (simp_all add: keeps_units_def L(1))
  moreover have "rl_asset l = None" "rl_observed l = Some (ur_type v, the (ur_value v))"
    using L(2,3) by (simp_all add: request_row_def)
  ultimately show ?thesis using conflict_line(2) [OF e] by blast
qed

text \<open>
  C19: A unit that shows an identifier some Asset already carries is received as a conflict: no Asset
  and no identifier is created, the line keeps the observed value, and its SERIAL_MISMATCH exception
  names the Asset that carries it.
\<close>

theorem known_serial_admits_no_asset:
  assumes "add_line uuid7 x i q db = Inr (v, db')" "lq_unit q = Some u" "known_holder x db u = Some a"
  shows "assets db' = assets db \<and> asset_identifiers db' = asset_identifiers db
    \<and> (\<exists>l. receipt_lines db' = receipt_lines db @ [l] \<and> rl_asset l = None
         \<and> rl_observed l = Some (ur_type u, the (ur_value u))
         \<and> (\<exists>e \<in> set (receiving_exceptions db'). xc_type e = SERIAL_MISMATCH \<and> xc_line e = Some (rl_id l)
              \<and> xc_conflicting e = Some a))"
proof -
  obtain h w where "record_line uuid7 x h q \<lparr>w_draws = 0, w_db = db\<rparr> = Inr w" "w_db w = db'"
    using assms(1) by (auto simp: add_line_def rbind_Inr_iff elim!: finish_call_Inr)
  then show ?thesis using conflict_record [OF _ assms(2)] assms(3) by (fastforce simp: recorded_def)
qed

lemma known_serial_admits_no_asset_witness:
  "assets ex_conflicted = assets ex_admitted \<and> length (receipt_lines ex_conflicted) = length (receipt_lines ex_admitted) + 1"
proof -
  have "lq_unit (ex_unit [85]) = Some (the (lq_unit (ex_unit [85])))" by (simp add: ex_unit_def)
  then have "assets ex_conflicted = assets ex_admitted
      \<and> (\<exists>l. receipt_lines ex_conflicted = receipt_lines ex_admitted @ [l])"
    using known_serial_admits_no_asset ex_conflicted_call ex_admitted_tables(2) by blast
  then show ?thesis by auto
qed

end
