(* ===== verification/EvaluationHealth.thy ===== *)
theory EvaluationHealth
  imports Receiving
begin

text \<open>
  The health views over corrections (\<open>correction_health_0011.py\<close>): what a stored evaluation of a
  receipt must agree with.  They read history only; a malformed evaluation is reported, never repaired.
\<close>

section \<open>Joins\<close>

text \<open>\<open>LEFT JOIN\<close>: the matching rows, or one row of nulls; and \<open>COALESCE(max(\<dots>), 0)\<close>.\<close>

definition left_join :: "('a \<Rightarrow> bool) \<Rightarrow> 'a list \<Rightarrow> 'a option list" where
  "left_join P xs = (case filter P xs of [] \<Rightarrow> [None] | ys \<Rightarrow> map Some ys)"

definition max_or_zero :: "int list \<Rightarrow> int" where
  "max_or_zero xs = (case latest_by id xs of None \<Rightarrow> 0 | Some m \<Rightarrow> m)"

lemma set_left_join: "set (left_join P xs) = (if \<exists>y \<in> set xs. P y then Some ` {y \<in> set xs. P y} else {None})"
proof (cases "filter P xs")
  case Nil
  then show ?thesis by (auto simp: left_join_def filter_empty_conv)
next
  case (Cons y ys)
  then have "set (filter P xs) = set (y # ys)" by simp
  then have "{y \<in> set xs. P y} = insert y (set ys)" by simp
  moreover from this have "\<exists>y \<in> set xs. P y" by blast
  ultimately show ?thesis by (simp add: left_join_def Cons)
qed

section \<open>Stored evaluations\<close>

definition evaluations_of :: "fleet \<Rightarrow> uuid \<Rightarrow> uuid \<Rightarrow> evaluation_row list" where
  "evaluations_of db org correction =
     filter (\<lambda>e. ve_org e = org \<and> ve_correction e = correction) (receipt_correction_evaluations db)"

text \<open>A comparator, or an exception, that existed by the time of an evaluation.\<close>

definition bound_by :: "fleet \<Rightarrow> evaluation_row \<Rightarrow> comparator_row \<Rightarrow> bool" where
  "bound_by db e b \<longleftrightarrow> cm_org b = ve_org e \<and> cm_receipt b = ve_receipt e
     \<and> (case cm_introduced_by b of
          None \<Rightarrow> True | Some c \<Rightarrow> \<exists>i \<in> set (evaluations_of db (cm_org b) c). ve_seq i \<le> ve_seq e)"

definition observed_by :: "fleet \<Rightarrow> evaluation_row \<Rightarrow> exception_row \<Rightarrow> bool" where
  "observed_by db e q \<longleftrightarrow> xc_org q = ve_org e \<and> xc_receipt q = ve_receipt e
     \<and> (case xc_evaluation q of
          None \<Rightarrow> True
        | Some v \<Rightarrow> \<exists>i \<in> set (receipt_correction_evaluations db). ve_org i = xc_org q \<and> ve_id i = v \<and> ve_seq i \<le> ve_seq e)"

definition pins :: "source_row \<Rightarrow> comparator_row \<Rightarrow> bool" where
  "pins s b \<longleftrightarrow> so_root s = cm_po_line b \<and> so_generation s = cm_generation b \<and> so_source s = cm_source b"

definition sources_of :: "source_row list \<Rightarrow> uuid \<Rightarrow> uuid \<Rightarrow> source_row list" where
  "sources_of ss org v = filter (\<lambda>s. so_org s = org \<and> so_evaluation s = v) ss"

definition consequences_of :: "fleet \<Rightarrow> uuid \<Rightarrow> uuid \<Rightarrow> (consequence_row \<times> exception_row) list" where
  "consequences_of db org v =
     concat (map (\<lambda>q. map (Pair q)
         (filter (\<lambda>e. xc_org e = cq_org q \<and> xc_id e = cq_exception q) (receiving_exceptions db)))
       (filter (\<lambda>q. cq_org q = org \<and> cq_evaluation q = v) (receipt_evaluation_exceptions db)))"

text \<open>The disagreements of an evaluation, without their receipt.\<close>

definition disagreements :: "fleet \<Rightarrow> uuid \<Rightarrow> uuid \<Rightarrow> disagreement list" where
  "disagreements db org v = map snd (evaluation_disagreements db org v)"

definition unsupported_before :: "fleet \<Rightarrow> evaluation_row \<Rightarrow> uuid \<Rightarrow> bool" where
  "unsupported_before db e i \<longleftrightarrow>
     (\<exists>p \<in> set (receipt_evaluation_exceptions db). cq_org p = ve_org e \<and> cq_exception p = i \<and> \<not> cq_supported p
        \<and> (\<exists>f \<in> set (receipt_correction_evaluations db). ve_org f = cq_org p \<and> ve_id f = cq_evaluation p
             \<and> ve_receipt f = ve_receipt e \<and> ve_seq f < ve_seq e))"

definition supporting :: "fleet \<Rightarrow> uuid \<Rightarrow> uuid \<Rightarrow> disagreement \<Rightarrow> nat" where
  "supporting db org v d =
     length (filter (\<lambda>(q, e). cq_supported q \<and> exception_disagreement e = d) (consequences_of db org v))"

section \<open>Anomalies of an evaluation\<close>

definition missing_evaluation :: "fleet \<Rightarrow> line_facts krow \<Rightarrow> bool" where
  "missing_evaluation db c \<longleftrightarrow> k_role c = CORRECTED \<and>
     (case evaluations_of db (k_org c) (k_id c) of
        [] \<Rightarrow> True
      | es \<Rightarrow> \<exists>e \<in> set es. ve_receipt e \<noteq> k_parent c \<or> ve_line e \<noteq> k_root c
               \<or> ve_generation e \<noteq> k_generation c \<or> ve_actor e \<noteq> k_actor c
               \<or> ve_occurred e \<noteq> k_corrected_at c \<or> ve_txn e \<noteq> k_txn c)"

text \<open>The generation of a line as of an evaluation of its receipt.\<close>

definition generation_by :: "fleet \<Rightarrow> evaluation_row \<Rightarrow> uuid \<Rightarrow> int" where
  "generation_by db e line =
     max_or_zero (map k_generation (filter (\<lambda>c. k_org c = ve_org e \<and> k_root c = line
         \<and> (\<exists>i \<in> set (evaluations_of db (k_org c) (k_id c)). ve_receipt i = ve_receipt e \<and> ve_seq i \<le> ve_seq e))
       (receipt_line_corrections db)))"

definition line_population_bad :: "fleet \<Rightarrow> evaluation_row \<Rightarrow> bool" where
  "line_population_bad db e \<longleftrightarrow>
     (let ss = sources_of (receipt_evaluation_lines db) (ve_org e) (ve_id e) in
      (\<exists>r \<in> set (receipt_lines db). rl_org r = ve_org e \<and> rl_receipt r = ve_receipt e
         \<and> (\<forall>s \<in> set ss. so_root s \<noteq> rl_id r))
      \<or> (\<exists>s \<in> set ss. \<exists>r \<in> set (receipt_lines db). rl_org r = so_org s \<and> rl_id r = so_root s
           \<and> (rl_receipt r \<noteq> ve_receipt e \<or> so_actor s \<noteq> ve_actor e \<or> so_occurred s \<noteq> ve_occurred e
              \<or> so_generation s \<noteq> generation_by db e (so_root s))))"

definition expectation_population_bad :: "fleet \<Rightarrow> evaluation_row \<Rightarrow> bool" where
  "expectation_population_bad db e \<longleftrightarrow>
     (let ss = sources_of (receipt_evaluation_expectations db) (ve_org e) (ve_id e);
          bs = filter (bound_by db e) (receipt_comparators db) in
      (\<exists>b \<in> set bs. \<forall>s \<in> set ss. \<not> pins s b)
      \<or> (\<exists>s \<in> set ss. so_actor s \<noteq> ve_actor e \<or> so_occurred s \<noteq> ve_occurred e \<or> (\<forall>b \<in> set bs. \<not> pins s b)))"

definition exception_links_bad :: "fleet \<Rightarrow> evaluation_row \<Rightarrow> bool" where
  "exception_links_bad db e \<longleftrightarrow>
     (\<exists>q \<in> set (receiving_exceptions db). observed_by db e q
        \<and> (\<forall>c \<in> set (receipt_evaluation_exceptions db).
             \<not> (cq_org c = ve_org e \<and> cq_evaluation c = ve_id e \<and> cq_exception c = xc_id q)))"

definition exception_support_bad :: "fleet \<Rightarrow> evaluation_row \<Rightarrow> bool" where
  "exception_support_bad db e \<longleftrightarrow>
     (\<exists>(q, o') \<in> set (consequences_of db (ve_org e) (ve_id e)).
        xc_receipt o' \<noteq> ve_receipt e \<or> cq_actor q \<noteq> ve_actor e \<or> cq_occurred q \<noteq> ve_occurred e
        \<or> cq_supported q \<noteq> (exception_disagreement o' \<in> set (disagreements db (ve_org e) (ve_id e))
             \<and> \<not> unsupported_before db e (xc_id o')))"

definition coverage_bad :: "fleet \<Rightarrow> evaluation_row \<Rightarrow> bool" where
  "coverage_bad db e \<longleftrightarrow>
     (\<exists>d \<in> set (disagreements db (ve_org e) (ve_id e)). supporting db (ve_org e) (ve_id e) d \<noteq> 1)"

text \<open>The note of an automatic resolution.\<close>

definition superseded_note :: "uuid \<Rightarrow> pgtext" where
  "superseded_note pair =
     lit ''Corrected receipt reality superseded this observation's assertion. ''
     @ lit ''Reason: see receipt-line correction pair '' @ uuid_text pair @ lit ''.''"

text \<open>
  The workflow consequence of a link: an unsupported open observation is resolved by the evaluation,
  right after the event it was read at, and nothing else is.
\<close>

definition prior_events :: "fleet \<Rightarrow> consequence_row \<Rightarrow> workflow_event option list" where
  "prior_events db q = left_join (\<lambda>v. ev_org v = cq_org q \<and> ev_exception v = cq_exception q \<and> ev_seq v = cq_prior_seq q)
     (exception_events db)"

definition resolutions :: "fleet \<Rightarrow> consequence_row \<Rightarrow> workflow_event option list" where
  "resolutions db q = left_join (\<lambda>v. ev_org v = cq_org q \<and> ev_exception v = cq_exception q
     \<and> ev_evaluation v = Some (cq_evaluation q)) (exception_events db)"

definition consequence_bad ::
  "(workflow_event \<Rightarrow> bool) \<Rightarrow> evaluation_row \<Rightarrow> consequence_row \<Rightarrow> workflow_event option \<Rightarrow> workflow_event option \<Rightarrow> bool" where
  "consequence_bad note_bad e q prior r \<longleftrightarrow>
     (cq_prior_seq q > 0 \<and> prior = None)
     \<or> (\<not> cq_supported q \<and> \<not> closed (case prior of None \<Rightarrow> OPEN | Some p \<Rightarrow> ev_to p)
        \<and> (case r of
             None \<Rightarrow> True
           | Some v \<Rightarrow> ev_to v \<noteq> RESOLVED \<or> ev_seq v \<noteq> cq_prior_seq q + 1 \<or> ev_actor v \<noteq> ve_actor e
               \<or> ev_occurred v \<noteq> ve_occurred e \<or> note_bad v))
     \<or> ((cq_supported q \<or> (case prior of None \<Rightarrow> False | Some p \<Rightarrow> closed (ev_to p))) \<and> r \<noteq> None)"

definition workflow_consequence_bad :: "fleet \<Rightarrow> evaluation_row \<Rightarrow> bool" where
  "workflow_consequence_bad db e \<longleftrightarrow>
     (\<exists>c \<in> set (receipt_line_corrections db). k_org c = ve_org e \<and> k_id c = ve_correction e
        \<and> (\<exists>q \<in> set (receipt_evaluation_exceptions db). cq_org q = ve_org e \<and> cq_evaluation q = ve_id e
             \<and> (\<exists>prior \<in> set (prior_events db q). \<exists>r \<in> set (resolutions db q).
                  consequence_bad (\<lambda>v. ev_note v \<noteq> Some (superseded_note (k_pair c))) e q prior r)))"

section \<open>The views\<close>

datatype evaluation_issue =
    MISSING_CORRECTION_EVALUATION | EVALUATION_LINE_POPULATION | EVALUATION_EXPECTATION_POPULATION
  | EVALUATION_EXCEPTION_LINKS | EVALUATION_EXCEPTION_SUPPORT | EVALUATION_DISAGREEMENT_COVERAGE
  | EVALUATION_WORKFLOW_CONSEQUENCE

definition evaluation_problems :: "(evaluation_issue \<times> (fleet \<Rightarrow> evaluation_row \<Rightarrow> bool)) list" where
  "evaluation_problems =
     [(EVALUATION_LINE_POPULATION, line_population_bad),
      (EVALUATION_EXPECTATION_POPULATION, expectation_population_bad),
      (EVALUATION_EXCEPTION_LINKS, exception_links_bad),
      (EVALUATION_EXCEPTION_SUPPORT, exception_support_bad),
      (EVALUATION_DISAGREEMENT_COVERAGE, coverage_bad),
      (EVALUATION_WORKFLOW_CONSEQUENCE, workflow_consequence_bad)]"

definition receipt_evaluation_anomalies :: "fleet \<Rightarrow> (uuid \<times> uuid \<times> evaluation_issue) list" where
  "receipt_evaluation_anomalies db =
     map (\<lambda>c. (k_org c, k_parent c, MISSING_CORRECTION_EVALUATION))
       (filter (missing_evaluation db) (receipt_line_corrections db))
     @ concat (map (\<lambda>(issue, bad).
         map (\<lambda>e. (ve_org e, ve_receipt e, issue)) (filter (bad db) (receipt_correction_evaluations db)))
       evaluation_problems)"

definition evaluation_anomalous :: "fleet \<Rightarrow> uuid \<Rightarrow> uuid \<Rightarrow> bool" where
  "evaluation_anomalous db org receipt \<longleftrightarrow>
     (\<exists>(o', r, _) \<in> set (receipt_evaluation_anomalies db). o' = org \<and> r = receipt)"

datatype anomaly_kind =
    MALFORMED_ASSET_PAIR | MALFORMED_PROCUREMENT_PAIR | MALFORMED_RECEIPT_PAIR | WORKFLOW_PROJECTION
  | EVALUATION evaluation_issue

text \<open>\<open>correction_anomalies\<close>: every discrepancy of corrected history in one list.\<close>

definition correction_anomalies :: "fleet \<Rightarrow> (uuid \<times> uuid \<times> anomaly_kind) list" where
  "correction_anomalies db =
     concat (map (\<lambda>a. map (\<lambda>_. (as_org a, as_id a, MALFORMED_ASSET_PAIR))
         (filter (\<lambda>i. i = as_id a) (asset_correction_anomalies db))) (assets db))
     @ map (\<lambda>(org, r). (org, r, MALFORMED_PROCUREMENT_PAIR)) (record_anomalies po_records db)
     @ map (\<lambda>(org, r). (org, r, MALFORMED_RECEIPT_PAIR)) (record_anomalies line_records db)
     @ map (\<lambda>(org, i). (org, i, WORKFLOW_PROJECTION)) (exception_workflow_anomalies db)
     @ map (\<lambda>(org, r, i). (org, r, EVALUATION i)) (receipt_evaluation_anomalies db)"

end
