(* ===== verification/RecordGuards.thy ===== *)
theory RecordGuards
  imports EvaluationHealth ReceivingService
begin

text \<open>
  The database boundary of record corrections: the guard trigger that both correction tables
  instantiate (\<open>record_guard\<close> of \<open>correction_records_0011.py\<close>), the guard of the evaluation tables and
  the completeness assertion (\<open>correction_evaluation_0011.py\<close>).
\<close>

section \<open>Correction rows\<close>

text \<open>What a correction table adds to the shared guard: its admission, its checks and its keys.\<close>

record 'f kguard =
  kg_class :: "'f kclass"
  kg_admit :: "ctx \<Rightarrow> fleet \<Rightarrow> 'f krow \<Rightarrow> uuid \<Rightarrow> 'f \<Rightarrow> sqlstate + 'f krow"
  kg_check :: "'f krow \<Rightarrow> bool"
  kg_refs :: "fleet \<Rightarrow> 'f krow \<Rightarrow> bool"

definition admit_procurement :: "ctx \<Rightarrow> fleet \<Rightarrow> po_facts krow \<Rightarrow> uuid \<Rightarrow> po_facts \<Rightarrow> sqlstate + po_facts krow" where
  "admit_procurement x db k parent facts =
     ensure (\<forall>q \<in> set (purchase_orders db). po_org q = k_org k \<and> po_id q = parent \<longrightarrow> po_status q = ISSUED) E23514
       (ensure (\<forall>c \<in> set (receipt_comparators db). \<not> (cm_org c = k_org k \<and> cm_po_line c = k_root k)) E40001
         (ensure (k_parent k = parent) E23514 (Inr k)))"

text \<open>A comparator that a correction newly selects: an active leaf of the receipt's issued order.\<close>

definition active_leaf :: "fleet \<Rightarrow> uuid \<Rightarrow> uuid option \<Rightarrow> uuid \<Rightarrow> bool" where
  "active_leaf db org order line \<longleftrightarrow>
     (\<exists>p \<in> set (purchase_order_lines db). pl_org p = org \<and> pl_id p = line \<and> Some (pl_po p) = order
        \<and> (\<exists>q \<in> set (purchase_orders db). po_org q = org \<and> po_id q = pl_po p \<and> po_status q = ISSUED)
        \<and> (\<forall>s \<in> set (purchase_order_lines db). \<not> (pl_org s = org \<and> pl_supersedes s = Some (pl_id p))))"

definition effective_selection :: "fleet \<Rightarrow> uuid \<Rightarrow> uuid \<Rightarrow> uuid option" where
  "effective_selection db org line =
     (case List.find (\<lambda>l. rl_org l = org \<and> rl_id l = line) (receipt_lines db) of
        None \<Rightarrow> None | Some l \<Rightarrow> rl_po_line (effective_receipt_line db l))"

definition admit_replacement :: "fleet \<Rightarrow> receipt_row \<Rightarrow> line_facts krow \<Rightarrow> uuid \<Rightarrow> line_facts \<Rightarrow> sqlstate + unit" where
  "admit_replacement db r k parent facts =
     (let f = k_facts k in
      ensure (k_parent k = parent \<and> lf_serialized f = lf_serialized facts \<and> lf_asset f = lf_asset facts
              \<and> lf_owner f = lf_owner facts \<and> lf_custodian f = lf_custodian facts) E23514
     (ensure (lf_serialized facts \<longrightarrow> lf_quantity f = Num 1 \<and> lf_item f = lf_item facts) E23514
     (ensure (\<not> lf_serialized facts \<longrightarrow> lf_observed f = None
              \<and> (\<forall>t \<in> set (items db). it_org t = k_org k \<and> it_id t = lf_item f \<longrightarrow> \<not> it_serialized t)) E23514
     (ensure (lf_asset facts \<noteq> None \<longrightarrow> lf_observed f = None) E23514
     (ensure (lf_packing f \<noteq> None \<longrightarrow> rc_packing_reference r \<noteq> None) E23514
     (ensure (case lf_po_line f of
                None \<Rightarrow> True
              | Some p \<Rightarrow> Some p = effective_selection db (k_org k) (k_root k)
                          \<or> active_leaf db (k_org k) (rc_po r) p) E40001 (Inr ())))))))"

definition admit_receipt_line ::
  "ctx \<Rightarrow> fleet \<Rightarrow> line_facts krow \<Rightarrow> uuid \<Rightarrow> line_facts \<Rightarrow> sqlstate + line_facts krow" where
  "admit_receipt_line x db k parent facts =
     rbind (lock_receiving_context x db (k_org k) parent) (\<lambda>r.
       ensure (reconciled db (k_org k) parent) E23514
         (ensure (k_role k = REVERSAL \<longrightarrow> \<not> evaluation_anomalous db (k_org k) parent) EP0001
           (rbind (if k_role k = CORRECTED then admit_replacement db r k parent facts else Inr ()) (\<lambda>_.
              if lf_observed facts = None then Inr (k\<lparr>k_conflicting := None\<rparr>)
              else rbind (from_option E23514
                            (case lf_observed (k_facts k) of None \<Rightarrow> None | Some v \<Rightarrow> readable_holder db (k_org k) v))
                     (\<lambda>a. Inr (k\<lparr>k_conflicting := Some a\<rparr>))))))"

definition guard_record :: "'f kguard \<Rightarrow> ctx \<Rightarrow> fleet \<Rightarrow> 'f krow \<Rightarrow> sqlstate + 'f krow" where
  "guard_record g x db new =
     (let cls = kg_class g in
      ensure (x_org x = Some (k_org new) \<and> x_actor_hint x = None) E42501
        (rbind (current_authenticated_actor x db) (\<lambda>performer.
         rbind (from_option E23503 (kc_root cls db (k_org new) (k_root new))) (\<lambda>(parent, occurred, facts).
         rbind (kg_admit g x db new parent facts) (\<lambda>k.
           ensure (k_generation k = generation_of (k_org k) (k_root k) (kc_rows cls db) + 1) E40001
             (ensure (k_role k = REVERSAL \<longrightarrow> (k_org k, k_root k) \<notin> set (record_anomalies cls db)) EP0001
               (Inr (k\<lparr>k_actor := performer, k_txn := x_txn x, k_occurred := occurred,
                       k_reason := normalize_correction_reason (k_reason k)\<rparr>))))))))"

definition metadata_check :: "'f krow \<Rightarrow> bool" where
  "metadata_check k \<longleftrightarrow> k_role k \<in> {REVERSAL, CORRECTED} \<and> k_generation k > 0 \<and> isfinite (k_corrected_at k)
     \<and> length_between 1 4000 (k_reason k) \<and> has_nonspace (k_reason k)
     \<and> k_reason k = normalize_correction_reason (k_reason k) \<and> isfinite (k_occurred k)"

definition record_unique :: "'f krow list \<Rightarrow> 'f krow \<Rightarrow> bool" where
  "record_unique ks k \<longleftrightarrow>
     (\<forall>h \<in> set ks. k_id h \<noteq> k_id k \<and> \<not> (k_org h = k_org k \<and> k_pair h = k_pair k \<and> k_role h = k_role k)
        \<and> \<not> (k_org h = k_org k \<and> k_root h = k_root k \<and> k_generation h = k_generation k \<and> k_role h = k_role k))"

definition insert_record :: "'f kguard \<Rightarrow> ctx \<Rightarrow> 'f krow \<Rightarrow> fleet \<Rightarrow> sqlstate + ('f krow \<times> fleet)" where
  "insert_record g x new db =
     ensure (k_generation new \<le> int4_max) E22003
       (rbind (guard_record g x db new) (\<lambda>k.
         ensure (visible x (k_org k)) E42501
           (ensure (metadata_check k \<and> kg_check g k) E23514
             (ensure (record_unique (kc_rows (kg_class g) db) k) E23505
               (ensure (k_org k \<in> set (organizations db) \<and> actor_exists db (k_org k) (k_actor k) \<and> kg_refs g db k) E23503
                 (rbind (enforce_authenticated_creator x db (k_actor k) None) (\<lambda>_.
                   Inr (k, kc_add (kg_class g) k db))))))))"

definition procurement_check :: "po_facts krow \<Rightarrow> bool" where
  "procurement_check k \<longleftrightarrow> positive_finite (pf_quantity (k_facts k)) \<and> nonneg_finite (pf_price (k_facts k))
     \<and> holds_if isfinite (pf_expected (k_facts k))"

definition observation_check :: "line_facts krow \<Rightarrow> bool" where
  "observation_check k \<longleftrightarrow> positive_finite (lf_quantity (k_facts k)) \<and> holds_if nonneg_finite (lf_packing (k_facts k))
     \<and> holds_if (\<lambda>n. length n \<le> 4000) (lf_notes (k_facts k))
     \<and> holds_if (\<lambda>v. length_between 1 500 (btrim (snd v))) (lf_observed (k_facts k))"

definition po_guard :: "po_facts kguard" where
  "po_guard =
     \<lparr>kg_class = po_records, kg_admit = admit_procurement, kg_check = procurement_check,
      kg_refs = (\<lambda>db k. po_line_exists db (k_org k) (k_root k) \<and> order_exists db (k_org k) (k_parent k)
        \<and> item_exists db (k_org k) (pf_item (k_facts k)))\<rparr>"

definition line_guard :: "line_facts kguard" where
  "line_guard =
     \<lparr>kg_class = line_records, kg_admit = admit_receipt_line, kg_check = observation_check,
      kg_refs = (\<lambda>db k. (\<exists>l \<in> set (receipt_lines db). rl_org l = k_org k \<and> rl_id l = k_root k)
        \<and> receipt_exists db (k_org k) (k_parent k) \<and> item_exists db (k_org k) (lf_item (k_facts k))
        \<and> holds_if (po_line_exists db (k_org k)) (lf_po_line (k_facts k))
        \<and> holds_if (party_exists db (k_org k)) (lf_owner (k_facts k))
        \<and> holds_if (party_exists db (k_org k)) (lf_custodian (k_facts k))
        \<and> holds_if (asset_exists db (k_org k)) (lf_asset (k_facts k))
        \<and> holds_if (asset_exists db (k_org k)) (k_conflicting k))\<rparr>"

section \<open>Evaluation rows\<close>

text \<open>The context every evaluation table requires, and the Actor it stamps.\<close>

definition evaluation_context :: "ctx \<Rightarrow> fleet \<Rightarrow> uuid \<Rightarrow> sqlstate + uuid" where
  "evaluation_context x db org =
     ensure (x_org x = Some org \<and> x_actor_hint x = None) E42501 (current_authenticated_actor x db)"

definition evaluation_cause :: "ctx \<Rightarrow> fleet \<Rightarrow> evaluation_row \<Rightarrow> uuid \<Rightarrow> line_facts krow option" where
  "evaluation_cause x db e performer =
     (case List.find (\<lambda>c. k_org c = ve_org e \<and> k_id c = ve_correction e \<and> k_role c = CORRECTED) (receipt_line_corrections db) of
        None \<Rightarrow> None
      | Some c \<Rightarrow> if k_parent c = ve_receipt e \<and> k_root c = ve_line e \<and> k_actor c = performer
                     \<and> k_generation c = ve_generation e \<and> k_txn c = x_txn x
                  then Some c else None)"

definition next_evaluation :: "fleet \<Rightarrow> uuid \<Rightarrow> uuid \<Rightarrow> int" where
  "next_evaluation db org receipt =
     max_or_zero (map ve_seq (filter (\<lambda>e. ve_org e = org \<and> ve_receipt e = receipt) (receipt_correction_evaluations db))) + 1"

definition insert_evaluation :: "ctx \<Rightarrow> evaluation_row \<Rightarrow> fleet \<Rightarrow> sqlstate + (evaluation_row \<times> fleet)" where
  "insert_evaluation x new db =
     ensure (ve_seq new \<le> int4_max) E22003
       (rbind (evaluation_context x db (ve_org new)) (\<lambda>performer.
        rbind (from_option E23514 (evaluation_cause x db new performer)) (\<lambda>c.
        rbind (lock_receiving_context x db (ve_org new) (ve_receipt new)) (\<lambda>_.
          ensure (ve_seq new = next_evaluation db (ve_org new) (ve_receipt new)) E40001
            (let e = new\<lparr>ve_actor := performer, ve_occurred := k_corrected_at c, ve_txn := x_txn x\<rparr> in
             ensure (visible x (ve_org e)) E42501
               (ensure (ve_seq e > 0 \<and> isfinite (ve_occurred e)) E23514
                 (ensure (\<forall>d \<in> set (receipt_correction_evaluations db). ve_id d \<noteq> ve_id e
                            \<and> \<not> (ve_org d = ve_org e \<and> ve_correction d = ve_correction e)
                            \<and> \<not> (ve_org d = ve_org e \<and> ve_receipt d = ve_receipt e \<and> ve_seq d = ve_seq e)) E23505
                   (ensure (ve_org e \<in> set (organizations db) \<and> actor_exists db (ve_org e) (ve_actor e)
                            \<and> receipt_exists db (ve_org e) (ve_receipt e)) E23503
                     (rbind (enforce_authenticated_creator x db (ve_actor e) None) (\<lambda>_.
                       Inr (e, db\<lparr>receipt_correction_evaluations := receipt_correction_evaluations db @ [e]\<rparr>)))))))))))"

text \<open>A consequence names an evaluation of the same transaction and Actor.\<close>

definition evaluation_of :: "ctx \<Rightarrow> fleet \<Rightarrow> uuid \<Rightarrow> uuid \<Rightarrow> uuid \<Rightarrow> evaluation_row option" where
  "evaluation_of x db org v performer =
     (case List.find (\<lambda>e. ve_org e = org \<and> ve_id e = v) (receipt_correction_evaluations db) of
        None \<Rightarrow> None | Some e \<Rightarrow> if ve_txn e = x_txn x \<and> ve_actor e = performer then Some e else None)"

definition stamp_source :: "ctx \<Rightarrow> source_row \<Rightarrow> fleet \<Rightarrow> sqlstate + source_row" where
  "stamp_source x new db =
     rbind (evaluation_context x db (so_org new)) (\<lambda>performer.
     rbind (from_option E23514 (evaluation_of x db (so_org new) (so_evaluation new) performer)) (\<lambda>e.
       Inr (new\<lparr>so_actor := performer, so_occurred := ve_occurred e\<rparr>)))"

definition source_ok :: "source_row list \<Rightarrow> source_row \<Rightarrow> sqlstate + unit" where
  "source_ok ss s =
     ensure (isfinite (so_occurred s) \<and> (if so_generation s = 0 then so_source s = None
               else so_generation s > 0 \<and> so_source s \<noteq> None)) E23514
       (ensure (\<forall>t \<in> set ss. so_id t \<noteq> so_id s
                  \<and> \<not> (so_org t = so_org s \<and> so_evaluation t = so_evaluation s \<and> so_root t = so_root s)) E23505 (Inr ()))"

text \<open>A pinned source is a corrected member of its root, of the pinned generation.\<close>

definition source_refs :: "'f krow list \<Rightarrow> source_row \<Rightarrow> bool" where
  "source_refs ks s \<longleftrightarrow>
     holds_if (\<lambda>i. \<exists>k \<in> set ks. k_org k = so_org s \<and> k_root k = so_root s \<and> k_generation k = so_generation s
        \<and> k_id k = i \<and> k_role k = CORRECTED) (so_source s)"

definition insert_evaluation_line :: "ctx \<Rightarrow> source_row \<Rightarrow> fleet \<Rightarrow> sqlstate + fleet" where
  "insert_evaluation_line x new db =
     rbind (stamp_source x new db) (\<lambda>s.
       ensure (visible x (so_org s)) E42501
         (rbind (source_ok (receipt_evaluation_lines db) s) (\<lambda>_.
           ensure (so_org s \<in> set (organizations db) \<and> actor_exists db (so_org s) (so_actor s)
                   \<and> (\<exists>l \<in> set (receipt_lines db). rl_org l = so_org s \<and> rl_id l = so_root s)
                   \<and> source_refs (receipt_line_corrections db) s) E23503
             (rbind (enforce_authenticated_creator x db (so_actor s) None) (\<lambda>_.
               Inr (db\<lparr>receipt_evaluation_lines := receipt_evaluation_lines db @ [s]\<rparr>))))))"

definition insert_evaluation_expectation :: "ctx \<Rightarrow> source_row \<Rightarrow> fleet \<Rightarrow> sqlstate + fleet" where
  "insert_evaluation_expectation x new db =
     rbind (stamp_source x new db) (\<lambda>s.
       ensure (visible x (so_org s)) E42501
         (rbind (source_ok (receipt_evaluation_expectations db) s) (\<lambda>_.
           ensure (so_org s \<in> set (organizations db) \<and> actor_exists db (so_org s) (so_actor s)
                   \<and> po_line_exists db (so_org s) (so_root s)
                   \<and> source_refs (purchase_order_line_corrections db) s) E23503
             (rbind (enforce_authenticated_creator x db (so_actor s) None) (\<lambda>_.
               Inr (db\<lparr>receipt_evaluation_expectations := receipt_evaluation_expectations db @ [s]\<rparr>))))))"

definition insert_consequence :: "ctx \<Rightarrow> consequence_row \<Rightarrow> fleet \<Rightarrow> sqlstate + fleet" where
  "insert_consequence x new db =
     rbind (evaluation_context x db (cq_org new)) (\<lambda>performer.
     rbind (from_option E23514 (evaluation_of x db (cq_org new) (cq_evaluation new) performer)) (\<lambda>e.
       let q = new\<lparr>cq_actor := performer, cq_occurred := ve_occurred e\<rparr> in
       ensure (visible x (cq_org q)) E42501
         (ensure (isfinite (cq_occurred q)) E23514
           (ensure (\<forall>p \<in> set (receipt_evaluation_exceptions db). cq_id p \<noteq> cq_id q
                      \<and> \<not> (cq_org p = cq_org q \<and> cq_evaluation p = cq_evaluation q \<and> cq_exception p = cq_exception q)) E23505
             (ensure (cq_org q \<in> set (organizations db) \<and> actor_exists db (cq_org q) (cq_actor q)
                      \<and> exception_exists db (cq_org q) (cq_exception q)) E23503
               (rbind (enforce_authenticated_creator x db (cq_actor q) None) (\<lambda>_.
                 Inr (db\<lparr>receipt_evaluation_exceptions := receipt_evaluation_exceptions db @ [q]\<rparr>))))))))"

section \<open>Completeness\<close>

text \<open>\<open>assert_receipt_correction_complete\<close>, one definition per condition.\<close>

definition current_evaluation :: "fleet \<Rightarrow> uuid \<Rightarrow> uuid \<Rightarrow> uuid \<Rightarrow> evaluation_row option" where
  "current_evaluation db org receipt pair =
     List.find (\<lambda>v. \<exists>c \<in> set (receipt_line_corrections db). k_org c = ve_org v \<and> k_id c = ve_correction v
         \<and> k_org c = org \<and> k_parent c = receipt \<and> k_pair c = pair \<and> k_role c = CORRECTED)
       (receipt_correction_evaluations db)"

definition population_complete :: "fleet \<Rightarrow> uuid \<Rightarrow> uuid \<Rightarrow> evaluation_row \<Rightarrow> bool" where
  "population_complete db org receipt e \<longleftrightarrow>
     (let ls = sources_of (receipt_evaluation_lines db) org (ve_id e);
          ps = sources_of (receipt_evaluation_expectations db) org (ve_id e);
          bs = filter (\<lambda>b. cm_org b = org \<and> cm_receipt b = receipt) (receipt_comparators db) in
      (\<forall>r \<in> set (receipt_lines db). rl_org r = org \<and> rl_receipt r = receipt \<longrightarrow> (\<exists>s \<in> set ls. so_root s = rl_id r))
      \<and> (\<forall>s \<in> set ls. \<forall>r \<in> set (receipt_lines db). rl_org r = so_org s \<and> rl_id r = so_root s \<longrightarrow> rl_receipt r = receipt)
      \<and> (\<forall>b \<in> set bs. \<exists>s \<in> set ps. pins s b)
      \<and> (\<forall>s \<in> set ps. \<exists>b \<in> set bs. pins s b)
      \<and> (\<forall>s \<in> set ls. so_generation s = generation_of org (so_root s) (receipt_line_corrections db))
      \<and> (\<forall>l \<in> set (evaluated_lines db org (ve_id e)).
           holds_if (\<lambda>p. \<exists>s \<in> set ps. so_root s = p) (el_po_line l)))"

definition links_complete :: "fleet \<Rightarrow> uuid \<Rightarrow> uuid \<Rightarrow> evaluation_row \<Rightarrow> bool" where
  "links_complete db org receipt e \<longleftrightarrow>
     (\<forall>o' \<in> set (receiving_exceptions db). xc_org o' = org \<and> xc_receipt o' = receipt \<longrightarrow>
        (\<exists>q \<in> set (receipt_evaluation_exceptions db). cq_org q = org \<and> cq_evaluation q = ve_id e
           \<and> cq_exception q = xc_id o'))"

text \<open>Support is being among the disagreements, unless an earlier evaluation withdrew it for good.\<close>

definition withdrawn_before :: "fleet \<Rightarrow> evaluation_row \<Rightarrow> consequence_row \<Rightarrow> bool" where
  "withdrawn_before db e q \<longleftrightarrow>
     (\<exists>p \<in> set (receipt_evaluation_exceptions db). cq_org p = cq_org q \<and> cq_exception p = cq_exception q \<and> \<not> cq_supported p
        \<and> (\<exists>f \<in> set (receipt_correction_evaluations db). ve_org f = cq_org p \<and> ve_id f = cq_evaluation p
             \<and> ve_seq f < ve_seq e))"

definition support_agrees :: "fleet \<Rightarrow> uuid \<Rightarrow> uuid \<Rightarrow> evaluation_row \<Rightarrow> bool" where
  "support_agrees db org receipt e \<longleftrightarrow>
     (\<forall>(q, o') \<in> set (consequences_of db org (ve_id e)).
        xc_receipt o' = receipt
        \<and> (cq_supported q = (exception_disagreement o' \<in> set (disagreements db org (ve_id e)))
           \<or> (\<not> cq_supported q \<and> withdrawn_before db e q)))"

definition coverage_exact :: "fleet \<Rightarrow> uuid \<Rightarrow> evaluation_row \<Rightarrow> bool" where
  "coverage_exact db org e \<longleftrightarrow> (\<forall>d \<in> set (disagreements db org (ve_id e)). supporting db org (ve_id e) d = 1)"

definition consequences_complete :: "fleet \<Rightarrow> uuid \<Rightarrow> evaluation_row \<Rightarrow> bool" where
  "consequences_complete db org e \<longleftrightarrow>
     (\<forall>q \<in> set (receipt_evaluation_exceptions db). cq_org q = org \<and> cq_evaluation q = ve_id e \<longrightarrow>
        (\<forall>prior \<in> set (prior_events db q). \<forall>r \<in> set (resolutions db q). \<not> consequence_bad (\<lambda>_. False) e q prior r))"

definition assert_receipt_correction_complete :: "fleet \<Rightarrow> uuid \<Rightarrow> uuid \<Rightarrow> uuid \<Rightarrow> sqlstate + unit" where
  "assert_receipt_correction_complete db org receipt pair =
     rbind (from_option E23514 (current_evaluation db org receipt pair)) (\<lambda>e.
       ensure (\<not> evaluation_anomalous db org receipt
               \<and> (\<forall>o' \<in> set (receiving_exceptions db). xc_org o' = org \<and> xc_receipt o' = receipt \<longrightarrow>
                    (xc_org o', xc_id o') \<notin> set (exception_workflow_anomalies db))) E23514
      (ensure (population_complete db org receipt e) E23514
      (ensure (links_complete db org receipt e) E23514
      (ensure (support_agrees db org receipt e) E23514
      (ensure (coverage_exact db org e) E23514
      (ensure (consequences_complete db org e) E23514 (Inr ())))))))"

text \<open>The deferred triggers of the two correction tables, for the rows this transaction added.\<close>

definition new_records :: "'f kclass \<Rightarrow> fleet \<Rightarrow> fleet \<Rightarrow> 'f krow list" where
  "new_records cls old db = drop (length (kc_rows cls old)) (kc_rows cls db)"

definition pairs_complete_in :: "'f kclass \<Rightarrow> fleet \<Rightarrow> fleet \<Rightarrow> bool" where
  "pairs_complete_in cls old db \<longleftrightarrow>
     (\<forall>k \<in> set (new_records cls old db). (k_org k, k_root k) \<notin> set (record_anomalies cls db))"

definition commit_corrections :: "fleet \<Rightarrow> fleet \<Rightarrow> sqlstate + unit" where
  "commit_corrections old db =
     ensure (pairs_complete_in po_records old db \<and> pairs_complete_in line_records old db) E23514
       (ensure (\<forall>k \<in> set (new_records line_records old db).
                  assert_receipt_correction_complete db (k_org k) (k_parent k) (k_pair k) = Inr ()) E23514 (Inr ()))"

end
