(* ===== verification/RecordCorrections.thy ===== *)
theory RecordCorrections
  imports RecordGuards
begin

text \<open>
  The service \<open>domain/record_corrections.py\<close>: corrections of issued order lines and of the lines of a
  reconciled receipt, the evaluation of the whole receipt that follows the latter, and the history of a
  record.
\<close>

section \<open>Heads and pairs\<close>

record 'f correction =
  co_generation :: int
  co_reason :: pgtext
  co_at :: tstz
  co_values :: "'f \<Rightarrow> 'f"

text \<open>The values of a request: each field it sets replaces the field of the head.\<close>

record po_values =
  pv_item :: "uuid option"
  pv_quantity :: "numeric option"
  pv_uom :: "uom option"
  pv_price :: "numeric option"
  pv_expected :: "tstz option option"

record line_values =
  lv_po_line :: "uuid option option"
  lv_item :: "uuid option"
  lv_quantity :: "numeric option"
  lv_uom :: "uom option"
  lv_condition :: "condition option"
  lv_packing :: "numeric option option"
  lv_notes :: "pgtext option option"
  lv_observed :: "(identifier_type \<times> pgtext) option option"

definition given :: "'a option \<Rightarrow> 'a \<Rightarrow> 'a" where
  "given m d = (case m of None \<Rightarrow> d | Some v \<Rightarrow> v)"

definition put_po_values :: "po_values \<Rightarrow> po_facts \<Rightarrow> po_facts" where
  "put_po_values v f =
     \<lparr>pf_item = given (pv_item v) (pf_item f), pf_quantity = given (pv_quantity v) (pf_quantity f),
      pf_uom = given (pv_uom v) (pf_uom f), pf_price = given (pv_price v) (pf_price f),
      pf_expected = given (pv_expected v) (pf_expected f)\<rparr>"

definition put_line_values :: "line_values \<Rightarrow> line_facts \<Rightarrow> line_facts" where
  "put_line_values v f =
     f\<lparr>lf_po_line := given (lv_po_line v) (lf_po_line f), lf_item := given (lv_item v) (lf_item f),
       lf_quantity := given (lv_quantity v) (lf_quantity f), lf_uom := given (lv_uom v) (lf_uom f),
       lf_condition := given (lv_condition v) (lf_condition f), lf_packing := given (lv_packing v) (lf_packing f),
       lf_notes := given (lv_notes v) (lf_notes f), lf_observed := given (lv_observed v) (lf_observed f)\<rparr>"

record 'f head =
  hd_generation :: int
  hd_source :: "uuid option"
  hd_facts :: 'f
  hd_occurred :: tstz

definition record_head :: "'f kclass \<Rightarrow> ctx \<Rightarrow> fleet \<Rightarrow> uuid \<Rightarrow> 'f \<Rightarrow> tstz \<Rightarrow> failure + 'f head" where
  "record_head cls x db r0 facts time =
     ensure (\<forall>(org, r) \<in> set (record_anomalies cls db). \<not> (visible x org \<and> r = r0)) (Py Conflict)
       (Inr (case latest_by k_generation
                    (filter (\<lambda>k. visible x (k_org k) \<and> k_root k = r0 \<and> k_role k = CORRECTED) (kc_rows cls db)) of
               None \<Rightarrow> \<lparr>hd_generation = 0, hd_source = None, hd_facts = facts, hd_occurred = time\<rparr>
             | Some k \<Rightarrow> \<lparr>hd_generation = k_generation k, hd_source = Some (k_id k), hd_facts = k_facts k,
                          hd_occurred = k_occurred k\<rparr>))"

text \<open>A reversal of the head and its replacement, under one pair identifier.\<close>

definition pair_row ::
  "uuid \<Rightarrow> uuid \<Rightarrow> uuid \<Rightarrow> 'f head \<Rightarrow> 'f correction \<Rightarrow> uuid \<Rightarrow> uuid \<Rightarrow> correction_role \<Rightarrow> 'f \<Rightarrow> 'f krow" where
  "pair_row org r0 parent h c pair i role facts =
     \<lparr>k_id = i, k_org = org, k_root = r0, k_parent = parent, k_txn = 0, k_role = role, k_pair = pair,
      k_generation = co_generation c + 1, k_corrected_at = co_at c, k_reason = co_reason c, k_facts = facts,
      k_conflicting = None, k_actor = 0, k_occurred = hd_occurred h\<rparr>"

definition correct_pair ::
  "(nat \<Rightarrow> uuid) \<Rightarrow> 'f kguard \<Rightarrow> ctx \<Rightarrow> uuid \<Rightarrow> uuid \<Rightarrow> uuid \<Rightarrow> 'f head \<Rightarrow> 'f correction \<Rightarrow> work
   \<Rightarrow> failure + ('f krow \<times> work)" where
  "correct_pair uuid7 g x org r0 parent h c w =
     ensure (co_generation c = hd_generation h) (Py Conflict)
       (let (pair, w1) = draw uuid7 w; (i, w2) = draw uuid7 w1 in
        rbind (exec_row (insert_record g x (pair_row org r0 parent h c pair i REVERSAL (hd_facts h))) w2) (\<lambda>(_, w3).
          let (j, w4) = draw uuid7 w3 in
          exec_row (insert_record g x (pair_row org r0 parent h c pair j CORRECTED (co_values c (hd_facts h)))) w4))"

section \<open>Procurement\<close>

definition correct_procurement ::
  "(nat \<Rightarrow> uuid) \<Rightarrow> ctx \<Rightarrow> uuid \<Rightarrow> uuid \<Rightarrow> po_facts correction \<Rightarrow> fleet \<Rightarrow> py_error + (po_facts krow \<times> fleet)" where
  "correct_procurement uuid7 x po r0 c db =
     map_error (translate asset_error)
       (rbind (map_error Py (get_order x db po)) (\<lambda>order.
        ensure (po_status order = ISSUED) (Py Invalid)
       (rbind (from_option (Py NotFound)
                 (List.find (\<lambda>l. visible x (pl_org l) \<and> pl_id l = r0 \<and> pl_po l = po) (purchase_order_lines db))) (\<lambda>l.
        ensure (\<forall>b \<in> set (receipt_comparators db). \<not> (visible x (cm_org b) \<and> cm_po_line b = r0)) (Py Conflict)
       (rbind (record_head po_records x db r0 (po_facts_of l) (pl_created_at l)) (\<lambda>h.
        rbind (correct_pair uuid7 po_guard x (pl_org l) r0 (pl_po l) h c \<lparr>w_draws = 0, w_db = db\<rparr>) (\<lambda>(k, w).
          Inr (k, w_db w))))))))"

section \<open>Disagreements\<close>

text \<open>\<open>_disagreements\<close>: the classification in Python, comparators in a dictionary by order line.\<close>

definition comparator_dict :: "evaluated_expectation list \<Rightarrow> (uuid \<times> evaluated_expectation) list" where
  "comparator_dict ps = fold (\<lambda>p. dict_set (ee_po_line p) p) ps []"

definition py_line_kinds ::
  "(uuid \<times> evaluated_expectation) list \<Rightarrow> evaluated_line \<Rightarrow> failure + exception_kind list" where
  "py_line_kinds comparators l =
     rbind (case el_po_line l of
              None \<Rightarrow> Inr [UNEXPECTED_ITEM]
            | Some p \<Rightarrow>
                rbind (from_option (Py Conflict) (map_of comparators p)) (\<lambda>c.
                  Inr ((if el_item l \<noteq> ee_item c then [SUBSTITUTION] else [])
                       @ (if el_uom l \<noteq> ee_uom c then [UOM_MISMATCH] else [])))) (\<lambda>kinds.
       Inr (kinds @ condition_kind (el_condition l) @ packing_kind (el_packing l) (el_quantity l)
            @ (if el_unreadable l then [SERIAL_UNREADABLE] else [])
            @ (if el_conflicting l \<noteq> None then [SERIAL_MISMATCH] else [])))"

definition py_disagreements :: "fleet \<Rightarrow> uuid \<Rightarrow> uuid \<Rightarrow> failure + disagreement list" where
  "py_disagreements db org v =
     (let ls = evaluated_lines db org v; comparators = comparator_dict (evaluated_expectations db org v) in
      rbind (map_result (\<lambda>l. rbind (py_line_kinds comparators l) (\<lambda>ks. Inr (map (line_disagreement l) ks))) ls) (\<lambda>ds.
        Inr (concat ds
          @ concat (map (\<lambda>(_, p). case expectation_kind ls p of
                                    None \<Rightarrow> [] | Some k \<Rightarrow> [quantity_disagreement (ee_po_line p) k]) comparators))))"

section \<open>Evaluation\<close>

definition pin_lines :: "(nat \<Rightarrow> uuid) \<Rightarrow> ctx \<Rightarrow> receipt_row \<Rightarrow> evaluation_row \<Rightarrow> work \<Rightarrow> failure + work" where
  "pin_lines uuid7 x h e w =
     fold_result (\<lambda>l w.
         rbind (record_head line_records x (w_db w) (rl_id l) (line_facts_of l) (rl_occurred l)) (\<lambda>head.
           let (i, w') = draw uuid7 w in
           exec (insert_evaluation_line x
             \<lparr>so_id = i, so_org = rc_org h, so_evaluation = ve_id e, so_root = rl_id l,
              so_generation = hd_generation head, so_source = hd_source head, so_actor = 0,
              so_occurred = ve_occurred e\<rparr>) w'))
       (filter (\<lambda>l. visible x (rl_org l) \<and> rl_receipt l = rc_id h) (receipt_lines (w_db w))) w"

definition pin_expectations :: "(nat \<Rightarrow> uuid) \<Rightarrow> ctx \<Rightarrow> receipt_row \<Rightarrow> evaluation_row \<Rightarrow> work \<Rightarrow> failure + work" where
  "pin_expectations uuid7 x h e w =
     fold_result (\<lambda>b w.
         let (i, w') = draw uuid7 w in
         exec (insert_evaluation_expectation x
           \<lparr>so_id = i, so_org = rc_org h, so_evaluation = ve_id e, so_root = cm_po_line b,
            so_generation = cm_generation b, so_source = cm_source b, so_actor = 0, so_occurred = ve_occurred e\<rparr>) w')
       (filter (\<lambda>b. visible x (cm_org b) \<and> cm_receipt b = rc_id h) (receipt_comparators (w_db w))) w"

text \<open>The support the latest evaluation left an exception with.\<close>

definition prior_support :: "ctx \<Rightarrow> fleet \<Rightarrow> uuid \<Rightarrow> bool option" where
  "prior_support x db i =
     map_option fst (latest_by snd
       (concat (map (\<lambda>q. map (\<lambda>f. (cq_supported q, ve_seq f))
           (filter (\<lambda>f. ve_org f = cq_org q \<and> ve_id f = cq_evaluation q) (receipt_correction_evaluations db)))
         (filter (\<lambda>q. visible x (cq_org q) \<and> cq_exception q = i) (receipt_evaluation_exceptions db)))))"

definition record_consequence ::
  "(nat \<Rightarrow> uuid) \<Rightarrow> ctx \<Rightarrow> receipt_row \<Rightarrow> evaluation_row \<Rightarrow> uuid \<Rightarrow> bool \<Rightarrow> int \<Rightarrow> work \<Rightarrow> failure + work" where
  "record_consequence uuid7 x h e i supported prior w =
     (let (j, w') = draw uuid7 w in
      exec (insert_consequence x
        \<lparr>cq_id = j, cq_org = rc_org h, cq_evaluation = ve_id e, cq_exception = i, cq_supported = supported,
         cq_prior_seq = prior, cq_actor = 0, cq_occurred = ve_occurred e\<rparr>) w')"

text \<open>One observation: support, link, and automatic resolution when its workflow is still open.\<close>

definition weigh_observation ::
  "(nat \<Rightarrow> uuid) \<Rightarrow> ctx \<Rightarrow> receipt_row \<Rightarrow> evaluation_row \<Rightarrow> uuid \<Rightarrow> disagreement list \<Rightarrow> workflow_row list
   \<Rightarrow> exception_row \<Rightarrow> disagreement list \<times> work \<Rightarrow> failure + (disagreement list \<times> work)" where
  "weigh_observation uuid7 x h e pair desired workflows o' s =
     (let (claimed, w) = s; key = exception_disagreement o';
          supported = (prior_support x (w_db w) (xc_id o') \<noteq> Some False \<and> key \<in> set desired) in
      rbind (from_option (Py KeyError) (List.find (\<lambda>f. wf_exception f = xc_id o') workflows)) (\<lambda>f.
      ensure (supported \<longrightarrow> key \<notin> set claimed) (Py Conflict)
      (rbind (record_consequence uuid7 x h e (xc_id o') supported (wf_seq f) w) (\<lambda>w1.
         let claimed' = (if supported then key # claimed else claimed) in
         if \<not> supported \<and> wf_status f \<in> {OPEN, ACKNOWLEDGED} then
           (let (i, w2) = draw uuid7 w1 in
            rbind (exec_row (transition_exception x (xc_id o') (wf_status f) RESOLVED (Some (superseded_note pair))
                     (ve_occurred e) i (Some (ve_id e))) w2) (\<lambda>(_, w3). Inr (claimed', w3)))
         else Inr (claimed', w1)))))"

definition observe_disagreement ::
  "(nat \<Rightarrow> uuid) \<Rightarrow> ctx \<Rightarrow> receipt_row \<Rightarrow> evaluation_row \<Rightarrow> disagreement \<Rightarrow> work \<Rightarrow> failure + work" where
  "observe_disagreement uuid7 x h e d w =
     (let (i, w1) = draw uuid7 w in
      rbind (exec (insert_exception x
               \<lparr>xc_id = i, xc_org = rc_org h, xc_type = dg_kind d, xc_receipt = rc_id h, xc_line = dg_line d,
                xc_po_line = dg_po_line d, xc_asset = dg_asset d, xc_conflicting = dg_conflicting d,
                xc_evaluation = Some (ve_id e), xc_actor = 0, xc_occurred = ve_occurred e\<rparr>) w1) (\<lambda>w2.
        record_consequence uuid7 x h e i True 0 w2))"

definition evaluation_request :: "ctx \<Rightarrow> fleet \<Rightarrow> receipt_row \<Rightarrow> line_facts krow \<Rightarrow> uuid \<Rightarrow> evaluation_row" where
  "evaluation_request x db h k i =
     \<lparr>ve_id = i, ve_org = rc_org h, ve_receipt = rc_id h, ve_line = k_root k, ve_correction = k_id k,
      ve_generation = k_generation k,
      ve_seq = max_or_zero (map ve_seq (filter (\<lambda>e. visible x (ve_org e) \<and> ve_receipt e = rc_id h)
                 (receipt_correction_evaluations db))) + 1,
      ve_txn = 0, ve_actor = 0, ve_occurred = k_corrected_at k\<rparr>"

text \<open>The workflows of a receipt, read before any consequence; the select orders them by exception.\<close>

definition receipt_workflows :: "ctx \<Rightarrow> fleet \<Rightarrow> receipt_row \<Rightarrow> workflow_row list" where
  "receipt_workflows x db h =
     sort_key wf_exception (filter (\<lambda>f. visible x (wf_org f)
         \<and> (\<exists>o' \<in> set (receiving_exceptions db). xc_id o' = wf_exception f \<and> visible x (xc_org o') \<and> xc_receipt o' = rc_id h))
       (exception_workflows db))"

definition receipt_observations :: "ctx \<Rightarrow> fleet \<Rightarrow> receipt_row \<Rightarrow> exception_row list" where
  "receipt_observations x db h =
     sort_key xc_id (filter (\<lambda>o'. visible x (xc_org o') \<and> xc_receipt o' = rc_id h) (receiving_exceptions db))"

definition evaluate ::
  "(nat \<Rightarrow> uuid) \<Rightarrow> ctx \<Rightarrow> receipt_row \<Rightarrow> line_facts krow \<Rightarrow> work \<Rightarrow> failure + (evaluation_row \<times> work)" where
  "evaluate uuid7 x h k w0 =
     (let (i, w1) = draw uuid7 w0 in
      rbind (exec_row (insert_evaluation x (evaluation_request x (w_db w1) h k i)) w1) (\<lambda>(e, w2).
      rbind (pin_lines uuid7 x h e w2) (\<lambda>w3.
      rbind (pin_expectations uuid7 x h e w3) (\<lambda>w4.
      rbind (py_disagreements (w_db w4) (ve_org e) (ve_id e)) (\<lambda>ds.
        let desired = map fst (fold (\<lambda>d. dict_set d ()) ds []) in
        rbind (fold_result (weigh_observation uuid7 x h e (k_pair k) desired (receipt_workflows x (w_db w4) h))
                 (receipt_observations x (w_db w4) h) ([], w4)) (\<lambda>(claimed, w5).
        rbind (fold_result (observe_disagreement uuid7 x h e) (filter (\<lambda>d. d \<notin> set claimed) desired) w5) (\<lambda>w6.
          Inr (e, w6))))))))"

section \<open>Receipt lines\<close>

definition correct_receipt_line ::
  "(nat \<Rightarrow> uuid) \<Rightarrow> ctx \<Rightarrow> uuid \<Rightarrow> uuid \<Rightarrow> int \<Rightarrow> line_facts correction \<Rightarrow> fleet
   \<Rightarrow> py_error + (line_facts krow \<times> uuid \<times> fleet)" where
  "correct_receipt_line uuid7 x receipt r0 po_generation c db =
     map_error (translate asset_error)
       (rbind (lock_receipt x db receipt) (\<lambda>h.
        ensure (completed x db receipt) (Py Conflict)
       (rbind (from_option (Py NotFound)
                 (List.find (\<lambda>l. visible x (rl_org l) \<and> rl_id l = r0 \<and> rl_receipt l = receipt) (receipt_lines db))) (\<lambda>l.
        rbind (record_head line_records x db r0 (line_facts_of l) (rl_occurred l)) (\<lambda>head.
        rbind (correct_pair uuid7 line_guard x (rl_org l) r0 (rl_receipt l) head c \<lparr>w_draws = 0, w_db = db\<rparr>) (\<lambda>(k, w1).
        rbind (case lf_po_line (k_facts k) of
                 None \<Rightarrow> Inr w1
               | Some p \<Rightarrow> bind_comparator uuid7 x h p po_generation (Some (k_id k)) w1) (\<lambda>w2.
        rbind (evaluate uuid7 x h k w2) (\<lambda>(e, w3).
        rbind (map_error Db (assert_receipt_correction_complete (w_db w3) (rc_org h) receipt (k_pair k))) (\<lambda>_.
          Inr (k, ve_id e, w_db w3))))))))))"

section \<open>Reading\<close>

text \<open>\<open>record_history\<close>: generations in order, the reversal before its replacement.\<close>

definition role_rank :: "correction_role \<Rightarrow> nat" where
  "role_rank r = (case r of REVERSAL \<Rightarrow> 0 | NONE \<Rightarrow> 1 | CORRECTED \<Rightarrow> 2)"

definition record_history :: "'f kclass \<Rightarrow> ctx \<Rightarrow> fleet \<Rightarrow> uuid \<Rightarrow> ('f krow \<times> uuid option) list" where
  "record_history cls x db r0 =
     (let rows = sort_key k_generation (sort_key (\<lambda>k. role_rank (k_role k))
                   (filter (\<lambda>k. visible x (k_org k) \<and> k_root k = r0) (kc_rows cls db)));
          corrected = fold (\<lambda>k. dict_set (k_root k, k_generation k) (k_id k))
                        (filter (\<lambda>k. k_role k = CORRECTED) rows) [] in
      map (\<lambda>k. (k, if k_role k = REVERSAL
                    then if k_generation k = 1 then Some (k_root k)
                         else map_of corrected (k_root k, k_generation k - 1)
                    else None)) rows)"

end
