(* ===== verification/RecordPairs.thy ===== *)
theory RecordPairs
  imports RecordCorrections
begin

text \<open>
  What the two correction tables have in common, proved once: a pair that the guard admits becomes the
  effective authority of its root, changes that of no other, and leaves the history well formed.
\<close>

section \<open>Groups of rows\<close>

lemma distinct_count_pair: "distinct_count [a, b] = 1 \<longleftrightarrow> a = b"
  by (simp add: distinct_count_def)

lemma distinct_count_length: "distinct_count xs = length xs \<longleftrightarrow> distinct xs"
  by (metis distinct_count_def distinct_remdups_id length_remdups_concat length_remdups_eq remdups_id_iff_distinct)

lemma corrected_rows_append: "corrected_rows org r (ks @ ls) = corrected_rows org r ks @ corrected_rows org r ls"
  by (simp add: corrected_rows_def)

lemma effective_generation:
  "generation_of org r ks = (case effective_correction ks org r of None \<Rightarrow> 0 | Some k \<Rightarrow> k_generation k)"
  by (simp add: generation_of_def effective_correction_def)

lemma generation_bound: "x \<in> set (corrected_rows org r ks) \<Longrightarrow> k_generation x \<le> generation_of org r ks"
  by (cases "effective_correction ks org r")
     (auto simp: effective_generation effective_correction_def dest: latest_by_max)

lemma effective_correction_snoc:
  assumes "corrected_rows org r ls = [k]" "k_generation k = generation_of org r ks + 1"
  shows "effective_correction (ks @ ls) org r = Some k"
  unfolding effective_correction_def corrected_rows_append assms(1)
  by (rule latest_by_snoc) (use assms(2) generation_bound in fastforce)

section \<open>Well-formed histories\<close>

lemma intact_iff:
  "record_anomalies cls db = [] \<longleftrightarrow>
     (\<forall>k \<in> set (kc_rows cls db). \<not> record_bad cls db k \<and> \<not> record_pair_bad (pair_of (kc_rows cls db) k)
        \<and> \<not> generations_bad (kc_rows cls db) k)"
  by (auto simp: record_anomalies_def filter_empty_conv)

lemma generations_ok:
  assumes "record_anomalies cls db = []"
  shows "int (length (corrected_rows org r (kc_rows cls db))) = generation_of org r (kc_rows cls db)
    \<and> distinct (map k_generation (corrected_rows org r (kc_rows cls db)))"
proof (cases "corrected_rows org r (kc_rows cls db)")
  case Nil
  then show ?thesis by (simp add: generation_of_def)
next
  case (Cons k ks)
  let ?g = "corrected_rows org r (kc_rows cls db)"
  have "k \<in> set ?g" by (simp add: Cons)
  then have k: "k \<in> set (kc_rows cls db)" "k_org k = org" "k_root k = r" "k_role k = CORRECTED"
    by (auto simp: corrected_rows_def)
  then have "\<not> generations_bad (kc_rows cls db) k" using assms by (simp add: intact_iff)
  then have "int (length ?g) = generation_of org r (kc_rows cls db)"
    "distinct_count (map k_generation ?g) = length (map k_generation ?g)"
    using k by (simp_all add: generations_bad_def Let_def)
  then show ?thesis by (simp only: distinct_count_length)
qed

section \<open>Heads\<close>

lemma corrected_visible:
  assumes "visible x org"
  shows "filter (\<lambda>k. visible x (k_org k) \<and> k_root k = r \<and> k_role k = CORRECTED) ks = corrected_rows org r ks"
  using assms by (auto simp: corrected_rows_def visible_def intro: filter_cong)

lemma record_head_Inr:
  assumes "record_head cls x db r facts time = Inr h" and "visible x org"
  shows "hd_generation h = generation_of org r (kc_rows cls db)"
    "hd_facts h = (case effective_correction (kc_rows cls db) org r of None \<Rightarrow> facts | Some k \<Rightarrow> k_facts k)"
    "hd_source h = map_option k_id (effective_correction (kc_rows cls db) org r)"
    "hd_occurred h = (case effective_correction (kc_rows cls db) org r of None \<Rightarrow> time | Some k \<Rightarrow> k_occurred k)"
  using assms(1)
  unfolding record_head_def corrected_visible [OF assms(2)] effective_generation effective_correction_def
  by (auto simp: ensure_Inr_iff split: option.splits)

section \<open>Pairs\<close>

definition stamp_record :: "ctx \<Rightarrow> uuid option \<Rightarrow> uuid \<Rightarrow> tstz \<Rightarrow> 'f krow \<Rightarrow> 'f krow" where
  "stamp_record x c performer occurred k =
     k\<lparr>k_conflicting := c, k_actor := performer, k_txn := x_txn x, k_occurred := occurred,
       k_reason := normalize_correction_reason (k_reason k)\<rparr>"

lemma stamp_record_simps [simp]:
  "k_org (stamp_record x c p t k) = k_org k" "k_root (stamp_record x c p t k) = k_root k"
  "k_parent (stamp_record x c p t k) = k_parent k" "k_role (stamp_record x c p t k) = k_role k"
  "k_pair (stamp_record x c p t k) = k_pair k" "k_generation (stamp_record x c p t k) = k_generation k"
  "k_facts (stamp_record x c p t k) = k_facts k" "k_actor (stamp_record x c p t k) = p"
  "k_txn (stamp_record x c p t k) = x_txn x" "k_corrected_at (stamp_record x c p t k) = k_corrected_at k"
  "k_reason (stamp_record x c p t k) = normalize_correction_reason (k_reason k)"
  "k_id (stamp_record x c p t k) = k_id k" "k_occurred (stamp_record x c p t k) = t"
  by (simp_all add: stamp_record_def)

lemma pair_row_simps [simp]:
  "k_org (pair_row org r parent h c pair i role f) = org" "k_root (pair_row org r parent h c pair i role f) = r"
  "k_parent (pair_row org r parent h c pair i role f) = parent" "k_role (pair_row org r parent h c pair i role f) = role"
  "k_pair (pair_row org r parent h c pair i role f) = pair"
  "k_generation (pair_row org r parent h c pair i role f) = co_generation c + 1"
  "k_corrected_at (pair_row org r parent h c pair i role f) = co_at c"
  "k_reason (pair_row org r parent h c pair i role f) = co_reason c"
  "k_facts (pair_row org r parent h c pair i role f) = f" "k_id (pair_row org r parent h c pair i role f) = i"
  by (simp_all add: pair_row_def)

locale correction_table =
  fixes g :: "'f kguard"
  assumes rows_add: "kc_rows (kg_class g) (kc_add (kg_class g) k db) = kc_rows (kg_class g) db @ [k]"
    and root_add: "kc_root (kg_class g) (kc_add (kg_class g) k db) = kc_root (kg_class g) db"
    and actor_add: "current_authenticated_actor x (kc_add (kg_class g) k db) = current_authenticated_actor x db"
    and admits: "kg_admit g x db k parent facts = Inr k' \<Longrightarrow>
      \<exists>c. k' = k\<lparr>k_conflicting := c\<rparr> \<and> (k_role k = CORRECTED \<longrightarrow> k_parent k = parent)"
begin

abbreviation rows :: "fleet \<Rightarrow> 'f krow list" where
  "rows db \<equiv> kc_rows (kg_class g) db"

abbreviation add_row :: "'f krow \<Rightarrow> fleet \<Rightarrow> fleet" where
  "add_row k db \<equiv> kc_add (kg_class g) k db"

lemma insert_Inr:
  assumes "insert_record g x new db = Inr (k, db')"
  obtains c performer parent occurred facts where "db' = add_row k db" "k = stamp_record x c performer occurred new"
    "current_authenticated_actor x db = Inr performer"
    "kc_root (kg_class g) db (k_org new) (k_root new) = Some (parent, occurred, facts)"
    "k_generation new = generation_of (k_org new) (k_root new) (rows db) + 1" "metadata_check k"
    "record_unique (rows db) k" "k_role new = CORRECTED \<longrightarrow> k_parent new = parent"
proof -
  have i: "guard_record g x db new = Inr k" "metadata_check k" "record_unique (rows db) k" "db' = add_row k db"
    using assms unfolding insert_record_def rbind_Inr_iff ensure_Inr_iff by auto
  obtain performer parent occurred facts k1 where p: "current_authenticated_actor x db = Inr performer"
    "kc_root (kg_class g) db (k_org new) (k_root new) = Some (parent, occurred, facts)"
    "kg_admit g x db new parent facts = Inr k1"
    "k_generation k1 = generation_of (k_org k1) (k_root k1) (rows db) + 1"
    "k = k1\<lparr>k_actor := performer, k_txn := x_txn x, k_occurred := occurred,
            k_reason := normalize_correction_reason (k_reason k1)\<rparr>"
    using i(1) unfolding guard_record_def Let_def rbind_Inr_iff ensure_Inr_iff from_option_Inr_iff split_paired_Ex
      prod.case
    by (elim exE conjE) (rule that, assumption+, simp)
  obtain c where c: "k1 = new\<lparr>k_conflicting := c\<rparr>" "k_role new = CORRECTED \<longrightarrow> k_parent new = parent"
    using admits [OF p(3)] by blast
  show ?thesis
    by (rule that [of c performer occurred parent facts]) (use i p c in \<open>simp_all add: stamp_record_def\<close>)
qed

lemma pair_Inr:
  assumes "correct_pair uuid7 g x org r parent h c w = Inr (k, w')"
  obtains pair i j ca cb performer occurred facts a where
    "w_db w' = add_row k (add_row a (w_db w))" "rows (w_db w') = rows (w_db w) @ [a, k]"
    "a = stamp_record x ca performer occurred (pair_row org r parent h c pair i REVERSAL (hd_facts h))"
    "k = stamp_record x cb performer occurred (pair_row org r parent h c pair j CORRECTED (co_values c (hd_facts h)))"
    "kc_root (kg_class g) (w_db w) org r = Some (parent, occurred, facts)"
    "co_generation c = hd_generation h" "co_generation c = generation_of org r (rows (w_db w))"
    "metadata_check a" "metadata_check k" "record_unique (rows (w_db w)) a" "record_unique (rows (w_db w) @ [a]) k"
proof -
  obtain pair i j a db1 where e: "co_generation c = hd_generation h"
    "insert_record g x (pair_row org r parent h c pair i REVERSAL (hd_facts h)) (w_db w) = Inr (a, db1)"
    "insert_record g x (pair_row org r parent h c pair j CORRECTED (co_values c (hd_facts h))) db1 = Inr (k, w_db w')"
    using assms unfolding correct_pair_def Let_def draw_def exec_row_def
    by (auto simp: rbind_Inr_iff ensure_Inr_iff map_error_Inr_iff)
  obtain ca p q occ f where a: "db1 = add_row a (w_db w)"
    "a = stamp_record x ca p occ (pair_row org r parent h c pair i REVERSAL (hd_facts h))"
    "current_authenticated_actor x (w_db w) = Inr p" "kc_root (kg_class g) (w_db w) org r = Some (q, occ, f)"
    "co_generation c + 1 = generation_of org r (rows (w_db w)) + 1" "metadata_check a"
    "record_unique (rows (w_db w)) a"
    by (rule insert_Inr [OF e(2)]) (unfold pair_row_simps, rule that, assumption+)
  obtain cb p' q' occ' f' where b: "w_db w' = add_row k db1"
    "k = stamp_record x cb p' occ' (pair_row org r parent h c pair j CORRECTED (co_values c (hd_facts h)))"
    "current_authenticated_actor x db1 = Inr p'" "kc_root (kg_class g) db1 org r = Some (q', occ', f')"
    "metadata_check k" "record_unique (rows db1) k" "parent = q'"
    by (rule insert_Inr [OF e(3)]) (unfold pair_row_simps, rule that, assumption+, erule mp, rule refl)
  have same: "p' = p" "occ' = occ" "q = parent"
    using a(3,4) b(3,4,7) unfolding a(1) root_add actor_add by simp_all
  have "rows (w_db w') = rows (w_db w) @ [a, k]" by (simp add: b(1) a(1) rows_add)
  moreover have "w_db w' = add_row k (add_row a (w_db w))" by (simp only: b(1) a(1))
  moreover have "co_generation c = generation_of org r (rows (w_db w))" using a(5) by simp
  ultimately show ?thesis
    using that [OF _ _ a(2) b(2) [unfolded same] a(4) [unfolded same] e(1) _ a(6) b(5) a(7) b(6) [unfolded a(1) rows_add]]
    by blast
qed

text \<open>Committed: the replacement is the effective authority of its root, and of no other.\<close>

lemma pair_effective:
  assumes "correct_pair uuid7 g x org r parent h c w = Inr (k, w')"
  shows "effective_correction (rows (w_db w')) org' r' =
      (if org' = org \<and> r' = r then Some k else effective_correction (rows (w_db w)) org' r')"
proof (rule pair_Inr [OF assms])
  fix pair i j ca cb performer occurred facts a
  assume rows': "rows (w_db w') = rows (w_db w) @ [a, k]"
    and a: "a = stamp_record x ca performer occurred (pair_row org r parent h c pair i REVERSAL (hd_facts h))"
    and k: "k = stamp_record x cb performer occurred (pair_row org r parent h c pair j CORRECTED (co_values c (hd_facts h)))"
    and gen: "co_generation c = generation_of org r (rows (w_db w))"
  have new: "corrected_rows org' r' [a, k] = (if org' = org \<and> r' = r then [k] else [])"
    by (auto simp: corrected_rows_def a k)
  show ?thesis
  proof (cases "org' = org \<and> r' = r")
    case True
    then show ?thesis using new gen by (simp add: rows' k effective_correction_snoc)
  next
    case False
    then have "corrected_rows org' r' [a, k] = []" using new by (simp only: if_False)
    then show ?thesis using False by (auto simp: rows' effective_correction_def corrected_rows_append)
  qed
qed

text \<open>A pair leaves a well-formed history well formed.\<close>

lemma old_row_kept:
  assumes "\<not> record_bad (kg_class g) db k" "rows db' = rows db @ [a, b]"
    "kc_root (kg_class g) db' = kc_root (kg_class g) db" "k_generation b > 0" "k_role a \<noteq> CORRECTED"
  shows "\<not> record_bad (kg_class g) db' k"
proof -
  have "previous_correction (rows db') k = previous_correction (rows db) k"
    if "previous_correction (rows db) k \<noteq> None \<or> k_generation k \<le> 0"
    using that assms(4,5) by (auto simp: previous_correction_def assms(2) find_append split: option.splits)
  then show ?thesis
    using assms(1) by (auto simp: record_bad_def assms(3) split: option.splits if_splits)
qed

lemma old_pair_kept:
  assumes "\<not> record_pair_bad (pair_of (rows db) k)" "record_unique (rows db) a"
    "rows db' = rows db @ [a, b]" "k_org b = k_org a" "k_pair b = k_pair a" "k_role a = REVERSAL"
  shows "pair_of (rows db') k = pair_of (rows db) k"
proof -
  have "filter (\<lambda>k. k_role k = REVERSAL) (pair_of (rows db) k) \<noteq> []" using assms(1) by (auto simp: record_pair_bad_def)
  then obtain h where "h \<in> set (rows db)" "k_org h = k_org k" "k_pair h = k_pair k" "k_role h = REVERSAL"
    by (auto simp: filter_empty_conv pair_of_def)
  then have "\<not> (k_org a = k_org k \<and> k_pair a = k_pair k)" using assms(2,6) by (auto simp: record_unique_def)
  then show ?thesis using assms(4,5) by (simp add: pair_of_def assms(3))
qed

lemma new_pair:
  assumes "record_unique (rows db) a" "record_anomalies (kg_class g) db = []" "rows db' = rows db @ [a, b]"
    "k_org b = k_org a" "k_pair b = k_pair a" "k_role a = REVERSAL"
  shows "pair_of (rows db') a = [a, b]"
proof -
  have "\<not> (k_org h = k_org a \<and> k_pair h = k_pair a)" if h: "h \<in> set (rows db)" for h
  proof
    assume same: "k_org h = k_org a \<and> k_pair h = k_pair a"
    have "\<not> record_pair_bad (pair_of (rows db) h)" using assms(2) h by (simp add: intact_iff)
    from old_pair_kept [OF this assms(1,3-)] show False using assms(3) same by (simp add: pair_of_def)
  qed
  then show ?thesis using assms(4,5) by (simp add: pair_of_def assms(3) filter_empty_conv)
qed

lemma reversal_copies:
  assumes "record_head (kg_class g) x db r facts time = Inr h" "visible x org" "record_anomalies (kg_class g) db = []"
    "kc_root (kg_class g) db org r = Some (parent, occurred, facts)"
    "k_org a = org" "k_root a = r" "k_parent a = parent" "k_generation a = hd_generation h + 1" "k_facts a = hd_facts h"
    "metadata_check a" "rows db' = rows db @ ls" "kc_root (kg_class g) db' = kc_root (kg_class g) db"
  shows "\<not> record_bad (kg_class g) db' a"
proof -
  note head = record_head_Inr [OF assms(1,2)] and ok = generations_ok [OF assms(3), of org r]
  show ?thesis
  proof (cases "effective_correction (rows db) org r")
    case None
    then show ?thesis using assms head by (auto simp: record_bad_def metadata_check_def effective_generation)
  next
    case (Some k0)
    then have k0: "k0 \<in> set (corrected_rows org r (rows db))" "k_generation k0 = hd_generation h" "hd_facts h = k_facts k0"
      using head latest_by_in by (auto simp: effective_correction_def effective_generation)
    let ?P = "\<lambda>p. k_org p = k_org a \<and> k_root p = k_root a \<and> k_generation p = k_generation a - 1 \<and> k_role p = CORRECTED"
    have "k0 \<in> set (rows db)" "?P k0" using k0 assms(5,6,8) by (auto simp: corrected_rows_def)
    then obtain p where p: "List.find ?P (rows db) = Some p" by (cases "List.find ?P (rows db)") (auto simp: find_None_iff)
    then have "p \<in> set (corrected_rows org r (rows db))" "k_generation p = k_generation k0"
      using find_Some_in [OF p] k0 assms(5,6,8) by (auto simp: corrected_rows_def)
    then have "p = k0" using k0(1) ok by (auto simp: distinct_map inj_on_def)
    moreover have "k_generation k0 > 0" using ok k0(1,2) head(1) by (cases "corrected_rows org r (rows db)") auto
    ultimately show ?thesis
      using p assms k0 by (auto simp: record_bad_def metadata_check_def previous_correction_def find_append)
  qed
qed

lemma generations_kept:
  assumes "record_anomalies (kg_class g) db = []" "rows db' = rows db @ [a, b]" "k_role a = REVERSAL"
    "k_role b = CORRECTED" "k_generation b = generation_of (k_org b) (k_root b) (rows db) + 1"
  shows "\<not> generations_bad (rows db') k"
proof (cases "k_org k = k_org b \<and> k_root k = k_root b")
  case True
  let ?g = "corrected_rows (k_org b) (k_root b) (rows db)"
  have new: "corrected_rows (k_org b) (k_root b) (rows db') = ?g @ [b]"
    using assms(3,4) by (simp add: assms(2) corrected_rows_def)
  have m: "generation_of (k_org b) (k_root b) (rows db') = k_generation b"
    using effective_correction_snoc [of "k_org b" "k_root b" "[a, b]" b "rows db"] assms(2-5)
    by (simp add: effective_generation corrected_rows_def)
  have ok: "int (length ?g) = generation_of (k_org b) (k_root b) (rows db)" "distinct (map k_generation ?g)"
    using generations_ok [OF assms(1)] by blast+
  have "k_generation b \<notin> k_generation ` set ?g" using generation_bound [of _ "k_org b" "k_root b" "rows db"] assms(5) by fastforce
  then have "distinct (map k_generation (?g @ [b]))" using ok(2) by simp
  then have "distinct_count (map k_generation (?g @ [b])) = length (map k_generation (?g @ [b]))"
    by (simp only: distinct_count_length)
  then show ?thesis using True ok(1) assms(5) by (simp add: generations_bad_def Let_def new m)
next
  case False
  then have same: "corrected_rows (k_org k) (k_root k) (rows db') = corrected_rows (k_org k) (k_root k) (rows db)"
    using assms(3) by (auto simp: assms(2) corrected_rows_def)
  let ?g = "corrected_rows (k_org k) (k_root k) (rows db)"
  have ok: "int (length ?g) = generation_of (k_org k) (k_root k) (rows db)" "distinct (map k_generation ?g)"
    using generations_ok [OF assms(1)] by blast+
  then have "distinct_count (map k_generation ?g) = length (map k_generation ?g)" by (simp only: distinct_count_length)
  then show ?thesis using ok(1) same by (simp add: generations_bad_def generation_of_def)
qed

lemma pair_intact:
  assumes c: "correct_pair uuid7 g x org r parent h c w = Inr (k, w')"
    and h: "record_head (kg_class g) x (w_db w) r facts time = Inr h" "visible x org"
    and f: "\<And>p t f. kc_root (kg_class g) (w_db w) org r = Some (p, t, f) \<Longrightarrow> f = facts"
    and i: "record_anomalies (kg_class g) (w_db w) = []"
  shows "record_anomalies (kg_class g) (w_db w') = []"
proof (rule pair_Inr [OF c])
  fix pair i j ca cb performer occurred facts' a
  assume db': "w_db w' = add_row k (add_row a (w_db w))" and rows': "rows (w_db w') = rows (w_db w) @ [a, k]"
    and a: "a = stamp_record x ca performer occurred (pair_row org r parent h c pair i REVERSAL (hd_facts h))"
    and k: "k = stamp_record x cb performer occurred (pair_row org r parent h c pair j CORRECTED (co_values c (hd_facts h)))"
    and root: "kc_root (kg_class g) (w_db w) org r = Some (parent, occurred, facts')"
    and gen: "co_generation c = hd_generation h" "co_generation c = generation_of org r (rows (w_db w))"
    and check: "metadata_check a" "metadata_check k" and unique: "record_unique (rows (w_db w)) a"
  have roots: "kc_root (kg_class g) (w_db w') = kc_root (kg_class g) (w_db w)" by (simp add: db' root_add)
  have mine: "k_org a = org" "k_org k = org" "k_root a = r" "k_root k = r" "k_pair k = k_pair a" "k_role a = REVERSAL"
    "k_role k = CORRECTED" "k_generation a = hd_generation h + 1" "k_generation k = k_generation a"
    "k_facts a = hd_facts h" "k_parent a = parent" "k_parent k = parent" "k_reason k = k_reason a" "k_actor k = k_actor a"
    "k_corrected_at k = k_corrected_at a" "k_txn k = k_txn a"
    by (simp_all add: a k gen(1))
  have group: "pair_of (rows (w_db w')) a = [a, k]"
    by (rule new_pair [OF unique i rows']) (simp_all add: mine)
  have good: "\<not> record_pair_bad [a, k]" by (simp add: record_pair_bad_def distinct_count_pair mine)
  have gens: "\<not> generations_bad (rows (w_db w')) e" for e
    by (rule generations_kept [OF i rows']) (simp_all add: mine gen [symmetric])
  have "\<not> record_bad (kg_class g) (w_db w') e \<and> \<not> record_pair_bad (pair_of (rows (w_db w')) e)"
    if e: "e \<in> set (rows (w_db w'))" for e
  proof -
    consider "e \<in> set (rows (w_db w))" | "e = a" | "e = k" using e by (auto simp: rows')
    then show ?thesis
    proof cases
      case 1
      then have "\<not> record_bad (kg_class g) (w_db w) e" "\<not> record_pair_bad (pair_of (rows (w_db w)) e)"
        using i by (simp_all add: intact_iff)
      moreover have "k_generation k > 0" using check(2) by (simp add: metadata_check_def)
      ultimately show ?thesis
        using old_row_kept [OF _ rows' roots] old_pair_kept [OF _ unique rows'] mine by simp
    next
      case 2
      have "\<not> record_bad (kg_class g) (w_db w') a"
        by (rule reversal_copies [OF h i _ mine(1,3,11,8,10) check(1) rows' roots]) (use root f in blast)
      then show ?thesis using group good 2 by simp
    next
      case 3
      have "pair_of (rows (w_db w')) k = [a, k]" using group by (simp add: pair_of_def mine)
      then show ?thesis using 3 good check(2) root
        by (simp add: record_bad_def roots mine metadata_check_def)
    qed
  qed
  then show ?thesis using gens by (simp add: intact_iff)
qed

end

end
