(* ===== verification/WorkflowProperties.thy ===== *)
theory WorkflowProperties
  imports ExceptionWorkflow
begin

text \<open>
  The properties of the exception workflow and of sync conflicts: both interpret the status machine,
  the projection never disagrees with the events, and a settled exception stays settled.
\<close>

section \<open>The two machines\<close>

definition exception_changes :: "fleet \<Rightarrow> uuid \<times> uuid \<Rightarrow> change list" where
  "exception_changes db k = map (\<lambda>e. (ev_seq e, ev_from e, ev_to e)) (exception_log db (fst k) (snd k))"

definition exception_moves :: "uuid \<times> uuid \<Rightarrow> fleet \<Rightarrow> fleet \<Rightarrow> bool" where
  "exception_moves k db db' \<longleftrightarrow> (\<exists>x s t n occ eid ev e. x_org x = Some (fst k)
     \<and> transition_exception x (snd k) s t n occ eid ev db = Inr (e, db'))"

definition conflict_changes :: "fleet \<Rightarrow> uuid \<times> uuid \<Rightarrow> change list" where
  "conflict_changes db k = map (\<lambda>e. (sv_seq e, sv_from e, sv_to e)) (conflict_events db (fst k) (snd k))"

definition conflict_moves :: "uuid \<times> uuid \<Rightarrow> fleet \<Rightarrow> fleet \<Rightarrow> bool" where
  "conflict_moves k db db' \<longleftrightarrow> (\<exists>x new e. (sv_org new, sv_exception new) = k
     \<and> insert_conflict_event x new db = Inr (e, db'))"

lemma exception_latest:
  assumes "log_ok 0 OPEN (exception_changes db (org, i))"
  shows "status_after (latest_exception_event db org i) = status_of (exception_changes db (org, i))"
    "number_after (latest_exception_event db org i) = int (length (exception_log db org i))"
proof -
  let ?es = "exception_log db org i"
  have l: "latest_exception_event db org i = (if ?es = [] then None else Some (last ?es))"
    unfolding latest_exception_event_def
    by (rule latest_of_log [where source = ev_from and target = ev_to])
      (use assms in \<open>simp add: exception_changes_def\<close>)
  show "status_after (latest_exception_event db org i) = status_of (exception_changes db (org, i))"
    by (simp add: l status_after_def status_of_def exception_changes_def last_map)
  show "number_after (latest_exception_event db org i) = int (length ?es)"
  proof (cases ?es rule: rev_cases)
    case Nil
    then show ?thesis by (simp add: l number_after_def)
  next
    case (snoc ys y)
    then have "ev_seq y = int (length ys) + 1" using assms by (simp add: exception_changes_def log_ok_append)
    then show ?thesis using snoc by (simp add: l number_after_def)
  qed
qed

lemma transition_exception_Inr:
  assumes "transition_exception x i s t n occ eid ev db = Inr (e, db')"
  obtains org w where "x_org x = Some org" "find_workflow db org i = Some w"
    "s = status_after (latest_exception_event db org i)" "t \<in> WORKFLOW s"
    "ev_org e = org" "ev_exception e = i" "ev_seq e = number_after (latest_exception_event db org i) + 1"
    "ev_from e = s" "ev_to e = t" "(org, i) \<notin> set (exception_workflow_anomalies db)"
    "exception_exists db org i"
    "db' = db\<lparr>exception_events := exception_events db @ [e],
              exception_workflows := map (\<lambda>w. if wf_org w = org \<and> wf_exception w = i then project_event e w else w)
                (exception_workflows db)\<rparr>"
  using assms
  by (auto simp: transition_exception_def insert_exception_event_def change_check_def Let_def result_simps
      split: option.splits)

lemma transition_exception_log:
  assumes "transition_exception x i s t n occ eid ev db = Inr (e, db')" "x_org x = Some org"
  shows "exception_log db' org' j = exception_log db org' j @ (if (org', j) = (org, i) then [e] else [])"
  using assms by (auto elim!: transition_exception_Inr simp: exception_log_def)

interpretation exception_status: status_machine exception_changes exception_moves
proof
  fix k db db' j
  assume m: "exception_moves k db db'"
  obtain org i where k: "k = (org, i)" by force
  obtain x s t n occ eid ev e where x: "x_org x = Some org"
    and r: "transition_exception x i s t n occ eid ev db = Inr (e, db')"
    using m by (auto simp: exception_moves_def k)
  show "\<exists>t. t \<in> WORKFLOW (status_of (exception_changes db k))
      \<and> exception_changes db' k = exception_changes db k
          @ [(int (length (exception_changes db k)) + 1, status_of (exception_changes db k), t)]"
    if ok: "\<forall>j. log_ok 0 OPEN (exception_changes db j)"
  proof -
    note l = exception_latest [OF spec [OF ok, of "(org, i)"]]
    have "t \<in> WORKFLOW (status_of (exception_changes db k))" "ev_to e = t"
      "ev_seq e = int (length (exception_log db org i)) + 1" "ev_from e = status_of (exception_changes db k)"
      using transition_exception_Inr [OF r] x l k by (metis option.inject)+
    then show ?thesis
      using transition_exception_log [OF r x, of org i] by (auto simp: exception_changes_def k)
  qed
  show "exception_changes db' j = exception_changes db j" if "j \<noteq> k"
    using transition_exception_log [OF r x, of "fst j" "snd j"] that by (auto simp: exception_changes_def k)
qed

lemma insert_conflict_event_Inr:
  assumes "insert_conflict_event x new db = Inr (e, db')"
  shows "db' = db\<lparr>sync_conflict_events := sync_conflict_events db @ [e]\<rparr>" "visible x (sv_org new)"
    "sv_org e = sv_org new" "sv_exception e = sv_exception new" "sv_seq e = sv_seq new" "sv_from e = sv_from new"
    "sv_to e = sv_to new" "sv_to e \<in> WORKFLOW (sv_from e)"
    "\<exists>c \<in> set (sync_conflicts db). sc_org c = sv_org new \<and> sc_id c = sv_exception new"
    "sv_from e = (case latest_by sv_seq (conflict_events db (sv_org new) (sv_exception new)) of
        None \<Rightarrow> OPEN | Some p \<Rightarrow> sv_to p)"
    "sv_seq e = (case latest_by sv_seq (conflict_events db (sv_org new) (sv_exception new)) of
        None \<Rightarrow> 0 | Some p \<Rightarrow> sv_seq p) + 1"
proof -
  have v: "visible x (sv_org new)" using assms
    by (auto simp: insert_conflict_event_def Let_def result_simps)
  have f: "filter (\<lambda>e. visible x (sv_org e)) (conflict_events db (sv_org new) (sv_exception new))
      = conflict_events db (sv_org new) (sv_exception new)"
    using v by (auto simp: conflict_events_def intro: filter_cong)
  show "db' = db\<lparr>sync_conflict_events := sync_conflict_events db @ [e]\<rparr>" "visible x (sv_org new)"
    "sv_org e = sv_org new" "sv_exception e = sv_exception new" "sv_seq e = sv_seq new" "sv_from e = sv_from new"
    "sv_to e = sv_to new" "sv_to e \<in> WORKFLOW (sv_from e)"
    "\<exists>c \<in> set (sync_conflicts db). sc_org c = sv_org new \<and> sc_id c = sv_exception new"
    "sv_from e = (case latest_by sv_seq (conflict_events db (sv_org new) (sv_exception new)) of
        None \<Rightarrow> OPEN | Some p \<Rightarrow> sv_to p)"
    "sv_seq e = (case latest_by sv_seq (conflict_events db (sv_org new) (sv_exception new)) of
        None \<Rightarrow> 0 | Some p \<Rightarrow> sv_seq p) + 1"
    using assms v
    by (auto simp: insert_conflict_event_def change_check_def Let_def f result_simps)
qed

lemma conflict_latest:
  assumes "log_ok 0 OPEN (conflict_changes db (org, i))"
  shows "latest_by sv_seq (conflict_events db org i)
      = (if conflict_events db org i = [] then None else Some (last (conflict_events db org i)))"
    "conflict_events db org i \<noteq> [] \<Longrightarrow> sv_seq (last (conflict_events db org i)) = int (length (conflict_events db org i))"
proof -
  let ?es = "conflict_events db org i"
  show "latest_by sv_seq ?es = (if ?es = [] then None else Some (last ?es))"
    by (rule latest_of_log [where source = sv_from and target = sv_to])
      (use assms in \<open>simp add: conflict_changes_def\<close>)
  show "sv_seq (last ?es) = int (length ?es)" if "?es \<noteq> []"
    using that assms by (cases ?es rule: rev_cases) (auto simp: conflict_changes_def log_ok_append)
qed

interpretation conflict_status: status_machine conflict_changes conflict_moves
proof
  fix k db db' j
  assume m: "conflict_moves k db db'"
  obtain org i where k: "k = (org, i)" by force
  obtain x new e where new: "sv_org new = org" "sv_exception new = i"
    and r: "insert_conflict_event x new db = Inr (e, db')"
    using m by (auto simp: conflict_moves_def k)
  note i = insert_conflict_event_Inr [OF r]
  have log: "conflict_events db' org' j = conflict_events db org' j @ (if (org', j) = (org, i) then [e] else [])"
    for org' j using i(3,4) new by (auto simp: conflict_events_def i(1))
  show "\<exists>t. t \<in> WORKFLOW (status_of (conflict_changes db k))
      \<and> conflict_changes db' k = conflict_changes db k
          @ [(int (length (conflict_changes db k)) + 1, status_of (conflict_changes db k), t)]"
    if ok: "\<forall>j. log_ok 0 OPEN (conflict_changes db j)"
  proof -
    note l = conflict_latest [OF spec [OF ok, of "(org, i)"]]
    have "sv_from e = status_of (conflict_changes db k)" "sv_seq e = int (length (conflict_changes db k)) + 1"
      using i(10,11) l by (auto simp: new k status_of_def conflict_changes_def last_map)
    then show ?thesis using i(8) log [of org i] by (auto simp: conflict_changes_def k)
  qed
  show "conflict_changes db' j = conflict_changes db j" if "j \<noteq> k"
    using log [of "fst j" "snd j"] that by (auto simp: conflict_changes_def k)
qed

section \<open>Runs\<close>

text \<open>
  A step records an exception, with its trigger, changes the status of an exception or of a conflict,
  or leaves the four tables alone; conflicts may be recorded meanwhile.
\<close>

definition workflow_frame :: "fleet \<Rightarrow> fleet \<Rightarrow> bool" where
  "workflow_frame db db' \<longleftrightarrow> receiving_exceptions db' = receiving_exceptions db
     \<and> exception_workflows db' = exception_workflows db \<and> exception_events db' = exception_events db
     \<and> sync_conflict_events db' = sync_conflict_events db"

inductive workflow_step :: "fleet \<Rightarrow> fleet \<Rightarrow> bool" where
  observe: "\<forall>q \<in> set (receiving_exceptions db). xc_id q \<noteq> xc_id p \<Longrightarrow>
     initialize_exception_workflow x p (db\<lparr>receiving_exceptions := receiving_exceptions db @ [p]\<rparr>) = Inr db'
     \<Longrightarrow> workflow_step db db'"
| change: "transition_exception x i s t n occ eid ev db = Inr (e, db') \<Longrightarrow> workflow_step db db'"
| conflict: "insert_conflict_event x new db = Inr (c, db') \<Longrightarrow> workflow_step db db'"
| elsewhere: "workflow_frame db db' \<Longrightarrow> workflow_step db db'"

inductive tracked :: "fleet \<Rightarrow> bool" where
  start: "receiving_exceptions db = [] \<Longrightarrow> exception_workflows db = [] \<Longrightarrow> exception_events db = []
     \<Longrightarrow> sync_conflict_events db = [] \<Longrightarrow> tracked db"
| run: "tracked db \<Longrightarrow> workflow_step db db' \<Longrightarrow> tracked db'"

inductive tracked_later :: "fleet \<Rightarrow> fleet \<Rightarrow> bool" for db :: fleet where
  now: "tracked_later db db"
| later_step: "tracked_later db db' \<Longrightarrow> workflow_step db' db'' \<Longrightarrow> tracked_later db db''"

definition workflow_ok :: "fleet \<Rightarrow> bool" where
  "workflow_ok db \<longleftrightarrow> distinct (map xc_id (receiving_exceptions db))
     \<and> list_all2 (\<lambda>p w. wf_org w = xc_org p \<and> wf_exception w = xc_id p \<and> workflow_agrees db p w)
         (receiving_exceptions db) (exception_workflows db)
     \<and> (\<forall>k. log_ok 0 OPEN (exception_changes db k)) \<and> (\<forall>k. log_ok 0 OPEN (conflict_changes db k))
     \<and> (\<forall>e \<in> set (exception_events db). exception_exists db (ev_org e) (ev_exception e))"

lemma workflow_agrees_cong:
  "exception_log db' (xc_org p) (xc_id p) = exception_log db (xc_org p) (xc_id p)
   \<Longrightarrow> workflow_agrees db' p w = workflow_agrees db p w"
  by (simp add: workflow_agrees_def latest_exception_event_def)

lemma frame_reads:
  assumes "workflow_frame db db'"
  shows "exception_log db' = exception_log db" "exception_changes db' = exception_changes db"
    "conflict_changes db' = conflict_changes db" "exception_exists db' = exception_exists db"
  using assms
  by (auto simp: workflow_frame_def exception_log_def exception_changes_def conflict_changes_def
      conflict_events_def exception_exists_def fun_eq_iff)

lemma observe_keeps:
  assumes ok: "workflow_ok db" and fresh: "\<forall>q \<in> set (receiving_exceptions db). xc_id q \<noteq> xc_id p"
    and r: "initialize_exception_workflow x p (db\<lparr>receiving_exceptions := receiving_exceptions db @ [p]\<rparr>) = Inr db'"
  shows "workflow_ok db'"
proof -
  have db': "db' = db\<lparr>receiving_exceptions := receiving_exceptions db @ [p],
      exception_workflows := exception_workflows db @ [opened_workflow p]\<rparr>"
    using r by (auto simp: initialize_exception_workflow_def result_simps)
  have logs: "exception_log db' = exception_log db" "exception_changes db' = exception_changes db"
    "conflict_changes db' = conflict_changes db"
    by (auto simp: db' exception_log_def exception_changes_def conflict_changes_def conflict_events_def fun_eq_iff)
  have empty: "exception_log db (xc_org p) (xc_id p) = []"
    using ok fresh by (fastforce simp: workflow_ok_def exception_log_def exception_exists_def filter_empty_conv)
  have "workflow_agrees db' p (opened_workflow p)"
    by (simp add: workflow_agrees_def opened_workflow_def shows_event_def latest_exception_event_def logs empty
        status_after_def number_after_def when_closed_def)
  moreover have "workflow_agrees db' q w = workflow_agrees db q w" for q w
    by (rule workflow_agrees_cong) (simp add: logs)
  moreover have "receiving_exceptions db' = receiving_exceptions db @ [p]" "exception_events db' = exception_events db"
    "exception_workflows db' = exception_workflows db @ [opened_workflow p]" by (simp_all add: db')
  moreover have "wf_org (opened_workflow p) = xc_org p" "wf_exception (opened_workflow p) = xc_id p"
    by (simp_all add: opened_workflow_def)
  ultimately show ?thesis
    using ok fresh unfolding workflow_ok_def logs exception_exists_def by (auto intro: list_all2_appendI)
qed

lemma change_keeps:
  assumes ok: "workflow_ok db" and r: "transition_exception x i s t n occ eid ev db = Inr (e, db')"
  shows "workflow_ok db'"
proof -
  obtain org where x: "x_org x = Some org" and e: "ev_org e = org" "ev_exception e = i"
    and ex: "exception_exists db org i"
    and db': "db' = db\<lparr>exception_events := exception_events db @ [e],
              exception_workflows := map (\<lambda>w. if wf_org w = org \<and> wf_exception w = i then project_event e w else w)
                (exception_workflows db)\<rparr>"
    by (rule transition_exception_Inr [OF r]) (rule that)
  note log = transition_exception_log [OF r x]
  have m: "exception_moves (org, i) db db'" 
    unfolding exception_moves_def fst_conv snd_conv using r x by blast
  have ok': "\<forall>k. log_ok 0 OPEN (exception_changes db' k)"
    using exception_status.move_keeps_logs [OF m] ok by (simp add: workflow_ok_def)
  define f where "f = (\<lambda>w. if wf_org w = org \<and> wf_exception w = i then project_event e w else w)"
  have tables: "receiving_exceptions db' = receiving_exceptions db" "exception_events db' = exception_events db @ [e]"
    "exception_workflows db' = map f (exception_workflows db)" by (simp_all add: db' f_def)
  have pair: "wf_org (f w) = xc_org p \<and> wf_exception (f w) = xc_id p \<and> workflow_agrees db' p (f w)"
    if w: "wf_org w = xc_org p" "wf_exception w = xc_id p" "workflow_agrees db p w" for p w
  proof (cases "xc_org p = org \<and> xc_id p = i")
    case True
    have l: "latest_exception_event db' org i = Some e"
    proof -
      have "log_ok 0 OPEN (map (\<lambda>e. (ev_seq e, ev_from e, ev_to e)) (exception_log db' org i))"
        using spec [OF ok', of "(org, i)"] by (simp add: exception_changes_def)
      then have "latest_by ev_seq (exception_log db' org i) = Some (last (exception_log db' org i))"
        using log [of org i] by (subst latest_of_log) auto
      then show ?thesis by (simp add: latest_exception_event_def log [of org i])
    qed
    have "number_after (latest_exception_event db' org i) = int (length (exception_log db' org i))"
      by (rule exception_latest) (use ok' in blast)
    then show ?thesis
      using True w by (simp add: f_def workflow_agrees_def project_event_def shows_event_def l status_after_def number_after_def)
  next
    case False
    then have "workflow_agrees db' p w = workflow_agrees db p w"
      using log [of "xc_org p" "xc_id p"] by (intro workflow_agrees_cong) auto
    then show ?thesis using False w by (auto simp: f_def)
  qed
  have "list_all2 (\<lambda>p w. wf_org w = xc_org p \<and> wf_exception w = xc_id p \<and> workflow_agrees db' p w)
      (receiving_exceptions db') (exception_workflows db')"
    unfolding tables list_all2_map2
  proof (rule list_all2_mono)
    show "list_all2 (\<lambda>p w. wf_org w = xc_org p \<and> wf_exception w = xc_id p \<and> workflow_agrees db p w)
        (receiving_exceptions db) (exception_workflows db)" using ok by (simp add: workflow_ok_def)
  qed (use pair in blast)
  moreover have "conflict_changes db' = conflict_changes db"
    by (auto simp: db' conflict_changes_def conflict_events_def fun_eq_iff)
  ultimately show ?thesis
    using ok ok' ex e unfolding workflow_ok_def by (auto simp: tables exception_exists_def)
qed

lemma conflict_keeps:
  assumes ok: "workflow_ok db" and r: "insert_conflict_event x new db = Inr (c, db')"
  shows "workflow_ok db'"
proof -
  note i = insert_conflict_event_Inr [OF r]
  have m: "conflict_moves (sv_org new, sv_exception new) db db'" 
    unfolding conflict_moves_def using r by blast
  have "\<forall>k. log_ok 0 OPEN (conflict_changes db' k)"
    using conflict_status.move_keeps_logs [OF m] ok by (simp add: workflow_ok_def)
  moreover have "exception_log db' = exception_log db" "exception_changes db' = exception_changes db"
    by (auto simp: i(1) exception_log_def exception_changes_def fun_eq_iff)
  moreover from this have "workflow_agrees db' p w = workflow_agrees db p w" for p w
    by (intro workflow_agrees_cong) simp
  ultimately show ?thesis using ok by (simp add: workflow_ok_def i(1) exception_exists_def)
qed

lemma workflow_step_keeps:
  assumes "workflow_step db db'" "workflow_ok db"
  shows "workflow_ok db'"
  using assms
proof (cases rule: workflow_step.cases)
  case elsewhere
  have a: "workflow_agrees db' p w = workflow_agrees db p w" for p w
    by (rule workflow_agrees_cong) (simp add: frame_reads [OF elsewhere])
  show ?thesis using assms(2) frame_reads [OF elsewhere] elsewhere
    by (simp add: workflow_ok_def workflow_frame_def a)
qed (blast intro: observe_keeps change_keeps conflict_keeps)+

lemma tracked_ok: "tracked db \<Longrightarrow> workflow_ok db"
proof (induction rule: tracked.induct)
  case (start db)
  then show ?case
    by (simp add: workflow_ok_def exception_changes_def exception_log_def conflict_changes_def conflict_events_def)
qed (rule workflow_step_keeps)

section \<open>Properties\<close>

lemma no_event_malformed:
  assumes "workflow_ok db" "e \<in> set (exception_events db)"
  shows "\<not> event_malformed db e"
proof -
  let ?es = "exception_log db (ev_org e) (ev_exception e)"
  have ok: "log_ok 0 OPEN (map (\<lambda>e. (ev_seq e, ev_from e, ev_to e)) ?es)"
    using assms(1) by (simp add: workflow_ok_def exception_changes_def)
  have prior: "prior_change db e = List.find (\<lambda>p. ev_seq p = ev_seq e - 1) ?es"
    by (simp add: prior_change_def exception_log_def find_of_filter conj_assoc)
  have "e \<in> set ?es" using assms(2) by (simp add: exception_log_def)
  from log_ok_prior [OF ok this] show ?thesis
    by (auto simp: event_malformed_def prior status_after_def)
qed

lemma workflow_found:
  assumes ok: "workflow_ok db" and p: "p \<in> set (receiving_exceptions db)"
  obtains w where "find_workflow db (xc_org p) (xc_id p) = Some w" "workflow_agrees db p w"
proof -
  have l: "list_all2 (\<lambda>p w. wf_org w = xc_org p \<and> wf_exception w = xc_id p \<and> workflow_agrees db p w)
      (receiving_exceptions db) (exception_workflows db)" and d: "distinct (map xc_id (receiving_exceptions db))"
    using ok by (simp_all add: workflow_ok_def)
  have "\<exists>w. List.find (\<lambda>w. wf_org w = xc_org p \<and> wf_exception w = xc_id p) (exception_workflows db) = Some w
      \<and> workflow_agrees db p w"
    using l d p by (induction rule: list_all2_induct) (auto simp: rev_image_eqI)
  then show ?thesis using that by (auto simp: find_workflow_def)
qed

text \<open>
  C30: the workflow projection never disagrees with the events: in every database reached by recording
  exceptions and changing their status, the anomaly view is empty, every exception has its workflow,
  and the projected status and number are those of its last event.
\<close>

theorem workflow_projects_events:
  assumes "tracked db"
  shows "exception_workflow_anomalies db = []
     \<and> (\<forall>p \<in> set (receiving_exceptions db). \<exists>w. find_workflow db (xc_org p) (xc_id p) = Some w
          \<and> wf_status w = status_of (exception_changes db (xc_org p, xc_id p))
          \<and> wf_seq w = int (length (exception_log db (xc_org p) (xc_id p)))
          \<and> (wf_resolved_at w \<noteq> None \<longleftrightarrow> closed (wf_status w)))"
proof -
  have ok: "workflow_ok db" using tracked_ok [OF assms] .
  have "exception_workflow_anomalies db = []"
    using no_event_malformed [OF ok] workflow_found [OF ok]
    by (auto simp: exception_workflow_anomalies_def filter_empty_conv split: option.splits) (metis option.inject option.distinct(1))+
  moreover have "\<exists>w. find_workflow db (xc_org p) (xc_id p) = Some w
          \<and> wf_status w = status_of (exception_changes db (xc_org p, xc_id p))
          \<and> wf_seq w = int (length (exception_log db (xc_org p) (xc_id p)))
          \<and> (wf_resolved_at w \<noteq> None \<longleftrightarrow> closed (wf_status w))" if p: "p \<in> set (receiving_exceptions db)" for p
  proof -
    obtain w where w: "find_workflow db (xc_org p) (xc_id p) = Some w" "workflow_agrees db p w"
      by (rule workflow_found [OF ok p])
    have "log_ok 0 OPEN (exception_changes db (xc_org p, xc_id p))" using ok by (simp add: workflow_ok_def)
    from exception_latest [OF this] w show ?thesis
      by (auto simp: workflow_agrees_def shows_event_def when_closed_def status_after_def closed_def split: option.splits if_splits)
  qed
  ultimately show ?thesis by blast
qed

lemma list_all2_source: "list_all2 P xs ys \<Longrightarrow> y \<in> set ys \<Longrightarrow> \<exists>x \<in> set xs. P x y"
  by (induction rule: list_all2_induct) auto

lemma workflow_owner:
  assumes "workflow_ok db" "find_workflow db org i = Some w"
  obtains p where "p \<in> set (receiving_exceptions db)" "xc_org p = org" "xc_id p = i" "workflow_agrees db p w"
proof -
  have w: "wf_exception w = i" "wf_org w = org" "w \<in> set (exception_workflows db)"
    using assms(2) by (auto simp: find_workflow_def dest!: find_Some_in)
  have "list_all2 (\<lambda>p w. wf_org w = xc_org p \<and> wf_exception w = xc_id p \<and> workflow_agrees db p w)
      (receiving_exceptions db) (exception_workflows db)" using assms(1) by (simp add: workflow_ok_def)
  from list_all2_source [OF this w(3)] show ?thesis using that w by auto
qed

lemma workflow_status:
  assumes "workflow_ok db" "find_workflow db org i = Some w"
  shows "wf_status w = status_after (latest_exception_event db org i)"
  by (rule workflow_owner [OF assms]) (auto simp: workflow_agrees_def shows_event_def)

lemma transition_elsewhere:
  assumes "transition_exception x j s t n occ eid ev db = Inr (e, db')" "x_org x = Some org'" "(org', j) \<noteq> (org, i)"
  shows "find_workflow db' org i = find_workflow db org i"
proof -
  have f: "List.find P (map f ws) = List.find P ws" if "\<And>w. P w \<Longrightarrow> f w = w" "\<And>w. P (f w) = P w"
    for P :: "workflow_row \<Rightarrow> bool" and f ws using that by (induction ws) auto
  show ?thesis
    using assms unfolding find_workflow_def
    by (auto elim!: transition_exception_Inr intro!: f simp: project_event_def)
qed

lemma settled_step:
  assumes s: "workflow_step db db'" and ok: "workflow_ok db"
    and w: "find_workflow db org i = Some w" "closed (wf_status w)"
  shows "find_workflow db' org i = Some w \<and> exception_log db' org i = exception_log db org i"
  using s
proof (cases rule: workflow_step.cases)
  case (observe p x)
  then show ?thesis using w(1)
    by (auto simp: initialize_exception_workflow_def result_simps find_workflow_def exception_log_def
        find_append)
next
  case (change x j s t n occ eid ev e)
  obtain org' where x: "x_org x = Some org'" by (rule transition_exception_Inr [OF change]) (rule that)
  have "(org', j) \<noteq> (org, i)"
  proof
    assume k: "(org', j) = (org, i)"
    have m: "exception_moves (org, i) db db'"
      unfolding exception_moves_def fst_conv snd_conv using change x k by blast
    have "closed (status_of (exception_changes db (org, i)))"
      using exception_latest [of db org i] ok w(2) workflow_status [OF ok w(1)] by (simp add: workflow_ok_def)
    then show False using exception_status.closed_stays ok m by (simp add: workflow_ok_def)
  qed
  then show ?thesis using transition_elsewhere [OF change x] transition_exception_log [OF change x] w(1) by auto
next
  case (conflict x new c)
  then show ?thesis using w(1) insert_conflict_event_Inr(1) [OF conflict] by (simp add: find_workflow_def exception_log_def)
next
  case elsewhere
  then show ?thesis using w(1) by (simp add: workflow_frame_def find_workflow_def exception_log_def)
qed

lemma settled_later:
  assumes "tracked_later db db'" "workflow_ok db" "find_workflow db org i = Some w" "closed (wf_status w)"
  shows "workflow_ok db' \<and> find_workflow db' org i = Some w \<and> exception_log db' org i = exception_log db org i"
  using assms
proof (induction rule: tracked_later.induct)
  case (later_step db' db'')
  then show ?case using settled_step workflow_step_keeps by metis
qed simp

text \<open>
  A settled exception stays settled: once it is RESOLVED or WAIVED its workflow row and its
  events never change again, and no transition of it is accepted, with or without an evaluation.
\<close>

theorem settled_exception_final:
  assumes "tracked db" "tracked_later db db'" "find_workflow db org i = Some w" "closed (wf_status w)"
  shows "find_workflow db' org i = Some w \<and> exception_log db' org i = exception_log db org i
     \<and> (x_org x = Some org \<longrightarrow> raised (transition_exception x i s t n occ eid ev db'))"
proof -
  have l: "workflow_ok db'" "find_workflow db' org i = Some w" "exception_log db' org i = exception_log db org i"
    using settled_later [OF assms(2) tracked_ok [OF assms(1)] assms(3,4)] by blast+
  have "raised (transition_exception x i s t n occ eid ev db')" if x: "x_org x = Some org"
  proof (cases "transition_exception x i s t n occ eid ev db'")
    case (Inr r)
    then obtain e db'' where r: "transition_exception x i s t n occ eid ev db' = Inr (e, db'')" by (cases r) auto
    have "find_workflow db'' org i = Some w" "exception_log db'' org i = exception_log db' org i"
      using settled_step [OF workflow_step.change [OF r] l(1,2) assms(4)] by blast+
    then show ?thesis using transition_exception_log [OF r x, of org i] by simp
  qed simp
  then show ?thesis using l by blast
qed

fun view_status :: "exception_view \<Rightarrow> workflow_status" where
  "view_status (Observation p w es) = wf_status w"
| "view_status (Sync_conflict v) = cv_status v"

lemma visible_find:
  assumes "x_org x = Some org"
  shows "List.find (\<lambda>w. visible x (wf_org w) \<and> wf_exception w = i) ws = List.find (\<lambda>w. wf_org w = org \<and> wf_exception w = i) ws"
  by (rule find_cong [OF refl]) (use assms in \<open>auto simp: visible_def\<close>)

lemma exception_transition_shown:
  assumes ok: "workflow_ok db" and r: "transition_exception x i s t n occ eid ev db = Inr (e, db')"
  shows "\<exists>v v'. get_exception x db i = Inr v \<and> view_status v = s \<and> get_exception x db' i = Inr v' \<and> view_status v' = t
     \<and> t \<in> WORKFLOW s"
proof -
  obtain org w where x: "x_org x = Some org" and w: "find_workflow db org i = Some w"
    and s: "s = status_after (latest_exception_event db org i)" "t \<in> WORKFLOW s" "ev_to e = t"
      "exception_exists db org i"
    and db': "db' = db\<lparr>exception_events := exception_events db @ [e],
              exception_workflows := map (\<lambda>w. if wf_org w = org \<and> wf_exception w = i then project_event e w else w)
                (exception_workflows db)\<rparr>"
    by (rule transition_exception_Inr [OF r]) (rule that)
  have ok': "workflow_ok db'" using change_keeps [OF ok r] .
  have view: "\<exists>v. get_exception x d i = Inr v \<and> view_status v = wf_status u"
    if d: "exception_exists d org i" "find_workflow d org i = Some u" for d u
  proof -
    have "\<exists>w \<in> set (exception_workflows d). visible x (wf_org w) \<and> wf_exception w = i"
      using d(2) x by (auto simp: find_workflow_def visible_def dest!: find_Some_in)
    then have "\<exists>p. List.find (\<lambda>o'. visible x (xc_org o') \<and> xc_id o' = i
                 \<and> (\<exists>w \<in> set (exception_workflows d). visible x (wf_org w) \<and> wf_exception w = xc_id o'))
             (receiving_exceptions d) = Some p"
      using d(1) x by (auto simp: exception_exists_def visible_def find_None_iff simp flip: not_None_eq)
    then show ?thesis using d(2) by (auto simp: get_exception_def visible_find [OF x] find_workflow_def)
  qed
  have find': "find_workflow db' org i = Some (project_event e w)"
  proof -
    have "List.find (\<lambda>w. wf_org w = org \<and> wf_exception w = i)
        (map (\<lambda>w. if wf_org w = org \<and> wf_exception w = i then project_event e w else w) ws)
        = map_option (project_event e) (List.find (\<lambda>w. wf_org w = org \<and> wf_exception w = i) ws)" for ws
      by (induction ws) (auto simp: project_event_def)
    then show ?thesis using w by (simp add: db' find_workflow_def)
  qed
  have "exception_exists db' org i" using s(4) by (simp add: db' exception_exists_def)
  then obtain v v' where "get_exception x db i = Inr v" "view_status v = wf_status w"
    "get_exception x db' i = Inr v'" "view_status v' = wf_status (project_event e w)"
    using view [OF s(4) w] view [OF _ find'] by blast
  then show ?thesis using workflow_status [OF ok w] s by (auto simp: project_event_def)
qed

lemma view_conflict_status:
  assumes "log_ok 0 OPEN (conflict_changes db (org, i))"
  shows "cv_status (view_conflict c (conflict_events db org i)) = status_of (conflict_changes db (org, i))"
    "cv_seq (view_conflict c (conflict_events db org i)) = int (length (conflict_events db org i))"
  using conflict_latest(2) [OF assms]
  by (auto simp: view_conflict_def Let_def status_of_def conflict_changes_def last_map)

lemma get_conflict_events:
  assumes "workflow_ok db" "x_org x = Some org"
    "List.find (\<lambda>c. visible x (sc_org c) \<and> sc_id c = i) (sync_conflicts db) = Some c"
  shows "get_conflict x db i = Inr (view_conflict c (conflict_events db org i))"
proof -
  have "filter (\<lambda>e. visible x (sv_org e) \<and> sv_exception e = i) (sync_conflict_events db) = conflict_events db org i"
    using assms(2) by (auto simp: conflict_events_def visible_def intro: filter_cong)
  moreover have "sort_key sv_seq (conflict_events db org i) = conflict_events db org i"
    by (rule sort_log [where source = sv_from and target = sv_to])
      (use assms(1) in \<open>unfold workflow_ok_def conflict_changes_def, force\<close>)
  ultimately show ?thesis by (simp add: get_conflict_def assms(3))
qed

lemma conflict_transition_shown:
  assumes ok: "workflow_ok db" and r: "conflict_transition x i s t n occ eid db = Inr (e, db')"
  shows "\<exists>v v'. get_conflict x db i = Inr v \<and> cv_status v = s \<and> get_conflict x db' i = Inr v' \<and> cv_status v' = t
     \<and> t \<in> WORKFLOW s \<and> receiving_exceptions db' = receiving_exceptions db"
proof -
  obtain v new where v: "get_conflict x db i = Inr v" and m: "insert_conflict_event x new db = Inr (e, db')"
    and new: "sv_org new = sc_org (cv_row v)" "sv_exception new = i" "sv_from new = s" "sv_to new = t"
    using r by (force simp: conflict_transition_def result_simps)
  note k = insert_conflict_event_Inr [OF m]
  obtain c where c: "List.find (\<lambda>c. visible x (sc_org c) \<and> sc_id c = i) (sync_conflicts db) = Some c" "cv_row v = c"
    using v by (auto simp: get_conflict_def result_simps view_conflict_def Let_def)
  have x: "x_org x = Some (sc_org c)" using k(2) new(1) c(2) by (simp add: visible_def)
  note g = get_conflict_events [OF ok x c(1)]
  have ok': "workflow_ok db'" using conflict_keeps [OF ok m] .
  have c': "List.find (\<lambda>c. visible x (sc_org c) \<and> sc_id c = i) (sync_conflicts db') = Some c" using c(1) by (simp add: k(1))
  have log: "log_ok 0 OPEN (conflict_changes d (sc_org c, i))" if "workflow_ok d" for d
    using that by (simp add: workflow_ok_def)
  have s: "status_of (conflict_changes db (sc_org c, i)) = s"
    using k(6,10) conflict_latest(1) [OF log [OF ok]] new c(2)
    by (auto simp: status_of_def conflict_changes_def last_map split: if_splits)
  have "conflict_events db' (sc_org c) i = conflict_events db (sc_org c) i @ [e]"
    using k(3,4) new c(2) by (simp add: k(1) conflict_events_def)
  then have t: "status_of (conflict_changes db' (sc_org c, i)) = t" using k(7) new by (simp add: conflict_changes_def)
  show ?thesis
    using g get_conflict_events [OF ok' x c'] view_conflict_status(1) [OF log [OF ok]]
      view_conflict_status(1) [OF log [OF ok']] s t k(6-8) new by (simp add: k(1))
qed

text \<open>
  A status change that the service accepts is what the reader then shows: before it the exception
  had the expected status, afterwards it has the requested one, and the two are an edge of the
  workflow; this holds for receiving exceptions and for sync conflicts alike.  The hypothesis
  excludes one identifier naming both a receiving exception and a conflict.
\<close>

theorem accepted_transition_shown:
  assumes "tracked db" "service_transition_exception x i s t n occ eid db = Inr (e, db')"
    and "\<not> ((\<exists>p \<in> set (receiving_exceptions db). xc_id p = i) \<and> (\<exists>c \<in> set (sync_conflicts db). sc_id c = i))"
  shows "\<exists>v v'. get_exception x db i = Inr v \<and> view_status v = s
     \<and> get_exception x db' i = Inr v' \<and> view_status v' = t \<and> t \<in> WORKFLOW s"
proof (cases "\<exists>c \<in> set (sync_conflicts db). visible x (sc_org c) \<and> sc_id c = i")
  case True
  then obtain e' where r: "conflict_transition x i s t n occ eid db = Inr (e', db')"
    using assms(2) by (auto simp: service_transition_exception_def result_simps split: if_splits)
  have none: "List.find (\<lambda>o'. visible x (xc_org o') \<and> xc_id o' = i \<and> P o') (receiving_exceptions db) = None" for P
    using assms(3) True by (auto simp: find_None_iff)
  show ?thesis
    using conflict_transition_shown [OF tracked_ok [OF assms(1)] r] none by (auto simp: get_exception_def)
next
  case False
  then obtain e' where "transition_exception x i s t n occ eid None db = Inr (e', db')"
    using assms(2) by (auto simp: service_transition_exception_def result_simps split: if_splits)
  then show ?thesis using exception_transition_shown [OF tracked_ok [OF assms(1)]] by blast
qed

section \<open>A concrete run\<close>

definition wk_exception :: exception_row where
  "wk_exception = \<lparr>xc_id = 130, xc_org = 1, xc_type = OPENED_UNIT, xc_receipt = 131, xc_line = Some 132,
     xc_po_line = None, xc_asset = None, xc_conflicting = None, xc_evaluation = None, xc_actor = 10,
     xc_occurred = At 900\<rparr>"

definition wk_opened :: fleet where
  "wk_opened = ex_stocked\<lparr>receiving_exceptions := [wk_exception],
                          exception_workflows := [opened_workflow wk_exception]\<rparr>"

definition wk_event :: "int \<Rightarrow> workflow_status \<Rightarrow> workflow_status \<Rightarrow> workflow_event" where
  "wk_event k s t = \<lparr>ev_id = 140 + nat k, ev_org = 1, ev_exception = 130, ev_seq = k, ev_from = s, ev_to = t,
     ev_note = (if k = 1 then None else Some [110]), ev_evaluation = None, ev_actor = 10, ev_occurred = At 950\<rparr>"

definition wk_seen :: fleet where
  "wk_seen = wk_opened\<lparr>exception_events := [wk_event 1 OPEN ACKNOWLEDGED],
     exception_workflows := [(opened_workflow wk_exception)\<lparr>wf_status := ACKNOWLEDGED, wf_seq := 1\<rparr>]\<rparr>"

definition wk_settled_row :: workflow_row where
  "wk_settled_row = (opened_workflow wk_exception)
     \<lparr>wf_status := RESOLVED, wf_seq := 2, wf_resolved_by := Some 10, wf_resolved_at := Some (At 950),
      wf_note := Some [110]\<rparr>"

definition wk_settled :: fleet where
  "wk_settled = wk_seen\<lparr>exception_events := [wk_event 1 OPEN ACKNOWLEDGED, wk_event 2 ACKNOWLEDGED RESOLVED],
     exception_workflows := [wk_settled_row]\<rparr>"

lemma wk_open_ok:
  "initialize_exception_workflow ex_ctx wk_exception
     (ex_stocked\<lparr>receiving_exceptions := receiving_exceptions ex_stocked @ [wk_exception]\<rparr>) = Inr wk_opened"
  by code_simp

lemma wk_note: "normalize_correction_reason [110, 32] = [110]" "normalize_correction_reason [110] = [110]"
  by (simp_all add: normalize_correction_reason_def btrim_set_def correction_space_def)

lemma wk_change_check: "change_check 2 ACKNOWLEDGED RESOLVED (Some [110]) (At 950)"
  by (simp add: change_check_def note_ok_def wk_note closed_def length_between_def has_nonspace_def pg_space_def)

lemma wk_transition:
  assumes "current_authenticated_actor ex_ctx db = Inr 10" "find_workflow db 1 130 = Some w"
    "(1, 130) \<notin> set (exception_workflow_anomalies db)" "status_after (latest_exception_event db 1 130) = ev_from e"
    "number_after (latest_exception_event db 1 130) + 1 = ev_seq e"
    "change_check (ev_seq e) (ev_from e) (ev_to e) (ev_note e) (At 950)"
    "\<forall>d \<in> set (exception_events db). ev_id d \<noteq> ev_id e
       \<and> \<not> (ev_org d = 1 \<and> ev_exception d = 130 \<and> ev_seq d = ev_seq e)"
    "1 \<in> set (organizations db) \<and> exception_exists db 1 130 \<and> actor_exists db 1 10"
    "e = \<lparr>ev_id = ev_id e, ev_org = 1, ev_exception = 130, ev_seq = ev_seq e, ev_from = ev_from e, ev_to = ev_to e,
          ev_note = map_option normalize_correction_reason n, ev_evaluation = None, ev_actor = 10, ev_occurred = At 950\<rparr>"
  shows "transition_exception ex_ctx 130 (ev_from e) (ev_to e) n (At 950) (ev_id e) None db
     = Inr (e, db\<lparr>exception_events := exception_events db @ [e], exception_workflows :=
         map (\<lambda>w. if wf_org w = 1 \<and> wf_exception w = 130 then project_event e w else w) (exception_workflows db)\<rparr>)"
proof -
  have x: "x_org ex_ctx = Some 1" "x_actor_hint ex_ctx = None" by (simp_all add: ex_ctx_def)
  have "enforce_authenticated_creator ex_ctx db 10 None = Inr ()"
    using assms(1) by (simp add: enforce_authenticated_creator_def)
  moreover have "ev_org e = 1" "ev_exception e = 130" "ev_actor e = 10" "ev_occurred e = At 950" "ev_evaluation e = None"
    and note_eq: "map_option normalize_correction_reason n = ev_note e"
    by (subst assms(9), simp)+
  moreover from this have lit: "\<lparr>ev_id = ev_id e, ev_org = 1, ev_exception = 130, ev_seq = ev_seq e, ev_from = ev_from e,
      ev_to = ev_to e, ev_note = ev_note e, ev_evaluation = None, ev_actor = 10, ev_occurred = At 950\<rparr> = e" by simp
  ultimately show ?thesis
    using assms(1,2,3,6-8) unfolding transition_exception_def x insert_exception_event_def Let_def
    by (simp add: note_eq assms(4,5) lit del: One_nat_def cong: if_cong)
qed

lemma wk_see_ok:
  "transition_exception ex_ctx 130 OPEN ACKNOWLEDGED None (At 950) 141 None wk_opened
     = Inr (wk_event 1 OPEN ACKNOWLEDGED, wk_seen)"
proof -
  have "current_authenticated_actor ex_ctx wk_opened = Inr 10" "find_workflow wk_opened 1 130 = Some (opened_workflow wk_exception)"
    "(1, 130) \<notin> set (exception_workflow_anomalies wk_opened)" "exception_events wk_opened = []"
    "1 \<in> set (organizations wk_opened) \<and> exception_exists wk_opened 1 130 \<and> actor_exists wk_opened 1 10"
    "latest_exception_event wk_opened 1 130 = None" by code_simp+
  moreover have "change_check 1 OPEN ACKNOWLEDGED None (At 950)" by (simp add: change_check_def)
  ultimately show ?thesis
    using wk_transition [of wk_opened _ "wk_event 1 OPEN ACKNOWLEDGED" None]
    by (simp add: status_after_def number_after_def wk_event_def wk_seen_def wk_opened_def project_event_def
        opened_workflow_def wk_exception_def when_closed_def closed_def)
qed

lemma wk_settle_ok:
  "transition_exception ex_ctx 130 ACKNOWLEDGED RESOLVED (Some [110, 32]) (At 950) 142 None wk_seen
     = Inr (wk_event 2 ACKNOWLEDGED RESOLVED, wk_settled)"
proof -
  have "current_authenticated_actor ex_ctx wk_seen = Inr 10"
    "find_workflow wk_seen 1 130 = Some ((opened_workflow wk_exception)\<lparr>wf_status := ACKNOWLEDGED, wf_seq := 1\<rparr>)"
    "(1, 130) \<notin> set (exception_workflow_anomalies wk_seen)"
    "1 \<in> set (organizations wk_seen) \<and> exception_exists wk_seen 1 130 \<and> actor_exists wk_seen 1 10"
    "latest_exception_event wk_seen 1 130 = Some (wk_event 1 OPEN ACKNOWLEDGED)"
    "exception_events wk_seen = [wk_event 1 OPEN ACKNOWLEDGED]" by code_simp+
  then show ?thesis
    using wk_transition [of wk_seen _ "wk_event 2 ACKNOWLEDGED RESOLVED" "Some [110, 32]"] wk_change_check
    by (simp add: status_after_def number_after_def wk_event_def wk_seen_def wk_opened_def project_event_def wk_note
        opened_workflow_def wk_exception_def when_closed_def closed_def wk_settled_def wk_settled_row_def)
qed

lemma wk_service_ok:
  "service_transition_exception ex_ctx 130 ACKNOWLEDGED RESOLVED (Some [110, 32]) (At 950) 142 wk_seen
     = Inr (Inl (wk_event 2 ACKNOWLEDGED RESOLVED), wk_settled)"
proof -
  have "sync_conflicts wk_seen = []" by code_simp
  then show ?thesis by (simp add: service_transition_exception_def wk_settle_ok constraints_def closed_def)
qed

lemma wk_seen_tracked: "tracked wk_seen"
proof -
  have "tracked ex_stocked" by (rule tracked.start) (code_simp+)
  moreover have "\<forall>q \<in> set (receiving_exceptions ex_stocked). xc_id q \<noteq> xc_id wk_exception" by code_simp
  ultimately have "tracked wk_opened" using wk_open_ok by (blast intro: tracked.run workflow_step.observe)
  then show ?thesis using wk_see_ok by (blast intro: tracked.run workflow_step.change)
qed

lemma wk_settled_tracked: "tracked wk_settled"
proof -
  show ?thesis using wk_settle_ok wk_seen_tracked by (blast intro: tracked.run workflow_step.change)
qed

theorem workflow_projects_events_witness:
  "exception_workflow_anomalies wk_settled = [] \<and> receiving_exceptions wk_settled = [wk_exception]"
proof -
  have "receiving_exceptions wk_settled = [wk_exception]" by code_simp
  then show ?thesis using workflow_projects_events [OF wk_settled_tracked] by blast
qed

theorem settled_exception_final_witness:
  "raised (transition_exception ex_ctx 130 RESOLVED OPEN None (At 960) 143 None wk_settled)
     \<and> find_workflow wk_settled 1 130 = Some wk_settled_row"
proof -
  have "find_workflow wk_settled 1 130 = Some wk_settled_row" "closed (wf_status wk_settled_row)"
    "x_org ex_ctx = Some 1" by code_simp+
  then show ?thesis using settled_exception_final [OF wk_settled_tracked tracked_later.now] by blast
qed

theorem accepted_transition_shown_witness:
  "\<exists>v. get_exception ex_ctx wk_settled 130 = Inr v \<and> view_status v = RESOLVED"
proof -
  have "\<not> ((\<exists>p \<in> set (receiving_exceptions wk_seen). xc_id p = 130) \<and> (\<exists>c \<in> set (sync_conflicts wk_seen). sc_id c = 130))"
    by code_simp
  then show ?thesis using accepted_transition_shown [OF wk_seen_tracked wk_service_ok] by blast
qed

end
