(* ===== verification/RecordRun.thy ===== *)
theory RecordRun
  imports RecordPairs ReceivingRun WorkflowProperties
begin

text \<open>
  Corrections beside receiving and the fleet: both correction tables keep the contract of a correction
  table, and a correction call is a sequence of statements that leave orders, captured lines,
  reconciliations and Assets alone.
\<close>

section \<open>The two tables\<close>

lemma admit_receipt_line_Inr:
  assumes "admit_receipt_line x db k parent facts = Inr k'"
  shows "\<exists>c. k' = k\<lparr>k_conflicting := c\<rparr>" "k_role k = CORRECTED \<Longrightarrow> k_parent k = parent"
proof -
  obtain r u where r: "(if k_role k = CORRECTED then admit_replacement db r k parent facts else Inr ()) = Inr u"
    and rest: "(if lf_observed facts = None then Inr (k\<lparr>k_conflicting := None\<rparr>)
      else rbind (from_option E23514
                    (case lf_observed (k_facts k) of None \<Rightarrow> None | Some v \<Rightarrow> readable_holder db (k_org k) v))
             (\<lambda>a. Inr (k\<lparr>k_conflicting := Some a\<rparr>))) = Inr k'"
    using assms unfolding admit_receipt_line_def rbind_Inr_iff ensure_Inr_iff by blast
  show "\<exists>c. k' = k\<lparr>k_conflicting := c\<rparr>"
  proof (cases "lf_observed facts = None")
    case True
    then have "k' = k\<lparr>k_conflicting := None\<rparr>" using rest by simp
    then show ?thesis ..
  next
    case False
    then show ?thesis using rest unfolding if_not_P [OF False] rbind_Inr_iff by blast
  qed
  show "k_parent k = parent" if "k_role k = CORRECTED"
    using r that by (simp add: admit_replacement_def Let_def ensure_Inr_iff)
qed

interpretation po_table: correction_table po_guard
proof
  fix db :: fleet and k :: "po_facts krow" and x parent facts k'
  show "current_authenticated_actor x (kc_add (kg_class po_guard) k db) = current_authenticated_actor x db"
    by (rule current_actor_cong) (simp_all add: po_guard_def po_records_def)
  show "\<exists>c. k' = k\<lparr>k_conflicting := c\<rparr> \<and> (k_role k = CORRECTED \<longrightarrow> k_parent k = parent)"
    if "kg_admit po_guard x db k parent facts = Inr k'"
  proof -
    have "k' = k" "k_parent k = parent" using that by (auto simp: po_guard_def admit_procurement_def ensure_Inr_iff)
    then show ?thesis by (intro exI [of _ "k_conflicting k"]) simp
  qed
qed (simp_all add: po_guard_def po_records_def)

interpretation line_table: correction_table line_guard
proof
  fix db :: fleet and k :: "line_facts krow" and x parent facts k'
  show "current_authenticated_actor x (kc_add (kg_class line_guard) k db) = current_authenticated_actor x db"
    by (rule current_actor_cong) (simp_all add: line_guard_def line_records_def)
  show "\<exists>c. k' = k\<lparr>k_conflicting := c\<rparr> \<and> (k_role k = CORRECTED \<longrightarrow> k_parent k = parent)"
    if admit: "kg_admit line_guard x db k parent facts = Inr k'"
    using admit_receipt_line_Inr admit by (simp add: line_guard_def)
qed (simp_all add: line_guard_def line_records_def)

lemma guards_class [simp]: "kg_class po_guard = po_records" "kg_class line_guard = line_records"
  by (simp_all add: po_guard_def line_guard_def)

lemma classes_rows [simp]:
  "kc_rows po_records = purchase_order_line_corrections" "kc_rows line_records = receipt_line_corrections"
  by (simp_all add: po_records_def line_records_def)

section \<open>What a correction never writes\<close>

definition beside :: "fleet \<Rightarrow> fleet \<Rightarrow> bool" where
  "beside db db' \<longleftrightarrow> receipts db' = receipts db \<and> receipt_lines db' = receipt_lines db
     \<and> receipt_reconciliations db' = receipt_reconciliations db \<and> purchase_orders db' = purchase_orders db
     \<and> purchase_order_lines db' = purchase_order_lines db
     \<and> assets db' = assets db \<and> asset_identifiers db' = asset_identifiers db
     \<and> asset_initial_facts db' = asset_initial_facts db
     \<and> asset_initial_assignment_facts db' = asset_initial_assignment_facts db
     \<and> asset_transitions db' = asset_transitions db \<and> asset_movements db' = asset_movements db
     \<and> asset_custody_changes db' = asset_custody_changes db \<and> asset_ownership_changes db' = asset_ownership_changes db
     \<and> asset_assignment_events db' = asset_assignment_events db \<and> attachments db' = attachments db
     \<and> attachment_links db' = attachment_links db \<and> actors db' = actors db"

lemma beside_refl [simp]: "beside db db"
  by (simp add: beside_def)

lemma beside_trans: "beside a b \<Longrightarrow> beside b c \<Longrightarrow> beside a c"
  by (simp add: beside_def)

lemma beside_step: "beside db db' \<Longrightarrow> fleet_step x db db'"
  by (rule confined_frame) (simp_all add: beside_def)

lemma beside_reconciled: "beside db db' \<Longrightarrow> reconciled db' = reconciled db"
  by (simp add: beside_def reconciled_def [abs_def])

text \<open>Such a transaction is one of receiving's steps elsewhere when what it binds and records is grounded.\<close>

lemma beside_apart:
  assumes "beside db db'" "receiving_exceptions db' = receiving_exceptions db @ es"
    "\<forall>e \<in> set es. xc_evaluation e \<noteq> None \<and> grounded db' e"
    "receipt_comparators db' = receipt_comparators db @ cs"
    "\<forall>c \<in> set cs. cm_introduced_by c \<noteq> None \<and> comparator_grounded db' c"
    "\<forall>c \<in> set (receipt_comparators db).
       find_expectation db' (cm_org c) (cm_po_line c) = find_expectation db (cm_org c) (cm_po_line c)"
  shows "receiving_step db db'"
  using assms by (intro receiving_step.elsewhere) (simp add: apart_def beside_def asset_exists_def unread_def)

lemma beside_expectation:
  assumes "beside db db'" "purchase_order_line_corrections db' = purchase_order_line_corrections db"
  shows "find_expectation db' = find_expectation db"
  using assms by (simp add: find_expectation_def [abs_def] effective_po_line_def [abs_def] beside_def)

section \<open>Statements of an evaluation\<close>

inductive evaluation_op :: "ctx \<Rightarrow> fleet \<Rightarrow> fleet \<Rightarrow> bool" for x :: ctx where
  comparator: "insert_comparator x c db = Inr db' \<Longrightarrow> cm_introduced_by c \<noteq> None \<Longrightarrow>
    reconciled db (cm_org c) (cm_receipt c) \<Longrightarrow> evaluation_op x db db'"
| evaluation: "insert_evaluation x e db = Inr (e', db') \<Longrightarrow> evaluation_op x db db'"
| line: "insert_evaluation_line x s db = Inr db' \<Longrightarrow> evaluation_op x db db'"
| expectation: "insert_evaluation_expectation x s db = Inr db' \<Longrightarrow> evaluation_op x db db'"
| consequence: "insert_consequence x q db = Inr db' \<Longrightarrow> evaluation_op x db db'"
| exception: "insert_exception x e db = Inr db' \<Longrightarrow> xc_evaluation e \<noteq> None \<Longrightarrow>
    reconciled db (xc_org e) (xc_receipt e) \<Longrightarrow> evaluation_op x db db'"
| resolution: "transition_exception x i s t n occ eid ev db = Inr (e, db') \<Longrightarrow> evaluation_op x db db'"

lemma insert_comparator_expected:
  assumes "insert_comparator x c db = Inr db'"
  shows "\<exists>d. db' = db\<lparr>receipt_comparators := receipt_comparators db @ [d]\<rparr> \<and> cm_org d = cm_org c
    \<and> cm_receipt d = cm_receipt c \<and> cm_introduced_by d = cm_introduced_by c
    \<and> find_expectation db (cm_org d) (cm_po_line d) \<noteq> None"
proof (rule insert_comparator_Inr [OF assms])
  fix d and r :: receipt_row
  assume "db' = db\<lparr>receipt_comparators := receipt_comparators db @ [d]\<rparr>" "cm_org d = cm_org c"
    "cm_receipt d = cm_receipt c" "cm_introduced_by d = cm_introduced_by c"
    and l: "lock_receiving_context x db (cm_org d) (cm_receipt d) = Inr r" "admit_comparator db r (cm_po_line d) = Inr ()"
  moreover have "find_expectation db (cm_org d) (cm_po_line d) \<noteq> None"
    using admit_Inr [OF l(2)] lock_Inr(3) [OF l(1)] by (metis option.distinct(1))
  ultimately show ?thesis by blast
qed

lemma insert_evaluation_Inr:
  assumes "insert_evaluation x new db = Inr (e, db')"
  shows "db' = db\<lparr>receipt_correction_evaluations := receipt_correction_evaluations db @ [e]\<rparr>"
  using assms unfolding insert_evaluation_def Let_def rbind_Inr_iff ensure_Inr_iff by auto

lemma insert_evaluation_line_Inr:
  "insert_evaluation_line x new db = Inr db' \<Longrightarrow>
    \<exists>s. db' = db\<lparr>receipt_evaluation_lines := receipt_evaluation_lines db @ [s]\<rparr>"
  unfolding insert_evaluation_line_def rbind_Inr_iff ensure_Inr_iff by blast

lemma insert_evaluation_expectation_Inr:
  "insert_evaluation_expectation x new db = Inr db' \<Longrightarrow>
    \<exists>s. db' = db\<lparr>receipt_evaluation_expectations := receipt_evaluation_expectations db @ [s]\<rparr>"
  unfolding insert_evaluation_expectation_def rbind_Inr_iff ensure_Inr_iff by blast

lemma insert_consequence_Inr:
  "insert_consequence x new db = Inr db' \<Longrightarrow>
    \<exists>q. db' = db\<lparr>receipt_evaluation_exceptions := receipt_evaluation_exceptions db @ [q]\<rparr>"
  unfolding insert_consequence_def Let_def rbind_Inr_iff ensure_Inr_iff by blast

text \<open>An evaluation touches no correction, and what it records stays grounded for receiving.\<close>

definition evaluates :: "fleet \<Rightarrow> fleet \<Rightarrow> bool" where
  "evaluates db db' \<longleftrightarrow> beside db db' \<and> purchase_order_line_corrections db' = purchase_order_line_corrections db
     \<and> receipt_line_corrections db' = receipt_line_corrections db"

lemma evaluates_refl [simp]: "evaluates db db"
  by (simp add: evaluates_def)

lemma evaluates_trans: "evaluates a b \<Longrightarrow> evaluates b c \<Longrightarrow> evaluates a c"
  by (auto simp: evaluates_def intro: beside_trans)

lemma op_evaluates:
  assumes "evaluation_op x db db'"
  shows "evaluates db db'"
  using assms
proof cases
  case (comparator c)
  then obtain d where "db' = db\<lparr>receipt_comparators := receipt_comparators db @ [d]\<rparr>" using insert_comparator_Inr by metis
  then show ?thesis by (simp add: evaluates_def beside_def)
next
  case evaluation
  from insert_evaluation_Inr [OF this] show ?thesis by (simp add: evaluates_def beside_def)
next
  case line
  then show ?thesis using insert_evaluation_line_Inr by (fastforce simp: evaluates_def beside_def)
next
  case expectation
  then show ?thesis using insert_evaluation_expectation_Inr by (fastforce simp: evaluates_def beside_def)
next
  case consequence
  then show ?thesis using insert_consequence_Inr by (fastforce simp: evaluates_def beside_def)
next
  case (exception e)
  then obtain f where "db' = db\<lparr>receiving_exceptions := receiving_exceptions db @ [f],
              exception_workflows := exception_workflows db @ [opened_workflow f]\<rparr>" using insert_exception_Inr by metis
  then show ?thesis by (simp add: evaluates_def beside_def)
next
  case (resolution i s t n occ eid ev e)
  then show ?thesis by (auto elim!: transition_exception_Inr simp: evaluates_def beside_def)
qed

lemma evaluated_line_named:
  assumes "(i, d) \<in> set (evaluation_disagreements db org v)" "dg_line d = Some l"
  shows "\<exists>r \<in> set (receipt_lines db). rl_org r = org \<and> rl_id r = l \<and> rl_receipt r = i"
proof -
  have "\<exists>m \<in> set (evaluated_lines db org v). el_receipt m = i \<and> el_line m = l"
    using assms by (fastforce simp: evaluation_disagreements_def Let_def line_disagreement_def quantity_disagreement_def
        split: option.splits)
  then show ?thesis by (fastforce simp: evaluated_lines_def evaluate_line_def Let_def)
qed

lemma evaluates_receiving:
  assumes "evaluates db db'" "receiving_exceptions db' = receiving_exceptions db @ es"
    "\<forall>e \<in> set es. xc_evaluation e \<noteq> None \<and> grounded db' e"
    "receipt_comparators db' = receipt_comparators db @ cs"
    "\<forall>c \<in> set cs. cm_introduced_by c \<noteq> None \<and> comparator_grounded db' c"
  shows "receiving_step db db'"
  using assms beside_expectation [of db db'] by (intro beside_apart [where es = es and cs = cs]) (simp_all add: evaluates_def)

lemma quiet_receiving:
  assumes "evaluates db db'" "receiving_exceptions db' = receiving_exceptions db"
    "receipt_comparators db' = receipt_comparators db"
  shows "receiving_step db db'"
  by (rule evaluates_receiving [where es = "[]" and cs = "[]"]) (use assms in simp_all)

lemma op_receiving:
  assumes "evaluation_op x db db'"
  shows "receiving_step db db'"
proof -
  note e = op_evaluates [OF assms]
  then have same: "find_expectation db' = find_expectation db" and b: "beside db db'"
    by (auto simp: evaluates_def intro: beside_expectation)
  show ?thesis
    using assms
  proof cases
    case (comparator c)
    obtain d where d: "db' = db\<lparr>receipt_comparators := receipt_comparators db @ [d]\<rparr>" "cm_org d = cm_org c"
      "cm_receipt d = cm_receipt c" "cm_introduced_by d = cm_introduced_by c"
      "find_expectation db (cm_org d) (cm_po_line d) \<noteq> None"
      using insert_comparator_expected [OF comparator(1)] by blast
    have "comparator_grounded db' d"
      using d(2-5) comparator(3) unfolding comparator_grounded_def same beside_reconciled [OF b] by simp
    moreover have "receipt_comparators db' = receipt_comparators db @ [d]"
      "receiving_exceptions db' = receiving_exceptions db @ []" by (simp_all add: d(1))
    ultimately show ?thesis
      using d(4) comparator(2) by (intro evaluates_receiving [where es = "[]" and cs = "[d]", OF e]) simp_all
  next
    case (exception f)
    obtain q where q: "db' = db\<lparr>receiving_exceptions := receiving_exceptions db @ [q],
              exception_workflows := exception_workflows db @ [opened_workflow q]\<rparr>" "xc_org q = xc_org f"
      "xc_receipt q = xc_receipt f" "xc_evaluation q = xc_evaluation f" "exception_supported db q = Inr ()"
      using insert_exception_Inr [OF exception(1)] by metis
    have "\<exists>l \<in> set (receipt_lines db). names_line l q" if "xc_line q \<noteq> None"
      using q(4,5) exception(2) that evaluated_line_named [of "xc_receipt q" "exception_disagreement q"]
      by (fastforce simp: exception_supported_def ensure_Inr_iff names_line_def exception_disagreement_def)
    then have "grounded db' q"
      using exception(2,3) q(2-4) beside_reconciled [OF b] b by (auto simp: grounded_def beside_def)
    moreover have "receiving_exceptions db' = receiving_exceptions db @ [q]"
      "receipt_comparators db' = receipt_comparators db @ []" by (simp_all add: q(1))
    ultimately show ?thesis
      using exception(2) q(4) by (intro evaluates_receiving [where es = "[q]" and cs = "[]", OF e]) simp_all
  next
    case evaluation
    from insert_evaluation_Inr [OF this] show ?thesis by (intro quiet_receiving [OF e]) simp_all
  next
    case line
    from insert_evaluation_line_Inr [OF this] show ?thesis by (intro quiet_receiving [OF e]) auto
  next
    case expectation
    from insert_evaluation_expectation_Inr [OF this] show ?thesis by (intro quiet_receiving [OF e]) auto
  next
    case consequence
    from insert_consequence_Inr [OF this] show ?thesis by (intro quiet_receiving [OF e]) auto
  next
    case (resolution i s t n occ eid ev v)
    then show ?thesis by (intro quiet_receiving [OF e]) (auto elim!: transition_exception_Inr)
  qed
qed

section \<open>Evaluation as a sequence of statements\<close>

definition evaluation_run :: "ctx \<Rightarrow> receipt_row \<Rightarrow> fleet \<Rightarrow> fleet \<Rightarrow> bool" where
  "evaluation_run x h db db' \<longleftrightarrow>
     (reconciled db (rc_org h) (rc_id h) \<longrightarrow> (evaluation_op x)\<^sup>*\<^sup>* db db' \<and> evaluates db db')"

lemma run_refl [simp]: "evaluation_run x h db db"
  by (simp add: evaluation_run_def)

lemma run_trans: "evaluation_run x h a b \<Longrightarrow> evaluation_run x h b c \<Longrightarrow> evaluation_run x h a c"
  by (auto simp: evaluation_run_def evaluates_def dest: beside_reconciled intro: beside_trans rtranclp_trans)

lemma op_run: "(reconciled db (rc_org h) (rc_id h) \<Longrightarrow> evaluation_op x db db') \<Longrightarrow> evaluation_run x h db db'"
  by (auto simp: evaluation_run_def intro: op_evaluates)

lemma fold_run:
  assumes "fold_result f xs s = Inr s'"
    and "\<And>y s s'. f y s = Inr s' \<Longrightarrow> evaluation_run x h (p s) (p s')"
  shows "evaluation_run x h (p s) (p s')"
  using assms(1)
proof (induction xs arbitrary: s)
  case (Cons y ys)
  obtain t where "f y s = Inr t" "fold_result f ys t = Inr s'" using Cons.prems by (auto simp: result_simps)
  then show ?case using Cons.IH [of t] assms(2) by (meson run_trans)
qed simp

lemma exec_run:
  assumes "exec f w = Inr w'" "\<And>db'. f (w_db w) = Inr db' \<Longrightarrow> evaluation_run x h (w_db w) db'"
  shows "evaluation_run x h (w_db w) (w_db w')"
  using assms by (auto simp: exec_def rbind_Inr_iff)

lemma exec_row_run:
  assumes "exec_row f w = Inr (r, w')" "\<And>db'. f (w_db w) = Inr (r, db') \<Longrightarrow> evaluation_run x h (w_db w) db'"
  shows "evaluation_run x h (w_db w) (w_db w')"
  using assms by (auto simp: exec_row_def rbind_Inr_iff)

lemma draw_run:
  assumes "draw u w = (i, w1)"
  shows "w_db w1 = w_db w"
  using assms by (auto simp: draw_def)

lemma line_run: "insert_evaluation_line x s db = Inr db' \<Longrightarrow> evaluation_run x h db db'"
  by (blast intro: op_run evaluation_op.line)

lemma expectation_run: "insert_evaluation_expectation x s db = Inr db' \<Longrightarrow> evaluation_run x h db db'"
  by (blast intro: op_run evaluation_op.expectation)

lemma consequence_run: "insert_consequence x q db = Inr db' \<Longrightarrow> evaluation_run x h db db'"
  by (blast intro: op_run evaluation_op.consequence)

lemma resolution_run:
  "exec_row (transition_exception x i s t n occ eid ev) w = Inr (v, w') \<Longrightarrow> evaluation_run x h (w_db w) (w_db w')"
  by (erule exec_row_run) (blast intro: op_run evaluation_op.resolution)

lemma bind_comparator_run:
  assumes "bind_comparator u x h t g (Some k) w = Inr w'"
  shows "evaluation_run x h (w_db w) (w_db w')"
  using assms
  by (auto simp: bind_comparator_def draw_def exec_def Let_def rbind_Inr_iff ensure_Inr_iff split: if_splits
      intro!: op_run elim!: evaluation_op.comparator)

lemma pin_lines_run: "pin_lines u x h e w = Inr w' \<Longrightarrow> evaluation_run x h (w_db w) (w_db w')"
  unfolding pin_lines_def
  by (erule fold_run) (auto simp: rbind_Inr_iff draw_def exec_def dest: line_run [where h = h])

lemma pin_expectations_run: "pin_expectations u x h e w = Inr w' \<Longrightarrow> evaluation_run x h (w_db w) (w_db w')"
  unfolding pin_expectations_def
  by (erule fold_run) (auto simp: rbind_Inr_iff draw_def exec_def dest: expectation_run [where h = h])

lemma record_consequence_run:
  "record_consequence u x h e i s p w = Inr w' \<Longrightarrow> evaluation_run x h (w_db w) (w_db w')"
  by (auto simp: record_consequence_def rbind_Inr_iff draw_def exec_def dest: consequence_run [where h = h])

lemma weigh_observation_run:
  assumes "weigh_observation u x h e pair ds fs o' (cs, w) = Inr (cs', w')"
  shows "evaluation_run x h (w_db w) (w_db w')"
proof -
  obtain s cl P w1 and f :: workflow_row where c: "record_consequence u x h e (xc_id o') s (wf_seq f) w = Inr w1"
    and rest: "(if P then (case draw u w1 of (i, w2) \<Rightarrow>
            rbind (exec_row (transition_exception x (xc_id o') (wf_status f) RESOLVED (Some (superseded_note pair))
                     (ve_occurred e) i (Some (ve_id e))) w2) (\<lambda>(_, w3). Inr (cl, w3)))
         else Inr (cl, w1)) = Inr (cs', w')"
    using assms unfolding weigh_observation_def Let_def prod.case rbind_Inr_iff ensure_Inr_iff
    by (elim exE conjE) (erule (1) that)
  have "evaluation_run x h (w_db w1) (w_db w')"
  proof (cases P)
    case True
    then have "\<exists>i v. exec_row (transition_exception x (xc_id o') (wf_status f) RESOLVED (Some (superseded_note pair))
        (ve_occurred e) i (Some (ve_id e))) (w1\<lparr>w_draws := Suc (w_draws w1)\<rparr>) = Inr (v, w')"
      using rest by (auto simp: draw_def rbind_Inr_iff)
    then show ?thesis using resolution_run by fastforce
  next
    case False
    then show ?thesis using rest by simp
  qed
  then show ?thesis using record_consequence_run [OF c] run_trans by blast
qed

lemma observe_disagreement_run:
  assumes "observe_disagreement u x h e d w = Inr w'"
  shows "evaluation_run x h (w_db w) (w_db w')"
proof -
  obtain q w1 w2 i where q: "exec (insert_exception x q) w1 = Inr w2" "w_db w1 = w_db w"
    "xc_evaluation q = Some (ve_id e)" "xc_org q = rc_org h" "xc_receipt q = rc_id h"
    and c: "record_consequence u x h e i True 0 w2 = Inr w'"
    using assms by (fastforce simp: observe_disagreement_def draw_def rbind_Inr_iff)
  have "evaluation_run x h (w_db w1) (w_db w2)"
    by (rule exec_run [OF q(1)]) (auto intro!: op_run evaluation_op.exception simp: q)
  then show ?thesis using record_consequence_run [OF c] run_trans q(2) by fastforce
qed

lemma evaluate_run:
  assumes "evaluate u x h k w0 = Inr (e, w)"
  shows "evaluation_run x h (w_db w0) (w_db w)"
proof -
  obtain i w1 w2 w3 w4 ds cs w5 xs where d: "draw u w0 = (i, w1)"
    and s: "exec_row (insert_evaluation x (evaluation_request x (w_db w1) h k i)) w1 = Inr (e, w2)"
    "pin_lines u x h e w2 = Inr w3" "pin_expectations u x h e w3 = Inr w4"
    "fold_result (weigh_observation u x h e (k_pair k) ds (receipt_workflows x (w_db w4) h))
                 (receipt_observations x (w_db w4) h) ([], w4) = Inr (cs, w5)"
    "fold_result (observe_disagreement u x h e) xs w5 = Inr w"
    using assms unfolding evaluate_def by (auto simp: rbind_Inr_iff Let_def split: prod.splits)
  have "evaluation_run x h (w_db w1) (w_db w2)"
    by (rule exec_row_run [OF s(1)]) (blast intro: op_run evaluation_op.evaluation)
  moreover have "evaluation_run x h (w_db w4) (w_db w5)"
    using fold_run [where p = "\<lambda>s. w_db (snd s)", OF s(4)] weigh_observation_run by fastforce
  moreover have "evaluation_run x h (w_db w5) (w_db w)" by (rule fold_run [OF s(5)]) (rule observe_disagreement_run)
  ultimately show ?thesis
    using pin_lines_run [OF s(2)] pin_expectations_run [OF s(3)] draw_run [OF d] run_trans by metis
qed

section \<open>Calls\<close>

inductive correction_call :: "ctx \<Rightarrow> fleet \<Rightarrow> fleet \<Rightarrow> bool" for x :: ctx where
  procurement: "correct_procurement u x po r c db = Inr (k, db') \<Longrightarrow> correction_call x db db'"
| receipt_line: "correct_receipt_line u x i r g c db = Inr (k, v, db') \<Longrightarrow> correction_call x db db'"

lemma find_same:
  assumes "List.find P xs = Some a" "List.find Q xs = Some b" "P b" "Q a"
  shows "a = b"
  using assms by (induction xs) (auto split: if_splits)

lemma correct_procurement_Inr:
  assumes "correct_procurement u x po r c db = Inr (k, db')"
  obtains l h w where "l \<in> set (purchase_order_lines db)" "visible x (pl_org l)" "pl_id l = r" "pl_po l = po"
    "\<forall>b \<in> set (receipt_comparators db). \<not> (cm_org b = pl_org l \<and> cm_po_line b = r)"
    "record_head po_records x db r (po_facts_of l) (pl_created_at l) = Inr h"
    "correct_pair u po_guard x (pl_org l) r po h c \<lparr>w_draws = 0, w_db = db\<rparr> = Inr (k, w)" "w_db w = db'"
    "\<And>p t f. kc_root po_records db (pl_org l) r = Some (p, t, f) \<Longrightarrow> f = po_facts_of l"
proof -
  obtain h w and l :: po_line_row where
    l: "List.find (\<lambda>l. visible x (pl_org l) \<and> pl_id l = r \<and> pl_po l = po) (purchase_order_lines db) = Some l"
    and b: "\<forall>b \<in> set (receipt_comparators db). \<not> (visible x (cm_org b) \<and> cm_po_line b = r)"
    and h: "record_head po_records x db r (po_facts_of l) (pl_created_at l) = Inr h"
    and c: "correct_pair u po_guard x (pl_org l) r (pl_po l) h c \<lparr>w_draws = 0, w_db = db\<rparr> = Inr (k, w)" "w_db w = db'"
    using assms unfolding correct_procurement_def map_error_Inr_iff rbind_Inr_iff ensure_Inr_iff from_option_Inr_iff
    by auto
  have f: "l \<in> set (purchase_order_lines db)" "visible x (pl_org l)" "pl_id l = r" "pl_po l = po" using find_Some_in [OF l] by auto
  have same: "f = po_facts_of l" if root: "kc_root po_records db (pl_org l) r = Some (p, t, f)" for p t f
  proof -
    obtain m where m: "List.find (\<lambda>m. pl_org m = pl_org l \<and> pl_id m = r) (purchase_order_lines db) = Some m"
      "f = po_facts_of m" "p = pl_po m"
      using root by (auto simp: po_records_def)
    obtain q t' f' where "kc_root po_records db (pl_org l) r = Some (q, t', f')" "q = pl_po l"
      using po_table.pair_Inr [OF c(1)] by (metis guards_class(1) work.select_convs(2))
    then have "pl_po m = po" using root m f by simp
    then have "m = l" using find_same [OF m(1) l] find_Some_in [OF m(1)] f by simp
    then show ?thesis using m by simp
  qed
  show ?thesis
    by (rule that [OF f _ h c(1) [unfolded f(4)] c(2) same]) (use b f(2) in \<open>auto simp: visible_def\<close>)
qed

lemma correct_receipt_line_Inr:
  assumes "correct_receipt_line u x i r g c db = Inr (k, v, db')"
  obtains l h head w1 where "rc_id h = i" "rc_org h = rl_org l" "reconciled db (rc_org h) i"
    "l \<in> set (receipt_lines db)" "visible x (rl_org l)" "rl_id l = r" "rl_receipt l = i"
    "record_head line_records x db r (line_facts_of l) (rl_occurred l) = Inr head"
    "correct_pair u line_guard x (rl_org l) r i head c \<lparr>w_draws = 0, w_db = db\<rparr> = Inr (k, w1)"
    "evaluation_run x h (w_db w1) db'"
    "\<And>p t f. kc_root line_records db (rl_org l) r = Some (p, t, f) \<Longrightarrow> f = line_facts_of l"
    "assert_receipt_correction_complete db' (rc_org h) i (k_pair k) = Inr ()"
proof -
  obtain e head w1 w2 w3 ok and h :: receipt_row and l :: receipt_line_row where
    h: "lock_receipt x db i = Inr h" "completed x db i"
    and l: "List.find (\<lambda>l. visible x (rl_org l) \<and> rl_id l = r \<and> rl_receipt l = i) (receipt_lines db) = Some l"
    and head: "record_head line_records x db r (line_facts_of l) (rl_occurred l) = Inr head"
    and c: "correct_pair u line_guard x (rl_org l) r (rl_receipt l) head c \<lparr>w_draws = 0, w_db = db\<rparr> = Inr (k, w1)"
    and b: "(case lf_po_line (k_facts k) of
                 None \<Rightarrow> Inr w1
               | Some p \<Rightarrow> bind_comparator u x h p g (Some (k_id k)) w1) = Inr w2"
    and e: "evaluate u x h k w2 = Inr (e, w3)" "w_db w3 = db'"
    and a: "assert_receipt_correction_complete (w_db w3) (rc_org h) i (k_pair k) = Inr ok"
    using assms
    unfolding correct_receipt_line_def map_error_Inr_iff rbind_Inr_iff ensure_Inr_iff from_option_Inr_iff
    by (auto simp: rbind_Inr_iff)
  have f: "l \<in> set (receipt_lines db)" "visible x (rl_org l)" "rl_id l = r" "rl_receipt l = i" using find_Some_in [OF l] by auto
  obtain org where "x_org x = Some org" "lock_receiving_context x db org i = Inr h"
    using h(1) by (auto simp: lock_receipt_def rbind_Inr_iff split: option.splits)
  then have hd: "rc_id h = i" "rc_org h = rl_org l" using lock_Inr f(2) by (auto simp: visible_def)
  have r: "reconciled db (rc_org h) i" using h(2) f(2) hd by (auto simp: completed_def reconciled_def visible_def)
  have "evaluation_run x h (w_db w1) (w_db w2)" using b bind_comparator_run by (auto split: option.splits)
  then have run: "evaluation_run x h (w_db w1) db'" using evaluate_run [OF e(1)] e(2) run_trans by blast
  have same: "f = line_facts_of l" if root: "kc_root line_records db (rl_org l) r = Some (p, t, f)" for p t f
  proof -
    obtain m where m: "List.find (\<lambda>m. rl_org m = rl_org l \<and> rl_id m = r) (receipt_lines db) = Some m"
      "f = line_facts_of m" "p = rl_receipt m"
      using root by (auto simp: line_records_def)
    obtain q t' f' where "kc_root line_records db (rl_org l) r = Some (q, t', f')" "q = rl_receipt l"
      using line_table.pair_Inr [OF c] by (metis guards_class(2) work.select_convs(2))
    then have "rl_receipt m = i" using root m f by simp
    then have "m = l" using find_same [OF m(1) l] find_Some_in [OF m(1)] f by simp
    then show ?thesis using m by simp
  qed
  show ?thesis
    by (rule that [OF hd r f head c [unfolded f(4)] run same]) (use a e(2) in simp_all)
qed

end
