(* ===== verification/RecordExample.thy ===== *)
theory RecordExample
  imports RecordCorrections ReceivingExample "HOL-Library.Code_Target_Nat"
begin

text \<open>
  Concrete corrections: the quantity and the price of the issued order line before any receipt, and
  the damaged unit of the reconciled receipt, corrected into two good ones.
\<close>

text \<open>Whitespace by ranges, for evaluation.\<close>

definition correction_white :: "nat \<Rightarrow> bool" where
  "correction_white c \<longleftrightarrow> (if c < 128 then (9 \<le> c \<and> c \<le> 13) \<or> (28 \<le> c \<and> c \<le> 32) else c \<in> correction_space)"

lemma correction_space_white: "c \<in> correction_space \<longleftrightarrow> correction_white c"
proof (cases "c < 128")
  case True
  then show ?thesis by (simp add: correction_white_def correction_space_def) presburger
next
  case False
  then show ?thesis by (simp add: correction_white_def)
qed

lemma normalize_correction_reason_code [code]:
  "normalize_correction_reason t = rev (dropWhile correction_white (rev (dropWhile correction_white t)))"
  by (simp add: normalize_correction_reason_def btrim_set_def correction_space_white)

lemma superseded_note_code [code]:
  "superseded_note pair =
      [67, 111, 114, 114, 101, 99, 116, 101, 100, 32, 114, 101, 99, 101, 105, 112, 116, 32, 114, 101,
       97, 108, 105, 116, 121, 32, 115, 117, 112, 101, 114, 115, 101, 100, 101, 100, 32, 116, 104, 105,
       115, 32, 111, 98, 115, 101, 114, 118, 97, 116, 105, 111, 110, 39, 115, 32, 97, 115, 115, 101,
       114, 116, 105, 111, 110, 46, 32, 82, 101, 97, 115, 111, 110, 58, 32, 115, 101, 101, 32, 114, 101,
       99, 101, 105, 112, 116, 45, 108, 105, 110, 101, 32, 99, 111, 114, 114, 101, 99, 116, 105, 111,
       110, 32, 112, 97, 105, 114, 32] @ uuid_text pair @ [46]"
  by (simp add: superseded_note_def lit_def)

definition ex_po_correction :: "po_facts correction" where
  "ex_po_correction = \<lparr>co_generation = 0, co_reason = [99], co_at = At 850,
     co_values = put_po_values \<lparr>pv_item = None, pv_quantity = Some (Num 3), pv_uom = None, pv_price = Some (Num 4),
       pv_expected = Some (Some (At 990))\<rparr>\<rparr>"

definition ex_line_correction :: "line_facts correction" where
  "ex_line_correction = \<lparr>co_generation = 0, co_reason = [99], co_at = At 950,
     co_values = put_line_values \<lparr>lv_po_line = None, lv_item = None, lv_quantity = Some (Num 2), lv_uom = None,
       lv_condition = Some GOOD, lv_packing = Some None, lv_notes = None, lv_observed = None\<rparr>\<rparr>"

definition corrected_db :: "py_error + ('k \<times> uuid \<times> fleet) \<Rightarrow> fleet" where
  "corrected_db m = (case m of Inl _ \<Rightarrow> empty_fleet | Inr (_, _, db) \<Rightarrow> db)"

definition corrected_holds :: "('k \<Rightarrow> uuid \<Rightarrow> fleet \<Rightarrow> bool) \<Rightarrow> py_error + ('k \<times> uuid \<times> fleet) \<Rightarrow> bool" where
  "corrected_holds P m = (case m of Inl _ \<Rightarrow> False | Inr (k, v, db) \<Rightarrow> P k v db)"

lemma corrected_holdsE:
  assumes "corrected_holds P m"
  obtains k v where "m = Inr (k, v, corrected_db m)" "P k v (corrected_db m)"
  using assms by (cases m) (auto simp: corrected_db_def corrected_holds_def)

definition ex_repriced :: fleet where
  "ex_repriced = result_db (correct_procurement (ex_uuid7 500) ex_ctx 50 51 ex_po_correction ex_procured)"

definition ex_resolved :: fleet where
  "ex_resolved = corrected_db (correct_receipt_line (ex_uuid7 500) ex_ctx 200 202 0 ex_line_correction ex_received)"

text \<open>What each call returns and leaves behind.\<close>

lemma ex_repriced_result:
  "result_holds (\<lambda>db. map (\<lambda>l. (pl_id l, pl_quantity (effective_po_line db l), pl_price (effective_po_line db l)))
         (purchase_order_lines db) = [(51, Num 3, Num 4)])
     (correct_procurement (ex_uuid7 500) ex_ctx 50 51 ex_po_correction ex_procured)"
  by code_simp

lemma ex_resolved_result:
  "corrected_holds (\<lambda>k v db. k_org k = 1 \<and> k_pair k = 500 \<and> v = 503)
     (correct_receipt_line (ex_uuid7 500) ex_ctx 200 202 0 ex_line_correction ex_received)"
  by code_simp

lemma ex_repriced_call:
  "\<exists>k. correct_procurement (ex_uuid7 500) ex_ctx 50 51 ex_po_correction ex_procured = Inr (k, ex_repriced)"
  using ex_repriced_result unfolding ex_repriced_def by (blast elim: result_holdsE)

lemma ex_repriced_tables:
  "map (\<lambda>l. (pl_id l, pl_quantity (effective_po_line ex_repriced l), pl_price (effective_po_line ex_repriced l)))
         (purchase_order_lines ex_repriced) = [(51, Num 3, Num 4)]"
  using ex_repriced_result by (auto simp: ex_repriced_def elim!: result_holdsE)

lemma ex_resolved_call:
  "\<exists>k. correct_receipt_line (ex_uuid7 500) ex_ctx 200 202 0 ex_line_correction ex_received = Inr (k, 503, ex_resolved)
     \<and> k_org k = 1 \<and> k_pair k = 500"
  using ex_resolved_result unfolding ex_resolved_def by (elim corrected_holdsE) auto

text \<open>A stored evaluation of the captured line, whose view lists the packing count last and Python before.\<close>

definition ex_judged :: fleet where
  "ex_judged = empty_fleet
     \<lparr>receipt_lines := [ex_line\<lparr>rl_uom := MM\<rparr>],
      purchase_order_lines := purchase_order_lines ex_procured,
      receipt_correction_evaluations := [\<lparr>ve_id = 503, ve_org = 1, ve_receipt = 200, ve_line = 202, ve_correction = 502,
        ve_generation = 1, ve_seq = 1, ve_txn = 1, ve_actor = 10, ve_occurred = At 950\<rparr>],
      receipt_evaluation_lines := [\<lparr>so_id = 504, so_org = 1, so_evaluation = 503, so_root = 202, so_generation = 0,
        so_source = None, so_actor = 10, so_occurred = At 950\<rparr>],
      receipt_evaluation_expectations := [\<lparr>so_id = 505, so_org = 1, so_evaluation = 503, so_root = 51,
        so_generation = 0, so_source = None, so_actor = 10, so_occurred = At 950\<rparr>]\<rparr>"

lemma ex_judged_population:
  "map ee_po_line (evaluated_expectations ex_judged 1 503) = [51]"
  "map el_po_line (evaluated_lines ex_judged 1 503) = [Some 51]"
  "map (\<lambda>e. (ve_org e, ve_id e)) (receipt_correction_evaluations ex_judged) = [(1, 503)]"
  "map dg_kind (disagreements ex_judged 1 503) = [UOM_MISMATCH, DAMAGED_UNIT, QUANTITY_VARIANCE]"
  by code_simp+

end
