(* ===== verification/RecordProperties.thy ===== *)
theory RecordProperties
  imports RecordRun RecordExample
begin

text \<open>
  The properties of record corrections: the replacement becomes effective and nothing else does,
  histories stay well formed, the two classifiers agree, and a correction call is one of receiving's
  steps elsewhere.
\<close>

section \<open>Calls beside receiving\<close>

lemma anomalies_cong:
  assumes "kc_rows cls db' = kc_rows cls db" "kc_root cls db' = kc_root cls db"
  shows "record_anomalies cls db' = record_anomalies cls db"
  by (simp only: record_anomalies_def record_bad_def assms)

lemma procurement_tables:
  assumes "correct_pair u po_guard x org r parent h c w = Inr (k, w')"
  shows "beside (w_db w) (w_db w')" "receiving_exceptions (w_db w') = receiving_exceptions (w_db w)"
    "receipt_comparators (w_db w') = receipt_comparators (w_db w)"
    "receipt_line_corrections (w_db w') = receipt_line_corrections (w_db w)"
    "effective_correction (purchase_order_line_corrections (w_db w')) org' r' =
      (if org' = org \<and> r' = r then Some k else effective_correction (purchase_order_line_corrections (w_db w)) org' r')"
proof -
  obtain a where "w_db w' = kc_add po_records k (kc_add po_records a (w_db w))"
    using po_table.pair_Inr [OF assms] by (metis guards_class(1))
  then show "beside (w_db w) (w_db w')" "receiving_exceptions (w_db w') = receiving_exceptions (w_db w)"
    "receipt_comparators (w_db w') = receipt_comparators (w_db w)"
    "receipt_line_corrections (w_db w') = receipt_line_corrections (w_db w)"
    by (simp_all add: po_records_def beside_def)
  show "effective_correction (purchase_order_line_corrections (w_db w')) org' r' =
      (if org' = org \<and> r' = r then Some k else effective_correction (purchase_order_line_corrections (w_db w)) org' r')"
    using po_table.pair_effective [OF assms] by simp
qed

lemma line_tables:
  assumes "correct_pair u line_guard x org r parent h c w = Inr (k, w')"
  shows "beside (w_db w) (w_db w')" "receiving_exceptions (w_db w') = receiving_exceptions (w_db w)"
    "receipt_comparators (w_db w') = receipt_comparators (w_db w)"
    "purchase_order_line_corrections (w_db w') = purchase_order_line_corrections (w_db w)"
    "effective_correction (receipt_line_corrections (w_db w')) org' r' =
      (if org' = org \<and> r' = r then Some k else effective_correction (receipt_line_corrections (w_db w)) org' r')"
proof -
  obtain a where "w_db w' = kc_add line_records k (kc_add line_records a (w_db w))"
    using line_table.pair_Inr [OF assms] by (metis guards_class(2))
  then show "beside (w_db w) (w_db w')" "receiving_exceptions (w_db w') = receiving_exceptions (w_db w)"
    "receipt_comparators (w_db w') = receipt_comparators (w_db w)"
    "purchase_order_line_corrections (w_db w') = purchase_order_line_corrections (w_db w)"
    by (simp_all add: line_records_def beside_def)
  show "effective_correction (receipt_line_corrections (w_db w')) org' r' =
      (if org' = org \<and> r' = r then Some k else effective_correction (receipt_line_corrections (w_db w)) org' r')"
    using line_table.pair_effective [OF assms] by simp
qed

lemma procurement_receiving:
  assumes "correct_procurement u x po r c db = Inr (k, db')"
  shows "receiving_step db db' \<and> beside db db'"
proof (rule correct_procurement_Inr [OF assms])
  fix l h w
  assume unbound: "\<forall>b \<in> set (receipt_comparators db). \<not> (cm_org b = pl_org l \<and> cm_po_line b = r)"
    and c: "correct_pair u po_guard x (pl_org l) r po h c \<lparr>w_draws = 0, w_db = db\<rparr> = Inr (k, w)" and w: "w_db w = db'"
  note t = procurement_tables [OF c, unfolded w work.select_convs]
  have "find_expectation db' (cm_org b) (cm_po_line b) = find_expectation db (cm_org b) (cm_po_line b)"
    if "b \<in> set (receipt_comparators db)" for b
  proof -
    have "effective_po_line db' m = effective_po_line db m" if "pl_org m = cm_org b" "pl_id m = cm_po_line b" for m
      using t(5) [of "pl_org m" "pl_id m"] unbound \<open>b \<in> _\<close> that by (auto simp: effective_po_line_def)
    moreover have "purchase_order_lines db' = purchase_order_lines db" using t(1) by (simp add: beside_def)
    ultimately show ?thesis
      by (auto simp: find_expectation_def intro!: option.map_cong0 dest!: find_Some_in)
  qed
  then show ?thesis using t(1-3) by (auto intro!: beside_apart [where es = "[]" and cs = "[]"])
qed

lemma receipt_line_receiving:
  assumes "correct_receipt_line u x i r g c db = Inr (k, v, db')"
  shows "receiving_step\<^sup>*\<^sup>* db db' \<and> beside db db'"
proof (rule correct_receipt_line_Inr [OF assms])
  fix l h head w1
  assume f: "rc_id h = i" "reconciled db (rc_org h) i"
    and c: "correct_pair u line_guard x (rl_org l) r i head c \<lparr>w_draws = 0, w_db = db\<rparr> = Inr (k, w1)"
    and run: "evaluation_run x h (w_db w1) db'"
  note t = line_tables [OF c, unfolded work.select_convs]
  have e: "(evaluation_op x)\<^sup>*\<^sup>* (w_db w1) db'" "beside (w_db w1) db'"
    using run f beside_reconciled [OF t(1)] by (auto simp: evaluation_run_def evaluates_def)
  have "receiving_step db (w_db w1)"
    using t beside_expectation [OF t(1,4)] by (intro beside_apart [where es = "[]" and cs = "[]"]) simp_all
  moreover have "receiving_step\<^sup>*\<^sup>* (w_db w1) db'" using e(1) by (rule rtranclp_mono [THEN predicate2D, rotated]) (blast intro: op_receiving)
  ultimately show ?thesis using t(1) e(2) beside_trans by (meson converse_rtranclp_into_rtranclp)
qed

lemma call_receiving: "correction_call x db db' \<Longrightarrow> receiving_step\<^sup>*\<^sup>* db db' \<and> beside db db'"
  by (erule correction_call.cases) (use procurement_receiving receipt_line_receiving in blast)+

text \<open>C22: Corrections of order lines and of receipt lines compose with receiving and with the fleet: a correction
  call on a history of receiving and fleet transactions leaves such a history, so every receiving property
  (exact exceptions, frozen reconciled receipts) and every fleet property survives corrections; captured
  lines, order lines, reconciliations and Assets are the same rows as before.\<close>

theorem corrections_compose:
  assumes "correction_call x db db'" "receiving_run db" "reachable db"
  shows "receiving_run db' \<and> reachable db' \<and> receipt_lines db' = receipt_lines db
    \<and> purchase_order_lines db' = purchase_order_lines db
    \<and> receipt_reconciliations db' = receipt_reconciliations db \<and> assets db' = assets db"
proof -
  have c: "receiving_step\<^sup>*\<^sup>* db db'" "beside db db'" using call_receiving [OF assms(1)] by auto
  have "receiving_run db'" using runs_grow [OF assms(2) c(1)] by blast
  moreover have "reachable db'" using reachable.run [OF assms(3) beside_step [OF c(2)]] .
  ultimately show ?thesis using c(2) by (simp add: beside_def)
qed

section \<open>Effective rows\<close>

text \<open>Correcting an issued order line: its effective row afterwards is the effective row before with the
  requested values put in, one generation later, under the same identity; the effective row of every other
  order line is unchanged.\<close>

theorem procurement_correction_effective:
  assumes "correct_procurement u x po r c db = Inr (k, db')"
  shows "\<exists>l \<in> set (purchase_order_lines db). pl_id l = r \<and> pl_po l = po
    \<and> effective_po_line db' l = with_po_facts l (co_values c (po_facts_of (effective_po_line db l)))
    \<and> generation_of (pl_org l) r (purchase_order_line_corrections db') =
        generation_of (pl_org l) r (purchase_order_line_corrections db) + 1
    \<and> (\<forall>m. (pl_org m, pl_id m) \<noteq> (pl_org l, r) \<longrightarrow> effective_po_line db' m = effective_po_line db m)"
proof (rule correct_procurement_Inr [OF assms])
  fix l h w
  assume l: "l \<in> set (purchase_order_lines db)" "visible x (pl_org l)" "pl_id l = r" "pl_po l = po"
    and h: "record_head po_records x db r (po_facts_of l) (pl_created_at l) = Inr h"
    and c: "correct_pair u po_guard x (pl_org l) r po h c \<lparr>w_draws = 0, w_db = db\<rparr> = Inr (k, w)" and w: "w_db w = db'"
  note t = procurement_tables [OF c, unfolded w work.select_convs]
  have facts: "hd_facts h = po_facts_of (effective_po_line db l)"
    using record_head_Inr(2) [OF h l(2)] l(3)
    by (auto simp: effective_po_line_def with_po_facts_def po_facts_of_def split: option.splits)
  have "k_facts k = co_values c (hd_facts h)" "k_generation k = co_generation c + 1"
    "co_generation c = generation_of (pl_org l) r (purchase_order_line_corrections db)"
    using po_table.pair_Inr [OF c] by (metis stamp_record_simps pair_row_simps guards_class(1) classes_rows(1) work.select_convs(2))+
  then show ?thesis
    using t(5) l facts
    by (intro bexI [of _ l]) (auto simp: effective_po_line_def [of db'] effective_po_line_def [of db] effective_generation)
qed

lemma receipt_line_tables:
  assumes "correct_receipt_line u x i r g c db = Inr (k, v, db')"
  shows "\<exists>l \<in> set (receipt_lines db). \<exists>head w1. rl_id l = r \<and> rl_receipt l = i \<and> rl_org l = k_org k \<and> visible x (rl_org l)
    \<and> record_head line_records x db r (line_facts_of l) (rl_occurred l) = Inr head
    \<and> correct_pair u line_guard x (rl_org l) r i head c \<lparr>w_draws = 0, w_db = db\<rparr> = Inr (k, w1)
    \<and> (\<forall>p t f. kc_root line_records db (rl_org l) r = Some (p, t, f) \<longrightarrow> f = line_facts_of l)
    \<and> (evaluation_op x)\<^sup>*\<^sup>* (w_db w1) db' \<and> evaluates (w_db w1) db'
    \<and> assert_receipt_correction_complete db' (k_org k) i (k_pair k) = Inr ()"
proof (rule correct_receipt_line_Inr [OF assms])
  fix l h head w1
  assume f: "rc_id h = i" "rc_org h = rl_org l" "reconciled db (rc_org h) i" "l \<in> set (receipt_lines db)" "visible x (rl_org l)"
    "rl_id l = r" "rl_receipt l = i"
    and hd: "record_head line_records x db r (line_facts_of l) (rl_occurred l) = Inr head"
    and c: "correct_pair u line_guard x (rl_org l) r i head c \<lparr>w_draws = 0, w_db = db\<rparr> = Inr (k, w1)"
    and run: "evaluation_run x h (w_db w1) db'"
    and root: "\<And>p t f. kc_root line_records db (rl_org l) r = Some (p, t, f) \<Longrightarrow> f = line_facts_of l"
    and a: "assert_receipt_correction_complete db' (rc_org h) i (k_pair k) = Inr ()"
  have "k_org k = rl_org l" using line_table.pair_Inr [OF c] by (metis stamp_record_simps(1) pair_row_simps(1))
  moreover have "(evaluation_op x)\<^sup>*\<^sup>* (w_db w1) db' \<and> evaluates (w_db w1) db'"
    using run f beside_reconciled [OF line_tables(1) [OF c, unfolded work.select_convs]] by (simp add: evaluation_run_def)
  ultimately show ?thesis using f hd c root a by (intro bexI [of _ l] exI [of _ head] exI [of _ w1]) auto
qed

text \<open>Correcting a line of a reconciled receipt: its effective row afterwards is the effective row before with the
  requested values put in, one generation later, and the captured row itself stays; the effective row of every
  other line of the fleet is unchanged, whatever evaluation and exceptions the call records.\<close>

theorem receipt_correction_effective:
  assumes "correct_receipt_line u x i r g c db = Inr (k, v, db')"
  shows "\<exists>l \<in> set (receipt_lines db). rl_id l = r \<and> rl_receipt l = i \<and> l \<in> set (receipt_lines db')
    \<and> effective_receipt_line db' l = with_line_facts l (co_values c (line_facts_of (effective_receipt_line db l)))
    \<and> generation_of (rl_org l) r (receipt_line_corrections db') =
        generation_of (rl_org l) r (receipt_line_corrections db) + 1
    \<and> (\<forall>m. (rl_org m, rl_id m) \<noteq> (rl_org l, r) \<longrightarrow> effective_receipt_line db' m = effective_receipt_line db m)"
proof -
  obtain l h w where l: "l \<in> set (receipt_lines db)" "rl_id l = r" "rl_receipt l = i" "visible x (rl_org l)"
    and h: "record_head line_records x db r (line_facts_of l) (rl_occurred l) = Inr h"
    and c: "correct_pair u line_guard x (rl_org l) r i h c \<lparr>w_draws = 0, w_db = db\<rparr> = Inr (k, w)"
    and e: "evaluates (w_db w) db'"
    using receipt_line_tables [OF assms] by blast
  note t = line_tables [OF c, unfolded work.select_convs]
  have same: "receipt_line_corrections db' = receipt_line_corrections (w_db w)" "receipt_lines db' = receipt_lines db"
    using e t(1) by (simp_all add: evaluates_def beside_def)
  have facts: "hd_facts h = line_facts_of (effective_receipt_line db l)"
    using record_head_Inr(2) [OF h l(4)] l(2)
    by (auto simp: effective_receipt_line_def with_line_facts_def line_facts_of_def split: option.splits)
  have "k_facts k = co_values c (hd_facts h)" "k_generation k = co_generation c + 1"
    "co_generation c = generation_of (rl_org l) r (receipt_line_corrections db)"
    using line_table.pair_Inr [OF c]
    by (metis stamp_record_simps pair_row_simps guards_class(2) classes_rows(2) work.select_convs(2))+
  then show ?thesis
    using t(5) l facts same
    by (intro bexI [of _ l])
      (auto simp: effective_receipt_line_def [of db'] effective_receipt_line_def [of db] effective_generation)
qed

section \<open>Well-formed histories\<close>

text \<open>An evaluation's source is a replacement of its line of the pinned generation, or the captured row.\<close>

definition pinned :: "fleet \<Rightarrow> source_row \<Rightarrow> bool" where
  "pinned db s \<longleftrightarrow>
     (case so_source s of
        None \<Rightarrow> so_generation s = 0
      | Some i \<Rightarrow> \<exists>k \<in> set (receipt_line_corrections db). k_org k = so_org s \<and> k_root k = so_root s
          \<and> k_generation k = so_generation s \<and> k_id k = i \<and> k_role k = CORRECTED)"

definition records_ok :: "fleet \<Rightarrow> bool" where
  "records_ok db \<longleftrightarrow> record_anomalies po_records db = [] \<and> record_anomalies line_records db = []
     \<and> distinct (map k_id (receipt_line_corrections db)) \<and> (\<forall>s \<in> set (receipt_evaluation_lines db). pinned db s)"

lemma pinned_cong: "receipt_line_corrections db' = receipt_line_corrections db \<Longrightarrow> pinned db' = pinned db"
  by (rule ext) (simp only: pinned_def)

lemma pinned_grows: "receipt_line_corrections db' = receipt_line_corrections db @ ks \<Longrightarrow> pinned db s \<Longrightarrow> pinned db' s"
  by (auto simp: pinned_def split: option.splits)

lemma insert_evaluation_line_pinned:
  assumes "insert_evaluation_line x new db = Inr db'"
  shows "\<exists>s. db' = db\<lparr>receipt_evaluation_lines := receipt_evaluation_lines db @ [s]\<rparr> \<and> pinned db s"
proof -
  obtain s ok where s: "source_ok (receipt_evaluation_lines db) s = Inr ok" "source_refs (receipt_line_corrections db) s"
    "db' = db\<lparr>receipt_evaluation_lines := receipt_evaluation_lines db @ [s]\<rparr>"
    using assms unfolding insert_evaluation_line_def rbind_Inr_iff ensure_Inr_iff by blast
  have "so_generation s = 0" if "so_source s = None"
    using s(1) that unfolding source_ok_def ensure_Inr_iff by (simp split: if_splits)
  then have "pinned db s" using s(2) by (cases "so_source s") (simp_all add: pinned_def source_refs_def)
  then show ?thesis using s(3) by blast
qed

lemma op_pinned:
  assumes "evaluation_op x db db'" "\<forall>s \<in> set (receipt_evaluation_lines db). pinned db s"
  shows "\<forall>s \<in> set (receipt_evaluation_lines db'). pinned db' s"
proof -
  have p: "pinned db' = pinned db" using op_evaluates [OF assms(1)] by (intro pinned_cong) (simp add: evaluates_def)
  have "\<forall>s \<in> set (receipt_evaluation_lines db'). pinned db s"
    using assms(1)
  proof cases
    case (comparator c)
    then show ?thesis using insert_comparator_expected assms(2) by fastforce
  next
    case evaluation
    from insert_evaluation_Inr [OF this] show ?thesis using assms(2) by simp
  next
    case line
    then show ?thesis using insert_evaluation_line_pinned assms(2) by fastforce
  next
    case expectation
    then show ?thesis using insert_evaluation_expectation_Inr assms(2) by fastforce
  next
    case consequence
    then show ?thesis using insert_consequence_Inr assms(2) by fastforce
  next
    case (exception e)
    obtain q where "db' = db\<lparr>receiving_exceptions := receiving_exceptions db @ [q],
              exception_workflows := exception_workflows db @ [opened_workflow q]\<rparr>"
      using insert_exception_Inr [OF exception(1)] by metis
    then show ?thesis using assms(2) by simp
  next
    case (resolution i s t n occ eid ev e)
    then show ?thesis using assms(2) by (auto elim!: transition_exception_Inr)
  qed
  then show ?thesis by (simp only: p)
qed

lemma closure_pinned:
  assumes "(evaluation_op x)\<^sup>*\<^sup>* db db'" "\<forall>s \<in> set (receipt_evaluation_lines db). pinned db s"
  shows "\<forall>s \<in> set (receipt_evaluation_lines db'). pinned db' s"
  using assms by (induction rule: rtranclp_induct) (blast dest: op_pinned)+

lemma procurement_ok:
  assumes "correct_procurement u x po r c db = Inr (k, db')" "records_ok db"
  shows "records_ok db'"
proof (rule correct_procurement_Inr [OF assms(1)])
  fix l h w
  assume v: "visible x (pl_org l)"
    and h: "record_head po_records x db r (po_facts_of l) (pl_created_at l) = Inr h"
    and c: "correct_pair u po_guard x (pl_org l) r po h c \<lparr>w_draws = 0, w_db = db\<rparr> = Inr (k, w)" and w: "w_db w = db'"
    and root: "\<And>p t f. kc_root po_records db (pl_org l) r = Some (p, t, f) \<Longrightarrow> f = po_facts_of l"
  note t = procurement_tables [OF c, unfolded w work.select_convs]
  have "record_anomalies po_records db' = []"
    using po_table.pair_intact [OF c] h v root assms(2) w by (simp add: records_ok_def)
  moreover have "record_anomalies line_records db' = record_anomalies line_records db"
    using t by (intro anomalies_cong) (simp_all add: beside_def line_records_def)
  moreover obtain a where "db' = kc_add po_records k (kc_add po_records a db)"
    using po_table.pair_Inr [OF c] w by (metis guards_class(1) work.select_convs(2))
  then have "receipt_evaluation_lines db' = receipt_evaluation_lines db" by (simp add: po_records_def)
  ultimately show ?thesis
    using assms(2) t(4) pinned_cong [OF t(4)] by (simp add: records_ok_def)
qed

lemma receipt_line_ok:
  assumes "correct_receipt_line u x i r g c db = Inr (k, v, db')" "records_ok db"
  shows "records_ok db'"
proof -
  obtain h w and l :: receipt_line_row where v: "visible x (rl_org l)"
    and h: "record_head line_records x db r (line_facts_of l) (rl_occurred l) = Inr h"
    and c: "correct_pair u line_guard x (rl_org l) r i h c \<lparr>w_draws = 0, w_db = db\<rparr> = Inr (k, w)"
    and root: "\<forall>p t f. kc_root line_records db (rl_org l) r = Some (p, t, f) \<longrightarrow> f = line_facts_of l"
    and e: "(evaluation_op x)\<^sup>*\<^sup>* (w_db w) db'" "evaluates (w_db w) db'"
    using receipt_line_tables [OF assms(1)] by blast
  note t = line_tables [OF c, unfolded work.select_convs]
  obtain a where a: "w_db w = kc_add line_records k (kc_add line_records a db)"
    "receipt_line_corrections (w_db w) = receipt_line_corrections db @ [a, k]"
    "record_unique (receipt_line_corrections db) a" "record_unique (receipt_line_corrections db @ [a]) k"
    by (rule line_table.pair_Inr [OF c, unfolded guards_class classes_rows work.select_convs]) (rule that)
  have ids: "distinct (map k_id (receipt_line_corrections (w_db w)))"
  proof -
    let ?ks = "receipt_line_corrections db"
    have "k_id a \<notin> k_id ` set ?ks" using a(3) by (fastforce simp: record_unique_def)
    moreover have "k_id k \<notin> k_id ` set (?ks @ [a])" using a(4) unfolding record_unique_def by fastforce
    moreover have "distinct (map k_id ?ks)" using assms(2) by (simp only: records_ok_def)
    ultimately show ?thesis by (simp add: a(2))
  qed
  have "receipt_evaluation_lines (w_db w) = receipt_evaluation_lines db" by (simp add: a(1) line_records_def)
  then have "\<forall>s \<in> set (receipt_evaluation_lines (w_db w)). pinned (w_db w) s"
    using assms(2) pinned_grows [OF a(2)] by (simp add: records_ok_def)
  then have pins: "\<forall>s \<in> set (receipt_evaluation_lines db'). pinned db' s" by (rule closure_pinned [OF e(1)])
  have "record_anomalies line_records (w_db w) = []"
    using line_table.pair_intact [OF c] h v root assms(2) by (simp add: records_ok_def)
  moreover have "record_anomalies line_records db' = record_anomalies line_records (w_db w)"
    "record_anomalies po_records db' = record_anomalies po_records db"
    using e(2) t by (intro anomalies_cong; simp add: evaluates_def beside_def line_records_def po_records_def)+
  ultimately show ?thesis
    using assms(2) ids pins e(2) by (simp add: records_ok_def evaluates_def)
qed

text \<open>C23: Correction calls keep the correction histories well formed: every row agrees with its root and with the
  authority it cancels, every pair is one reversal and one replacement recorded together, generations count
  up from 1 without a gap, and every evaluation source names a stored replacement of its generation.\<close>

theorem corrections_stay_well_formed:
  assumes "correction_call x db db'" "records_ok db"
  shows "records_ok db'"
  using assms by (cases rule: correction_call.cases) (blast intro: procurement_ok receipt_line_ok)+

section \<open>What an evaluation settles\<close>

lemma assert_complete_Inr:
  assumes "assert_receipt_correction_complete db org i pair = Inr ok"
  obtains e where "current_evaluation db org i pair = Some e" "population_complete db org i e"
    "links_complete db org i e" "support_agrees db org i e" "coverage_exact db org e" "consequences_complete db org e"
  using assms unfolding assert_receipt_correction_complete_def rbind_Inr_iff ensure_Inr_iff from_option_Inr_iff by blast

lemma left_join_some: "\<exists>y. y \<in> set (left_join P xs)"
  by (cases "filter P xs") (auto simp: left_join_def)

lemma unsupported_resolved:
  assumes "consequences_complete db org e" "q \<in> set (receipt_evaluation_exceptions db)" "cq_org q = org"
    "cq_evaluation q = ve_id e" "\<not> cq_supported q"
  shows "\<exists>t \<in> set (exception_events db). ev_org t = org \<and> ev_exception t = cq_exception q
    \<and> (ev_seq t = cq_prior_seq q \<and> closed (ev_to t)
       \<or> ev_seq t = cq_prior_seq q + 1 \<and> ev_evaluation t = Some (ve_id e) \<and> ev_to t = RESOLVED)"
proof -
  obtain prior where p: "prior \<in> set (prior_events db q)" using left_join_some unfolding prior_events_def by blast
  obtain r where r: "r \<in> set (resolutions db q)" using left_join_some unfolding resolutions_def by blast
  have ok: "\<not> consequence_bad (\<lambda>_. False) e q prior r"
    using assms p r by (simp add: consequences_complete_def)
  show ?thesis
  proof (cases "\<exists>t. prior = Some t \<and> closed (ev_to t)")
    case True
    then obtain t where "prior = Some t" "closed (ev_to t)" by blast
    then show ?thesis using p assms(3) by (auto simp: prior_events_def set_left_join split: if_splits)
  next
    case False
    then obtain t where "r = Some t" "ev_to t = RESOLVED" "ev_seq t = cq_prior_seq q + 1"
      using ok assms(5) by (cases prior; cases r) (auto simp: consequence_bad_def closed_def)
    then show ?thesis using r assms(3,4) by (auto simp: resolutions_def set_left_join split: if_splits)
  qed
qed

text \<open>C20: When a receipt-line correction commits, its evaluation accounts for every observation of the receipt:
  each disagreement of the corrected receipt is asserted by exactly one supported observation; an observation
  is linked once evaluated, is supported only when its assertion still disagrees, and an unsupported one was
  closed before or is resolved by this evaluation, as the event right after the one it was read at.\<close>

theorem receipt_correction_settled:
  assumes "correct_receipt_line u x i r g c db = Inr (k, v, db')"
  shows "\<exists>e. current_evaluation db' (k_org k) i (k_pair k) = Some e
    \<and> (\<forall>d \<in> set (disagreements db' (k_org k) (ve_id e)). supporting db' (k_org k) (ve_id e) d = 1)
    \<and> (\<forall>o' \<in> set (receiving_exceptions db'). xc_org o' = k_org k \<and> xc_receipt o' = i \<longrightarrow>
        (\<exists>q \<in> set (receipt_evaluation_exceptions db'). cq_org q = k_org k \<and> cq_evaluation q = ve_id e
           \<and> cq_exception q = xc_id o'
           \<and> (if cq_supported q then exception_disagreement o' \<in> set (disagreements db' (k_org k) (ve_id e))
              else (\<exists>t \<in> set (exception_events db'). ev_org t = k_org k \<and> ev_exception t = xc_id o'
                      \<and> (ev_seq t = cq_prior_seq q \<and> closed (ev_to t)
                         \<or> ev_seq t = cq_prior_seq q + 1 \<and> ev_evaluation t = Some (ve_id e) \<and> ev_to t = RESOLVED)))))"
proof -
  have "assert_receipt_correction_complete db' (k_org k) i (k_pair k) = Inr ()" using receipt_line_tables [OF assms] by blast
  then obtain e where e: "current_evaluation db' (k_org k) i (k_pair k) = Some e" "links_complete db' (k_org k) i e"
    "support_agrees db' (k_org k) i e" "coverage_exact db' (k_org k) e" "consequences_complete db' (k_org k) e"
    by (rule assert_complete_Inr)
  have "\<exists>q \<in> set (receipt_evaluation_exceptions db'). cq_org q = k_org k \<and> cq_evaluation q = ve_id e \<and> cq_exception q = xc_id o'
      \<and> (cq_supported q \<longrightarrow> exception_disagreement o' \<in> set (disagreements db' (k_org k) (ve_id e)))"
    if o': "o' \<in> set (receiving_exceptions db')" "xc_org o' = k_org k" "xc_receipt o' = i" for o'
  proof -
    obtain q where q: "q \<in> set (receipt_evaluation_exceptions db')" "cq_org q = k_org k" "cq_evaluation q = ve_id e"
      "cq_exception q = xc_id o'"
      using e(2) o' by (auto simp: links_complete_def)
    then have "(q, o') \<in> set (consequences_of db' (k_org k) (ve_id e))" using o' by (auto simp: consequences_of_def)
    then show ?thesis using e(3) q by (fastforce simp: support_agrees_def)
  qed
  then show ?thesis
    using e unsupported_resolved [OF e(5)] unfolding coverage_exact_def by (intro exI [of _ e]) metis
qed

section \<open>What an evaluation judges\<close>

lemma pinned_effective:
  assumes "record_anomalies line_records db = []" "distinct (map k_id (receipt_line_corrections db))" "pinned db s"
    "so_generation s = generation_of (so_org s) (so_root s) (receipt_line_corrections db)"
    "rl_org l = so_org s" "rl_id l = so_root s"
  shows "with_line_facts l (case so_source s of
       None \<Rightarrow> line_facts_of l
     | Some i \<Rightarrow> (case List.find (\<lambda>k. k_org k = so_org s \<and> k_id k = i) (receipt_line_corrections db) of
         None \<Rightarrow> line_facts_of l | Some k \<Rightarrow> k_facts k)) = effective_receipt_line db l"
proof -
  let ?ks = "receipt_line_corrections db" and ?g = "corrected_rows (so_org s) (so_root s) (receipt_line_corrections db)"
  have ok: "int (length ?g) = generation_of (so_org s) (so_root s) ?ks" "distinct (map k_generation ?g)"
    using generations_ok [OF assms(1), of "so_org s" "so_root s"] by auto
  show ?thesis
  proof (cases "so_source s")
    case None
    then have "?g = []" using assms(3,4) ok(1) by (simp add: pinned_def)
    then have "effective_correction ?ks (so_org s) (so_root s) = None" by (simp add: effective_correction_def)
    then show ?thesis
      using None assms(5,6) by (simp add: effective_receipt_line_def with_line_facts_def line_facts_of_def)
  next
    case (Some i)
    then obtain k0 where k0: "k0 \<in> set ?ks" "k_org k0 = so_org s" "k_root k0 = so_root s" "k_generation k0 = so_generation s"
      "k_id k0 = i" "k_role k0 = CORRECTED"
      using assms(3) by (auto simp: pinned_def)
    then have g: "k0 \<in> set ?g" by (simp add: corrected_rows_def)
    then obtain k1 where k1: "effective_correction ?ks (so_org s) (so_root s) = Some k1"
      by (cases "effective_correction ?ks (so_org s) (so_root s)") (auto simp: effective_correction_def)
    then have "k1 \<in> set ?g" "k_generation k1 = k_generation k0"
      using latest_by_in k0(4) assms(4) by (auto simp: effective_correction_def effective_generation)
    then have same: "k1 = k0" using ok(2) g by (auto simp: distinct_map inj_on_def)
    obtain m where m: "List.find (\<lambda>k. k_org k = so_org s \<and> k_id k = i) ?ks = Some m"
      using k0 by (cases "List.find (\<lambda>k. k_org k = so_org s \<and> k_id k = i) ?ks") (auto simp: find_None_iff)
    then have "m = k0" using find_Some_in [OF m] k0 assms(2) by (auto simp: distinct_map inj_on_def)
    then show ?thesis using Some m k1 same assms(5,6) by (simp add: effective_receipt_line_def)
  qed
qed

definition judged_facts :: "fleet \<Rightarrow> source_row \<Rightarrow> receipt_line_row \<Rightarrow> line_facts" where
  "judged_facts db s l =
     (case so_source s of
        None \<Rightarrow> line_facts_of l
      | Some i \<Rightarrow> (case List.find (\<lambda>k. k_org k = so_org s \<and> k_id k = i) (receipt_line_corrections db) of
          None \<Rightarrow> line_facts_of l | Some k \<Rightarrow> k_facts k))"

lemma evaluate_line_facts:
  "el_line (evaluate_line db s l) = rl_id l" "el_po_line (evaluate_line db s l) = lf_po_line (judged_facts db s l)"
  "el_item (evaluate_line db s l) = lf_item (judged_facts db s l)"
  "el_quantity (evaluate_line db s l) = lf_quantity (judged_facts db s l)"
  "el_uom (evaluate_line db s l) = lf_uom (judged_facts db s l)"
  "el_condition (evaluate_line db s l) = lf_condition (judged_facts db s l)"
  "el_packing (evaluate_line db s l) = lf_packing (judged_facts db s l)"
  by (simp_all add: evaluate_line_def judged_facts_def Let_def split: option.split)

text \<open>The evaluation of a receipt-line correction judges what the receipt now says: for every captured line of the
  receipt it has a line whose order line, item, quantity, unit, condition and packing count are those of the
  effective row after the correction, so no superseded fact decides an exception.\<close>

theorem evaluation_judges_effective:
  assumes "correct_receipt_line u x i r g c db = Inr (k, v, db')" "records_ok db"
  shows "\<exists>e. current_evaluation db' (k_org k) i (k_pair k) = Some e
    \<and> (\<forall>l \<in> set (receipt_lines db'). rl_org l = k_org k \<and> rl_receipt l = i \<longrightarrow>
        (\<exists>m \<in> set (evaluated_lines db' (k_org k) (ve_id e)). el_line m = rl_id l
           \<and> (el_po_line m, el_item m, el_quantity m, el_uom m, el_condition m, el_packing m)
             = (let f = effective_receipt_line db' l in
                (rl_po_line f, rl_item f, rl_quantity f, rl_uom f, rl_condition f, rl_packing_quantity f))))"
proof -
  have ok: "records_ok db'" using receipt_line_ok [OF assms] .
  have "assert_receipt_correction_complete db' (k_org k) i (k_pair k) = Inr ()" using receipt_line_tables [OF assms(1)] by blast
  then obtain e where e: "current_evaluation db' (k_org k) i (k_pair k) = Some e" "population_complete db' (k_org k) i e"
    by (rule assert_complete_Inr)
  have "\<exists>m \<in> set (evaluated_lines db' (k_org k) (ve_id e)). el_line m = rl_id l
       \<and> (el_po_line m, el_item m, el_quantity m, el_uom m, el_condition m, el_packing m)
         = (let f = effective_receipt_line db' l in
            (rl_po_line f, rl_item f, rl_quantity f, rl_uom f, rl_condition f, rl_packing_quantity f))"
    if l: "l \<in> set (receipt_lines db')" "rl_org l = k_org k" "rl_receipt l = i" for l
  proof -
    obtain s where "s \<in> set (sources_of (receipt_evaluation_lines db') (k_org k) (ve_id e))" "so_root s = rl_id l"
      "so_generation s = generation_of (k_org k) (so_root s) (receipt_line_corrections db')"
      using e(2) l unfolding population_complete_def Let_def by blast
    then have s: "s \<in> set (receipt_evaluation_lines db')" "so_org s = k_org k" "so_evaluation s = ve_id e"
      "so_root s = rl_id l" "so_generation s = generation_of (so_org s) (so_root s) (receipt_line_corrections db')"
      by (simp_all add: sources_of_def)
    have m: "evaluate_line db' s l \<in> set (evaluated_lines db' (k_org k) (ve_id e))"
      using s l by (auto simp: evaluated_lines_def)
    have "record_anomalies line_records db' = []" "distinct (map k_id (receipt_line_corrections db'))" "pinned db' s"
      using ok s(1) by (simp_all add: records_ok_def)
    from pinned_effective [OF this s(5)] have f: "effective_receipt_line db' l = with_line_facts l (judged_facts db' s l)"
      using s l by (simp add: judged_facts_def)
    show ?thesis
      unfolding f by (intro bexI [OF _ m]) (simp add: evaluate_line_facts with_line_facts_def)
  qed
  then show ?thesis using e(1) by blast
qed

section \<open>Two classifiers\<close>

lemma dict_of_distinct:
  assumes "distinct (map f xs @ map fst d)"
  shows "fold (\<lambda>x. dict_set (f x) x) xs d = d @ map (\<lambda>x. (f x, x)) xs"
  using assms by (induction xs arbitrary: d) (auto simp: dict_set_new image_iff)

lemma map_of_by_key: "map_of (map (\<lambda>x. (f x, x)) xs) k = List.find (\<lambda>x. f x = k) xs"
  by (induction xs) auto

lemma py_line_kinds_agree:
  assumes "\<forall>p. el_po_line l = Some p \<longrightarrow> p \<in> ee_po_line ` set ps"
  shows "\<exists>ks. py_line_kinds (map (\<lambda>p. (ee_po_line p, p)) ps) l = Inr ks \<and> set ks = set (evaluated_kinds ps l)"
proof (cases "el_po_line l")
  case None
  then show ?thesis by (auto simp: py_line_kinds_def evaluated_kinds_def comparator_kinds_def)
next
  case (Some p)
  then obtain c where c: "List.find (\<lambda>c. ee_po_line c = p) ps = Some c"
    using assms by (cases "List.find (\<lambda>c. ee_po_line c = p) ps") (auto simp: find_None_iff)
  then show ?thesis
    using Some by (auto simp: py_line_kinds_def evaluated_kinds_def comparator_kinds_def map_of_by_key)
qed

lemma py_disagreements_unpinned:
  assumes "l \<in> set (evaluated_lines db org v)" "el_po_line l = Some p" "p \<notin> ee_po_line ` set (evaluated_expectations db org v)"
    and "distinct (map ee_po_line (evaluated_expectations db org v))"
  shows "py_disagreements db org v = Inl (Py Conflict)"
proof -
  let ?d = "map (\<lambda>p. (ee_po_line p, p)) (evaluated_expectations db org v)"
  have d: "comparator_dict (evaluated_expectations db org v) = ?d"
    using dict_of_distinct [of ee_po_line _ "[]"] assms(4) by (simp add: comparator_dict_def)
  have kinds: "py_line_kinds ?d m = Inl (Py Conflict) \<or> (\<exists>ks. py_line_kinds ?d m = Inr ks)" for m
    by (auto simp: py_line_kinds_def rbind_def from_option_def split: option.splits sum.splits)
  have bad: "py_line_kinds ?d l = Inl (Py Conflict)"
    using assms(2,3) by (auto simp: py_line_kinds_def map_of_by_key rbind_def from_option_def find_Some_iff split: option.splits)
  have "map_result (\<lambda>l. rbind (py_line_kinds ?d l) (\<lambda>ks. Inr (map (line_disagreement l) ks))) ls = Inl (Py Conflict)"
    if "l \<in> set ls" for ls
    using that
  proof (induction ls)
    case (Cons m ms)
    then show ?case using kinds [of m] bad by (auto simp: rbind_def split: sum.splits)
  qed simp
  then show ?thesis using assms(1) by (simp add: py_disagreements_def Let_def d rbind_def)
qed

lemma disagreements_set:
  assumes "\<exists>e \<in> set (receipt_correction_evaluations db). ve_org e = org \<and> ve_id e = v"
  shows "set (disagreements db org v) =
      (\<Union>l \<in> set (evaluated_lines db org v).
         line_disagreement l ` set (evaluated_kinds (evaluated_expectations db org v) l))
      \<union> (\<Union>p \<in> set (evaluated_expectations db org v).
         set (case expectation_kind (evaluated_lines db org v) p of
                None \<Rightarrow> [] | Some k \<Rightarrow> [quantity_disagreement (ee_po_line p) k]))"
proof -
  let ?es = "filter (\<lambda>e. ve_org e = org \<and> ve_id e = v) (receipt_correction_evaluations db)"
  have "set ?es \<noteq> {}" using assms by auto
  moreover have "snd ` set (case K of None \<Rightarrow> [] | Some k \<Rightarrow> [(ve_receipt e, quantity_disagreement i k)])
      = set (case K of None \<Rightarrow> [] | Some k \<Rightarrow> [quantity_disagreement i k])" for K i and e :: evaluation_row
    by (cases K) simp_all
  ultimately show ?thesis
    unfolding disagreements_def evaluation_disagreements_def Let_def
    by (simp only: set_map set_append set_concat image_Un image_UN image_image snd_conv UN_constant if_False UN_simps)
qed

text \<open>C21: The Python classification of an evaluation and the database view find the same disagreements, whatever the
  order of their checks: for a stored evaluation whose expectations are distinct order lines, Python returns a
  list with the elements of the view when every selected order line is pinned, and raises a conflict
  otherwise.\<close>

theorem classifiers_agree:
  assumes "distinct (map ee_po_line (evaluated_expectations db org v))"
    and "\<exists>e \<in> set (receipt_correction_evaluations db). ve_org e = org \<and> ve_id e = v"
  shows "if \<exists>l \<in> set (evaluated_lines db org v). \<exists>p. el_po_line l = Some p
              \<and> p \<notin> ee_po_line ` set (evaluated_expectations db org v)
         then py_disagreements db org v = Inl (Py Conflict)
         else \<exists>ds. py_disagreements db org v = Inr ds \<and> set ds = set (disagreements db org v)"
proof (cases "\<exists>l \<in> set (evaluated_lines db org v). \<exists>p. el_po_line l = Some p
              \<and> p \<notin> ee_po_line ` set (evaluated_expectations db org v)")
  case True
  then show ?thesis using py_disagreements_unpinned assms(1) by (smt (verit, best))
next
  case False
  let ?ls = "evaluated_lines db org v" and ?ps = "evaluated_expectations db org v"
  let ?d = "map (\<lambda>p. (ee_po_line p, p)) ?ps"
  have d: "comparator_dict ?ps = ?d"
    using dict_of_distinct [of ee_po_line _ "[]"] assms(1) by (simp add: comparator_dict_def)
  have "\<forall>l \<in> set ?ls. \<exists>ks. py_line_kinds ?d l = Inr ks \<and> set ks = set (evaluated_kinds ?ps l)"
    using False by (intro ballI py_line_kinds_agree) blast
  then obtain ks where ks: "\<forall>l \<in> set ?ls. py_line_kinds ?d l = Inr (ks l) \<and> set (ks l) = set (evaluated_kinds ?ps l)"
    by metis
  have lines: "map_result (\<lambda>l. rbind (py_line_kinds ?d l) (\<lambda>ks. Inr (map (line_disagreement l) ks))) ?ls
      = Inr (map (\<lambda>l. map (line_disagreement l) (ks l)) ?ls)"
    by (rule map_result_all) (use ks in simp)
  have view: "set (disagreements db org v) =
      (\<Union>l \<in> set ?ls. line_disagreement l ` set (evaluated_kinds ?ps l))
      \<union> (\<Union>p \<in> set ?ps. set (case expectation_kind ?ls p of None \<Rightarrow> [] | Some k \<Rightarrow> [quantity_disagreement (ee_po_line p) k]))"
    by (rule disagreements_set [OF assms(2)])
  have py: "py_disagreements db org v = Inr (concat (map (\<lambda>l. map (line_disagreement l) (ks l)) ?ls)
      @ concat (map (\<lambda>p. case expectation_kind ?ls p of
                         None \<Rightarrow> [] | Some k \<Rightarrow> [quantity_disagreement (ee_po_line p) k]) ?ps))"
    by (simp add: py_disagreements_def Let_def d lines comp_def)
  have eq: "set (concat (map (\<lambda>l. map (line_disagreement l) (ks l)) ?ls))
      = (\<Union>l \<in> set ?ls. line_disagreement l ` set (evaluated_kinds ?ps l))" using ks by simp
  show ?thesis
    unfolding if_not_P [OF False] view py
    by (intro exI conjI, rule refl, subst set_append, subst eq, simp only: set_concat set_map image_image)
qed

section \<open>Concrete instances\<close>

lemma ex_received_reachable: "reachable ex_received"
  using ops_reachable call_ops [OF ex_received_call] ex_procured_reachable by blast

lemma ex_received_ok: "records_ok ex_received"
  by (simp add: records_ok_def record_anomalies_def ex_received_tables)

lemma corrections_compose_witness: "receiving_run ex_resolved \<and> receipt_lines ex_resolved = [ex_line]"
proof -
  have "correction_call ex_ctx ex_received ex_resolved" using ex_resolved_call correction_call.receipt_line by blast
  from corrections_compose [OF this ex_received_run ex_received_reachable]
  show ?thesis by (simp add: ex_received_tables)
qed

lemma procurement_correction_effective_witness:
  "\<exists>l \<in> set (purchase_order_lines ex_procured). pl_id l = 51
     \<and> effective_po_line ex_repriced l = with_po_facts l (co_values ex_po_correction (po_facts_of (effective_po_line ex_procured l)))"
  using ex_repriced_call procurement_correction_effective by blast

lemma receipt_correction_effective_witness:
  "effective_receipt_line ex_resolved ex_line
     = with_line_facts ex_line (co_values ex_line_correction (line_facts_of (effective_receipt_line ex_received ex_line)))"
proof -
  obtain k where "correct_receipt_line (ex_uuid7 500) ex_ctx 200 202 0 ex_line_correction ex_received = Inr (k, 503, ex_resolved)"
    using ex_resolved_call by blast
  from receipt_correction_effective [OF this] show ?thesis by (simp add: ex_received_tables)
qed

lemma corrections_stay_well_formed_witness: "records_ok ex_resolved"
proof -
  have "correction_call ex_ctx ex_received ex_resolved" using ex_resolved_call correction_call.receipt_line by blast
  from corrections_stay_well_formed [OF this ex_received_ok] show ?thesis .
qed

lemma receipt_correction_settled_witness:
  "\<exists>e. current_evaluation ex_resolved 1 200 500 = Some e
     \<and> (\<forall>d \<in> set (disagreements ex_resolved 1 (ve_id e)). supporting ex_resolved 1 (ve_id e) d = 1)"
proof -
  obtain k where "correct_receipt_line (ex_uuid7 500) ex_ctx 200 202 0 ex_line_correction ex_received = Inr (k, 503, ex_resolved)"
    and k: "k_org k = 1" "k_pair k = 500"
    using ex_resolved_call by blast
  from receipt_correction_settled [OF this(1)] show ?thesis unfolding k by blast
qed

lemma evaluation_judges_effective_witness:
  "\<exists>e. current_evaluation ex_resolved 1 200 500 = Some e
     \<and> (\<forall>l \<in> set (receipt_lines ex_resolved). rl_org l = 1 \<and> rl_receipt l = 200 \<longrightarrow>
          (\<exists>m \<in> set (evaluated_lines ex_resolved 1 (ve_id e)). el_line m = rl_id l))"
proof -
  obtain k where "correct_receipt_line (ex_uuid7 500) ex_ctx 200 202 0 ex_line_correction ex_received = Inr (k, 503, ex_resolved)"
    and k: "k_org k = 1" "k_pair k = 500"
    using ex_resolved_call by blast
  from evaluation_judges_effective [OF this(1) ex_received_ok] show ?thesis unfolding k by blast
qed

lemma classifiers_agree_witness:
  "\<exists>ds. py_disagreements ex_judged 1 503 = Inr ds \<and> dg_kind ` set ds = {UOM_MISMATCH, DAMAGED_UNIT, QUANTITY_VARIANCE}"
proof -
  have "distinct (map ee_po_line (evaluated_expectations ex_judged 1 503))" by (simp only: ex_judged_population) simp
  moreover have "\<exists>e \<in> set (receipt_correction_evaluations ex_judged). ve_org e = 1 \<and> ve_id e = 503"
    using ex_judged_population(3) by auto
  moreover have "\<not> (\<exists>l \<in> set (evaluated_lines ex_judged 1 503). \<exists>p. el_po_line l = Some p
              \<and> p \<notin> ee_po_line ` set (evaluated_expectations ex_judged 1 503))"
    using ex_judged_population(1,2) by (auto simp: map_eq_Cons_conv)
  ultimately have "\<exists>ds. py_disagreements ex_judged 1 503 = Inr ds \<and> set ds = set (disagreements ex_judged 1 503)"
    using classifiers_agree [of ex_judged 1 503] by (simp only: if_False)
  moreover have "dg_kind ` set (disagreements ex_judged 1 503) = {UOM_MISMATCH, DAMAGED_UNIT, QUANTITY_VARIANCE}"
    using arg_cong [OF ex_judged_population(4), of set] by simp
  ultimately show ?thesis by metis
qed

end
