(* ===== verification/AssetRecords.thy ===== *)
theory AssetRecords
  imports AssetService
begin

text \<open>
  The services around an Asset's records: \<open>domain/configurations.py\<close> (append-only configurations
  ordered by an identity column), the operation services of \<open>domain/asset_facts.py\<close> and
  \<open>domain/assignments.py\<close>, which add only error translation, and \<open>assignment_history\<close>, which
  reads intervals of assignment off the effective events.
\<close>

section \<open>Configurations\<close>

text \<open>
  The columns granted for insertion leave the performing Actor, the recording time and the sequence
  to their defaults.  \<open>seq\<close> is the value the identity column allocates.
\<close>

definition config_text :: "pgtext \<Rightarrow> bool" where
  "config_text t \<longleftrightarrow> length_between 1 200 (btrim t) \<and> has_nonspace t"

definition configuration_check :: "configuration_row \<Rightarrow> bool" where
  "configuration_check c \<longleftrightarrow> cf_seq c > 0 \<and> length (cf_notes c) \<le> 4000
     \<and> config_text (cf_image_name c) \<and> config_text (cf_image_version c) \<and> config_text (cf_profile c)"

definition configuration_refs :: "fleet \<Rightarrow> configuration_row \<Rightarrow> bool" where
  "configuration_refs db c \<longleftrightarrow> cf_org c \<in> set (organizations db) \<and> asset_exists db (cf_org c) (cf_asset c)
     \<and> actor_exists db (cf_org c) (cf_applied_by c)
     \<and> holds_if (attachment_exists db (cf_org c)) (cf_evidence c)"

definition insert_configuration ::
  "ctx \<Rightarrow> int \<Rightarrow> configuration_row \<Rightarrow> fleet \<Rightarrow> sqlstate + (configuration_row \<times> fleet)" where
  "insert_configuration x seq new db =
     rbind (current_authenticated_actor x db) (\<lambda>performer.
       let c = new\<lparr>cf_applied_by := performer, cf_recorded := At (x_now x), cf_seq := seq\<rparr> in
       rbind (guard_configuration_evidence db c) (\<lambda>_.
         ensure (visible x (cf_org c)) E42501
           (ensure (configuration_check c) E23514
             (ensure (\<forall>d \<in> set (asset_configurations db). cf_id d \<noteq> cf_id c \<and> cf_seq d \<noteq> cf_seq c) E23505
               (ensure (configuration_refs db c) E23503
                 (rbind (enforce_authenticated_creator x db (cf_applied_by c) None) (\<lambda>_.
                   Inr (c, db\<lparr>asset_configurations := asset_configurations db @ [c]\<rparr>))))))))"

definition append_configuration ::
  "(bytes \<Rightarrow> bytes) \<Rightarrow> store option \<Rightarrow> ctx \<Rightarrow> int \<Rightarrow> uuid \<Rightarrow> uuid \<Rightarrow> uuid \<Rightarrow> configuration_row \<Rightarrow> fleet
   \<Rightarrow> py_error + (configuration_row \<times> fleet)" where
  "append_configuration sha256 storage x seq cid i org new db =
     rbind (get_asset x db i) (\<lambda>_.
       rbind (verify_asset_evidence sha256 x storage db i (cf_evidence new) (Some CONFIG_EVIDENCE) False) (\<lambda>_.
         constraints (insert_configuration x seq (new\<lparr>cf_id := cid, cf_asset := i, cf_org := org\<rparr>) db)))"

definition asset_configuration_rows :: "ctx \<Rightarrow> fleet \<Rightarrow> uuid \<Rightarrow> configuration_row list" where
  "asset_configuration_rows x db i =
     filter (\<lambda>c. visible x (cf_org c) \<and> cf_asset c = i) (asset_configurations db)"

definition list_configurations :: "ctx \<Rightarrow> fleet \<Rightarrow> uuid \<Rightarrow> py_error + configuration_row list" where
  "list_configurations x db i =
     rbind (get_asset x db i) (\<lambda>_. Inr (sort_key cf_seq (asset_configuration_rows x db i)))"

definition current_configuration :: "ctx \<Rightarrow> fleet \<Rightarrow> uuid \<Rightarrow> py_error + configuration_row option" where
  "current_configuration x db i =
     rbind (get_asset x db i) (\<lambda>_. Inr (latest_by cf_seq (asset_configuration_rows x db i)))"

section \<open>Operation services\<close>

definition service_move where
  "service_move x i v target why occ op hid db = constraints (move_asset x i v target why occ op hid db)"

text \<open>\<open>change_custody\<close> and \<open>change_ownership\<close> send no operation identity.\<close>

definition service_custody where
  "service_custody x i v target why occ hid db = constraints (change_custody x i v target why occ None hid db)"

definition service_ownership where
  "service_ownership x i v target why occ hid db = constraints (change_ownership x i v target why occ None hid db)"

definition service_assign where
  "service_assign x i v kind who why occ op eid db =
     constraints (assign_asset x i v (kind, who) why occ op eid db)"

definition service_unassign where
  "service_unassign x i v why occ op eid db = constraints (unassign_asset x i v why occ op eid db)"

section \<open>Assignment history\<close>

record interval =
  iv_event :: uuid
  iv_kind :: "assignee_kind option"
  iv_assignee :: uuid
  iv_started :: tstz
  iv_ended :: "tstz option"

text \<open>An event that assigns opens an interval, which the next effective event closes.\<close>

fun intervals :: "assignee_fact hrow list \<Rightarrow> interval list" where
  "intervals [] = []"
| "intervals (e # es) =
     (case snd (h_to e) of
        None \<Rightarrow> intervals es
      | Some who \<Rightarrow>
          \<lparr>iv_event = h_id e, iv_kind = fst (h_to e), iv_assignee = who, iv_started = h_occurred e,
           iv_ended = (case es of [] \<Rightarrow> None | n # _ \<Rightarrow> Some (h_occurred n))\<rparr> # intervals es)"

definition assignment_history ::
  "ctx \<Rightarrow> fleet \<Rightarrow> uuid
   \<Rightarrow> py_error + (witness_row option \<times> (assignee_fact hrow \<times> uuid option) list \<times> interval list)" where
  "assignment_history x db i =
     rbind (get_asset x db i) (\<lambda>_.
       let w = List.find (\<lambda>w. visible x (w_org w) \<and> w_asset w = i) (asset_initial_assignment_facts db);
           events = audit_rows (visible_rows x i (asset_assignment_events db))
       in rbind (effective_events (map fst events)) (\<lambda>es. Inr (w, events, intervals es)))"

section \<open>Facts\<close>

lemma sort_snoc:
  assumes "\<forall>c \<in> set cs. k c < k n"
  shows "sort_key k (cs @ [n]) = sort_key k cs @ [n]"
proof (rule properties_for_sort_key)
  show "mset (sort_key k cs @ [n]) = mset (cs @ [n])" by simp
  show "filter (\<lambda>y. k a = k y) (sort_key k cs @ [n]) = filter (\<lambda>y. k a = k y) (cs @ [n])"
    if "a \<in> set (sort_key k cs @ [n])" for a unfolding eq_commute [of "k a"] by (simp add: sort_key_stable)
  show "sorted (map k (sort_key k cs @ [n]))"
    using assms by (auto simp: sorted_append less_imp_le)
qed

lemma latest_snoc: "\<forall>c \<in> set cs. k c < k n \<Longrightarrow> latest_by k (cs @ [n]) = Some n" for k :: "'a \<Rightarrow> int"
  by (rule latest_by_snoc) fastforce

lemma append_configuration_row:
  assumes "append_configuration sha256 storage x seq cid i org new db = Inr (c, db')"
  shows "db' = db\<lparr>asset_configurations := asset_configurations db @ [c]\<rparr>" "cf_asset c = i" "cf_seq c = seq"
    "cf_id c = cid" "visible x (cf_org c)" "raised (get_asset x db i) = False"
    "current_authenticated_actor x db = Inr (cf_applied_by c)"
    "evidence_supported db (cf_org c) (cf_evidence c) i (Some CONFIG_EVIDENCE)"
    "c = new\<lparr>cf_id := cid, cf_asset := i, cf_org := org, cf_applied_by := cf_applied_by c,
             cf_recorded := At (x_now x), cf_seq := seq\<rparr>"
  using assms
  by (auto simp: append_configuration_def insert_configuration_def Let_def result_simps
      guard_configuration_evidence_def)

lemma get_asset_configurations [simp]:
  "get_asset x (db\<lparr>asset_configurations := cs\<rparr>) i = get_asset x db i"
  by (simp add: get_asset_def)

lemma intervals_open:
  "filter (\<lambda>v. iv_ended v = None) (intervals es)
     = (if es = [] \<or> snd (h_to (last es)) = None then []
        else [\<lparr>iv_event = h_id (last es), iv_kind = fst (h_to (last es)),
               iv_assignee = the (snd (h_to (last es))), iv_started = h_occurred (last es), iv_ended = None\<rparr>])"
proof (induction es)
  case Nil
  then show ?case by simp
next
  case (Cons e es)
  then show ?case by (cases es; cases "snd (h_to e)") simp_all
qed

text \<open>
  An appended configuration is the current one, and the last of the Asset's configurations,
  whatever came before it; the performing Actor is the authenticated one and its evidence is
  validly linked.  The identity column allocates increasing values, which the hypothesis states for
  the rows of the table.
\<close>

theorem appended_configuration_current:
  assumes "append_configuration sha256 storage x seq cid i org new db = Inr (c, db')"
    and "\<forall>d \<in> set (asset_configurations db). cf_seq d < seq"
  shows "\<exists>cs. list_configurations x db i = Inr cs \<and> list_configurations x db' i = Inr (cs @ [c])
     \<and> current_configuration x db' i = Inr (Some c) \<and> assets db' = assets db
     \<and> current_authenticated_actor x db = Inr (cf_applied_by c)
     \<and> (cf_evidence c \<noteq> None \<longrightarrow> valid_asset_evidence db (cf_org c) (cf_evidence c) i (Some CONFIG_EVIDENCE))"
proof -
  note r = append_configuration_row [OF assms(1)]
  obtain a where a: "get_asset x db i = Inr a" using r(6) by (cases "get_asset x db i") auto
  let ?cs = "asset_configuration_rows x db i"
  have rows: "asset_configuration_rows x db' i = ?cs @ [c]"
    using r(2,5) by (simp add: asset_configuration_rows_def r(1))
  have less: "\<forall>d \<in> set ?cs. cf_seq d < cf_seq c" using assms(2) r(3) by (simp add: asset_configuration_rows_def)
  have "list_configurations x db i = Inr (sort_key cf_seq ?cs)" by (simp add: list_configurations_def a)
  moreover have "list_configurations x db' i = Inr (sort_key cf_seq ?cs @ [c])"
    using sort_snoc [OF less] by (simp add: list_configurations_def r(1) a rows [unfolded r(1)])
  moreover have "current_configuration x db' i = Inr (Some c)"
    using latest_snoc [OF less] by (simp add: current_configuration_def r(1) a rows [unfolded r(1)])
  ultimately show ?thesis using r(1,7,8) by (auto simp: evidence_supported_def)
qed

definition ar_configuration :: configuration_row where
  "ar_configuration =
     \<lparr>cf_id = 0, cf_org = 0, cf_asset = 0, cf_image_name = [105], cf_image_version = [49], cf_profile = [112],
      cf_notes = [], cf_applied_by = 0, cf_applied_at = At 500, cf_recorded = At 0, cf_evidence = None,
      cf_seq = 0\<rparr>"

definition ar_installed :: configuration_row where
  "ar_installed = ar_configuration\<lparr>cf_id := 90, cf_org := 1, cf_asset := 100, cf_applied_by := 10,
                                   cf_recorded := At 1000, cf_seq := 7\<rparr>"

lemma ar_append_ok:
  "append_configuration (\<lambda>_. []) None ex_ctx 7 90 100 1 ar_configuration ex_stocked
     = Inr (ar_installed, ex_stocked\<lparr>asset_configurations := [ar_installed]\<rparr>)"
  by code_simp

theorem appended_configuration_current_witness:
  "append_configuration (\<lambda>_. []) None ex_ctx 7 90 100 1 ar_configuration ex_stocked
      = Inr (ar_installed, ex_stocked\<lparr>asset_configurations := [ar_installed]\<rparr>)
   \<and> current_configuration ex_ctx (ex_stocked\<lparr>asset_configurations := [ar_installed]\<rparr>) 100 = Inr (Some ar_installed)"
proof -
  have "\<forall>d \<in> set (asset_configurations ex_stocked). cf_seq d < 7" by code_simp
  then show ?thesis using appended_configuration_current [OF ar_append_ok] ar_append_ok by blast
qed

lemma sorted_history:
  assumes "class_ok cls db" "x_org x = Some org"
  shows "visible_rows x i (hc_rows cls db) = asset_rows org i (hc_rows cls db)"
proof -
  have t: "table_ok (hc_initial cls db) (hc_rows cls db)" using assms by (simp add: class_ok_def)
  obtain gs where "asset_rows org i (hc_rows cls db) = flat gs" "in_versions (flat gs)"
    using table_ok_asset [OF t] by metis
  then show ?thesis unfolding visible_rows_asset [OF assms(2)]
    by (auto intro!: sort_key_id_if_sorted simp: in_versions_def sorted_wrt_map sorted_map
        elim!: sorted_wrt_mono_rel [rotated])
qed

lemma audit_rows_fst [simp]: "map fst (audit_rows rows) = rows"
  by (simp add: audit_rows_def Let_def comp_def)

text \<open>
  In every reachable fleet the assignment history of an Asset can be read: its creation witness
  is present, the raw events are shown, and exactly one interval is open when the Asset shows an
  assignment, namely that of the event it shows, and none otherwise.
\<close>

theorem open_interval_is_projection:
  assumes "reachable db" "get_asset x db i = Inr a"
  shows "\<exists>w events ivs. assignment_history x db i = Inr (Some w, events, ivs)
     \<and> map fst events = asset_rows (as_org a) i (asset_assignment_events db)
     \<and> map iv_event (filter (\<lambda>v. iv_ended v = None) ivs)
         = (case as_assignment a of None \<Rightarrow> [] | Some e \<Rightarrow> [e])"
proof -
  note g = get_asset_Inr [OF assms(2)]
  note ok = reachable_fleet_ok [OF assms(1)]
  let ?rows = "asset_assignment_events db"
  let ?es = "filter (of_asset (as_org a) i) (effective ?rows)"
  have c: "class_ok assignments db" using ok_classes [OF ok] by simp
  have rows: "hc_rows assignments db = ?rows" by (simp add: class_defs)
  have vis: "visible_rows x i ?rows = asset_rows (as_org a) i ?rows"
    using sorted_history [OF c g(2)] by (simp add: rows)
  have eff: "effective_events (asset_rows (as_org a) i ?rows) = Inr ?es"
    using readers_agree_class [OF c] by (simp add: rows)
  have p: "as_assignment a = (case latest_effective (as_org a) i ?rows of
      Some l \<Rightarrow> if snd (h_to l) = None then None else Some (h_id l) | None \<Rightarrow> None)"
    using projections_lemma [OF assms(1) g(1)] by (simp add: g(3))
  obtain w where w: "initial_assignment db (as_org a) i = Some w"
    using ok g(1,3) by (auto simp: fleet_ok_def asset_ok_def)
  have find: "List.find (\<lambda>w. visible x (w_org w) \<and> w_asset w = i) (asset_initial_assignment_facts db) = Some w"
    using w g(2) by (simp add: initial_assignment_def visible_def eq_commute)
  have v: "in_versions ?es"
  proof -
    have t: "table_ok (hc_initial assignments db) ?rows" using c by (simp add: class_ok_def rows)
    obtain gs where "asset_rows (as_org a) i ?rows = flat gs" "chain (hc_initial assignments db (as_org a) i) gs"
      "in_versions (flat gs)" "distinct (roots gs)" "\<forall>h \<in> set (flat gs). of_asset (as_org a) i h"
      using table_ok_asset [OF t] by metis
    then show ?thesis using in_versions_heads effective_of_asset by metis
  qed
  have last: "latest_effective (as_org a) i ?rows = (if ?es = [] then None else Some (last ?es))"
    using in_versions_latest [OF v] by (simp add: latest_effective_def)
  have "assignment_history x db i = Inr (Some w, audit_rows (asset_rows (as_org a) i ?rows), intervals ?es)"
    by (simp add: assignment_history_def assms(2) find vis eff)
  moreover have "map iv_event (filter (\<lambda>v. iv_ended v = None) (intervals ?es))
      = (case as_assignment a of None \<Rightarrow> [] | Some e \<Rightarrow> [e])"
    unfolding p last intervals_open by simp
  ultimately show ?thesis by simp
qed

definition ar_event :: "int \<Rightarrow> assignee_fact \<Rightarrow> assignee_fact \<Rightarrow> int \<Rightarrow> uuid \<Rightarrow> assignee_fact hrow" where
  "ar_event v f t occurred i = ex_row v f t [114] occurred i"

definition ar_assigned :: fleet where
  "ar_assigned = ex_moved
     \<lparr>assets := [ex_asset\<lparr>as_location := Some 40, as_version := 3, as_assignment := Some 120\<rparr>],
      asset_assignment_events := [ar_event 3 (None, None) (Some TO_LOCATION, Some 40) 960 120]\<rparr>"

definition ar_reassigned :: fleet where
  "ar_reassigned = ar_assigned
     \<lparr>assets := [ex_asset\<lparr>as_location := Some 40, as_version := 4, as_assignment := Some 121\<rparr>],
      asset_assignment_events := [ar_event 3 (None, None) (Some TO_LOCATION, Some 40) 960 120,
        ar_event 4 (Some TO_LOCATION, Some 40) (Some TO_PARTY, Some 30) 970 121]\<rparr>"

lemma ar_assign_ok:
  "assign_asset ex_ctx 100 (Some 2) (Some TO_LOCATION, Some 40) [114] (At 960) None 120 ex_moved
     = Inr (ar_event 3 (None, None) (Some TO_LOCATION, Some 40) 960 120, ar_assigned)"
  by code_simp

lemma ar_reassign_ok:
  "assign_asset ex_ctx 100 (Some 3) (Some TO_PARTY, Some 30) [114] (At 970) None 121 ar_assigned
     = Inr (ar_event 4 (Some TO_LOCATION, Some 40) (Some TO_PARTY, Some 30) 970 121, ar_reassigned)"
  by code_simp

lemma ar_reassigned_reachable: "reachable ar_reassigned"
  using ar_assign_ok ar_reassign_ok ex_moved_reachable
  by (blast intro: reachable.run fleet_step.operate asset_step.assign)

definition ar_asset :: asset_row where
  "ar_asset = ex_asset\<lparr>as_location := Some 40, as_version := 4, as_assignment := Some 121\<rparr>"

theorem open_interval_is_projection_witness:
  "\<exists>w events ivs. assignment_history ex_ctx ar_reassigned 100 = Inr (Some w, events, ivs)
     \<and> map iv_event ivs = [120, 121] \<and> map iv_event (filter (\<lambda>v. iv_ended v = None) ivs) = [121]"
proof -
  have g: "get_asset ex_ctx ar_reassigned 100 = Inr ar_asset" by code_simp
  have a: "as_assignment ar_asset = Some 121" by code_simp
  have "map_error id (rbind (assignment_history ex_ctx ar_reassigned 100) (\<lambda>(w, es, ivs). Inr (map iv_event ivs)))
      = Inr [120, 121]" by code_simp
  then show ?thesis using open_interval_is_projection [OF ar_reassigned_reachable g] a
    by (fastforce simp: result_simps)
qed

lemmas service_operation_defs =
  service_move_def service_custody_def service_ownership_def service_assign_def service_unassign_def

text \<open>The services only translate errors, so what they do is a step of the Asset.\<close>

lemma service_operation_steps:
  "service_move x i v r why occ op hid db = Inr (g, db') \<Longrightarrow> asset_step x i v db db'"
  "service_custody x i v r why occ hid db = Inr (g, db') \<Longrightarrow> asset_step x i v db db'"
  "service_ownership x i v r why occ hid db = Inr (g, db') \<Longrightarrow> asset_step x i v db db'"
  "service_assign x i v kind who why occ op hid db = Inr (k, db') \<Longrightarrow> asset_step x i v db db'"
  "service_unassign x i v why occ op hid db = Inr (k, db') \<Longrightarrow> asset_step x i v db db'"
  unfolding service_operation_defs constraints_Inr_iff by (rule asset_step.intros, assumption)+

end
