(* ===== verification/CapturePayload.thy ===== *)
theory CapturePayload
  imports ReceivingService AssetRecords
begin

text \<open>
  The queued payloads of \<open>api/capture_schemas.py\<close> and the validation \<open>_validate\<close> of
  \<open>capture/service.py\<close>: which fields a payload may have, which it must have, and what each field
  admits.  Pydantic itself is a parameter, \<open>readers\<close>: how it reads a UUID or a decimal from a JSON
  value and which characters its \<open>strip_whitespace\<close> removes.
\<close>

section \<open>Fields of an object\<close>

record readers =
  rd_uuid :: "json \<Rightarrow> uuid option"
  rd_decimal :: "json \<Rightarrow> rat option"
  rd_strip :: "pgtext \<Rightarrow> pgtext"
  rd_blank :: "pgtext \<Rightarrow> bool"

fun keys :: "json \<Rightarrow> string list" where
  "keys (JObj fs) = map fst fs"
| "keys _ = []"

fun field :: "string \<Rightarrow> json \<Rightarrow> json option" where
  "field k (JObj fs) = map_of fs k"
| "field k _ = None"

fun is_object :: "json \<Rightarrow> bool" where
  "is_object (JObj _) = True"
| "is_object _ = False"

text \<open>\<open>extra="forbid"\<close>, a required field, a field with a default, and \<open>T | None\<close>.\<close>

definition only :: "string list \<Rightarrow> json \<Rightarrow> py_error + unit" where
  "only ks j = ensure (is_object j \<and> set (keys j) \<subseteq> set ks) ValidationError (Inr ())"

definition reads :: "(json \<Rightarrow> 'a option) \<Rightarrow> json \<Rightarrow> py_error + 'a" where
  "reads f j = from_option ValidationError (f j)"

definition required :: "string \<Rightarrow> (json \<Rightarrow> py_error + 'a) \<Rightarrow> json \<Rightarrow> py_error + 'a" where
  "required k f j = rbind (from_option ValidationError (field k j)) f"

definition defaulted :: "string \<Rightarrow> 'a \<Rightarrow> (json \<Rightarrow> py_error + 'a) \<Rightarrow> json \<Rightarrow> py_error + 'a" where
  "defaulted k d f j = (case field k j of None \<Rightarrow> Inr d | Some v \<Rightarrow> f v)"

definition nullable :: "(json \<Rightarrow> py_error + 'a) \<Rightarrow> json \<Rightarrow> py_error + 'a option" where
  "nullable f j = (if j = JNull then Inr None else rbind (f j) (\<lambda>v. Inr (Some v)))"

section \<open>Values\<close>

fun text_of :: "json \<Rightarrow> pgtext option" where
  "text_of (JStr t) = Some t"
| "text_of _ = None"

fun bool_of :: "json \<Rightarrow> bool option" where
  "bool_of (JBool b) = Some b"
| "bool_of _ = None"

fun int_of :: "json \<Rightarrow> int option" where
  "int_of (JNum n) = Some n"
| "int_of _ = None"

text \<open>A \<open>StrEnum\<close> or \<open>Literal\<close> admits exactly the listed strings.\<close>

definition member :: "(string \<times> 'a) list \<Rightarrow> json \<Rightarrow> 'a option" where
  "member vs j = Option.bind (text_of j) (map_of (map (\<lambda>(s, v). (lit s, v)) vs))"

definition bounded_text :: "nat \<Rightarrow> nat \<Rightarrow> json \<Rightarrow> pgtext option" where
  "bounded_text lo hi j =
     Option.bind (text_of j) (\<lambda>t. if length_between lo hi t then Some t else None)"

definition stripped_text :: "readers \<Rightarrow> nat \<Rightarrow> json \<Rightarrow> pgtext option" where
  "stripped_text rd hi j =
     Option.bind (text_of j) (\<lambda>t. let s = rd_strip rd t in if length_between 1 hi s then Some s else None)"

definition description :: "readers \<Rightarrow> json \<Rightarrow> pgtext option" where
  "description rd = stripped_text rd 4000"

definition tag :: "readers \<Rightarrow> json \<Rightarrow> pgtext option" where
  "tag rd = stripped_text rd 200"

definition strict_int :: "int \<Rightarrow> json \<Rightarrow> int option" where
  "strict_int lo j = Option.bind (int_of j) (\<lambda>n. if lo \<le> n \<and> n \<le> int4_max then Some n else None)"

definition quantity :: "readers \<Rightarrow> json \<Rightarrow> numeric option" where
  "quantity rd j = Option.bind (rd_decimal rd j) (\<lambda>q. if q > 0 then Some (Num q) else None)"

definition packing_quantity :: "readers \<Rightarrow> json \<Rightarrow> numeric option" where
  "packing_quantity rd j = Option.bind (rd_decimal rd j) (\<lambda>q. if q \<ge> 0 then Some (Num q) else None)"

definition asset_states :: "(string \<times> asset_state) list" where
  "asset_states =
     [(''RECEIVED'', RECEIVED), (''IN_STOCK'', IN_STOCK), (''CONFIGURING'', CONFIGURING), (''READY'', READY),
      (''DEPLOYED'', DEPLOYED), (''ON_HOLD'', ON_HOLD), (''OUT_OF_SERVICE'', OUT_OF_SERVICE),
      (''RETIRED'', RETIRED)]"

definition assignee_kinds :: "(string \<times> assignee_kind) list" where
  "assignee_kinds = [(''ACTOR'', TO_ACTOR), (''LOCATION'', TO_LOCATION), (''PARTY'', TO_PARTY)]"

definition units_of_measure :: "(string \<times> uom) list" where
  "units_of_measure =
     [(''EA'', EA), (''M'', M), (''MM'', MM), (''CM'', CM), (''IN'', IN_UOM), (''FT'', FT), (''G'', G),
      (''MG'', MG), (''KG'', KG), (''ML'', ML_UOM), (''L'', L)]"

definition receipt_conditions :: "(string \<times> condition) list" where
  "receipt_conditions = [(''GOOD'', GOOD), (''DAMAGED'', DAMAGED), (''OPENED'', OPENED), (''UNKNOWN'', UNKNOWN)]"

definition identifier_types :: "(string \<times> identifier_type) list" where
  "identifier_types =
     [(''MANUFACTURER_SERIAL'', MANUFACTURER_SERIAL), (''PCB_SERIAL'', PCB_SERIAL), (''MAC'', MAC),
      (''IMEI'', IMEI), (''OTHER'', OTHER_IDENTIFIER)]"

definition evidence_entities :: "(string \<times> evidence_entity) list" where
  "evidence_entities =
     [(''ASSET'', ASSET), (''RECEIPT'', RECEIPT), (''RECEIPT_LINE'', RECEIPT_LINE),
      (''ASSET_CONFIGURATION'', ASSET_CONFIGURATION), (''RECEIVING_EXCEPTION'', RECEIVING_EXCEPTION)]"

definition evidence_roles :: "(string \<times> evidence_role) list" where
  "evidence_roles =
     [(''RECEIVING_EVIDENCE'', RECEIVING_EVIDENCE), (''DISPOSAL_EVIDENCE'', DISPOSAL_EVIDENCE),
      (''CONFIG_EVIDENCE'', CONFIG_EVIDENCE), (''EXCEPTION_EVIDENCE'', EXCEPTION_EVIDENCE),
      (''OTHER'', OTHER_EVIDENCE)]"

section \<open>Received lines\<close>

definition identifier_shape :: "readers \<Rightarrow> pgtext option \<Rightarrow> pgtext option \<Rightarrow> bool" where
  "identifier_shape rd v u \<longleftrightarrow>
     (case v of
        Some t \<Rightarrow> \<not> rd_blank rd t \<and> u = None
      | None \<Rightarrow> (case u of None \<Rightarrow> False | Some r \<Rightarrow> \<not> rd_blank rd r))"

definition read_identifier ::
  "readers \<Rightarrow> json \<Rightarrow> py_error + (identifier_type \<times> pgtext option \<times> pgtext option)" where
  "read_identifier rd j =
     rbind (only [''type'', ''value'', ''unreadable_reason''] j) (\<lambda>_.
     rbind (required ''type'' (reads (member identifier_types)) j) (\<lambda>k.
     rbind (defaulted ''value'' None (nullable (reads (bounded_text 1 500))) j) (\<lambda>v.
     rbind (defaulted ''unreadable_reason'' None (nullable (reads (bounded_text 0 4000))) j) (\<lambda>u.
       ensure (identifier_shape rd v u) ValidationError (Inr (k, v, u))))))"

definition read_unit :: "readers \<Rightarrow> json \<Rightarrow> py_error + unit_request" where
  "read_unit rd j =
     rbind (only [''owner_party_id'', ''custodian_party_id'', ''asset_tag'', ''description'', ''identifier''] j) (\<lambda>_.
     rbind (required ''owner_party_id'' (reads (rd_uuid rd)) j) (\<lambda>p.
     rbind (defaulted ''custodian_party_id'' None (nullable (reads (rd_uuid rd))) j) (\<lambda>c.
     rbind (required ''asset_tag'' (reads (tag rd)) j) (\<lambda>t.
     rbind (required ''description'' (reads (description rd)) j) (\<lambda>d.
     rbind (required ''identifier'' (read_identifier rd) j) (\<lambda>(k, v, u).
       Inr \<lparr>ur_owner = Some p, ur_custodian = c, ur_tag = t, ur_description = d, ur_type = k, ur_value = v,
            ur_unreadable = u\<rparr>))))))"

definition read_line :: "readers \<Rightarrow> json \<Rightarrow> py_error + line_request" where
  "read_line rd j =
     rbind (only [''po_line_id'', ''expected_po_generation'', ''item_id'', ''quantity'', ''uom'', ''condition'',
                  ''packing_quantity'', ''notes'', ''unit''] j) (\<lambda>_.
     rbind (defaulted ''po_line_id'' None (nullable (reads (rd_uuid rd))) j) (\<lambda>p.
     rbind (defaulted ''expected_po_generation'' 0 (reads (strict_int 0)) j) (\<lambda>g.
     rbind (required ''item_id'' (reads (rd_uuid rd)) j) (\<lambda>i.
     rbind (required ''quantity'' (reads (quantity rd)) j) (\<lambda>q.
     rbind (required ''uom'' (reads (member units_of_measure)) j) (\<lambda>m.
     rbind (required ''condition'' (reads (member receipt_conditions)) j) (\<lambda>c.
     rbind (defaulted ''packing_quantity'' None (nullable (reads (packing_quantity rd))) j) (\<lambda>k.
     rbind (defaulted ''notes'' None (nullable (reads (bounded_text 0 4000))) j) (\<lambda>t.
     rbind (defaulted ''unit'' None (nullable (read_unit rd)) j) (\<lambda>u.
       Inr \<lparr>lq_po_line = p, lq_generation = g, lq_item = i, lq_quantity = q, lq_uom = m, lq_condition = c,
            lq_packing = k, lq_notes = t, lq_unit = u\<rparr>))))))))))"

section \<open>Operations\<close>

text \<open>The envelope of a queued operation, and what a valid payload asks for.\<close>

record operation =
  cp_operation :: uuid
  cp_actor :: uuid
  cp_client :: uuid
  cp_epoch :: uuid
  cp_seq :: int
  cp_entity :: pgtext
  cp_entity_id :: uuid
  cp_expected :: "int option"
  cp_kind :: capture_kind
  cp_payload :: json
  cp_occurred :: tstz

datatype command =
    Move_to "uuid option" pgtext
  | Assign_to assignee_kind uuid pgtext
  | Unassign_for pgtext
  | Transition_to asset_state asset_state pgtext "uuid option"
  | Receive_line line_request bool
  | Attach_to uuid evidence_entity evidence_role
  | Resolve_from workflow_status pgtext

definition VERSIONED :: "capture_kind set" where
  "VERSIONED = {MOVE, ASSIGN, UNASSIGN, TRANSITION}"

definition int8_max :: int where
  "int8_max = 9223372036854775807"

text \<open>The bounds of \<open>CaptureOperation\<close>, which every operation of a batch has passed.\<close>

definition well_formed :: "operation \<Rightarrow> bool" where
  "well_formed op \<longleftrightarrow> 0 < cp_seq op \<and> cp_seq op \<le> int8_max \<and> length_between 1 64 (cp_entity op)
     \<and> holds_if (\<lambda>v. 0 < v \<and> v \<le> int4_max) (cp_expected op) \<and> is_object (cp_payload op)
     \<and> isfinite (cp_occurred op)"

text \<open>
  The request models of the versioned operations, over the payload joined with the envelope's
  \<open>expected_version\<close> and \<open>occurred_at\<close>, which the payload itself may not name.
\<close>

definition expected_in_range :: "operation \<Rightarrow> bool" where
  "expected_in_range op \<longleftrightarrow> holds_if (\<lambda>v. 0 < v \<and> v \<le> int4_max) (cp_expected op)"

definition model_validate :: "readers \<Rightarrow> operation \<Rightarrow> py_error + command" where
  "model_validate rd op =
     (let j = cp_payload op in
      ensure (expected_in_range op) ValidationError
       (case cp_kind op of
          MOVE \<Rightarrow>
            rbind (only [''reason'', ''to_location_id''] j) (\<lambda>_.
            rbind (required ''reason'' (reads (description rd)) j) (\<lambda>why.
            rbind (required ''to_location_id'' (nullable (reads (rd_uuid rd))) j) (\<lambda>l. Inr (Move_to l why))))
        | ASSIGN \<Rightarrow>
            rbind (only [''reason'', ''assignee_type'', ''assignee_id''] j) (\<lambda>_.
            rbind (required ''reason'' (reads (description rd)) j) (\<lambda>why.
            rbind (required ''assignee_type'' (reads (member assignee_kinds)) j) (\<lambda>k.
            rbind (required ''assignee_id'' (reads (rd_uuid rd)) j) (\<lambda>i. Inr (Assign_to k i why)))))
        | UNASSIGN \<Rightarrow>
            rbind (only [''reason''] j) (\<lambda>_.
            rbind (required ''reason'' (reads (description rd)) j) (\<lambda>why. Inr (Unassign_for why)))
        | TRANSITION \<Rightarrow>
            rbind (only [''from_state'', ''to_state'', ''reason'', ''evidence_ref''] j) (\<lambda>_.
            rbind (required ''from_state'' (reads (member asset_states)) j) (\<lambda>f.
            rbind (required ''to_state'' (reads (member asset_states)) j) (\<lambda>t.
            rbind (required ''reason'' (reads (description rd)) j) (\<lambda>why.
            rbind (defaulted ''evidence_ref'' None (nullable (reads (rd_uuid rd))) j) (\<lambda>e.
              Inr (Transition_to f t why e))))))
        | _ \<Rightarrow> Inl KeyError))"

definition validate :: "readers \<Rightarrow> operation \<Rightarrow> py_error + command" where
  "validate rd op =
     (let j = cp_payload op in
      if cp_kind op \<in> VERSIONED then
        ensure (cp_entity op = lit ''ASSET'' \<and> cp_expected op \<noteq> None) Invalid
          (ensure (set (keys j) \<inter> {''expected_version'', ''occurred_at'', ''client_op_id''} = {}) Invalid
            (model_validate rd op))
      else
        (case cp_kind op of
           RECEIVE_SCAN \<Rightarrow>
             ensure (cp_entity op = lit ''RECEIPT'') Invalid
               (rbind (only [''line'', ''reconcile''] j) (\<lambda>_.
                rbind (required ''line'' (read_line rd) j) (\<lambda>q.
                rbind (defaulted ''reconcile'' False (reads bool_of) j) (\<lambda>r. Inr (Receive_line q r)))))
         | ATTACH_EVIDENCE \<Rightarrow>
             rbind (only [''attachment_id'', ''link_role''] j) (\<lambda>_.
             rbind (required ''attachment_id'' (reads (rd_uuid rd)) j) (\<lambda>a.
             rbind (required ''link_role'' (reads text_of) j) (\<lambda>r.
             rbind (reads (member evidence_entities) (JStr (cp_entity op))) (\<lambda>e.
             rbind (reads (member evidence_roles) (JStr r)) (\<lambda>role. Inr (Attach_to a e role))))))
         | RESOLVE \<Rightarrow>
             ensure (cp_entity op = lit ''EXCEPTION'') Invalid
               (rbind (only [''expected_status'', ''note''] j) (\<lambda>_.
                rbind (required ''expected_status''
                  (reads (member [(''OPEN'', OPEN), (''ACKNOWLEDGED'', ACKNOWLEDGED)])) j) (\<lambda>s.
                rbind (required ''note'' (reads (description rd)) j) (\<lambda>t. Inr (Resolve_from s t)))))
         | _ \<Rightarrow> Inl Invalid))"

end
