(* ===== verification/Capture.thy ===== *)
theory Capture
  imports CapturePayload "HOL-Library.Product_Lexorder"
begin

text \<open>
  Offline capture: the batch service \<open>capture/service.py\<close> over the guards and constraints of
  \<open>0014_capture.py\<close> and \<open>db/capture_schema.py\<close>.

  Advisory and row locks serialize concurrent transactions, so a transaction is a function of the
  committed database.  A savepoint that is rolled back continues with the database it started from.
  What is outside the source is a parameter of the environment: Pydantic's readers, SHA-256, the
  evidence store, FastAPI's \<open>jsonable_encoder\<close> and the size of the text PostgreSQL prints for a
  \<open>jsonb\<close> value.
\<close>

section \<open>Order\<close>

text \<open>\<open>ordered\<close>: group by client epoch in the order of first appearance, sort each group.\<close>

definition epoch_of :: "operation \<Rightarrow> uuid \<times> uuid" where
  "epoch_of op = (cp_client op, cp_epoch op)"

definition epoch_groups :: "operation list \<Rightarrow> ((uuid \<times> uuid) \<times> (nat \<times> operation) list) list" where
  "epoch_groups ops = fold (\<lambda>e. dict_append (epoch_of (snd e)) e) (List.enumerate 0 ops) []"

definition ordered :: "operation list \<Rightarrow> (nat \<times> operation) list" where
  "ordered ops = concat (map (\<lambda>g. sort_key (\<lambda>e. (cp_seq (snd e), fst e)) (snd g)) (epoch_groups ops))"

section \<open>Streams\<close>

definition of_stream :: "uuid \<Rightarrow> uuid \<Rightarrow> uuid \<Rightarrow> stream_row \<Rightarrow> bool" where
  "of_stream org client epoch s \<longleftrightarrow> sm_org s = org \<and> sm_client s = client \<and> sm_epoch s = epoch"

text \<open>\<open>guard_capture_stream\<close> on an insertion and on an update.\<close>

definition guard_new_stream :: "ctx \<Rightarrow> fleet \<Rightarrow> stream_row \<Rightarrow> sqlstate + stream_row" where
  "guard_new_stream x db new =
     rbind (current_authenticated_actor x db) (\<lambda>performer.
       ensure (sm_last new = 0) E23514 (Inr (new\<lparr>sm_actor := performer\<rparr>)))"

definition guard_stream_update :: "ctx \<Rightarrow> fleet \<Rightarrow> stream_row \<Rightarrow> stream_row \<Rightarrow> sqlstate + unit" where
  "guard_stream_update x db old new =
     rbind (current_authenticated_actor x db) (\<lambda>performer.
       ensure (new = old\<lparr>sm_last := sm_last new\<rparr> \<and> performer = sm_actor old \<and> sm_last old \<le> sm_last new) E23514
         (Inr ()))"

text \<open>\<open>INSERT \<dots> ON CONFLICT DO NOTHING\<close>; the table has one unique key.\<close>

definition open_stream :: "ctx \<Rightarrow> uuid \<Rightarrow> uuid \<Rightarrow> uuid \<Rightarrow> fleet \<Rightarrow> sqlstate + fleet" where
  "open_stream x org client epoch db =
     rbind (guard_new_stream x db \<lparr>sm_org = org, sm_client = client, sm_epoch = epoch, sm_last = 0, sm_actor = 0\<rparr>) (\<lambda>s.
       ensure (visible x org) E42501
         (if \<exists>t \<in> set (capture_streams db). of_stream org client epoch t then Inr db
          else ensure (org \<in> set (organizations db) \<and> actor_exists db org (sm_actor s)) E23503
                 (Inr (db\<lparr>capture_streams := capture_streams db @ [s]\<rparr>))))"

definition advance_stream :: "ctx \<Rightarrow> stream_row \<Rightarrow> int \<Rightarrow> fleet \<Rightarrow> sqlstate + fleet" where
  "advance_stream x s n db =
     (let new = s\<lparr>sm_last := n\<rparr> in
      rbind (guard_stream_update x db s new) (\<lambda>_.
        ensure (sm_last new \<ge> 0) E23514
          (Inr (db\<lparr>capture_streams :=
             map (\<lambda>t. if of_stream (sm_org s) (sm_client s) (sm_epoch s) t then new else t) (capture_streams db)\<rparr>))))"

definition sequence_flags :: "int \<Rightarrow> int \<Rightarrow> sequence_flag list" where
  "sequence_flags n seq =
     (if seq \<le> n then [SEQUENCE_REUSED] else if seq \<noteq> n + 1 then [SEQUENCE_GAP] else [])"

definition sequence :: "ctx \<Rightarrow> identity \<Rightarrow> operation \<Rightarrow> fleet \<Rightarrow> py_error + (sequence_flag list \<times> fleet)" where
  "sequence x who op db =
     (let org = organization_id who in
      rbind (map_error DBError (open_stream x org (cp_client op) (cp_epoch op) db)) (\<lambda>db1.
      rbind (from_option NoResultFound
               (List.find (\<lambda>s. visible x (sm_org s) \<and> of_stream org (cp_client op) (cp_epoch op) s)
                 (capture_streams db1))) (\<lambda>s.
        ensure (sm_actor s = actor_id who) Invalid
          (rbind (map_error DBError (advance_stream x s (max (cp_seq op) (sm_last s)) db1)) (\<lambda>db2.
             Inr (sequence_flags (sm_last s) (cp_seq op), db2))))))"

section \<open>Facts of a version\<close>

text \<open>\<open>_facts\<close>: each class reads its newest entry at the version, or its creation baseline.\<close>

definition latest_seen :: "ctx \<Rightarrow> uuid \<Rightarrow> int \<Rightarrow> 'f hrow list \<Rightarrow> 'f hrow option" where
  "latest_seen x i v rows =
     latest_by h_version (filter (\<lambda>h. visible x (h_org h) \<and> h_asset h = i \<and> h_version h \<le> v) rows)"

definition baseline_seen :: "ctx \<Rightarrow> fleet \<Rightarrow> uuid \<Rightarrow> (initial_row \<Rightarrow> ref_fact) \<Rightarrow> ref_fact" where
  "baseline_seen x db i f =
     (case List.find (\<lambda>b. visible x (b_org b) \<and> b_asset b = i) (asset_initial_facts db) of
        Some b \<Rightarrow> f b | None \<Rightarrow> None)"

definition fact_seen :: "('f \<Rightarrow> 'g option) \<Rightarrow> 'f hrow option \<Rightarrow> 'g option \<Rightarrow> 'g option" where
  "fact_seen f row baseline = (case row of Some h \<Rightarrow> f (h_to h) | None \<Rightarrow> baseline)"

definition facts :: "ctx \<Rightarrow> fleet \<Rightarrow> asset_row \<Rightarrow> int \<Rightarrow> capture_facts" where
  "facts x db a v =
     (if v > as_version a then Unknown_version v
      else Known_version v
        (fact_seen id (latest_seen x (as_id a) v (asset_transitions db)) None)
        (fact_seen id (latest_seen x (as_id a) v (asset_movements db)) (baseline_seen x db (as_id a) b_location))
        (fact_seen id (latest_seen x (as_id a) v (asset_custody_changes db)) (baseline_seen x db (as_id a) b_custodian))
        (fact_seen id (latest_seen x (as_id a) v (asset_ownership_changes db)) (baseline_seen x db (as_id a) b_owner))
        (fact_seen snd (latest_seen x (as_id a) v (asset_assignment_events db)) None))"

section \<open>Applying an operation\<close>

text \<open>What the called service returned, before \<open>jsonable_encoder\<close>.\<close>

datatype domain_value =
    Moved "ref_fact hrow" | Assigned "assignee_fact hrow" | Transitioned "state_fact hrow"
  | Received uuid "uuid option" | Linked link_row | Settled "workflow_event + conflict_event"

record environment =
  en_readers :: readers
  en_sha256 :: "bytes \<Rightarrow> bytes"
  en_storage :: "store option"
  en_encode :: "domain_value \<Rightarrow> json"
  en_payload_size :: "json \<Rightarrow> nat"
  en_result_size :: "capture_result \<Rightarrow> nat"

text \<open>\<open>uuid7\<close> yields the identifiers one operation draws; the two receiving calls draw apart.\<close>

definition receive_scan ::
  "(nat \<Rightarrow> uuid) \<Rightarrow> ctx \<Rightarrow> uuid \<Rightarrow> line_request \<Rightarrow> bool \<Rightarrow> fleet \<Rightarrow> py_error + (domain_value \<times> fleet)" where
  "receive_scan uuid7 x i q finish db =
     rbind (add_line (\<lambda>n. uuid7 (2 * n)) x i q db) (\<lambda>(v, db1).
     rbind (if finish
            then rbind (reconcile_receipt (\<lambda>n. uuid7 (2 * n + 1)) x i db1) (\<lambda>(_, db2). Inr db2)
            else Inr db1) (\<lambda>db2.
       Inr (Received (rc_id (vw_header v)) (if vw_lines v = [] then None else Some (rl_id (last (vw_lines v)))), db2)))"

definition run_command ::
  "environment \<Rightarrow> (nat \<Rightarrow> uuid) \<Rightarrow> ctx \<Rightarrow> operation \<Rightarrow> command \<Rightarrow> fleet \<Rightarrow> py_error + (domain_value \<times> fleet)" where
  "run_command en uuid7 x op c db =
     (let i = cp_entity_id op; v = cp_expected op; at' = cp_occurred op; key = Some (cp_operation op); fresh = uuid7 0 in
      case c of
        Move_to l why \<Rightarrow> rbind (service_move x i v l why at' key fresh db) (\<lambda>(h, db'). Inr (Moved h, db'))
      | Assign_to k who why \<Rightarrow>
          rbind (service_assign x i v (Some k) (Some who) why at' key fresh db) (\<lambda>(h, db'). Inr (Assigned h, db'))
      | Unassign_for why \<Rightarrow> rbind (service_unassign x i v why at' key fresh db) (\<lambda>(h, db'). Inr (Assigned h, db'))
      | Transition_to f t why e \<Rightarrow>
          rbind (service_transition (en_sha256 en) (en_storage en) x i v f t why at' e key fresh db)
            (\<lambda>(h, db'). Inr (Transitioned h, db'))
      | Receive_line q finish \<Rightarrow> receive_scan uuid7 x i q finish db
      | Attach_to a e role \<Rightarrow>
          rbind (evidence_link (en_sha256 en) x (en_storage en) a
                   \<lparr>al_id = fresh, al_org = 0, al_attachment = 0, al_entity = e, al_entity_id = i, al_role = role,
                    al_actor = 0, al_recorded_at = At 0\<rparr> db) (\<lambda>(l, db'). Inr (Linked l, db'))
      | Resolve_from s note \<Rightarrow>
          rbind (service_transition_exception x i s RESOLVED (Some note) at' fresh db)
            (\<lambda>(e, db'). Inr (Settled e, db')))"

section \<open>Processing\<close>

text \<open>The exceptions of \<open>FAILURES\<close> and their bounded classification; the others propagate.\<close>

fun failure_class :: "py_error \<Rightarrow> failure_code option" where
  "failure_class NotFound = Some NOT_FOUND"
| "failure_class ReceivingNotFound = Some NOT_FOUND"
| "failure_class EvidenceNotFound = Some NOT_FOUND"
| "failure_class ValidationError = Some INVALID_OPERATION"
| "failure_class Invalid = Some INVALID_OPERATION"
| "failure_class Conflict = Some INVALID_OPERATION"
| "failure_class LifecycleInvalid = Some INVALID_OPERATION"
| "failure_class ReceivingInvalid = Some INVALID_OPERATION"
| "failure_class ReceivingConflict = Some INVALID_OPERATION"
| "failure_class EvidenceInvalid = Some INVALID_OPERATION"
| "failure_class EvidenceConflict = Some INVALID_OPERATION"
| "failure_class _ = None"

type_synonym verdict = "sync_state \<times> capture_result \<times> fleet"

definition record_conflict ::
  "uuid \<Rightarrow> ctx \<Rightarrow> identity \<Rightarrow> operation \<Rightarrow> int \<Rightarrow> asset_row \<Rightarrow> fleet \<Rightarrow> py_error + verdict" where
  "record_conflict i x who op expected a db =
     (let was = facts x db a expected; now = facts x db a (as_version a) in
      rbind (map_error DBError (insert_conflict x
               \<lparr>sc_id = i, sc_org = organization_id who, sc_operation = cp_operation op, sc_asset = as_id a,
                sc_expected_version = expected, sc_current_version = as_version a, sc_expected = was,
                sc_current = now, sc_actor = 0, sc_occurred = cp_occurred op, sc_recorded = At 0\<rparr> db))
        (\<lambda>(_, db'). Inr (REJECTED, Conflict_result i was now, db')))"

definition decide :: "environment \<Rightarrow> (nat \<Rightarrow> uuid) \<Rightarrow> ctx \<Rightarrow> identity \<Rightarrow> operation \<Rightarrow> fleet \<Rightarrow> py_error + verdict" where
  "decide en uuid7 x who op db =
     ensure (cp_actor op = actor_id who) Invalid
       (rbind (validate (en_readers en) op) (\<lambda>c.
          let applied = rbind (run_command en uuid7 x op c db) (\<lambda>(v, db'). Inr (APPLIED, Domain_result (en_encode en v), db')) in
          if cp_kind op \<in> VERSIONED then
            rbind (from_option NotFound
                     (List.find (\<lambda>a. visible x (as_org a) \<and> as_id a = cp_entity_id op) (assets db))) (\<lambda>a.
              case cp_expected op of
                Some expected \<Rightarrow>
                  if as_version a \<noteq> expected then record_conflict (uuid7 0) x who op expected a db else applied
              | None \<Rightarrow> Inl Invalid)
          else applied))"

text \<open>The savepoint: a listed failure rolls back to it and becomes a rejection.\<close>

definition attempt :: "environment \<Rightarrow> (nat \<Rightarrow> uuid) \<Rightarrow> ctx \<Rightarrow> identity \<Rightarrow> operation \<Rightarrow> fleet \<Rightarrow> py_error + verdict" where
  "attempt en uuid7 x who op db =
     (case decide en uuid7 x who op db of
        Inr r \<Rightarrow> Inr r
      | Inl e \<Rightarrow> (case failure_class e of Some c \<Rightarrow> Inr (REJECTED, Failure_result c, db) | None \<Rightarrow> Inl e))"

definition operation_check :: "environment \<Rightarrow> operation_row \<Rightarrow> bool" where
  "operation_check en r \<longleftrightarrow> 0 < co_seq r \<and> holds_if ((<) 0) (co_expected r) \<and> co_state r \<in> {APPLIED, REJECTED}
     \<and> is_object (co_payload r) \<and> en_payload_size en (co_payload r) \<le> 65536
     \<and> (case co_result r of Domain_result j \<Rightarrow> is_object j | _ \<Rightarrow> True)
     \<and> en_result_size en (co_result r) \<le> 262144
     \<and> isfinite (co_occurred r) \<and> isfinite (co_recorded r)"

definition insert_operation ::
  "environment \<Rightarrow> ctx \<Rightarrow> operation_row \<Rightarrow> fleet \<Rightarrow> sqlstate + (operation_row \<times> fleet)" where
  "insert_operation en x new db =
     rbind (current_authenticated_actor x db) (\<lambda>performer.
       let r = new\<lparr>co_actor := performer, co_recorded := At (x_now x)\<rparr> in
       ensure (co_state r = APPLIED \<longrightarrow> co_claimed r = co_actor r) E23514
         (ensure (visible x (co_org r)) E42501
           (ensure (operation_check en r) E23514
             (ensure (\<forall>q \<in> set (capture_operations db). co_operation q \<noteq> co_operation r) E23505
               (ensure (co_org r \<in> set (organizations db) \<and> actor_exists db (co_org r) (co_actor r)
                        \<and> (\<exists>s \<in> set (capture_streams db). of_stream (co_org r) (co_client r) (co_epoch r) s)) E23503
                 (Inr (r, db\<lparr>capture_operations := capture_operations db @ [r]\<rparr>)))))))"

record outcome =
  ou_operation :: uuid
  ou_state :: sync_state
  ou_recorded :: "tstz option"
  ou_result :: capture_result
  ou_flags :: "sequence_flag list"

definition out :: "bool \<Rightarrow> operation_row \<Rightarrow> outcome" where
  "out duplicate r =
     \<lparr>ou_operation = co_operation r, ou_state = (if duplicate then DUPLICATE else co_state r),
      ou_recorded = Some (co_recorded r), ou_result = co_result r, ou_flags = co_flags r\<rparr>"

definition operation_record ::
  "identity \<Rightarrow> operation \<Rightarrow> sync_state \<Rightarrow> capture_result \<Rightarrow> sequence_flag list \<Rightarrow> operation_row" where
  "operation_record who op s r fs =
     \<lparr>co_operation = cp_operation op, co_org = organization_id who, co_actor = 0, co_claimed = cp_actor op,
      co_client = cp_client op, co_epoch = cp_epoch op, co_seq = cp_seq op, co_entity = cp_entity op,
      co_entity_id = cp_entity_id op, co_expected = cp_expected op, co_kind = cp_kind op, co_payload = cp_payload op,
      co_occurred = cp_occurred op, co_recorded = At 0, co_state = s, co_result = r, co_flags = fs\<rparr>"

definition find_operation :: "ctx \<Rightarrow> fleet \<Rightarrow> uuid \<Rightarrow> operation_row option" where
  "find_operation x db i = List.find (\<lambda>r. visible x (co_org r) \<and> co_operation r = i) (capture_operations db)"

definition process ::
  "environment \<Rightarrow> (nat \<Rightarrow> uuid) \<Rightarrow> ctx \<Rightarrow> identity \<Rightarrow> operation \<Rightarrow> fleet \<Rightarrow> py_error + (outcome \<times> fleet)" where
  "process en uuid7 x who op db =
     (case find_operation x db (cp_operation op) of
        Some r \<Rightarrow> ensure (co_actor r = actor_id who) Invalid (Inr (out True r, db))
      | None \<Rightarrow>
          rbind (sequence x who op db) (\<lambda>(flags, db1).
          rbind (attempt en uuid7 x who op db1) (\<lambda>(s, res, db2).
          rbind (map_error DBError (insert_operation en x (operation_record who op s res flags) db2)) (\<lambda>(r, db3).
            Inr (out False r, db3)))))"

section \<open>Batches\<close>

text \<open>\<open>COMMIT\<close> runs the deferred triggers over the rows the transaction added.\<close>

definition commit_capture :: "fleet \<Rightarrow> fleet \<Rightarrow> sqlstate + fleet" where
  "commit_capture old db =
     rbind (commit_histories old db) (\<lambda>_.
       ensure (\<forall>c \<in> set (drop (length (sync_conflicts old)) (sync_conflicts db)). conflict_origin_ok db c) E23514
         (Inr db))"

text \<open>
  One operation of a batch: its own transaction, which revalidates the credential.  \<open>CredentialExpired\<close>
  is \<open>Unauthorized\<close>.  A database error or an \<open>AssetInvalid\<close> that leaves \<open>process\<close> rolls it back and is
  answered without a record; every other exception leaves the batch.
\<close>

record step =
  tx_context :: ctx
  tx_uuid7 :: "nat \<Rightarrow> uuid"

definition unavailable :: "operation \<Rightarrow> outcome" where
  "unavailable op =
     \<lparr>ou_operation = cp_operation op, ou_state = REJECTED, ou_recorded = None,
      ou_result = Failure_result OPERATION_UNAVAILABLE, ou_flags = []\<rparr>"

definition transaction ::
  "environment \<Rightarrow> pgtext \<Rightarrow> step \<Rightarrow> operation \<Rightarrow> fleet \<Rightarrow> py_error + (outcome \<times> fleet)" where
  "transaction en token t op db =
     rbind (authenticated (en_sha256 en) (tx_context t) db (Some token)) (\<lambda>(x, who).
     rbind (process en (tx_uuid7 t) x who op db) (\<lambda>(r, db').
     rbind (map_error DBError (commit_capture db db')) (\<lambda>db''. Inr (r, db''))))"

fun rolled_back :: "py_error \<Rightarrow> bool" where
  "rolled_back (DBError _) = True"
| "rolled_back Invalid = True"
| "rolled_back _ = False"

text \<open>
  The loop of \<open>batch\<close> over the ordered operations.  An exception that leaves it still leaves the
  committed transactions, so the database is a result of both endings.
\<close>

fun run_batch ::
  "environment \<Rightarrow> pgtext \<Rightarrow> (nat \<Rightarrow> step) \<Rightarrow> (nat \<times> operation) list \<Rightarrow> outcome option list \<Rightarrow> fleet
   \<Rightarrow> (py_error + outcome option list) \<times> fleet" where
  "run_batch en token ts [] responses db = (Inr responses, db)"
| "run_batch en token ts ((i, op) # rest) responses db =
     (case transaction en token (ts i) op db of
        Inr (r, db') \<Rightarrow> run_batch en token ts rest (responses[i := Some r]) db'
      | Inl e \<Rightarrow>
          if rolled_back e then run_batch en token ts rest (responses[i := Some (unavailable op)]) db
          else (Inl e, db))"

definition batch ::
  "environment \<Rightarrow> pgtext \<Rightarrow> (nat \<Rightarrow> step) \<Rightarrow> operation list \<Rightarrow> fleet \<Rightarrow> (py_error + outcome option list) \<times> fleet" where
  "batch en token ts ops db = run_batch en token ts (ordered ops) (replicate (length ops) None) db"

end
