(* ===== verification/CaptureRun.thy ===== *)
theory CaptureRun
  imports Capture ReceivingRun WorkflowProperties
begin

text \<open>
  What an operation of a batch does to the database: the services leave identities and the capture
  tables alone and keep the fleet reachable; a transaction either answers from a record or adds one
  record with its consequences.
\<close>

section \<open>Services leave the capture tables alone\<close>

definition same_capture :: "fleet \<Rightarrow> fleet \<Rightarrow> bool" where
  "same_capture db db' \<longleftrightarrow> capture_streams db' = capture_streams db \<and> capture_operations db' = capture_operations db
     \<and> sync_conflicts db' = sync_conflicts db"

definition same_identity :: "fleet \<Rightarrow> fleet \<Rightarrow> bool" where
  "same_identity db db' \<longleftrightarrow> sessions db' = sessions db \<and> users db' = users db \<and> actors db' = actors db
     \<and> organizations db' = organizations db"

definition service_step :: "fleet \<Rightarrow> fleet \<Rightarrow> bool" where
  "service_step db db' \<longleftrightarrow> same_capture db db' \<and> same_identity db db' \<and> (reachable db \<longrightarrow> reachable db')"

lemmas same_defs = same_capture_def same_identity_def

lemma service_step_refl [simp]: "service_step db db"
  by (simp add: service_step_def same_defs)

lemma service_step_trans [trans]: "service_step a b \<Longrightarrow> service_step b c \<Longrightarrow> service_step a c"
  by (simp add: service_step_def same_defs)

lemma same_identity_trans [trans]: "same_identity a b \<Longrightarrow> same_identity b c \<Longrightarrow> same_identity a c"
  by (simp add: same_identity_def)

lemma same_identity_actor:
  "same_identity db db' \<Longrightarrow> current_authenticated_actor x db' = current_authenticated_actor x db"
  by (rule current_actor_cong) (simp_all add: same_identity_def)

lemma elsewhere_step:
  assumes "same_capture db db'" "same_identity db db'" "frame db db'"
  shows "service_step db db'"
  using assms by (auto simp: service_step_def intro: reachable.run fleet_step.elsewhere)

lemma grown_same:
  assumes "grown org i actor db db'"
  shows "same_capture db db' \<and> same_identity db db'"
proof -
  have "db' = db\<lparr>assets := assets db', asset_transitions := asset_transitions db',
              asset_movements := asset_movements db', asset_custody_changes := asset_custody_changes db',
              asset_ownership_changes := asset_ownership_changes db',
              asset_assignment_events := asset_assignment_events db'\<rparr>" (is "_ = ?u")
    using assms by (simp add: grown_def)
  from this [THEN arg_cong, of capture_streams] this [THEN arg_cong, of capture_operations]
    this [THEN arg_cong, of sync_conflicts] this [THEN arg_cong, of sessions] this [THEN arg_cong, of users]
    this [THEN arg_cong, of actors] this [THEN arg_cong, of organizations]
  show ?thesis by (simp add: same_defs)
qed

lemma asset_service_step:
  assumes "asset_step x i v db db'"
  shows "service_step db db'"
proof -
  obtain org actor where "grown org i actor db db'" by (rule asset_step_find [OF assms])
  then show ?thesis
    using grown_same assms by (auto simp: service_step_def intro: reachable.run fleet_step.operate)
qed

lemma create_unit_same:
  assumes "create_unit_facts x a r t d db = Inr db'"
  shows "same_capture db db' \<and> same_identity db db'"
  using create_unit_facts_Inr(1) [OF assms] by (simp add: created_db_def same_defs)

lemma receiving_op_same:
  assumes "receiving_op x db db'"
  shows "same_capture db db' \<and> same_identity db db'"
  using assms
proof cases
  case receipt
  then show ?thesis using insert_receipt_Inr(1) [OF receipt] by (auto simp: same_defs)
next
  case comparator
  then show ?thesis by (auto elim!: insert_comparator_Inr simp: same_defs)
next
  case line
  then show ?thesis by (auto elim!: insert_receipt_line_Inr simp: same_defs)
next
  case (unit l u k)
  obtain r :: receipt_row and t d a db1 new where
    c: "create_unit_facts x a (rc_received_at r) t d db = Inr db1" and l: "insert_receipt_line x new db1 = Inr (k, db')"
    by (rule create_received_unit_Inr [OF unit]) (rule that, assumption+)
  have "db' = db1\<lparr>receipt_lines := receipt_lines db1 @ [k]\<rparr>" by (rule insert_receipt_line_Inr [OF l])
  then show ?thesis using create_unit_same [OF c] by (simp add: same_defs)
next
  case exception
  then show ?thesis by (auto elim!: insert_exception_Inr simp: same_defs)
next
  case reconciliation
  then show ?thesis by (auto elim!: insert_reconciliation_Inr simp: same_defs)
qed

lemma ops_service_step: "ops x db db' \<Longrightarrow> service_step db db'"
  unfolding ops_def
proof (induction rule: rtranclp_induct)
  case (step b c)
  have "service_step b c" using receiving_op_same [OF step.hyps(2)] op_reachable [OF _ step.hyps(2)]
    by (simp add: service_step_def)
  with step.IH show ?case by (rule service_step_trans)
qed simp

lemma receive_scan_step:
  assumes "receive_scan u x i q finish db = Inr (v, db')"
  shows "service_step db db'"
proof -
  obtain w db1 where a: "add_line (\<lambda>n. u (2 * n)) x i q db = Inr (w, db1)"
    and r: "(if finish then rbind (reconcile_receipt (\<lambda>n. u (2 * n + 1)) x i db1) (\<lambda>(_, db2). Inr db2)
             else Inr db1) = Inr db'"
    using assms by (auto simp: receive_scan_def rbind_Inr_iff)
  have "service_step db db1" using call_ops [OF receiving_call.add [OF a]] ops_service_step by blast
  moreover have "service_step db1 db'"
  proof (cases finish)
    case True
    then obtain y where "reconcile_receipt (\<lambda>n. u (2 * n + 1)) x i db1 = Inr (y, db')"
      using r by (auto simp: rbind_Inr_iff)
    then show ?thesis using call_ops [OF receiving_call.reconcile] ops_service_step by blast
  next
    case False
    then show ?thesis using r by simp
  qed
  ultimately show ?thesis by (rule service_step_trans)
qed

lemma evidence_link_step:
  assumes "evidence_link sha256 x storage i new db = Inr (l, db')"
  shows "service_step db db'"
proof -
  obtain created k where "insert_link x k db = Inr (created, db')"
    using assms by (auto simp: evidence_link_def Let_def result_simps split: option.splits)
  then have "\<exists>ls. db' = db\<lparr>attachment_links := attachment_links db @ ls\<rparr>"
    by (auto simp: insert_link_def Let_def result_simps split: if_splits intro: exI [of _ "[]"])
  then obtain ls where "db' = db\<lparr>attachment_links := attachment_links db @ ls\<rparr>" ..
  then show ?thesis by (intro elsewhere_step) (simp_all add: same_defs frame_def evidence_grows_def)
qed

lemma workflow_service_step:
  assumes "service_transition_exception x i s t n occ eid db = Inr (e, db')"
  shows "service_step db db'"
proof -
  have "(\<exists>c. conflict_transition x i s t n occ eid db = Inr (c, db')) \<or> (\<exists>w. transition_exception x i s t n occ eid None db = Inr (w, db'))"
    using assms by (auto simp: service_transition_exception_def result_simps split: if_splits)
  then consider c new where "insert_conflict_event x new db = Inr (c, db')"
    | w where "transition_exception x i s t n occ eid None db = Inr (w, db')"
    by (auto simp: conflict_transition_def result_simps)
  then show ?thesis
  proof cases
    case 1
    note insert_conflict_event_Inr(1) [OF 1]
    then show ?thesis by (intro elsewhere_step) (simp_all add: same_defs frame_def evidence_grows_def)
  next
    case 2
    then show ?thesis
      by (intro elsewhere_step) (auto elim!: transition_exception_Inr simp: same_defs frame_def evidence_grows_def)
  qed
qed

lemma run_command_cases:
  assumes "run_command en u x op c db = Inr (v, db')"
  shows "asset_step x (cp_entity_id op) (cp_expected op) db db'
     \<or> (\<exists>q b. c = Receive_line q b \<and> receive_scan u x (cp_entity_id op) q b db = Inr (v, db'))
     \<or> (\<exists>a e r l k. c = Attach_to a e r \<and> evidence_link (en_sha256 en) x (en_storage en) a k db = Inr (l, db'))
     \<or> (\<exists>s n e. c = Resolve_from s n
          \<and> service_transition_exception x (cp_entity_id op) s RESOLVED (Some n) (cp_occurred op) (u 0) db = Inr (e, db'))"
proof (cases c)
  case (Move_to l why)
  then show ?thesis using assms service_operation_steps(1) by (fastforce simp: run_command_def rbind_Inr_iff)
next
  case (Assign_to k who why)
  then show ?thesis using assms service_operation_steps(4) by (fastforce simp: run_command_def rbind_Inr_iff)
next
  case (Unassign_for why)
  then show ?thesis using assms service_operation_steps(5) by (fastforce simp: run_command_def rbind_Inr_iff)
next
  case (Transition_to f t why e)
  then obtain h where t: "service_transition (en_sha256 en) (en_storage en) x (cp_entity_id op) (cp_expected op) f t why
      (cp_occurred op) e (Some (cp_operation op)) (u 0) db = Inr (h, db')"
    using assms by (auto simp: run_command_def Let_def rbind_Inr_iff)
  show ?thesis by (rule disjI1) (rule asset_step.transition [OF service_transition_Inr(1) [OF t]])
qed (use assms in \<open>auto simp: run_command_def Let_def rbind_Inr_iff\<close>)

lemma run_command_step:
  assumes "run_command en u x op c db = Inr (v, db')"
  shows "service_step db db'"
  using run_command_cases [OF assms]
  by (elim disjE exE conjE)
    (erule asset_service_step receive_scan_step evidence_link_step workflow_service_step)+

section \<open>One operation\<close>

lemma decide_Inr:
  assumes "decide en u x who op db = Inr (s, res, db')"
  obtains
    (applied) c v where "validate (en_readers en) op = Inr c" "run_command en u x op c db = Inr (v, db')"
      "s = APPLIED" "res = Domain_result (en_encode en v)" "cp_actor op = actor_id who"
      "cp_kind op \<in> VERSIONED \<Longrightarrow> \<exists>a. List.find (\<lambda>a. visible x (as_org a) \<and> as_id a = cp_entity_id op) (assets db) = Some a
         \<and> cp_expected op = Some (as_version a)"
  | (stale) a expected where "record_conflict (u 0) x who op expected a db = Inr (s, res, db')" "cp_kind op \<in> VERSIONED"
      "List.find (\<lambda>a. visible x (as_org a) \<and> as_id a = cp_entity_id op) (assets db) = Some a"
      "cp_expected op = Some expected" "as_version a \<noteq> expected" "cp_actor op = actor_id who" "cp_entity op = lit ''ASSET''"
proof (cases "cp_kind op \<in> VERSIONED")
  case True
  obtain c a expected where c: "cp_actor op = actor_id who" "validate (en_readers en) op = Inr c" "cp_expected op = Some expected"
    and a: "List.find (\<lambda>a. visible x (as_org a) \<and> as_id a = cp_entity_id op) (assets db) = Some a"
    and r: "(if as_version a \<noteq> expected then record_conflict (u 0) x who op expected a db
             else rbind (run_command en u x op c db) (\<lambda>(v, db'). Inr (APPLIED, Domain_result (en_encode en v), db')))
            = Inr (s, res, db')"
    using assms True by (auto simp: decide_def Let_def ensure_Inr_iff rbind_Inr_iff [of "validate _ _"]
      rbind_Inr_iff [of "from_option _ _"] from_option_Inr_iff split: option.splits)
  have entity: "cp_entity op = lit ''ASSET''"
    using c(2) True by (auto simp: validate_def Let_def ensure_Inr_iff)
  show ?thesis
  proof (cases "as_version a = expected")
    case True
    then show ?thesis using r c a applied [of c] by (auto simp: rbind_Inr_iff)
  next
    case False
    then show ?thesis using r c(1,3) a stale [of expected a] \<open>cp_kind op \<in> VERSIONED\<close> entity by simp
  qed
next
  case False
  then show ?thesis using assms applied
    by (auto simp: decide_def Let_def ensure_Inr_iff rbind_Inr_iff)
qed

lemma insert_conflict_Inr:
  assumes "insert_conflict x new db = Inr (c, db')"
  shows "db' = db\<lparr>sync_conflicts := sync_conflicts db @ [c]\<rparr>"
    "c = new\<lparr>sc_actor := sc_actor c, sc_recorded := At (x_now x)\<rparr>"
    "current_authenticated_actor x db = Inr (sc_actor c)" "sc_id c \<notin> sc_id ` set (sync_conflicts db)"
    "sc_expected_version c \<noteq> sc_current_version c" "sc_expected_version c > 0"
    "Some (sc_expected c) = capture_asset_facts x db (sc_asset c) (sc_expected_version c)"
    "Some (sc_current c) = capture_asset_facts x db (sc_asset c) (sc_current_version c)"
proof -
  obtain performer and a :: asset_row where g: "current_authenticated_actor x db = Inr performer"
    and c: "c = new\<lparr>sc_actor := performer, sc_recorded := At (x_now x)\<rparr>"
    and a: "as_version a = sc_current_version c"
    "Some (sc_expected c) = capture_asset_facts x db (sc_asset c) (sc_expected_version c)"
    "Some (sc_current c) = capture_asset_facts x db (sc_asset c) (as_version a)"
    and i: "conflict_check c" "\<forall>d \<in> set (sync_conflicts db). sc_id d \<noteq> sc_id c \<and> sc_operation d \<noteq> sc_operation c"
    "db' = db\<lparr>sync_conflicts := sync_conflicts db @ [c]\<rparr>"
    using assms unfolding insert_conflict_def guard_sync_conflict_def Let_def rbind_Inr_iff ensure_Inr_iff
    by (auto split: option.splits simp: ensure_Inr_iff)
  show "db' = db\<lparr>sync_conflicts := sync_conflicts db @ [c]\<rparr>" by (rule i(3))
  show "c = new\<lparr>sc_actor := sc_actor c, sc_recorded := At (x_now x)\<rparr>" by (simp add: c)
  show "current_authenticated_actor x db = Inr (sc_actor c)" by (simp add: g c)
  show "sc_id c \<notin> sc_id ` set (sync_conflicts db)" using i(2) by auto
  show "sc_expected_version c \<noteq> sc_current_version c" "sc_expected_version c > 0" using i(1) by (simp_all add: conflict_check_def)
  show "Some (sc_expected c) = capture_asset_facts x db (sc_asset c) (sc_expected_version c)" by (rule a(2))
  show "Some (sc_current c) = capture_asset_facts x db (sc_asset c) (sc_current_version c)" using a(1,3) by simp
qed

lemma record_conflict_Inr:
  assumes "record_conflict i x who op expected a db = Inr (s, res, db')"
  obtains c where "s = REJECTED" "res = Conflict_result i (sc_expected c) (sc_current c)"
    "insert_conflict x
       \<lparr>sc_id = i, sc_org = organization_id who, sc_operation = cp_operation op, sc_asset = as_id a,
        sc_expected_version = expected, sc_current_version = as_version a, sc_expected = facts x db a expected,
        sc_current = facts x db a (as_version a), sc_actor = 0, sc_occurred = cp_occurred op, sc_recorded = At 0\<rparr> db
      = Inr (c, db')"
    "sc_id c = i" "sc_org c = organization_id who" "sc_operation c = cp_operation op" "sc_asset c = as_id a"
    "sc_expected_version c = expected" "sc_current_version c = as_version a" "sc_occurred c = cp_occurred op"
proof -
  obtain c where c: "insert_conflict x
       \<lparr>sc_id = i, sc_org = organization_id who, sc_operation = cp_operation op, sc_asset = as_id a,
        sc_expected_version = expected, sc_current_version = as_version a, sc_expected = facts x db a expected,
        sc_current = facts x db a (as_version a), sc_actor = 0, sc_occurred = cp_occurred op, sc_recorded = At 0\<rparr> db
      = Inr (c, db')" (is "insert_conflict x ?new db = _")
    and r: "s = REJECTED" "res = Conflict_result i (facts x db a expected) (facts x db a (as_version a))"
    using assms by (auto simp: record_conflict_def Let_def rbind_Inr_iff)
  note e = insert_conflict_Inr(2) [OF c]
  have "sc_expected c = facts x db a expected" "sc_current c = facts x db a (as_version a)" "sc_id c = i"
    "sc_org c = organization_id who" "sc_operation c = cp_operation op" "sc_asset c = as_id a"
    "sc_expected_version c = expected" "sc_current_version c = as_version a" "sc_occurred c = cp_occurred op"
    by (subst e, simp)+
  then show ?thesis using that [OF r(1) _ c] r(2) by simp
qed

lemma insert_operation_Inr:
  assumes "insert_operation en x new db = Inr (q, db')"
  shows "db' = db\<lparr>capture_operations := capture_operations db @ [q]\<rparr>"
    "q = new\<lparr>co_actor := co_actor q, co_recorded := At (x_now x)\<rparr>"
    "current_authenticated_actor x db = Inr (co_actor q)" "visible x (co_org q)" "operation_check en q"
    "co_operation q \<notin> co_operation ` set (capture_operations db)"
    "\<exists>s \<in> set (capture_streams db). of_stream (co_org q) (co_client q) (co_epoch q) s"
  using assms unfolding insert_operation_def Let_def rbind_Inr_iff ensure_Inr_iff by auto

lemma attempt_Inr:
  assumes "attempt en u x who op db = Inr (s, res, db')"
  obtains (decided) "decide en u x who op db = Inr (s, res, db')"
  | (failed) e k where "decide en u x who op db = Inl e" "failure_class e = Some k" "s = REJECTED"
      "res = Failure_result k" "db' = db"
  using assms by (auto simp: attempt_def split: sum.splits option.splits)

lemma process_Inr:
  assumes "process en u x who op db = Inr (r, db')"
  obtains
    (replay) q where "find_operation x db (cp_operation op) = Some q" "co_actor q = actor_id who" "r = out True q" "db' = db"
  | (fresh) flags db1 s res db2 q where "find_operation x db (cp_operation op) = None"
      "sequence x who op db = Inr (flags, db1)" "attempt en u x who op db1 = Inr (s, res, db2)"
      "insert_operation en x (operation_record who op s res flags) db2 = Inr (q, db')" "r = out False q"
proof (cases "find_operation x db (cp_operation op)")
  case (Some q)
  have "co_actor q = actor_id who \<and> Inr (out True q, db) = (Inr (r, db') :: py_error + outcome \<times> fleet)"
    using assms unfolding process_def Some option.case ensure_Inr_iff .
  then show ?thesis using replay [OF Some] by simp
next
  case None
  then have m: "rbind (sequence x who op db) (\<lambda>(flags, db1).
          rbind (attempt en u x who op db1) (\<lambda>(s, res, db2).
          rbind (map_error DBError (insert_operation en x (operation_record who op s res flags) db2)) (\<lambda>(r, db3).
            Inr (out False r, db3)))) = Inr (r, db')"
    using assms by (simp add: process_def)
  obtain flags db1 where f: "sequence x who op db = Inr (flags, db1)"
    and m1: "rbind (attempt en u x who op db1) (\<lambda>(s, res, db2).
          rbind (map_error DBError (insert_operation en x (operation_record who op s res flags) db2)) (\<lambda>(r, db3).
            Inr (out False r, db3))) = Inr (r, db')"
    using m by (cases "sequence x who op db") auto
  obtain s res db2 where a: "attempt en u x who op db1 = Inr (s, res, db2)"
    and m2: "rbind (map_error DBError (insert_operation en x (operation_record who op s res flags) db2)) (\<lambda>(r, db3).
            Inr (out False r, db3)) = Inr (r, db')"
    using m1 by (cases "attempt en u x who op db1") auto
  obtain q where "insert_operation en x (operation_record who op s res flags) db2 = Inr (q, db')" "r = out False q"
    using m2 by (cases "insert_operation en x (operation_record who op s res flags) db2") auto
  then show ?thesis by (rule fresh [OF None f a])
qed

end
