(* ===== verification/CaptureInvariant.thy ===== *)
theory CaptureInvariant
  imports CaptureRun
begin

text \<open>
  The invariant of the capture tables: one row per stream, whose number is the highest sequence
  recorded in it; flags that say how each record stood to the ones before it; and a rejected record
  behind every conflict.
\<close>

section \<open>Streams\<close>

lemma open_stream_Inr:
  assumes "open_stream x org client epoch db = Inr db1"
  shows "visible x org"
    "db1 = db \<and> (\<exists>t \<in> set (capture_streams db). of_stream org client epoch t)
     \<or> (\<exists>s. db1 = db\<lparr>capture_streams := capture_streams db @ [s]\<rparr> \<and> of_stream org client epoch s \<and> sm_last s = 0
          \<and> \<not> (\<exists>t \<in> set (capture_streams db). of_stream org client epoch t))"
proof -
  show v: "visible x org"
    using assms by (auto simp: open_stream_def guard_new_stream_def rbind_Inr_iff ensure_Inr_iff)
  show "db1 = db \<and> (\<exists>t \<in> set (capture_streams db). of_stream org client epoch t)
     \<or> (\<exists>s. db1 = db\<lparr>capture_streams := capture_streams db @ [s]\<rparr> \<and> of_stream org client epoch s \<and> sm_last s = 0
          \<and> \<not> (\<exists>t \<in> set (capture_streams db). of_stream org client epoch t))"
  proof (cases "\<exists>t \<in> set (capture_streams db). of_stream org client epoch t")
    case True
    then show ?thesis using assms by (auto simp: open_stream_def rbind_Inr_iff ensure_Inr_iff)
  next
    case False
    then obtain performer where "db1 = db\<lparr>capture_streams := capture_streams db @
        [\<lparr>sm_org = org, sm_client = client, sm_epoch = epoch, sm_last = 0, sm_actor = performer\<rparr>]\<rparr>" (is "_ = db\<lparr>capture_streams := _ @ [?s]\<rparr>")
      using assms unfolding open_stream_def guard_new_stream_def if_not_P [OF False] by (auto simp: rbind_Inr_iff ensure_Inr_iff)
    moreover have "of_stream org client epoch ?s" "sm_last ?s = 0" by (simp_all add: of_stream_def)
    ultimately show ?thesis using False by blast
  qed
qed

lemma advance_stream_Inr:
  assumes "advance_stream x s n db = Inr db1"
  shows "db1 = db\<lparr>capture_streams := map (\<lambda>t. if of_stream (sm_org s) (sm_client s) (sm_epoch s) t
            then s\<lparr>sm_last := n\<rparr> else t) (capture_streams db)\<rparr>"
    "current_authenticated_actor x db = Inr (sm_actor s)"
  using assms by (auto simp: advance_stream_def guard_stream_update_def Let_def result_simps)

lemma sequence_Inr:
  assumes "sequence x who op db = Inr (fs, db1)"
  obtains s ss where "visible x (organization_id who)" "current_authenticated_actor x db = Inr (actor_id who)"
    "of_stream (organization_id who) (cp_client op) (cp_epoch op) s"
    "ss = capture_streams db \<and> List.find (of_stream (organization_id who) (cp_client op) (cp_epoch op)) ss = Some s
     \<or> ss = capture_streams db @ [s] \<and> sm_last s = 0
       \<and> List.find (of_stream (organization_id who) (cp_client op) (cp_epoch op)) (capture_streams db) = None"
    "fs = sequence_flags (sm_last s) (cp_seq op)"
    "db1 = db\<lparr>capture_streams := map (\<lambda>t. if of_stream (organization_id who) (cp_client op) (cp_epoch op) t
            then s\<lparr>sm_last := max (cp_seq op) (sm_last s)\<rparr> else t) ss\<rparr>"
proof -
  let ?org = "organization_id who" and ?key = "of_stream (organization_id who) (cp_client op) (cp_epoch op)"
  obtain db0 s where o: "open_stream x ?org (cp_client op) (cp_epoch op) db = Inr db0"
    and f: "List.find (\<lambda>s. visible x (sm_org s) \<and> ?key s) (capture_streams db0) = Some s"
    and a: "sm_actor s = actor_id who" "advance_stream x s (max (cp_seq op) (sm_last s)) db0 = Inr db1"
    and fs: "fs = sequence_flags (sm_last s) (cp_seq op)"
    using assms by (auto simp: sequence_def Let_def rbind_Inr_iff ensure_Inr_iff from_option_Inr_iff)
  note open' = open_stream_Inr [OF o]
  have vis: "(\<lambda>s. visible x (sm_org s) \<and> ?key s) = ?key" using open'(1) by (auto simp: of_stream_def fun_eq_iff)
  have s: "?key s" using f find_Some_in [of ?key] unfolding vis by blast
  have same: "current_authenticated_actor x db0 = current_authenticated_actor x db"
    using open'(2) by (intro current_actor_cong) auto
  have db1: "db1 = db0\<lparr>capture_streams := map (\<lambda>t. if ?key t then s\<lparr>sm_last := max (cp_seq op) (sm_last s)\<rparr> else t)
      (capture_streams db0)\<rparr>"
    using advance_stream_Inr(1) [OF a(2)] s by (simp add: of_stream_def)
  have actor: "current_authenticated_actor x db = Inr (actor_id who)"
    using advance_stream_Inr(2) [OF a(2)] a(1) same by simp
  from open'(2) consider "db0 = db" | n where "db0 = db\<lparr>capture_streams := capture_streams db @ [n]\<rparr>" "?key n"
    "sm_last n = 0" "\<forall>t \<in> set (capture_streams db). \<not> ?key t" by blast
  then show ?thesis
  proof cases
    case 1
    then show ?thesis using that [OF open'(1) actor s _ fs, of "capture_streams db"] f db1 unfolding vis by simp
  next
    case 2
    then have none: "List.find ?key (capture_streams db) = None" by (simp add: find_None_iff)
    then have "s = n" using f 2(1,2) unfolding vis by (simp add: find_append)
    then show ?thesis using that [OF open'(1) actor s _ fs, of "capture_streams db @ [n]"] none 2(1,3) db1 by simp
  qed
qed

definition highest :: "uuid \<Rightarrow> uuid \<Rightarrow> uuid \<Rightarrow> operation_row list \<Rightarrow> int" where
  "highest org client epoch rows =
     fold max (map co_seq (filter (\<lambda>r. co_org r = org \<and> co_client r = client \<and> co_epoch r = epoch) rows)) 0"

definition in_stream :: "operation_row \<Rightarrow> stream_row \<Rightarrow> bool" where
  "in_stream r = of_stream (co_org r) (co_client r) (co_epoch r)"

definition flags_exact :: "operation_row list \<Rightarrow> bool" where
  "flags_exact rows \<longleftrightarrow>
     (\<forall>i < length rows. co_flags (rows ! i) =
        sequence_flags (highest (co_org (rows ! i)) (co_client (rows ! i)) (co_epoch (rows ! i)) (take i rows))
          (co_seq (rows ! i)))"

definition stream_key :: "stream_row \<Rightarrow> uuid \<times> uuid \<times> uuid" where
  "stream_key s = (sm_org s, sm_client s, sm_epoch s)"

definition streams_ok :: "stream_row list \<Rightarrow> operation_row list \<Rightarrow> bool" where
  "streams_ok ss rows \<longleftrightarrow> distinct (map stream_key ss)
     \<and> (\<forall>s \<in> set ss. sm_last s = highest (sm_org s) (sm_client s) (sm_epoch s) rows \<and> sm_last s \<le> int8_max)
     \<and> (\<forall>r \<in> set rows. \<exists>s \<in> set ss. in_stream r s)"

definition capture_ok :: "fleet \<Rightarrow> bool" where
  "capture_ok db \<longleftrightarrow> streams_ok (capture_streams db) (capture_operations db) \<and> flags_exact (capture_operations db)
     \<and> distinct (map co_operation (capture_operations db)) \<and> (\<forall>c \<in> set (sync_conflicts db). conflict_origin_ok db c)"

lemma of_stream_key: "of_stream org c e s \<longleftrightarrow> stream_key s = (org, c, e)"
  by (auto simp: of_stream_def stream_key_def)

lemma highest_snoc:
  "highest org c e (rows @ [r]) =
     (if co_org r = org \<and> co_client r = c \<and> co_epoch r = e then max (co_seq r) (highest org c e rows)
      else highest org c e rows)"
  by (simp add: highest_def)

lemma fold_max_ge: "fold max xs n \<ge> n" for n :: int
  by (induction xs arbitrary: n) (auto intro: order_trans [OF max.cobounded2])

lemma highest_nonneg [simp]: "0 \<le> highest org c e rows"
  by (simp add: highest_def fold_max_ge)

lemma highest_none:
  assumes "\<forall>r \<in> set rows. \<not> (co_org r = org \<and> co_client r = c \<and> co_epoch r = e)"
  shows "highest org c e rows = 0"
  using assms by (simp add: highest_def filter_empty_conv)

lemma flags_exact_snoc:
  "flags_exact (rows @ [r]) \<longleftrightarrow> flags_exact rows
     \<and> co_flags r = sequence_flags (highest (co_org r) (co_client r) (co_epoch r) rows) (co_seq r)"
  by (auto simp: flags_exact_def nth_append less_Suc_eq)

lemma streams_advance:
  assumes ok: "streams_ok ss rows" and s: "s \<in> set ss" "in_stream r s"
    and seq: "co_seq r \<le> int8_max"
  shows "streams_ok (map (\<lambda>t. if in_stream r t then s\<lparr>sm_last := max (co_seq r) (sm_last s)\<rparr> else t) ss) (rows @ [r])"
    (is "streams_ok (map ?f ss) _")
proof -
  have key: "stream_key (?f t) = stream_key t" for t
    using s(2) by (auto simp: in_stream_def of_stream_def stream_key_def)
  have keys: "map stream_key (map ?f ss) = map stream_key ss" by (simp add: key)
  have each: "sm_last (?f t) = highest (sm_org (?f t)) (sm_client (?f t)) (sm_epoch (?f t)) (rows @ [r])
      \<and> sm_last (?f t) \<le> int8_max" if t: "t \<in> set ss" for t
  proof (cases "in_stream r t")
    case True
    then show ?thesis using ok s seq by (auto simp: streams_ok_def in_stream_def of_stream_def highest_snoc)
  next
    case False
    then show ?thesis using ok t by (auto simp: streams_ok_def in_stream_def of_stream_def highest_snoc)
  qed
  have "\<exists>u \<in> set (map ?f ss). in_stream q u" if q: "q \<in> set (rows @ [r])" for q
  proof -
    have "\<exists>t \<in> set ss. in_stream q t" using q ok s by (auto simp: streams_ok_def)
    then obtain t where t: "t \<in> set ss" "in_stream q t" by blast
    then have "in_stream q (?f t)" using key [of t] by (simp add: in_stream_def of_stream_key)
    moreover have "?f t \<in> set (map ?f ss)" using t(1) unfolding set_map by (rule imageI)
    ultimately show ?thesis by blast
  qed
  moreover have "\<forall>u \<in> set (map ?f ss). sm_last u = highest (sm_org u) (sm_client u) (sm_epoch u) (rows @ [r])
      \<and> sm_last u \<le> int8_max"
    using each unfolding set_map by blast
  ultimately show ?thesis using ok unfolding streams_ok_def keys by blast
qed

lemma streams_open:
  assumes ok: "streams_ok ss rows" and n: "sm_last s = 0" "stream_key s \<notin> stream_key ` set ss"
  shows "streams_ok (ss @ [s]) rows"
proof -
  have "\<not> (co_org r = sm_org s \<and> co_client r = sm_client s \<and> co_epoch r = sm_epoch s)" if r: "r \<in> set rows" for r
  proof
    assume k: "co_org r = sm_org s \<and> co_client r = sm_client s \<and> co_epoch r = sm_epoch s"
    obtain t where "t \<in> set ss" "in_stream r t" using ok r by (auto simp: streams_ok_def)
    then have "stream_key s \<in> stream_key ` set ss"
      using k by (intro image_eqI [of _ _ t]) (auto simp: in_stream_def of_stream_def stream_key_def)
    then show False using n(2) by simp
  qed
  then have "highest (sm_org s) (sm_client s) (sm_epoch s) rows = 0" using highest_none by blast
  then show ?thesis using ok n by (auto simp: streams_ok_def int8_max_def)
qed

section \<open>Records\<close>

lemma verdict_tables:
  assumes "attempt en u x who op db = Inr (s, res, db')"
  shows "capture_streams db' = capture_streams db \<and> capture_operations db' = capture_operations db
     \<and> same_identity db db'
     \<and> (sync_conflicts db' = sync_conflicts db
        \<or> (\<exists>a expected c. record_conflict (u 0) x who op expected a db = Inr (s, res, db') \<and> cp_kind op \<in> VERSIONED
             \<and> as_id a = cp_entity_id op \<and> cp_expected op = Some expected \<and> cp_actor op = actor_id who
             \<and> cp_entity op = lit ''ASSET'' \<and> sync_conflicts db' = sync_conflicts db @ [c]))"
  using assms
proof (cases rule: attempt_Inr)
  case decided
  then show ?thesis
  proof (cases rule: decide_Inr)
    case (applied c v)
    then show ?thesis using run_command_step by (simp add: service_step_def same_capture_def)
  next
    case (stale a expected)
    obtain c where db': "db' = db\<lparr>sync_conflicts := sync_conflicts db @ [c]\<rparr>"
      by (rule record_conflict_Inr [OF stale(1)]) (rule that, rule insert_conflict_Inr(1))
    have t: "capture_streams db' = capture_streams db \<and> capture_operations db' = capture_operations db
        \<and> same_identity db db'" "sync_conflicts db' = sync_conflicts db @ [c]"
      by (simp_all add: db' same_identity_def)
    have "as_id a = cp_entity_id op" using find_Some_in [OF stale(3)] by simp
    then show ?thesis using t stale by blast
  qed
next
  case failed
  then show ?thesis by (simp add: same_identity_def)
qed

lemma recorded_row:
  assumes "insert_operation en x (operation_record who op s res fs) db = Inr (q, db')"
  shows "co_operation q = cp_operation op" "co_org q = organization_id who" "co_claimed q = cp_actor op"
    "co_client q = cp_client op" "co_epoch q = cp_epoch op" "co_seq q = cp_seq op" "co_entity q = cp_entity op"
    "co_entity_id q = cp_entity_id op" "co_expected q = cp_expected op" "co_kind q = cp_kind op"
    "co_occurred q = cp_occurred op" "co_state q = s" "co_result q = res" "co_flags q = fs" "co_payload q = cp_payload op"
  by (subst insert_operation_Inr(2) [OF assms], simp add: operation_record_def)+

lemma origin_mono:
  assumes "conflict_origin_ok db c" "set (capture_operations db) \<subseteq> set (capture_operations db')"
  shows "conflict_origin_ok db' c"
  using assms unfolding conflict_origin_ok_def by blast

lemma record_conflict_origin:
  assumes c: "record_conflict i x who op expected a db = Inr (s, res, db')"
    and op: "cp_kind op \<in> VERSIONED" "as_id a = cp_entity_id op" "cp_expected op = Some expected"
    "cp_actor op = actor_id who" "cp_entity op = lit ''ASSET''"
    and actor: "current_authenticated_actor x db = Inr (actor_id who)" "current_authenticated_actor x db2 = Inr (actor_id who)"
    and q: "insert_operation en x (operation_record who op s res fs) db2 = Inr (q, db3)"
  shows "\<exists>c. db' = db\<lparr>sync_conflicts := sync_conflicts db @ [c]\<rparr> \<and> conflict_origin_ok db3 c"
proof (rule record_conflict_Inr [OF c])
  fix c
  assume st: "s = REJECTED" and res: "res = Conflict_result i (sc_expected c) (sc_current c)"
    and ins: "insert_conflict x
       \<lparr>sc_id = i, sc_org = organization_id who, sc_operation = cp_operation op, sc_asset = as_id a,
        sc_expected_version = expected, sc_current_version = as_version a, sc_expected = facts x db a expected,
        sc_current = facts x db a (as_version a), sc_actor = 0, sc_occurred = cp_occurred op, sc_recorded = At 0\<rparr> db
      = Inr (c, db')"
    and f: "sc_id c = i" "sc_org c = organization_id who" "sc_operation c = cp_operation op" "sc_asset c = as_id a"
    "sc_expected_version c = expected" "sc_current_version c = as_version a" "sc_occurred c = cp_occurred op"
  have "sc_actor c = actor_id who" using insert_conflict_Inr(3) [OF ins] actor(1) by simp
  moreover have "co_actor q = actor_id who" using insert_operation_Inr(3) [OF q] actor(2) by simp
  moreover have "q \<in> set (capture_operations db3)" by (simp add: insert_operation_Inr(1) [OF q])
  ultimately have "conflict_origin_ok db3 c"
    unfolding conflict_origin_ok_def
    by (intro bexI [of _ q]) (use op st res f recorded_row [OF q] in \<open>simp_all add: VERSIONED_def\<close>)
  then show ?thesis using insert_conflict_Inr(1) [OF ins] by blast
qed

text \<open>The stream an operation is sequenced in: an existing one of its key, or one just opened.\<close>

lemma sequenced_streams_ok:
  assumes ok: "streams_ok (capture_streams db) rows" and s: "of_stream o1 c1 e1 s"
    and found: "ss = capture_streams db \<and> List.find (of_stream o1 c1 e1) ss = Some s
     \<or> ss = capture_streams db @ [s] \<and> sm_last s = 0 \<and> List.find (of_stream o1 c1 e1) (capture_streams db) = None"
  shows "streams_ok ss rows" "s \<in> set ss" "sm_last s = highest o1 c1 e1 rows"
proof -
  have new: "stream_key s \<notin> stream_key ` set (capture_streams db)"
    if "List.find (of_stream o1 c1 e1) (capture_streams db) = None"
    using that s by (force simp: of_stream_key find_None_iff)
  show st: "streams_ok ss rows" using found ok streams_open [OF ok _ new] by auto
  show mem: "s \<in> set ss" using found by (auto dest: find_Some_in)
  show "sm_last s = highest o1 c1 e1 rows" using st mem s by (auto simp: streams_ok_def of_stream_def)
qed

text \<open>The conflicts after an attempt and its record: the old ones, and one the new record answers for.\<close>

lemma attempt_conflicts_ok:
  assumes att: "attempt en u x who op db = Inr (st, res, db2)"
    and q: "insert_operation en x (operation_record who op st res fs) db2 = Inr (q, db3)"
    and actor: "current_authenticated_actor x db = Inr (actor_id who)"
    and old: "\<And>c. c \<in> set (sync_conflicts db) \<Longrightarrow> conflict_origin_ok db3 c"
  shows "\<forall>c \<in> set (sync_conflicts db3). conflict_origin_ok db3 c"
proof -
  note v = verdict_tables [OF att] and db3 = insert_operation_Inr(1) [OF q]
  have actor2: "current_authenticated_actor x db2 = Inr (actor_id who)"
    using v same_identity_actor actor by metis
  from v consider "sync_conflicts db2 = sync_conflicts db"
    | a expected where "record_conflict (u 0) x who op expected a db = Inr (st, res, db2)" "cp_kind op \<in> VERSIONED"
      "as_id a = cp_entity_id op" "cp_expected op = Some expected" "cp_actor op = actor_id who" "cp_entity op = lit ''ASSET''"
    by blast
  then show ?thesis
  proof cases
    case 1
    then show ?thesis using old by (simp add: db3)
  next
    case 2
    then obtain c where "db2 = db\<lparr>sync_conflicts := sync_conflicts db @ [c]\<rparr>" "conflict_origin_ok db3 c"
      using record_conflict_origin [OF 2 actor actor2 q] by blast
    then show ?thesis using old by (auto simp: db3)
  qed
qed

lemma process_keeps:
  assumes p: "process en u x who op db = Inr (r, db')" and ok: "capture_ok db" and seq: "cp_seq op \<le> int8_max"
  shows "capture_ok db'"
  using p
proof (cases rule: process_Inr)
  case replay
  then show ?thesis using ok by simp
next
  case (fresh fs db1 st res db2 q)
  let ?key = "of_stream (organization_id who) (cp_client op) (cp_epoch op)" and ?rows = "capture_operations db"
  obtain s ss where actor: "current_authenticated_actor x db = Inr (actor_id who)" and s: "?key s"
    and found: "ss = capture_streams db \<and> List.find ?key ss = Some s
     \<or> ss = capture_streams db @ [s] \<and> sm_last s = 0 \<and> List.find ?key (capture_streams db) = None"
    and fs: "fs = sequence_flags (sm_last s) (cp_seq op)"
    and db1: "db1 = db\<lparr>capture_streams := map (\<lambda>t. if ?key t then s\<lparr>sm_last := max (cp_seq op) (sm_last s)\<rparr> else t) ss\<rparr>"
    by (rule sequence_Inr [OF fresh(2)])
  note row = recorded_row [OF fresh(4)] and db' = insert_operation_Inr(1) [OF fresh(4)]
    and v = verdict_tables [OF fresh(3)]
  have "streams_ok (capture_streams db) ?rows" using ok by (simp add: capture_ok_def)
  note ss = sequenced_streams_ok [OF this s found]
  have key: "in_stream q = ?key" by (simp add: in_stream_def row)
  have rows: "capture_operations db' = ?rows @ [q]" using v by (simp add: db' db1)
  have st': "capture_streams db' = map (\<lambda>t. if in_stream q t then s\<lparr>sm_last := max (co_seq q) (sm_last s)\<rparr> else t) ss"
    using v by (simp add: db' db1 key row)
  have "streams_ok (capture_streams db') (capture_operations db')"
    unfolding st' rows by (rule streams_advance [OF ss(1,2)]) (use s seq in \<open>simp_all add: key row\<close>)
  moreover have "flags_exact (capture_operations db')"
    using ok ss(3) by (simp add: rows flags_exact_snoc capture_ok_def row fs)
  moreover have "distinct (map co_operation (capture_operations db'))"
    using ok insert_operation_Inr(6) [OF fresh(4)] v by (auto simp: rows capture_ok_def db1)
  moreover have "\<forall>c \<in> set (sync_conflicts db'). conflict_origin_ok db' c"
  proof (rule attempt_conflicts_ok [OF fresh(3,4)])
    show "current_authenticated_actor x db1 = Inr (actor_id who)"
      using current_actor_cong [of db1 db x] actor by (simp add: db1)
    fix c assume "c \<in> set (sync_conflicts db1)"
    then have "conflict_origin_ok db c" using ok unfolding capture_ok_def db1 by simp
    then show "conflict_origin_ok db' c" by (rule origin_mono) (auto simp: rows)
  qed
  ultimately show ?thesis by (simp add: capture_ok_def)
qed

section \<open>Batches\<close>

lemma transaction_Inr:
  assumes "transaction en token t op db = Inr (r, db')"
  obtains x who where "authenticated (en_sha256 en) (tx_context t) db (Some token) = Inr (x, who)"
    "process en (tx_uuid7 t) x who op db = Inr (r, db')"
  using assms by (auto simp: transaction_def rbind_Inr_iff commit_capture_def commit_histories_def ensure_Inr_iff)

lemma run_batch_keeps:
  assumes "\<And>i op db r db'. (i, op) \<in> set es \<Longrightarrow> transaction en token (ts i) op db = Inr (r, db') \<Longrightarrow> P db \<Longrightarrow> P db'"
    and "P db"
  shows "P (snd (run_batch en token ts es responses db))"
  using assms
proof (induction es arbitrary: responses db)
  case (Cons e es)
  obtain i op where e: "e = (i, op)" by force
  have IH: "P (snd (run_batch en token ts es rs d))" if "P d" for d rs
    by (rule Cons.IH [OF _ that]) (rule Cons.prems(1), rule list.set_intros(2))
  show ?case
  proof (cases "transaction en token (ts i) op db")
    case (Inl f)
    then show ?thesis using IH Cons.prems(2) by (simp add: e)
  next
    case (Inr s)
    obtain r db' where s: "s = (r, db')" by force
    have "P db'" using Cons.prems(1) [of i op db r db'] Cons.prems(2) Inr by (simp add: e s)
    then show ?thesis using IH by (simp add: e Inr s)
  qed
qed simp

text \<open>What every answered operation satisfies, at its position.\<close>

lemma run_batch_answers:
  assumes "run_batch en token ts es responses db = (Inr rs, db')" "distinct (map fst es)"
    "\<forall>i \<in> fst ` set es. i < length responses"
    and Q: "\<And>i op db r db'. (i, op) \<in> set es \<Longrightarrow> transaction en token (ts i) op db = Inr (r, db') \<Longrightarrow> Q i op r"
    "\<And>i op. (i, op) \<in> set es \<Longrightarrow> Q i op (unavailable op)"
  shows "length rs = length responses \<and> (\<forall>i. i \<notin> fst ` set es \<longrightarrow> rs ! i = responses ! i)
     \<and> (\<forall>(i, op) \<in> set es. \<exists>r. rs ! i = Some r \<and> Q i op r)"
  using assms
proof (induction es arbitrary: responses db)
  case Nil
  then show ?case by simp
next
  case (Cons e es)
  obtain i op where e: "e = (i, op)" by force
  obtain r db1 where r: "run_batch en token ts es (responses[i := Some r]) db1 = (Inr rs, db')" "Q i op r"
    using Cons.prems(1,4,5) by (auto simp: e split: sum.splits prod.splits if_splits)
  have i: "i \<notin> fst ` set es" "i < length responses" using Cons.prems(2,3) by (auto simp: e)
  have "length rs = length responses \<and> (\<forall>j. j \<notin> fst ` set es \<longrightarrow> rs ! j = responses[i := Some r] ! j)
     \<and> (\<forall>(j, op) \<in> set es. \<exists>r. rs ! j = Some r \<and> Q j op r)"
    using Cons.IH [OF r(1)] Cons.prems(2-5) by (simp add: e)
  then show ?case using i r(2) by (auto simp: e nth_list_update)
qed

section \<open>Order\<close>

text \<open>The keys in the order of their first appearance.\<close>

definition firsts :: "('a \<Rightarrow> 'k) \<Rightarrow> 'a list \<Rightarrow> 'k list" where
  "firsts f xs = rev (remdups (rev (map f xs)))"

lemma firsts_snoc: "firsts f (xs @ [x]) = (if f x \<in> f ` set xs then firsts f xs else firsts f xs @ [f x])"
  by (simp add: firsts_def)

lemma firsts_facts [simp]: "distinct (firsts f xs)" "set (firsts f xs) = f ` set xs"
  by (simp_all add: firsts_def)

lemma dict_epoch_map:
  "distinct ks \<Longrightarrow> k \<in> set ks \<Longrightarrow>
     dict_set k v (map (\<lambda>k. (k, g k)) ks) = map (\<lambda>j. (j, if j = k then v else g j)) ks"
  by (induction ks) (auto intro!: map_cong)

lemma grouped: "fold (\<lambda>e. dict_append (f e) e) xs [] = map (\<lambda>k. (k, filter (\<lambda>e. f e = k) xs)) (firsts f xs)"
proof (induction xs rule: rev_induct)
  case Nil
  then show ?case by (simp add: firsts_def)
next
  case (snoc e xs)
  let ?d = "map (\<lambda>k. (k, filter (\<lambda>e. f e = k) xs)) (firsts f xs)"
  have step: "fold (\<lambda>e. dict_append (f e) e) (xs @ [e]) [] = dict_append (f e) e ?d" using snoc.IH by simp
  show ?case
  proof (cases "f e \<in> f ` set xs")
    case True
    then have "map_of ?d (f e) = Some (filter (\<lambda>d. f d = f e) xs)" by (simp add: map_of_map_restrict)
    then show ?thesis using True unfolding step
      by (auto simp: dict_append_def firsts_snoc dict_epoch_map intro!: map_cong)
  next
    case False
    then have "map_of ?d (f e) = None" by (simp add: map_of_eq_None_iff image_image)
    moreover have "filter (\<lambda>d. f d = f e) xs = []" using False unfolding filter_empty_conv by (metis image_eqI)
    ultimately show ?thesis using False unfolding step
      by (auto simp: dict_append_def firsts_snoc dict_set_new image_image intro!: map_cong)
  qed
qed

lemma filter_concat_groups:
  fixes g :: "'a list \<Rightarrow> 'a list"
  assumes "\<And>ys. set (g ys) = set ys" "distinct ks"
  shows "filter (\<lambda>e. f e = k) (concat (map (\<lambda>k. g (filter (\<lambda>e. f e = k) xs)) ks))
     = (if k \<in> set ks then g (filter (\<lambda>e. f e = k) xs) else [])"
  using assms(2)
proof (induction ks)
  case (Cons j ks)
  have "filter (\<lambda>e. f e = k) (g (filter (\<lambda>e. f e = j) xs)) = (if j = k then g (filter (\<lambda>e. f e = j) xs) else [])"
    using assms(1) [of "filter (\<lambda>e. f e = j) xs"] by (auto simp: filter_id_conv filter_empty_conv)
  then show ?case using Cons by auto
qed simp

lemma ordered_eq:
  "ordered queue = concat (map (\<lambda>k. sort_key (\<lambda>e. (cp_seq (snd e), fst e))
      (filter (\<lambda>e. epoch_of (snd e) = k) (List.enumerate 0 queue)))
      (firsts (\<lambda>e. epoch_of (snd e)) (List.enumerate 0 queue)))"
  by (simp add: ordered_def epoch_groups_def grouped comp_def)

lemma ordered_epoch:
  "filter (\<lambda>e. epoch_of (snd e) = k) (ordered queue)
     = sort_key (\<lambda>e. (cp_seq (snd e), fst e)) (filter (\<lambda>e. epoch_of (snd e) = k) (List.enumerate 0 queue))"
proof (cases "k \<in> (\<lambda>e. epoch_of (snd e)) ` set (List.enumerate 0 queue)")
  case True
  then show ?thesis unfolding ordered_eq by (subst filter_concat_groups) auto
next
  case False
  then have "filter (\<lambda>e. epoch_of (snd e) = k) (List.enumerate 0 queue) = []" by (force simp: filter_empty_conv)
  then show ?thesis using False unfolding ordered_eq by (subst filter_concat_groups) auto
qed

lemma mset_epochs:
  assumes "\<And>ys. mset (g ys) = mset ys" "set (map f xs) \<subseteq> set ks" "distinct ks"
  shows "mset (concat (map (\<lambda>k. g (filter (\<lambda>e. f e = k) xs)) ks)) = mset xs"
proof (rule multiset_eqI)
  fix e
  have "set (g ys) = set ys" for ys using assms(1) mset_eq_setD by metis
  then have "filter (\<lambda>d. f d = f e) (concat (map (\<lambda>k. g (filter (\<lambda>e. f e = k) xs)) ks))
      = (if f e \<in> set ks then g (filter (\<lambda>d. f d = f e) xs) else [])"
    using filter_concat_groups [OF _ assms(3)] by blast
  moreover have "count (mset (filter (\<lambda>d. f d = f e) ys)) e = count (mset ys) e" for ys by simp
  ultimately show "count (mset (concat (map (\<lambda>k. g (filter (\<lambda>e. f e = k) xs)) ks))) e = count (mset xs) e"
    using assms(1,2) by (metis (no_types, lifting) count_mset_0_iff image_eqI list.set_map mset.simps(1) count_empty subsetD)
qed

lemma mset_ordered: "mset (ordered queue) = mset (List.enumerate 0 queue)"
  unfolding ordered_eq by (rule mset_epochs) auto

lemma ordered_positions:
  "set (ordered queue) = set (List.enumerate 0 queue)" "distinct (map fst (ordered queue))"
proof -
  show "set (ordered queue) = set (List.enumerate 0 queue)" using mset_ordered mset_eq_setD by blast
  have "mset (map fst (ordered queue)) = mset (map fst (List.enumerate 0 queue))"
    by (simp only: mset_map mset_ordered)
  then have "distinct (map fst (ordered queue)) = distinct (map fst (List.enumerate 0 queue))"
    by (rule mset_eq_imp_distinct_iff)
  then show "distinct (map fst (ordered queue))" by simp
qed

end
