(* ===== verification/CaptureFacts.thy ===== *)
theory CaptureFacts
  imports CaptureInvariant
begin

text \<open>
  The facts of a version, read twice: by \<open>_facts\<close> in Python and by \<open>capture_asset_facts\<close> in SQL.
  They differ where an ownership row names no Party, which no reachable fleet has.
\<close>

definition owned :: "fleet \<Rightarrow> bool" where
  "owned db \<longleftrightarrow> (\<forall>h \<in> set (asset_ownership_changes db). h_to h \<noteq> None)"

lemma ownership_rows: "hc_rows ownership db = asset_ownership_changes db"
  by (simp add: ownership_def)

lemma write_other_rows: "untouched other cls \<Longrightarrow> hc_rows other (write_db cls ns who db) = hc_rows other db"
  by (simp add: write_db_def untouched_def untouched_add_rows)

lemma write_ownership_rows:
  "asset_ownership_changes (write_db ownership ns who db) = asset_ownership_changes db @ ns"
proof -
  have "asset_ownership_changes (add_rows ownership ns db) = asset_ownership_changes db @ ns"
    by (induction ns arbitrary: db) (simp_all add: ownership_def)
  then show ?thesis by (simp add: write_db_def)
qed

lemma event_other_ownership:
  assumes "untouched ownership cls" "record_event cls x n db = Inr (g, db')"
  shows "asset_ownership_changes db' = asset_ownership_changes db"
  using record_event_Inr(2) [OF assms(2)] write_other_rows [OF assms(1)] by (simp add: ownership_rows)

lemma correction_other_ownership:
  assumes "untouched ownership cls" "record_pair cls x v c db = Inr (g, db')" "of_asset (h_org c) (h_asset c) v"
  shows "asset_ownership_changes db' = asset_ownership_changes db"
  using record_pair_Inr(2) [OF assms(2,3)] write_other_rows [OF assms(1)] by (simp add: ownership_rows)

lemma insert_owned: "insert_history ownership x n db = Inr db' \<Longrightarrow> h_to n \<noteq> None"
  using insert_history_Inr(7) [of ownership x n db db'] by (simp add: ownership_def)

lemma correction_sql_other:
  assumes u: "untouched ownership cls" and c: "correction_sql cls x i r e t why w o' ids ev db = Inr (g, db')"
  shows "asset_ownership_changes db' = asset_ownership_changes db"
proof -
  obtain org actor a original hd' prior why tm pair rid cid g' v2 where
    head: "find_head (hc_rows cls db) org i r = Some hd'"
    and rp: "record_pair cls x (reversal_row x hd' a r actor why tm pair g' rid)
       (corrected_row x hd' r actor why v2 tm pair g' cid prior t ev o') db = Inr (g, db')"
    using correction_sql_Inr [OF c] by metis
  have "of_asset (h_org (corrected_row x hd' r actor why v2 tm pair g' cid prior t ev o'))
      (h_asset (corrected_row x hd' r actor why v2 tm pair g' cid prior t ev o'))
      (reversal_row x hd' a r actor why tm pair g' rid)"
    by (simp add: reversal_row_def corrected_row_def correction_row_def of_asset_def)
  from correction_other_ownership [OF u rp this] show ?thesis .
qed

lemma asset_step_owned:
  assumes "asset_step x i v db db'" "fleet_ok db" "owned db"
  shows "owned db'"
proof -
  have same: "owned db'" if "asset_ownership_changes db' = asset_ownership_changes db"
    using assms(3) that by (simp add: owned_def)
  show ?thesis
    using assms(1)
  proof (cases rule: asset_step.cases)
    case transition
    then show ?thesis
      by (elim transition_asset_Inr) (rule same, rule event_other_ownership [OF untouched_classes(13)])
  next
    case move
    then show ?thesis unfolding move_asset_def
      by (elim operation_sql_Inr) (rule same, rule event_other_ownership [OF untouched_classes(14)])
  next
    case change_custody
    then show ?thesis unfolding change_custody_def
      by (elim operation_sql_Inr) (rule same, rule event_other_ownership [OF untouched_classes(15)])
  next
    case change_ownership
    then obtain n m where r: "record_event ownership x n db = Inr (m, db')"
      unfolding change_ownership_def by (elim operation_sql_Inr) (rule that)
    show ?thesis
      using assms(3) insert_owned [OF record_event_Inr(3) [OF r]] record_event_Inr(2) [OF r]
      by (auto simp: owned_def write_ownership_rows)
  next
    case assign
    then show ?thesis unfolding assign_asset_def
      by (elim assignment_sql_Inr) (rule same, rule event_other_ownership [OF untouched_classes(16)])
  next
    case unassign
    then show ?thesis unfolding unassign_asset_def
      by (elim assignment_sql_Inr) (rule same, rule event_other_ownership [OF untouched_classes(16)])
  next
    case (correct_ownership r p w c o' ids g)
    obtain org rv where o: "of_asset org i rv" "of_asset org i g" and rp: "record_pair ownership x rv g db = Inr (g, db')"
      using owner_fleet.correction_rows [OF assms(2) correct_ownership [unfolded correct_ownership_def]]
      by (metis (no_types, lifting))
    have "of_asset (h_org g) (h_asset g) rv" using o by (simp add: of_asset_def)
    note R = record_pair_Inr [OF rp this]
    show ?thesis
      using assms(3) insert_owned [OF R(3)] insert_owned [OF R(4)] R(2) by (auto simp: owned_def write_ownership_rows)
  qed (unfold correct_transition_def correct_movement_def correct_custody_def correct_assignment_def,
      (rule same, erule untouched_classes(13-16) [THEN correction_sql_other])+)
qed

lemma fleet_step_owned:
  assumes "fleet_step x db db'" "fleet_ok db" "owned db"
  shows "owned db'"
  using assms(1)
proof (cases rule: fleet_step.cases)
  case operate
  then show ?thesis using asset_step_owned [OF _ assms(2,3)] by blast
next
  case create
  then show ?thesis using create_unit_facts_Inr(1) [OF create] assms(3) by (simp add: owned_def created_db_def)
next
  case describe
  then show ?thesis using assms(3) by (simp add: owned_def)
next
  case elsewhere
  then show ?thesis using assms(3) by (simp add: owned_def frame_def)
qed

lemma reachable_owned: "reachable db \<Longrightarrow> owned db"
proof (induction rule: reachable.induct)
  case (start db)
  then show ?case by (simp add: no_assets_def owned_def)
next
  case (run db x db')
  then show ?case using fleet_step_owned reachable_fleet_ok by blast
qed

lemma seen_rows:
  assumes "x_org x = Some org"
  shows "latest_seen x i v rows = latest_at org i v rows"
  using assms by (simp add: latest_seen_def latest_at_def visible_def of_asset_def eq_commute [of org] conj_ac)

lemma seen_baseline:
  assumes "x_org x = Some org"
  shows "baseline_seen x db i f = (case initial_facts db org i of Some b \<Rightarrow> f b | None \<Rightarrow> None)"
  using assms by (simp add: baseline_seen_def initial_facts_def visible_def eq_commute [of org])

lemma owner_read:
  assumes "owned db"
  shows "owner_at db org i v = ref_at b_owner db org i v (asset_ownership_changes db)"
proof (cases "latest_at org i v (asset_ownership_changes db)")
  case (Some h)
  then have "h \<in> set (asset_ownership_changes db)" unfolding latest_at_def by (auto dest: latest_by_in)
  then show ?thesis using assms Some by (auto simp: owner_at_def ref_at_def owned_def)
qed (simp add: owner_at_def ref_at_def)

lemma facts_read:
  assumes "owned db" "x_org x = Some org" "find_asset db org i = Some a"
  shows "capture_asset_facts x db i v = Some (facts x db a v)"
proof -
  have "as_id a = i" using find_asset_in [OF assms(3)] by simp
  then show ?thesis
    using assms(2,3) by (simp add: capture_asset_facts_def facts_def fact_seen_def seen_rows [OF assms(2)]
      seen_baseline [OF assms(2)] owner_read [OF assms(1)] ref_at_def cong: option.case_cong)
qed

end
