(* ===== verification/CaptureExample.thy ===== *)
theory CaptureExample
  imports CaptureFacts FleetExample "HOL-Library.Code_Target_Nat"
begin

text \<open>
  A small queue for the concrete instances of the capture properties: a legal transition, a movement
  that names a version the Asset has left, and a link to evidence that no storage holds.
\<close>

definition ex_uuid :: "json \<Rightarrow> uuid option" where
  "ex_uuid j = map_option nat (int_of j)"

definition ex_env :: environment where
  "ex_env = \<lparr>en_readers = \<lparr>rd_uuid = ex_uuid, rd_decimal = (\<lambda>_. None), rd_strip = (\<lambda>t. t), rd_blank = (\<lambda>_. False)\<rparr>,
     en_sha256 = (\<lambda>_. replicate 32 0), en_storage = None, en_encode = (\<lambda>_. JObj []),
     en_payload_size = (\<lambda>_. 0), en_result_size = (\<lambda>_. 0)\<rparr>"

definition ex_token :: pgtext where
  "ex_token = [116]"

definition ex_arrival :: ctx where
  "ex_arrival = \<lparr>x_org = None, x_digest_hex = None, x_actor_hint = None, x_now = 1000, x_app = True, x_txn = 1\<rparr>"

definition ex_steps :: "nat \<Rightarrow> step" where
  "ex_steps n = \<lparr>tx_context = ex_arrival, tx_uuid7 = (\<lambda>k. 200 + n + k)\<rparr>"

definition ex_operation :: "uuid \<Rightarrow> int \<Rightarrow> capture_kind \<Rightarrow> int \<Rightarrow> json \<Rightarrow> operation" where
  "ex_operation i n k v j =
     \<lparr>cp_operation = i, cp_actor = 10, cp_client = 1, cp_epoch = 2, cp_seq = n, cp_entity = lit ''ASSET'',
      cp_entity_id = 100, cp_expected = Some v, cp_kind = k, cp_payload = j, cp_occurred = At 960\<rparr>"

definition ex_stale :: operation where
  "ex_stale = ex_operation 301 2 MOVE 1 (JObj [(''reason'', JStr [114]), (''to_location_id'', JNull)])"

definition ex_legal :: operation where
  "ex_legal = ex_operation 302 1 TRANSITION 2
     (JObj [(''from_state'', JStr (lit ''RECEIVED'')), (''to_state'', JStr (lit ''IN_STOCK'')), (''reason'', JStr [114])])"

definition ex_queue :: "operation list" where
  "ex_queue = [ex_stale, ex_legal]"

definition ex_who :: identity where
  "ex_who = \<lparr>organization_id = 1, user_id = 11, actor_id = 10, token_digest = replicate 32 0\<rparr>"

section \<open>The transition is applied\<close>

definition ex_applied_record :: operation_row where
  "ex_applied_record =
     (operation_record ex_who ex_legal APPLIED (Domain_result (JObj [])) [])\<lparr>co_actor := 10, co_recorded := At 1000\<rparr>"

definition ex_applied :: fleet where
  "ex_applied = ex_moved
     \<lparr>assets := [ex_asset\<lparr>as_location := Some 40, as_version := 3, as_state := Some IN_STOCK\<rparr>],
      asset_transitions := [ex_row 1 None (Some RECEIVED) received_reason 900 102,
        (ex_row 3 (Some RECEIVED) (Some IN_STOCK) [114] 960 201)\<lparr>h_client_op := Some 302\<rparr>],
      capture_streams := [\<lparr>sm_org = 1, sm_client = 1, sm_epoch = 2, sm_last = 1, sm_actor = 10\<rparr>],
      capture_operations := [ex_applied_record]\<rparr>"

lemma ex_apply_ok:
  "process ex_env (tx_uuid7 (ex_steps 1)) ex_ctx ex_who ex_legal ex_moved = Inr (out False ex_applied_record, ex_applied)"
  by code_simp

section \<open>The movement is a conflict\<close>

definition ex_conflict :: conflict_row where
  "ex_conflict =
     \<lparr>sc_id = 200, sc_org = 1, sc_operation = 301, sc_asset = 100, sc_expected_version = 1, sc_current_version = 3,
      sc_expected = Known_version 1 (Some RECEIVED) None None (Some 30) None,
      sc_current = Known_version 3 (Some IN_STOCK) (Some 40) None (Some 30) None,
      sc_actor = 10, sc_occurred = At 960, sc_recorded = At 1000\<rparr>"

definition ex_stale_record :: operation_row where
  "ex_stale_record =
     (operation_record ex_who ex_stale REJECTED
       (Conflict_result 200 (sc_expected ex_conflict) (sc_current ex_conflict)) [])\<lparr>co_actor := 10, co_recorded := At 1000\<rparr>"

definition ex_batched :: fleet where
  "ex_batched = ex_applied
     \<lparr>capture_streams := [\<lparr>sm_org = 1, sm_client = 1, sm_epoch = 2, sm_last = 2, sm_actor = 10\<rparr>],
      capture_operations := [ex_applied_record, ex_stale_record], sync_conflicts := [ex_conflict]\<rparr>"

lemma ex_stale_ok:
  "process ex_env (tx_uuid7 (ex_steps 0)) ex_ctx ex_who ex_stale ex_applied = Inr (out False ex_stale_record, ex_batched)"
  by code_simp

section \<open>The batch\<close>

lemma ex_authenticated:
  "authenticated (en_sha256 ex_env) (tx_context (ex_steps n)) ex_moved (Some ex_token) = Inr (ex_ctx, ex_who)"
  "authenticated (en_sha256 ex_env) (tx_context (ex_steps n)) ex_applied (Some ex_token) = Inr (ex_ctx, ex_who)"
  unfolding ex_steps_def by code_simp+

lemma ex_ordered: "ordered ex_queue = [(1, ex_legal), (0, ex_stale)]"
  by code_simp

lemma ex_commits:
  "commit_capture ex_moved ex_applied = Inr ex_applied" "commit_capture ex_applied ex_batched = Inr ex_batched"
  by code_simp+

definition ex_outcomes :: "outcome option list" where
  "ex_outcomes = [Some (out False ex_stale_record), Some (out False ex_applied_record)]"

lemma ex_batch: "batch ex_env ex_token ex_steps ex_queue ex_moved = (Inr ex_outcomes, ex_batched)"
proof -
  have "replicate (length ex_queue) None = [None, None :: outcome option]" by (simp add: ex_queue_def)
  moreover have "([None, None][1 := Some r])[0 := Some r'] = [Some r', Some r]" for r r' :: outcome by simp
  ultimately show ?thesis
    by (simp add: batch_def ex_ordered transaction_def ex_authenticated ex_apply_ok ex_stale_ok ex_commits ex_outcomes_def
      del: One_nat_def list_update.simps)
qed

section \<open>Evidence without content\<close>

definition ex_attach :: operation where
  "ex_attach = ex_operation 303 1 ATTACH_EVIDENCE 3
     (JObj [(''attachment_id'', JNum 110), (''link_role'', JStr (lit ''OTHER''))])"

definition ex_next :: operation where
  "ex_next = ex_operation 304 2 MOVE 3 (JObj [(''reason'', JStr [114]), (''to_location_id'', JNull)])"

definition ex_opened :: fleet where
  "ex_opened = ex_evidenced\<lparr>capture_streams := [\<lparr>sm_org = 1, sm_client = 1, sm_epoch = 2, sm_last = 1, sm_actor = 10\<rparr>]\<rparr>"

lemma ex_attach_facts:
  "ordered [ex_attach, ex_next] = [(0, ex_attach), (1, ex_next)]"
  "authenticated (en_sha256 ex_env) (tx_context (ex_steps 0)) ex_evidenced (Some ex_token) = Inr (ex_ctx, ex_who)"
  "find_operation ex_ctx ex_evidenced (cp_operation ex_attach) = None"
  "sequence ex_ctx ex_who ex_attach ex_evidenced = Inr ([], ex_opened)"
  "cp_actor ex_attach = actor_id ex_who" "cp_kind ex_attach = ATTACH_EVIDENCE"
  "validate (en_readers ex_env) ex_attach = Inr (Attach_to 110 ASSET OTHER_EVIDENCE)"
  "get_attachment ex_ctx ex_evidenced 110 = Inr ex_attachment"
  "read_content (en_sha256 ex_env) (en_storage ex_env) ex_attachment = Inl EvidenceStorageError"
  by code_simp+

lemma ex_interrupted: "batch ex_env ex_token ex_steps [ex_attach, ex_next] ex_evidenced = (Inl EvidenceStorageError, ex_evidenced)"
proof -
  have "process ex_env (tx_uuid7 (ex_steps 0)) ex_ctx ex_who ex_attach ex_evidenced = Inl EvidenceStorageError"
    by code_simp
  then show ?thesis by (simp add: batch_def ex_attach_facts(1,2) transaction_def)
qed

text \<open>The same evidence behind an operation that was answered, and before one that is not reached.\<close>

definition ex_first :: operation where
  "ex_first = ex_operation 305 1 MOVE 1 (JObj [(''reason'', JStr [114]), (''to_location_id'', JNull)])"

definition ex_second :: operation where
  "ex_second = ex_operation 306 2 ATTACH_EVIDENCE 3
     (JObj [(''attachment_id'', JNum 110), (''link_role'', JStr (lit ''OTHER''))])"

definition ex_third :: operation where
  "ex_third = ex_operation 307 3 MOVE 3 (JObj [(''reason'', JStr [114]), (''to_location_id'', JNull)])"

definition ex_first_conflict :: conflict_row where
  "ex_first_conflict = ex_conflict\<lparr>sc_id := 201, sc_operation := 305\<rparr>"

definition ex_first_record :: operation_row where
  "ex_first_record =
     (operation_record ex_who ex_first REJECTED
       (Conflict_result 201 (sc_expected ex_conflict) (sc_current ex_conflict)) [])\<lparr>co_actor := 10, co_recorded := At 1000\<rparr>"

definition ex_answered :: fleet where
  "ex_answered = ex_opened\<lparr>capture_operations := [ex_first_record], sync_conflicts := [ex_first_conflict]\<rparr>"

definition ex_reopened :: fleet where
  "ex_reopened = ex_answered\<lparr>capture_streams := [\<lparr>sm_org = 1, sm_client = 1, sm_epoch = 2, sm_last = 2, sm_actor = 10\<rparr>]\<rparr>"

lemma ex_first_ok:
  "authenticated (en_sha256 ex_env) (tx_context (ex_steps 1)) ex_evidenced (Some ex_token) = Inr (ex_ctx, ex_who)"
  "process ex_env (tx_uuid7 (ex_steps 1)) ex_ctx ex_who ex_first ex_evidenced = Inr (out False ex_first_record, ex_answered)"
  "commit_capture ex_evidenced ex_answered = Inr ex_answered"
  by code_simp+

lemma ex_answered_run:
  "run_batch ex_env ex_token ex_steps [(1, ex_first)] (replicate (length [ex_second, ex_first, ex_third]) None) ex_evidenced
     = (Inr [None, Some (out False ex_first_record), None], ex_answered)"
  by (simp add: transaction_def ex_first_ok [unfolded One_nat_def] numeral_2_eq_2)

lemma ex_second_facts:
  "ordered [ex_second, ex_first, ex_third] = [(1, ex_first)] @ (0, ex_second) # [(2, ex_third)]"
  "authenticated (en_sha256 ex_env) (tx_context (ex_steps 0)) ex_answered (Some ex_token) = Inr (ex_ctx, ex_who)"
  "find_operation ex_ctx ex_answered (cp_operation ex_second) = None"
  "sequence ex_ctx ex_who ex_second ex_answered = Inr ([], ex_reopened)"
  "cp_actor ex_second = actor_id ex_who" "cp_kind ex_second = ATTACH_EVIDENCE"
  "validate (en_readers ex_env) ex_second = Inr (Attach_to 110 ASSET OTHER_EVIDENCE)"
  "get_attachment ex_ctx ex_answered 110 = Inr ex_attachment"
  by code_simp+

end
