(* ===== verification/CaptureProperties.thy ===== *)
theory CaptureProperties
  imports CaptureExample
begin

text \<open>
  The properties of offline capture: replayed batches, verdicts and what they leave behind, streams,
  order, and a fleet that stays reachable.
\<close>

section \<open>Growth along a batch\<close>

definition journal_grows :: "fleet \<Rightarrow> fleet \<Rightarrow> bool" where
  "journal_grows db db' \<longleftrightarrow> same_identity db db' \<and> set (capture_operations db) \<subseteq> set (capture_operations db')
     \<and> (distinct (map co_operation (capture_operations db)) \<longrightarrow> distinct (map co_operation (capture_operations db')))"

lemma journal_grows_refl [simp]: "journal_grows db db"
  by (simp add: journal_grows_def same_identity_def)

lemma journal_grows_trans: "journal_grows a b \<Longrightarrow> journal_grows b c \<Longrightarrow> journal_grows a c"
  unfolding journal_grows_def same_identity_def by auto

lemma sequence_same:
  assumes "sequence x who op db = Inr (fs, db1)"
  shows "\<exists>ss. db1 = db\<lparr>capture_streams := ss\<rparr>" "current_authenticated_actor x db = Inr (actor_id who)"
  by (rule sequence_Inr [OF assms], blast)+

lemma process_journal:
  assumes "process en u x who op db = Inr (r, db')"
  obtains q b where "r = out b q" "q \<in> set (capture_operations db')" "co_operation q = cp_operation op"
    "co_actor q = actor_id who" "visible x (co_org q)" "journal_grows db db'"
  using assms
proof (cases rule: process_Inr)
  case (replay q)
  then show ?thesis using that [of True q] find_Some_in [OF replay(1) [unfolded find_operation_def]] by simp
next
  case (fresh fs db1 s res db2 q)
  obtain ss where db1: "db1 = db\<lparr>capture_streams := ss\<rparr>" using sequence_same(1) [OF fresh(2)] by blast
  note v = verdict_tables [OF fresh(3)] and i = insert_operation_Inr [OF fresh(4)]
  have rows: "capture_operations db' = capture_operations db @ [q]" using v by (simp add: i(1) db1)
  have id1: "same_identity db db2" using v by (simp add: same_identity_def db1)
  have "current_authenticated_actor x db2 = Inr (actor_id who)"
    using sequence_same(2) [OF fresh(2)] same_identity_actor [OF id1] by simp
  then have "co_actor q = actor_id who" using i(3) by simp
  moreover have "journal_grows db db'"
    using id1 i(6) v by (auto simp: journal_grows_def rows same_identity_def i(1) db1)
  ultimately show ?thesis
    using that [OF fresh(5)] i(4) recorded_row(1) [OF fresh(4)] by (simp add: rows)
qed

lemma transaction_grows: "transaction en token t op db = Inr (r, db') \<Longrightarrow> journal_grows db db'"
  by (elim transaction_Inr process_journal)

lemma run_batch_grows: "journal_grows db (snd (run_batch en token ts es responses db))"
  by (rule run_batch_keeps) (auto intro: journal_grows_trans dest: transaction_grows)

lemma same_identity_credential:
  "same_identity db db' \<Longrightarrow> authenticated sha256 x db' bearer = authenticated sha256 x db bearer"
proof -
  assume "same_identity db db'"
  then have "resolve_session x db' = resolve_session x db"
    by (intro ext resolve_session_cong) (simp_all add: same_identity_def)
  then show ?thesis by (simp only: authenticated_def resolve_identity_def)
qed

section \<open>Replay\<close>

text \<open>The context a credential gives a transaction, and whom it names.\<close>

definition names :: "environment \<Rightarrow> pgtext \<Rightarrow> fleet \<Rightarrow> identity \<Rightarrow> step \<Rightarrow> bool" where
  "names en token db who t \<longleftrightarrow>
     (case authenticated (en_sha256 en) (tx_context t) db (Some token) of Inr (_, w) \<Rightarrow> w = who | Inl _ \<Rightarrow> False)"

lemma names_context:
  assumes "authenticated sha256 x db bearer = Inr (y, who)"
  shows "visible y i \<longleftrightarrow> i = organization_id who"
  using assms
  by (auto simp: authenticated_def rbind_Inr_iff set_credential_context_def set_organization_def visible_def
      split: option.splits if_splits)

lemma names_iff: "names en token db who t \<longleftrightarrow> (\<exists>x. authenticated (en_sha256 en) (tx_context t) db (Some token) = Inr (x, who))"
  by (auto simp: names_def split: sum.splits prod.splits)

lemma names_cong: "same_identity db db' \<Longrightarrow> names en token db' who t = names en token db who t"
  by (simp add: names_def same_identity_credential)

definition answered :: "identity \<Rightarrow> fleet \<Rightarrow> operation \<Rightarrow> outcome \<Rightarrow> bool" where
  "answered who db op r \<longleftrightarrow> (\<exists>b. \<exists>q \<in> set (capture_operations db). r = out b q \<and> co_operation q = cp_operation op
     \<and> co_actor q = actor_id who \<and> co_org q = organization_id who)"

lemma answered_grows: "answered who db op r \<Longrightarrow> journal_grows db db' \<Longrightarrow> answered who db' op r"
  unfolding answered_def journal_grows_def by blast

lemma transaction_answered:
  assumes "transaction en token t op db = Inr (r, db')" "names en token db who t"
  shows "answered who db' op r"
proof -
  obtain x where a: "authenticated (en_sha256 en) (tx_context t) db (Some token) = Inr (x, who)"
    and p: "process en (tx_uuid7 t) x who op db = Inr (r, db')"
    by (rule transaction_Inr [OF assms(1)]) (use assms(2) that in \<open>auto simp: names_iff\<close>)
  show ?thesis
    by (rule process_journal [OF p]) (auto simp: answered_def names_context [OF a])
qed

lemma commit_capture_same [simp]: "commit_capture db db = Inr db"
  by (simp add: commit_capture_def commit_histories_def pairs_complete_def new_rows_def ensure_def)

lemma transaction_replay:
  assumes "answered who db op r" "names en token db who t" "distinct (map co_operation (capture_operations db))"
  shows "transaction en token t op db = Inr (r\<lparr>ou_state := DUPLICATE\<rparr>, db)"
proof -
  obtain x where a: "authenticated (en_sha256 en) (tx_context t) db (Some token) = Inr (x, who)"
    using assms(2) by (auto simp: names_iff)
  obtain b q where q: "q \<in> set (capture_operations db)" "r = out b q" "co_operation q = cp_operation op"
    "co_actor q = actor_id who" "co_org q = organization_id who"
    using assms(1) by (auto simp: answered_def)
  have "List.find (\<lambda>p. visible x (co_org p) \<and> co_operation p = cp_operation op) (capture_operations db) = Some q"
    by (rule find_key [of co_operation]) (use assms(3) q in \<open>auto simp: names_context [OF a]\<close>)
  then have "process en (tx_uuid7 t) x who op db = Inr (out True q, db)"
    by (simp add: process_def find_operation_def q(4))
  then show ?thesis
    by (simp add: transaction_def a q(2) out_def)
qed

lemma run_batch_answered:
  assumes "run_batch en token ts es responses db = (Inr rs, db')" "distinct (map fst es)"
    "\<forall>i \<in> fst ` set es. i < length responses" "\<forall>i \<in> fst ` set es. names en token db who (ts i)"
  shows "length rs = length responses \<and> (\<forall>i. i \<notin> fst ` set es \<longrightarrow> rs ! i = responses ! i)
     \<and> (\<forall>(i, op) \<in> set es. \<exists>r. rs ! i = Some r \<and> (ou_recorded r = None \<or> answered who db' op r))"
  using assms
proof (induction es arbitrary: responses db)
  case Nil
  then show ?case by simp
next
  case (Cons e es)
  obtain i op where e: "e = (i, op)" by force
  obtain r db1 where run: "run_batch en token ts es (responses[i := Some r]) db1 = (Inr rs, db')"
    and r: "transaction en token (ts i) op db = Inr (r, db1) \<or> r = unavailable op \<and> db1 = db"
    using Cons.prems(1) by (auto simp: e split: sum.splits prod.splits if_splits)
  have grows: "journal_grows db db1" using r transaction_grows by auto
  then have names: "\<forall>i \<in> fst ` set es. names en token db1 who (ts i)"
    using Cons.prems(4) names_cong by (auto simp: e journal_grows_def)
  have later: "journal_grows db1 db'" using run_batch_grows [of db1 en token ts es "responses[i := Some r]"] run by simp
  have ok: "ou_recorded r = None \<or> answered who db' op r"
    using r transaction_answered [of en token "ts i" op db r db1 who] Cons.prems(4) later answered_grows
    by (auto simp: e unavailable_def)
  have i: "i \<notin> fst ` set es" "i < length responses" using Cons.prems(2,3) by (auto simp: e)
  have "length rs = length responses \<and> (\<forall>j. j \<notin> fst ` set es \<longrightarrow> rs ! j = responses[i := Some r] ! j)
     \<and> (\<forall>(j, op) \<in> set es. \<exists>r. rs ! j = Some r \<and> (ou_recorded r = None \<or> answered who db' op r))"
    using Cons.IH [OF run] Cons.prems(2,3) names by (simp add: e)
  then show ?case using i ok by (auto simp: e nth_list_update)
qed

lemma run_batch_replay:
  assumes "distinct (map fst es)" "\<forall>i \<in> fst ` set es. i < length responses"
    "\<forall>(i, op) \<in> set es. names en token db who (ts i) \<and> (\<exists>r. rs ! i = Some r \<and> answered who db op r)"
    "distinct (map co_operation (capture_operations db))"
  shows "\<exists>rs'. run_batch en token ts es responses db = (Inr rs', db) \<and> length rs' = length responses
     \<and> (\<forall>i. rs' ! i = (if i \<in> fst ` set es then map_option (ou_state_update (\<lambda>_. DUPLICATE)) (rs ! i) else responses ! i))"
  using assms
proof (induction es arbitrary: responses)
  case Nil
  then show ?case by simp
next
  case (Cons e es)
  obtain i op where e: "e = (i, op)" by force
  obtain r where r: "rs ! i = Some r" "answered who db op r" "names en token db who (ts i)" using Cons.prems(3) by (auto simp: e)
  have t: "transaction en token (ts i) op db = Inr (r\<lparr>ou_state := DUPLICATE\<rparr>, db)"
    by (rule transaction_replay [OF r(2,3) Cons.prems(4)])
  have i: "i < length responses" "i \<notin> fst ` set es" using Cons.prems(1,2) by (auto simp: e)
  let ?next = "responses[i := Some (r\<lparr>ou_state := DUPLICATE\<rparr>)]"
  obtain rs' where rs': "run_batch en token ts es ?next db = (Inr rs', db)" "length rs' = length ?next"
    "\<forall>i. rs' ! i = (if i \<in> fst ` set es then map_option (ou_state_update (\<lambda>_. DUPLICATE)) (rs ! i) else ?next ! i)"
    using Cons.IH [of ?next] Cons.prems by (auto simp: e)
  then show ?case using t i r(1) by (intro exI [of _ rs']) (auto simp: e nth_list_update)
qed

section \<open>A fleet that stays reachable\<close>

lemma capture_tables_step:
  "reachable db \<Longrightarrow> reachable (db\<lparr>capture_streams := ss, capture_operations := qs, sync_conflicts := cs\<rparr>)"
  by (erule reachable.run [OF _ fleet_step.elsewhere]) (simp add: frame_def evidence_grows_def)

lemma attempt_reachable:
  assumes "attempt en u x who op db = Inr (s, res, db')" "reachable db"
  shows "reachable db'"
  using assms(1)
proof (cases rule: attempt_Inr)
  case decided
  then show ?thesis
  proof (cases rule: decide_Inr)
    case (applied c v)
    then show ?thesis using run_command_step assms(2) by (simp add: service_step_def)
  next
    case (stale a expected)
    obtain c where "db' = db\<lparr>sync_conflicts := sync_conflicts db @ [c]\<rparr>"
      by (rule record_conflict_Inr [OF stale(1)]) (rule that, rule insert_conflict_Inr(1))
    then show ?thesis
      using capture_tables_step [OF assms(2), of "sync_conflicts db @ [c]" "capture_operations db" "capture_streams db"] by simp
  qed
next
  case failed
  then show ?thesis using assms(2) by simp
qed

lemma process_reachable:
  assumes "process en u x who op db = Inr (r, db')" "reachable db"
  shows "reachable db'"
  using assms(1)
proof (cases rule: process_Inr)
  case replay
  then show ?thesis using assms(2) by simp
next
  case (fresh fs db1 s res db2 q)
  obtain ss where db1: "db1 = db\<lparr>capture_streams := ss\<rparr>" using sequence_same(1) [OF fresh(2)] by blast
  have "reachable db1"
    using capture_tables_step [OF assms(2), of "sync_conflicts db" "capture_operations db" ss] by (simp add: db1)
  then have "reachable db2" by (rule attempt_reachable [OF fresh(3)])
  then show ?thesis
    using capture_tables_step [of db2 "sync_conflicts db2" "capture_operations db2 @ [q]" "capture_streams db2"]
    by (simp add: insert_operation_Inr(1) [OF fresh(4)])
qed

section \<open>Databases a capture service reaches\<close>

text \<open>
  \<open>captured\<close>: batches of well-formed operations, in any order with transactions that leave the
  capture tables alone.
\<close>

inductive captured :: "fleet \<Rightarrow> bool" where
  start: "capture_streams db = [] \<Longrightarrow> capture_operations db = [] \<Longrightarrow> sync_conflicts db = [] \<Longrightarrow> captured db"
| ingest: "captured db \<Longrightarrow> \<forall>op \<in> set queue. well_formed op \<Longrightarrow> captured (snd (batch en token ts queue db))"
| aside: "captured db \<Longrightarrow> same_capture db db' \<Longrightarrow> captured db'"

lemma conflict_origin_cong:
  "capture_operations db' = capture_operations db \<Longrightarrow> conflict_origin_ok db' c = conflict_origin_ok db c"
  by (simp add: conflict_origin_ok_def)

lemma captured_ok: "captured db \<Longrightarrow> capture_ok db"
proof (induction rule: captured.induct)
  case (start db)
  then show ?case by (simp add: capture_ok_def streams_ok_def flags_exact_def)
next
  case (ingest db queue en token ts)
  show ?case
    unfolding batch_def
  proof (rule run_batch_keeps)
    fix i op d r d'
    assume e: "(i, op) \<in> set (ordered queue)" and t: "transaction en token (ts i) op d = Inr (r, d')" and ok: "capture_ok d"
    have "op \<in> set queue" using e by (auto simp: ordered_positions in_set_enumerate_eq)
    then have seq: "cp_seq op \<le> int8_max" using ingest.hyps(2) by (simp add: well_formed_def)
    show "capture_ok d'" by (rule transaction_Inr [OF t]) (rule process_keeps [OF _ ok seq])
  qed (rule ingest.IH)
next
  case (aside db db')
  then show ?case by (simp add: capture_ok_def same_capture_def conflict_origin_cong [of db' db])
qed

lemma ex_captured: "captured ex_batched"
proof -
  have "captured ex_moved"
    by (rule captured.start) (simp_all add: ex_moved_def ex_created_def ex_base_def empty_fleet_def)
  moreover have "\<forall>op \<in> set ex_queue. well_formed op" by code_simp
  ultimately have "captured (snd (batch ex_env ex_token ex_steps ex_queue ex_moved))" by (rule captured.ingest)
  then show ?thesis by (simp add: ex_batch)
qed

lemma ex_applied_reachable: "reachable ex_applied"
  by (rule process_reachable [OF ex_apply_ok ex_moved_reachable])

section \<open>Properties\<close>

text \<open>
  C6: replaying a batch changes nothing.  When every operation of a batch was answered with a record
  time, a later batch with the same operation identifiers, under the same credential's identity, is
  answered with the same outcomes, marked \<open>DUPLICATE\<close>, and leaves the database as it is; neither the
  payloads of the replay nor its storage and readers matter.
\<close>

theorem batch_replayed:
  assumes "batch en token ts queue db = (Inr rs, db')" "map cp_operation queue' = map cp_operation queue"
    and "\<forall>i < length queue. names en token db who (ts i) \<and> names en' token db who (ts' i)"
    and "\<forall>i < length queue. \<exists>r. rs ! i = Some r \<and> ou_recorded r \<noteq> None"
    and "distinct (map co_operation (capture_operations db))"
  shows "batch en' token ts' queue' db' = (Inr (map (map_option (ou_state_update (\<lambda>_. DUPLICATE))) rs), db')"
proof -
  let ?blank = "replicate (length queue) None :: outcome option list" and ?dup = "map_option (ou_state_update (\<lambda>_. DUPLICATE))"
  have len: "length queue' = length queue" using arg_cong [OF assms(2), of length] by simp
  have entries: "(i, op) \<in> set (ordered q) \<longleftrightarrow> i < length q \<and> q ! i = op" for i op q
    by (auto simp: ordered_positions in_set_enumerate_eq)
  have range: "fst ` set (ordered q) = {..<length q}" for q
    using set_map [of fst "List.enumerate 0 q"] by (simp add: ordered_positions atLeast0LessThan)
  have grown: "journal_grows db db'" using run_batch_grows [of db en token ts "ordered queue" ?blank] assms(1) by (simp add: batch_def)
  have "\<forall>i \<in> fst ` set (ordered queue). names en token db who (ts i)" using assms(3) by (simp add: range)
  from run_batch_answered [OF assms(1) [unfolded batch_def] ordered_positions(2) _ this]
  have rs: "length rs = length queue"
    "\<forall>(i, op) \<in> set (ordered queue). \<exists>r. rs ! i = Some r \<and> (ou_recorded r = None \<or> answered who db' op r)"
    by (simp_all add: range)
  have first: "\<exists>r. rs ! i = Some r \<and> answered who db' (queue ! i) r" if i: "i < length queue" for i
  proof -
    have "(i, queue ! i) \<in> set (ordered queue)" using i by (simp add: entries)
    then obtain r where "rs ! i = Some r" "ou_recorded r = None \<or> answered who db' (queue ! i) r" using rs(2) by blast
    then show ?thesis using assms(4) i by auto
  qed
  have again: "\<exists>rs'. run_batch en' token ts' (ordered queue') ?blank db' = (Inr rs', db') \<and> length rs' = length ?blank
     \<and> (\<forall>i. rs' ! i = (if i \<in> fst ` set (ordered queue') then ?dup (rs ! i) else ?blank ! i))"
  proof (rule run_batch_replay)
    have "answered who db' (queue' ! i) r = answered who db' (queue ! i) r" if "i < length queue" for i r
      using arg_cong [OF assms(2), of "\<lambda>l. l ! i"] that len by (simp add: answered_def)
    moreover have "names en' token db' who (ts' i)" if "i < length queue" for i
      using assms(3) that by (simp add: names_cong [OF grown [unfolded journal_grows_def, THEN conjunct1]])
    ultimately show "\<forall>(i, op) \<in> set (ordered queue'). names en' token db' who (ts' i)
        \<and> (\<exists>r. rs ! i = Some r \<and> answered who db' op r)"
      using first by (auto simp: entries len)
    show "distinct (map co_operation (capture_operations db'))" using grown assms(5) by (simp add: journal_grows_def)
  qed (simp_all only: ordered_positions(2) range, simp add: len)
  then obtain rs' where rs': "run_batch en' token ts' (ordered queue') ?blank db' = (Inr rs', db')"
    "length rs' = length queue" "\<forall>i < length queue. rs' ! i = ?dup (rs ! i)"
    by (auto simp: range len)
  have "rs' = map ?dup rs" using rs' rs(1) by (intro nth_equalityI) simp_all
  then show ?thesis using rs'(1) by (simp add: batch_def len)
qed

theorem batch_replayed_witness:
  "batch ex_env ex_token ex_steps ex_queue ex_batched
     = (Inr (map (map_option (ou_state_update (\<lambda>_. DUPLICATE))) ex_outcomes), ex_batched)"
proof (rule batch_replayed [OF ex_batch refl])
  show "\<forall>i < length ex_queue. names ex_env ex_token ex_moved ex_who (ex_steps i) \<and> names ex_env ex_token ex_moved ex_who (ex_steps i)"
    using ex_authenticated(1) by (simp add: names_iff)
  show "\<forall>i < length ex_queue. \<exists>r. ex_outcomes ! i = Some r \<and> ou_recorded r \<noteq> None"
    by (simp add: ex_queue_def ex_outcomes_def out_def less_Suc_eq)
  show "distinct (map co_operation (capture_operations ex_moved))"
    by (simp add: ex_moved_def ex_created_def ex_base_def empty_fleet_def)
qed

text \<open>
  C7: an operation that is not applied leaves the fleet alone.  Whatever it asked for, its transaction
  adds its record, moves its stream and records at most one conflict; no other table changes.
\<close>

theorem unapplied_operation_changes_nothing:
  assumes "process en u x who op db = Inr (r, db')" "ou_state r \<noteq> APPLIED"
  shows "\<exists>ss qs cs. db' = db\<lparr>capture_streams := ss, capture_operations := capture_operations db @ qs,
      sync_conflicts := sync_conflicts db @ cs\<rparr> \<and> length qs \<le> 1 \<and> length cs \<le> length qs"
  using assms(1)
proof (cases rule: process_Inr)
  case replay
  then show ?thesis by (intro exI [of _ "capture_streams db"] exI [of _ "[]"]) simp
next
  case (fresh fs db1 s res db2 q)
  obtain ss where db1: "db1 = db\<lparr>capture_streams := ss\<rparr>" using sequence_same(1) [OF fresh(2)] by blast
  have s: "s \<noteq> APPLIED" using assms(2) by (simp add: fresh(5) out_def recorded_row [OF fresh(4)])
  have "\<exists>cs. db2 = db1\<lparr>sync_conflicts := sync_conflicts db1 @ cs\<rparr> \<and> length cs \<le> 1"
    using fresh(3)
  proof (cases rule: attempt_Inr)
    case decided
    then show ?thesis
    proof (cases rule: decide_Inr)
      case applied
      then show ?thesis using s by simp
    next
      case (stale a expected)
      obtain c where "db2 = db1\<lparr>sync_conflicts := sync_conflicts db1 @ [c]\<rparr>"
        by (rule record_conflict_Inr [OF stale(1)]) (rule that, rule insert_conflict_Inr(1))
      then show ?thesis by (intro exI [of _ "[c]"]) simp
    qed
  next
    case failed
    then show ?thesis by (intro exI [of _ "[]"]) simp
  qed
  then obtain cs where "db2 = db1\<lparr>sync_conflicts := sync_conflicts db1 @ cs\<rparr>" "length cs \<le> 1" by blast
  then show ?thesis
    by (intro exI [of _ ss] exI [of _ "[q]"] exI [of _ cs]) (simp add: insert_operation_Inr(1) [OF fresh(4)] db1)
qed

theorem unapplied_operation_changes_nothing_witness:
  "\<exists>ss qs cs. ex_batched = ex_applied\<lparr>capture_streams := ss, capture_operations := capture_operations ex_applied @ qs,
     sync_conflicts := sync_conflicts ex_applied @ cs\<rparr> \<and> length qs \<le> 1 \<and> length cs \<le> length qs"
  by (rule unapplied_operation_changes_nothing [OF ex_stale_ok])
    (simp add: out_def ex_stale_record_def operation_record_def)

lemma record_conflict_Inl: "record_conflict i x who op v a db = Inl e \<Longrightarrow> failure_class e = None"
  by (auto simp: record_conflict_def Let_def rbind_Inl_iff map_error_def split: sum.splits)

text \<open>
  C8: a stale operation becomes a conflict.  When an operation that depends on a version names another
  version than the Asset has, its transaction calls no service: it records the rejection together with
  one conflict, which holds the facts of both versions and names the rejected record as its origin.
\<close>

theorem stale_operation_recorded:
  assumes "process en u x who op db = Inr (r, db')" "find_operation x db (cp_operation op) = None" "reachable db"
    and "cp_kind op \<in> VERSIONED" "cp_actor op = actor_id who" "validate (en_readers en) op = Inr k"
    and "x_org x = Some org" "find_asset db org (cp_entity_id op) = Some a" "cp_expected op = Some v" "as_version a \<noteq> v"
  shows "\<exists>c. ou_state r = REJECTED \<and> sync_conflicts db' = sync_conflicts db @ [c] \<and> assets db' = assets db
     \<and> ou_result r = Conflict_result (sc_id c) (facts x db a v) (facts x db a (as_version a))
     \<and> sc_expected c = facts x db a v \<and> sc_current c = facts x db a (as_version a) \<and> conflict_origin_ok db' c"
  using assms(1)
proof (cases rule: process_Inr)
  case replay
  then show ?thesis using assms(2) by simp
next
  case (fresh fs db1 s res db2 q)
  obtain ss where db1: "db1 = db\<lparr>capture_streams := ss\<rparr>" using sequence_same(1) [OF fresh(2)] by blast
  have actor: "current_authenticated_actor x db1 = Inr (actor_id who)"
    using sequence_same(2) [OF fresh(2)] current_actor_cong [of db1 db x] by (simp add: db1)
  have find: "List.find (\<lambda>a. visible x (as_org a) \<and> as_id a = cp_entity_id op) (assets db1) = Some a"
    using assms(7,8) by (simp add: find_asset_def db1 visible_def eq_commute [of org])
  have f: "facts x db1 a w = facts x db a w" for w by (simp add: facts_def baseline_seen_def db1)
  have entity: "cp_entity op = lit ''ASSET''"
    using assms(4,6) by (auto simp: validate_def Let_def ensure_Inr_iff)
  have d: "decide en u x who op db1 = record_conflict (u 0) x who op v a db1"
    using assms(4-6,9,10) find by (simp add: decide_def ensure_def)
  have rc: "record_conflict (u 0) x who op v a db1 = Inr (s, res, db2)"
    using fresh(3) record_conflict_Inl [of "u 0" x who op v a db1]
    unfolding attempt_def d by (auto split: sum.splits option.splits)
  have actor2: "current_authenticated_actor x db2 = Inr (actor_id who)"
    using verdict_tables [OF fresh(3)] actor same_identity_actor by metis
  have "as_id a = cp_entity_id op" using find_asset_in [OF assms(8)] by simp
  then obtain c where c: "db2 = db1\<lparr>sync_conflicts := sync_conflicts db1 @ [c]\<rparr>" "conflict_origin_ok db' c"
    using record_conflict_origin [OF rc assms(4) _ assms(9,5) entity actor actor2 fresh(4)] by blast
  show ?thesis
  proof (rule record_conflict_Inr [OF rc], goal_cases)
    case (1 d)
    have "sc_expected d = facts x db a v" "sc_current d = facts x db a (as_version a)"
      by (subst insert_conflict_Inr(2) [OF 1(3)], simp add: f)+
    moreover have "c = d" using arg_cong [OF insert_conflict_Inr(1) [OF 1(3)], of sync_conflicts] c(1) by simp
    ultimately show ?thesis
      using 1(1,2,4) c recorded_row(12,13) [OF fresh(4)]
      by (intro exI [of _ d]) (simp add: fresh(5) out_def insert_operation_Inr(1) [OF fresh(4)] db1)
  qed
qed

theorem stale_operation_recorded_witness:
  "\<exists>c. sync_conflicts ex_batched = sync_conflicts ex_applied @ [c] \<and> conflict_origin_ok ex_batched c"
proof -
  have "validate (en_readers ex_env) ex_stale = Inr (Move_to None [114])" by code_simp
  moreover have "find_operation ex_ctx ex_applied (cp_operation ex_stale) = None" by code_simp
  moreover have "find_asset ex_applied 1 (cp_entity_id ex_stale) = Some (hd (assets ex_applied))" by code_simp
  moreover have "cp_kind ex_stale \<in> VERSIONED" "cp_actor ex_stale = actor_id ex_who" "x_org ex_ctx = Some 1"
    "cp_expected ex_stale = Some 1" "as_version (hd (assets ex_applied)) \<noteq> 1"
    by code_simp+
  ultimately show ?thesis
    using stale_operation_recorded [OF ex_stale_ok _ ex_applied_reachable, of "Move_to None [114]" 1 "hd (assets ex_applied)" 1]
    by blast
qed

text \<open>
  C10: the facts of a version are the same wherever they are computed: in a reachable fleet the SQL
  function and the Python reader agree on every version of every Asset, future versions included.
\<close>

theorem facts_agree:
  assumes "reachable db" "x_org x = Some org" "find_asset db org i = Some a"
  shows "capture_asset_facts x db i v = Some (facts x db a v)"
  by (rule facts_read [OF reachable_owned [OF assms(1)] assms(2,3)])

theorem facts_agree_witness:
  "capture_asset_facts ex_ctx ex_moved 100 1 = Some (Known_version 1 (Some RECEIVED) None None (Some 30) None)"
proof -
  have "x_org ex_ctx = Some 1" "find_asset ex_moved 1 100 = Some (hd (assets ex_moved))" by code_simp+
  note facts_agree [OF ex_moved_reachable this, of 1]
  moreover have "facts ex_ctx ex_moved (hd (assets ex_moved)) 1 = Known_version 1 (Some RECEIVED) None None (Some 30) None"
    by code_simp
  ultimately show ?thesis by simp
qed

text \<open>
  C11: the number of a stream is the highest sequence number recorded in it and stays in the range of
  \<open>bigint\<close>, zero while nothing is recorded; a client epoch has one stream.
\<close>

theorem streams_exact:
  assumes "captured db" "s \<in> set (capture_streams db)"
  shows "sm_last s = highest (sm_org s) (sm_client s) (sm_epoch s) (capture_operations db)
     \<and> 0 \<le> sm_last s \<and> sm_last s \<le> int8_max
     \<and> (\<forall>t \<in> set (capture_streams db). of_stream (sm_org s) (sm_client s) (sm_epoch s) t \<longrightarrow> t = s)"
proof -
  have ok: "streams_ok (capture_streams db) (capture_operations db)" using captured_ok [OF assms(1)] by (simp add: capture_ok_def)
  then have d: "distinct (map stream_key (capture_streams db))" by (simp add: streams_ok_def)
  have "t = s" if "t \<in> set (capture_streams db)" "of_stream (sm_org s) (sm_client s) (sm_epoch s) t" for t
    using that assms(2) d by (auto simp: distinct_map inj_on_def stream_key_def of_stream_def)
  then show ?thesis using ok assms(2) by (auto simp: streams_ok_def)
qed

theorem streams_exact_witness:
  "captured ex_batched \<and> sm_last (hd (capture_streams ex_batched)) = highest 1 1 2 (capture_operations ex_batched)"
proof -
  let ?s = "hd (capture_streams ex_batched)"
  have "?s \<in> set (capture_streams ex_batched)" "sm_org ?s = 1" "sm_client ?s = 1" "sm_epoch ?s = 2"
    by (simp_all add: ex_batched_def)
  then show ?thesis using streams_exact [OF ex_captured, of ?s] ex_captured by simp
qed

text \<open>
  Every record of a captured journal stands as it was judged: operation identifiers are unique,
  the flags say how its sequence number stood to the records before it in its client epoch, it is in
  a stream of its tenant, and every conflict has the rejected record that caused it.
\<close>

theorem journal_exact:
  assumes "captured db"
  shows "distinct (map co_operation (capture_operations db))
     \<and> (\<forall>i < length (capture_operations db). let r = capture_operations db ! i in
          co_flags r = sequence_flags (highest (co_org r) (co_client r) (co_epoch r) (take i (capture_operations db))) (co_seq r))
     \<and> (\<forall>r \<in> set (capture_operations db). \<exists>s \<in> set (capture_streams db). in_stream r s)
     \<and> (\<forall>c \<in> set (sync_conflicts db). conflict_origin_ok db c)"
  using captured_ok [OF assms] by (simp add: capture_ok_def flags_exact_def streams_ok_def Let_def)

theorem journal_exact_witness:
  "\<forall>c \<in> set (sync_conflicts ex_batched). conflict_origin_ok ex_batched c"
  using journal_exact [OF ex_captured] by blast

text \<open>
  A batch processes each client epoch in the order of its sequence numbers, equal numbers in the
  order of submission, and processes every submitted operation exactly once.
\<close>

theorem ordered_by_epoch:
  "mset (ordered queue) = mset (List.enumerate 0 queue)
   \<and> sorted (map (\<lambda>e. (cp_seq (snd e), fst e)) (filter (\<lambda>e. epoch_of (snd e) = k) (ordered queue)))"
  by (simp add: mset_ordered ordered_epoch)

text \<open>
  A batch that returns has answered every operation at its own position, with its identifier and a
  record time unless it was turned away as \<open>OPERATION_UNAVAILABLE\<close>.
\<close>

theorem batch_answers_all:
  assumes "batch en token ts queue db = (Inr rs, db')"
  shows "length rs = length queue \<and> (\<forall>i < length queue. \<exists>r. rs ! i = Some r \<and> ou_operation r = cp_operation (queue ! i)
     \<and> (ou_recorded r = None \<longrightarrow> r = unavailable (queue ! i)))"
proof -
  let ?Q = "\<lambda>(i :: nat) op r. ou_operation r = cp_operation op \<and> (ou_recorded r = None \<longrightarrow> r = unavailable op)"
  have "\<forall>i \<in> fst ` set (ordered queue). i < length (replicate (length queue) (None :: outcome option))"
    by (auto simp: ordered_positions in_set_enumerate_eq)
  note bound = this
  have answer: "?Q i op r" if "transaction en token (ts i) op d = Inr (r, d')" for i op d r d'
    by (rule transaction_Inr [OF that], erule process_journal) (simp add: out_def)
  have "length rs = length (replicate (length queue) (None :: outcome option))
     \<and> (\<forall>i. i \<notin> fst ` set (ordered queue) \<longrightarrow> rs ! i = replicate (length queue) None ! i)
     \<and> (\<forall>(i, op) \<in> set (ordered queue). \<exists>r. rs ! i = Some r \<and> ?Q i op r)"
    by (rule run_batch_answers [OF assms [unfolded batch_def] ordered_positions(2) bound])
      (erule answer, simp add: unavailable_def)
  moreover have "(i, queue ! i) \<in> set (ordered queue)" if "i < length queue" for i
    using that by (simp add: ordered_positions in_set_enumerate_eq)
  ultimately show ?thesis by fastforce
qed

theorem batch_answers_all_witness:
  "length ex_outcomes = length ex_queue \<and> (\<forall>i < length ex_queue. \<exists>r. ex_outcomes ! i = Some r
     \<and> ou_operation r = cp_operation (ex_queue ! i) \<and> (ou_recorded r = None \<longrightarrow> r = unavailable (ex_queue ! i)))"
  by (rule batch_answers_all [OF ex_batch])

text \<open>
  C13: capture keeps the fleet reachable: whatever a batch contains and however it ends, it leads a
  reachable fleet to a reachable fleet, so that every property of reachable fleets holds after it.
\<close>

theorem capture_keeps_fleet:
  assumes "reachable db"
  shows "reachable (snd (batch en token ts queue db))"
  unfolding batch_def
proof (rule run_batch_keeps)
  fix i op d r d'
  assume t: "transaction en token (ts i) op d = Inr (r, d')" and d: "reachable d"
  show "reachable d'" by (rule transaction_Inr [OF t]) (rule process_reachable [OF _ d])
qed (rule assms)

theorem capture_keeps_fleet_witness:
  "reachable ex_batched"
  using capture_keeps_fleet [OF ex_moved_reachable, of ex_env ex_token ex_steps ex_queue] by (simp add: ex_batch)

text \<open>
  C9: an operation that depends on a version is applied only to that version: the Asset it names had
  exactly the version the operation expected, has a later one afterwards, and no other Asset changed.
\<close>

theorem applied_at_expected_version:
  assumes "process en u x who op db = Inr (r, db')" "find_operation x db (cp_operation op) = None"
    and "ou_state r = APPLIED" "cp_kind op \<in> VERSIONED" "x_org x = Some org"
  shows "\<exists>a b. find_asset db org (cp_entity_id op) = Some a \<and> cp_expected op = Some (as_version a)
     \<and> find_asset db' org (cp_entity_id op) = Some b \<and> as_version a < as_version b
     \<and> (\<forall>org' j. (org', j) \<noteq> (org, cp_entity_id op) \<longrightarrow> find_asset db' org' j = find_asset db org' j)"
  using assms(1)
proof (cases rule: process_Inr)
  case replay
  then show ?thesis using assms(2) by simp
next
  case (fresh fs db1 s res db2 q)
  obtain ss where db1: "db1 = db\<lparr>capture_streams := ss\<rparr>" using sequence_same(1) [OF fresh(2)] by blast
  have s: "s = APPLIED" using assms(3) by (simp add: fresh(5) out_def recorded_row [OF fresh(4)])
  from fresh(3) obtain "decide en u x who op db1 = Inr (s, res, db2)"
    by (cases rule: attempt_Inr) (simp_all add: s)
  then obtain c v where k: "validate (en_readers en) op = Inr c" "run_command en u x op c db1 = Inr (v, db2)"
  proof (cases rule: decide_Inr)
    case (stale a expected)
    then show ?thesis using s by (elim record_conflict_Inr) simp
  qed (rule that)
  have "\<not> (\<exists>q b. c = Receive_line q b) \<and> \<not> (\<exists>a e l. c = Attach_to a e l) \<and> \<not> (\<exists>s n. c = Resolve_from s n)"
    using k(1) assms(4) by (auto simp: validate_def model_validate_def Let_def VERSIONED_def rbind_Inr_iff ensure_Inr_iff
        split: capture_kind.splits)
  then have step: "asset_step x (cp_entity_id op) (cp_expected op) db1 db2" using run_command_cases [OF k(2)] by blast
  have find: "find_asset db1 o' j = find_asset db o' j" "find_asset db' o' j = find_asset db2 o' j" for o' j
    by (simp_all add: find_asset_def db1 insert_operation_Inr(1) [OF fresh(4)])
  obtain a b where "cp_expected op = Some (as_version a)" "find_asset db1 org (cp_entity_id op) = Some a"
    "find_asset db2 org (cp_entity_id op) = Some b" "as_version a < as_version b"
    "\<And>org' j. (org', j) \<noteq> (org, cp_entity_id op) \<Longrightarrow> find_asset db2 org' j = find_asset db1 org' j"
    by (rule asset_step_find [OF step]) (use assms(5) that in auto)
  then show ?thesis by (intro exI [of _ a] exI [of _ b]) (simp add: find)
qed

theorem applied_at_expected_version_witness:
  "\<exists>a b. find_asset ex_moved 1 100 = Some a \<and> Some (as_version a) = Some 2 \<and> find_asset ex_applied 1 100 = Some b
     \<and> as_version a < as_version b"
proof -
  have "find_operation ex_ctx ex_moved (cp_operation ex_legal) = None" by code_simp
  moreover have "ou_state (out False ex_applied_record) = APPLIED" "cp_kind ex_legal \<in> VERSIONED" "x_org ex_ctx = Some 1"
    by code_simp+
  ultimately show ?thesis
    using applied_at_expected_version [OF ex_apply_ok] by (fastforce simp: ex_legal_def ex_operation_def)
qed

lemma run_batch_append:
  assumes "run_batch en token ts before responses db = (Inr rs, db')"
  shows "run_batch en token ts (before @ es) responses db = run_batch en token ts es rs db'"
  using assms
proof (induction before arbitrary: responses db)
  case (Cons e before)
  then show ?case by (cases e) (auto split: sum.splits if_splits)
qed simp

lemma unreadable_evidence_raises:
  assumes "sequence x who op db = Inr (fs, db1)" "cp_actor op = actor_id who" "find_operation x db (cp_operation op) = None"
    and "cp_kind op = ATTACH_EVIDENCE" "validate (en_readers en) op = Inr (Attach_to a e role)"
    and "get_attachment x db a = Inr f" "read_content (en_sha256 en) (en_storage en) f = Inl EvidenceStorageError"
  shows "process en u x who op db = Inl EvidenceStorageError"
proof -
  obtain ss where db1: "db1 = db\<lparr>capture_streams := ss\<rparr>" using sequence_same(1) [OF assms(1)] by blast
  have "get_attachment x db1 a = Inr f" using assms(6) by (simp add: get_attachment_def db1)
  then have "decide en u x who op db1 = Inl EvidenceStorageError"
    using assms(2,4,5,7) by (simp add: decide_def ensure_def VERSIONED_def run_command_def evidence_link_def)
  then show ?thesis using assms(1,3) by (simp add: process_def attempt_def)
qed

text \<open>
  C12: evidence whose content cannot be read stops the batch wherever it stands in the queue: when the
  operations before it were processed to the end, the exception leaves the loop with the database they
  left, so the operation gets no record and no answer and none of the operations after it is processed.
\<close>

theorem unreadable_evidence_stops_batch:
  assumes "ordered queue = before @ (i, op) # rest"
    and "run_batch en token ts before (replicate (length queue) None) db = (Inr rs, db1)"
    and "authenticated (en_sha256 en) (tx_context (ts i)) db1 (Some token) = Inr (x, who)"
    and "find_operation x db1 (cp_operation op) = None" "sequence x who op db1 = Inr (fs, db2)" "cp_actor op = actor_id who"
    and "cp_kind op = ATTACH_EVIDENCE" "validate (en_readers en) op = Inr (Attach_to a e role)"
    and "get_attachment x db1 a = Inr f" "read_content (en_sha256 en) (en_storage en) f = Inl EvidenceStorageError"
  shows "batch en token ts queue db = (Inl EvidenceStorageError, db1)"
proof -
  have "process en (tx_uuid7 (ts i)) x who op db1 = Inl EvidenceStorageError"
    by (rule unreadable_evidence_raises [OF assms(5,6,4,7-10)])
  then show ?thesis
    using run_batch_append [OF assms(2), of "(i, op) # rest"] assms(1,3) by (simp add: batch_def transaction_def)
qed

theorem unreadable_evidence_stops_batch_witness:
  "batch ex_env ex_token ex_steps [ex_second, ex_first, ex_third] ex_evidenced = (Inl EvidenceStorageError, ex_answered)"
  by (rule unreadable_evidence_stops_batch [OF ex_second_facts(1) ex_answered_run ex_second_facts(2-8) ex_attach_facts(9)])

lemma run_batch_Cons:
  obtains (go) r d where "\<And>es responses. run_batch en token ts ((i, op) # es) responses db
      = run_batch en token ts es (responses[i := Some r]) d"
  | (stop) f where "transaction en token (ts i) op db = Inl f" "\<not> rolled_back f"
      "\<And>es responses. run_batch en token ts ((i, op) # es) responses db = (Inl f, db)"
proof (cases "transaction en token (ts i) op db")
  case (Inr s)
  obtain r d where "s = (r, d)" by force
  then show ?thesis using Inr by (intro go [of r d]) simp
next
  case (Inl f)
  then show ?thesis
  proof (cases "rolled_back f")
    case True
    then show ?thesis using Inl by (intro go [of "unavailable op" db]) simp
  next
    case False
    then show ?thesis using Inl by (intro stop [of f]) simp_all
  qed
qed

lemma run_batch_interrupted:
  assumes "run_batch en token ts es responses db = (Inl e, db')"
  shows "\<exists>before i op rest rs. es = before @ (i, op) # rest \<and> run_batch en token ts before responses db = (Inr rs, db')
     \<and> transaction en token (ts i) op db' = Inl e \<and> \<not> rolled_back e"
  using assms
proof (induction es arbitrary: responses db)
  case (Cons e' es)
  obtain i op where e': "e' = (i, op)" by force
  show ?case
  proof (cases rule: run_batch_Cons [of en token ts i op db])
    case (go r d)
    then obtain before j op' rest rs where "es = before @ (j, op') # rest"
      "run_batch en token ts before (responses[i := Some r]) d = (Inr rs, db')"
      "transaction en token (ts j) op' db' = Inl e" "\<not> rolled_back e"
      using Cons.IH Cons.prems unfolding e' by metis
    then show ?thesis using go by (intro exI [of _ "(i, op) # before"]) (simp add: e')
  next
    case (stop f)
    then have "f = e \<and> db = db'" using Cons.prems stop(3) [of es responses] unfolding e' by simp
    then show ?thesis using stop(1,2) by (intro exI [of _ "[]"]) (simp add: e')
  qed
qed simp

text \<open>
  What was committed before an exception left a batch stays: the database is that of the batch of
  the operations before the failing one, each of which was answered, and the failing one left no trace.
\<close>

theorem interrupted_batch_durable:
  assumes "batch en token ts queue db = (Inl e, db')"
  shows "\<exists>before i op rest rs. ordered queue = before @ (i, op) # rest
     \<and> run_batch en token ts before (replicate (length queue) None) db = (Inr rs, db')
     \<and> transaction en token (ts i) op db' = Inl e \<and> \<not> rolled_back e"
  using run_batch_interrupted assms by (simp add: batch_def)

theorem interrupted_batch_durable_witness:
  "\<exists>before i op rest rs. ordered [ex_attach, ex_next] = before @ (i, op) # rest
     \<and> run_batch ex_env ex_token ex_steps before (replicate (length [ex_attach, ex_next]) None) ex_evidenced = (Inr rs, ex_evidenced)
     \<and> transaction ex_env ex_token (ex_steps i) op ex_evidenced = Inl EvidenceStorageError
     \<and> \<not> rolled_back EvidenceStorageError"
  by (rule interrupted_batch_durable [OF ex_interrupted])

end
