(* ===== verification/Labels.thy ===== *)
theory Labels
  imports Evidence
begin

unbundle bit_operations_syntax

text \<open>
  Labels: the templates and print jobs of \<open>0013_labels.py\<close> and \<open>db/label_schema.py\<close>, rendering
  (\<open>labels/render.py\<close>), the adapters and their artifact store (\<open>labels/adapters\<close>) and the service
  \<open>labels/service.py\<close>.

  Pillow and zxing are parameters, gathered in \<open>canvas\<close>; so are \<open>strip_whitespace\<close> of Pydantic and the
  characters of the POSIX class \<open>[:cntrl:]\<close> in the database's locale.  Operating-system failures of a
  publication are an input, one for each step that can fail.
\<close>

section \<open>Rendering\<close>

text \<open>\<open>str.splitlines\<close>.\<close>

definition line_boundary :: "nat \<Rightarrow> bool" where
  "line_boundary c \<longleftrightarrow> c \<in> {10, 11, 12, 13, 28, 29, 30, 133, 8232, 8233}"

fun splitlines :: "pgtext \<Rightarrow> pgtext list" where
  "splitlines [] = []"
| "splitlines (c # cs) =
     (if c = 13 \<and> take 1 cs = [10] then [] # splitlines (drop 1 cs)
      else if line_boundary c then [] # splitlines cs
      else (case splitlines cs of [] \<Rightarrow> [[c]] | l # ls \<Rightarrow> (c # l) # ls))"

text \<open>The inner loop of \<open>render\<close>: \<open>wider t\<close> says that the font draws \<open>t\<close> beyond the margin.\<close>

fun wrap_line :: "(pgtext \<Rightarrow> bool) \<Rightarrow> pgtext \<Rightarrow> pgtext \<Rightarrow> pgtext list" where
  "wrap_line wider current [] = [current]"
| "wrap_line wider current (c # cs) =
     (if current \<noteq> [] \<and> wider (current @ [c]) then current # wrap_line wider [c] cs
      else wrap_line wider (current @ [c]) cs)"

fun caption :: "human_field \<Rightarrow> pgtext" where
  "caption ID_FIELD = lit ''FleetOps ID''"
| "caption ASSET_TAG_FIELD = lit ''Asset tag''"
| "caption DESCRIPTION_FIELD = lit ''Description''"
| "caption ITEM_MPN_FIELD = lit ''Part''"

fun field_value :: "snapshot \<Rightarrow> human_field \<Rightarrow> pgtext" where
  "field_value s ID_FIELD = sn_id s"
| "field_value s ASSET_TAG_FIELD = sn_tag s"
| "field_value s DESCRIPTION_FIELD = sn_description s"
| "field_value s ITEM_MPN_FIELD = sn_mpn s"

definition field_line :: "snapshot \<Rightarrow> human_field \<Rightarrow> pgtext" where
  "field_line s f = caption f @ lit '': '' @ field_value s f"

definition label_lines :: "(pgtext \<Rightarrow> bool) \<Rightarrow> snapshot \<Rightarrow> pgtext list" where
  "label_lines wider s =
     concat (map (\<lambda>f. concat (map (wrap_line wider []) (splitlines (field_line s f)))) (sn_fields s))"

text \<open>
  \<open>uuid.UUID\<close> on text: it drops \<open>urn:\<close>, \<open>uuid:\<close>, braces and hyphens and reads 32 hexadecimal digits.
  \<open>int(\<dots>, 16)\<close> also admits signs, blanks and underscores, which no captured identifier contains.
\<close>

function remove_all :: "pgtext \<Rightarrow> pgtext \<Rightarrow> pgtext" where
  "remove_all p [] = []"
| "remove_all p (c # cs) =
     (if p \<noteq> [] \<and> take (length p) (c # cs) = p then remove_all p (drop (length p) (c # cs))
      else c # remove_all p cs)"
  by pat_completeness auto

termination
  by (relation "measure (\<lambda>(p, t). length t)") (auto simp: length_drop diff_less_Suc)

definition either_hex :: "nat \<Rightarrow> nat option" where
  "either_hex c =
     (if is_hex c then Some (hex_value c) else if 65 \<le> c \<and> c \<le> 70 then Some (c - 55) else None)"

definition read_hex :: "pgtext \<Rightarrow> nat option" where
  "read_hex t = fold (\<lambda>c m. Option.bind m (\<lambda>n. map_option (\<lambda>d. 16 * n + d) (either_hex c))) t (Some 0)"

definition parse_uuid :: "pgtext \<Rightarrow> uuid option" where
  "parse_uuid t =
     (let h = filter (\<lambda>c. c \<noteq> 45) (btrim_set {123, 125} (remove_all (lit ''uuid:'') (remove_all (lit ''urn:'') t))) in
      if length h = 32 then read_hex h else None)"

record image =
  im_width :: nat
  im_height :: nat
  im_pixels :: bytes

record canvas =
  cv_barcode :: "pgtext \<Rightarrow> symbology \<Rightarrow> image option"
  cv_longer :: "pgtext \<Rightarrow> nat \<Rightarrow> bool"
  cv_blank :: "nat \<times> nat \<Rightarrow> image"
  cv_paste :: "image \<Rightarrow> nat \<times> nat \<Rightarrow> image \<Rightarrow> image"
  cv_text :: "pgtext \<Rightarrow> nat \<times> nat \<Rightarrow> image \<Rightarrow> image"
  cv_png :: "image \<Rightarrow> bytes"
  cv_pdf :: "image \<Rightarrow> bytes"
  cv_mono :: "image \<Rightarrow> nat \<times> nat \<times> bytes"

record label =
  lb_image :: image
  lb_payload :: pgtext

definition label_width :: "image \<Rightarrow> nat" where
  "label_width symbol = max 1200 (im_width symbol + 48)"

definition compose :: "canvas \<Rightarrow> image \<Rightarrow> pgtext list \<Rightarrow> image" where
  "compose cv symbol ls =
     (let w = label_width symbol;
          blank = cv_blank cv (w, im_height symbol + 64 + 30 * length ls);
          pasted = cv_paste cv symbol ((w - im_width symbol) div 2, 24) blank
      in fold (\<lambda>(i, l). cv_text cv l (24, im_height symbol + 48 + i * 30)) (List.enumerate 0 ls) pasted)"

text \<open>\<open>None\<close> is a \<open>ValueError\<close>, \<open>TypeError\<close>, \<open>KeyError\<close> or \<open>RuntimeError\<close>.\<close>

definition render :: "canvas \<Rightarrow> snapshot \<Rightarrow> label option" where
  "render cv s =
     Option.bind (parse_uuid (sn_id s)) (\<lambda>u.
     Option.bind (cv_barcode cv (uuid_text u) (sn_symbology s)) (\<lambda>symbol.
       Some \<lparr>lb_image = compose cv symbol (label_lines (\<lambda>t. cv_longer cv t (label_width symbol - 48)) s),
             lb_payload = uuid_text u\<rparr>))"

section \<open>Artifacts\<close>

datatype artifact_fault =
    No_fault | Redirected_path | Directory_fails | File_fails | Publish_fails | Redirected_late | Reread_fails
  | Cleanup_fails

type_synonym artifacts = "(uuid \<times> uuid \<times> output_format) \<Rightarrow> bytes option"

definition artifact_limit :: nat where
  "artifact_limit = 4194304"

definition artifact_publish ::
  "(bytes \<Rightarrow> bytes) \<Rightarrow> artifact_fault \<Rightarrow> uuid \<Rightarrow> uuid \<Rightarrow> output_format \<Rightarrow> bytes \<Rightarrow> artifacts
   \<Rightarrow> (py_error + pgtext) \<times> artifacts" where
  "artifact_publish sha256 f org job fmt content st =
     (if length content > artifact_limit \<or> f \<in> {Redirected_path, Directory_fails, File_fails, Publish_fails}
      then (Inl OutputUnavailable, st)
      else
        (case st (org, job, fmt) of
           None \<Rightarrow>
             (if f \<in> {Redirected_late, Cleanup_fails} then Inl OutputUnavailable else Inr (hexdigest sha256 content),
              st((org, job, fmt) \<mapsto> content))
         | Some old \<Rightarrow>
             (if f \<in> {Redirected_late, Reread_fails, Cleanup_fails} \<or> length old > artifact_limit \<or> old \<noteq> content
              then Inl OutputUnavailable else Inr (hexdigest sha256 content), st)))"

definition artifact_read ::
  "(bytes \<Rightarrow> bytes) \<Rightarrow> uuid \<Rightarrow> uuid \<Rightarrow> output_format \<Rightarrow> pgtext \<Rightarrow> artifacts \<Rightarrow> py_error + bytes" where
  "artifact_read sha256 org job fmt expected st =
     (case st (org, job, fmt) of
        None \<Rightarrow> Inl OutputUnavailable
      | Some content \<Rightarrow>
          ensure (length content \<le> artifact_limit \<and> hexdigest sha256 content = expected) OutputUnavailable (Inr content))"

text \<open>The adapters: what they publish for a label and a format.\<close>

fun decimal :: "nat \<Rightarrow> pgtext" where
  "decimal n = (if n < 10 then [48 + n] else decimal (n div 10) @ [48 + n mod 10])"

declare decimal.simps [simp del]

definition upper_hex :: "bytes \<Rightarrow> pgtext" where
  "upper_hex bs = map (\<lambda>c. if 97 \<le> c then c - 32 else c) (hex_encode bs)"

definition zpl_text :: "nat \<times> nat \<times> bytes \<Rightarrow> pgtext" where
  "zpl_text m =
     (let (w, h, bits) = m; raster = map (\<lambda>b. b XOR 255) bits; row = (w + 7) div 8 in
      lit ''^XA^PW'' @ decimal w @ lit ''^LL'' @ decimal h @ lit ''^FO0,0^GFA,'' @ decimal (length raster) @ lit '',''
        @ decimal (length raster) @ lit '','' @ decimal row @ lit '','' @ upper_hex raster @ lit ''^FS^XZ'')"

definition adapter_for :: "output_format \<Rightarrow> adapter_name" where
  "adapter_for fmt = (if fmt = ZPL then ZPL_ADAPTER else FILE_ADAPTER)"

definition encode_label :: "canvas \<Rightarrow> adapter_name \<Rightarrow> output_format \<Rightarrow> label \<Rightarrow> py_error + bytes" where
  "encode_label cv a fmt lb =
     (case (a, fmt) of
        (FILE_ADAPTER, PNG) \<Rightarrow> Inr (cv_png cv (lb_image lb))
      | (FILE_ADAPTER, PDF) \<Rightarrow> Inr (cv_pdf cv (lb_image lb))
      | (ZPL_ADAPTER, ZPL) \<Rightarrow> Inr (zpl_text (cv_mono cv (lb_image lb)))
      | _ \<Rightarrow> Inl ValueError)"

section \<open>Templates\<close>

record template_request =
  tq_name :: pgtext
  tq_fields :: "human_field list"
  tq_symbology :: symbology

text \<open>\<open>TemplateCreate\<close>: the stripped name and the distinct fields.\<close>

definition template_name :: "(pgtext \<Rightarrow> pgtext) \<Rightarrow> pgtext \<Rightarrow> py_error + pgtext" where
  "template_name strip raw =
     (let n = strip raw in
      ensure (length_between 1 100 n \<and> (\<forall>c \<in> set n. 32 \<le> c \<and> c \<noteq> 127)) ValidationError (Inr n))"

definition template_validate :: "(pgtext \<Rightarrow> pgtext) \<Rightarrow> template_request \<Rightarrow> py_error + template_request" where
  "template_validate strip q =
     rbind (template_name strip (tq_name q)) (\<lambda>n.
       ensure (1 \<le> length (tq_fields q) \<and> length (tq_fields q) \<le> 4 \<and> distinct (tq_fields q)) ValidationError
         (Inr (q\<lparr>tq_name := n\<rparr>)))"

definition guard_label_template :: "ctx \<Rightarrow> fleet \<Rightarrow> template_row \<Rightarrow> sqlstate + template_row" where
  "guard_label_template x db new =
     (if x_app x
      then rbind (current_authenticated_actor x db) (\<lambda>performer.
             Inr (new\<lparr>lt_created_by := performer, lt_created_at := At (x_now x)\<rparr>))
      else Inr new)"

definition template_check :: "(nat \<Rightarrow> bool) \<Rightarrow> template_row \<Rightarrow> bool" where
  "template_check cntrl t \<longleftrightarrow> length_between 1 100 (btrim (lt_name t)) \<and> (\<forall>c \<in> set (lt_name t). \<not> cntrl c)
     \<and> 1 \<le> length (lt_fields t) \<and> length (lt_fields t) \<le> 4 \<and> isfinite (lt_created_at t)"

definition insert_template ::
  "(nat \<Rightarrow> bool) \<Rightarrow> ctx \<Rightarrow> template_row \<Rightarrow> fleet \<Rightarrow> sqlstate + (template_row \<times> fleet)" where
  "insert_template cntrl x new db =
     rbind (guard_label_template x db new) (\<lambda>t.
       ensure (visible x (lt_org t)) E42501
         (ensure (template_check cntrl t) E23514
           (ensure (\<forall>u \<in> set (label_templates db). lt_id u \<noteq> lt_id t) E23505
             (ensure (lt_org t \<in> set (organizations db) \<and> actor_exists db (lt_org t) (lt_created_by t)) E23503
               (Inr (t, db\<lparr>label_templates := label_templates db @ [t]\<rparr>))))))"

definition create_template ::
  "(pgtext \<Rightarrow> pgtext) \<Rightarrow> (nat \<Rightarrow> bool) \<Rightarrow> ctx \<Rightarrow> uuid \<Rightarrow> uuid \<Rightarrow> template_request \<Rightarrow> fleet
   \<Rightarrow> py_error + (template_row \<times> fleet)" where
  "create_template strip cntrl x org fresh q db =
     rbind (template_validate strip q) (\<lambda>v.
       map_error DBError (insert_template cntrl x
         \<lparr>lt_id = fresh, lt_org = org, lt_name = tq_name v, lt_fields = tq_fields v, lt_symbology = tq_symbology v,
          lt_created_by = 0, lt_created_at = At 0\<rparr> db))"

definition get_template :: "ctx \<Rightarrow> fleet \<Rightarrow> uuid \<Rightarrow> py_error + template_row" where
  "get_template x db i =
     from_option LabelNotFound (List.find (\<lambda>t. visible x (lt_org t) \<and> lt_id t = i) (label_templates db))"

section \<open>Print jobs\<close>

text \<open>What the guard captures from the rows of the job's tenant that the caller may see.\<close>

definition captured_snapshot :: "ctx \<Rightarrow> fleet \<Rightarrow> job_row \<Rightarrow> snapshot option" where
  "captured_snapshot x db j =
     (if \<not> visible x (pj_org j) then None else
      Option.bind (List.find (\<lambda>a. as_org a = pj_org j \<and> as_id a = pj_asset j) (assets db)) (\<lambda>a.
      Option.bind (List.find (\<lambda>i. it_org i = as_org a \<and> it_id i = as_item a) (items db)) (\<lambda>i.
      Option.bind (List.find (\<lambda>t. lt_org t = as_org a \<and> lt_id t = pj_template j) (label_templates db)) (\<lambda>t.
        Some \<lparr>sn_id = uuid_text (as_id a), sn_tag = as_tag a, sn_description = as_description a, sn_mpn = it_mpn i,
              sn_fields = lt_fields t, sn_symbology = lt_symbology t\<rparr>))))"

definition guard_new_job :: "ctx \<Rightarrow> fleet \<Rightarrow> job_row \<Rightarrow> sqlstate + job_row" where
  "guard_new_job x db new =
     rbind (from_option E23514 (captured_snapshot x db new)) (\<lambda>s.
       ensure (pj_status new = PENDING \<and> pj_attempts new = 0 \<and> pj_sha256 new = None \<and> pj_error new = None
               \<and> pj_updated_at new = None \<and> pj_updated_by new = None) E23514
         (if x_app x
          then rbind (current_authenticated_actor x db) (\<lambda>performer.
                 Inr (new\<lparr>pj_snapshot := s, pj_requested_by := performer, pj_requested_at := At (x_now x)\<rparr>))
          else Inr (new\<lparr>pj_snapshot := s\<rparr>)))"

definition job_request :: "job_row \<Rightarrow> job_row" where
  "job_request j = j\<lparr>pj_status := PENDING, pj_sha256 := None, pj_error := None, pj_attempts := 0,
                     pj_updated_by := None, pj_updated_at := None\<rparr>"

definition guard_job_update :: "ctx \<Rightarrow> fleet \<Rightarrow> job_row \<Rightarrow> job_row \<Rightarrow> sqlstate + job_row" where
  "guard_job_update x db old new =
     ensure (job_request new = job_request old) E23514
       (ensure (pj_status old \<noteq> SUCCEEDED \<and> pj_status new \<in> {SUCCEEDED, FAILED}) E23514
         (rbind (current_authenticated_actor x db) (\<lambda>performer.
          rbind (int4_add (pj_attempts old) 1) (\<lambda>n.
            Inr (new\<lparr>pj_attempts := n, pj_updated_by := Some performer, pj_updated_at := Some (At (x_now x))\<rparr>)))))"

definition delivery_check :: "job_row \<Rightarrow> bool" where
  "delivery_check j \<longleftrightarrow>
     (pj_status j = PENDING \<and> pj_attempts j = 0 \<and> pj_sha256 j = None \<and> pj_error j = None \<and> pj_updated_by j = None
        \<and> pj_updated_at j = None)
     \<or> (pj_status j \<in> {SUCCEEDED, FAILED} \<and> pj_attempts j > 0 \<and> pj_updated_by j \<noteq> None \<and> pj_updated_at j \<noteq> None
        \<and> (pj_status j = SUCCEEDED \<and> pj_sha256 j \<noteq> None \<and> holds_if sha256_shape (pj_sha256 j) \<and> pj_error j = None
           \<or> pj_status j = FAILED \<and> pj_sha256 j = None \<and> pj_error j \<noteq> None))"

definition job_check :: "job_row \<Rightarrow> bool" where
  "job_check j \<longleftrightarrow>
     (pj_adapter j = FILE_ADAPTER \<and> pj_format j \<in> {PNG, PDF} \<or> pj_adapter j = ZPL_ADAPTER \<and> pj_format j = ZPL)
     \<and> sn_id (pj_snapshot j) = uuid_text (pj_asset j) \<and> delivery_check j
     \<and> isfinite (pj_requested_at j) \<and> holds_if isfinite (pj_updated_at j)"

definition insert_job :: "ctx \<Rightarrow> job_row \<Rightarrow> fleet \<Rightarrow> sqlstate + (job_row \<times> fleet)" where
  "insert_job x new db =
     rbind (guard_new_job x db new) (\<lambda>j.
       ensure (visible x (pj_org j)) E42501
         (ensure (job_check j) E23514
           (ensure (\<forall>k \<in> set (print_jobs db). pj_id k \<noteq> pj_id j) E23505
             (ensure (pj_org j \<in> set (organizations db) \<and> actor_exists db (pj_org j) (pj_requested_by j)
                      \<and> asset_exists db (pj_org j) (pj_asset j)
                      \<and> (\<exists>t \<in> set (label_templates db). lt_org t = pj_org j \<and> lt_id t = pj_template j)) E23503
               (Inr (j, db\<lparr>print_jobs := print_jobs db @ [j]\<rparr>))))))"

definition update_job ::
  "ctx \<Rightarrow> job_row \<Rightarrow> print_status \<Rightarrow> pgtext option \<Rightarrow> print_error option \<Rightarrow> fleet \<Rightarrow> sqlstate + (job_row \<times> fleet)"
where
  "update_job x old s digest e db =
     rbind (guard_job_update x db old (old\<lparr>pj_status := s, pj_sha256 := digest, pj_error := e\<rparr>)) (\<lambda>j.
       ensure (job_check j) E23514
         (ensure (\<forall>u \<in> set_option (pj_updated_by j). actor_exists db (pj_org j) u) E23503
           (Inr (j, db\<lparr>print_jobs := map (\<lambda>k. if pj_id k = pj_id old then j else k) (print_jobs db)\<rparr>))))"

section \<open>The service\<close>

definition enqueue ::
  "ctx \<Rightarrow> uuid \<Rightarrow> uuid \<Rightarrow> uuid \<Rightarrow> uuid \<Rightarrow> output_format \<Rightarrow> fleet \<Rightarrow> py_error + (job_row \<times> fleet)" where
  "enqueue x org fresh asset template fmt db =
     rbind (get_template x db template) (\<lambda>_.
       ensure (\<exists>a \<in> set (assets db). visible x (as_org a) \<and> as_id a = asset) LabelNotFound
         (map_error DBError (insert_job x
            \<lparr>pj_id = fresh, pj_org = org, pj_template = template, pj_asset = asset, pj_requested_by = 0,
             pj_requested_at = At 0, pj_status = PENDING, pj_adapter = adapter_for fmt, pj_format = fmt,
             pj_snapshot = \<lparr>sn_id = [], sn_tag = [], sn_description = [], sn_mpn = [], sn_fields = [], sn_symbology = CODE128\<rparr>,
             pj_attempts = 0, pj_sha256 = None, pj_error = None, pj_updated_by = None, pj_updated_at = None\<rparr> db)))"

definition receipt_targets :: "ctx \<Rightarrow> fleet \<Rightarrow> uuid \<Rightarrow> uuid list" where
  "receipt_targets x db receipt =
     take 501 (sort (remdups (List.map_filter rl_asset
       (filter (\<lambda>l. visible x (rl_org l) \<and> rl_receipt l = receipt) (receipt_lines db)))))"

fun enqueue_all ::
  "ctx \<Rightarrow> uuid \<Rightarrow> (nat \<Rightarrow> uuid) \<Rightarrow> uuid list \<Rightarrow> uuid \<Rightarrow> output_format \<Rightarrow> fleet \<Rightarrow> py_error + (job_row list \<times> fleet)"
where
  "enqueue_all x org fresh [] template fmt db = Inr ([], db)"
| "enqueue_all x org fresh (t # ts) template fmt db =
     rbind (enqueue x org (fresh (length ts)) t template fmt db) (\<lambda>(j, db1).
     rbind (enqueue_all x org fresh ts template fmt db1) (\<lambda>(js, db2). Inr (j # js, db2)))"

definition enqueue_receipt ::
  "ctx \<Rightarrow> uuid \<Rightarrow> (nat \<Rightarrow> uuid) \<Rightarrow> uuid \<Rightarrow> uuid \<Rightarrow> output_format \<Rightarrow> fleet \<Rightarrow> py_error + (job_row list \<times> fleet)"
where
  "enqueue_receipt x org fresh receipt template fmt db =
     rbind (get_template x db template) (\<lambda>_.
       ensure (\<exists>r \<in> set (receipts db). visible x (rc_org r) \<and> rc_id r = receipt) LabelNotFound
         (let targets = receipt_targets x db receipt in
          ensure (length targets \<le> 500) LabelConflict (enqueue_all x org fresh targets template fmt db)))"

definition get_job :: "ctx \<Rightarrow> fleet \<Rightarrow> uuid \<Rightarrow> py_error + job_row" where
  "get_job x db i =
     from_option LabelNotFound (List.find (\<lambda>j. visible x (pj_org j) \<and> pj_id j = i) (print_jobs db))"

text \<open>Without a configured root the registry of adapters is empty.\<close>

record printing =
  pr_sha256 :: "bytes \<Rightarrow> bytes"
  pr_configured :: bool
  pr_canvas :: "canvas"
  pr_fault :: artifact_fault

definition read_artifact ::
  "printing \<Rightarrow> ctx \<Rightarrow> uuid \<Rightarrow> artifacts \<Rightarrow> fleet \<Rightarrow> py_error + (job_row \<times> bytes)" where
  "read_artifact pr x i st db =
     rbind (get_job x db i) (\<lambda>j.
       ensure (pj_status j = SUCCEEDED) LabelConflict
         (ensure (pr_configured pr) OutputUnavailable
           (rbind (from_option OutputUnavailable (pj_sha256 j)) (\<lambda>d.
            rbind (artifact_read (pr_sha256 pr) (pj_org j) (pj_id j) (pj_format j) d st) (\<lambda>content. Inr (j, content))))))"

text \<open>One delivery: the new status, digest and error, and the store it leaves.\<close>

type_synonym delivery = "print_status \<times> pgtext option \<times> print_error option"

definition deliver :: "printing \<Rightarrow> job_row \<Rightarrow> artifacts \<Rightarrow> (py_error + delivery) \<times> artifacts" where
  "deliver pr j st =
     (if \<not> pr_configured pr then (Inr (FAILED, None, Some OUTPUT_UNAVAILABLE_ERROR), st)
      else
        (case render (pr_canvas pr) (pj_snapshot j) of
           None \<Rightarrow> (Inr (FAILED, None, Some RENDER_FAILED), st)
         | Some lb \<Rightarrow>
             (case encode_label (pr_canvas pr) (pj_adapter j) (pj_format j) lb of
                Inl e \<Rightarrow> (Inl e, st)
              | Inr content \<Rightarrow>
                  (case artifact_publish (pr_sha256 pr) (pr_fault pr) (pj_org j) (pj_id j) (pj_format j) content st of
                     (Inr d, st') \<Rightarrow> (Inr (SUCCEEDED, Some d, None), st')
                   | (Inl _, st') \<Rightarrow> (Inr (FAILED, None, Some OUTPUT_UNAVAILABLE_ERROR), st')))))"

definition dispatch ::
  "printing \<Rightarrow> ctx \<Rightarrow> uuid \<Rightarrow> artifacts \<Rightarrow> fleet \<Rightarrow> (py_error + (job_row \<times> fleet)) \<times> artifacts" where
  "dispatch pr x i st db =
     (case get_job x db i of
        Inl e \<Rightarrow> (Inl e, st)
      | Inr j \<Rightarrow>
          if pj_status j = SUCCEEDED
          then (rbind (read_artifact pr x i st db) (\<lambda>_. Inr (j, db)), st)
          else
            (case deliver pr j st of
               (Inl e, st') \<Rightarrow> (Inl e, st')
             | (Inr (s, d, e), st') \<Rightarrow> (map_error DBError (update_job x j s d e db), st')))"

section \<open>Identifiers read back\<close>

lemma remove_all_absent: "p \<noteq> [] \<Longrightarrow> hd p \<notin> set t \<Longrightarrow> remove_all p t = t"
proof (induction p t rule: remove_all.induct)
  case (2 p c cs)
  then have "take (length p) (c # cs) \<noteq> p" by (cases p) auto
  then show ?case using 2 by auto
qed simp

lemma btrim_set_absent:
  assumes "\<forall>c \<in> set t. c \<notin> cs"
  shows "btrim_set cs t = t"
proof -
  have "dropWhile (\<lambda>c. c \<in> cs) s = s" if "set s \<subseteq> set t" for s
    using assms that by (cases s) auto
  then show ?thesis by (simp add: btrim_set_def)
qed

lemma hex_digits_facts:
  "length (hex_digits k n) = k" "c \<in> set (hex_digits k n) \<Longrightarrow> is_hex c"
  by (induction k arbitrary: n) (auto simp: hex_digit_is_hex)

lemma read_hex_snoc:
  "read_hex (t @ [c]) = Option.bind (read_hex t) (\<lambda>n. map_option (\<lambda>d. 16 * n + d) (either_hex c))"
  by (simp add: read_hex_def)

lemma read_hex_digits: "read_hex (hex_digits k n) = Some (n mod 16 ^ k)"
proof (induction k arbitrary: n)
  case (Suc k)
  have "either_hex (hex_digit (n mod 16)) = Some (n mod 16)"
    using hex_digit_is_hex [of "n mod 16"] hex_value_digit [of "n mod 16"] by (simp add: either_hex_def)
  moreover have "n mod 16 ^ Suc k = 16 * (n div 16 mod 16 ^ k) + n mod 16"
    by (simp add: mod_mult2_eq)
  ultimately show ?case by (simp add: read_hex_snoc Suc.IH)
qed (simp add: read_hex_def)

lemma uuid_text_hyphens: "filter (\<lambda>c. c \<noteq> 45) (uuid_text u) = hex_digits 32 u"
proof -
  let ?d = "hex_digits 32 u"
  have "\<forall>c \<in> set ?d. c \<noteq> 45" using hex_digits_facts(2) by (fastforce simp: is_hex_def)
  then have k: "filter (\<lambda>c. c \<noteq> 45) (take n (drop m ?d)) = take n (drop m ?d)"
    "filter (\<lambda>c. c \<noteq> 45) (drop m ?d) = drop m ?d" for n m
    by (auto simp: filter_id_conv dest!: in_set_takeD in_set_dropD)
  have "take 8 ?d @ take 4 (drop 8 ?d) @ take 4 (drop 12 ?d) @ take 4 (drop 16 ?d) @ drop 20 ?d = ?d"
  proof -
    have "take 4 (drop 16 ?d) @ drop 20 ?d = drop 16 ?d" using append_take_drop_id [of 4 "drop 16 ?d"] by simp
    moreover have "take 4 (drop 12 ?d) @ drop 16 ?d = drop 12 ?d" using append_take_drop_id [of 4 "drop 12 ?d"] by simp
    moreover have "take 4 (drop 8 ?d) @ drop 12 ?d = drop 8 ?d" using append_take_drop_id [of 4 "drop 8 ?d"] by simp
    ultimately show ?thesis by simp
  qed
  then show ?thesis using k(1) [of 8 0] by (simp add: uuid_text_def Let_def k)
qed

lemma uuid_text_chars: "c \<in> set (uuid_text u) \<Longrightarrow> is_hex c \<or> c = 45"
  using hex_digits_facts(2) [of c 32 u]
  by (auto simp: uuid_text_def Let_def dest!: in_set_takeD in_set_dropD)

lemma parse_uuid_text: "u < 2 ^ 128 \<Longrightarrow> parse_uuid (uuid_text u) = Some u"
proof -
  assume u: "u < 2 ^ 128"
  have no: "117 \<notin> set (uuid_text u)" "\<forall>c \<in> set (uuid_text u). c \<notin> {123, 125}"
    using uuid_text_chars by (fastforce simp: is_hex_def)+
  have hd: "hd (lit ''urn:'') = 117" "hd (lit ''uuid:'') = 117" "lit ''urn:'' \<noteq> []" "lit ''uuid:'' \<noteq> []"
    by (simp_all add: lit_def)
  have trim: "btrim_set {123, 125} (uuid_text u) = uuid_text u" by (rule btrim_set_absent [OF no(2)])
  have "(16 :: nat) ^ 32 = 2 ^ 128" by simp
  then show ?thesis
    using u by (simp add: parse_uuid_def Let_def remove_all_absent hd no(1) trim uuid_text_hyphens
        hex_digits_facts(1) read_hex_digits)
qed

end
