(* ===== verification/LabelExample.thy ===== *)
theory LabelExample
  imports Labels ReceivingExample "HOL-Library.Code_Target_Nat"
begin

text \<open>
  A template, a job for one Asset, its delivery, and a receipt to label, for the concrete instances of
  the label properties.
\<close>

definition ex_canvas :: canvas where
  "ex_canvas =
     \<lparr>cv_barcode = (\<lambda>t _. Some \<lparr>im_width = 10, im_height = 10, im_pixels = t\<rparr>), cv_longer = (\<lambda>t n. n < 10 * length t),
      cv_blank = (\<lambda>(w, h). \<lparr>im_width = w, im_height = h, im_pixels = []\<rparr>),
      cv_paste = (\<lambda>s _ i. i\<lparr>im_pixels := im_pixels i @ im_pixels s\<rparr>),
      cv_text = (\<lambda>t _ i. i\<lparr>im_pixels := im_pixels i @ t\<rparr>),
      cv_png = im_pixels, cv_pdf = im_pixels, cv_mono = (\<lambda>i. (8, 1, [15]))\<rparr>"

definition ex_printing :: printing where
  "ex_printing =
     \<lparr>pr_sha256 = (\<lambda>_. replicate 32 0), pr_configured = True, pr_canvas = ex_canvas, pr_fault = No_fault\<rparr>"

definition ex_template :: template_row where
  "ex_template =
     \<lparr>lt_id = 401, lt_org = 1, lt_name = [78], lt_fields = [ASSET_TAG_FIELD, ITEM_MPN_FIELD], lt_symbology = CODE128,
      lt_created_by = 10, lt_created_at = At 1000\<rparr>"

definition ex_templated :: fleet where
  "ex_templated = ex_stocked\<lparr>label_templates := [ex_template]\<rparr>"

definition ex_job :: job_row where
  "ex_job =
     \<lparr>pj_id = 402, pj_org = 1, pj_template = 401, pj_asset = 100, pj_requested_by = 10, pj_requested_at = At 1000,
      pj_status = PENDING, pj_adapter = FILE_ADAPTER, pj_format = PNG,
      pj_snapshot = \<lparr>sn_id = uuid_text 100, sn_tag = [84], sn_description = [68], sn_mpn = [77],
        sn_fields = [ASSET_TAG_FIELD, ITEM_MPN_FIELD], sn_symbology = CODE128\<rparr>,
      pj_attempts = 0, pj_sha256 = None, pj_error = None, pj_updated_by = None, pj_updated_at = None\<rparr>"

definition ex_queued :: fleet where
  "ex_queued = ex_templated\<lparr>print_jobs := [ex_job]\<rparr>"

definition ex_content :: bytes where
  "ex_content = uuid_text 100 @ lit ''Asset tag: T'' @ lit ''Part: M''"

definition ex_printed_job :: job_row where
  "ex_printed_job = ex_job
     \<lparr>pj_status := SUCCEEDED, pj_attempts := 1, pj_sha256 := Some (replicate 64 48), pj_updated_by := Some 10,
      pj_updated_at := Some (At 1000)\<rparr>"

definition ex_printed :: fleet where
  "ex_printed = ex_templated\<lparr>print_jobs := [ex_printed_job]\<rparr>"

definition ex_artifacts :: artifacts where
  "ex_artifacts = [(1, 402, PNG) \<mapsto> ex_content]"

definition ex_shelf :: fleet where
  "ex_shelf = ex_templated\<lparr>receipts := [ex_header\<lparr>rc_id := 200, rc_org := 1\<rparr>], receipt_lines := [ex_line\<lparr>rl_asset := Some 100\<rparr>]\<rparr>"

lemma ex_stocked_tables:
  "organizations ex_stocked = [1]" "actors ex_stocked = actors ex_base" "items ex_stocked = items ex_base"
  "sessions ex_stocked = sessions ex_base" "users ex_stocked = users ex_base"
  "assets ex_stocked = [ex_asset\<lparr>as_location := Some 40, as_version := 3, as_state := Some IN_STOCK\<rparr>]"
  "label_templates ex_stocked = []" "print_jobs ex_stocked = []"
  by (simp_all add: ex_stocked_def ex_moved_def ex_created_def ex_base_def empty_fleet_def)

lemma ex_templated_tables:
  "organizations ex_templated = [1]" "actors ex_templated = actors ex_base" "items ex_templated = items ex_base"
  "sessions ex_templated = sessions ex_base" "users ex_templated = users ex_base"
  "assets ex_templated = assets ex_stocked" "label_templates ex_templated = [ex_template]" "print_jobs ex_templated = []"
  by (simp_all add: ex_templated_def ex_stocked_tables)

lemma ex_base_actor: "current_authenticated_actor ex_ctx ex_base = Inr 10"
  by code_simp

lemma ex_label_actor:
  assumes "sessions db = sessions ex_base" "users db = users ex_base" "actors db = actors ex_base"
  shows "current_authenticated_actor ex_ctx db = Inr 10" "actor_exists db 1 10"
  using ex_base_actor current_actor_cong [OF assms, of ex_ctx] assms(3) by (simp_all add: actor_exists_def ex_base_def)

lemma ex_ctx_facts: "x_app ex_ctx" "x_now ex_ctx = 1000" "visible ex_ctx 1"
  by (simp_all add: ex_ctx_def visible_def)

lemma ex_unit_rows:
  "find_asset ex_stocked 1 100 = Some (ex_asset\<lparr>as_location := Some 40, as_version := 3, as_state := Some IN_STOCK\<rparr>)"
  by (simp add: find_asset_def ex_stocked_tables ex_asset_def new_asset_def)

lemma ex_template_ok:
  "create_template (\<lambda>t. t) (\<lambda>c. c < 32) ex_ctx 1 401
     \<lparr>tq_name = [78], tq_fields = [ASSET_TAG_FIELD, ITEM_MPN_FIELD], tq_symbology = CODE128\<rparr> ex_stocked
     = Inr (ex_template, ex_templated)"
  by (simp add: create_template_def template_validate_def template_name_def length_between_def insert_template_def
      guard_label_template_def template_check_def btrim_def btrim_set_def ex_ctx_facts ex_label_actor ex_stocked_tables
      ex_template_def ex_templated_def ensure_def del: One_nat_def)

lemma ex_snapshot_ok: "captured_snapshot ex_ctx ex_templated (ex_job\<lparr>pj_snapshot := s, pj_requested_by := 0, pj_requested_at := At 0\<rparr>)
    = Some (pj_snapshot ex_job)"
  by (simp add: captured_snapshot_def ex_ctx_facts ex_job_def ex_templated_tables ex_stocked_tables ex_template_def
      ex_asset_def new_asset_def ex_base_def del: One_nat_def)

lemma ex_job_check: "job_check ex_job"
  by (simp add: job_check_def delivery_check_def ex_job_def)

lemma ex_enqueue_ok: "enqueue ex_ctx 1 402 100 401 PNG ex_templated = Inr (ex_job, ex_queued)"
proof -
  let ?blank = "\<lparr>sn_id = [], sn_tag = [], sn_description = [], sn_mpn = [], sn_fields = [], sn_symbology = CODE128\<rparr>"
  have new: "\<lparr>pj_id = 402, pj_org = 1, pj_template = 401, pj_asset = 100, pj_requested_by = 0,
             pj_requested_at = At 0, pj_status = PENDING, pj_adapter = adapter_for PNG, pj_format = PNG,
             pj_snapshot = ?blank, pj_attempts = 0, pj_sha256 = None, pj_error = None, pj_updated_by = None, pj_updated_at = None\<rparr>
      = ex_job\<lparr>pj_snapshot := ?blank, pj_requested_by := 0, pj_requested_at := At 0\<rparr>"
    by (simp add: ex_job_def adapter_for_def)
  have "guard_new_job ex_ctx ex_templated (ex_job\<lparr>pj_snapshot := ?blank, pj_requested_by := 0, pj_requested_at := At 0\<rparr>)
      = Inr ex_job"
    by (simp add: guard_new_job_def ex_snapshot_ok ex_ctx_facts ex_label_actor ex_templated_tables ensure_def)
      (simp add: ex_job_def)
  moreover have "asset_exists ex_templated 1 100"
    by (simp add: asset_exists_def ex_templated_tables ex_stocked_tables ex_asset_def new_asset_def)
  moreover have "pj_org ex_job = 1" "pj_requested_by ex_job = 10" "pj_asset ex_job = 100" "pj_template ex_job = 401"
    by (simp_all add: ex_job_def)
  ultimately have "insert_job ex_ctx (ex_job\<lparr>pj_snapshot := ?blank, pj_requested_by := 0, pj_requested_at := At 0\<rparr>) ex_templated
      = Inr (ex_job, ex_queued)"
    by (simp add: insert_job_def ex_job_check ex_ctx_facts ex_label_actor ex_templated_tables ensure_def ex_queued_def
        ex_template_def del: One_nat_def)
  then show ?thesis
    by (simp add: enqueue_def get_template_def new ensure_def ex_templated_tables ex_stocked_tables ex_template_def
        ex_ctx_facts ex_asset_def new_asset_def del: One_nat_def)
qed

lemma ex_render_ok:
  "render (pr_canvas ex_printing) (pj_snapshot ex_job)
     = Some \<lparr>lb_image = \<lparr>im_width = 1200, im_height = 134, im_pixels = ex_content\<rparr>, lb_payload = uuid_text 100\<rparr>"
proof -
  have "label_lines (\<lambda>t. 1152 < 10 * length t)
      \<lparr>sn_id = i, sn_tag = [84], sn_description = [68], sn_mpn = [77],
       sn_fields = [ASSET_TAG_FIELD, ITEM_MPN_FIELD], sn_symbology = CODE128\<rparr> = [lit ''Asset tag: T'', lit ''Part: M'']" for i
    by code_simp
  moreover have "label_width \<lparr>im_width = 10, im_height = 10, im_pixels = uuid_text 100\<rparr> = 1200"
    by (simp add: label_width_def)
  ultimately show ?thesis
    by (simp add: render_def parse_uuid_text ex_printing_def ex_canvas_def ex_job_def compose_def ex_content_def Let_def)
qed

lemma ex_job_found: "get_job ex_ctx ex_queued 402 = Inr ex_job" "get_job ex_ctx ex_printed 402 = Inr ex_printed_job"
  by code_simp+

lemma ex_digest: "hexdigest (pr_sha256 ex_printing) c = replicate 64 48"
proof -
  have "hex_encode (replicate 32 0) = replicate 64 48" by code_simp
  then show ?thesis by (simp add: hexdigest_def ex_printing_def)
qed

lemma ex_dispatch_ok: "dispatch ex_printing ex_ctx 402 Map.empty ex_queued = (Inr (ex_printed_job, ex_printed), ex_artifacts)"
proof -
  have u: "update_job ex_ctx ex_job SUCCEEDED (Some (replicate 64 48)) None ex_queued = Inr (ex_printed_job, ex_printed)"
    by code_simp
  have "length ex_content \<le> artifact_limit" by code_simp
  moreover have "encode_label (pr_canvas ex_printing) FILE_ADAPTER PNG
      \<lparr>lb_image = \<lparr>im_width = 1200, im_height = 134, im_pixels = ex_content\<rparr>, lb_payload = uuid_text 100\<rparr> = Inr ex_content"
    by (simp add: encode_label_def ex_printing_def ex_canvas_def)
  moreover have "pj_adapter ex_job = FILE_ADAPTER" "pj_format ex_job = PNG" "pj_org ex_job = 1" "pj_id ex_job = 402"
    "pj_status ex_job \<noteq> SUCCEEDED" "pr_configured ex_printing" "pr_fault ex_printing = No_fault"
    by (simp_all add: ex_job_def ex_printing_def)
  ultimately show ?thesis
    using u by (simp add: dispatch_def ex_job_found(1) deliver_def ex_render_ok artifact_publish_def ex_digest ex_artifacts_def)
qed

lemma ex_receipt_labels:
  "enqueue_receipt ex_ctx 1 (\<lambda>n. 402 + n) 200 401 PNG ex_shelf = Inr ([ex_job], ex_shelf\<lparr>print_jobs := [ex_job]\<rparr>)"
  by code_simp

end
