(* ===== verification/LabelProperties.thy ===== *)
theory LabelProperties
  imports LabelExample
begin

text \<open>
  The properties of labels: what a label encodes and shows, the states of a print job, and an artifact
  store in which a finished job can always be read back.
\<close>

section \<open>Text\<close>

lemma wrap_line_concat: "concat (wrap_line wider current t) = current @ t"
  by (induction wider current t rule: wrap_line.induct) auto

lemma wrap_line_fits:
  "current = [] \<or> length current = 1 \<or> \<not> wider current \<Longrightarrow> l \<in> set (wrap_line wider current t)
     \<Longrightarrow> length l \<le> 1 \<or> \<not> wider l"
  by (induction wider current t rule: wrap_line.induct) (auto split: if_splits)

lemma splitlines_concat: "concat (splitlines t) = filter (\<lambda>c. \<not> line_boundary c) t"
proof (induction t rule: splitlines.induct)
  case (2 c cs)
  have b: "line_boundary 13" "line_boundary 10" by (simp_all add: line_boundary_def)
  show ?case
  proof (cases "c = 13 \<and> take 1 cs = [10]")
    case True
    then obtain ds where "cs = 10 # ds" by (cases cs) auto
    then show ?thesis using True 2 b by simp
  next
    case False
    then show ?thesis using 2 by (auto split: list.splits)
  qed
qed simp

lemma concat_concat_map: "concat (concat (map f xs)) = concat (map (\<lambda>x. concat (f x)) xs)"
  by (induction xs) auto

section \<open>Jobs\<close>

lemma captured_snapshot_Some:
  assumes "captured_snapshot x db j = Some s"
  obtains a t where "find_asset db (pj_org j) (pj_asset j) = Some a" "sn_id s = uuid_text (pj_asset j)"
    "sn_tag s = as_tag a" "t \<in> set (label_templates db)" "lt_org t = pj_org j" "lt_id t = pj_template j"
    "sn_fields s = lt_fields t" "sn_symbology s = lt_symbology t"
proof -
  obtain a t and i :: item_row where a: "List.find (\<lambda>a. as_org a = pj_org j \<and> as_id a = pj_asset j) (assets db) = Some a"
    and t: "List.find (\<lambda>t. lt_org t = as_org a \<and> lt_id t = pj_template j) (label_templates db) = Some t"
    and s: "s = \<lparr>sn_id = uuid_text (as_id a), sn_tag = as_tag a, sn_description = as_description a, sn_mpn = it_mpn i,
              sn_fields = lt_fields t, sn_symbology = lt_symbology t\<rparr>"
  proof -
    have "Option.bind (List.find (\<lambda>a. as_org a = pj_org j \<and> as_id a = pj_asset j) (assets db)) (\<lambda>a.
      Option.bind (List.find (\<lambda>i. it_org i = as_org a \<and> it_id i = as_item a) (items db)) (\<lambda>i.
      Option.bind (List.find (\<lambda>t. lt_org t = as_org a \<and> lt_id t = pj_template j) (label_templates db)) (\<lambda>t.
        Some \<lparr>sn_id = uuid_text (as_id a), sn_tag = as_tag a, sn_description = as_description a, sn_mpn = it_mpn i,
              sn_fields = lt_fields t, sn_symbology = lt_symbology t\<rparr>))) = Some s"
      using assms unfolding captured_snapshot_def by (metis option.distinct(1))
    from this [unfolded bind_eq_Some_conv option.inject] show ?thesis
      by (elim exE conjE) (rule that, assumption, assumption, erule sym)
  qed
  show ?thesis
    using that [of a t] a find_Some_in [OF a] find_Some_in [OF t] by (simp add: s find_asset_def)
qed

lemma captured_snapshot_cong:
  "pj_org j = pj_org k \<Longrightarrow> pj_asset j = pj_asset k \<Longrightarrow> pj_template j = pj_template k
     \<Longrightarrow> captured_snapshot x db j = captured_snapshot x db k"
  by (simp add: captured_snapshot_def)

definition job_ok :: "fleet \<Rightarrow> job_row \<Rightarrow> bool" where
  "job_ok db j \<longleftrightarrow> job_check j \<and> pj_adapter j = adapter_for (pj_format j)
     \<and> (\<exists>t \<in> set (label_templates db). lt_org t = pj_org j \<and> lt_id t = pj_template j
          \<and> sn_fields (pj_snapshot j) = lt_fields t \<and> sn_symbology (pj_snapshot j) = lt_symbology t)"

lemma insert_job_Inr:
  assumes "insert_job x new db = Inr (j, db')"
  shows "db' = db\<lparr>print_jobs := print_jobs db @ [j]\<rparr>" "pj_id j \<notin> pj_id ` set (print_jobs db)" "job_check j"
    "job_request (j\<lparr>pj_snapshot := pj_snapshot new, pj_requested_by := pj_requested_by new,
       pj_requested_at := pj_requested_at new\<rparr>) = job_request new"
    "pj_status j = PENDING" "captured_snapshot x db j = Some (pj_snapshot j)"
proof -
  obtain s and g :: job_row where s: "captured_snapshot x db new = Some s" and j: "j = g" and chk: "job_check j"
    "\<forall>k \<in> set (print_jobs db). pj_id k \<noteq> pj_id j" "db' = db\<lparr>print_jobs := print_jobs db @ [j]\<rparr>"
    and new: "pj_status new = PENDING" "pj_attempts new = 0" "pj_sha256 new = None" "pj_error new = None"
      "pj_updated_at new = None" "pj_updated_by new = None"
    and g: "\<exists>p t. j = new\<lparr>pj_snapshot := s, pj_requested_by := p, pj_requested_at := t\<rparr>"
  proof -
    obtain s where s: "captured_snapshot x db new = Some s"
      using assms by (auto simp: insert_job_def guard_new_job_def result_simps)
    have "\<exists>p t. j = new\<lparr>pj_snapshot := s, pj_requested_by := p, pj_requested_at := t\<rparr>"
    proof (cases "x_app x")
      case True
      then show ?thesis using assms s by (auto simp: insert_job_def guard_new_job_def result_simps)
    next
      case False
      then have "j = new\<lparr>pj_snapshot := s\<rparr>" using assms s by (auto simp: insert_job_def guard_new_job_def result_simps)
      then show ?thesis by (intro exI [of _ "pj_requested_by new"] exI [of _ "pj_requested_at new"]) simp
    qed
    then show ?thesis
      using that [OF s refl] assms s unfolding insert_job_def guard_new_job_def by (auto simp: result_simps)
  qed
  show "db' = db\<lparr>print_jobs := print_jobs db @ [j]\<rparr>" "pj_id j \<notin> pj_id ` set (print_jobs db)" "job_check j"
    using chk by auto
  show "job_request (j\<lparr>pj_snapshot := pj_snapshot new, pj_requested_by := pj_requested_by new,
       pj_requested_at := pj_requested_at new\<rparr>) = job_request new"
    "pj_status j = PENDING" "captured_snapshot x db j = Some (pj_snapshot j)"
    using g s new captured_snapshot_cong [of j new x db] by (auto simp: job_request_def)
qed

lemma enqueue_Inr:
  assumes "enqueue x org fresh asset template fmt db = Inr (j, db')"
  shows "db' = db\<lparr>print_jobs := print_jobs db @ [j]\<rparr>" "job_ok db j" "pj_asset j = asset" "pj_template j = template"
    "pj_format j = fmt" "pj_org j = org" "pj_status j = PENDING" "pj_id j \<notin> pj_id ` set (print_jobs db)"
    "pj_id j = fresh"
proof -
  let ?new = "\<lparr>pj_id = fresh, pj_org = org, pj_template = template, pj_asset = asset, pj_requested_by = 0,
             pj_requested_at = At 0, pj_status = PENDING, pj_adapter = adapter_for fmt, pj_format = fmt,
             pj_snapshot = \<lparr>sn_id = [], sn_tag = [], sn_description = [], sn_mpn = [], sn_fields = [], sn_symbology = CODE128\<rparr>,
             pj_attempts = 0, pj_sha256 = None, pj_error = None, pj_updated_by = None, pj_updated_at = None\<rparr>"
  have i: "insert_job x ?new db = Inr (j, db')" using assms by (auto simp: enqueue_def result_simps)
  note I = insert_job_Inr [OF i]
  have f: "pj_asset j = asset" "pj_template j = template" "pj_format j = fmt" "pj_org j = org"
    "pj_adapter j = adapter_for fmt" "pj_id j = fresh"
    using arg_cong [OF I(4), of pj_asset] arg_cong [OF I(4), of pj_template] arg_cong [OF I(4), of pj_format]
      arg_cong [OF I(4), of pj_org] arg_cong [OF I(4), of pj_adapter] arg_cong [OF I(4), of pj_id]
    by (simp_all add: job_request_def)
  obtain t where "t \<in> set (label_templates db)" "lt_org t = pj_org j" "lt_id t = pj_template j"
    "sn_fields (pj_snapshot j) = lt_fields t" "sn_symbology (pj_snapshot j) = lt_symbology t"
    by (rule captured_snapshot_Some [OF I(6)])
  then have "job_ok db j" using I(3) f by (auto simp: job_ok_def)
  then show "db' = db\<lparr>print_jobs := print_jobs db @ [j]\<rparr>" "job_ok db j" "pj_asset j = asset" "pj_template j = template"
    "pj_format j = fmt" "pj_org j = org" "pj_status j = PENDING" "pj_id j \<notin> pj_id ` set (print_jobs db)" "pj_id j = fresh"
    using I(1,2,5) f by auto
qed

lemma update_job_Inr:
  assumes "update_job x old s d e db = Inr (j, db')"
  shows "db' = db\<lparr>print_jobs := map (\<lambda>k. if pj_id k = pj_id old then j else k) (print_jobs db)\<rparr>"
    "job_request j = job_request old" "pj_status old \<noteq> SUCCEEDED" "pj_status j = s" "pj_attempts j = pj_attempts old + 1"
    "pj_sha256 j = d" "pj_error j = e" "job_check j"
proof -
  obtain p n where req: "job_request (old\<lparr>pj_status := s, pj_sha256 := d, pj_error := e\<rparr>) = job_request old"
    and st: "pj_status old \<noteq> SUCCEEDED"
    and j: "j = old\<lparr>pj_status := s, pj_sha256 := d, pj_error := e, pj_attempts := pj_attempts old + 1,
      pj_updated_by := Some p, pj_updated_at := Some (At n)\<rparr>"
    and chk: "job_check j" and db': "db' = db\<lparr>print_jobs := map (\<lambda>k. if pj_id k = pj_id old then j else k) (print_jobs db)\<rparr>"
  proof -
    obtain j' where g: "guard_job_update x db old (old\<lparr>pj_status := s, pj_sha256 := d, pj_error := e\<rparr>) = Inr j'"
      and b: "job_check j'" "Inr (j', db\<lparr>print_jobs := map (\<lambda>k. if pj_id k = pj_id old then j' else k) (print_jobs db)\<rparr>)
        = (Inr (j, db') :: sqlstate + job_row \<times> fleet)"
      using assms unfolding update_job_def rbind_Inr_iff ensure_Inr_iff by blast
    obtain p n where r: "job_request (old\<lparr>pj_status := s, pj_sha256 := d, pj_error := e\<rparr>) = job_request old"
      "pj_status old \<noteq> SUCCEEDED" and n: "int4_add (pj_attempts old) 1 = Inr n"
      and j': "Inr ((old\<lparr>pj_status := s, pj_sha256 := d, pj_error := e\<rparr>)
         \<lparr>pj_attempts := n, pj_updated_by := Some p, pj_updated_at := Some (At (x_now x))\<rparr>) = (Inr j' :: sqlstate + job_row)"
      using g unfolding guard_job_update_def rbind_Inr_iff ensure_Inr_iff by blast
    have "n = pj_attempts old + 1" using n by (simp add: int4_add_Inr_iff)
    moreover have jj: "j' = j" and dd: "db' = db\<lparr>print_jobs := map (\<lambda>k. if pj_id k = pj_id old then j' else k) (print_jobs db)\<rparr>"
      using b(2) by simp_all
    ultimately have e: "j = old\<lparr>pj_status := s, pj_sha256 := d, pj_error := e, pj_attempts := pj_attempts old + 1,
      pj_updated_by := Some p, pj_updated_at := Some (At (x_now x))\<rparr>" using j' by simp
    show ?thesis by (rule that [OF r e b(1) [unfolded jj] dd [unfolded jj]])
  qed
  show "db' = db\<lparr>print_jobs := map (\<lambda>k. if pj_id k = pj_id old then j else k) (print_jobs db)\<rparr>" by (rule db')
  show "job_request j = job_request old" "pj_status j = s" "pj_attempts j = pj_attempts old + 1"
    "pj_sha256 j = d" "pj_error j = e"
    by (simp_all add: j job_request_def)
  show "pj_status old \<noteq> SUCCEEDED" "job_check j" by (rule st, rule chk)
qed

lemma read_artifact_Inr:
  assumes "read_artifact pr x i st db = Inr (k, content)"
  shows "get_job x db i = Inr k" "pj_status k = SUCCEEDED" "pr_configured pr"
    "\<exists>d. pj_sha256 k = Some d \<and> artifact_read (pr_sha256 pr) (pj_org k) (pj_id k) (pj_format k) d st = Inr content"
  using assms by (auto simp: read_artifact_def rbind_Inr_iff ensure_Inr_iff from_option_Inr_iff)

lemma dispatch_Inr:
  assumes "dispatch pr x i st db = (Inr (j, db'), st')"
  obtains (again) content where "read_artifact pr x i st db = Inr (j, content)" "db' = db" "st' = st" "pj_status j = SUCCEEDED"
  | (delivered) old s d e where "get_job x db i = Inr old" "pj_status old \<noteq> SUCCEEDED"
      "deliver pr old st = (Inr (s, d, e), st')" "update_job x old s d e db = Inr (j, db')"
proof -
  obtain old where old: "get_job x db i = Inr old" using assms by (auto simp: dispatch_def split: sum.splits)
  show ?thesis
  proof (cases "pj_status old = SUCCEEDED")
    case True
    have q: "(rbind (read_artifact pr x i st db) (\<lambda>_. Inr (old, db)), st) = (Inr (j, db'), st')"
      using assms unfolding dispatch_def old sum.case if_P [OF True] .
    then obtain kc where r1: "read_artifact pr x i st db = Inr kc" "Inr (old, db) = (Inr (j, db') :: py_error + job_row \<times> fleet)"
      unfolding prod.inject rbind_Inr_iff by blast
    then obtain k content where r: "read_artifact pr x i st db = Inr (k, content)" "j = old" "db' = db" "st' = st"
      using q by (cases kc) simp
    have "k = old" using read_artifact_Inr(1) [OF r(1)] old by simp
    then show ?thesis using again r True by simp
  next
    case False
    obtain r st'' where dv: "deliver pr old st = (r, st'')" by force
    show ?thesis
    proof (cases r)
      case (Inl e)
      then show ?thesis using assms old False dv by (simp add: dispatch_def)
    next
      case (Inr q)
      obtain s d e where "q = (s, d, e)" by (cases q) auto
      then show ?thesis using assms old False dv Inr delivered [of old s d e] by (auto simp: dispatch_def)
    qed
  qed
qed

section \<open>Databases the label service reaches\<close>

definition same_labels :: "fleet \<Rightarrow> fleet \<Rightarrow> bool" where
  "same_labels db db' \<longleftrightarrow> label_templates db' = label_templates db \<and> print_jobs db' = print_jobs db"

inductive label_step :: "fleet \<Rightarrow> fleet \<Rightarrow> bool" where
  template: "create_template strip cntrl x org fresh q db = Inr (t, db') \<Longrightarrow> label_step db db'"
| request: "enqueue x org fresh asset template fmt db = Inr (j, db') \<Longrightarrow> label_step db db'"
| delivery: "dispatch pr x i st db = (Inr (j, db'), st') \<Longrightarrow> label_step db db'"
| aside: "same_labels db db' \<Longrightarrow> label_step db db'"

inductive printed :: "fleet \<Rightarrow> bool" where
  start: "label_templates db = [] \<Longrightarrow> print_jobs db = [] \<Longrightarrow> printed db"
| run: "printed db \<Longrightarrow> label_step db db' \<Longrightarrow> printed db'"

inductive printed_later :: "fleet \<Rightarrow> fleet \<Rightarrow> bool" for db :: fleet where
  now: "printed_later db db"
| next_step: "printed_later db d \<Longrightarrow> label_step d d' \<Longrightarrow> printed_later db d'"

lemma create_template_Inr:
  assumes "create_template strip cntrl x org fresh q db = Inr (t, db')"
  shows "db' = db\<lparr>label_templates := label_templates db @ [t]\<rparr>" "distinct (lt_fields t)" "template_check cntrl t"
    "lt_id t \<notin> lt_id ` set (label_templates db)"
proof -
  obtain v g where v: "template_validate strip q = Inr v"
    and g: "guard_label_template x db \<lparr>lt_id = fresh, lt_org = org, lt_name = tq_name v, lt_fields = tq_fields v,
      lt_symbology = tq_symbology v, lt_created_by = 0, lt_created_at = At 0\<rparr> = Inr g"
    and c: "template_check cntrl g" "\<forall>u \<in> set (label_templates db). lt_id u \<noteq> lt_id g"
    and t: "t = g" "db' = db\<lparr>label_templates := label_templates db @ [g]\<rparr>"
    using assms unfolding create_template_def insert_template_def map_error_Inr_iff rbind_Inr_iff ensure_Inr_iff by blast
  have "distinct (tq_fields v)" using v by (auto simp: template_validate_def result_simps)
  moreover have "lt_fields g = tq_fields v" using g by (auto simp: guard_label_template_def result_simps split: if_splits)
  ultimately show "db' = db\<lparr>label_templates := label_templates db @ [t]\<rparr>" "distinct (lt_fields t)" "template_check cntrl t"
    "lt_id t \<notin> lt_id ` set (label_templates db)"
    using t c by auto
qed

definition print_ok :: "fleet \<Rightarrow> bool" where
  "print_ok db \<longleftrightarrow> (\<forall>j \<in> set (print_jobs db). job_ok db j) \<and> distinct (map pj_id (print_jobs db))
     \<and> (\<forall>t \<in> set (label_templates db). distinct (lt_fields t) \<and> 1 \<le> length (lt_fields t) \<and> length (lt_fields t) \<le> 4)
     \<and> distinct (map lt_id (label_templates db))"

lemma job_ok_mono: "job_ok db j \<Longrightarrow> set (label_templates db) \<subseteq> set (label_templates db') \<Longrightarrow> job_ok db' j"
  by (auto simp: job_ok_def)

lemma job_request_fields:
  assumes "job_request j = job_request old"
  shows "pj_id j = pj_id old" "pj_org j = pj_org old" "pj_template j = pj_template old" "pj_asset j = pj_asset old"
    "pj_format j = pj_format old" "pj_adapter j = pj_adapter old" "pj_snapshot j = pj_snapshot old"
  using arg_cong [OF assms, of pj_id] arg_cong [OF assms, of pj_org] arg_cong [OF assms, of pj_template]
    arg_cong [OF assms, of pj_asset] arg_cong [OF assms, of pj_format] arg_cong [OF assms, of pj_adapter]
    arg_cong [OF assms, of pj_snapshot]
  by (simp_all add: job_request_def)

text \<open>What a step does to the jobs: it leaves them, adds one, or delivers one that is not finished.\<close>

lemma label_step_jobs:
  assumes "label_step db db'"
  obtains (same) "print_jobs db' = print_jobs db" "set (label_templates db) \<subseteq> set (label_templates db')"
  | (added) j where "print_jobs db' = print_jobs db @ [j]" "job_ok db j" "pj_id j \<notin> pj_id ` set (print_jobs db)"
      "label_templates db' = label_templates db"
  | (moved) old j where "print_jobs db' = map (\<lambda>k. if pj_id k = pj_id old then j else k) (print_jobs db)"
      "old \<in> set (print_jobs db)" "job_request j = job_request old" "pj_status old \<noteq> SUCCEEDED"
      "pj_attempts j = pj_attempts old + 1" "job_check j" "label_templates db' = label_templates db"
  using assms
proof cases
  case template
  then show ?thesis using same create_template_Inr(1) [OF template] by auto
next
  case request
  then show ?thesis using added enqueue_Inr [OF request] by auto
next
  case (delivery pr x i st j st')
  show ?thesis
  proof (rule dispatch_Inr [OF delivery])
    fix content
    assume "db' = db"
    then show ?thesis using same by simp
  next
    fix old s d e
    assume old: "get_job x db i = Inr old" and u: "update_job x old s d e db = Inr (j, db')"
    have "old \<in> set (print_jobs db)" using old by (auto simp: get_job_def from_option_Inr_iff dest: find_Some_in)
    moreover note update_job_Inr [OF u]
    ultimately show ?thesis using moved [of old j] by simp
  qed
next
  case aside
  then show ?thesis using same by (simp add: same_labels_def)
qed

lemma label_step_ok:
  assumes "label_step db db'" "print_ok db"
  shows "print_ok db'"
proof -
  have templates: "label_templates db' = label_templates db \<or> (\<exists>t. label_templates db' = label_templates db @ [t]
      \<and> distinct (lt_fields t) \<and> 1 \<le> length (lt_fields t) \<and> length (lt_fields t) \<le> 4
      \<and> lt_id t \<notin> lt_id ` set (label_templates db))"
    using assms(1)
  proof cases
    case (template strip cntrl x org fresh q t)
    then show ?thesis using create_template_Inr [OF template] by (auto simp: template_check_def)
  next
    case request
    then show ?thesis using enqueue_Inr(1) [OF request] by simp
  next
    case (delivery pr x i st j st')
    then show ?thesis by (rule dispatch_Inr) (auto dest: update_job_Inr(1))
  next
    case aside
    then show ?thesis by (simp add: same_labels_def)
  qed
  have mono: "set (label_templates db) \<subseteq> set (label_templates db')" using templates by auto
  have "(\<forall>j \<in> set (print_jobs db'). job_ok db' j) \<and> distinct (map pj_id (print_jobs db'))"
    using assms(1)
  proof (cases rule: label_step_jobs)
    case same
    then show ?thesis using assms(2) job_ok_mono [OF _ mono] by (simp add: print_ok_def)
  next
    case (added j)
    then show ?thesis using assms(2) job_ok_mono [OF _ mono] by (auto simp: print_ok_def)
  next
    case (moved old j)
    note f = job_request_fields [OF moved(3)]
    have "job_ok db old" using assms(2) moved(2) by (simp add: print_ok_def)
    then have "job_ok db' j" using moved(6,7) f by (simp add: job_ok_def)
    moreover have "map pj_id (print_jobs db') = map pj_id (print_jobs db)" using f(1) by (auto simp: moved(1))
    moreover have "\<forall>k \<in> set (print_jobs db). job_ok db' k" using assms(2) job_ok_mono [OF _ mono] by (simp add: print_ok_def)
    ultimately show ?thesis using assms(2) by (auto simp only: moved(1) set_map print_ok_def split: if_splits)
  qed
  moreover have "(\<forall>t \<in> set (label_templates db'). distinct (lt_fields t) \<and> 1 \<le> length (lt_fields t) \<and> length (lt_fields t) \<le> 4)
     \<and> distinct (map lt_id (label_templates db'))"
    using templates assms(2) by (auto simp: print_ok_def)
  ultimately show ?thesis by (simp add: print_ok_def)
qed

lemma printed_ok: "printed db \<Longrightarrow> print_ok db"
proof (induction rule: printed.induct)
  case (start db)
  then show ?case by (simp add: print_ok_def)
next
  case (run db db')
  then show ?case using label_step_ok by blast
qed

lemma ex_runs: "printed ex_queued" "printed ex_printed"
proof -
  have "printed ex_stocked"
    by (rule printed.start) (simp_all add: ex_stocked_def ex_moved_def ex_created_def ex_base_def empty_fleet_def)
  then have "printed ex_templated" using label_step.template [OF ex_template_ok] by (rule printed.run)
  then show q: "printed ex_queued" using label_step.request [OF ex_enqueue_ok] by (rule printed.run)
  show "printed ex_printed" using q label_step.delivery [OF ex_dispatch_ok] by (rule printed.run)
qed

lemma ex_content_size: "length ex_content \<le> artifact_limit"
  by code_simp

section \<open>Properties\<close>

lemma later_job:
  assumes "printed_later db db'" "print_ok db" "j \<in> set (print_jobs db)"
  shows "print_ok db' \<and> (\<exists>j' \<in> set (print_jobs db'). job_request j' = job_request j \<and> pj_attempts j \<le> pj_attempts j'
     \<and> (pj_status j = SUCCEEDED \<longrightarrow> j' = j))"
  using assms(1)
proof induction
  case now
  then show ?case using assms(2,3) by blast
next
  case (next_step d d')
  then obtain j' where j': "j' \<in> set (print_jobs d)" "job_request j' = job_request j" "pj_attempts j \<le> pj_attempts j'"
    "pj_status j = SUCCEEDED \<longrightarrow> j' = j" by blast
  have "\<exists>k \<in> set (print_jobs d'). job_request k = job_request j' \<and> pj_attempts j' \<le> pj_attempts k
      \<and> (pj_status j' = SUCCEEDED \<longrightarrow> k = j')"
    using next_step.hyps(2)
  proof (cases rule: label_step_jobs)
    case (moved old k)
    show ?thesis
    proof (cases "pj_id j' = pj_id old")
      case True
      have "distinct (map pj_id (print_jobs d))" using next_step.IH by (simp add: print_ok_def)
      then have "j' = old" using True j'(1) moved(2) by (auto simp: distinct_map inj_on_def)
      then show ?thesis using moved by (intro bexI [of _ k]) (auto simp: moved(1))
    next
      case False
      then show ?thesis using j'(1) by (intro bexI [of _ j']) (auto simp: moved(1) intro: rev_image_eqI)
    qed
  qed (use j'(1) in auto)
  then obtain k where k: "k \<in> set (print_jobs d')" "job_request k = job_request j'" "pj_attempts j' \<le> pj_attempts k"
    "pj_status j' = SUCCEEDED \<longrightarrow> k = j'" by blast
  have "job_request k = job_request j" "pj_attempts j \<le> pj_attempts k" using k(2,3) j'(2,3) by simp_all
  moreover have "pj_status j = SUCCEEDED \<longrightarrow> k = j" using k(4) j'(4) by blast
  moreover have "print_ok d'" using label_step_ok [OF next_step.hyps(2)] next_step.IH by blast
  ultimately show ?case using k(1) by blast
qed

text \<open>
  C31: a print request never changes and a finished job is final: along every later run each job keeps
  its request and its captured snapshot, its attempts only grow, and once it has succeeded its row
  stays exactly as it is.
\<close>

theorem finished_job_final:
  assumes "printed db" "printed_later db db'" "j \<in> set (print_jobs db)"
  shows "\<exists>j' \<in> set (print_jobs db'). job_request j' = job_request j \<and> pj_attempts j \<le> pj_attempts j'
     \<and> (pj_status j = SUCCEEDED \<longrightarrow> j' = j)"
  using later_job [OF assms(2) printed_ok [OF assms(1)] assms(3)] by blast

theorem finished_job_final_witness:
  "\<exists>j \<in> set (print_jobs ex_printed). job_request j = job_request ex_job \<and> pj_attempts ex_job \<le> pj_attempts j"
proof -
  have "printed_later ex_queued ex_printed" using label_step.delivery [OF ex_dispatch_ok] by (rule printed_later.next_step [OF printed_later.now])
  moreover have "ex_job \<in> set (print_jobs ex_queued)" by (simp add: ex_queued_def)
  ultimately show ?thesis using finished_job_final [OF ex_runs(1)] by blast
qed

text \<open>
  Every job is in one of its three states: pending without an attempt, succeeded with a digest and
  no error, or failed with an error and no digest; it names the adapter of its format, and its snapshot
  carries the identifier of its Asset and the distinct fields of its template.
\<close>

theorem job_states:
  assumes "printed db" "j \<in> set (print_jobs db)"
  shows "(pj_status j = PENDING \<longleftrightarrow> pj_attempts j = 0) \<and> (pj_status j = SUCCEEDED \<longleftrightarrow> pj_sha256 j \<noteq> None)
     \<and> (pj_status j = FAILED \<longleftrightarrow> pj_error j \<noteq> None) \<and> 0 \<le> pj_attempts j
     \<and> pj_adapter j = adapter_for (pj_format j) \<and> sn_id (pj_snapshot j) = uuid_text (pj_asset j)
     \<and> (\<exists>t \<in> set (label_templates db). lt_id t = pj_template j \<and> sn_fields (pj_snapshot j) = lt_fields t
          \<and> sn_symbology (pj_snapshot j) = lt_symbology t \<and> distinct (lt_fields t) \<and> length (lt_fields t) \<in> {1..4})"
proof -
  have ok: "print_ok db" by (rule printed_ok [OF assms(1)])
  then have j: "job_ok db j" using assms(2) by (simp add: print_ok_def)
  then obtain t where t: "t \<in> set (label_templates db)" "lt_id t = pj_template j" "sn_fields (pj_snapshot j) = lt_fields t"
    "sn_symbology (pj_snapshot j) = lt_symbology t" by (auto simp: job_ok_def)
  then have "distinct (lt_fields t) \<and> length (lt_fields t) \<in> {1..4}" using ok by (simp add: print_ok_def)
  moreover have "(pj_status j = PENDING \<longleftrightarrow> pj_attempts j = 0) \<and> (pj_status j = SUCCEEDED \<longleftrightarrow> pj_sha256 j \<noteq> None)
     \<and> (pj_status j = FAILED \<longleftrightarrow> pj_error j \<noteq> None) \<and> 0 \<le> pj_attempts j"
    using j by (auto simp: job_ok_def job_check_def delivery_check_def)
  ultimately show ?thesis using j t by (auto simp: job_ok_def job_check_def)
qed

theorem job_states_witness:
  "pj_sha256 ex_printed_job \<noteq> None \<and> sn_id (pj_snapshot ex_printed_job) = uuid_text (pj_asset ex_printed_job)"
proof -
  have "ex_printed_job \<in> set (print_jobs ex_printed)" by (simp add: ex_printed_def)
  moreover have "pj_status ex_printed_job = SUCCEEDED" by (simp add: ex_printed_job_def)
  ultimately show ?thesis using job_states [OF ex_runs(2), of ex_printed_job] by blast
qed

text \<open>
  C32: a label encodes the identity of its Asset and nothing else: whatever the template, the payload
  rendered for a job is the identifier of the Asset the job names, and reading it back gives that
  identifier.
\<close>

theorem label_encodes_identity:
  assumes "printed db" "j \<in> set (print_jobs db)" "pj_asset j < 2 ^ 128" "render cv (pj_snapshot j) = Some lb"
  shows "lb_payload lb = uuid_text (pj_asset j) \<and> parse_uuid (lb_payload lb) = Some (pj_asset j)"
proof -
  have "sn_id (pj_snapshot j) = uuid_text (pj_asset j)"
    using printed_ok [OF assms(1)] assms(2) by (auto simp: print_ok_def job_ok_def job_check_def)
  then have "parse_uuid (sn_id (pj_snapshot j)) = Some (pj_asset j)" using parse_uuid_text [OF assms(3)] by simp
  then show ?thesis using assms(4) parse_uuid_text [OF assms(3)] by (auto simp: render_def bind_eq_Some_conv)
qed

theorem label_encodes_identity_witness:
  "parse_uuid (uuid_text 100) = Some 100"
proof -
  have "ex_job \<in> set (print_jobs ex_queued)" "pj_asset ex_job < 2 ^ 128" "pj_asset ex_job = 100"
    by (simp_all add: ex_queued_def ex_job_def)
  then show ?thesis using label_encodes_identity [OF ex_runs(1) _ _ ex_render_ok] by simp
qed

text \<open>
  The visible text of a label is complete and stays within the margin: its lines, joined, are the
  captions and values of the template's fields without their line breaks, and no line is wider than the
  margin unless it is a single character.
\<close>

theorem label_text_complete:
  "concat (label_lines wider s) = concat (map (\<lambda>f. filter (\<lambda>c. \<not> line_boundary c) (field_line s f)) (sn_fields s))
   \<and> (\<forall>l \<in> set (label_lines wider s). length l \<le> 1 \<or> \<not> wider l)"
proof
  show "concat (label_lines wider s) = concat (map (\<lambda>f. filter (\<lambda>c. \<not> line_boundary c) (field_line s f)) (sn_fields s))"
    by (simp add: label_lines_def concat_concat_map wrap_line_concat splitlines_concat)
  show "\<forall>l \<in> set (label_lines wider s). length l \<le> 1 \<or> \<not> wider l"
    using wrap_line_fits [of "[]" wider] by (auto simp: label_lines_def)
qed

lemma get_job_in:
  assumes "get_job x db i = Inr j"
  shows "j \<in> set (print_jobs db)" "visible x (pj_org j)" "pj_id j = i"
  using assms by (auto simp: get_job_def from_option_Inr_iff dest: find_Some_in)

lemma get_job_found:
  assumes "print_ok db" "j \<in> set (print_jobs db)" "visible x (pj_org j)"
  shows "get_job x db (pj_id j) = Inr j"
proof -
  have "List.find (\<lambda>k. visible x (pj_org k) \<and> pj_id k = pj_id j) (print_jobs db) = Some j"
    by (rule find_key [of pj_id]) (use assms in \<open>auto simp: print_ok_def\<close>)
  then show ?thesis by (simp add: get_job_def)
qed

lemma dispatch_keeps:
  assumes "dispatch pr x i st db = (r, st')"
  shows "st \<subseteq>\<^sub>m st'"
proof -
  have "st \<subseteq>\<^sub>m snd (artifact_publish h f org job fmt content st)" for h f org job fmt content
    by (auto simp: artifact_publish_def map_le_def split: option.splits)
  then have "st \<subseteq>\<^sub>m snd (deliver pr j st)" for j
    by (auto simp: deliver_def split: option.splits sum.splits prod.splits) (metis snd_conv)+
  then show ?thesis
    using assms by (auto simp: dispatch_def split: sum.splits prod.splits if_splits) (metis snd_conv)+
qed

text \<open>
  What a finished job delivered stays readable: its artifact reads back as the same bytes after any
  later run and any later deliveries, because no delivery replaces an artifact.
\<close>

theorem finished_artifact_stays:
  assumes "printed db" "printed_later db db'" "read_artifact pr x i st db = Inr (j, content)"
    and "dispatch pr' y k st d = (r, st')"
  shows "read_artifact pr x i st' db' = Inr (j, content)"
proof -
  note R = read_artifact_Inr [OF assms(3)]
  note J = get_job_in [OF R(1)]
  have ok: "print_ok db'" "\<exists>j' \<in> set (print_jobs db'). pj_status j = SUCCEEDED \<longrightarrow> j' = j"
    using later_job [OF assms(2) printed_ok [OF assms(1)] J(1)] by blast+
  then have g: "get_job x db' i = Inr j" using get_job_found [of db' j x] R(2) J by auto
  obtain d' where "pj_sha256 j = Some d'" "artifact_read (pr_sha256 pr) (pj_org j) (pj_id j) (pj_format j) d' st = Inr content"
    using R(4) by blast
  moreover from this have "st (pj_org j, pj_id j, pj_format j) = Some content"
    by (auto simp: artifact_read_def result_simps split: option.splits)
  then have "st' (pj_org j, pj_id j, pj_format j) = Some content"
    using dispatch_keeps [OF assms(4)] by (auto simp: map_le_def dom_def)
  ultimately show ?thesis
    using g R(2,3) \<open>st _ = _\<close> by (simp add: read_artifact_def artifact_read_def)
qed

theorem finished_artifact_stays_witness:
  "read_artifact ex_printing ex_ctx 402 ex_artifacts ex_printed = Inr (ex_printed_job, ex_content)"
proof -
  have r: "read_artifact ex_printing ex_ctx 402 ex_artifacts ex_printed = Inr (ex_printed_job, ex_content)"
    using ex_content_size
    by (simp add: read_artifact_def artifact_read_def ex_job_found(2) ex_digest ex_artifacts_def ensure_def ex_printed_job_def
        ex_job_def) (simp add: ex_printing_def)
  then have "dispatch ex_printing ex_ctx 402 ex_artifacts ex_printed = (Inr (ex_printed_job, ex_printed), ex_artifacts)"
    by (simp add: dispatch_def ex_job_found(2)) (simp add: ex_printed_job_def)
  from finished_artifact_stays [OF ex_runs(2) printed_later.now r this] show ?thesis .
qed










text \<open>
  C34: labelling a receipt requests exactly one job for each Asset its lines produced, and for nothing
  else, in the order of the identifiers, and never more than 500.
\<close>

theorem receipt_labels_exact:
  assumes "enqueue_receipt x org fresh receipt template fmt db = Inr (js, db')"
  shows "map pj_asset js = sort (remdups (List.map_filter rl_asset
       (filter (\<lambda>l. visible x (rl_org l) \<and> rl_receipt l = receipt) (receipt_lines db))))
     \<and> print_jobs db' = print_jobs db @ js \<and> length js \<le> 500
     \<and> (\<forall>j \<in> set js. pj_status j = PENDING \<and> pj_format j = fmt \<and> pj_template j = template)"
proof -
  let ?all = "sort (remdups (List.map_filter rl_asset
       (filter (\<lambda>l. visible x (rl_org l) \<and> rl_receipt l = receipt) (receipt_lines db))))"
  have len: "length (take 501 ?all) \<le> 500" and run: "enqueue_all x org fresh (take 501 ?all) template fmt db = Inr (js, db')"
    using assms unfolding enqueue_receipt_def receipt_targets_def Let_def rbind_Inr_iff ensure_Inr_iff by blast+
  have take: "take 501 ?all = ?all" using len by simp
  have "map pj_asset ks = ts \<and> print_jobs d' = print_jobs d @ ks
      \<and> (\<forall>j \<in> set ks. pj_status j = PENDING \<and> pj_format j = fmt \<and> pj_template j = template)"
    if "enqueue_all x org fresh ts template fmt d = Inr (ks, d')" for ts ks d d'
    using that
  proof (induction ts arbitrary: d ks)
    case (Cons t ts)
    obtain j d1 ls where e: "enqueue x org (fresh (length ts)) t template fmt d = Inr (j, d1)"
      and r: "enqueue_all x org fresh ts template fmt d1 = Inr (ls, d')" and ks: "ks = j # ls"
      using Cons.prems by (auto simp: rbind_Inr_iff)
    show ?case using Cons.IH [OF r] enqueue_Inr [OF e] by (simp add: ks)
  qed simp
  from this [OF run] have jobs: "map pj_asset js = ?all" "print_jobs db' = print_jobs db @ js"
    "\<forall>j \<in> set js. pj_status j = PENDING \<and> pj_format j = fmt \<and> pj_template j = template" unfolding take by blast+
  moreover have "length js \<le> 500" using len jobs(1) take by (metis length_map)
  ultimately show ?thesis by blast
qed

theorem receipt_labels_exact_witness:
  "[100] = sort (remdups (List.map_filter rl_asset
       (filter (\<lambda>l. visible ex_ctx (rl_org l) \<and> rl_receipt l = 200) (receipt_lines ex_shelf))))"
  using receipt_labels_exact [OF ex_receipt_labels] by (simp add: ex_job_def)

end
