(* ===== verification/Parties.thy ===== *)
theory Parties
  imports Evidence "HOL-Library.Product_Lexorder"
begin

text \<open>
  Identity administration: \<open>domain/identity.py\<close> over the constraints of \<open>0002_identity_auth.py\<close> and the
  attribution trigger of \<open>0006_assets.py\<close>, and the initial user of \<open>bootstrap_user.py\<close>.

  Argon2 is a parameter: how it hashes a password.  So is the regular-expression class of blanks that
  the username pattern uses.
\<close>

section \<open>Actors\<close>

definition name_ok :: "pgtext \<Rightarrow> bool" where
  "name_ok t \<longleftrightarrow> length_between 1 200 (btrim t)"

text \<open>Row security, \<open>CHECK\<close>, unique and foreign keys, then \<open>zz_authenticated_creator\<close>.\<close>

definition insert_actor :: "ctx \<Rightarrow> actor_row \<Rightarrow> fleet \<Rightarrow> sqlstate + (actor_row \<times> fleet)" where
  "insert_actor x a db =
     (let db' = db\<lparr>actors := actors db @ [a]\<rparr> in
      ensure (visible x (ac_org a)) E42501
        (ensure (name_ok (ac_name a)) E23514
          (ensure (\<forall>b \<in> set (actors db). ac_id b \<noteq> ac_id a) E23505
            (ensure (ac_org a \<in> set (organizations db) \<and> actor_exists db' (ac_org a) (ac_created_by a)) E23503
              (rbind (enforce_authenticated_creator x db' (ac_created_by a) None) (\<lambda>_. Inr (a, db')))))))"

definition create_actor ::
  "ctx \<Rightarrow> uuid \<Rightarrow> uuid \<Rightarrow> uuid \<Rightarrow> actor_type \<Rightarrow> pgtext \<Rightarrow> fleet \<Rightarrow> py_error + (actor_row \<times> fleet)" where
  "create_actor x org performer fresh kind name db =
     map_error DBError (insert_actor x
       \<lparr>ac_id = fresh, ac_org = org, ac_type = kind, ac_name = name, ac_active = True, ac_created_by = performer\<rparr> db)"

section \<open>Parties\<close>

text \<open>\<open>StrEnum\<close> members and SQL texts of roles are ordered by their names.\<close>

fun party_rank :: "party_role \<Rightarrow> nat" where
  "party_rank CARRIER = 0"
| "party_rank CUSTOMER = 1"
| "party_rank INTERNAL = 2"
| "party_rank MANUFACTURER = 3"
| "party_rank SUBCONTRACTOR = 4"
| "party_rank VENDOR = 5"

lemma party_rank_inj: "party_rank a = party_rank b \<Longrightarrow> a = b"
  by (cases a; cases b) simp_all

instantiation party_role :: linorder
begin

definition less_eq_party_role :: "party_role \<Rightarrow> party_role \<Rightarrow> bool" where
  "less_eq_party_role a b \<longleftrightarrow> party_rank a \<le> party_rank b"

definition less_party_role :: "party_role \<Rightarrow> party_role \<Rightarrow> bool" where
  "less_party_role a b \<longleftrightarrow> party_rank a < party_rank b"

instance
  by standard (auto simp: less_eq_party_role_def less_party_role_def intro: party_rank_inj)

end

definition insert_party :: "ctx \<Rightarrow> party_row \<Rightarrow> fleet \<Rightarrow> sqlstate + (party_row \<times> fleet)" where
  "insert_party x p db =
     (let db' = db\<lparr>parties := parties db @ [p]\<rparr> in
      ensure (visible x (pa_org p)) E42501
        (ensure (name_ok (pa_name p)) E23514
          (ensure (\<forall>q \<in> set (parties db). pa_id q \<noteq> pa_id p) E23505
            (ensure (pa_org p \<in> set (organizations db) \<and> actor_exists db (pa_org p) (pa_created_by p)) E23503
              (rbind (enforce_authenticated_creator x db' (pa_created_by p) None) (\<lambda>_. Inr (p, db')))))))"

definition insert_role :: "ctx \<Rightarrow> role_row \<Rightarrow> fleet \<Rightarrow> sqlstate + fleet" where
  "insert_role x r db =
     ensure (visible x (pr_org r)) E42501
       (ensure (\<forall>q \<in> set (party_roles db). pr_id q \<noteq> pr_id r
                  \<and> \<not> (pr_org q = pr_org r \<and> pr_party q = pr_party r \<and> pr_role q = pr_role r)) E23505
         (ensure (pr_org r \<in> set (organizations db) \<and> party_exists db (pr_org r) (pr_party r)) E23503
           (Inr (db\<lparr>party_roles := party_roles db @ [r]\<rparr>))))"

fun insert_roles :: "ctx \<Rightarrow> role_row list \<Rightarrow> fleet \<Rightarrow> sqlstate + fleet" where
  "insert_roles x [] db = Inr db"
| "insert_roles x (r # rs) db = rbind (insert_role x r db) (insert_roles x rs)"

text \<open>The Python set of roles is a list here, of which only the members count.\<close>

definition create_party ::
  "ctx \<Rightarrow> uuid \<Rightarrow> uuid \<Rightarrow> (nat \<Rightarrow> uuid) \<Rightarrow> pgtext \<Rightarrow> party_role list \<Rightarrow> fleet
   \<Rightarrow> py_error + ((party_row \<times> party_role list) \<times> fleet)" where
  "create_party x org performer fresh name roles db =
     ensure (roles \<noteq> []) ValueError
       (let sorted_roles = sort (remdups roles) in
        rbind (map_error DBError (insert_party x
                 \<lparr>pa_id = fresh 0, pa_org = org, pa_name = name, pa_created_by = performer\<rparr> db)) (\<lambda>(p, db1).
        rbind (map_error DBError (insert_roles x
                 (map (\<lambda>(n, r). \<lparr>pr_id = fresh (Suc n), pr_org = org, pr_party = pa_id p, pr_role = r\<rparr>)
                   (List.enumerate 0 sorted_roles)) db1)) (\<lambda>db2.
          Inr ((p, sorted_roles), db2))))"

text \<open>The query joins the two tables; the loop groups its rows by party.\<close>

definition joined_parties :: "ctx \<Rightarrow> fleet \<Rightarrow> (party_row \<times> party_role) list" where
  "joined_parties x db =
     sort_key (\<lambda>(p, r). (pa_id p, r)) (concat (map (\<lambda>p. map (\<lambda>r. (p, pr_role r))
       (filter (\<lambda>r. visible x (pr_org r) \<and> pr_org r = pa_org p \<and> pr_party r = pa_id p) (party_roles db)))
       (filter (\<lambda>p. visible x (pa_org p)) (parties db))))"

definition group_row ::
  "party_row \<times> party_role \<Rightarrow> (uuid \<times> party_row \<times> party_role list) list \<Rightarrow> (uuid \<times> party_row \<times> party_role list) list"
where
  "group_row row results =
     (case row of (p, r) \<Rightarrow>
        dict_set (pa_id p)
          (case map_of results (pa_id p) of None \<Rightarrow> (p, [r]) | Some (q, rs) \<Rightarrow> (q, rs @ [r])) results)"

definition list_parties :: "ctx \<Rightarrow> fleet \<Rightarrow> (party_row \<times> party_role list) list" where
  "list_parties x db = map snd (fold group_row (joined_parties x db) [])"

section \<open>The initial user\<close>

definition ORGANIZATION_ID :: uuid where
  "ORGANIZATION_ID = 0x01a0744a17c47497a69b9da2aa8403da"

definition ACTOR_ID :: uuid where
  "ACTOR_ID = 0x01a0744a17c572b0a295fdf4f7feb13d"

text \<open>\<open>^\S(?:.*\S)?$\<close>, where the dot does not match a line feed.\<close>

definition username_ok :: "(nat \<Rightarrow> bool) \<Rightarrow> pgtext \<Rightarrow> bool" where
  "username_ok blank t \<longleftrightarrow> length_between 1 128 t \<and> \<not> blank (hd t) \<and> \<not> blank (last t) \<and> 10 \<notin> set (butlast (tl t))"

definition user_check :: "user_row \<Rightarrow> bool" where
  "user_check u \<longleftrightarrow> length_between 1 128 (us_username u) \<and> us_username u = btrim (us_username u)
     \<and> take 10 (us_password_hash u) = lit ''$argon2id$''"

definition insert_user :: "ctx \<Rightarrow> user_row \<Rightarrow> fleet \<Rightarrow> sqlstate + fleet" where
  "insert_user x u db =
     ensure (user_check u) E23514
       (ensure (\<forall>v \<in> set (users db). us_id v \<noteq> us_id u \<and> \<not> (us_org v = us_org u \<and> us_username v = us_username u)
                  \<and> \<not> (us_org v = us_org u \<and> us_actor v = us_actor u)) E23505
         (ensure (us_org u \<in> set (organizations db)
                  \<and> (\<exists>a \<in> set (actors db). ac_org a = us_org u \<and> ac_id a = us_actor u \<and> ac_type a = HUMAN)) E23503
           (Inr (db\<lparr>users := users db @ [u]\<rparr>))))"

text \<open>\<open>BootstrapRefused\<close> is a \<open>ValueError\<close>, and \<open>IntegrityError\<close> the SQLSTATEs of class 23.\<close>

fun bootstrap_error :: "sqlstate \<Rightarrow> py_error" where
  "bootstrap_error E23502 = ValueError"
| "bootstrap_error E23503 = ValueError"
| "bootstrap_error E23505 = ValueError"
| "bootstrap_error E23514 = ValueError"
| "bootstrap_error e = DBError e"

definition bootstrap_user ::
  "(nat \<Rightarrow> bool) \<Rightarrow> (pgtext \<Rightarrow> pgtext) \<Rightarrow> ctx \<Rightarrow> uuid \<Rightarrow> uuid \<Rightarrow> pgtext \<Rightarrow> pgtext \<Rightarrow> fleet \<Rightarrow> py_error + (uuid \<times> fleet)"
where
  "bootstrap_user blank hash x org fresh username password db =
     ensure (org = ORGANIZATION_ID) ValueError
       (ensure (password \<noteq> []) ValueError
         (ensure (username_ok blank username) ValidationError
           (let x' = set_organization org x in
            ensure (\<not> (\<exists>u \<in> set (users db). visible x' (us_org u) \<and> us_org u = org)) ValueError
              (ensure (\<exists>a \<in> set (actors db). visible x' (ac_org a) \<and> ac_id a = ACTOR_ID \<and> ac_org a = org
                         \<and> ac_type a = HUMAN \<and> ac_active a) ValueError
                (rbind (map_error bootstrap_error (insert_user x'
                   \<lparr>us_id = fresh, us_org = org, us_actor = ACTOR_ID, us_username = username,
                    us_password_hash = hash password, us_active = True\<rparr> db)) (\<lambda>db'.
                   Inr (fresh, db')))))))"

end
