(* ===== verification/Catalog.thy ===== *)
theory Catalog
  imports Parties Procurement
begin

text \<open>
  The catalogue: \<open>domain/catalog.py\<close> over the constraints of \<open>0003_catalog.py\<close> and the triggers that
  \<open>0006_assets.py\<close> attaches to it.  An \<open>Item\<close> is edited in place; the key that an Asset holds on its
  serialized Item forbids some of the edits.
\<close>

section \<open>Items\<close>

definition item_check :: "item_row \<Rightarrow> bool" where
  "item_check i \<longleftrightarrow> length_between 1 200 (btrim (it_mpn i))
     \<and> holds_if (\<lambda>t. length_between 1 200 (btrim t)) (it_revision i)
     \<and> length_between 1 4000 (btrim (it_description i))
     \<and> holds_if (\<lambda>t. length_between 1 200 (btrim t)) (it_classification i)"

text \<open>\<open>NULLS NOT DISTINCT\<close>: an absent revision is one value.\<close>

definition catalog_entry :: "item_row \<Rightarrow> uuid \<times> uuid \<times> pgtext \<times> pgtext option" where
  "catalog_entry i = (it_org i, it_manufacturer i, it_mpn i, it_revision i)"

definition item_refs :: "fleet \<Rightarrow> item_row \<Rightarrow> bool" where
  "item_refs db i \<longleftrightarrow> it_org i \<in> set (organizations db) \<and> party_exists db (it_org i) (it_manufacturer i)
     \<and> has_role db (it_org i) (it_manufacturer i) MANUFACTURER
     \<and> actor_exists db (it_org i) (it_created_by i) \<and> actor_exists db (it_org i) (it_updated_by i)"

definition insert_item :: "ctx \<Rightarrow> item_row \<Rightarrow> fleet \<Rightarrow> sqlstate + (item_row \<times> fleet)" where
  "insert_item x i db =
     (let db' = db\<lparr>items := items db @ [i]\<rparr> in
      ensure (visible x (it_org i)) E42501
        (ensure (item_check i) E23514
          (ensure (\<forall>j \<in> set (items db). it_id j \<noteq> it_id i \<and> catalog_entry j \<noteq> catalog_entry i) E23505
            (ensure (item_refs db i) E23503
              (rbind (enforce_authenticated_creator x db' (it_created_by i) (Some (it_updated_by i))) (\<lambda>_.
                 Inr (i, db')))))))"

text \<open>\<open>enforce_authenticated_updater\<close> on Items.\<close>

definition stamp_item :: "ctx \<Rightarrow> fleet \<Rightarrow> item_row \<Rightarrow> sqlstate + item_row" where
  "stamp_item x db i =
     (if x_app x \<and> x_org x = Some (it_org i) then
        rbind (current_authenticated_actor x db) (\<lambda>performer. Inr (i\<lparr>it_updated_by := performer\<rparr>))
      else Inr i)"

text \<open>An update that Assets forbid: their key names the Item as serialized.\<close>

definition asset_key_ok :: "fleet \<Rightarrow> item_row \<Rightarrow> bool" where
  "asset_key_ok db i \<longleftrightarrow>
     it_serialized i \<or> \<not> (\<exists>a \<in> set (assets db). as_org a = it_org i \<and> as_item a = it_id i)"

definition update_item_row :: "ctx \<Rightarrow> item_row \<Rightarrow> fleet \<Rightarrow> sqlstate + (item_row \<times> fleet)" where
  "update_item_row x new db =
     rbind (stamp_item x db new) (\<lambda>i.
       ensure (visible x (it_org i)) E42501
         (ensure (item_check i) E23514
           (ensure (\<forall>j \<in> set (items db). it_id j \<noteq> it_id i \<longrightarrow> catalog_entry j \<noteq> catalog_entry i) E23505
             (ensure (item_refs db i \<and> asset_key_ok db i) E23503
               (Inr (i, db\<lparr>items := map (\<lambda>j. if it_id j = it_id i then i else j) (items db)\<rparr>))))))"

fun catalog_errors :: "sqlstate \<Rightarrow> py_error" where
  "catalog_errors E23505 = CatalogConflict"
| "catalog_errors E23503 = CatalogInvalid"
| "catalog_errors E23514 = CatalogInvalid"
| "catalog_errors E23502 = CatalogInvalid"
| "catalog_errors e = DBError e"

record item_request =
  iq_manufacturer :: uuid
  iq_mpn :: pgtext
  iq_revision :: "pgtext option"
  iq_description :: pgtext
  iq_uom :: uom
  iq_serialized :: bool
  iq_classification :: "pgtext option"
  iq_controlled :: bool
  iq_active :: bool

definition create_item :: "ctx \<Rightarrow> uuid \<Rightarrow> uuid \<Rightarrow> uuid \<Rightarrow> item_request \<Rightarrow> fleet \<Rightarrow> py_error + (item_row \<times> fleet)" where
  "create_item x org performer fresh q db =
     map_error catalog_errors (insert_item x
       \<lparr>it_id = fresh, it_org = org, it_manufacturer = iq_manufacturer q, it_mpn = iq_mpn q, it_revision = iq_revision q,
        it_description = iq_description q, it_uom = iq_uom q, it_serialized = iq_serialized q,
        it_classification = iq_classification q, it_controlled = iq_controlled q, it_active = iq_active q,
        it_created_by = performer, it_updated_by = performer\<rparr> db)"

definition get_item :: "ctx \<Rightarrow> fleet \<Rightarrow> uuid \<Rightarrow> py_error + item_row" where
  "get_item x db i = from_option CatalogNotFound (List.find (\<lambda>t. visible x (it_org t) \<and> it_id t = i) (items db))"

definition list_items :: "ctx \<Rightarrow> fleet \<Rightarrow> item_row list" where
  "list_items x db = sort_key it_id (filter (\<lambda>t. visible x (it_org t)) (items db))"

text \<open>
  \<open>ItemUpdate\<close> with \<open>exclude_unset\<close>: an absent field is kept; only the revision and the classification can
  be cleared, so their values are options inside the option.
\<close>

record item_patch =
  ip_manufacturer :: "uuid option"
  ip_mpn :: "pgtext option"
  ip_revision :: "pgtext option option"
  ip_description :: "pgtext option"
  ip_uom :: "uom option"
  ip_serialized :: "bool option"
  ip_classification :: "pgtext option option"
  ip_controlled :: "bool option"
  ip_active :: "bool option"

definition set_or :: "'a \<Rightarrow> 'a option \<Rightarrow> 'a" where
  "set_or old new = (case new of None \<Rightarrow> old | Some v \<Rightarrow> v)"

definition no_patch :: item_patch where
  "no_patch = \<lparr>ip_manufacturer = None, ip_mpn = None, ip_revision = None, ip_description = None, ip_uom = None,
     ip_serialized = None, ip_classification = None, ip_controlled = None, ip_active = None\<rparr>"

definition patch_item :: "item_patch \<Rightarrow> item_row \<Rightarrow> item_row" where
  "patch_item p i = i
     \<lparr>it_manufacturer := set_or (it_manufacturer i) (ip_manufacturer p), it_mpn := set_or (it_mpn i) (ip_mpn p),
      it_revision := set_or (it_revision i) (ip_revision p), it_description := set_or (it_description i) (ip_description p),
      it_uom := set_or (it_uom i) (ip_uom p), it_serialized := set_or (it_serialized i) (ip_serialized p),
      it_classification := set_or (it_classification i) (ip_classification p),
      it_controlled := set_or (it_controlled i) (ip_controlled p), it_active := set_or (it_active i) (ip_active p)\<rparr>"

definition update_item :: "ctx \<Rightarrow> uuid \<Rightarrow> uuid \<Rightarrow> item_patch \<Rightarrow> fleet \<Rightarrow> py_error + (item_row \<times> fleet)" where
  "update_item x i performer p db =
     (if p = no_patch then rbind (get_item x db i) (\<lambda>t. Inr (t, db))
      else
        (case List.find (\<lambda>t. visible x (it_org t) \<and> it_id t = i) (items db) of
           None \<Rightarrow> Inl CatalogNotFound
         | Some t \<Rightarrow> map_error catalog_errors (update_item_row x ((patch_item p t)\<lparr>it_updated_by := performer\<rparr>) db)))"

text \<open>\<open>DELETE /items\<close> only deactivates.\<close>

definition deactivate_item :: "ctx \<Rightarrow> uuid \<Rightarrow> uuid \<Rightarrow> fleet \<Rightarrow> py_error + fleet" where
  "deactivate_item x i performer db =
     rbind (update_item x i performer (no_patch\<lparr>ip_active := Some False\<rparr>) db) (\<lambda>(_, db'). Inr db')"

section \<open>External references\<close>

definition reference_target_exists :: "ctx \<Rightarrow> fleet \<Rightarrow> reference_entity \<Rightarrow> uuid \<Rightarrow> bool" where
  "reference_target_exists x db k i =
     (case k of
        ITEM \<Rightarrow> \<exists>t \<in> set (items db). visible x (it_org t) \<and> it_id t = i
      | PARTY \<Rightarrow> \<exists>p \<in> set (parties db). visible x (pa_org p) \<and> pa_id p = i)"

definition validate_reference_target :: "ctx \<Rightarrow> fleet \<Rightarrow> reference_entity \<Rightarrow> uuid \<Rightarrow> py_error + unit" where
  "validate_reference_target x db k i = ensure (reference_target_exists x db k i) CatalogNotFound (Inr ())"

definition reference_check :: "reference_row \<Rightarrow> bool" where
  "reference_check r \<longleftrightarrow> length_between 1 200 (btrim (er_system r)) \<and> length_between 1 100 (btrim (er_type r))
     \<and> length_between 1 500 (btrim (er_value r))"

definition attachment_key ::
  "reference_row \<Rightarrow> uuid \<times> reference_entity \<times> uuid \<times> pgtext \<times> pgtext \<times> pgtext" where
  "attachment_key r = (er_org r, er_entity r, er_entity_id r, er_system r, er_type r, er_value r)"

definition insert_reference :: "ctx \<Rightarrow> reference_row \<Rightarrow> fleet \<Rightarrow> sqlstate + (reference_row \<times> fleet)" where
  "insert_reference x r db =
     (let db' = db\<lparr>external_references := external_references db @ [r]\<rparr> in
      ensure (visible x (er_org r)) E42501
        (ensure (reference_check r) E23514
          (ensure (\<forall>q \<in> set (external_references db). er_id q \<noteq> er_id r \<and> attachment_key q \<noteq> attachment_key r) E23505
            (ensure (er_org r \<in> set (organizations db) \<and> actor_exists db (er_org r) (er_created_by r)) E23503
              (rbind (enforce_authenticated_creator x db' (er_created_by r) None) (\<lambda>_. Inr (r, db')))))))"

definition attach_reference ::
  "ctx \<Rightarrow> uuid \<Rightarrow> uuid \<Rightarrow> uuid \<Rightarrow> reference_entity \<Rightarrow> uuid \<Rightarrow> pgtext \<Rightarrow> pgtext \<Rightarrow> pgtext \<Rightarrow> fleet
   \<Rightarrow> py_error + (reference_row \<times> fleet)" where
  "attach_reference x org performer fresh k i system kind v db =
     rbind (validate_reference_target x db k i) (\<lambda>_.
       map_error catalog_errors (insert_reference x
         \<lparr>er_id = fresh, er_org = org, er_entity = k, er_entity_id = i, er_system = system, er_type = kind,
          er_value = v, er_created_by = performer\<rparr> db))"

definition list_references :: "ctx \<Rightarrow> fleet \<Rightarrow> reference_entity \<Rightarrow> uuid \<Rightarrow> py_error + reference_row list" where
  "list_references x db k i =
     rbind (validate_reference_target x db k i) (\<lambda>_.
       Inr (sort_key er_id (filter (\<lambda>r. visible x (er_org r) \<and> er_entity r = k \<and> er_entity_id r = i)
              (external_references db))))"

text \<open>Ordered by the type's name, \<open>ITEM\<close> before \<open>PARTY\<close>, and the target.\<close>

definition entity_rank :: "reference_entity \<Rightarrow> nat" where
  "entity_rank k = (case k of ITEM \<Rightarrow> 0 | PARTY \<Rightarrow> 1)"

definition search_references :: "ctx \<Rightarrow> fleet \<Rightarrow> pgtext \<Rightarrow> pgtext \<Rightarrow> pgtext \<Rightarrow> reference_row list" where
  "search_references x db system kind v =
     sort_key (\<lambda>r. entity_rank (er_entity r)) (sort_key er_entity_id
       (filter (\<lambda>r. visible x (er_org r) \<and> er_system r = system \<and> er_type r = kind \<and> er_value r = v)
         (external_references db)))"

end
