(* ===== verification/CatalogProperties.thy ===== *)
theory CatalogProperties
  imports Catalog FleetExample FleetEffects "HOL-Library.Code_Target_Nat"
begin

text \<open>
  The properties of identity administration and the catalogue: what the listings return, unique entries,
  serialized Items under Assets, edits and external references.
\<close>

section \<open>Parties and their roles\<close>

text \<open>The listing, stated without a join: the parties by identifier, each with its sorted roles.\<close>

definition roles_of :: "fleet \<Rightarrow> party_row \<Rightarrow> party_role list" where
  "roles_of db p = sort (map pr_role (filter (\<lambda>r. pr_org r = pa_org p \<and> pr_party r = pa_id p) (party_roles db)))"

definition parties_ok :: "fleet \<Rightarrow> bool" where
  "parties_ok db \<longleftrightarrow> distinct (map pa_id (parties db))
     \<and> distinct (map (\<lambda>r. (pr_org r, pr_party r, pr_role r)) (party_roles db))
     \<and> (\<forall>p \<in> set (parties db). \<exists>r \<in> set (party_roles db). pr_org r = pa_org p \<and> pr_party r = pa_id p)"

lemma mset_concat_map: "mset (concat (map h xs)) = (\<Sum>x \<in># mset xs. mset (h x))"
  by (induction xs) simp_all

lemma sorted_join:
  assumes "sorted_wrt (\<lambda>p q. pa_id p < pa_id q) ps" "\<And>p. sorted (rs p)"
  shows "sorted (map (\<lambda>(p, r). (pa_id p, r)) (concat (map (\<lambda>p. map (Pair p) (rs p)) ps)))"
  using assms(1)
proof (induction ps)
  case (Cons p ps)
  have "sorted (map (\<lambda>(p, r). (pa_id p, r)) (map (Pair p) (rs p)))"
    using assms(2) [of p] by (simp add: sorted_map comp_def)
  moreover have "sorted (map (\<lambda>(p, r). (pa_id p, r)) (concat (map (\<lambda>p. map (Pair p) (rs p)) ps)))"
    using Cons by simp
  moreover have "pa_id p < pa_id q" if "q \<in> set ps" for q using Cons.prems that by simp
  ultimately show ?case by (auto simp: sorted_append)
qed simp

text \<open>Sorting the join is sorting the parties and, in each, the roles.\<close>

lemma joined_eq:
  assumes "distinct (map pa_id (parties db))"
  shows "joined_parties x db = concat (map (\<lambda>p. map (Pair p) (roles_of db p))
     (sort_key pa_id (filter (\<lambda>p. visible x (pa_org p)) (parties db))))"
proof -
  let ?ps = "filter (\<lambda>p. visible x (pa_org p)) (parties db)"
  let ?rows = "concat (map (\<lambda>p. map (\<lambda>r. (p, pr_role r))
       (filter (\<lambda>r. visible x (pr_org r) \<and> pr_org r = pa_org p \<and> pr_party r = pa_id p) (party_roles db))) ?ps)"
  have "distinct (map pa_id ?ps)" using assms by (simp add: distinct_map_filter)
  moreover have "mset (map pa_id (sort_key pa_id ?ps)) = mset (map pa_id ?ps)" by simp
  ultimately have d: "distinct (map pa_id (sort_key pa_id ?ps))" using mset_eq_imp_distinct_iff by blast
  have seen: "filter (\<lambda>r. visible x (pr_org r) \<and> pr_org r = pa_org p \<and> pr_party r = pa_id p) (party_roles db)
      = filter (\<lambda>r. pr_org r = pa_org p \<and> pr_party r = pa_id p) (party_roles db)" if "visible x (pa_org p)" for p
    using that by (intro filter_cong) auto
  show ?thesis
    unfolding joined_parties_def
  proof (rule sort_key_inj_key_eq)
    have "mset (map (\<lambda>r. (p, pr_role r)) (filter (\<lambda>r. visible x (pr_org r) \<and> pr_org r = pa_org p \<and> pr_party r = pa_id p)
        (party_roles db))) = mset (map (Pair p) (roles_of db p))" if "p \<in># mset ?ps" for p
      using that by (simp add: roles_of_def seen multiset.map_comp comp_def)
    then show "mset ?rows = mset (concat (map (\<lambda>p. map (Pair p) (roles_of db p)) (sort_key pa_id ?ps)))"
      unfolding mset_concat_map mset_sort by (intro arg_cong [where f = sum_mset] image_mset_cong)
    show "inj_on (\<lambda>(p, r). (pa_id p, r)) (set ?rows)"
      using assms by (auto simp: inj_on_def distinct_map)
    have "sorted_wrt (\<lambda>p q. pa_id p < pa_id q) (sort_key pa_id ?ps)"
      using d by (simp add: strict_sorted_iff flip: sorted_wrt_map)
    then show "sorted (map (\<lambda>(p, r). (pa_id p, r)) (concat (map (\<lambda>p. map (Pair p) (roles_of db p)) (sort_key pa_id ?ps))))"
      by (rule sorted_join) (simp add: roles_of_def)
  qed
qed

text \<open>The loop, over rows grouped by party.\<close>

lemma add_party:
  assumes "pa_id p \<notin> fst ` set d" "rs \<noteq> []"
  shows "fold group_row (map (Pair p) rs) d = d @ [(pa_id p, p, rs)]"
  using assms(2)
proof (induction rs rule: rev_induct)
  case (snoc r rs)
  show ?case
  proof (cases "rs = []")
    case True
    then show ?thesis using assms(1) by (simp add: group_row_def dict_set_new map_of_eq_None_iff [THEN iffD2])
  next
    case False
    have "map_of (d @ [(pa_id p, p, rs)]) (pa_id p) = Some (p, rs)"
      using assms(1) by (simp add: map_add_def map_of_eq_None_iff [THEN iffD2] split: option.splits)
    then show ?thesis using snoc.IH [OF False] assms(1) by (simp add: group_row_def dict_set_last)
  qed
qed simp

lemma add_parties:
  assumes "distinct (map pa_id ps)" "\<forall>p \<in> set ps. rs p \<noteq> []" "pa_id ` set ps \<inter> fst ` set d = {}"
  shows "fold group_row (concat (map (\<lambda>p. map (Pair p) (rs p)) ps)) d = d @ map (\<lambda>p. (pa_id p, p, rs p)) ps"
  using assms
proof (induction ps arbitrary: d)
  case (Cons p ps)
  have "pa_id ` set ps \<inter> fst ` set (d @ [(pa_id p, p, rs p)]) = {}" using Cons.prems by auto
  then show ?case using Cons add_party [of p d "rs p"] by simp
qed simp

lemma list_parties_eq:
  assumes "parties_ok db"
  shows "list_parties x db = map (\<lambda>p. (p, roles_of db p)) (sort_key pa_id (filter (\<lambda>p. visible x (pa_org p)) (parties db)))"
proof -
  let ?ps = "sort_key pa_id (filter (\<lambda>p. visible x (pa_org p)) (parties db))"
  have d: "distinct (map pa_id (parties db))" using assms by (simp add: parties_ok_def)
  then have "distinct (map pa_id (filter (\<lambda>p. visible x (pa_org p)) (parties db)))" by (simp add: distinct_map_filter)
  moreover have "mset (map pa_id ?ps) = mset (map pa_id (filter (\<lambda>p. visible x (pa_org p)) (parties db)))" by simp
  ultimately have d': "distinct (map pa_id ?ps)" using mset_eq_imp_distinct_iff by blast
  have "roles_of db p \<noteq> []" if "p \<in> set ?ps" for p
  proof -
    have "\<exists>r \<in> set (party_roles db). pr_org r = pa_org p \<and> pr_party r = pa_id p"
      using assms that by (simp add: parties_ok_def)
    then have "set (roles_of db p) \<noteq> {}" by (auto simp: roles_of_def)
    then show ?thesis by auto
  qed
  then have "fold group_row (joined_parties x db) [] = map (\<lambda>p. (pa_id p, p, roles_of db p)) ?ps"
    using add_parties [OF d', of "roles_of db" "[]"] by (simp add: joined_eq [OF d])
  then show ?thesis by (simp add: list_parties_def)
qed

section \<open>Runs\<close>

text \<open>
  The steps that touch the catalogue, the Parties or the Assets.  The rest of the program reads these
  tables only, except for the descriptions of Assets.
\<close>

definition same_catalog :: "fleet \<Rightarrow> fleet \<Rightarrow> bool" where
  "same_catalog db db' \<longleftrightarrow> parties db' = parties db \<and> party_roles db' = party_roles db \<and> items db' = items db
     \<and> external_references db' = external_references db"

inductive catalog_step :: "ctx \<Rightarrow> fleet \<Rightarrow> fleet \<Rightarrow> bool" for x :: ctx where
  actor: "create_actor x org who fresh kind t db = Inr (a, db') \<Longrightarrow> catalog_step x db db'"
| party: "create_party x org who ids t rs db = Inr (p, db') \<Longrightarrow> catalog_step x db db'"
| item: "create_item x org who fresh q db = Inr (i, db') \<Longrightarrow> catalog_step x db db'"
| edit: "update_item x i who c db = Inr (t, db') \<Longrightarrow> catalog_step x db db'"
| attach: "attach_reference x org who fresh k i s t v db = Inr (r, db') \<Longrightarrow> catalog_step x db db'"
| operate: "asset_step x i v db db' \<Longrightarrow> catalog_step x db db'"
| receive: "create_unit_facts x a t tid d db = Inr db' \<Longrightarrow> catalog_step x db db'"
| elsewhere: "same_catalog db db' \<Longrightarrow> map as_org (assets db') = map as_org (assets db)
    \<Longrightarrow> map as_item (assets db') = map as_item (assets db) \<Longrightarrow> catalog_step x db db'"

inductive catalogued :: "fleet \<Rightarrow> bool" where
  start: "parties db = [] \<Longrightarrow> party_roles db = [] \<Longrightarrow> items db = [] \<Longrightarrow> external_references db = []
    \<Longrightarrow> assets db = [] \<Longrightarrow> catalogued db"
| run: "catalogued db \<Longrightarrow> catalog_step x db db' \<Longrightarrow> catalogued db'"

definition items_ok :: "fleet \<Rightarrow> bool" where
  "items_ok db \<longleftrightarrow> distinct (map it_id (items db)) \<and> distinct (map catalog_entry (items db))
     \<and> (\<forall>i \<in> set (items db). item_check i \<and> has_role db (it_org i) (it_manufacturer i) MANUFACTURER)"

definition asset_items :: "fleet \<Rightarrow> (uuid \<times> uuid) set" where
  "asset_items db = (\<lambda>a. (as_org a, as_item a)) ` set (assets db)"

definition assets_serialized :: "fleet \<Rightarrow> bool" where
  "assets_serialized db \<longleftrightarrow>
     (\<forall>(org, t) \<in> asset_items db. \<exists>i \<in> set (items db). it_org i = org \<and> it_id i = t \<and> it_serialized i)"

definition catalog_ok :: "fleet \<Rightarrow> bool" where
  "catalog_ok db \<longleftrightarrow> parties_ok db \<and> items_ok db \<and> assets_serialized db
     \<and> distinct (map attachment_key (external_references db))"

lemma catalog_ok_same:
  assumes "same_catalog db db'" "asset_items db' = asset_items db" "catalog_ok db"
  shows "catalog_ok db'"
  using assms by (simp add: same_catalog_def catalog_ok_def parties_ok_def items_ok_def assets_serialized_def has_role_def)

section \<open>What each operation writes\<close>

lemma insert_roles_Inr:
  assumes "insert_roles x rs db = Inr db'"
  shows "db' = db\<lparr>party_roles := party_roles db @ rs\<rparr>"
    "distinct (map (\<lambda>r. (pr_org r, pr_party r, pr_role r)) (party_roles db))
      \<Longrightarrow> distinct (map (\<lambda>r. (pr_org r, pr_party r, pr_role r)) (party_roles db @ rs))"
proof -
  have "db' = db\<lparr>party_roles := party_roles db @ rs\<rparr>
     \<and> (distinct (map (\<lambda>r. (pr_org r, pr_party r, pr_role r)) (party_roles db))
      \<longrightarrow> distinct (map (\<lambda>r. (pr_org r, pr_party r, pr_role r)) (party_roles db @ rs)))"
    using assms
  proof (induction rs arbitrary: db)
    case (Cons r rs)
    obtain db1 where i: "insert_role x r db = Inr db1" and more: "insert_roles x rs db1 = Inr db'"
      using Cons.prems by (auto simp: rbind_Inr_iff)
    have db1: "db1 = db\<lparr>party_roles := party_roles db @ [r]\<rparr>"
      and new: "\<forall>q \<in> set (party_roles db). (pr_org q, pr_party q, pr_role q) \<noteq> (pr_org r, pr_party r, pr_role r)"
      using i by (auto simp: insert_role_def ensure_Inr_iff)
    show ?case using Cons.IH [OF more] new by (auto simp: db1)
  qed simp
  then show "db' = db\<lparr>party_roles := party_roles db @ rs\<rparr>"
    "distinct (map (\<lambda>r. (pr_org r, pr_party r, pr_role r)) (party_roles db))
      \<Longrightarrow> distinct (map (\<lambda>r. (pr_org r, pr_party r, pr_role r)) (party_roles db @ rs))" by blast+
qed

lemma create_party_Inr:
  assumes "create_party x org who ids t roles db = Inr ((p, rs), db')"
  obtains new where "p = \<lparr>pa_id = ids 0, pa_org = org, pa_name = t, pa_created_by = who\<rparr>"
    "rs = sort (remdups roles)" "roles \<noteq> []" "visible x org" "pa_id p \<notin> pa_id ` set (parties db)"
    "db' = db\<lparr>parties := parties db @ [p], party_roles := party_roles db @ new\<rparr>"
    "insert_roles x new (db\<lparr>parties := parties db @ [p]\<rparr>) = Inr db'"
    "map pr_role new = rs" "\<forall>r \<in> set new. pr_org r = org \<and> pr_party r = pa_id p"
proof -
  define new where
    "new = map (\<lambda>(n, r). \<lparr>pr_id = ids (Suc n), pr_org = org, pr_party = pa_id p, pr_role = r\<rparr>)
       (List.enumerate 0 (sort (remdups roles)))"
  have w: "p = \<lparr>pa_id = ids 0, pa_org = org, pa_name = t, pa_created_by = who\<rparr> \<and> rs = sort (remdups roles) \<and> roles \<noteq> []
     \<and> visible x org \<and> pa_id p \<notin> pa_id ` set (parties db)
     \<and> insert_roles x new (db\<lparr>parties := parties db @ [p]\<rparr>) = Inr db'"
    using assms by (auto simp: create_party_def insert_party_def Let_def ensure_Inr_iff rbind_Inr_iff new_def)
  then have "insert_roles x new (db\<lparr>parties := parties db @ [p]\<rparr>) = Inr db'" by blast
  from insert_roles_Inr(1) [OF this] have "db' = db\<lparr>parties := parties db @ [p], party_roles := party_roles db @ new\<rparr>"
    by simp
  moreover have "map pr_role new = map snd (List.enumerate 0 (sort (remdups roles)))"
    unfolding new_def map_map by (rule map_cong) auto
  then have "map pr_role new = sort (remdups roles)" by simp
  moreover have "\<forall>r \<in> set new. pr_org r = org \<and> pr_party r = pa_id p" by (auto simp: new_def)
  ultimately show thesis using w by (intro that [of new]) blast+
qed

lemma create_item_Inr:
  assumes "create_item x org who fresh q db = Inr (i, db')"
  shows "db' = db\<lparr>items := items db @ [i]\<rparr>" "item_check i" "has_role db (it_org i) (it_manufacturer i) MANUFACTURER"
    "it_id i \<notin> it_id ` set (items db)" "catalog_entry i \<notin> catalog_entry ` set (items db)"
  using assms
  by (auto simp: create_item_def insert_item_def Let_def ensure_Inr_iff rbind_Inr_iff item_refs_def)

lemma stamp_item_Inr:
  assumes "stamp_item x db i = Inr j"
  obtains w where "j = i\<lparr>it_updated_by := w\<rparr>"
proof (cases "x_app x \<and> x_org x = Some (it_org i)")
  case True
  then obtain w where "j = i\<lparr>it_updated_by := w\<rparr>" using assms by (auto simp: stamp_item_def rbind_Inr_iff)
  then show thesis by (rule that)
next
  case False
  then have "j = i\<lparr>it_updated_by := it_updated_by i\<rparr>" using assms unfolding stamp_item_def by auto
  then show thesis by (rule that)
qed

lemma update_item_row_Inr:
  assumes "update_item_row x n db = Inr (r, db')"
  shows "stamp_item x db n = Inr r" "item_check r" "asset_key_ok db r"
    "\<forall>j \<in> set (items db). it_id j \<noteq> it_id r \<longrightarrow> catalog_entry j \<noteq> catalog_entry r"
    "has_role db (it_org r) (it_manufacturer r) MANUFACTURER"
    "db' = db\<lparr>items := map (\<lambda>j. if it_id j = it_id r then r else j) (items db)\<rparr>"
  using assms by (simp_all add: update_item_row_def rbind_Inr_iff ensure_Inr_iff item_refs_def)

lemma update_item_Inr:
  assumes "update_item x i who c db = Inr (r, db')" "c \<noteq> no_patch"
  obtains t w where "List.find (\<lambda>t. visible x (it_org t) \<and> it_id t = i) (items db) = Some t"
    "r = (patch_item c t)\<lparr>it_updated_by := w\<rparr>" "it_id r = i" "it_org r = it_org t"
    "update_item_row x ((patch_item c t)\<lparr>it_updated_by := who\<rparr>) db = Inr (r, db')"
proof -
  obtain t where t: "List.find (\<lambda>t. visible x (it_org t) \<and> it_id t = i) (items db) = Some t"
    and u: "update_item_row x ((patch_item c t)\<lparr>it_updated_by := who\<rparr>) db = Inr (r, db')"
    using assms by (auto simp: update_item_def split: option.splits)
  obtain w where "r = (patch_item c t)\<lparr>it_updated_by := who\<rparr>\<lparr>it_updated_by := w\<rparr>"
    by (rule stamp_item_Inr [OF update_item_row_Inr(1) [OF u]])
  then have "r = (patch_item c t)\<lparr>it_updated_by := w\<rparr>" by simp
  moreover from this have "it_id r = i" "it_org r = it_org t" using find_Some_in [OF t] by (simp_all add: patch_item_def)
  ultimately show thesis using t u by (intro that) assumption+
qed

lemma attach_reference_Inr:
  assumes "attach_reference x org who fresh k i s t v db = Inr (r, db')"
  shows "r = \<lparr>er_id = fresh, er_org = org, er_entity = k, er_entity_id = i, er_system = s, er_type = t, er_value = v,
      er_created_by = who\<rparr>"
    "db' = db\<lparr>external_references := external_references db @ [r]\<rparr>" "visible x org" "reference_check r"
    "reference_target_exists x db k i" "attachment_key r \<notin> attachment_key ` set (external_references db)"
  using assms
  by (auto simp: attach_reference_def validate_reference_target_def insert_reference_def Let_def ensure_Inr_iff
      rbind_Inr_iff)

section \<open>The invariant\<close>

lemma create_party_keeps:
  assumes "create_party x org who ids t roles db = Inr (p, db')" "catalog_ok db"
  shows "catalog_ok db'"
proof -
  obtain q rs where p: "p = (q, rs)" by (cases p)
  obtain new where w: "rs = sort (remdups roles)" "roles \<noteq> []" "pa_id q \<notin> pa_id ` set (parties db)" "pa_org q = org"
    "db' = db\<lparr>parties := parties db @ [q], party_roles := party_roles db @ new\<rparr>"
    "insert_roles x new (db\<lparr>parties := parties db @ [q]\<rparr>) = Inr db'"
    "map pr_role new = rs" "\<forall>r \<in> set new. pr_org r = org \<and> pr_party r = pa_id q"
    by (rule create_party_Inr [OF assms(1) [unfolded p]]) (simp add: that)
  have "distinct (map (\<lambda>r. (pr_org r, pr_party r, pr_role r)) (party_roles db'))"
    using insert_roles_Inr(2) [OF w(6)] assms(2) by (simp add: w(5) catalog_ok_def parties_ok_def)
  moreover have "\<exists>r \<in> set new. pr_org r = pa_org q \<and> pr_party r = pa_id q"
  proof -
    have "new \<noteq> []" using w(1,2,7) by (metis length_0_conv length_map length_sort remdups_eq_nil_iff)
    then show ?thesis using w(4,8) by (cases new) auto
  qed
  ultimately have "parties_ok db'"
    using assms(2) w(3) by (auto simp: w(5) catalog_ok_def parties_ok_def)
  moreover have "items_ok db'"
    using assms(2) by (auto simp: w(5) catalog_ok_def items_ok_def has_role_def)
  ultimately show ?thesis using assms(2) by (simp add: w(5) catalog_ok_def assets_serialized_def asset_items_def)
qed

lemma create_item_keeps:
  assumes "create_item x org who fresh q db = Inr (i, db')" "catalog_ok db"
  shows "catalog_ok db'"
proof -
  note I = create_item_Inr [OF assms(1)]
  show ?thesis
    using assms(2) I(2-5) by (auto simp: I(1) catalog_ok_def parties_ok_def items_ok_def has_role_def
        assets_serialized_def asset_items_def)
qed

lemma distinct_map_replace:
  assumes "distinct (map k xs)" "\<forall>y \<in> set xs. d y \<noteq> d r \<longrightarrow> k y \<noteq> k r" "distinct (map d xs)"
  shows "distinct (map k (map (\<lambda>y. if d y = d r then r else y) xs))"
  using assms
proof (induction xs)
  case (Cons y ys)
  have "distinct (map k (map (\<lambda>y. if d y = d r then r else y) ys))" using Cons by simp
  moreover have "d z \<noteq> d y" if "z \<in> set ys" for z using Cons.prems(3) that by (metis distinct.simps(2) image_eqI list.simps(9) set_map)
  ultimately show ?case using Cons.prems(1,2) by (auto simp: image_iff split: if_splits)
qed simp

lemma update_item_keeps:
  assumes "update_item x i who c db = Inr (r, db')" "catalog_ok db"
  shows "catalog_ok db'"
proof (cases "c = no_patch")
  case True
  then have "db' = db" using assms(1) by (auto simp: update_item_def rbind_Inr_iff)
  then show ?thesis using assms(2) by simp
next
  case False
  obtain t w where t: "List.find (\<lambda>t. visible x (it_org t) \<and> it_id t = i) (items db) = Some t"
    "it_id r = i" "it_org r = it_org t" "update_item_row x ((patch_item c t)\<lparr>it_updated_by := who\<rparr>) db = Inr (r, db')"
    by (rule update_item_Inr [OF assms(1) False])
  note U = update_item_row_Inr [OF t(4)]
  let ?u = "\<lambda>j. if it_id j = it_id r then r else j"
  have ok: "distinct (map it_id (items db))" "distinct (map catalog_entry (items db))"
    using assms(2) by (simp_all add: catalog_ok_def items_ok_def)
  have tin: "t \<in> set (items db)" "it_id t = it_id r" using find_Some_in [OF t(1)] t(2) by simp_all
  have "distinct (map it_id (map ?u (items db)))" "distinct (map catalog_entry (map ?u (items db)))"
    using ok U(4) by (intro distinct_map_replace; simp)+
  then have "items_ok db'"
    using assms(2) U(2,5) by (auto simp: U(6) catalog_ok_def items_ok_def has_role_def simp del: map_map)
  moreover have "assets_serialized db'"
    unfolding assets_serialized_def
  proof (intro ballI, clarify)
    fix org k assume a: "(org, k) \<in> asset_items db'"
    then have "(org, k) \<in> asset_items db" by (simp add: U(6) asset_items_def)
    then obtain j where j: "j \<in> set (items db)" "it_org j = org" "it_id j = k" "it_serialized j"
      using assms(2) by (auto simp: catalog_ok_def assets_serialized_def)
    show "\<exists>i \<in> set (items db'). it_org i = org \<and> it_id i = k \<and> it_serialized i"
    proof (cases "k = it_id r")
      case True
      then have "j = t" using ok(1) j(1,3) tin unfolding distinct_map by (metis inj_onD)
      moreover from this have "it_serialized r" using U(3) a j(2,3) t(3) True by (auto simp: asset_key_ok_def U(6) asset_items_def)
      ultimately show ?thesis using True j(2) t(3) tin by (auto simp: U(6) intro!: bexI [of _ r] image_eqI [of _ _ t])
    next
      case False
      then show ?thesis using j by (auto simp: U(6) intro!: bexI [of _ j])
    qed
  qed
  ultimately show ?thesis using assms(2) by (simp add: U(6) catalog_ok_def parties_ok_def)
qed

lemma attach_reference_keeps:
  assumes "attach_reference x org who fresh k i s t v db = Inr (r, db')" "catalog_ok db"
  shows "catalog_ok db'"
proof -
  note R = attach_reference_Inr [OF assms(1)]
  show ?thesis
    using assms(2) R(6) by (simp add: R(2) catalog_ok_def parties_ok_def items_ok_def has_role_def
        assets_serialized_def asset_items_def)
qed

lemma asset_step_items:
  assumes "asset_step x i v db db'"
  shows "same_catalog db db'" "asset_items db' = asset_items db"
proof -
  obtain org actor v' where g: "grown org i actor db db'" and s: "restamps org i v' db db'"
    using asset_step_effect [OF assms] unfolding effect_def by blast
  have "db' = db\<lparr>assets := assets db', asset_transitions := asset_transitions db',
              asset_movements := asset_movements db', asset_custody_changes := asset_custody_changes db',
              asset_ownership_changes := asset_ownership_changes db',
              asset_assignment_events := asset_assignment_events db'\<rparr>" (is "_ = ?u")
    using g by (simp add: grown_def)
  from this [THEN arg_cong, of parties] this [THEN arg_cong, of party_roles]
    this [THEN arg_cong, of items] this [THEN arg_cong, of external_references]
  show "same_catalog db db'" by (simp add: same_catalog_def)
  obtain u where "assets db' = map (\<lambda>b. if is_asset org i b then u b else b) (assets db)"
    "\<forall>b. as_org (u b) = as_org b \<and> as_item (u b) = as_item b"
    using s by (auto simp: restamps_def)
  then have "map (\<lambda>b. (as_org b, as_item b)) (assets db') = map (\<lambda>b. (as_org b, as_item b)) (assets db)" by simp
  then show "asset_items db' = asset_items db" by (metis asset_items_def list.set_map)
qed

lemma create_unit_keeps:
  assumes "create_unit_facts x a t tid d db = Inr db'" "catalog_ok db"
  shows "catalog_ok db'"
proof -
  note C = create_unit_facts_Inr(1,10) [OF assms(1)]
  have "item_serialized db (as_org a) (as_item a)" using C(2) by (simp add: asset_refs_def item_serialized_def)
  then have "assets_serialized db'"
    using assms(2) by (auto simp: C(1) created_db_def catalog_ok_def assets_serialized_def asset_items_def item_serialized_def)
  then show ?thesis
    using assms(2) by (simp add: C(1) created_db_def catalog_ok_def parties_ok_def items_ok_def has_role_def)
qed

lemma catalog_step_keeps:
  assumes "catalog_step x db db'" "catalog_ok db"
  shows "catalog_ok db'"
  using assms(1)
proof cases
  case actor
  then have "same_catalog db db' \<and> asset_items db' = asset_items db"
    by (auto simp: create_actor_def insert_actor_def Let_def ensure_Inr_iff rbind_Inr_iff same_catalog_def asset_items_def)
  then show ?thesis using catalog_ok_same assms(2) by blast
next
  case operate
  then show ?thesis by (metis asset_step_items catalog_ok_same assms(2))
next
  case elsewhere
  have "map (\<lambda>a. (as_org a, as_item a)) (assets db') = zip (map as_org (assets db')) (map as_item (assets db'))"
    "map (\<lambda>a. (as_org a, as_item a)) (assets db) = zip (map as_org (assets db)) (map as_item (assets db))"
    by (simp_all add: zip_map_map zip_same_conv_map)
  then have "asset_items db' = asset_items db" using elsewhere by (metis asset_items_def list.set_map)
  then show ?thesis using catalog_ok_same elsewhere(1) assms(2) by blast
next
  case party then show ?thesis using create_party_keeps assms(2) by blast
next
  case item then show ?thesis using create_item_keeps assms(2) by blast
next
  case edit then show ?thesis using update_item_keeps assms(2) by blast
next
  case attach then show ?thesis using attach_reference_keeps assms(2) by blast
next
  case receive then show ?thesis using create_unit_keeps assms(2) by blast
qed

lemma catalogued_ok: "catalogued db \<Longrightarrow> catalog_ok db"
proof (induction rule: catalogued.induct)
  case (start db)
  then show ?case by (simp add: catalog_ok_def parties_ok_def items_ok_def assets_serialized_def asset_items_def)
qed (rule catalog_step_keeps)

section \<open>Properties\<close>

text \<open>
  C35: the listing of Parties equals its specification without a join: the visible Parties in the order
  of their identifiers, each once, with its roles in order.  The loop over the joined rows neither loses
  a Party nor splits one.
\<close>

theorem parties_listed:
  assumes "catalogued db"
  shows "list_parties x db = map (\<lambda>p. (p, roles_of db p)) (sort_key pa_id (filter (\<lambda>p. visible x (pa_org p)) (parties db)))"
  using list_parties_eq catalogued_ok [OF assms] by (simp add: catalog_ok_def)

text \<open>
  C36: the catalogue stays sound.  No two Items have the same manufacturer, part number and revision (an
  absent revision included), every Item is made by a Party that holds the role of a manufacturer, every
  Asset is a unit of an Item of its tenant that is serialized, whatever edits the Item has had, and no
  external reference is attached twice.
\<close>

theorem catalog_stays_sound:
  assumes "catalogued db"
  shows "distinct (map catalog_entry (items db))
     \<and> (\<forall>i \<in> set (items db). has_role db (it_org i) (it_manufacturer i) MANUFACTURER)
     \<and> (\<forall>a \<in> set (assets db). item_serialized db (as_org a) (as_item a))
     \<and> distinct (map attachment_key (external_references db))"
proof -
  note K = catalogued_ok [OF assms, unfolded catalog_ok_def]
  have "item_serialized db (as_org a) (as_item a)" if "a \<in> set (assets db)" for a
  proof -
    have "(as_org a, as_item a) \<in> asset_items db" using that by (auto simp: asset_items_def)
    then show ?thesis using K by (auto simp: assets_serialized_def item_serialized_def)
  qed
  then show ?thesis using K by (simp add: items_ok_def)
qed

text \<open>
  An edit of an Item changes what its patch names and nothing else.  The stored row is the old one
  with the given fields, cleared fields included, and a new updater; every other Item is untouched; and
  an Item that is not serialized afterwards has no Asset.
\<close>

theorem item_edit_exact:
  assumes "update_item x i who c db = Inr (r, db')" "c \<noteq> no_patch"
  shows "\<exists>t w. get_item x db i = Inr t \<and> r = (patch_item c t)\<lparr>it_updated_by := w\<rparr>
     \<and> db' = db\<lparr>items := map (\<lambda>j. if it_id j = i then r else j) (items db)\<rparr>
     \<and> (\<not> it_serialized r \<longrightarrow> (\<forall>a \<in> set (assets db). \<not> (as_org a = it_org t \<and> as_item a = i)))"
proof -
  obtain t w where t: "List.find (\<lambda>t. visible x (it_org t) \<and> it_id t = i) (items db) = Some t"
    "r = (patch_item c t)\<lparr>it_updated_by := w\<rparr>" "it_id r = i" "it_org r = it_org t"
    "update_item_row x ((patch_item c t)\<lparr>it_updated_by := who\<rparr>) db = Inr (r, db')"
    by (rule update_item_Inr [OF assms])
  note U = update_item_row_Inr [OF t(5)]
  have "get_item x db i = Inr t" using t(1) by (simp add: get_item_def)
  moreover have "\<forall>a \<in> set (assets db). \<not> (as_org a = it_org t \<and> as_item a = i)" if "\<not> it_serialized r"
    using U(3) that t(3,4) by (auto simp: asset_key_ok_def)
  moreover have "db' = db\<lparr>items := map (\<lambda>j. if it_id j = i then r else j) (items db)\<rparr>" using U(6) t(3) by simp
  ultimately show ?thesis using t(2) by blast
qed

text \<open>
  An external reference that was attached is found, by its target and by its value, and attaching it
  again is refused as a conflict under any identifier.
\<close>

theorem reference_attached_once:
  assumes "attach_reference x org who fresh k i s t v db = Inr (r, db')"
  shows "r \<in> set (search_references x db' s t v)
     \<and> (\<exists>rs. list_references x db' k i = Inr rs \<and> r \<in> set rs)
     \<and> attach_reference x org who fresh' k i s t v db' = Inl CatalogConflict"
proof -
  note R = attach_reference_Inr [OF assms]
  have there: "reference_target_exists x db' k i" using R(5) by (simp add: R(2) reference_target_exists_def split: reference_entity.splits)
  have key: "attachment_key r \<in> attachment_key ` set (external_references db')" by (simp add: R(2))
  define n where "n = \<lparr>er_id = fresh', er_org = org, er_entity = k, er_entity_id = i, er_system = s, er_type = t,
      er_value = v, er_created_by = who\<rparr>"
  have same: "attachment_key n = attachment_key r" "reference_check n" "er_org n = org"
    using R(4) by (simp_all add: R(1) n_def attachment_key_def reference_check_def)
  have "(\<forall>q \<in> set (external_references db'). er_id q \<noteq> er_id n \<and> attachment_key q \<noteq> attachment_key n) = False"
    unfolding same using key by fastforce
  then have "insert_reference x n db' = Inl E23505"
    using R(3) same(2,3) by (simp only: insert_reference_def Let_def ensure_simps)
  then have "attach_reference x org who fresh' k i s t v db' = Inl CatalogConflict"
    using there by (simp add: attach_reference_def validate_reference_target_def n_def)
  moreover have "list_references x db' k i = Inr (sort_key er_id (filter (\<lambda>r. visible x (er_org r) \<and> er_entity r = k
      \<and> er_entity_id r = i) (external_references db')))"
    using there by (simp add: list_references_def validate_reference_target_def)
  ultimately show ?thesis using R(1,3) by (simp add: R(2) search_references_def)
qed

section \<open>Instances\<close>

definition cat_base :: fleet where
  "cat_base = empty_fleet
     \<lparr>organizations := [1], actors := actors ex_base, users := users ex_base, sessions := sessions ex_base\<rparr>"

definition cat_party :: party_row where
  "cat_party = \<lparr>pa_id = 30, pa_org = 1, pa_name = [80], pa_created_by = 10\<rparr>"

definition cat_parties :: fleet where
  "cat_parties = cat_base
     \<lparr>parties := [cat_party],
      party_roles := [\<lparr>pr_id = 31, pr_org = 1, pr_party = 30, pr_role = MANUFACTURER\<rparr>,
                      \<lparr>pr_id = 32, pr_org = 1, pr_party = 30, pr_role = VENDOR\<rparr>]\<rparr>"

definition cat_item :: item_row where
  "cat_item = \<lparr>it_id = 20, it_org = 1, it_manufacturer = 30, it_mpn = [77], it_revision = None, it_description = [68],
     it_uom = EA, it_serialized = True, it_classification = None, it_controlled = False, it_active = True,
     it_created_by = 10, it_updated_by = 10\<rparr>"

definition cat_items :: fleet where
  "cat_items = cat_parties\<lparr>items := [cat_item]\<rparr>"

definition cat_request :: item_request where
  "cat_request = \<lparr>iq_manufacturer = 30, iq_mpn = [77], iq_revision = None, iq_description = [68], iq_uom = EA,
     iq_serialized = True, iq_classification = None, iq_controlled = False, iq_active = True\<rparr>"

definition cat_reference :: reference_row where
  "cat_reference = \<lparr>er_id = 50, er_org = 1, er_entity = ITEM, er_entity_id = 20, er_system = [69], er_type = [83],
     er_value = [55], er_created_by = 10\<rparr>"

definition cat_referenced :: fleet where
  "cat_referenced = cat_items\<lparr>external_references := [cat_reference]\<rparr>"

definition cat_patch :: item_patch where
  "cat_patch = no_patch\<lparr>ip_revision := Some (Some [50]), ip_active := Some False\<rparr>"

definition cat_edited :: fleet where
  "cat_edited = cat_referenced\<lparr>items := [cat_item\<lparr>it_revision := Some [50], it_active := False\<rparr>]\<rparr>"

lemma cat_party_ok:
  "create_party ex_ctx 1 10 (\<lambda>n. 30 + n) [80] [VENDOR, MANUFACTURER] cat_base = Inr ((cat_party, [MANUFACTURER, VENDOR]), cat_parties)"
  by code_simp

lemma cat_item_ok: "create_item ex_ctx 1 10 20 cat_request cat_parties = Inr (cat_item, cat_items)"
  by code_simp

lemma cat_reference_ok:
  "attach_reference ex_ctx 1 10 50 ITEM 20 [69] [83] [55] cat_items = Inr (cat_reference, cat_referenced)"
  by code_simp

lemma cat_edit_ok:
  "update_item ex_ctx 20 10 cat_patch cat_referenced = Inr (cat_item\<lparr>it_revision := Some [50], it_active := False\<rparr>, cat_edited)"
  by code_simp

lemma cat_catalogued: "catalogued cat_edited" "catalogued cat_parties"
proof -
  have "catalogued cat_base" by (rule catalogued.start) (simp_all add: cat_base_def empty_fleet_def)
  then show p: "catalogued cat_parties" using cat_party_ok by (blast intro: catalogued.run catalog_step.party)
  then have "catalogued cat_items" using cat_item_ok by (blast intro: catalogued.run catalog_step.item)
  then have "catalogued cat_referenced" using cat_reference_ok by (blast intro: catalogued.run catalog_step.attach)
  then show "catalogued cat_edited" using cat_edit_ok by (blast intro: catalogued.run catalog_step.edit)
qed

lemma cat_catalog:
  "parties cat_parties = [cat_party]" "items cat_edited = [cat_item\<lparr>it_revision := Some [50], it_active := False\<rparr>]"
  by (simp_all add: cat_parties_def cat_edited_def)

theorem parties_listed_witness: "list_parties ex_ctx cat_parties = [(cat_party, [MANUFACTURER, VENDOR])]"
proof -
  have "roles_of cat_parties cat_party = [MANUFACTURER, VENDOR]" by code_simp
  then show ?thesis
    using parties_listed [OF cat_catalogued(2), of ex_ctx]
    by (simp add: cat_catalog) (simp add: cat_party_def visible_def ex_ctx_def)
qed

theorem catalog_stays_sound_witness:
  "length (items cat_edited) = 1 \<and> has_role cat_edited (it_org cat_item) (it_manufacturer cat_item) MANUFACTURER
     \<and> distinct (map attachment_key (external_references cat_edited))"
  using catalog_stays_sound [OF cat_catalogued(1)] by (simp add: cat_catalog)

theorem item_edit_exact_witness:
  "cat_edited = cat_referenced\<lparr>items := map (\<lambda>j. if it_id j = 20 then cat_item\<lparr>it_revision := Some [50], it_active := False\<rparr> else j)
     (items cat_referenced)\<rparr>"
  proof -
  have "cat_patch \<noteq> no_patch" by (simp add: cat_patch_def no_patch_def)
  from item_edit_exact [OF cat_edit_ok this] show ?thesis by blast
qed

theorem reference_attached_once_witness:
  "cat_reference \<in> set (search_references ex_ctx cat_referenced [69] [83] [55])
     \<and> attach_reference ex_ctx 1 10 51 ITEM 20 [69] [83] [55] cat_referenced = Inl CatalogConflict"
  using reference_attached_once [OF cat_reference_ok] by blast

end
