(* ===== verification/Login.thy ===== *)
theory Login
  imports Parties AuthProperties
begin

text \<open>
  The settings of the server (\<open>settings.py\<close>), password login and logout (\<open>api/app.py\<close>) over the
  session operations of \<open>Auth\<close>, and how the initial user, login, requests and logout fit together.

  Parsed URLs are given by the two parts the checks read; whether a path is absolute is a parameter, as
  are SHA-256, the Argon2 verifier and its dummy hash.
\<close>

section \<open>Settings\<close>

record db_url =
  ul_driver :: pgtext
  ul_user :: "pgtext option"

record settings =
  st_database :: db_url
  st_organization :: uuid
  st_authenticator :: db_url
  st_seconds :: int
  st_evidence_root :: "pgtext option"
  st_upload_limit :: int
  st_label_root :: "pgtext option"

definition url_for :: "pgtext \<Rightarrow> db_url \<Rightarrow> bool" where
  "url_for role u \<longleftrightarrow> ul_driver u = lit ''postgresql+psycopg'' \<and> ul_user u = Some role"

definition make_settings :: "(pgtext \<Rightarrow> bool) \<Rightarrow> settings \<Rightarrow> py_error + settings" where
  "make_settings absolute s =
     ensure (url_for (lit ''fleetops_app'') (st_database s)) ValueError
       (ensure (url_for (lit ''fleetops_authenticator'') (st_authenticator s)) ValueError
         (ensure (1 \<le> st_seconds s \<and> st_seconds s \<le> 86400) ValueError
           (ensure (holds_if absolute (st_evidence_root s)) ValueError
             (ensure (1 \<le> st_upload_limit s \<and> st_upload_limit s \<le> 1073741824) ValueError
               (ensure (holds_if absolute (st_label_root s)) ValueError (Inr s))))))"

section \<open>Login and logout\<close>

definition second_us :: int where
  "second_us = 1000000"

text \<open>\<open>sid\<close> is the drawn session identifier and \<open>raw\<close> the drawn token.\<close>

definition login ::
  "(bytes \<Rightarrow> bytes) \<Rightarrow> (pgtext \<Rightarrow> pgtext \<Rightarrow> bool) \<Rightarrow> pgtext \<Rightarrow> settings \<Rightarrow> ctx \<Rightarrow> uuid \<Rightarrow> pgtext \<Rightarrow> pgtext \<Rightarrow> pgtext \<Rightarrow> fleet
   \<Rightarrow> py_error + ((pgtext \<times> tstz) \<times> fleet)" where
  "login sha256 verify dummy s x sid raw username password db =
     (let x' = set_organization (st_organization s) x in
      case authenticate_password verify dummy x' db username password of
        None \<Rightarrow> Inl Unauthorized
      | Some (user, _) \<Rightarrow>
          (let expires = At (x_now x + st_seconds s * second_us) in
           rbind (map_error DBError (issue_session x' user (Some sid) (Some (sha256 (utf8 raw))) (Some expires) db))
             (\<lambda>db'. Inr ((raw, expires), db'))))"

definition logout :: "(bytes \<Rightarrow> bytes) \<Rightarrow> ctx \<Rightarrow> pgtext option \<Rightarrow> fleet \<Rightarrow> py_error + fleet" where
  "logout sha256 x bearer db =
     rbind (authenticated sha256 x db bearer) (\<lambda>(x', _). map_error DBError (revoke_current_session x' db))"

section \<open>Facts\<close>

lemma make_settings_Inr:
  "make_settings absolute s = Inr t \<Longrightarrow> t = s \<and> 1 \<le> st_seconds s \<and> st_seconds s \<le> 86400"
  by (auto simp: make_settings_def ensure_Inr_iff)

lemma login_Inr:
  assumes "login sha256 verify dummy s x sid raw username password db = Inr ((token, e), db')"
  obtains user actor where
    "authenticate_password verify dummy (set_organization (st_organization s) x) db username password = Some (user, actor)"
    "token = raw" "e = At (x_now x + st_seconds s * second_us)"
    "issue_session (set_organization (st_organization s) x) user (Some sid) (Some (sha256 (utf8 raw))) (Some e) db = Inr db'"
  using assms by (auto simp: login_def Let_def rbind_Inr_iff split: option.splits)

lemma issued_row:
  assumes "issue_session x user (Some sid) (Some d) (Some e) db = Inr db'" "x_org x = Some org"
  shows "d \<notin> se_digest ` set (sessions db)" "length d = 32" "login_identity db org user"
    "db' = db\<lparr>sessions := sessions db @ [\<lparr>se_id = sid, se_org = org, se_user = user, se_digest = d, se_active = True,
        se_created = At (x_now x), se_expires = e\<rparr>]\<rparr>"
  using assms by (auto simp: issue_session_def ensure_Inr_iff)

lemma resolve_issued:
  assumes "issue_session x user (Some sid) (Some d) (Some e) db = Inr db'" "x_org x = Some org"
  shows "resolve_session y db' d =
     (if At (x_now y) < e
      then concat (map (\<lambda>u. map (\<lambda>a. (org, us_id u, ac_id a)) (user_actors db u))
             (filter (\<lambda>u. us_org u = org \<and> us_id u = user \<and> us_active u) (users db)))
      else [])"
proof -
  note I = issued_row [OF assms]
  have "filter (live_session y d) (sessions db) = []" using I(1) by (auto simp: live_session_def filter_empty_conv)
  moreover have "user_actors db' u = user_actors db u" for u by (simp add: user_actors_def I(4))
  ultimately show ?thesis
    using I(2) by (simp add: resolve_session_def I(4) live_session_def session_users_def)
qed

lemma issued_resolves:
  assumes "issue_session x user (Some sid) (Some d) (Some e) db = Inr db'" "x_org x = Some org" "At (x_now y) < e"
  shows "\<exists>a rest. resolve_session y db' d = (org, user, a) # rest"
proof -
  let ?rs = "concat (map (\<lambda>u. map (\<lambda>a. (org, us_id u, ac_id a)) (user_actors db u))
             (filter (\<lambda>u. us_org u = org \<and> us_id u = user \<and> us_active u) (users db)))"
  have r: "resolve_session y db' d = ?rs" using resolve_issued [OF assms(1,2)] assms(3) by simp
  have "?rs \<noteq> []" using issued_row(3) [OF assms(1,2)] by (auto simp: login_identity_def)
  then obtain t rest where t: "?rs = t # rest" by (meson list.exhaust)
  then have "t \<in> set ?rs" by simp
  then obtain a where "t = (org, user, a)" by auto
  then show ?thesis using r t by simp
qed

lemma authenticated_iff:
  fixes sha256 :: "bytes \<Rightarrow> bytes"
  assumes "raw \<noteq> []" "length raw \<le> 1024" "digest_shape (sha256 (utf8 raw))"
  shows "authenticated sha256 y db (Some raw) =
     (case resolve_session y db (sha256 (utf8 raw)) of
        [] \<Rightarrow> Inl Unauthorized
      | (org, user, actor) # _ \<Rightarrow>
          Inr ((set_organization org y)\<lparr>x_digest_hex := Some (hex_encode (sha256 (utf8 raw)))\<rparr>,
               \<lparr>organization_id = org, user_id = user, actor_id = actor, token_digest = sha256 (utf8 raw)\<rparr>))"
  using assms by (simp add: authenticated_def resolve_identity_def set_credential_context_def digest_shape_def Let_def
      split: list.splits)

lemma filter_map_other:
  "(\<And>r. P r \<Longrightarrow> \<not> Q r \<and> \<not> Q (f r)) \<Longrightarrow> filter Q (map (\<lambda>r. if P r then f r else r) rs) = filter Q rs"
  by (induction rs) auto

section \<open>The initial user\<close>

lemma bootstrap_Inr:
  assumes "bootstrap_user blank hash x org fresh username password db = Inr (u, db')"
  shows "org = ORGANIZATION_ID" "\<forall>v \<in> set (users db). us_org v \<noteq> org" "u = fresh"
    "\<exists>a \<in> set (actors db). ac_id a = ACTOR_ID \<and> ac_org a = org \<and> ac_type a = HUMAN \<and> ac_active a"
    "db' = db\<lparr>users := users db @ [\<lparr>us_id = fresh, us_org = org, us_actor = ACTOR_ID, us_username = username,
                    us_password_hash = hash password, us_active = True\<rparr>]\<rparr>"
    "\<forall>v \<in> set (users db). us_id v \<noteq> u"
  using assms
  by (auto simp: bootstrap_user_def insert_user_def Let_def ensure_Inr_iff rbind_Inr_iff visible_def set_organization_def)

lemma bootstrap_actor:
  assumes "bootstrap_user blank hash x org fresh username password db = Inr (u, db')" "distinct (map ac_id (actors db))"
  obtains a rest where "filter (\<lambda>c. ac_org c = org \<and> ac_id c = ACTOR_ID \<and> ac_type c = HUMAN \<and> org = ac_org c) (actors db') = a # rest"
    "ac_active a"
proof -
  note b = bootstrap_Inr [OF assms(1)]
  obtain a where a: "a \<in> set (actors db)" "ac_id a = ACTOR_ID" "ac_org a = org" "ac_type a = HUMAN" "ac_active a"
    using b(4) by blast
  let ?P = "\<lambda>c. ac_org c = org \<and> ac_id c = ACTOR_ID \<and> ac_type c = HUMAN \<and> org = ac_org c"
  have "c = a" if "c \<in> set (actors db)" "ac_id c = ACTOR_ID" for c
    using assms(2) a(1,2) that by (metis distinct_map inj_onD)
  then have each: "\<forall>c \<in> set (filter ?P (actors db)). c = a" by simp
  have "filter ?P (actors db) \<noteq> []" using a by (auto simp: filter_empty_conv)
  then obtain c rest where "filter ?P (actors db) = c # rest" by (meson list.exhaust)
  moreover from this have "c = a" using each by simp
  ultimately show thesis using a(5) by (intro that) (simp_all add: b(5))
qed

lemma bootstrap_authenticates:
  assumes "\<And>p. verify (hash p) p" "distinct (map ac_id (actors db))"
    and "bootstrap_user blank hash x org fresh username password db = Inr (u, db')"
  shows "authenticate_password verify dummy (set_organization org x) db' username password = Some (u, ACTOR_ID)"
proof -
  note b = bootstrap_Inr [OF assms(3)]
  obtain a rest where a: "filter (\<lambda>c. ac_org c = org \<and> ac_id c = ACTOR_ID \<and> ac_type c = HUMAN \<and> org = ac_org c) (actors db')
      = a # rest" "ac_active a"
    by (rule bootstrap_actor [OF assms(3,2)])
  have U: "filter (\<lambda>v. org = us_org v \<and> us_username v = username) (users db')
      = [\<lparr>us_id = fresh, us_org = org, us_actor = ACTOR_ID, us_username = username, us_password_hash = hash password,
          us_active = True\<rparr>]"
    using b(2) by (auto simp: b(5) filter_empty_conv)
  show ?thesis
    using assms(1) a(2) by (simp add: authenticate_password_def set_organization_def U a(1) b(3) Let_def)
qed

section \<open>Properties\<close>

text \<open>
  C37: a login gives exactly the session it announces.  With checked settings the announced expiry lies
  between one second and one day ahead; until then a request that carries the token is the request of the
  logged-in user in the configured organization, and from then on it is refused.
\<close>

theorem login_grants_session:
  assumes "make_settings absolute s = Inr s" "\<And>b. digest_shape (sha256 b)" "raw \<noteq> []" "length raw \<le> 1024"
    and "login sha256 verify dummy s x sid raw username password db = Inr ((token, e), db')"
  shows "\<exists>t. e = At t \<and> x_now x + second_us \<le> t \<and> t \<le> x_now x + day_us
     \<and> (if x_now y < t
        then \<exists>y' who. authenticated sha256 y db' (Some token) = Inr (y', who)
               \<and> organization_id who = st_organization s
               \<and> (\<exists>u \<in> set (users db). us_id u = user_id who \<and> us_org u = st_organization s \<and> us_username u = username)
        else authenticated sha256 y db' (Some token) = Inl Unauthorized)"
proof -
  obtain user actor where l:
    "authenticate_password verify dummy (set_organization (st_organization s) x) db username password = Some (user, actor)"
    "token = raw" "e = At (x_now x + st_seconds s * second_us)"
    "issue_session (set_organization (st_organization s) x) user (Some sid) (Some (sha256 (utf8 raw))) (Some e) db = Inr db'"
    by (rule login_Inr [OF assms(5)])
  let ?t = "x_now x + st_seconds s * second_us"
  have o: "x_org (set_organization (st_organization s) x) = Some (st_organization s)" by (simp add: set_organization_def)
  have b: "second_us \<le> st_seconds s * second_us" "st_seconds s * second_us \<le> day_us"
    using make_settings_Inr [OF assms(1)] by (auto simp: second_us_def day_us_def)
  note A = authenticated_iff [OF assms(3,4), of sha256 y db', OF assms(2)]
  have u: "\<exists>u \<in> set (users db). us_id u = user \<and> us_org u = st_organization s \<and> us_username u = username"
    using login_admits [OF l(1)] o by auto
  have w: "\<exists>y' who. authenticated sha256 y db' (Some raw) = Inr (y', who) \<and> organization_id who = st_organization s
      \<and> user_id who = user" if "x_now y < ?t"
    using issued_resolves [OF l(4) o, of y] that l(3) A by auto
  have "\<exists>y' who. authenticated sha256 y db' (Some raw) = Inr (y', who) \<and> organization_id who = st_organization s
      \<and> (\<exists>u \<in> set (users db). us_id u = user_id who \<and> us_org u = st_organization s \<and> us_username u = username)"
    if "x_now y < ?t"
    using w [OF that] u by metis
  moreover have "authenticated sha256 y db' (Some raw) = Inl Unauthorized" if "\<not> x_now y < ?t"
    using resolve_issued [OF l(4) o, of y] that l(3) A by simp
  ultimately show ?thesis using b l(2,3) by simp
qed

text \<open>
  Checked settings never make a login fail.  Whenever the password of a user of the configured
  organization verifies and the drawn identifier and token are new, login returns a session.
\<close>

theorem login_succeeds:
  assumes "make_settings absolute s = Inr s" "\<And>b. digest_shape (sha256 b)"
    and "authenticate_password verify dummy (set_organization (st_organization s) x) db username password = Some (user, actor)"
    and "sid \<notin> se_id ` set (sessions db)" "sha256 (utf8 raw) \<notin> se_digest ` set (sessions db)"
  shows "\<exists>e db'. login sha256 verify dummy s x sid raw username password db = Inr ((raw, e), db')"
proof -
  let ?x = "set_organization (st_organization s) x"
  have x: "x_org ?x = Some (st_organization s)" "x_now ?x = x_now x" by (simp_all add: set_organization_def)
  have "login_identity db (st_organization s) user"
    using login_admits [OF assms(3)] x(1) by (fastforce simp: login_identity_def user_actors_def filter_empty_conv)
  moreover have "0 < st_seconds s * second_us" "st_seconds s * second_us \<le> day_us"
    using make_settings_Inr [OF assms(1)] by (auto simp: second_us_def day_us_def)
  moreover have "length (sha256 (utf8 raw)) = 32" using assms(2) by (simp add: digest_shape_def)
  ultimately have "\<exists>db'. issue_session ?x user (Some sid) (Some (sha256 (utf8 raw)))
      (Some (At (x_now x + st_seconds s * second_us))) db = Inr db'"
    using assms(4,5) by (simp add: issue_session_def x)
  then show ?thesis using assms(3) by (auto simp: login_def Let_def)
qed

text \<open>
  C38: logging out ends the session at once and for good: no later request with the token is admitted,
  while the sessions of other tokens keep their rows.
\<close>

theorem logout_ends_session:
  assumes "\<And>b. digest_shape (sha256 b)" "distinct (map se_digest (sessions db))"
    and "logout sha256 x (Some raw) db = Inr db'"
  shows "authenticated sha256 y db' (Some raw) = Inl Unauthorized
     \<and> filter (\<lambda>r. se_digest r \<noteq> sha256 (utf8 raw)) (sessions db') = filter (\<lambda>r. se_digest r \<noteq> sha256 (utf8 raw)) (sessions db)"
proof -
  let ?d = "sha256 (utf8 raw)"
  obtain x' who where a: "authenticated sha256 x db (Some raw) = Inr (x', who)" and r: "revoke_current_session x' db = Inr db'"
    using assms(3) by (auto simp: logout_def rbind_Inr_iff)
  have raw: "raw \<noteq> []" "length raw \<le> 1024"
    using a by (auto simp: authenticated_def resolve_identity_def split: if_splits)
  have "the (x_digest_hex x') = hex_encode ?d"
    using a authenticated_iff [OF raw, of sha256 x db, OF assms(1)] by (auto split: list.splits)
  then have d: "hex_decode (the (x_digest_hex x')) = ?d"
    using hex_roundtrip [of ?d] assms(1) [of "utf8 raw"] by (simp add: digest_shape_def)
  have "resolve_session y db' ?d = []" using revoked_unresolved [OF assms(2) r] by (simp add: d)
  then have "authenticated sha256 y db' (Some raw) = Inl Unauthorized"
    using authenticated_iff [OF raw, of sha256 y db', OF assms(1)] by simp
  moreover have "filter (\<lambda>r. se_digest r \<noteq> ?d) (sessions db') = filter (\<lambda>r. se_digest r \<noteq> ?d) (sessions db)"
    unfolding revoke_effect(4) [OF r] d by (rule filter_map_other) simp
  ultimately show ?thesis by blast
qed

text \<open>
  Bootstrapping creates one user, who can log in.  After a successful bootstrap the chosen name and
  password authenticate that user as the seeded Actor, and any further bootstrap is refused.  The only
  assumption on Argon2 is that a password verifies against its own hash.
\<close>

theorem bootstrap_once:
  assumes "\<And>p. verify (hash p) p" "distinct (map ac_id (actors db))"
    and "bootstrap_user blank hash x org fresh username password db = Inr (u, db')"
  shows "authenticate_password verify dummy (set_organization org x) db' username password = Some (u, ACTOR_ID)
     \<and> bootstrap_user blank' hash' y org' fresh' name' password' db' \<in> {Inl ValueError, Inl ValidationError}"
proof
  show "authenticate_password verify dummy (set_organization org x) db' username password = Some (u, ACTOR_ID)"
    by (rule bootstrap_authenticates [where verify = verify and hash = hash, OF assms])
  have "\<exists>v \<in> set (users db'). us_org v = ORGANIZATION_ID"
    using bootstrap_Inr(1,5) [OF assms(3)] by simp
  then show "bootstrap_user blank' hash' y org' fresh' name' password' db' \<in> {Inl ValueError, Inl ValidationError}"
    by (auto simp: bootstrap_user_def Let_def ensure_def visible_def set_organization_def)
qed

text \<open>
  C39: a deployment starts.  After the initial user has been bootstrapped into the seeded organization of
  a database without sessions, a login with the chosen name and password returns a token, and a request
  with this token is performed by the seeded Actor in that organization.
\<close>

theorem bootstrap_then_login:
  assumes "\<And>p. verify (hash p) p" "\<And>b. digest_shape (sha256 b)" "distinct (map ac_id (actors db))" "sessions db = []"
    and "bootstrap_user blank hash x org fresh username password db = Inr (u, db1)"
    and "make_settings absolute s = Inr s" "st_organization s = ORGANIZATION_ID" "raw \<noteq> []" "length raw \<le> 1024"
  shows "\<exists>e db2. login sha256 verify dummy s x sid raw username password db1 = Inr ((raw, e), db2)
     \<and> (\<exists>y who. authenticated sha256 x db2 (Some raw) = Inr (y, who) \<and> organization_id who = ORGANIZATION_ID
          \<and> user_id who = u \<and> actor_id who = ACTOR_ID)"
proof -
  note b = bootstrap_Inr [OF assms(5)]
  have p: "authenticate_password verify dummy (set_organization (st_organization s) x) db1 username password = Some (u, ACTOR_ID)"
    using bootstrap_authenticates [where verify = verify and hash = hash, OF assms(1,3,5)] b(1) assms(7) by simp
  have "sessions db1 = []" using assms(4) by (simp add: b(5))
  then obtain e db2 where l: "login sha256 verify dummy s x sid raw username password db1 = Inr ((raw, e), db2)"
    using login_succeeds [where ?sha256.0 = sha256 and raw = raw and sid = sid, OF assms(6,2) p] by auto
  obtain user actor where i: "e = At (x_now x + st_seconds s * second_us)"
    "authenticate_password verify dummy (set_organization (st_organization s) x) db1 username password = Some (user, actor)"
    "issue_session (set_organization (st_organization s) x) user (Some sid) (Some (sha256 (utf8 raw))) (Some e) db1 = Inr db2"
    by (rule login_Inr [OF l])
  have user: "user = u" using i(2) p by simp
  have x: "x_org (set_organization (st_organization s) x) = Some ORGANIZATION_ID" using assms(7) by (simp add: set_organization_def)
  have live: "At (x_now x) < e" using i(1) make_settings_Inr [OF assms(6)] by (simp add: second_us_def)
  obtain a rest where r: "resolve_session x db2 (sha256 (utf8 raw)) = (ORGANIZATION_ID, u, a) # rest"
    using issued_resolves [OF i(3) x live] user by blast
  have "(ORGANIZATION_ID, u, a) \<in> set (resolve_session x db2 (sha256 (utf8 raw)))" by (simp add: r)
  then obtain v w where v: "v \<in> set (users db1)" "us_id v = u" "w \<in> set (user_actors db1 v)" "ac_id w = a"
    using resolve_issued [OF i(3) x, of x] live user by auto
  then have "us_actor v = ACTOR_ID" using b(5,6) by auto
  then have "a = ACTOR_ID" using v(3,4) by (simp add: user_actors_def)
  then show ?thesis using l r authenticated_iff [OF assms(8,9), of sha256 x db2, OF assms(2)] by auto
qed

section \<open>Instances\<close>

definition seeded :: fleet where
  "seeded = empty_fleet\<lparr>organizations := [ORGANIZATION_ID],
     actors := [\<lparr>ac_id = ACTOR_ID, ac_org = ORGANIZATION_ID, ac_type = HUMAN, ac_name = [65], ac_active = True,
                 ac_created_by = ACTOR_ID\<rparr>]\<rparr>"

definition argon :: "pgtext \<Rightarrow> pgtext" where
  "argon p = lit ''$argon2id$'' @ p"

lemma bootstrap_ok:
  "\<exists>db'. bootstrap_user pg_space argon (auth_ctx\<lparr>x_org := None\<rparr>) ORGANIZATION_ID 60 [97, 98] [112] seeded = Inr (60, db')"
  by (simp add: bootstrap_user_def seeded_def empty_fleet_def insert_user_def user_check_def username_ok_def argon_def
      lit_def length_between_def btrim_def btrim_set_def pg_space_def visible_def set_organization_def auth_ctx_def Let_def)

theorem bootstrap_once_witness:
  "\<exists>db'. bootstrap_user pg_space argon (auth_ctx\<lparr>x_org := None\<rparr>) ORGANIZATION_ID 60 [97, 98] [112] seeded = Inr (60, db')
     \<and> authenticate_password (\<lambda>h p. h = argon p) [] (set_organization ORGANIZATION_ID (auth_ctx\<lparr>x_org := None\<rparr>)) db' [97, 98] [112]
         = Some (60, ACTOR_ID)"
proof -
  obtain db' where b: "bootstrap_user pg_space argon (auth_ctx\<lparr>x_org := None\<rparr>) ORGANIZATION_ID 60 [97, 98] [112] seeded = Inr (60, db')"
    using bootstrap_ok by blast
  have "distinct (map ac_id (actors seeded))" by (simp add: seeded_def empty_fleet_def)
  from bootstrap_once [where verify = "\<lambda>h p. h = argon p", OF refl this b] b show ?thesis by blast
qed

definition ex_settings :: "uuid \<Rightarrow> settings" where
  "ex_settings org =
     \<lparr>st_database = \<lparr>ul_driver = lit ''postgresql+psycopg'', ul_user = Some (lit ''fleetops_app'')\<rparr>,
      st_organization = org,
      st_authenticator = \<lparr>ul_driver = lit ''postgresql+psycopg'', ul_user = Some (lit ''fleetops_authenticator'')\<rparr>,
      st_seconds = 43200, st_evidence_root = None, st_upload_limit = 16777216, st_label_root = None\<rparr>"

definition zero_digest :: "bytes \<Rightarrow> bytes" where
  "zero_digest b = replicate 32 0"

lemma ex_settings_ok: "make_settings (\<lambda>_. True) (ex_settings org) = Inr (ex_settings org)"
  by (simp add: make_settings_def ex_settings_def url_for_def)

lemma zero_digest_shape: "digest_shape (zero_digest b)"
  by (simp add: zero_digest_def digest_shape_def)

lemma auth_password: "authenticate_password (\<lambda>h p. h = p) [0] auth_ctx auth_db [97] [98] = Some (11, 10)"
  by code_simp

lemma auth_context: "set_organization (st_organization (ex_settings 1)) auth_ctx = auth_ctx"
  by (simp add: set_organization_def ex_settings_def auth_ctx_def)

theorem login_succeeds_witness:
  "\<exists>e db'. login zero_digest (\<lambda>h p. h = p) [0] (ex_settings 1) auth_ctx 12 [116] [97] [98] auth_db = Inr (([116], e), db')"
proof -
  have "sessions auth_db = []" by (simp add: auth_db_def empty_fleet_def)
  then show ?thesis
    using login_succeeds [where ?sha256.0 = zero_digest and s = "ex_settings 1" and x = auth_ctx, OF ex_settings_ok zero_digest_shape,
        unfolded auth_context, OF auth_password] by simp
qed

lemma auth_login: "\<exists>t db'. login zero_digest (\<lambda>h p. h = p) [0] (ex_settings 1) auth_ctx 12 [116] [97] [98] auth_db = Inr (([116], t), db')
   \<and> sessions db' = [\<lparr>se_id = 12, se_org = 1, se_user = 11, se_digest = replicate 32 0, se_active = True,
                    se_created = At 1000, se_expires = t\<rparr>] \<and> At 1000 < t"
  unfolding login_def auth_context auth_password Let_def
  by (simp add: issue_session_def auth_ctx_def ex_settings_def second_us_def zero_digest_def auth_db_def empty_fleet_def
      login_identity_def user_actors_def day_us_def)

theorem login_grants_session_witness:
  "\<exists>t db'. login zero_digest (\<lambda>h p. h = p) [0] (ex_settings 1) auth_ctx 12 [116] [97] [98] auth_db = Inr (([116], At t), db')
     \<and> x_now auth_ctx + second_us \<le> t \<and> t \<le> x_now auth_ctx + day_us"
proof -
  obtain e db' where l: "login zero_digest (\<lambda>h p. h = p) [0] (ex_settings 1) auth_ctx 12 [116] [97] [98] auth_db = Inr (([116], e), db')"
    using auth_login by blast
  have "[116::nat] \<noteq> []" "length [116::nat] \<le> 1024" by simp_all
  then obtain t where "e = At t" "x_now auth_ctx + second_us \<le> t" "t \<le> x_now auth_ctx + day_us"
    using login_grants_session [where ?sha256.0 = zero_digest and y = auth_ctx, OF ex_settings_ok zero_digest_shape _ _ l] by auto
  then show ?thesis using l by blast
qed

theorem logout_ends_session_witness:
  "\<exists>db1 db2. logout zero_digest auth_ctx (Some [116]) db1 = Inr db2
     \<and> authenticated zero_digest auth_ctx db2 (Some [116]) = Inl Unauthorized"
proof -
  have "distinct (map se_digest (sessions auth_issued))" by (simp add: auth_issued_def)
  moreover have "\<not> raised (logout zero_digest auth_ctx (Some [116]) auth_issued)" by code_simp
  then obtain db2 where "logout zero_digest auth_ctx (Some [116]) auth_issued = Inr db2"
    by (cases "logout zero_digest auth_ctx (Some [116]) auth_issued") simp_all
  ultimately show ?thesis
    using logout_ends_session [where ?sha256.0 = zero_digest and y = auth_ctx, OF zero_digest_shape] by blast
qed

theorem bootstrap_then_login_witness:
  "\<exists>db1 e db2. login zero_digest (\<lambda>h p. h = argon p) [] (ex_settings ORGANIZATION_ID) (auth_ctx\<lparr>x_org := None\<rparr>) 12 [116] [97, 98] [112] db1
     = Inr (([116], e), db2)"
proof -
  obtain db1 where b: "bootstrap_user pg_space argon (auth_ctx\<lparr>x_org := None\<rparr>) ORGANIZATION_ID 60 [97, 98] [112] seeded = Inr (60, db1)"
    using bootstrap_ok by blast
  have d: "distinct (map ac_id (actors seeded))" "sessions seeded = []" by (simp_all add: seeded_def empty_fleet_def)
  have "[116::nat] \<noteq> []" "length [116::nat] \<le> 1024" "st_organization (ex_settings ORGANIZATION_ID) = ORGANIZATION_ID"
    by (simp_all add: ex_settings_def)
  then show ?thesis
    using bootstrap_then_login [where verify = "\<lambda>h p. h = argon p" and hash = argon and ?sha256.0 = zero_digest and raw = "[116]",
        OF refl zero_digest_shape d b ex_settings_ok] by blast
qed

end
