(* ===== verification/HistoryView.thy ===== *)
theory HistoryView
  imports AssetRecords FleetProperties "HOL-Library.Product_Lexorder"
begin

text \<open>
  The audit view of one Asset, \<open>domain/history.py\<close>: the entries of the five history classes, merged
  with those of the other branches of the union, in their order of presentation, and the pass that names
  for each reversal the entry it cancels.

  The other branches are a parameter, a list of entries whose kinds are not among the five; so is the
  place of a kind's name in the collation of the database.
\<close>

section \<open>Entries\<close>

datatype history_kind =
    TRANSITION_ENTRY | MOVEMENT_ENTRY | CUSTODY_ENTRY | OWNERSHIP_ENTRY | ASSIGNMENT_ENTRY | Other_entry pgtext

text \<open>The facts of an entry that the pass reads: \<open>correction_role\<close> when present, \<open>_root\<close> and the generation.\<close>

record view_entry =
  en_kind :: history_kind
  en_id :: uuid
  en_actor :: uuid
  en_occurred :: tstz
  en_recorded :: tstz
  en_version :: "int option"
  en_role :: "correction_role option"
  en_root :: "uuid option"
  en_generation :: int

definition asset_entry :: "history_kind \<Rightarrow> 'f hrow \<Rightarrow> view_entry" where
  "asset_entry k h =
     \<lparr>en_kind = k, en_id = h_id h, en_actor = h_actor h, en_occurred = h_occurred h, en_recorded = h_recorded h,
      en_version = Some (h_version h), en_role = Some (h_role h), en_root = h_root h, en_generation = h_generation h\<rparr>"

definition branch :: "ctx \<Rightarrow> uuid \<Rightarrow> history_kind \<Rightarrow> 'f hrow list \<Rightarrow> view_entry list" where
  "branch x i k rows = map (asset_entry k) (filter (\<lambda>h. visible x (h_org h) \<and> h_asset h = i) rows)"

definition asset_entries :: "ctx \<Rightarrow> fleet \<Rightarrow> uuid \<Rightarrow> view_entry list" where
  "asset_entries x db i =
     branch x i TRANSITION_ENTRY (asset_transitions db) @ branch x i MOVEMENT_ENTRY (asset_movements db)
     @ branch x i CUSTODY_ENTRY (asset_custody_changes db) @ branch x i OWNERSHIP_ENTRY (asset_ownership_changes db)
     @ branch x i ASSIGNMENT_ENTRY (asset_assignment_events db)"

section \<open>The view\<close>

definition presented :: "(history_kind \<Rightarrow> nat) \<Rightarrow> view_entry list \<Rightarrow> view_entry list" where
  "presented place = sort_key (\<lambda>e. (en_occurred e, en_recorded e, place (en_kind e), en_id e))"

definition entry_key :: "view_entry \<Rightarrow> history_kind \<times> uuid option \<times> int" where
  "entry_key e = (en_kind e, en_root e, en_generation e)"

definition corrections_by_key :: "view_entry list \<Rightarrow> ((history_kind \<times> uuid option \<times> int) \<times> uuid) list" where
  "corrections_by_key es =
     fold (\<lambda>e. dict_set (entry_key e) (en_id e)) (filter (\<lambda>e. en_role e = Some CORRECTED) es) []"

definition cancelled :: "((history_kind \<times> uuid option \<times> int) \<times> uuid) list \<Rightarrow> view_entry \<Rightarrow> uuid option" where
  "cancelled corrections e =
     (if en_role e = Some REVERSAL
      then if en_generation e = 1 then en_root e
           else map_of corrections (en_kind e, en_root e, en_generation e - 1)
      else None)"

definition asset_history ::
  "(history_kind \<Rightarrow> nat) \<Rightarrow> ctx \<Rightarrow> uuid \<Rightarrow> view_entry list \<Rightarrow> fleet
   \<Rightarrow> py_error + (asset_row \<times> (view_entry \<times> uuid option) list \<times> uuid list)" where
  "asset_history place x i others db =
     (case List.find (\<lambda>a. visible x (as_org a) \<and> as_id a = i) (assets db) of
        None \<Rightarrow> Inl NotFound
      | Some a \<Rightarrow>
          (let es = presented place (asset_entries x db i @ others); corrections = corrections_by_key es in
           Inr (a, map (\<lambda>e. (e, cancelled corrections e)) es,
                map cf_id (sort_key cf_seq (filter (\<lambda>c. visible x (cf_org c) \<and> cf_asset c = i) (asset_configurations db))))))"

section \<open>Pointers\<close>

text \<open>
  In a well-formed class the entries of the view of that kind are its rows, so its pointers are those of
  the class's own listing.
\<close>

lemma pointer_agrees:
  assumes t: "table_ok initial rows" and m: "(h, n) \<in> set (audit_rows (asset_rows org i rows))"
    and es: "filter (\<lambda>e. en_kind e = k) es = map (asset_entry k) hs" "set hs = set (asset_rows org i rows)"
  shows "cancelled (corrections_by_key es) (asset_entry k h) = n"
proof (cases "h_role h = REVERSAL \<and> h_generation h \<noteq> 1")
  case False
  then show ?thesis using m by (auto simp: cancelled_def asset_entry_def audit_rows_def Let_def)
next
  case True
  have h: "h \<in> set rows" "of_asset org i h" using m by (auto simp: audit_rows_def Let_def set_asset_rows)
  obtain q where q: "q \<in> set rows" "of_asset org i q" "n = Some (h_id q)" "predecessor h q"
    using audit_names_predecessor [OF t m] True by blast
  obtain q' where only: "\<And>p. p \<in> set rows \<Longrightarrow> predecessor h p \<Longrightarrow> p = q'"
    using reversal_predecessor [OF t h(1)] True by metis
  have k: "h_root q = h_root h" "h_generation q = h_generation h - 1" "h_role q = CORRECTED" "h_generation h > 1"
    "h_root h \<noteq> None"
    using q(4) True by (auto simp: predecessor_def)
  have in_es: "e \<in> set es \<and> en_kind e = k \<longleftrightarrow> (\<exists>p \<in> set (asset_rows org i rows). e = asset_entry k p)" for e
    using arg_cong [OF es(1), of set] es(2) by auto
  let ?c = "filter (\<lambda>e. en_role e = Some CORRECTED) es"
  have "asset_entry k q \<in> set ?c"
    using in_es [of "asset_entry k q"] q(1,2) k(3) by (auto simp: set_asset_rows asset_entry_def)
  moreover have "\<forall>e \<in> set ?c. entry_key e = entry_key (asset_entry k q) \<longrightarrow> en_id e = en_id (asset_entry k q)"
  proof (intro ballI impI)
    fix e assume e: "e \<in> set ?c" "entry_key e = entry_key (asset_entry k q)"
    then have "en_kind e = k" "e \<in> set es" by (simp_all add: entry_key_def asset_entry_def)
    then obtain p where p: "p \<in> set rows" "of_asset org i p" "e = asset_entry k p"
      using in_es [of e] by (auto simp: set_asset_rows)
    have "predecessor h p"
      using e p(2,3) h(2) k by (simp add: entry_key_def asset_entry_def predecessor_def of_asset_def)
    then have "p = q" using only p(1) q(1,4) by metis
    then show "en_id e = en_id (asset_entry k q)" using p(3) by simp
  qed
  ultimately have "map_of (corrections_by_key es) (entry_key (asset_entry k q)) = Some (en_id (asset_entry k q))"
    unfolding corrections_by_key_def by (rule map_of_fold_unique)
  moreover have "entry_key (asset_entry k q) = (k, h_root h, h_generation h - 1)"
    using k by (simp add: entry_key_def asset_entry_def)
  ultimately show ?thesis using True q(3) by (simp add: cancelled_def asset_entry_def)
qed

lemma sort_key_map: "sort_key f (map g xs) = map g (sort_key (\<lambda>x. f (g x)) xs)"
proof (induction xs)
  case (Cons x xs)
  have "insort_key f (g x) (map g ys) = map g (insort_key (\<lambda>x. f (g x)) x ys)" for ys
    by (induction ys) simp_all
  then show ?case using Cons by (simp add: sort_key_def)
qed simp

lemma filter_branch:
  "filter (\<lambda>e. en_kind e = k) (branch x i k' rows) = (if k = k' then branch x i k' rows else [])"
  by (auto simp: branch_def asset_entry_def filter_empty_conv filter_id_conv)

lemma filter_presented:
  "filter (\<lambda>e. en_kind e = k) (presented place es) = presented place (filter (\<lambda>e. en_kind e = k) es)"
  by (simp add: presented_def filter_sort)

definition listed_as ::
  "history_kind \<Rightarrow> (view_entry \<times> uuid option) list \<Rightarrow> ('f hrow \<times> uuid option) list \<Rightarrow> bool" where
  "listed_as k view rows \<longleftrightarrow>
     mset (filter (\<lambda>(e, n). en_kind e = k) view) = mset (map (\<lambda>(h, n). (asset_entry k h, n)) rows)"

lemma class_listed:
  assumes c: "class_ok cls db" and o: "x_org x = Some org"
    and es: "filter (\<lambda>e. en_kind e = k) es = presented place (branch x i k (hc_rows cls db))"
  shows "listed_as k (map (\<lambda>e. (e, cancelled (corrections_by_key es) e)) es) (audit_rows (visible_rows x i (hc_rows cls db)))"
proof -
  let ?rows = "asset_rows org i (hc_rows cls db)"
  let ?p = "cancelled (corrections_by_key es)"
  have v: "visible_rows x i (hc_rows cls db) = ?rows" by (rule sorted_history [OF c o])
  have b: "branch x i k (hc_rows cls db) = map (asset_entry k) ?rows"
    unfolding branch_def asset_rows_def using o
    by (intro arg_cong [where f = "map (asset_entry k)"] filter_cong) (auto simp: visible_def of_asset_def)
  have t: "table_ok (hc_initial cls db) (hc_rows cls db)" using c by (simp add: class_ok_def)
  have hs: "presented place (map (asset_entry k) ?rows) = map (asset_entry k) (sort_key (\<lambda>h. (h_occurred h, h_recorded h,
      place k, h_id h)) ?rows)"
    unfolding presented_def by (simp add: sort_key_map asset_entry_def comp_def)
  have at: "?p (asset_entry k h) = n" if "(h, n) \<in> set (audit_rows ?rows)" for h n
    by (rule pointer_agrees [OF t that es [unfolded b hs]]) simp
  have "mset (filter (\<lambda>(e, n). en_kind e = k) (map (\<lambda>e. (e, ?p e)) es))
      = image_mset (\<lambda>e. (e, ?p e)) (mset (filter (\<lambda>e. en_kind e = k) es))"
    by (simp add: filter_map comp_def)
  also have "\<dots> = image_mset (\<lambda>e. (e, ?p e)) (mset (map (asset_entry k) ?rows))"
    by (simp add: es b presented_def)
  also have "\<dots> = image_mset (\<lambda>h. (asset_entry k h, ?p (asset_entry k h))) (mset (map fst (audit_rows ?rows)))"
    by (simp add: multiset.map_comp comp_def)
  also have "\<dots> = image_mset (\<lambda>(h, n). (asset_entry k h, n)) (mset (audit_rows ?rows))"
    unfolding mset_map multiset.map_comp using at by (intro image_mset_cong) auto
  finally show ?thesis by (simp add: listed_as_def v)
qed

text \<open>
  C40: the audit view and the histories of the classes tell the same story.  In a reachable fleet the
  entries of each class in the view are exactly the rows its own listing returns, each once, and every
  reversal points to the same cancelled entry, whatever the other branches of the union contribute.
\<close>

theorem history_view_exact:
  assumes "reachable db" "asset_history place x i others db = Inr (a, view, order)"
    and "\<forall>e \<in> set others. \<exists>t. en_kind e = Other_entry t"
  shows "listed_as TRANSITION_ENTRY view (audit_rows (visible_rows x i (asset_transitions db)))
     \<and> listed_as MOVEMENT_ENTRY view (audit_rows (visible_rows x i (asset_movements db)))
     \<and> listed_as CUSTODY_ENTRY view (audit_rows (visible_rows x i (asset_custody_changes db)))
     \<and> listed_as OWNERSHIP_ENTRY view (audit_rows (visible_rows x i (asset_ownership_changes db)))
     \<and> listed_as ASSIGNMENT_ENTRY view (audit_rows (visible_rows x i (asset_assignment_events db)))"
proof -
  let ?es = "presented place (asset_entries x db i @ others)"
  have v: "view = map (\<lambda>e. (e, cancelled (corrections_by_key ?es) e)) ?es" "x_org x = Some (as_org a)"
    using assms(2) by (auto simp: asset_history_def Let_def visible_def split: option.splits dest!: find_Some_in)
  have none: "filter (\<lambda>e. en_kind e = k) others = []" if "\<forall>t. k \<noteq> Other_entry t" for k
    using assms(3) that by (fastforce simp: filter_empty_conv)
  note F = filter_presented filter_append asset_entries_def filter_branch none
  note ok = ok_classes [OF reachable_fleet_ok [OF assms(1)]]
  note C = class_listed [OF ok(1) v(2), of TRANSITION_ENTRY ?es place i] class_listed [OF ok(2) v(2), of MOVEMENT_ENTRY ?es place i]
    class_listed [OF ok(3) v(2), of CUSTODY_ENTRY ?es place i] class_listed [OF ok(4) v(2), of OWNERSHIP_ENTRY ?es place i]
    class_listed [OF ok(5) v(2), of ASSIGNMENT_ENTRY ?es place i]
  show ?thesis
    unfolding v(1) using C by (simp add: F class_defs)
qed

theorem history_view_exact_witness:
  "\<exists>a view order. asset_history (\<lambda>_. 0) ex_ctx 100 [] ex_corrected = Inr (a, view, order)
     \<and> (asset_entry TRANSITION_ENTRY (ex_correction_row 4 IN_STOCK REVERSAL 106), Some 104) \<in> set view"
proof -
  have "List.find (\<lambda>a. visible ex_ctx (as_org a) \<and> as_id a = 100) (assets ex_corrected) \<noteq> None" by code_simp
  then obtain a view order where v: "asset_history (\<lambda>_. 0) ex_ctx 100 [] ex_corrected = Inr (a, view, order)"
    by (auto simp: asset_history_def Let_def)
  have m: "(ex_correction_row 4 IN_STOCK REVERSAL 106, Some 104) \<in> set (audit_rows (visible_rows ex_ctx 100 (asset_transitions ex_corrected)))"
    by code_simp
  have "listed_as TRANSITION_ENTRY view (audit_rows (visible_rows ex_ctx 100 (asset_transitions ex_corrected)))"
    using history_view_exact [OF ex_corrected_reachable v] by simp
  then have "set (filter (\<lambda>(e, n). en_kind e = TRANSITION_ENTRY) view)
      = (\<lambda>(h, n). (asset_entry TRANSITION_ENTRY h, n)) ` set (audit_rows (visible_rows ex_ctx 100 (asset_transitions ex_corrected)))"
    unfolding listed_as_def by (metis list.set_map set_mset_mset)
  then have "(asset_entry TRANSITION_ENTRY (ex_correction_row 4 IN_STOCK REVERSAL 106), Some 104) \<in> set view"
    using m by force
  then show ?thesis using v by blast
qed

end
