(* ===== verification/Spec2Isabelle.thy ===== *)
theory Spec2Isabelle
  imports FleetIsolation AuthProperties EvidenceProperties Corrections Space ProcurementProperties ReceivingProperties
    RecordProperties AssetRecords WorkflowProperties CaptureProperties LabelProperties CatalogProperties Login HistoryView
begin

text \<open>
  Verification of Defiant FleetOps, the server under \<open>server/\<close> (paths below are relative to
  \<open>server/fleetops\<close>, migrations to \<open>server/alembic/versions\<close>).

  \<^bold>\<open>The program.\<close>  FleetOps is a FastAPI service over one PostgreSQL database.  Much of its logic is in
  the database: migrations install PL/pgSQL operations, guard triggers, deferred constraint triggers and
  row security, and the Python services of \<open>domain\<close>, \<open>evidence\<close>, \<open>labels\<close> and \<open>capture\<close> call them and add
  validation, error translation and reads.  The model covers both layers and their composition.

  \<^bold>\<open>State.\<close>  \<open>Schema.fleet\<close> is the whole database: one list of rows for each table, in insertion order,
  after \<open>db/metadata.py\<close> and the other \<open>db/*_schema.py\<close>.  \<open>Schema.ctx\<close> is what a transaction carries besides
  its arguments: the two \<open>SET LOCAL\<close> settings, the Actor hint, the clock, the login role.  An operation is a
  function from a context, its arguments and the database to \<open>sqlstate + result \<times> fleet\<close> (SQL) or
  \<open>py_error + result \<times> fleet\<close> (Python); an error carries no state since its transaction rolls back.
  \<open>CHECK\<close>, unique and foreign keys and triggers are written out in the insert and update operations in
  the order in which PostgreSQL applies them.  The evidence and artifact stores are maps beside it.

  \<^bold>\<open>Theories and code.\<close>
    \<^item> \<open>Prelude\<close>: results and guards (\<open>rbind\<close>, \<open>ensure\<close>), SQL values (\<open>integer\<close> that raises on overflow,
      \<open>timestamptz\<close> with infinities, \<open>numeric\<close>), queries, Python dictionaries as association lists.
    \<^item> \<open>Schema\<close>, \<open>Auth\<close>, \<open>AuthProperties\<close>: tables; \<open>0002_identity_auth\<close>, \<open>0006_assets\<close>, \<open>auth.py\<close>, \<open>db/tenancy.py\<close>
      (sessions, password login, request context, attribution triggers).
    \<^item> \<open>Login\<close>: \<open>settings.py\<close>, login and logout of \<open>api/app.py\<close>, the bootstrapped user.
    \<^item> \<open>Lifecycle\<close>, \<open>History\<close>, \<open>HistoryChain\<close>, \<open>EffectiveReader\<close>: \<open>domain/lifecycle.py\<close>; correction pairs,
      effective views and anomalies of \<open>0011_corrections\<close>; the Python readers of \<open>domain/corrections.py\<close>.
    \<^item> \<open>Evidence\<close>, \<open>EvidenceProperties\<close>: \<open>evidence/\<close> and \<open>0012_evidence\<close>.
    \<^item> \<open>Assets\<close>, \<open>AssetInvariant\<close>, \<open>FleetSteps\<close>, \<open>FleetRun\<close>, \<open>FleetCreation\<close>, \<open>FleetEffects\<close>, \<open>FleetExample\<close>,
      \<open>FleetProperties\<close>, \<open>FleetIsolation\<close>: the eleven privileged operations on an Asset (\<open>0006\<close>-\<open>0008\<close>, \<open>0011\<close>),
      creation, the step relation \<open>fleet_step\<close>, its reachable states and their invariant \<open>fleet_ok\<close>.
    \<^item> \<open>AssetService\<close>, \<open>Corrections\<close>, \<open>Reconciliation\<close>, \<open>AssetRecords\<close>, \<open>HistoryView\<close>: \<open>domain/assets.py\<close>,
      \<open>corrections.py\<close>, \<open>asset_facts.py\<close>, \<open>reconciliation.py\<close>, \<open>assignments.py\<close>, \<open>configurations.py\<close>, \<open>history.py\<close>.
    \<^item> \<open>Space\<close>: \<open>domain/space.py\<close> and the acyclicity trigger.
    \<^item> \<open>Parties\<close>, \<open>Catalog\<close>, \<open>CatalogProperties\<close>: \<open>domain/identity.py\<close>, \<open>bootstrap_user.py\<close>, \<open>domain/catalog.py\<close>.
    \<^item> \<open>Procurement\<close>, \<open>ProcurementProperties\<close>: \<open>domain/procurement.py\<close> and \<open>0009_procurement\<close>.
    \<^item> \<open>Receiving\<close>, \<open>ReceivingService\<close>, \<open>ReceivingOps\<close>, \<open>ReceivingInvariant\<close>, \<open>ReceivingRun\<close>,
      \<open>ReceivingExample\<close>, \<open>ReceivingProperties\<close>: \<open>domain/receiving.py\<close> and \<open>0010_receiving\<close>.
    \<^item> \<open>RecordViews\<close>, \<open>EvaluationHealth\<close>, \<open>RecordGuards\<close>, \<open>RecordCorrections\<close>, \<open>RecordPairs\<close>, \<open>RecordRun\<close>,
      \<open>RecordExample\<close>, \<open>RecordProperties\<close>: corrections of order lines and receipt lines and their
      evaluations (\<open>domain/record_corrections.py\<close>, \<open>correction_*_0011.py\<close>).
    \<^item> \<open>StatusLog\<close>, \<open>SyncConflicts\<close>, \<open>ExceptionWorkflow\<close>, \<open>WorkflowProperties\<close>: the workflows of receiving
      exceptions and capture conflicts (\<open>domain/exception_workflow.py\<close>, \<open>capture/conflicts.py\<close>).
    \<^item> \<open>CapturePayload\<close>, \<open>Capture\<close>, \<open>CaptureRun\<close>, \<open>CaptureInvariant\<close>, \<open>CaptureFacts\<close>, \<open>CaptureExample\<close>,
      \<open>CaptureProperties\<close>: offline capture (\<open>capture/service.py\<close>, \<open>api/capture_schemas.py\<close>, \<open>0014_capture\<close>).
    \<^item> \<open>Labels\<close>, \<open>LabelExample\<close>, \<open>LabelProperties\<close>: \<open>labels/\<close> and \<open>0013_labels\<close>.

  \<^bold>\<open>Interfaces.\<close>  \<open>history_class\<close>, extended by \<open>fleet_class\<close> and \<open>fleet_writes\<close>, is the contract of a history
  table with its projection; the five tables interpret it, and the lemmas on ordinary and correcting
  operations are proved once in it.  \<open>correction_table\<close> is the contract of a correction table of records,
  interpreted for order lines and receipt lines; \<open>status_machine\<close> is a workflow replayed from a log of
  numbered events, interpreted for receiving exceptions and sync conflicts.  \<open>line_statements\<close> is what the
  statements behind a receipt line keep, interpreted for the row operations and for the added exceptions.

  \<^bold>\<open>What the lemmas show.\<close>
    \<^item> Assets: in every reachable fleet the projections refine the effective histories, versions are
      gapless, a version is used once, histories only grow, operations stay in their tenant and their
      Asset, transitions follow the lifecycle, retirement has evidence; the SQL and the Python readers of
      corrected histories agree, and so does the merged audit view.
    \<^item> Receiving and corrections: receiving records exactly the exceptions the captured facts require; a
      reconciled receipt is frozen but for what corrections add, and say they added; evaluations settle every disagreement, the two classifiers agree, calls compose.
    \<^item> Workflows, procurement, space, evidence: projections follow events, issued orders are frozen,
      listings are complete, location paths exist, stored content reads back.
    \<^item> Capture: replays change nothing, rejected operations change nothing else, stale operations become
      conflicts whose facts the SQL function confirms, sequence numbers are exact, batches compose with
      the services; an unreadable piece of evidence stops a batch at any position of its queue.
    \<^item> Labels, catalogue, login: identity is what a label encodes, finished jobs are final, every
      dispatch settles its attempt with the outcome its output calls for; catalogue keys and manufacturers hold through edits; a bootstrapped
      deployment can log in, for a session of the announced length, until logout.

  \<^bold>\<open>Bounds and termination.\<close>  Versions, generations and sequence numbers are integers whose additions
  raise 22003 outside \<open>integer\<close>; streams are bounded by \<open>bigint\<close>.  Recursive walks
  (\<open>Space.climb\<close>, \<open>Procurement.walk\<close>, \<open>Labels.remove_all\<close>) are total functions with a measure; no fuel is
  used.  Identifiers are natural numbers; where their text form matters they are below \<open>2 ^ 128\<close>.

  \<^bold>\<open>Parameters.\<close>  SHA-256, the Argon2 verifier, the IANA zone list, Pydantic's readers and whitespace,
  FastAPI's JSON encoder, Pillow and zxing, file-system faults and freshly drawn identifiers are
  arguments of the definitions that use them, with documented behaviour as named hypotheses.

  \<^bold>\<open>Not modelled.\<close>  Concurrency inside a transaction: row and advisory locks serialize the modelled
  operations, so a transaction is one step.  The branches of the audit view other than the five
  histories are a parameter of it.  Left out: \<open>capture/resolver.py\<close> (a table of column names), HTTP
  routing and response schemas, the schema-creating and downgrading parts of migrations, grants and
  role bootstrap, engine set-up, and the creation and update times of descriptive rows, which no
  modelled operation reads.
\<close>

end
